(* ===== verification/Prelude.thy ===== *)
theory Prelude
  imports Main
begin

text \<open>
  Shared vocabulary of the development: how values of the Go language are represented, and the
  generic facts the components rely on.

  \<^item> A Go \<open>string\<close> is a byte sequence, so it is a HOL \<^typ>\<open>string\<close> (a list of 8-bit characters).
  \<^item> A \<open>time.Time\<close> is an \<^typ>\<open>int\<close>: nanoseconds since the zero time, so that \<open>IsZero\<close>, \<open>Before\<close>,
    \<open>After\<close> and \<open>Equal\<close> are comparisons with 0 and with each other. A clock reading (\<open>time.Now()\<close>)
    is an argument of the operation that takes it; so is an identifier made by \<open>xid.New()\<close>.
  \<^item> A Go \<open>int\<close> or \<open>int64\<close> is an \<^typ>\<open>int\<close> in the signed 64-bit range; where an operation can leave
    the range, \<open>wrap64\<close> writes the wrap-around out.
  \<^item> A pointer to a struct that the code later changes in place is a reference into an object heap
    (\<open>'a heap\<close>), so that two indexes holding the same pointer see the same change.
  \<^item> A Go map is a HOL map. \<open>range\<close> visits its keys in an unspecified order: an operation whose result
    depends on the order takes the order as an argument \<open>ks\<close> with \<open>enumerates ks m\<close>.
  \<^item> A run-time panic (slice bounds, division by zero) is \<open>None\<close> of an option type.
\<close>

named_theorems store_simps \<open>behaviour of store operations on one key\<close>
named_theorems heap_simps \<open>laws of the object heap\<close>
named_theorems wf_intros \<open>operations keep the component's invariant\<close>

type_synonym time = int
type_synonym duration = int
type_synonym ref = nat
type_synonym 'a heap = "'a list"

abbreviation Nanosecond :: duration where "Nanosecond \<equiv> 1"
abbreviation Second :: duration where "Second \<equiv> 1000000000"
abbreviation Minute :: duration where "Minute \<equiv> 60 * Second"
abbreviation Hour :: duration where "Hour \<equiv> 60 * Minute"

definition IsZero :: "time \<Rightarrow> bool" where
  "IsZero t \<longleftrightarrow> t = 0"

section \<open>64-bit integers\<close>

definition max_int64 :: int where "max_int64 = 2 ^ 63 - 1"
definition min_int64 :: int where "min_int64 = - (2 ^ 63)"

definition in_int64 :: "int \<Rightarrow> bool" where
  "in_int64 x \<longleftrightarrow> min_int64 \<le> x \<and> x \<le> max_int64"

definition wrap64 :: "int \<Rightarrow> int" where
  "wrap64 x = (x + 2 ^ 63) mod 2 ^ 64 - 2 ^ 63"

lemma wrap64_range: "in_int64 (wrap64 x)"
proof -
  have "0 \<le> (x + 2 ^ 63) mod 2 ^ 64" and "(x + 2 ^ 63) mod 2 ^ 64 < (2::int) ^ 64"
    by simp_all
  then show ?thesis
    by (simp add: in_int64_def wrap64_def min_int64_def max_int64_def)
qed

lemma wrap64_id: "in_int64 x \<Longrightarrow> wrap64 x = x"
  by (simp add: in_int64_def wrap64_def min_int64_def max_int64_def)

lemma in_int64_small: "0 \<le> x \<Longrightarrow> x < 2 ^ 63 \<Longrightarrow> in_int64 x"
  by (simp add: in_int64_def min_int64_def max_int64_def)

text \<open>Go's integer division truncates towards zero.\<close>

definition go_div :: "int \<Rightarrow> int \<Rightarrow> int" where
  "go_div a b = sgn a * sgn b * (\<bar>a\<bar> div \<bar>b\<bar>)"

lemma go_div_nonneg: "0 \<le> a \<Longrightarrow> 0 < b \<Longrightarrow> go_div a b = a div b"
  by (cases "a = 0") (simp_all add: go_div_def)

section \<open>Slices\<close>

text \<open>\<open>s[lo:hi]\<close> on a slice whose capacity is its length: a run-time panic outside
  \<open>0 \<le> lo \<le> hi \<le> len\<close>.\<close>

definition go_slice :: "'a list \<Rightarrow> int \<Rightarrow> int \<Rightarrow> 'a list option" where
  "go_slice xs lo hi =
     (if 0 \<le> lo \<and> lo \<le> hi \<and> hi \<le> int (length xs)
      then Some (take (nat hi - nat lo) (drop (nat lo) xs)) else None)"

lemma go_slice_Some_iff:
  "(\<exists>ys. go_slice xs lo hi = Some ys) \<longleftrightarrow> 0 \<le> lo \<and> lo \<le> hi \<and> hi \<le> int (length xs)"
  by (simp add: go_slice_def)

lemma go_slice_length:
  "go_slice xs lo hi = Some ys \<Longrightarrow> int (length ys) = hi - lo"
  by (auto simp: go_slice_def split: if_splits)

section \<open>Object heaps\<close>

definition new_obj :: "'a \<Rightarrow> 'a heap \<Rightarrow> ref \<times> 'a heap" where
  "new_obj x h = (length h, h @ [x])"

definition load :: "'a heap \<Rightarrow> ref \<Rightarrow> 'a option" where
  "load h r = (if r < length h then Some (h ! r) else None)"

definition assign :: "'a heap \<Rightarrow> ref \<Rightarrow> 'a \<Rightarrow> 'a heap" where
  "assign h r x = h[r := x]"

text \<open>What a client of a heap may rely on: a new object is unaliased and readable, an assignment is
  seen through the assigned reference and through no other, and no object disappears.\<close>

locale object_heap =
  fixes alloc :: "'a \<Rightarrow> 'h \<Rightarrow> 'r \<times> 'h"
    and read :: "'h \<Rightarrow> 'r \<Rightarrow> 'a option"
    and put :: "'h \<Rightarrow> 'r \<Rightarrow> 'a \<Rightarrow> 'h"
  assumes alloc_fresh: "alloc x h = (r, h') \<Longrightarrow> read h r = None"
    and read_alloc: "alloc x h = (r, h') \<Longrightarrow> read h' r = Some x"
    and read_alloc_other: "alloc x h = (r, h') \<Longrightarrow> r' \<noteq> r \<Longrightarrow> read h' r' = read h r'"
    and read_put: "read h r \<noteq> None \<Longrightarrow> read (put h r x) r = Some x"
    and read_put_other: "r' \<noteq> r \<Longrightarrow> read (put h r x) r' = read h r'"
begin

lemma old_ref_not_new:
  assumes "alloc x h = (r, h')" and "read h r' = Some y"
  shows "r' \<noteq> r" and "read h' r' = Some y"
proof -
  show ne: "r' \<noteq> r" using alloc_fresh [OF assms(1)] assms(2) by auto
  show "read h' r' = Some y" using read_alloc_other [OF assms(1) ne] assms(2) by simp
qed

lemma put_keeps_allocated:
  assumes "read h r \<noteq> None" and "read h r' \<noteq> None"
  shows "read (put h r x) r' \<noteq> None"
  using assms by (cases "r' = r") (auto simp: read_put read_put_other)

end

interpretation list_heap: object_heap new_obj load assign
proof unfold_locales
  fix x :: 'a and h h' r
  assume a: "new_obj x h = (r, h')"
  show "load h r = None" and "load h' r = Some x"
    using a by (auto simp: new_obj_def load_def)
  show "load h' r' = load h r'" if "r' \<noteq> r" for r'
    using a that by (auto simp: new_obj_def load_def nth_append)
next
  fix h :: "'a heap" and r x
  assume "load h r \<noteq> None"
  then show "load (assign h r x) r = Some x"
    by (auto simp: load_def assign_def split: if_splits)
next
  fix h :: "'a heap" and r r' :: ref and x
  assume "r' \<noteq> r"
  then show "load (assign h r x) r' = load h r'"
    by (simp add: load_def assign_def)
qed

lemma load_append [heap_simps]:
  "load (h @ [x]) r = (if r = length h then Some x else load h r)"
  by (auto simp: load_def nth_append)

lemma load_length [heap_simps]: "load h (length h) = None"
  by (simp add: load_def)

lemma load_assign [heap_simps]:
  "load (assign h r x) r' = (if r' = r \<and> load h r \<noteq> None then Some x else load h r')"
  by (auto simp: load_def assign_def)

section \<open>Maps\<close>

definition enumerates :: "'k list \<Rightarrow> ('k \<rightharpoonup> 'v) \<Rightarrow> bool" where
  "enumerates ks m \<longleftrightarrow> distinct ks \<and> set ks = dom m"

text \<open>The values a \<open>range\<close> loop sees, in the order \<open>ks\<close>.\<close>

definition range_values :: "'k list \<Rightarrow> ('k \<rightharpoonup> 'v) \<Rightarrow> 'v list" where
  "range_values ks m = map (\<lambda>k. the (m k)) (filter (\<lambda>k. m k \<noteq> None) ks)"

definition map_of_keys :: "'k list \<Rightarrow> ('k \<rightharpoonup> 'v) \<Rightarrow> ('k \<times> 'v) list" where
  "map_of_keys ks m = map (\<lambda>k. (k, the (m k))) (filter (\<lambda>k. m k \<noteq> None) ks)"

text \<open>\<open>for k, v := range m { if P(k, v) { delete(m, k) } }\<close>: the order does not matter.\<close>

definition delete_where :: "('k \<Rightarrow> 'v \<Rightarrow> bool) \<Rightarrow> ('k \<rightharpoonup> 'v) \<Rightarrow> ('k \<rightharpoonup> 'v)" where
  "delete_where P m = (\<lambda>k. case m k of None \<Rightarrow> None | Some v \<Rightarrow> if P k v then None else Some v)"

lemma delete_where_Some_iff [store_simps]:
  "delete_where P m k = Some v \<longleftrightarrow> m k = Some v \<and> \<not> P k v"
  by (auto simp: delete_where_def split: option.splits)

lemma delete_where_None [store_simps]: "m k = None \<Longrightarrow> delete_where P m k = None"
  by (simp add: delete_where_def)

lemma delete_where_empty [simp]: "delete_where P Map.empty = Map.empty"
  by (auto simp: delete_where_def)

lemma delete_where_upd:
  "delete_where P (m(k \<mapsto> v)) =
     (if P k v then (delete_where P m)(k := None) else (delete_where P m)(k \<mapsto> v))"
  by (auto simp: delete_where_def)

lemma enumerates_length: "enumerates ks m \<Longrightarrow> length ks = card (dom m)"
  by (auto simp: enumerates_def dest: distinct_card)

lemma set_range_values: "enumerates ks m \<Longrightarrow> set (range_values ks m) = ran m"
  by (force simp: range_values_def enumerates_def ran_def dom_def image_iff)

lemma length_range_values: "enumerates ks m \<Longrightarrow> length (range_values ks m) = card (dom m)"
proof -
  assume e: "enumerates ks m"
  then have "filter (\<lambda>k. m k \<noteq> None) ks = ks"
    by (auto simp: enumerates_def filter_id_conv)
  with e show ?thesis by (simp add: range_values_def enumerates_length)
qed

lemma set_map_of_keys: "enumerates ks m \<Longrightarrow> set (map_of_keys ks m) = {(k, v). m k = Some v}"
  by (auto simp: map_of_keys_def enumerates_def)

end
