(* ===== verification/Store_Model.thy ===== *)
theory Store_Model
  imports Prelude
begin

text \<open>
  The data of \<open>internal/storage\<close>: the structs of \<open>models.go\<close>, the pending writes of \<open>writeop.go\<close>,
  and the in-memory store of \<open>memory.go\<close> (\<open>MemoryStore\<close>) with its write channels.

  Field names are the source's with the struct's name in front. A struct the store only ever replaces
  (a user, a session, a log line) is kept by value; a struct it changes through the stored pointer
  (a project, an API key, a setting) is a reference into that class's object heap, and every index,
  and every pending write, that holds the pointer holds the reference. The operations take the lock
  \<open>s.mu\<close> for their whole body, so each is one transition of the state.

  \<open>queueWrite\<close> appends to the channel; \<open>Write_Behind\<close> gives the channels their capacity and their
  consumers.
\<close>

section \<open>Status values\<close>

type_synonym DeploymentStatus = string
type_synonym AgentStatus = string
type_synonym RollbackStatus = string

abbreviation DeploymentStatusPending :: DeploymentStatus where "DeploymentStatusPending \<equiv> ''pending''"
abbreviation DeploymentStatusScheduled :: DeploymentStatus where "DeploymentStatusScheduled \<equiv> ''scheduled''"
abbreviation DeploymentStatusRunning :: DeploymentStatus where "DeploymentStatusRunning \<equiv> ''running''"
abbreviation DeploymentStatusSuccess :: DeploymentStatus where "DeploymentStatusSuccess \<equiv> ''success''"
abbreviation DeploymentStatusFailed :: DeploymentStatus where "DeploymentStatusFailed \<equiv> ''failed''"
abbreviation DeploymentStatusCancelled :: DeploymentStatus where "DeploymentStatusCancelled \<equiv> ''cancelled''"

definition IsTerminal :: "DeploymentStatus \<Rightarrow> bool" where
  "IsTerminal s \<longleftrightarrow>
     s = DeploymentStatusSuccess \<or> s = DeploymentStatusFailed \<or> s = DeploymentStatusCancelled"

abbreviation AgentStatusOnline :: AgentStatus where "AgentStatusOnline \<equiv> ''online''"
abbreviation AgentStatusConnected :: AgentStatus where "AgentStatusConnected \<equiv> ''connected''"
abbreviation AgentStatusStale :: AgentStatus where "AgentStatusStale \<equiv> ''stale''"

abbreviation AgentUpdatePolicyImmediate :: string where "AgentUpdatePolicyImmediate \<equiv> ''immediate''"
abbreviation AgentUpdatePolicyScheduled :: string where "AgentUpdatePolicyScheduled \<equiv> ''scheduled''"
abbreviation AgentUpdatePolicyManual :: string where "AgentUpdatePolicyManual \<equiv> ''manual''"
abbreviation UpdateStatusPending :: string where "UpdateStatusPending \<equiv> ''pending''"

definition IsHealthy :: "AgentStatus \<Rightarrow> bool" where
  "IsHealthy s \<longleftrightarrow> s = AgentStatusOnline \<or> s = AgentStatusConnected"

section \<open>Models\<close>

record User =
  user_ID :: string
  user_Username :: string
  user_PasswordHash :: string
  user_Email :: string
  user_Role :: string
  user_TOTPSecret :: string
  user_TOTPEnabled :: bool
  user_MustChangePassword :: bool
  user_CreatedAt :: time
  user_UpdatedAt :: time

record Session =
  session_ID :: string
  session_UserID :: string
  session_Token :: string
  session_IPAddress :: string
  session_UserAgent :: string
  session_CreatedAt :: time
  session_ExpiresAt :: time
  session_LastUsed :: time

record APIKey =
  apikey_ID :: string
  apikey_UserID :: string
  apikey_Name :: string
  apikey_KeyHash :: string
  apikey_KeyPrefix :: string
  apikey_Scopes :: string
  apikey_ExpiresAt :: "time option"
  apikey_LastUsedAt :: "time option"
  apikey_CreatedAt :: time

record Setting =
  setting_ID :: string
  setting_Category :: string
  setting_Key :: string
  setting_Value :: string
  setting_ValueType :: string
  setting_Encrypted :: bool
  setting_Description :: string
  setting_CreatedAt :: time
  setting_UpdatedAt :: time

record Project =
  project_ID :: string
  project_Name :: string
  project_Repository :: string
  project_Branch :: string
  project_DeployPath :: string
  project_TypeID :: "string option"
  project_CreatedAt :: time
  project_UpdatedAt :: time
  project_LastDeployAt :: "time option"
  project_LastDeployStatus :: string
  project_HealthCheckID :: "string option"
  project_AutoRollbackEnabled :: bool
  project_RollbackOnHealthFail :: bool

record ProjectType =
  ptype_ID :: string
  ptype_Name :: string
  ptype_Description :: string
  ptype_BuildCmd :: string
  ptype_ProjectCount :: int
  ptype_CreatedAt :: time

record ProjectWebhook =
  webhook_ID :: string
  webhook_ProjectID :: string
  webhook_Provider :: string
  webhook_SecretEncrypted :: "string"
  webhook_Enabled :: bool
  webhook_RequireSecret :: bool
  webhook_CreatedAt :: time
  webhook_UpdatedAt :: time

record Secret =
  secret_ID :: string
  secret_Project :: string
  secret_ProjectID :: "string option"
  secret_Scope :: string
  secret_Key :: string
  secret_ValueEncrypted :: string
  secret_CreatedAt :: time
  secret_UpdatedAt :: time

record DeploymentRecord =
  dep_ID :: string
  dep_Project :: string
  dep_ProjectID :: "string option"
  dep_Target :: string
  dep_Branch :: string
  dep_CommitHash :: string
  dep_Status :: DeploymentStatus
  dep_ReleaseNumber :: int
  dep_StartedAt :: time
  dep_CompletedAt :: "time option"
  dep_TriggeredBy :: string
  dep_TriggerSource :: string
  dep_ErrorMessage :: string

record DeploymentLog =
  dlog_ID :: string
  dlog_DeploymentID :: string
  dlog_Level :: string
  dlog_Message :: string
  dlog_Source :: string
  dlog_CreatedAt :: time

record DeploymentAgent =
  da_ID :: string
  da_DeploymentID :: string
  da_AgentID :: string
  da_Status :: DeploymentStatus
  da_StartedAt :: "time option"
  da_CompletedAt :: "time option"
  da_ErrorMessage :: string

record ScheduledDeployment =
  sched_ID :: string
  sched_Project :: string
  sched_Target :: string
  sched_Branch :: string
  sched_ScheduledAt :: time
  sched_ScheduledBy :: string
  sched_Status :: string

record DeploymentRollback =
  rb_ID :: string
  rb_DeploymentID :: string
  rb_ProjectName :: string
  rb_FromRelease :: int
  rb_ToRelease :: int
  rb_Reason :: string
  rb_TriggeredBy :: string
  rb_HealthCheckFailed :: bool
  rb_HealthCheckError :: string
  rb_Status :: RollbackStatus
  rb_ErrorMessage :: string
  rb_StartedAt :: time
  rb_CompletedAt :: "time option"

record Agent =
  agent_ID :: string
  agent_Hostname :: string
  agent_Labels :: "string \<rightharpoonup> string"
  agent_Capabilities :: string
  agent_Status :: AgentStatus
  agent_LastSeenAt :: time
  agent_RegisteredAt :: time
  agent_Certificate :: string
  agent_HMACSecret :: string
  agent_Version :: string
  agent_OS :: string
  agent_Arch :: string
  agent_UpdatePolicy :: string
  agent_UpdateWindowStart :: string
  agent_UpdateWindowEnd :: string
  agent_LastUpdateAt :: "time option"
  agent_LastUpdateError :: string

record AgentUpdateHistory =
  hist_ID :: string
  hist_AgentID :: string
  hist_FromVersion :: string
  hist_ToVersion :: string
  hist_Status :: string
  hist_ErrorMessage :: string
  hist_StartedAt :: time
  hist_CompletedAt :: "time option"
  hist_RolledBack :: bool

record AgentBinary =
  bin_ID :: string
  bin_Version :: string
  bin_OS :: string
  bin_Arch :: string
  bin_Path :: string
  bin_ChecksumSHA256 :: string
  bin_SizeBytes :: int
  bin_UploadedAt :: time
  bin_IsCurrent :: bool

record AuditEntry =
  audit_ID :: string
  audit_Timestamp :: time
  audit_Source :: string
  audit_User :: string
  audit_Action :: string
  audit_Resource :: string
  audit_ResourceID :: string
  audit_ResourceData :: string
  audit_Details :: string
  audit_IPAddress :: string
  audit_Result :: string

record BlockedIP =
  blk_ID :: string
  blk_IPAddress :: string
  blk_Reason :: string
  blk_BlockedAt :: time
  blk_ExpiresAt :: time
  blk_BlockedBy :: string

record RateLimitRecord =
  rl_ID :: string
  rl_Key :: string
  rl_Bucket :: string
  rl_Count :: int
  rl_WindowStart :: time
  rl_WindowEnd :: time

section \<open>Pending writes\<close>

datatype WriteOpType = WriteOpInsert | WriteOpUpdate | WriteOpDelete

text \<open>The dynamic type and value of \<open>WriteOp.Data\<close>, an \<open>any\<close>. A pointer to an object that may
  still change is a reference; \<open>map[string]string\<close>, \<open>map[string]any\<close> and \<open>map[string]time.Time\<close>
  literals are lists of pairs. \<open>StructPtr T fs\<close> is a pointer to a struct of another class that does
  not change any more: its type name, and the values of its fields by name; the result of a
  marshalling method such as \<open>ContentJSON\<close> stands under the method's name and is absent when the method
  fails. \<open>ObjPtr T r\<close> is a pointer to a struct of another class that may still change.\<close>

datatype AnyValue =
    AnyString string
  | AnyInt int
  | AnyBool bool
  | AnyTime time
  | AnyBytes string
  | AnyStringPtr "string option"
  | AnyTimePtr "time option"

datatype WriteData =
    UserPtr User
  | SessionPtr Session
  | APIKeyPtr ref
  | SettingPtr ref
  | ProjectPtr ref
  | ProjectTypePtr ProjectType
  | WebhookPtr ref
  | SecretPtr ref
  | DeploymentPtr ref
  | DeploymentLogPtr DeploymentLog
  | RollbackPtr ref
  | ScheduledPtr ref
  | AuditEntryPtr AuditEntry
  | BlockedIPPtr BlockedIP
  | RateLimitPtr ref
  | AgentPtr ref
  | AgentBinaryPtr ref
  | AgentUpdatePtr ref
  | StructPtr string "(string \<times> AnyValue) list"
  | ObjPtr string ref
  | StringData string
  | Int64Data int
  | StringMapData "(string \<times> string) list"
  | TimeMapData "(string \<times> time) list"
  | AnyMapData "(string \<times> AnyValue) list"

record WriteOp =
  op_Type :: WriteOpType
  op_Table :: string
  op_Data :: WriteData
  op_Timestamp :: time

definition NewWriteOp :: "WriteOpType \<Rightarrow> string \<Rightarrow> WriteData \<Rightarrow> time \<Rightarrow> WriteOp" where
  "NewWriteOp t table data now =
     \<lparr>op_Type = t, op_Table = table, op_Data = data, op_Timestamp = now\<rparr>"

section \<open>The store\<close>

record CoreTables =
  users :: "string \<rightharpoonup> User"
  usersByName :: "string \<rightharpoonup> User"
  sessions :: "string \<rightharpoonup> Session"
  apiKeys :: "string \<rightharpoonup> ref"
  apiKeysByUser :: "string \<rightharpoonup> ref list"
  apiKeyObjs :: "APIKey heap"
  settings :: "string \<rightharpoonup> ref"
  settingObjs :: "Setting heap"
  coreWrites :: "WriteOp list"

record ProjectTables = CoreTables +
  projects :: "string \<rightharpoonup> ref"
  projectsByName :: "string \<rightharpoonup> ref"
  projectObjs :: "Project heap"
  projectTypes :: "string \<rightharpoonup> ProjectType"
  webhooks :: "string \<rightharpoonup> ref"
  webhookObjs :: "ProjectWebhook heap"
  secrets :: "string \<rightharpoonup> ref"
  secretObjs :: "Secret heap"
  projectsWrites :: "WriteOp list"

record DeploymentTables = ProjectTables +
  deployments :: "string \<rightharpoonup> ref"
  deploymentObjs :: "DeploymentRecord heap"
  deploymentLogs :: "string \<rightharpoonup> DeploymentLog list"
  deploymentRollbacks :: "string \<rightharpoonup> ref"
  rollbackObjs :: "DeploymentRollback heap"
  scheduledDeploys :: "string \<rightharpoonup> ref"
  scheduledObjs :: "ScheduledDeployment heap"
  deploymentAgents :: "string \<rightharpoonup> DeploymentAgent list"
  deploymentsWrites :: "WriteOp list"

record AgentTables = DeploymentTables +
  agents :: "string \<rightharpoonup> ref"
  agentObjs :: "Agent heap"
  agentBinaries :: "string \<rightharpoonup> ref"
  binaryObjs :: "AgentBinary heap"
  agentUpdates :: "string \<rightharpoonup> ref"
  historyObjs :: "AgentUpdateHistory heap"
  agentsWrites :: "WriteOp list"

record MemoryStore = AgentTables +
  auditLogs :: "AuditEntry list"
  auditWrites :: "WriteOp list"
  blockedIPs :: "string \<rightharpoonup> BlockedIP"
  rateLimits :: "string \<rightharpoonup> ref"
  rateLimitObjs :: "RateLimitRecord heap"
  ratelimitWrites :: "WriteOp list"

datatype store_error = ErrNotFound | ErrDuplicate | ErrValidation | ErrText string

type_synonym 'a result = "store_error + 'a"

text \<open>\<open>NewMemoryStore\<close>: every map made empty, every channel empty.\<close>

definition NewMemoryStore :: MemoryStore where
  "NewMemoryStore =
     \<lparr>users = Map.empty, usersByName = Map.empty, sessions = Map.empty, apiKeys = Map.empty,
      apiKeysByUser = Map.empty, apiKeyObjs = [], settings = Map.empty, settingObjs = [],
      coreWrites = [],
      projects = Map.empty, projectsByName = Map.empty, projectObjs = [], projectTypes = Map.empty,
      webhooks = Map.empty, webhookObjs = [], secrets = Map.empty, secretObjs = [],
      projectsWrites = [],
      deployments = Map.empty, deploymentObjs = [], deploymentLogs = Map.empty,
      deploymentRollbacks = Map.empty, rollbackObjs = [], scheduledDeploys = Map.empty,
      scheduledObjs = [], deploymentAgents = Map.empty, deploymentsWrites = [],
      agents = Map.empty, agentObjs = [], agentBinaries = Map.empty, binaryObjs = [],
      agentUpdates = Map.empty, historyObjs = [], agentsWrites = [],
      auditLogs = [], auditWrites = [], blockedIPs = Map.empty, rateLimits = Map.empty,
      rateLimitObjs = [], ratelimitWrites = []\<rparr>"

text \<open>\<open>queueWrite\<close> on each of the channels.\<close>

definition queueWrite :: "WriteOp list \<Rightarrow> WriteOp \<Rightarrow> WriteOp list" where
  "queueWrite ch op = ch @ [op]"

text \<open>The composite keys of the settings, secrets and rate-limit maps.\<close>

definition settingKey :: "string \<Rightarrow> string \<Rightarrow> string" where
  "settingKey category key = category @ '':'' @ key"

definition secretKey :: "string \<Rightarrow> string \<Rightarrow> string \<Rightarrow> string" where
  "secretKey project scope key = project @ '':'' @ scope @ '':'' @ key"

definition rateLimitKey :: "string \<Rightarrow> string \<Rightarrow> string" where
  "rateLimitKey key bucket = key @ '':'' @ bucket"

section \<open>Composite keys\<close>

text \<open>Splitting at the first colon: two keys agree only if their parts do, when the leading part
  has no colon.\<close>

lemma colon_split_unique:
  assumes "a @ CHR '':'' # b = a' @ CHR '':'' # b'"
    and "CHR '':'' \<notin> set a" and "CHR '':'' \<notin> set a'"
  shows "a = a' \<and> b = b'"
  using assms
proof (induction a arbitrary: a')
  case Nil
  then show ?case by (cases a') auto
next
  case (Cons x a)
  then show ?case by (cases a') auto
qed

end
