(* ===== verification/Write_Ops.thy ===== *)
theory Write_Ops
  imports Store_Model
begin

text \<open>
  \<open>internal/storage/memory_writeops.go\<close>: what a pending write does to the database. Each function
  looks at the operation's type and at the dynamic type of its data and yields one of three outcomes:
  an error (\<open>Inl\<close>), no statement (\<open>Inr None\<close>), or one SQL statement with its arguments. The statements
  are kept as data, with the columns, the values bound to the placeholders and the conflict clause the
  SQL text has; what a database does with a statement is a parameter of \<open>Write_Behind\<close>.

  A pointer in a pending write is followed when the write is executed, so the functions take the store
  as it is then. \<open>json.Marshal\<close> of an agent's labels is the parameter \<open>labelsJSON\<close>.
\<close>

section \<open>Statements\<close>

datatype SqlStmt =
    SqlInsert string "(string \<times> AnyValue) list"
      \<comment> \<open>\<open>INSERT INTO t (cols) VALUES (?)\<close>\<close>
  | SqlUpsert string "(string \<times> AnyValue) list" "string list" "string list"
      \<comment> \<open>\<open>INSERT INTO t (cols) VALUES (?) ON CONFLICT(cols) DO UPDATE SET col = excluded.col\<close>\<close>
  | SqlUpdate string "(string \<times> AnyValue) list" string AnyValue
      \<comment> \<open>\<open>UPDATE t SET col = ? WHERE key = ?\<close>\<close>
  | SqlDelete string string AnyValue
      \<comment> \<open>\<open>DELETE FROM t WHERE key = ?\<close>\<close>
  | SqlDeleteJoined string "string list" AnyValue
      \<comment> \<open>\<open>DELETE FROM t WHERE c1 || ':' || c2 = ?\<close>\<close>
  | SqlDeleteBefore string string AnyValue
      \<comment> \<open>\<open>DELETE FROM t WHERE key < ?\<close>\<close>

type_synonym exec_result = "string + SqlStmt option"

abbreviation stmt :: "SqlStmt \<Rightarrow> exec_result" where
  "stmt q \<equiv> Inr (Some q)"

definition with_obj :: "'a heap \<Rightarrow> ref \<Rightarrow> ('a \<Rightarrow> SqlStmt) \<Rightarrow> exec_result" where
  "with_obj h r f = (case load h r of None \<Rightarrow> Inl ''nil pointer'' | Some x \<Rightarrow> stmt (f x))"

definition map_get :: "(string \<times> string) list \<Rightarrow> string \<Rightarrow> string" where
  "map_get m k = (case map_of m k of None \<Rightarrow> '''' | Some v \<Rightarrow> v)"

section \<open>Users, sessions, API keys and settings\<close>

definition executeUserOp :: "WriteOp \<Rightarrow> exec_result" where
  "executeUserOp op =
     (case op_Type op of
        WriteOpInsert \<Rightarrow>
          (case op_Data op of
             UserPtr user \<Rightarrow> stmt (SqlUpsert ''users''
               [(''id'', AnyString (user_ID user)), (''username'', AnyString (user_Username user)),
                (''password_hash'', AnyString (user_PasswordHash user)), (''email'', AnyString (user_Email user)),
                (''role'', AnyString (user_Role user)), (''must_change_password'', AnyBool (user_MustChangePassword user)),
                (''totp_secret'', AnyString (user_TOTPSecret user)), (''totp_enabled'', AnyBool (user_TOTPEnabled user)),
                (''created_at'', AnyTime (user_CreatedAt user)), (''updated_at'', AnyTime (user_UpdatedAt user))]
               [''id'']
               [''username'', ''password_hash'', ''email'', ''role'', ''must_change_password'', ''totp_secret'',
                ''totp_enabled'', ''updated_at''])
           | _ \<Rightarrow> Inl ''invalid data type for user insert'')
      | WriteOpUpdate \<Rightarrow>
          (case op_Data op of
             UserPtr user \<Rightarrow> stmt (SqlUpdate ''users''
               [(''username'', AnyString (user_Username user)), (''password_hash'', AnyString (user_PasswordHash user)),
                (''email'', AnyString (user_Email user)), (''role'', AnyString (user_Role user)),
                (''must_change_password'', AnyBool (user_MustChangePassword user)),
                (''totp_secret'', AnyString (user_TOTPSecret user)), (''totp_enabled'', AnyBool (user_TOTPEnabled user)),
                (''updated_at'', AnyTime (user_UpdatedAt user))]
               ''id'' (AnyString (user_ID user)))
           | _ \<Rightarrow> Inl ''invalid data type for user update'')
      | WriteOpDelete \<Rightarrow>
          (case op_Data op of
             StringData v \<Rightarrow> stmt (SqlDelete ''users'' ''id'' (AnyString v))
           | StringMapData v \<Rightarrow> stmt (SqlDelete ''users'' ''id'' (AnyString (map_get v ''id'')))
           | _ \<Rightarrow> Inl ''invalid data type for user delete''))"

definition executeSessionOp :: "WriteOp \<Rightarrow> exec_result" where
  "executeSessionOp op =
     (case op_Type op of
        WriteOpInsert \<Rightarrow>
          (case op_Data op of
             SessionPtr session \<Rightarrow> stmt (SqlInsert ''sessions''
               [(''id'', AnyString (session_ID session)), (''user_id'', AnyString (session_UserID session)),
                (''ip_address'', AnyString (session_IPAddress session)),
                (''user_agent'', AnyString (session_UserAgent session)),
                (''created_at'', AnyTime (session_CreatedAt session)), (''expires_at'', AnyTime (session_ExpiresAt session))])
           | _ \<Rightarrow> Inl ''invalid data type for session insert'')
      | WriteOpUpdate \<Rightarrow> Inr None
      | WriteOpDelete \<Rightarrow>
          (case op_Data op of
             StringData v \<Rightarrow> stmt (SqlDelete ''sessions'' ''id'' (AnyString v))
           | Int64Data v \<Rightarrow> stmt (SqlDelete ''sessions'' ''user_id'' (AnyInt v))
           | _ \<Rightarrow> Inl ''invalid data type for session delete''))"

text \<open>\<open>%T\<close> of the data, as far as an error message shows it.\<close>

definition go_type :: "WriteData \<Rightarrow> string" where
  "go_type d =
     (case d of
        UserPtr _ \<Rightarrow> ''*storage.User'' | SessionPtr _ \<Rightarrow> ''*storage.Session'' | APIKeyPtr _ \<Rightarrow> ''*storage.APIKey''
      | SettingPtr _ \<Rightarrow> ''*storage.Setting'' | ProjectPtr _ \<Rightarrow> ''*storage.Project''
      | ProjectTypePtr _ \<Rightarrow> ''*storage.ProjectType'' | WebhookPtr _ \<Rightarrow> ''*storage.ProjectWebhook''
      | SecretPtr _ \<Rightarrow> ''*storage.Secret'' | DeploymentPtr _ \<Rightarrow> ''*storage.DeploymentRecord''
      | DeploymentLogPtr _ \<Rightarrow> ''*storage.DeploymentLog'' | RollbackPtr _ \<Rightarrow> ''*storage.DeploymentRollback''
      | ScheduledPtr _ \<Rightarrow> ''*storage.ScheduledDeployment'' | AuditEntryPtr _ \<Rightarrow> ''*storage.AuditEntry''
      | BlockedIPPtr _ \<Rightarrow> ''*storage.BlockedIP'' | RateLimitPtr _ \<Rightarrow> ''*storage.RateLimitRecord''
      | AgentPtr _ \<Rightarrow> ''*storage.Agent'' | AgentBinaryPtr _ \<Rightarrow> ''*storage.AgentBinary''
      | AgentUpdatePtr _ \<Rightarrow> ''*storage.AgentUpdateHistory'' | StructPtr t _ \<Rightarrow> ''*storage.'' @ t
      | ObjPtr t _ \<Rightarrow> ''*storage.'' @ t
      | StringData _ \<Rightarrow> ''string'' | Int64Data _ \<Rightarrow> ''int64'' | StringMapData _ \<Rightarrow> ''map[string]string''
      | TimeMapData _ \<Rightarrow> ''map[string]time.Time'' | AnyMapData _ \<Rightarrow> ''map[string]interface {}'')"

definition executeAPIKeyOp :: "MemoryStore \<Rightarrow> WriteOp \<Rightarrow> exec_result" where
  "executeAPIKeyOp s op =
     (case op_Type op of
        WriteOpInsert \<Rightarrow>
          (case op_Data op of
             APIKeyPtr r \<Rightarrow> with_obj (apiKeyObjs s) r (\<lambda>key. SqlInsert ''api_keys''
               [(''id'', AnyString (apikey_ID key)), (''user_id'', AnyString (apikey_UserID key)),
                (''name'', AnyString (apikey_Name key)), (''key_hash'', AnyString (apikey_KeyHash key)),
                (''key_prefix'', AnyString (apikey_KeyPrefix key)), (''scopes'', AnyString (apikey_Scopes key)),
                (''expires_at'', AnyTimePtr (apikey_ExpiresAt key)), (''last_used_at'', AnyTimePtr (apikey_LastUsedAt key)),
                (''created_at'', AnyTime (apikey_CreatedAt key))])
           | _ \<Rightarrow> Inl ''invalid data type for api_key insert'')
      | WriteOpUpdate \<Rightarrow>
          (case op_Data op of
             AnyMapData m \<Rightarrow>
               (case map_of m ''id'' of
                  Some (AnyInt i) \<Rightarrow>
                    (case map_of m ''last_used_at'' of
                       Some lastUsed \<Rightarrow> stmt (SqlUpdate ''api_keys'' [(''last_used_at'', lastUsed)] ''id'' (AnyInt i))
                     | None \<Rightarrow> Inr None)
                | _ \<Rightarrow> Inr None)
           | _ \<Rightarrow> Inr None)
      | WriteOpDelete \<Rightarrow>
          (case op_Data op of
             StringData v \<Rightarrow> stmt (SqlDelete ''api_keys'' ''id'' (AnyString v))
           | StringMapData v \<Rightarrow>
               (case map_of v ''id'' of
                  None \<Rightarrow> Inl ''invalid data type for api_key delete: missing id in map''
                | Some i \<Rightarrow> stmt (SqlDelete ''api_keys'' ''id'' (AnyString i)))
           | _ \<Rightarrow> Inl (''invalid data type for api_key delete: got '' @ go_type (op_Data op))))"

definition executeSettingOp :: "MemoryStore \<Rightarrow> WriteOp \<Rightarrow> exec_result" where
  "executeSettingOp s op =
     (if op_Type op = WriteOpInsert \<or> op_Type op = WriteOpUpdate
      then
        (case op_Data op of
           SettingPtr r \<Rightarrow> with_obj (settingObjs s) r (\<lambda>setting. SqlUpsert ''settings''
             [(''id'', AnyString (setting_ID setting)), (''category'', AnyString (setting_Category setting)),
              (''key'', AnyString (setting_Key setting)), (''value'', AnyString (setting_Value setting)),
              (''value_type'', AnyString (setting_ValueType setting)), (''encrypted'', AnyBool (setting_Encrypted setting)),
              (''description'', AnyString (setting_Description setting)),
              (''created_at'', AnyTime (setting_CreatedAt setting)), (''updated_at'', AnyTime (setting_UpdatedAt setting))]
             [''category'', ''key''] [''value'', ''encrypted'', ''updated_at''])
         | _ \<Rightarrow> Inl ''invalid data type for setting'')
      else
        (case op_Data op of
           StringData key \<Rightarrow> stmt (SqlDeleteJoined ''settings'' [''category'', ''key''] (AnyString key))
         | _ \<Rightarrow> Inl ''invalid data type for setting delete''))"

section \<open>Projects, project types, webhooks and secrets\<close>

definition executeProjectOp :: "MemoryStore \<Rightarrow> WriteOp \<Rightarrow> exec_result" where
  "executeProjectOp s op =
     (case op_Type op of
        WriteOpInsert \<Rightarrow>
          (case op_Data op of
             ProjectPtr r \<Rightarrow> with_obj (projectObjs s) r (\<lambda>p. SqlInsert ''projects''
               [(''id'', AnyString (project_ID p)), (''name'', AnyString (project_Name p)),
                (''repository'', AnyString (project_Repository p)), (''branch'', AnyString (project_Branch p)),
                (''deploy_path'', AnyString (project_DeployPath p)), (''type_id'', AnyStringPtr (project_TypeID p)),
                (''created_at'', AnyTime (project_CreatedAt p)), (''updated_at'', AnyTime (project_UpdatedAt p)),
                (''last_deploy_at'', AnyTimePtr (project_LastDeployAt p)),
                (''last_deploy_status'', AnyString (project_LastDeployStatus p)),
                (''health_check_id'', AnyStringPtr (project_HealthCheckID p)),
                (''auto_rollback_enabled'', AnyBool (project_AutoRollbackEnabled p)),
                (''rollback_on_health_fail'', AnyBool (project_RollbackOnHealthFail p))])
           | _ \<Rightarrow> Inl ''invalid data type for project insert'')
      | WriteOpUpdate \<Rightarrow>
          (case op_Data op of
             ProjectPtr r \<Rightarrow> with_obj (projectObjs s) r (\<lambda>p. SqlUpdate ''projects''
               [(''name'', AnyString (project_Name p)), (''repository'', AnyString (project_Repository p)),
                (''branch'', AnyString (project_Branch p)), (''deploy_path'', AnyString (project_DeployPath p)),
                (''type'', AnyStringPtr (project_TypeID p)), (''updated_at'', AnyTime (project_UpdatedAt p)),
                (''last_deploy_at'', AnyTimePtr (project_LastDeployAt p)),
                (''last_deploy_status'', AnyString (project_LastDeployStatus p)),
                (''health_check_id'', AnyStringPtr (project_HealthCheckID p)),
                (''auto_rollback_enabled'', AnyBool (project_AutoRollbackEnabled p)),
                (''rollback_on_health_fail'', AnyBool (project_RollbackOnHealthFail p))]
               ''id'' (AnyString (project_ID p)))
           | _ \<Rightarrow> Inl ''invalid data type for project update'')
      | WriteOpDelete \<Rightarrow>
          (case op_Data op of
             Int64Data i \<Rightarrow> stmt (SqlDelete ''projects'' ''id'' (AnyInt i))
           | _ \<Rightarrow> Inl ''invalid data type for project delete''))"

definition executeProjectTypeOp :: "WriteOp \<Rightarrow> exec_result" where
  "executeProjectTypeOp op =
     (case op_Type op of
        WriteOpInsert \<Rightarrow>
          (case op_Data op of
             ProjectTypePtr pt \<Rightarrow> stmt (SqlInsert ''project_types''
               [(''id'', AnyString (ptype_ID pt)), (''name'', AnyString (ptype_Name pt)),
                (''description'', AnyString (ptype_Description pt)), (''build_cmd'', AnyString (ptype_BuildCmd pt)),
                (''project_count'', AnyInt (ptype_ProjectCount pt)), (''created_at'', AnyTime (ptype_CreatedAt pt))])
           | _ \<Rightarrow> Inl ''invalid data type for project_type insert'')
      | WriteOpUpdate \<Rightarrow>
          (case op_Data op of
             ProjectTypePtr pt \<Rightarrow> stmt (SqlUpdate ''project_types''
               [(''name'', AnyString (ptype_Name pt)), (''description'', AnyString (ptype_Description pt)),
                (''build_cmd'', AnyString (ptype_BuildCmd pt)), (''project_count'', AnyInt (ptype_ProjectCount pt))]
               ''id'' (AnyString (ptype_ID pt)))
           | _ \<Rightarrow> Inl ''invalid data type for project_type update'')
      | WriteOpDelete \<Rightarrow>
          (case op_Data op of
             Int64Data i \<Rightarrow> stmt (SqlDelete ''project_types'' ''id'' (AnyInt i))
           | _ \<Rightarrow> Inl ''invalid data type for project_type delete''))"

definition executeWebhookOp :: "MemoryStore \<Rightarrow> WriteOp \<Rightarrow> exec_result" where
  "executeWebhookOp s op =
     (if op_Type op = WriteOpInsert \<or> op_Type op = WriteOpUpdate
      then
        (case op_Data op of
           WebhookPtr r \<Rightarrow> with_obj (webhookObjs s) r (\<lambda>wh. SqlUpsert ''project_webhooks''
             [(''id'', AnyString (webhook_ID wh)), (''project_id'', AnyString (webhook_ProjectID wh)),
              (''provider'', AnyString (webhook_Provider wh)),
              (''secret_encrypted'', AnyBytes (webhook_SecretEncrypted wh)), (''enabled'', AnyBool (webhook_Enabled wh)),
              (''require_secret'', AnyBool (webhook_RequireSecret wh)),
              (''created_at'', AnyTime (webhook_CreatedAt wh)), (''updated_at'', AnyTime (webhook_UpdatedAt wh))]
             [''project_id'', ''provider''] [''secret_encrypted'', ''enabled'', ''require_secret'', ''updated_at''])
         | _ \<Rightarrow> Inl ''invalid data type for webhook'')
      else
        (case op_Data op of
           Int64Data i \<Rightarrow> stmt (SqlDelete ''project_webhooks'' ''id'' (AnyInt i))
         | _ \<Rightarrow> Inl ''invalid data type for webhook delete''))"

definition executeSecretOp :: "MemoryStore \<Rightarrow> WriteOp \<Rightarrow> exec_result" where
  "executeSecretOp s op =
     (if op_Type op = WriteOpInsert \<or> op_Type op = WriteOpUpdate
      then
        (case op_Data op of
           SecretPtr r \<Rightarrow> with_obj (secretObjs s) r (\<lambda>secret. SqlUpsert ''secrets''
             [(''id'', AnyString (secret_ID secret)), (''project'', AnyString (secret_Project secret)),
              (''project_id'', AnyStringPtr (secret_ProjectID secret)), (''scope'', AnyString (secret_Scope secret)),
              (''key'', AnyString (secret_Key secret)), (''value_encrypted'', AnyBytes (secret_ValueEncrypted secret)),
              (''created_at'', AnyTime (secret_CreatedAt secret)), (''updated_at'', AnyTime (secret_UpdatedAt secret))]
             [''project'', ''scope'', ''key''] [''value_encrypted'', ''updated_at''])
         | _ \<Rightarrow> Inl ''invalid data type for secret'')
      else
        (case op_Data op of
           StringData key \<Rightarrow> stmt (SqlDeleteJoined ''secrets'' [''project'', ''scope'', ''key''] (AnyString key))
         | _ \<Rightarrow> Inl ''invalid data type for secret delete''))"

section \<open>Agents\<close>

definition executeAgentOp :: "((string \<rightharpoonup> string) \<Rightarrow> string) \<Rightarrow> MemoryStore \<Rightarrow> WriteOp \<Rightarrow> exec_result" where
  "executeAgentOp labelsJSON s op =
     (if op_Type op = WriteOpInsert \<or> op_Type op = WriteOpUpdate
      then
        (case op_Data op of
           AgentPtr r \<Rightarrow> with_obj (agentObjs s) r (\<lambda>a. SqlUpsert ''agents''
             [(''id'', AnyString (agent_ID a)), (''hostname'', AnyString (agent_Hostname a)),
              (''labels'', AnyString (labelsJSON (agent_Labels a))), (''capabilities'', AnyString (agent_Capabilities a)),
              (''status'', AnyString (agent_Status a)), (''last_seen_at'', AnyTime (agent_LastSeenAt a)),
              (''registered_at'', AnyTime (agent_RegisteredAt a)), (''certificate'', AnyString (agent_Certificate a)),
              (''version'', AnyString (agent_Version a)), (''os'', AnyString (agent_OS a)),
              (''arch'', AnyString (agent_Arch a)), (''update_policy'', AnyString (agent_UpdatePolicy a)),
              (''update_window_start'', AnyString (agent_UpdateWindowStart a)),
              (''update_window_end'', AnyString (agent_UpdateWindowEnd a)),
              (''last_update_at'', AnyTimePtr (agent_LastUpdateAt a)),
              (''last_update_error'', AnyString (agent_LastUpdateError a))]
             [''id'']
             [''hostname'', ''labels'', ''capabilities'', ''status'', ''last_seen_at'', ''certificate'', ''version'', ''os'',
              ''arch'', ''update_policy'', ''update_window_start'', ''update_window_end'', ''last_update_at'',
              ''last_update_error''])
         | _ \<Rightarrow> Inl ''invalid data type for agent'')
      else
        (case op_Data op of
           StringData i \<Rightarrow> stmt (SqlDelete ''agents'' ''id'' (AnyString i))
         | _ \<Rightarrow> Inl ''invalid data type for agent delete''))"

definition executeAgentBinaryOp :: "MemoryStore \<Rightarrow> WriteOp \<Rightarrow> exec_result" where
  "executeAgentBinaryOp s op =
     (case op_Type op of
        WriteOpInsert \<Rightarrow>
          (case op_Data op of
             AgentBinaryPtr r \<Rightarrow> with_obj (binaryObjs s) r (\<lambda>b. SqlInsert ''agent_binaries''
               [(''id'', AnyString (bin_ID b)), (''version'', AnyString (bin_Version b)), (''os'', AnyString (bin_OS b)),
                (''arch'', AnyString (bin_Arch b)), (''path'', AnyString (bin_Path b)),
                (''checksum_sha256'', AnyString (bin_ChecksumSHA256 b)), (''size_bytes'', AnyInt (bin_SizeBytes b)),
                (''uploaded_at'', AnyTime (bin_UploadedAt b)), (''is_current'', AnyBool (bin_IsCurrent b))])
           | _ \<Rightarrow> Inl ''invalid data type for agent_binary insert'')
      | WriteOpUpdate \<Rightarrow>
          (case op_Data op of
             AgentBinaryPtr r \<Rightarrow> with_obj (binaryObjs s) r (\<lambda>b. SqlUpdate ''agent_binaries''
               [(''version'', AnyString (bin_Version b)), (''os'', AnyString (bin_OS b)), (''arch'', AnyString (bin_Arch b)),
                (''path'', AnyString (bin_Path b)), (''checksum_sha256'', AnyString (bin_ChecksumSHA256 b)),
                (''size_bytes'', AnyInt (bin_SizeBytes b)), (''is_current'', AnyBool (bin_IsCurrent b))]
               ''id'' (AnyString (bin_ID b)))
           | _ \<Rightarrow> Inl ''invalid data type for agent_binary update'')
      | WriteOpDelete \<Rightarrow>
          (case op_Data op of
             Int64Data i \<Rightarrow> stmt (SqlDelete ''agent_binaries'' ''id'' (AnyInt i))
           | _ \<Rightarrow> Inl ''invalid data type for agent_binary delete''))"

definition executeAgentUpdateHistoryOp :: "MemoryStore \<Rightarrow> WriteOp \<Rightarrow> exec_result" where
  "executeAgentUpdateHistoryOp s op =
     (case op_Type op of
        WriteOpInsert \<Rightarrow>
          (case op_Data op of
             AgentUpdatePtr r \<Rightarrow> with_obj (historyObjs s) r (\<lambda>h. SqlInsert ''agent_update_history''
               [(''id'', AnyString (hist_ID h)), (''agent_id'', AnyString (hist_AgentID h)),
                (''from_version'', AnyString (hist_FromVersion h)), (''to_version'', AnyString (hist_ToVersion h)),
                (''status'', AnyString (hist_Status h)), (''error_message'', AnyString (hist_ErrorMessage h)),
                (''started_at'', AnyTime (hist_StartedAt h)), (''completed_at'', AnyTimePtr (hist_CompletedAt h)),
                (''rolled_back'', AnyBool (hist_RolledBack h))])
           | _ \<Rightarrow> Inl ''invalid data type for agent_update_history insert'')
      | WriteOpUpdate \<Rightarrow>
          (case op_Data op of
             AgentUpdatePtr r \<Rightarrow> with_obj (historyObjs s) r (\<lambda>h. SqlUpdate ''agent_update_history''
               [(''status'', AnyString (hist_Status h)), (''error_message'', AnyString (hist_ErrorMessage h)),
                (''completed_at'', AnyTimePtr (hist_CompletedAt h)), (''rolled_back'', AnyBool (hist_RolledBack h))]
               ''id'' (AnyString (hist_ID h)))
           | _ \<Rightarrow> Inl ''invalid data type for agent_update_history update'')
      | WriteOpDelete \<Rightarrow> Inr None)"

section \<open>Deployments\<close>

definition executeDeploymentOp :: "MemoryStore \<Rightarrow> WriteOp \<Rightarrow> exec_result" where
  "executeDeploymentOp s op =
     (case op_Type op of
        WriteOpInsert \<Rightarrow>
          (case op_Data op of
             DeploymentPtr r \<Rightarrow> with_obj (deploymentObjs s) r (\<lambda>d. SqlInsert ''deployments''
               [(''id'', AnyString (dep_ID d)), (''project'', AnyString (dep_Project d)),
                (''project_id'', AnyStringPtr (dep_ProjectID d)), (''target'', AnyString (dep_Target d)),
                (''branch'', AnyString (dep_Branch d)), (''commit_hash'', AnyString (dep_CommitHash d)),
                (''status'', AnyString (dep_Status d)), (''release_number'', AnyInt (dep_ReleaseNumber d)),
                (''started_at'', AnyTime (dep_StartedAt d)), (''completed_at'', AnyTimePtr (dep_CompletedAt d)),
                (''triggered_by'', AnyString (dep_TriggeredBy d)), (''trigger_source'', AnyString (dep_TriggerSource d)),
                (''error_message'', AnyString (dep_ErrorMessage d))])
           | _ \<Rightarrow> Inl ''invalid data type for deployment insert'')
      | WriteOpUpdate \<Rightarrow>
          (case op_Data op of
             DeploymentPtr r \<Rightarrow> with_obj (deploymentObjs s) r (\<lambda>d. SqlUpdate ''deployments''
               [(''status'', AnyString (dep_Status d)), (''completed_at'', AnyTimePtr (dep_CompletedAt d)),
                (''error_message'', AnyString (dep_ErrorMessage d))]
               ''id'' (AnyString (dep_ID d)))
           | _ \<Rightarrow> Inl ''invalid data type for deployment update'')
      | WriteOpDelete \<Rightarrow>
          (case op_Data op of
             StringData i \<Rightarrow> stmt (SqlDelete ''deployments'' ''id'' (AnyString i))
           | _ \<Rightarrow> Inl ''invalid data type for deployment delete''))"

definition executeDeploymentLogOp :: "WriteOp \<Rightarrow> exec_result" where
  "executeDeploymentLogOp op =
     (case op_Type op of
        WriteOpInsert \<Rightarrow>
          (case op_Data op of
             DeploymentLogPtr l \<Rightarrow> stmt (SqlInsert ''deployment_logs''
               [(''id'', AnyString (dlog_ID l)), (''deployment_id'', AnyString (dlog_DeploymentID l)),
                (''level'', AnyString (dlog_Level l)), (''message'', AnyString (dlog_Message l)),
                (''source'', AnyString (dlog_Source l)), (''created_at'', AnyTime (dlog_CreatedAt l))])
           | _ \<Rightarrow> Inl ''invalid data type for deployment_log insert'')
      | WriteOpUpdate \<Rightarrow> Inr None
      | WriteOpDelete \<Rightarrow>
          (case op_Data op of
             StringData deploymentID \<Rightarrow> stmt (SqlDelete ''deployment_logs'' ''deployment_id'' (AnyString deploymentID))
           | _ \<Rightarrow> Inl ''invalid data type for deployment_log delete''))"

definition executeDeploymentRollbackOp :: "MemoryStore \<Rightarrow> WriteOp \<Rightarrow> exec_result" where
  "executeDeploymentRollbackOp s op =
     (case op_Type op of
        WriteOpInsert \<Rightarrow>
          (case op_Data op of
             RollbackPtr r \<Rightarrow> with_obj (rollbackObjs s) r (\<lambda>r. SqlInsert ''deployment_rollbacks''
               [(''id'', AnyString (rb_ID r)), (''deployment_id'', AnyString (rb_DeploymentID r)),
                (''project_name'', AnyString (rb_ProjectName r)), (''from_release'', AnyInt (rb_FromRelease r)),
                (''to_release'', AnyInt (rb_ToRelease r)), (''reason'', AnyString (rb_Reason r)),
                (''triggered_by'', AnyString (rb_TriggeredBy r)),
                (''health_check_failed'', AnyBool (rb_HealthCheckFailed r)),
                (''health_check_error'', AnyString (rb_HealthCheckError r)), (''status'', AnyString (rb_Status r)),
                (''error_message'', AnyString (rb_ErrorMessage r)), (''started_at'', AnyTime (rb_StartedAt r)),
                (''completed_at'', AnyTimePtr (rb_CompletedAt r))])
           | _ \<Rightarrow> Inl ''invalid data type for deployment_rollback insert'')
      | WriteOpUpdate \<Rightarrow>
          (case op_Data op of
             RollbackPtr r \<Rightarrow> with_obj (rollbackObjs s) r (\<lambda>r. SqlUpdate ''deployment_rollbacks''
               [(''status'', AnyString (rb_Status r)), (''error_message'', AnyString (rb_ErrorMessage r)),
                (''completed_at'', AnyTimePtr (rb_CompletedAt r))]
               ''id'' (AnyString (rb_ID r)))
           | _ \<Rightarrow> Inl ''invalid data type for deployment_rollback update'')
      | WriteOpDelete \<Rightarrow> Inr None)"

definition executeScheduledDeploymentOp :: "MemoryStore \<Rightarrow> WriteOp \<Rightarrow> exec_result" where
  "executeScheduledDeploymentOp s op =
     (case op_Type op of
        WriteOpInsert \<Rightarrow>
          (case op_Data op of
             ScheduledPtr r \<Rightarrow> with_obj (scheduledObjs s) r (\<lambda>sd. SqlInsert ''scheduled_deployments''
               [(''id'', AnyString (sched_ID sd)), (''project'', AnyString (sched_Project sd)),
                (''target'', AnyString (sched_Target sd)), (''branch'', AnyString (sched_Branch sd)),
                (''scheduled_at'', AnyTime (sched_ScheduledAt sd)), (''scheduled_by'', AnyString (sched_ScheduledBy sd)),
                (''status'', AnyString (sched_Status sd))])
           | _ \<Rightarrow> Inl ''invalid data type for scheduled_deployment insert'')
      | WriteOpUpdate \<Rightarrow>
          (case op_Data op of
             ScheduledPtr r \<Rightarrow> with_obj (scheduledObjs s) r (\<lambda>sd. SqlUpdate ''scheduled_deployments''
               [(''status'', AnyString (sched_Status sd))] ''id'' (AnyString (sched_ID sd)))
           | _ \<Rightarrow> Inl ''invalid data type for scheduled_deployment update'')
      | WriteOpDelete \<Rightarrow> Inr None)"

section \<open>Audit, blocked addresses and rate limits\<close>

definition executeAuditLogOp :: "WriteOp \<Rightarrow> exec_result" where
  "executeAuditLogOp op =
     (case op_Type op of
        WriteOpInsert \<Rightarrow>
          (case op_Data op of
             AuditEntryPtr entry \<Rightarrow> stmt (SqlInsert ''audit_logs''
               [(''id'', AnyString (audit_ID entry)), (''timestamp'', AnyTime (audit_Timestamp entry)),
                (''source'', AnyString (audit_Source entry)), (''user'', AnyString (audit_User entry)),
                (''action'', AnyString (audit_Action entry)), (''resource'', AnyString (audit_Resource entry)),
                (''resource_id'', AnyString (audit_ResourceID entry)),
                (''resource_data'', AnyString (audit_ResourceData entry)), (''details'', AnyString (audit_Details entry)),
                (''ip_address'', AnyString (audit_IPAddress entry)), (''result'', AnyString (audit_Result entry))])
           | _ \<Rightarrow> Inl ''invalid data type for audit_log insert'')
      | WriteOpUpdate \<Rightarrow> Inr None
      | WriteOpDelete \<Rightarrow>
          (case op_Data op of
             StringData ts \<Rightarrow> stmt (SqlDeleteBefore ''audit_logs'' ''timestamp'' (AnyString ts))
           | _ \<Rightarrow> Inl ''invalid data type for audit_log delete''))"

definition executeBlockedIPOp :: "WriteOp \<Rightarrow> exec_result" where
  "executeBlockedIPOp op =
     (case op_Type op of
        WriteOpInsert \<Rightarrow>
          (case op_Data op of
             BlockedIPPtr b \<Rightarrow> stmt (SqlInsert ''blocked_ips''
               [(''id'', AnyString (blk_ID b)), (''ip_address'', AnyString (blk_IPAddress b)),
                (''reason'', AnyString (blk_Reason b)), (''blocked_at'', AnyTime (blk_BlockedAt b)),
                (''expires_at'', AnyTime (blk_ExpiresAt b)), (''blocked_by'', AnyString (blk_BlockedBy b))])
           | _ \<Rightarrow> Inl ''invalid data type for blocked_ip insert'')
      | WriteOpUpdate \<Rightarrow> Inr None
      | WriteOpDelete \<Rightarrow>
          (case op_Data op of
             StringData ip \<Rightarrow> stmt (SqlDelete ''blocked_ips'' ''ip_address'' (AnyString ip))
           | _ \<Rightarrow> Inl ''invalid data type for blocked_ip delete''))"

definition executeRateLimitOp :: "MemoryStore \<Rightarrow> WriteOp \<Rightarrow> exec_result" where
  "executeRateLimitOp s op =
     (if op_Type op = WriteOpInsert \<or> op_Type op = WriteOpUpdate
      then
        (case op_Data op of
           RateLimitPtr r \<Rightarrow> with_obj (rateLimitObjs s) r (\<lambda>r. SqlUpsert ''rate_limits''
             [(''id'', AnyString (rl_ID r)), (''key'', AnyString (rl_Key r)), (''bucket'', AnyString (rl_Bucket r)),
              (''count'', AnyInt (rl_Count r)), (''window_start'', AnyTime (rl_WindowStart r)),
              (''window_end'', AnyTime (rl_WindowEnd r))]
             [''key'', ''bucket''] [''count'', ''window_start'', ''window_end''])
         | _ \<Rightarrow> Inl ''invalid data type for rate_limit'')
      else
        (case op_Data op of
           StringData key \<Rightarrow> stmt (SqlDelete ''rate_limits'' ''key'' (AnyString key))
         | _ \<Rightarrow> Inl ''invalid data type for rate_limit delete''))"

section \<open>The other tables\<close>

definition fld :: "(string \<times> AnyValue) list \<Rightarrow> string \<Rightarrow> AnyValue" where
  "fld fs f = (case map_of fs f of None \<Rightarrow> AnyString '''' | Some v \<Rightarrow> v)"

definition binds :: "(string \<times> AnyValue) list \<Rightarrow> (string \<times> string) list \<Rightarrow> (string \<times> AnyValue) list" where
  "binds fs cols = map (\<lambda>(col, f). (col, fld fs f)) cols"

text \<open>\<open>x, ok := op.Data.(*T); if !ok { return fmt.Errorf(err) }\<close>\<close>

definition as_struct :: "string \<Rightarrow> string \<Rightarrow> WriteData \<Rightarrow> ((string \<times> AnyValue) list \<Rightarrow> exec_result) \<Rightarrow> exec_result" where
  "as_struct t err d f =
     (case d of StructPtr t' fs \<Rightarrow> if t' = t then f fs else Inl err | _ \<Rightarrow> Inl err)"

definition as_int64 :: "string \<Rightarrow> WriteData \<Rightarrow> (int \<Rightarrow> exec_result) \<Rightarrow> exec_result" where
  "as_int64 err d f = (case d of Int64Data i \<Rightarrow> f i | _ \<Rightarrow> Inl err)"

text \<open>\<open>xJSON, err := c.XJSON(); if err != nil { return fmt.Errorf("marshal x: %w", err) }\<close>, without the
  text of the wrapped error.\<close>

definition marshalled :: "(string \<times> string) list \<Rightarrow> (string \<times> AnyValue) list \<Rightarrow> (unit \<Rightarrow> exec_result) \<Rightarrow> exec_result" where
  "marshalled methods fs k =
     (case find (\<lambda>(m, what). map_of fs m = None) methods of
        None \<Rightarrow> k ()
      | Some (m, what) \<Rightarrow> Inl (''marshal '' @ what))"

definition executeProvisionJobOp :: "WriteOp \<Rightarrow> exec_result" where
  "executeProvisionJobOp op =
     (case op_Type op of
        WriteOpInsert \<Rightarrow> as_struct ''ProvisionJob'' ''invalid data type for provision_job insert'' (op_Data op) (\<lambda>j.
          stmt (SqlInsert ''provision_jobs'' (binds j
            [(''id'', ''ID''), (''target_host'', ''TargetHost''), (''target_port'', ''TargetPort''), (''target_user'', ''TargetUser''),
             (''ssh_key_id'', ''SSHKeyID''), (''agent_binary_id'', ''AgentBinaryID''), (''status'', ''Status''), (''stage'', ''Stage''),
             (''progress'', ''Progress''), (''error_message'', ''ErrorMessage''), (''rollback_data'', ''RollbackData''),
             (''started_at'', ''StartedAt''), (''completed_at'', ''CompletedAt'')])))
      | WriteOpUpdate \<Rightarrow> as_struct ''ProvisionJob'' ''invalid data type for provision_job update'' (op_Data op) (\<lambda>j.
          stmt (SqlUpdate ''provision_jobs'' (binds j
            [(''status'', ''Status''), (''stage'', ''Stage''), (''progress'', ''Progress''), (''error_message'', ''ErrorMessage''),
             (''rollback_data'', ''RollbackData''), (''completed_at'', ''CompletedAt'')]) ''id'' (fld j ''ID'')))
      | WriteOpDelete \<Rightarrow> Inr None)"

definition executeSSHHostKeyOp :: "WriteOp \<Rightarrow> exec_result" where
  "executeSSHHostKeyOp op =
     (case op_Type op of
        WriteOpInsert \<Rightarrow> as_struct ''SSHHostKey'' ''invalid data type for ssh_host_key insert'' (op_Data op) (\<lambda>k.
          stmt (SqlInsert ''ssh_host_keys'' (binds k
            [(''id'', ''ID''), (''hostname'', ''Hostname''), (''port'', ''Port''), (''key_type'', ''KeyType''),
             (''public_key'', ''PublicKey''), (''fingerprint'', ''Fingerprint''), (''trusted'', ''Trusted''),
             (''added_by'', ''AddedBy''), (''verified_at'', ''VerifiedAt''), (''created_at'', ''CreatedAt''),
             (''updated_at'', ''UpdatedAt'')])))
      | WriteOpUpdate \<Rightarrow> as_struct ''SSHHostKey'' ''invalid data type for ssh_host_key update'' (op_Data op) (\<lambda>k.
          stmt (SqlUpdate ''ssh_host_keys'' (binds k
            [(''trusted'', ''Trusted''), (''verified_at'', ''VerifiedAt''), (''updated_at'', ''UpdatedAt'')]) ''id'' (fld k ''ID'')))
      | WriteOpDelete \<Rightarrow> as_int64 ''invalid data type for ssh_host_key delete'' (op_Data op) (\<lambda>i.
          stmt (SqlDelete ''ssh_host_keys'' ''id'' (AnyInt i))))"

definition executeJumpServerOp :: "WriteOp \<Rightarrow> exec_result" where
  "executeJumpServerOp op =
     (case op_Type op of
        WriteOpInsert \<Rightarrow> as_struct ''SSHJumpServer'' ''invalid data type for jump_server insert'' (op_Data op) (\<lambda>j.
          stmt (SqlInsert ''ssh_jump_servers'' (binds j
            [(''id'', ''ID''), (''name'', ''Name''), (''host'', ''Host''), (''port'', ''Port''), (''username'', ''Username''),
             (''ssh_key_id'', ''SSHKeyID''), (''created_at'', ''CreatedAt'')])))
      | WriteOpUpdate \<Rightarrow> as_struct ''SSHJumpServer'' ''invalid data type for jump_server update'' (op_Data op) (\<lambda>j.
          stmt (SqlUpdate ''ssh_jump_servers'' (binds j
            [(''name'', ''Name''), (''host'', ''Host''), (''port'', ''Port''), (''username'', ''Username''),
             (''ssh_key_id'', ''SSHKeyID'')]) ''id'' (fld j ''ID'')))
      | WriteOpDelete \<Rightarrow> as_int64 ''invalid data type for jump_server delete'' (op_Data op) (\<lambda>i.
          stmt (SqlDelete ''ssh_jump_servers'' ''id'' (AnyInt i))))"

definition executeHealthCheckConfigOp :: "WriteOp \<Rightarrow> exec_result" where
  "executeHealthCheckConfigOp op =
     (case op_Type op of
        WriteOpInsert \<Rightarrow> as_struct ''HealthCheckConfig'' ''invalid data type for health_check_config insert'' (op_Data op) (\<lambda>c.
          stmt (SqlInsert ''health_check_configs'' (binds c
            [(''id'', ''ID''), (''project_id'', ''ProjectID''), (''name'', ''Name''), (''url'', ''URL''), (''method'', ''Method''),
             (''expected_status'', ''ExpectedStatus''), (''timeout_seconds'', ''TimeoutSeconds''), (''retries'', ''Retries''),
             (''retry_delay_seconds'', ''RetryDelaySeconds''), (''headers'', ''Headers''), (''body'', ''Body''),
             (''body_contains'', ''BodyContains''), (''enabled'', ''Enabled''), (''is_global'', ''IsGlobal''),
             (''created_at'', ''CreatedAt''), (''updated_at'', ''UpdatedAt'')])))
      | WriteOpUpdate \<Rightarrow> as_struct ''HealthCheckConfig'' ''invalid data type for health_check_config update'' (op_Data op) (\<lambda>c.
          stmt (SqlUpdate ''health_check_configs'' (binds c
            [(''name'', ''Name''), (''url'', ''URL''), (''method'', ''Method''), (''expected_status'', ''ExpectedStatus''),
             (''timeout_seconds'', ''TimeoutSeconds''), (''retries'', ''Retries''), (''retry_delay_seconds'', ''RetryDelaySeconds''),
             (''headers'', ''Headers''), (''body'', ''Body''), (''body_contains'', ''BodyContains''), (''enabled'', ''Enabled''),
             (''updated_at'', ''UpdatedAt'')]) ''id'' (fld c ''ID'')))
      | WriteOpDelete \<Rightarrow> as_int64 ''invalid data type for health_check_config delete'' (op_Data op) (\<lambda>i.
          stmt (SqlDelete ''health_check_configs'' ''id'' (AnyInt i))))"

definition executeACMECertificateOp :: "WriteOp \<Rightarrow> exec_result" where
  "executeACMECertificateOp op =
     (case op_Type op of
        WriteOpInsert \<Rightarrow> as_struct ''ACMECertificate'' ''invalid data type for acme_certificate insert'' (op_Data op) (\<lambda>c.
          stmt (SqlUpsert ''acme_certificates'' (binds c
            [(''id'', ''ID''), (''domain'', ''Domain''), (''certificate_pem'', ''CertificatePEM''),
             (''private_key_encrypted'', ''PrivateKeyEncrypted''), (''issuer'', ''Issuer''), (''not_before'', ''NotBefore''),
             (''not_after'', ''NotAfter''), (''last_renewal'', ''LastRenewal''), (''auto_renew'', ''AutoRenew''),
             (''created_at'', ''CreatedAt''), (''updated_at'', ''UpdatedAt'')])
            [''domain''] [''certificate_pem'', ''private_key_encrypted'', ''issuer'', ''not_before'', ''not_after'',
             ''last_renewal'', ''auto_renew'', ''updated_at'']))
      | WriteOpUpdate \<Rightarrow> as_struct ''ACMECertificate'' ''invalid data type for acme_certificate update'' (op_Data op) (\<lambda>c.
          stmt (SqlUpdate ''acme_certificates'' (binds c
            [(''certificate_pem'', ''CertificatePEM''), (''private_key_encrypted'', ''PrivateKeyEncrypted''), (''issuer'', ''Issuer''),
             (''not_before'', ''NotBefore''), (''not_after'', ''NotAfter''), (''last_renewal'', ''LastRenewal''),
             (''auto_renew'', ''AutoRenew''), (''updated_at'', ''UpdatedAt'')]) ''domain'' (fld c ''Domain'')))
      | WriteOpDelete \<Rightarrow> as_struct ''ACMECertificate'' ''invalid data type for acme_certificate delete'' (op_Data op) (\<lambda>c.
          stmt (SqlDelete ''acme_certificates'' ''domain'' (fld c ''Domain''))))"

definition executeACMEAccountOp :: "WriteOp \<Rightarrow> exec_result" where
  "executeACMEAccountOp op =
     (case op_Type op of
        WriteOpInsert \<Rightarrow> as_struct ''ACMEAccount'' ''invalid data type for acme_account insert'' (op_Data op) (\<lambda>a.
          stmt (SqlInsert ''acme_accounts'' (binds a
            [(''id'', ''ID''), (''email'', ''Email''), (''account_url'', ''AccountURL''),
             (''private_key_encrypted'', ''PrivateKeyEncrypted''), (''directory_url'', ''DirectoryURL''),
             (''created_at'', ''CreatedAt'')])))
      | WriteOpUpdate \<Rightarrow> as_struct ''ACMEAccount'' ''invalid data type for acme_account update'' (op_Data op) (\<lambda>a.
          stmt (SqlUpdate ''acme_accounts'' (binds a
            [(''account_url'', ''AccountURL''), (''private_key_encrypted'', ''PrivateKeyEncrypted''),
             (''directory_url'', ''DirectoryURL'')]) ''email'' (fld a ''Email'')))
      | WriteOpDelete \<Rightarrow> as_struct ''ACMEAccount'' ''invalid data type for acme_account delete'' (op_Data op) (\<lambda>a.
          stmt (SqlDelete ''acme_accounts'' ''email'' (fld a ''Email''))))"

definition executeRecoveryCodeOp :: "WriteOp \<Rightarrow> exec_result" where
  "executeRecoveryCodeOp op =
     (case op_Type op of
        WriteOpInsert \<Rightarrow> as_struct ''RecoveryCode'' ''invalid data type for recovery_code insert'' (op_Data op) (\<lambda>c.
          stmt (SqlInsert ''recovery_codes'' (binds c
            [(''id'', ''ID''), (''user_id'', ''UserID''), (''code_hash'', ''CodeHash''), (''used_at'', ''UsedAt''),
             (''created_at'', ''CreatedAt'')])))
      | WriteOpUpdate \<Rightarrow> as_struct ''RecoveryCode'' ''invalid data type for recovery_code update'' (op_Data op) (\<lambda>c.
          stmt (SqlUpdate ''recovery_codes'' (binds c [(''used_at'', ''UsedAt'')]) ''id'' (fld c ''ID'')))
      | WriteOpDelete \<Rightarrow> as_struct ''RecoveryCode'' ''invalid data type for recovery_code delete'' (op_Data op) (\<lambda>c.
          stmt (SqlDelete ''recovery_codes'' ''id'' (fld c ''ID''))))"

definition executeRecipeComponentOp :: "WriteOp \<Rightarrow> exec_result" where
  "executeRecipeComponentOp op =
     (case op_Type op of
        WriteOpInsert \<Rightarrow> as_struct ''RecipeComponent'' ''invalid data type for recipe_component insert'' (op_Data op) (\<lambda>c.
          marshalled [(''ContentJSON'', ''content''), (''VariablesJSON'', ''variables'')] c (\<lambda>_.
          stmt (SqlInsert ''recipe_components'' (binds c
            [(''id'', ''ID''), (''namespace'', ''Namespace''), (''slug'', ''Slug''), (''version'', ''Version''), (''name'', ''Name''),
             (''description'', ''Description''), (''component_type'', ''ComponentType''), (''content'', ''ContentJSON''),
             (''variables'', ''VariablesJSON''), (''is_seed'', ''IsSeed''), (''is_raw'', ''IsRaw''),
             (''is_deprecated'', ''IsDeprecated''), (''created_at'', ''CreatedAt'')]))))
      | WriteOpUpdate \<Rightarrow> as_struct ''RecipeComponent'' ''invalid data type for recipe_component update'' (op_Data op) (\<lambda>c.
          marshalled [(''ContentJSON'', ''content''), (''VariablesJSON'', ''variables'')] c (\<lambda>_.
          stmt (SqlUpdate ''recipe_components'' (binds c
            [(''namespace'', ''Namespace''), (''slug'', ''Slug''), (''version'', ''Version''), (''name'', ''Name''),
             (''description'', ''Description''), (''component_type'', ''ComponentType''), (''content'', ''ContentJSON''),
             (''variables'', ''VariablesJSON''), (''is_seed'', ''IsSeed''), (''is_raw'', ''IsRaw''),
             (''is_deprecated'', ''IsDeprecated'')]) ''id'' (fld c ''ID''))))
      | WriteOpDelete \<Rightarrow> as_int64 ''invalid data type for recipe_component delete'' (op_Data op) (\<lambda>i.
          stmt (SqlDelete ''recipe_components'' ''id'' (AnyInt i))))"

definition playbook_json :: "(string \<times> string) list" where
  "playbook_json =
     [(''StepsJSON'', ''steps''), (''SharedDirsJSON'', ''shared_dirs''), (''SharedFilesJSON'', ''shared_files''),
      (''WritableDirsJSON'', ''writable_dirs''), (''ValidationRulesJSON'', ''validation_rules'')]"

definition executePlaybookOp :: "WriteOp \<Rightarrow> exec_result" where
  "executePlaybookOp op =
     (case op_Type op of
        WriteOpInsert \<Rightarrow> as_struct ''Playbook'' ''invalid data type for playbook insert'' (op_Data op) (\<lambda>p.
          marshalled playbook_json p (\<lambda>_.
          stmt (SqlInsert ''playbooks'' (binds p
            [(''id'', ''ID''), (''namespace'', ''Namespace''), (''slug'', ''Slug''), (''version'', ''Version''), (''name'', ''Name''),
             (''description'', ''Description''), (''framework_type'', ''FrameworkType''), (''steps'', ''StepsJSON''),
             (''shared_dirs'', ''SharedDirsJSON''), (''shared_files'', ''SharedFilesJSON''), (''writable_dirs'', ''WritableDirsJSON''),
             (''keep_releases'', ''KeepReleases''), (''validation_rules'', ''ValidationRulesJSON''), (''is_seed'', ''IsSeed''),
             (''is_deprecated'', ''IsDeprecated''), (''parent_id'', ''ParentID''), (''parent_version'', ''ParentVersion''),
             (''created_at'', ''CreatedAt'')]))))
      | WriteOpUpdate \<Rightarrow> as_struct ''Playbook'' ''invalid data type for playbook update'' (op_Data op) (\<lambda>p.
          marshalled playbook_json p (\<lambda>_.
          stmt (SqlUpdate ''playbooks'' (binds p
            [(''namespace'', ''Namespace''), (''slug'', ''Slug''), (''version'', ''Version''), (''name'', ''Name''),
             (''description'', ''Description''), (''framework_type'', ''FrameworkType''), (''steps'', ''StepsJSON''),
             (''shared_dirs'', ''SharedDirsJSON''), (''shared_files'', ''SharedFilesJSON''), (''writable_dirs'', ''WritableDirsJSON''),
             (''keep_releases'', ''KeepReleases''), (''validation_rules'', ''ValidationRulesJSON''), (''is_seed'', ''IsSeed''),
             (''is_deprecated'', ''IsDeprecated''), (''parent_id'', ''ParentID''), (''parent_version'', ''ParentVersion'')])
            ''id'' (fld p ''ID''))))
      | WriteOpDelete \<Rightarrow> as_int64 ''invalid data type for playbook delete'' (op_Data op) (\<lambda>i.
          stmt (SqlDelete ''playbooks'' ''id'' (AnyInt i))))"

definition executePlaybookActivationOp :: "WriteOp \<Rightarrow> exec_result" where
  "executePlaybookActivationOp op =
     (case op_Type op of
        WriteOpInsert \<Rightarrow> as_struct ''PlaybookActivation'' ''invalid data type for playbook_activation insert'' (op_Data op) (\<lambda>a.
          stmt (SqlInsert ''playbook_activations'' (binds a
            [(''id'', ''ID''), (''project_id'', ''ProjectID''), (''playbook_id'', ''PlaybookID''),
             (''activated_at'', ''ActivatedAt''), (''activated_by'', ''ActivatedBy'')])))
      | WriteOpUpdate \<Rightarrow> Inr None
      | WriteOpDelete \<Rightarrow> as_int64 ''invalid data type for playbook_activation delete'' (op_Data op) (\<lambda>i.
          stmt (SqlDelete ''playbook_activations'' ''id'' (AnyInt i))))"

definition executeVariableBindingOp :: "WriteOp \<Rightarrow> exec_result" where
  "executeVariableBindingOp op =
     (case op_Type op of
        WriteOpInsert \<Rightarrow> as_struct ''PlaybookVariableBinding'' ''invalid data type for variable_binding insert'' (op_Data op) (\<lambda>b.
          stmt (SqlInsert ''playbook_variable_bindings'' (binds b
            [(''id'', ''ID''), (''activation_id'', ''ActivationID''), (''variable_name'', ''VariableName''),
             (''source_type'', ''SourceType''), (''source_ref'', ''SourceRef''), (''literal_value'', ''LiteralValue'')])))
      | WriteOpUpdate \<Rightarrow> as_struct ''PlaybookVariableBinding'' ''invalid data type for variable_binding update'' (op_Data op) (\<lambda>b.
          stmt (SqlUpdate ''playbook_variable_bindings'' (binds b
            [(''variable_name'', ''VariableName''), (''source_type'', ''SourceType''), (''source_ref'', ''SourceRef''),
             (''literal_value'', ''LiteralValue'')]) ''id'' (fld b ''ID'')))
      | WriteOpDelete \<Rightarrow> as_int64 ''invalid data type for variable_binding delete'' (op_Data op) (\<lambda>i.
          stmt (SqlDelete ''playbook_variable_bindings'' ''id'' (AnyInt i))))"

definition executeRawApprovalOp :: "WriteOp \<Rightarrow> exec_result" where
  "executeRawApprovalOp op =
     (case op_Type op of
        WriteOpInsert \<Rightarrow> as_struct ''RawCommandApproval'' ''invalid data type for raw_approval insert'' (op_Data op) (\<lambda>a.
          stmt (SqlInsert ''raw_command_approvals'' (binds a
            [(''id'', ''ID''), (''component_id'', ''ComponentID''), (''approved_by'', ''ApprovedBy''),
             (''approved_at'', ''ApprovedAt''), (''approval_note'', ''ApprovalNote'')])))
      | WriteOpUpdate \<Rightarrow> Inr None
      | WriteOpDelete \<Rightarrow> as_int64 ''invalid data type for raw_approval delete'' (op_Data op) (\<lambda>i.
          stmt (SqlDelete ''raw_command_approvals'' ''id'' (AnyInt i))))"

section \<open>Dispatch\<close>

text \<open>An unknown table is logged and ignored.\<close>

definition executeWriteOp :: "((string \<rightharpoonup> string) \<Rightarrow> string) \<Rightarrow> MemoryStore \<Rightarrow> WriteOp \<Rightarrow> exec_result" where
  "executeWriteOp labelsJSON s op =
     (let t = op_Table op
      in if t = ''users'' then executeUserOp op
         else if t = ''sessions'' then executeSessionOp op
         else if t = ''api_keys'' then executeAPIKeyOp s op
         else if t = ''settings'' then executeSettingOp s op
         else if t = ''projects'' then executeProjectOp s op
         else if t = ''project_types'' then executeProjectTypeOp op
         else if t = ''project_webhooks'' \<or> t = ''webhooks'' then executeWebhookOp s op
         else if t = ''secrets'' then executeSecretOp s op
         else if t = ''agents'' then executeAgentOp labelsJSON s op
         else if t = ''agent_binaries'' then executeAgentBinaryOp s op
         else if t = ''agent_update_history'' then executeAgentUpdateHistoryOp s op
         else if t = ''deployments'' then executeDeploymentOp s op
         else if t = ''deployment_logs'' then executeDeploymentLogOp op
         else if t = ''deployment_rollbacks'' then executeDeploymentRollbackOp s op
         else if t = ''scheduled_deployments'' then executeScheduledDeploymentOp s op
         else if t = ''audit_logs'' then executeAuditLogOp op
         else if t = ''blocked_ips'' then executeBlockedIPOp op
         else if t = ''rate_limits'' then executeRateLimitOp s op
         else if t = ''provision_jobs'' then executeProvisionJobOp op
         else if t = ''ssh_host_keys'' then executeSSHHostKeyOp op
         else if t = ''ssh_jump_servers'' then executeJumpServerOp op
         else if t = ''health_check_configs'' then executeHealthCheckConfigOp op
         else if t = ''acme_certificates'' then executeACMECertificateOp op
         else if t = ''acme_accounts'' then executeACMEAccountOp op
         else if t = ''recovery_codes'' then executeRecoveryCodeOp op
         else if t = ''recipe_components'' then executeRecipeComponentOp op
         else if t = ''playbooks'' then executePlaybookOp op
         else if t = ''playbook_activations'' then executePlaybookActivationOp op
         else if t = ''playbook_variable_bindings'' then executeVariableBindingOp op
         else if t = ''raw_command_approvals'' then executeRawApprovalOp op
         else Inr None)"

end
