(* ===== verification/Ref_Table.thy ===== *)
theory Ref_Table
  imports Prelude "HOL-Library.Multiset"
begin

text \<open>
  A Go \<open>map[K]*T\<close> whose entries are changed in place is a map of references together with the heap of
  the objects. \<open>deref\<close> reads such a table as a map of values. The lemmas show that, while no two keys
  share an object (\<open>own_refs\<close>), storing a new object, assigning through a stored pointer and deleting
  keys are exactly the corresponding updates of the map of values; \<open>keyed_table\<close> is that contract.
\<close>

section \<open>Reading through the pointers\<close>

definition deref :: "('k \<rightharpoonup> ref) \<Rightarrow> 'a heap \<Rightarrow> ('k \<rightharpoonup> 'a)" where
  "deref m h = (\<lambda>k. Option.bind (m k) (load h))"

definition obj_sat :: "'a heap \<Rightarrow> ('a \<Rightarrow> bool) \<Rightarrow> ref \<Rightarrow> bool" where
  "obj_sat h P r = (case load h r of None \<Rightarrow> False | Some x \<Rightarrow> P x)"

text \<open>What \<open>for k, p := range m\<close> visits in the order \<open>ks\<close>: the key, the pointer and the object.\<close>

definition ref_range :: "'k list \<Rightarrow> ('k \<rightharpoonup> ref) \<Rightarrow> 'a heap \<Rightarrow> ('k \<times> ref \<times> 'a) list" where
  "ref_range ks m h =
     List.map_filter (\<lambda>k. case m k of None \<Rightarrow> None
        | Some r \<Rightarrow> map_option (\<lambda>x. (k, r, x)) (load h r)) ks"

definition range_objs :: "'k list \<Rightarrow> ('k \<rightharpoonup> ref) \<Rightarrow> 'a heap \<Rightarrow> 'a list" where
  "range_objs ks m h = map (\<lambda>(k, r, x). x) (ref_range ks m h)"

definition find_obj :: "('a \<Rightarrow> bool) \<Rightarrow> 'k list \<Rightarrow> ('k \<rightharpoonup> ref) \<Rightarrow> 'a heap \<Rightarrow> ('k \<times> ref \<times> 'a) option" where
  "find_obj P ks m h = find (\<lambda>(k, r, x). P x) (ref_range ks m h)"

text \<open>\<open>for k, p := range m { if P(*p) { delete(m, k) } }\<close>\<close>

definition delete_objs :: "('a \<Rightarrow> bool) \<Rightarrow> ('k \<rightharpoonup> ref) \<Rightarrow> 'a heap \<Rightarrow> ('k \<rightharpoonup> ref)" where
  "delete_objs P m h = delete_where (\<lambda>_ r. obj_sat h P r) m"

definition own_refs :: "('k \<rightharpoonup> ref) \<Rightarrow> 'a heap \<Rightarrow> bool" where
  "own_refs m h \<longleftrightarrow>
     (\<forall>k r. m k = Some r \<longrightarrow> load h r \<noteq> None) \<and> (\<forall>k k' r. m k = Some r \<longrightarrow> m k' = Some r \<longrightarrow> k = k')"

lemma own_refs_empty [simp]: "own_refs Map.empty h"
  by (simp add: own_refs_def)

lemma deref_empty [simp]: "deref Map.empty h = Map.empty"
  by (simp add: deref_def)

lemma deref_Some_iff: "deref m h k = Some x \<longleftrightarrow> (\<exists>r. m k = Some r \<and> load h r = Some x)"
  by (auto simp: deref_def bind_eq_Some_conv)

lemma deref_None_iff: "own_refs m h \<Longrightarrow> deref m h k = None \<longleftrightarrow> m k = None"
  by (cases "m k") (auto simp: deref_def own_refs_def)

lemma own_refs_load:
  assumes "own_refs m h" and "m k = Some r"
  obtains x where "load h r = Some x"
  using assms unfolding own_refs_def by blast

lemma own_refs_below: "own_refs m h \<Longrightarrow> m k = Some r \<Longrightarrow> r < length h"
  by (auto simp: own_refs_def load_def split: if_splits)

lemma own_refs_new [wf_intros]: "own_refs m h \<Longrightarrow> own_refs (m(k \<mapsto> length h)) (h @ [x])"
  unfolding own_refs_def by (auto simp: heap_simps) (metis load_length option.distinct(1))+

lemma own_refs_grow: "own_refs m h \<Longrightarrow> own_refs m (h @ [x])"
  unfolding own_refs_def by (auto simp: heap_simps)

lemma own_refs_assign [wf_intros]: "own_refs m h \<Longrightarrow> own_refs m (assign h r x)"
  unfolding own_refs_def by (auto simp: heap_simps)

lemma own_refs_remove [wf_intros]: "own_refs m h \<Longrightarrow> own_refs (m(k := None)) h"
  unfolding own_refs_def by (auto split: if_splits)

lemma own_refs_delete_where: "own_refs m h \<Longrightarrow> own_refs (delete_where P m) h"
  unfolding own_refs_def by (auto simp: delete_where_Some_iff)

lemma own_refs_delete_objs [wf_intros]: "own_refs m h \<Longrightarrow> own_refs (delete_objs P m h) h"
  by (simp add: delete_objs_def own_refs_delete_where)

lemma deref_new: "own_refs m h \<Longrightarrow> deref (m(k \<mapsto> length h)) (h @ [x]) = (deref m h)(k \<mapsto> x)"
  by (auto simp: deref_def heap_simps fun_eq_iff dest: own_refs_below split: option.splits
      Option.bind_splits)

lemma deref_assign:
  assumes "own_refs m h" and "m k = Some r"
  shows "deref m (assign h r x) = (deref m h)(k \<mapsto> x)"
proof
  fix j
  obtain y where y: "load h r = Some y" using own_refs_load [OF assms] .
  have "j = k" if "m j = Some r" using assms that by (auto simp: own_refs_def)
  then show "deref m (assign h r x) j = ((deref m h)(k \<mapsto> x)) j"
    using assms(2) y by (cases "m j") (auto simp: deref_def heap_simps)
qed

lemma deref_remove: "deref (m(k := None)) h = (deref m h)(k := None)"
  by (auto simp: deref_def)

lemma deref_delete_objs: "deref (delete_objs P m h) h = delete_where (\<lambda>_. P) (deref m h)"
  by (auto simp: deref_def delete_objs_def delete_where_def obj_sat_def fun_eq_iff
      split: option.splits Option.bind_splits)

lemma delete_objs_Some_iff:
  "delete_objs P m h k = Some r \<longleftrightarrow> m k = Some r \<and> \<not> obj_sat h P r"
  by (simp add: delete_objs_def delete_where_Some_iff)

subsection \<open>Searching a table\<close>

lemma ref_range_mem:
  "(k, r, x) \<in> set (ref_range ks m h) \<longleftrightarrow> k \<in> set ks \<and> m k = Some r \<and> load h r = Some x"
  by (force simp: ref_range_def map_filter_def split: option.splits)

lemma range_objs_mem:
  "enumerates ks m \<Longrightarrow> x \<in> set (range_objs ks m h) \<longleftrightarrow> (\<exists>k. deref m h k = Some x)"
proof -
  assume "enumerates ks m"
  then have "m k = Some r \<Longrightarrow> k \<in> set ks" for k r by (auto simp: enumerates_def)
  moreover have "x \<in> set (range_objs ks m h) \<longleftrightarrow> (\<exists>k r. (k, r, x) \<in> set (ref_range ks m h))"
    by (force simp: range_objs_def)
  ultimately show ?thesis by (auto simp: ref_range_mem deref_Some_iff)
qed

lemma find_obj_Some:
  assumes "find_obj P ks m h = Some (k, r, x)"
  shows "m k = Some r \<and> load h r = Some x \<and> P x"
  using assms ref_range_mem [of k r x ks m h]
  by (fastforce simp: find_obj_def find_Some_iff dest: nth_mem)

lemma find_obj_None:
  assumes "enumerates ks m" and "find_obj P ks m h = None" and "deref m h k = Some x"
  shows "\<not> P x"
proof -
  from assms(3) obtain r where "m k = Some r" "load h r = Some x" by (auto simp: deref_Some_iff)
  then have "(k, r, x) \<in> set (ref_range ks m h)" using assms(1) by (auto simp: ref_range_mem enumerates_def)
  then show ?thesis using assms(2) by (auto simp: find_obj_def find_None_iff)
qed

text \<open>When at most one entry qualifies, the order of the search does not matter.\<close>

lemma find_obj_unique:
  assumes "enumerates ks m" and "m k = Some r" and "load h r = Some x" and "P x"
    and "\<And>k' y. deref m h k' = Some y \<Longrightarrow> P y \<Longrightarrow> k' = k"
  shows "find_obj P ks m h = Some (k, r, x)"
proof (cases "find_obj P ks m h")
  case None
  with find_obj_None [OF assms(1) None, of k x] assms(2-4) show ?thesis by (simp add: deref_def)
next
  case (Some z)
  obtain k' r' y where z: "z = (k', r', y)" by (cases z)
  with find_obj_Some [OF Some [unfolded z]] assms(2,3) assms(5) [of k' y] Some show ?thesis
    by (auto simp: deref_Some_iff)
qed

section \<open>Entries stored under their own identifier\<close>

definition keyed_by :: "('v \<Rightarrow> 'k) \<Rightarrow> ('k \<rightharpoonup> 'v) \<Rightarrow> bool" where
  "keyed_by ident m \<longleftrightarrow> (\<forall>k v. m k = Some v \<longrightarrow> ident v = k)"

lemma keyed_byD: "keyed_by ident m \<Longrightarrow> m k = Some v \<Longrightarrow> ident v = k"
  by (simp add: keyed_by_def)

lemma keyed_by_empty [simp]: "keyed_by ident Map.empty"
  by (simp add: keyed_by_def)

lemma keyed_by_upd [wf_intros]: "keyed_by ident m \<Longrightarrow> ident v = k \<Longrightarrow> keyed_by ident (m(k \<mapsto> v))"
  unfolding keyed_by_def by (metis fun_upd_apply option.inject)

lemma keyed_by_remove [wf_intros]: "keyed_by ident m \<Longrightarrow> keyed_by ident (m(k := None))"
  unfolding keyed_by_def by (metis fun_upd_apply option.distinct(1))

lemma keyed_by_delete_where [wf_intros]: "keyed_by ident m \<Longrightarrow> keyed_by ident (delete_where P m)"
  unfolding keyed_by_def by (metis delete_where_Some_iff)

section \<open>The contract\<close>

text \<open>A table of values under keys: what a client may rely on, however the entries are stored.\<close>

locale keyed_table =
  fixes inv :: "'t \<Rightarrow> bool"
    and look :: "'t \<Rightarrow> 'k \<Rightarrow> 'v option"
    and store_new :: "'k \<Rightarrow> 'v \<Rightarrow> 't \<Rightarrow> 't"
    and modify :: "'k \<Rightarrow> 'v \<Rightarrow> 't \<Rightarrow> 't"
    and remove :: "'k \<Rightarrow> 't \<Rightarrow> 't"
    and remove_if :: "('v \<Rightarrow> bool) \<Rightarrow> 't \<Rightarrow> 't"
  assumes look_new: "inv t \<Longrightarrow> look (store_new k v t) = (look t)(k \<mapsto> v)"
    and look_modify: "inv t \<Longrightarrow> look t k \<noteq> None \<Longrightarrow> look (modify k v t) = (look t)(k \<mapsto> v)"
    and look_remove: "inv t \<Longrightarrow> look (remove k t) = (look t)(k := None)"
    and look_remove_if: "inv t \<Longrightarrow> look (remove_if P t) = delete_where (\<lambda>_. P) (look t)"
    and inv_new: "inv t \<Longrightarrow> inv (store_new k v t)"
    and inv_modify: "inv t \<Longrightarrow> inv (modify k v t)"
    and inv_remove: "inv t \<Longrightarrow> inv (remove k t)"
    and inv_remove_if: "inv t \<Longrightarrow> inv (remove_if P t)"
begin

text \<open>\<open>SetX\<close>: modify the entry when there is one, store a new one otherwise.\<close>

definition upsert :: "'k \<Rightarrow> ('v \<Rightarrow> 'v) \<Rightarrow> 'v \<Rightarrow> 't \<Rightarrow> 't" where
  "upsert k f v t = (case look t k of None \<Rightarrow> store_new k v t | Some x \<Rightarrow> modify k (f x) t)"

lemma upsert_look:
  "inv t \<Longrightarrow> look (upsert k f v t) = (look t)(k \<mapsto> (case look t k of None \<Rightarrow> v | Some x \<Rightarrow> f x))"
  by (simp add: upsert_def look_new look_modify split: option.splits)

lemma upsert_inv: "inv t \<Longrightarrow> inv (upsert k f v t)"
  by (simp add: upsert_def inv_new inv_modify split: option.splits)

lemma remove_upsert: "inv t \<Longrightarrow> look (remove k (upsert k f v t)) = (look t)(k := None)"
  by (simp add: look_remove upsert_inv upsert_look)

lemma remove_if_keeps: "inv t \<Longrightarrow> look t k = Some v \<Longrightarrow> \<not> P v \<Longrightarrow> look (remove_if P t) k = Some v"
  by (simp add: look_remove_if delete_where_Some_iff)

lemma remove_if_gone: "inv t \<Longrightarrow> look (remove_if P t) k = Some v \<Longrightarrow> \<not> P v"
  by (simp add: look_remove_if delete_where_Some_iff)

end

text \<open>The pointer table: a pair of the map and its heap.\<close>

definition table_new :: "'k \<Rightarrow> 'a \<Rightarrow> ('k \<rightharpoonup> ref) \<times> 'a heap \<Rightarrow> ('k \<rightharpoonup> ref) \<times> 'a heap" where
  "table_new k x t = (case new_obj x (snd t) of (r, h) \<Rightarrow> ((fst t)(k \<mapsto> r), h))"

definition table_modify :: "'k \<Rightarrow> 'a \<Rightarrow> ('k \<rightharpoonup> ref) \<times> 'a heap \<Rightarrow> ('k \<rightharpoonup> ref) \<times> 'a heap" where
  "table_modify k x t = (case fst t k of None \<Rightarrow> t | Some r \<Rightarrow> (fst t, assign (snd t) r x))"

interpretation pointer_table: keyed_table
  "\<lambda>t::('k \<rightharpoonup> ref) \<times> 'a heap. own_refs (fst t) (snd t)" "\<lambda>t. deref (fst t) (snd t)" table_new table_modify
  "\<lambda>k t. ((fst t)(k := None), snd t)" "\<lambda>P t. (delete_objs P (fst t) (snd t), snd t)"
proof
  fix t :: "('k \<rightharpoonup> ref) \<times> 'a heap" and k v and P :: "'a \<Rightarrow> bool"
  assume o: "own_refs (fst t) (snd t)"
  show "deref (fst (table_new k v t)) (snd (table_new k v t)) = (deref (fst t) (snd t))(k \<mapsto> v)"
    using o by (simp add: table_new_def new_obj_def deref_new)
  show "own_refs (fst (table_new k v t)) (snd (table_new k v t))"
    using o by (simp add: table_new_def new_obj_def own_refs_new)
  show "own_refs (fst (table_modify k v t)) (snd (table_modify k v t))"
    using o by (auto simp: table_modify_def own_refs_assign split: option.splits)
  show "deref (fst (table_modify k v t)) (snd (table_modify k v t)) = (deref (fst t) (snd t))(k \<mapsto> v)"
    if "deref (fst t) (snd t) k \<noteq> None"
    using o that deref_assign [OF o, of k _ v]
    by (cases "fst t k") (auto simp: table_modify_def deref_None_iff)
qed (simp_all add: deref_remove deref_delete_objs own_refs_remove own_refs_delete_objs)

section \<open>Listing a table\<close>

lemma range_objs_deref:
  assumes "enumerates ks m" and "own_refs m h"
  shows "range_objs ks m h = map (\<lambda>k. the (deref m h k)) ks"
proof -
  have "k \<in> set ks \<Longrightarrow> \<exists>r x. m k = Some r \<and> load h r = Some x" for k
    using assms by (metis domD enumerates_def own_refs_load)
  then show ?thesis
    unfolding range_objs_def ref_range_def
    by (induction ks) (fastforce simp: map_filter_simps deref_def)+
qed

lemma length_range_objs:
  "enumerates ks m \<Longrightarrow> own_refs m h \<Longrightarrow> length (range_objs ks m h) = card (dom m)"
  by (simp add: range_objs_deref enumerates_length)

lemma mset_range_objs:
  assumes "enumerates ks m" and "enumerates ks' m" and "own_refs m h"
  shows "mset (range_objs ks m h) = mset (range_objs ks' m h)"
proof -
  have "mset ks = mset ks'" using assms(1,2) by (metis enumerates_def set_eq_iff_mset_eq_distinct)
  then show ?thesis by (simp add: range_objs_deref assms)
qed

end
