(* ===== verification/Dual_Index.thy ===== *)
theory Dual_Index
  imports Prelude
begin

text \<open>
  Several tables of the store are kept in two maps at once, by identifier and by name
  (\<open>users\<close>/\<open>usersByName\<close>, \<open>projects\<close>/\<open>projectsByName\<close>). \<open>dual_indexed\<close> says the two maps
  describe the same set of entries; the lemmas say which pairs of map updates keep that.
  \<open>named_directory\<close> is the contract a reader of such a table relies on.
\<close>

definition dual_indexed ::
  "('v \<Rightarrow> string) \<Rightarrow> ('v \<Rightarrow> string) \<Rightarrow> (string \<rightharpoonup> 'v) \<Rightarrow> (string \<rightharpoonup> 'v) \<Rightarrow> bool" where
  "dual_indexed ident nm m n \<longleftrightarrow>
     (\<forall>i v. m i = Some v \<longrightarrow> ident v = i \<and> n (nm v) = Some v) \<and>
     (\<forall>k v. n k = Some v \<longrightarrow> nm v = k \<and> m (ident v) = Some v)"

lemma dual_indexed_empty [simp]: "dual_indexed ident nm Map.empty Map.empty"
  by (simp add: dual_indexed_def)

lemma dual_indexedD1:
  "dual_indexed ident nm m n \<Longrightarrow> m i = Some v \<Longrightarrow> ident v = i \<and> n (nm v) = Some v"
  by (simp add: dual_indexed_def)

lemma dual_indexedD2:
  "dual_indexed ident nm m n \<Longrightarrow> n k = Some v \<Longrightarrow> nm v = k \<and> m (ident v) = Some v"
  by (simp add: dual_indexed_def)

lemma dual_indexedI:
  assumes "\<And>i v. m i = Some v \<Longrightarrow> ident v = i \<and> n (nm v) = Some v"
    and "\<And>k v. n k = Some v \<Longrightarrow> nm v = k \<and> m (ident v) = Some v"
  shows "dual_indexed ident nm m n"
  using assms by (simp add: dual_indexed_def)

lemma dual_indexed_insert:
  assumes d: "dual_indexed ident nm m n" and "m (ident v) = None" and "n (nm v) = None"
  shows "dual_indexed ident nm (m(ident v \<mapsto> v)) (n(nm v \<mapsto> v))"
proof (rule dual_indexedI)
  fix i w assume "(m(ident v \<mapsto> v)) i = Some w"
  then show "ident w = i \<and> (n(nm v \<mapsto> v)) (nm w) = Some w"
    using dual_indexedD1 [OF d, of i w] assms(3) by (auto split: if_splits)
next
  fix k w assume "(n(nm v \<mapsto> v)) k = Some w"
  then show "nm w = k \<and> (m(ident v \<mapsto> v)) (ident w) = Some w"
    using dual_indexedD2 [OF d, of k w] assms(2) by (auto split: if_splits)
qed

lemma dual_indexed_replace:
  assumes d: "dual_indexed ident nm m n" and old: "m (ident v) = Some old"
    and free: "nm v = nm old \<or> n (nm v) = None"
  shows "dual_indexed ident nm (m(ident v \<mapsto> v)) ((n(nm old := None))(nm v \<mapsto> v))"
proof (rule dual_indexedI)
  fix i w assume w: "(m(ident v \<mapsto> v)) i = Some w"
  show "ident w = i \<and> ((n(nm old := None))(nm v \<mapsto> v)) (nm w) = Some w"
  proof (cases "i = ident v")
    case True
    with w show ?thesis by simp
  next
    case False
    with w have iw: "ident w = i" "n (nm w) = Some w"
      using dual_indexedD1 [OF d, of i w] by simp_all
    have io: "ident old = ident v" "n (nm old) = Some old"
      using dual_indexedD1 [OF d old] by blast+
    have "nm w \<noteq> nm old"
    proof
      assume "nm w = nm old"
      with iw(2) io(2) have "w = old" by (metis option.inject)
      with iw(1) io(1) False show False by metis
    qed
    moreover have "nm w \<noteq> nm v"
      using calculation free iw(2) by (metis option.distinct(1))
    ultimately show ?thesis using iw by simp
  qed
next
  fix k w assume w: "((n(nm old := None))(nm v \<mapsto> v)) k = Some w"
  show "nm w = k \<and> (m(ident v \<mapsto> v)) (ident w) = Some w"
  proof (cases "k = nm v")
    case True
    with w show ?thesis by simp
  next
    case False
    with w have kw: "k \<noteq> nm old" "nm w = k" "m (ident w) = Some w"
      using dual_indexedD2 [OF d, of k w] by (simp_all split: if_splits)
    with old have "ident w \<noteq> ident v" by auto
    with kw show ?thesis by simp
  qed
qed

lemma dual_indexed_delete:
  assumes d: "dual_indexed ident nm m n" and v: "m i = Some v"
  shows "dual_indexed ident nm (m(i := None)) (n(nm v := None))"
proof (rule dual_indexedI)
  fix j w assume "(m(i := None)) j = Some w"
  then show "ident w = j \<and> (n(nm v := None)) (nm w) = Some w"
    using dual_indexedD1 [OF d, of j w] dual_indexedD1 [OF d v] by (auto split: if_splits)
next
  fix k w assume "(n(nm v := None)) k = Some w"
  then show "nm w = k \<and> (m(i := None)) (ident w) = Some w"
    using dual_indexedD2 [OF d, of k w] v by (auto split: if_splits)
qed

text \<open>The entries' keys may be computed from objects that change, as long as the entries in the
  maps keep theirs.\<close>

lemma dual_indexed_cong:
  assumes "dual_indexed ident nm m n"
    and "\<And>i v. m i = Some v \<Longrightarrow> ident' v = ident v \<and> nm' v = nm v"
  shows "dual_indexed ident' nm' m n"
proof (rule dual_indexedI)
  fix i v assume "m i = Some v"
  then show "ident' v = i \<and> n (nm' v) = Some v"
    using dual_indexedD1 [OF assms(1), of i v] assms(2) [of i v] by simp
next
  fix k v assume k: "n k = Some v"
  then show "nm' v = k \<and> m (ident' v) = Some v"
    using dual_indexedD2 [OF assms(1) k] assms(2) [of "ident v" v] by simp
qed

section \<open>The contract of a directory\<close>

locale named_directory =
  fixes inv :: "'s \<Rightarrow> bool"
    and by_id :: "'s \<Rightarrow> string \<Rightarrow> 'v option"
    and by_name :: "'s \<Rightarrow> string \<Rightarrow> 'v option"
    and ident :: "'v \<Rightarrow> string"
    and nm :: "'v \<Rightarrow> string"
  assumes id_name: "inv s \<Longrightarrow> by_id s i = Some v \<Longrightarrow> ident v = i \<and> by_name s (nm v) = Some v"
    and name_id: "inv s \<Longrightarrow> by_name s k = Some v \<Longrightarrow> nm v = k \<and> by_id s (ident v) = Some v"
begin

lemma names_unique:
  assumes "inv s" and "by_id s i = Some v" and "by_id s j = Some w" and "nm v = nm w"
  shows "i = j \<and> v = w"
proof -
  have v: "ident v = i" "by_name s (nm v) = Some v" and w: "ident w = j" "by_name s (nm w) = Some w"
    using id_name [OF assms(1,2)] id_name [OF assms(1,3)] by blast+
  from v(2) w(2) assms(4) have "v = w" by (metis option.inject)
  with v(1) w(1) show ?thesis by blast
qed

lemma lookup_agree:
  assumes "inv s"
  shows "by_name s k = Some v \<longleftrightarrow> by_id s (ident v) = Some v \<and> nm v = k"
proof
  assume "by_name s k = Some v"
  then show "by_id s (ident v) = Some v \<and> nm v = k" by (blast dest: name_id [OF assms])
next
  assume "by_id s (ident v) = Some v \<and> nm v = k"
  then show "by_name s k = Some v" using id_name [OF assms, of "ident v" v] by simp
qed

lemma absent_name:
  assumes "inv s" and "by_name s k = None" and "by_id s i = Some v"
  shows "nm v \<noteq> k"
  using id_name [OF assms(1,3)] assms(2) by auto

text \<open>The two maps have the same number of entries.\<close>

lemma card_agree:
  assumes "inv s"
  shows "card (dom (by_name s)) = card (dom (by_id s))"
proof (rule bij_betw_same_card [where f = "\<lambda>k. ident (the (by_name s k))"])
  have "inj_on (\<lambda>k. ident (the (by_name s k))) (dom (by_name s))"
  proof (rule inj_onI)
    fix k l assume "k \<in> dom (by_name s)" and "l \<in> dom (by_name s)"
      and e: "ident (the (by_name s k)) = ident (the (by_name s l))"
    then obtain v w where "by_name s k = Some v" and "by_name s l = Some w" by blast
    moreover have "nm v = k \<and> by_id s (ident v) = Some v" and "nm w = l \<and> by_id s (ident w) = Some w"
      by (rule name_id [OF assms], fact)+
    ultimately show "k = l" using e by (metis option.inject option.sel)
  qed
  moreover have "(\<lambda>k. ident (the (by_name s k))) ` dom (by_name s) = dom (by_id s)"
  proof (intro equalityI subsetI)
    fix i assume "i \<in> (\<lambda>k. ident (the (by_name s k))) ` dom (by_name s)"
    then obtain k v where "by_name s k = Some v" and "i = ident v" by auto
    then show "i \<in> dom (by_id s)" by (blast dest: name_id [OF assms])
  next
    fix i assume "i \<in> dom (by_id s)"
    then obtain v where "by_id s i = Some v" by auto
    then have "ident v = i" and "by_name s (nm v) = Some v" by (blast dest: id_name [OF assms])+
    then show "i \<in> (\<lambda>k. ident (the (by_name s k))) ` dom (by_name s)"
      by (intro image_eqI [of _ _ "nm v"]) auto
  qed
  ultimately show "bij_betw (\<lambda>k. ident (the (by_name s k))) (dom (by_name s)) (dom (by_id s))"
    by (simp add: bij_betw_def)
qed

end

end
