(* ===== verification/Go_Strings.thy ===== *)
theory Go_Strings
  imports Prelude "HOL-Library.Sublist"
begin

text \<open>
  The functions of Go's \<open>strings\<close> and \<open>strconv\<close> packages that the modelled code calls, on byte
  strings. White space is Unicode white space: the one-byte characters and the UTF-8 encodings of the
  others, so that \<open>TrimSpace\<close> and \<open>Fields\<close> are exact on every byte string. Separators are single
  bytes, as they are at every call in the modelled code.
\<close>

definition HasPrefix :: "string \<Rightarrow> string \<Rightarrow> bool" where
  "HasPrefix s p \<longleftrightarrow> take (length p) s = p"

definition HasSuffix :: "string \<Rightarrow> string \<Rightarrow> bool" where
  "HasSuffix s p \<longleftrightarrow> HasPrefix (rev s) (rev p)"

lemma HasPrefix_iff: "HasPrefix s p \<longleftrightarrow> prefix p s"
  by (metis HasPrefix_def append_take_drop_id prefixI prefix_def append_eq_conv_conj)

lemma HasSuffix_iff: "HasSuffix s p \<longleftrightarrow> suffix p s"
  by (simp add: HasSuffix_def HasPrefix_iff suffix_to_prefix)

text \<open>\<open>strings.Index\<close>: the position of the first occurrence.\<close>

fun Index :: "string \<Rightarrow> string \<Rightarrow> nat option" where
  "Index s sub =
     (if HasPrefix s sub then Some 0
      else case s of [] \<Rightarrow> None | _ # t \<Rightarrow> map_option Suc (Index t sub))"

declare Index.simps [simp del]

definition Contains :: "string \<Rightarrow> string \<Rightarrow> bool" where
  "Contains s sub \<longleftrightarrow> Index s sub \<noteq> None"

lemma Index_Some_split:
  "Index s sub = Some i \<Longrightarrow> \<exists>pre post. s = pre @ sub @ post \<and> length pre = i"
proof (induction s sub arbitrary: i rule: Index.induct)
  case (1 s sub)
  show ?case
  proof (cases "HasPrefix s sub")
    case True
    with "1.prems" show ?thesis
      by (subst (asm) Index.simps) (auto simp: HasPrefix_iff prefix_def)
  next
    case False
    with "1.prems" obtain c t j where s: "s = c # t" and j: "Index t sub = Some j" and i: "i = Suc j"
      by (subst (asm) Index.simps) (auto split: list.splits)
    then obtain pre post where "t = pre @ sub @ post" and "length pre = j"
      using "1.IH" False by blast
    with s i show ?thesis by (intro exI [of _ "c # pre"] exI [of _ post]) auto
  qed
qed

lemma Index_None: "Index s sub = None \<Longrightarrow> \<not> sublist sub s"
proof (induction s sub rule: Index.induct)
  case (1 s sub)
  then have np: "\<not> prefix sub s"
    by (subst (asm) Index.simps) (auto simp: HasPrefix_iff split: if_splits)
  show ?case
  proof (cases s)
    case Nil
    with np show ?thesis by auto
  next
    case (Cons c t)
    have "Index t sub = None"
      using "1.prems" Cons np by (subst (asm) Index.simps) (simp add: HasPrefix_iff)
    then have "\<not> sublist sub t" using "1.IH" Cons np by (simp add: HasPrefix_iff)
    with np Cons show ?thesis by (simp add: sublist_Cons_right)
  qed
qed

lemma Contains_iff: "Contains s sub \<longleftrightarrow> sublist sub s"
  unfolding Contains_def
  by (metis Index_None Index_Some_split not_None_eq sublist_def)

lemma Contains_char_iff: "Contains s [c] \<longleftrightarrow> c \<in> set s"
  by (metis Contains_iff append_Cons append_Nil in_set_conv_decomp sublist_def)

section \<open>Splitting\<close>

text \<open>\<open>strings.Split(s, sep)\<close> for a one-byte separator.\<close>

fun Split :: "string \<Rightarrow> char \<Rightarrow> string list" where
  "Split [] c = [[]]"
| "Split (x # xs) c =
     (if x = c then [] # Split xs c
      else case Split xs c of [] \<Rightarrow> [[x]] | p # ps \<Rightarrow> (x # p) # ps)"

lemma Split_nonempty: "Split s c \<noteq> []"
  by (induction s c rule: Split.induct) (auto split: list.splits)

fun Join :: "string list \<Rightarrow> string \<Rightarrow> string" where
  "Join [] sep = []"
| "Join [p] sep = p"
| "Join (p # q # ps) sep = p @ sep @ Join (q # ps) sep"

lemma Join_Cons: "ps \<noteq> [] \<Longrightarrow> Join (p # ps) sep = p @ sep @ Join ps sep"
  by (cases ps) auto

lemma Join_Split: "Join (Split s c) [c] = s"
proof (induction s c rule: Split.induct)
  case (1 c)
  then show ?case by simp
next
  case (2 x xs c)
  obtain p ps where sp: "Split xs c = p # ps" using Split_nonempty by (cases "Split xs c") auto
  show ?case
  proof (cases "x = c")
    case True
    with 2 show ?thesis by (simp add: Join_Cons Split_nonempty)
  next
    case False
    with 2 sp show ?thesis by (cases ps) auto
  qed
qed

lemma Split_no_sep: "p \<in> set (Split s c) \<Longrightarrow> c \<notin> set p"
  by (induction s c arbitrary: p rule: Split.induct) (auto split: if_splits list.splits)

lemma Split_single: "c \<notin> set s \<Longrightarrow> Split s c = [s]"
  by (induction s c rule: Split.induct) auto

lemma Split_append: "c \<notin> set p \<Longrightarrow> Split (p @ c # s) c = p # Split s c"
  by (induction p) auto

lemma Split_append_sep: "Split (a @ c # b) c = Split a c @ Split b c"
  by (induction a c rule: Split.induct) (auto split: list.splits simp: Split_nonempty)

text \<open>Splitting is the inverse of joining parts without the separator.\<close>

lemma Split_Join: "ps \<noteq> [] \<Longrightarrow> \<forall>p\<in>set ps. c \<notin> set p \<Longrightarrow> Split (Join ps [c]) c = ps"
proof (induction ps "[c]" rule: Join.induct)
  case 1
  then show ?case by simp
next
  case (2 p)
  then show ?case by (simp add: Split_single)
next
  case (3 p q ps)
  then show ?case by (simp add: Split_append)
qed

section \<open>White space\<close>

definition white_space :: "string list" where
  "white_space =
     map (\<lambda>n. [char_of n]) [9, 10, 11, 12, 13, 32 :: nat]
     @ map (map char_of)
         ([[194, 133], [194, 160], [225, 154, 128], [226, 128, 168], [226, 128, 169], [226, 128, 175],
           [226, 129, 159], [227, 128, 128]] @ map (\<lambda>n. [226, 128, n]) [128..<139] :: nat list list)"

lemma white_space_list [code]:
  "white_space =
  [[CHR 0x09],
   [CHR 0x0A],
   [CHR 0x0B],
   [CHR 0x0C],
   [CHR 0x0D],
   [CHR 0x20],
   [CHR 0xC2, CHR 0x85],
   [CHR 0xC2, CHR 0xA0],
   [CHR 0xE1, CHR 0x9A, CHR 0x80],
   [CHR 0xE2, CHR 0x80, CHR 0xA8],
   [CHR 0xE2, CHR 0x80, CHR 0xA9],
   [CHR 0xE2, CHR 0x80, CHR 0xAF],
   [CHR 0xE2, CHR 0x81, CHR 0x9F],
   [CHR 0xE3, CHR 0x80, CHR 0x80],
   [CHR 0xE2, CHR 0x80, CHR 0x80],
   [CHR 0xE2, CHR 0x80, CHR 0x81],
   [CHR 0xE2, CHR 0x80, CHR 0x82],
   [CHR 0xE2, CHR 0x80, CHR 0x83],
   [CHR 0xE2, CHR 0x80, CHR 0x84],
   [CHR 0xE2, CHR 0x80, CHR 0x85],
   [CHR 0xE2, CHR 0x80, CHR 0x86],
   [CHR 0xE2, CHR 0x80, CHR 0x87],
   [CHR 0xE2, CHR 0x80, CHR 0x88],
   [CHR 0xE2, CHR 0x80, CHR 0x89],
   [CHR 0xE2, CHR 0x80, CHR 0x8A]]"
  by code_simp

text \<open>The rest of a string after one leading white-space character, if there is one.\<close>

fun strip_one :: "string list \<Rightarrow> string \<Rightarrow> string option" where
  "strip_one [] s = None"
| "strip_one (w # ws) s =
     (if w \<noteq> [] \<and> HasPrefix s w then Some (drop (length w) s) else strip_one ws s)"

lemma strip_one_shorter: "strip_one ws s = Some r \<Longrightarrow> length r < length s"
proof (induction ws)
  case (Cons w ws)
  have "w \<noteq> [] \<Longrightarrow> take (length w) s = w \<Longrightarrow> s \<noteq> []" by auto
  with Cons show ?case by (auto simp: HasPrefix_def split: if_splits)
qed simp

function strip_left :: "string list \<Rightarrow> string \<Rightarrow> string" where
  "strip_left ws s = (case strip_one ws s of None \<Rightarrow> s | Some r \<Rightarrow> strip_left ws r)"
  by pat_completeness auto
termination
  by (relation "measure (\<lambda>(ws, s). length s)") (auto dest: strip_one_shorter)

declare strip_left.simps [simp del]

definition TrimSpace :: "string \<Rightarrow> string" where
  "TrimSpace s = rev (strip_left (map rev white_space) (rev (strip_left white_space s)))"

text \<open>\<open>strings.Fields\<close>: the maximal runs of characters that are not white space. The accumulator
  holds the current run, reversed.\<close>

function fields_from :: "string \<Rightarrow> string \<Rightarrow> string list" where
  "fields_from acc s =
     (case strip_one white_space s of
        Some r \<Rightarrow> (if acc = [] then [] else [rev acc]) @ fields_from [] r
      | None \<Rightarrow> (case s of
           [] \<Rightarrow> (if acc = [] then [] else [rev acc])
         | c # t \<Rightarrow> fields_from (c # acc) t))"
  by pat_completeness auto
termination
  by (relation "measure (\<lambda>(acc, s). length s)") (auto dest: strip_one_shorter)

declare fields_from.simps [simp del]

definition Fields :: "string \<Rightarrow> string list" where
  "Fields s = fields_from [] s"

lemma Fields_nonempty_parts: "p \<in> set (fields_from acc s) \<Longrightarrow> p \<noteq> []"
proof (induction acc s rule: fields_from.induct)
  case (1 acc s)
  then show ?case
    by (subst (asm) fields_from.simps) (auto split: option.splits list.splits if_splits)
qed

lemma fields_from_None: "fields_from acc s = [] \<Longrightarrow> acc = []"
proof (induction acc s rule: fields_from.induct)
  case (1 acc s)
  then show ?case
    by (subst (asm) (2) fields_from.simps) (auto split: option.splits list.splits if_splits)
qed

section \<open>Integers in decimal\<close>

definition digit_value :: "char \<Rightarrow> int option" where
  "digit_value c = (let n = of_char c :: nat in if 48 \<le> n \<and> n \<le> 57 then Some (int (n - 48)) else None)"

fun digits_value :: "int \<Rightarrow> string \<Rightarrow> int option" where
  "digits_value acc [] = Some acc"
| "digits_value acc (c # cs) =
     (case digit_value c of None \<Rightarrow> None | Some d \<Rightarrow> digits_value (acc * 10 + d) cs)"

text \<open>\<open>strconv.Atoi\<close>: an optional sign and at least one digit; \<open>None\<close> is the syntax or range error.\<close>

definition Atoi :: "string \<Rightarrow> int option" where
  "Atoi s =
     (let (neg, ds) = (case s of
          [] \<Rightarrow> (False, [])
        | c # t \<Rightarrow> if c = CHR ''-'' then (True, t) else if c = CHR ''+'' then (False, t) else (False, s))
      in if ds = [] then None
         else case digits_value 0 ds of
             None \<Rightarrow> None
           | Some v \<Rightarrow> (let x = (if neg then - v else v) in if in_int64 x then Some x else None))"

lemma Atoi_in_range: "Atoi s = Some x \<Longrightarrow> in_int64 x"
  by (auto simp: Atoi_def Let_def split: option.splits if_splits prod.splits)

section \<open>Splitting with a limit, replacing\<close>

text \<open>\<open>strings.SplitN\<close> with \<open>n > 0\<close>: at most \<open>n\<close> parts, the last being the unsplit rest.\<close>

definition SplitN :: "string \<Rightarrow> char \<Rightarrow> nat \<Rightarrow> string list" where
  "SplitN s c n =
     (let ps = Split s c
      in if length ps \<le> n then ps else take (n - 1) ps @ [Join (drop (n - 1) ps) [c]])"

text \<open>\<open>strings.ReplaceAll\<close> with a nonempty \<open>old\<close>: its occurrences from the left that do not overlap.\<close>

function ReplaceAll :: "string \<Rightarrow> string \<Rightarrow> string \<Rightarrow> string" where
  "ReplaceAll s old new =
     (if old = [] then s
      else case Index s old of
          None \<Rightarrow> s
        | Some i \<Rightarrow> take i s @ new @ ReplaceAll (drop (i + length old) s) old new)"
  by pat_completeness auto
termination
proof (relation "measure (\<lambda>(s, old, new). length s)")
  fix s old new :: string and i
  assume "old \<noteq> []" and "Index s old = Some i"
  then have "s \<noteq> []" using Index_Some_split by fastforce
  then show "((drop (i + length old) s, old, new), (s, old, new)) \<in> measure (\<lambda>(s, old, new). length s)"
    using \<open>old \<noteq> []\<close> by simp
qed simp

declare ReplaceAll.simps [simp del]

lemma ReplaceAll_absent: "\<not> Contains s old \<Longrightarrow> ReplaceAll s old new = s"
  by (subst ReplaceAll.simps) (simp add: Contains_def)

text \<open>Replacing a single character.\<close>

lemma Index_char_Cons: "Index (x # s) [ch] = (if x = ch then Some 0 else map_option Suc (Index s [ch]))"
  by (subst Index.simps) (auto simp: HasPrefix_def)

lemma ReplaceAll_char: "ReplaceAll s [ch] new = concat (map (\<lambda>x. if x = ch then new else [x]) s)"
proof (induction s)
  case Nil
  show ?case by (subst ReplaceAll.simps) (simp add: Index.simps HasPrefix_def)
next
  case (Cons x s)
  show ?case
  proof (cases "x = ch")
    case True
    with Cons show ?thesis by (subst ReplaceAll.simps) (simp add: Index_char_Cons)
  next
    case False
    with Cons show ?thesis
      by (subst ReplaceAll.simps, subst (asm) ReplaceAll.simps)
        (auto simp: Index_char_Cons split: option.splits)
  qed
qed

end
