(* ===== verification/Pagination.thy ===== *)
theory Pagination
  imports Go_Strings
begin

text \<open>
  Pagination: \<open>internal/services/types.go\<close> (\<open>NewPagination\<close>, \<open>HasMore\<close>, \<open>NextPage\<close>, \<open>DateRange\<close>),
  \<open>internal/server/pagination.go\<close> (query parameters, page numbers) and the two slicing idioms with
  which the store cuts a page out of a list.

  Go integers are 64 bits wide: the product \<open>(p-1)*limit\<close> and the sums \<open>offset+limit\<close> wrap.
\<close>

abbreviation DefaultMaxQueryResults :: int where "DefaultMaxQueryResults \<equiv> 50"
abbreviation MaxQueryResultsLimit :: int where "MaxQueryResultsLimit \<equiv> 1000"
abbreviation DefaultPageSize :: int where "DefaultPageSize \<equiv> 50"
abbreviation MaxPageSize :: int where "MaxPageSize \<equiv> 1000"

record Pagination =
  Limit :: int
  Offset :: int

definition NewPagination :: "int \<Rightarrow> int \<Rightarrow> Pagination" where
  "NewPagination limit offset =
     (let limit = (if limit \<le> 0 then DefaultMaxQueryResults else limit);
          limit = (if limit > MaxQueryResultsLimit then MaxQueryResultsLimit else limit);
          offset = (if offset < 0 then 0 else offset)
      in \<lparr>Limit = limit, Offset = offset\<rparr>)"

definition HasMore :: "Pagination \<Rightarrow> int \<Rightarrow> bool" where
  "HasMore p totalCount \<longleftrightarrow> wrap64 (Offset p + Limit p) < totalCount"

definition NextPage :: "Pagination \<Rightarrow> Pagination" where
  "NextPage p = \<lparr>Limit = Limit p, Offset = wrap64 (Offset p + Limit p)\<rparr>"

record DateRange =
  From :: time
  To :: time

definition DateRange_IsValid :: "DateRange \<Rightarrow> bool" where
  "DateRange_IsValid d \<longleftrightarrow> \<not> IsZero (From d) \<or> \<not> IsZero (To d)"

definition DateRange_Contains :: "DateRange \<Rightarrow> time \<Rightarrow> bool" where
  "DateRange_Contains d t =
     (if \<not> IsZero (From d) \<and> t < From d then False
      else if \<not> IsZero (To d) \<and> t > To d then False
      else True)"

text \<open>\<open>q.Get(name)\<close> of the parsed query string is the argument \<open>get\<close>; a missing parameter is the
  empty string.\<close>

definition parsePaginationWithDefaults :: "(string \<Rightarrow> string) \<Rightarrow> int \<Rightarrow> Pagination" where
  "parsePaginationWithDefaults get defaultLimit =
     (let limit = (if get ''limit'' \<noteq> ''''
                   then (case Atoi (get ''limit'') of Some l \<Rightarrow> if l > 0 then l else defaultLimit
                                                    | None \<Rightarrow> defaultLimit)
                   else defaultLimit);
          limit = (if limit > MaxPageSize then MaxPageSize else limit);
          offset = (if get ''offset'' \<noteq> ''''
                    then (case Atoi (get ''offset'') of Some n \<Rightarrow> if n \<ge> 0 then n else 0 | None \<Rightarrow> 0)
                    else if get ''page'' \<noteq> ''''
                    then (case Atoi (get ''page'') of
                            Some p \<Rightarrow> if p > 0 then wrap64 (wrap64 (p - 1) * limit) else 0
                          | None \<Rightarrow> 0)
                    else 0)
      in NewPagination limit offset)"

definition parsePagination :: "(string \<Rightarrow> string) \<Rightarrow> Pagination" where
  "parsePagination get = parsePaginationWithDefaults get DefaultPageSize"

text \<open>\<open>generatePageNumbers\<close>; \<open>maxVisible / 2\<close> is a truncating division. A negative \<open>total\<close> would
  make \<open>make([]int, total)\<close> panic, which is \<open>None\<close>.\<close>

definition generatePageNumbers :: "int \<Rightarrow> int \<Rightarrow> int \<Rightarrow> int list option" where
  "generatePageNumbers current tot maxVisible =
     (if tot \<le> maxVisible then (if tot < 0 then None else Some [1..tot])
      else
        (let half = go_div maxVisible 2;
             start = wrap64 (current - half);
             end' = wrap64 (current + half);
             (start, end') = (if start < 1 then (1, maxVisible) else (start, end'));
             (start, end') = (if end' > tot then (wrap64 (wrap64 (tot - maxVisible) + 1), tot) else (start, end'))
         in if wrap64 (wrap64 (end' - start) + 1) < 0 then None else Some [start..end']))"

record PaginationInfo =
  pi_Limit :: int
  pi_Offset :: int
  pi_TotalCount :: int
  pi_CurrentPage :: int
  pi_TotalPages :: int
  pi_HasPrev :: bool
  pi_HasNext :: bool
  pi_PrevOffset :: int
  pi_NextOffset :: int
  pi_PageNumbers :: "int list"

text \<open>\<open>None\<close> is the division by a zero limit, or the panic of \<open>generatePageNumbers\<close>.\<close>

definition NewPaginationInfo :: "Pagination \<Rightarrow> int \<Rightarrow> PaginationInfo option" where
  "NewPaginationInfo p totalCount =
     (if Limit p = 0 then None
      else
        (let currentPage = wrap64 (go_div (Offset p) (Limit p) + 1);
             totalPages = go_div (wrap64 (wrap64 (totalCount + Limit p) - 1)) (Limit p);
             totalPages = (if totalPages = 0 then 1 else totalPages)
         in case generatePageNumbers currentPage totalPages 5 of
              None \<Rightarrow> None
            | Some pages \<Rightarrow> Some
                \<lparr>pi_Limit = Limit p, pi_Offset = Offset p, pi_TotalCount = totalCount,
                 pi_CurrentPage = currentPage, pi_TotalPages = totalPages,
                 pi_HasPrev = (Offset p > 0), pi_HasNext = HasMore p totalCount,
                 pi_PrevOffset = max 0 (wrap64 (Offset p - Limit p)),
                 pi_NextOffset = wrap64 (Offset p + Limit p), pi_PageNumbers = pages\<rparr>))"

section \<open>Cutting a page out of a list\<close>

text \<open>The idiom of \<open>ListUsersPaginated\<close> and its siblings:
  \<open>if offset >= len(all) return []; end := offset+limit; if end > len(all) end = len(all);
  return all[offset:end]\<close>.\<close>

definition page_end :: "'a list \<Rightarrow> int \<Rightarrow> int \<Rightarrow> 'a list option" where
  "page_end all limit offset =
     (if offset \<ge> int (length all) then Some []
      else (let e = wrap64 (offset + limit);
                e = (if e > int (length all) then int (length all) else e)
            in go_slice all offset e))"

text \<open>The idiom of \<open>ListDeploymentsPaginated\<close>: \<open>all = all[offset:]\<close>, then
  \<open>if limit > 0 && limit < len(all) all = all[:limit]\<close>.\<close>

definition take_limit :: "int \<Rightarrow> 'a list \<Rightarrow> 'a list" where
  "take_limit limit xs = (if limit > 0 \<and> limit < int (length xs) then take (nat limit) xs else xs)"

definition page_limit :: "'a list \<Rightarrow> int \<Rightarrow> int \<Rightarrow> 'a list option" where
  "page_limit all limit offset =
     (if offset \<ge> int (length all) then Some []
      else map_option (take_limit limit) (go_slice all offset (int (length all))))"

section \<open>Properties\<close>

lemma NewPagination_bounds:
  "1 \<le> Limit (NewPagination l k) \<and> Limit (NewPagination l k) \<le> MaxQueryResultsLimit
    \<and> 0 \<le> Offset (NewPagination l k)"
  by (simp add: NewPagination_def Let_def)

lemma go_div_5_2: "go_div 5 2 = 2"
  by (simp add: go_div_def)

lemma generatePageNumbers_window:
  assumes "1 \<le> current" and "current < 2 ^ 62" and "1 \<le> tot" and "tot < 2 ^ 62"
  shows "\<exists>start. generatePageNumbers current tot 5 = Some [start..start + min 5 tot - 1]
     \<and> 1 \<le> start \<and> start + min 5 tot - 1 \<le> tot
     \<and> (current \<le> tot \<longrightarrow> start \<le> current \<and> current \<le> start + min 5 tot - 1)"
proof (cases "tot \<le> 5")
  case True
  with assms show ?thesis
    by (intro exI [of _ 1]) (simp add: generatePageNumbers_def)
next
  case False
  have w: "wrap64 (current - 2) = current - 2" "wrap64 (current + 2) = current + 2"
    "wrap64 (tot - 5) = tot - 5" "wrap64 (tot - 4) = tot - 4" "wrap64 4 = 4" "wrap64 5 = 5"
    using assms False
    by (auto intro!: wrap64_id simp: in_int64_def min_int64_def max_int64_def)
  consider (low) "current < 3" | (high) "3 \<le> current" "current + 2 > tot"
    | (mid) "3 \<le> current" "current + 2 \<le> tot" by linarith
  then show ?thesis
  proof cases
    case low
    with False assms w show ?thesis
      by (intro exI [of _ 1]) (simp add: generatePageNumbers_def go_div_5_2)
  next
    case high
    with False assms w show ?thesis
      by (intro exI [of _ "tot - 4"]) (simp add: generatePageNumbers_def go_div_5_2)
  next
    case mid
    with False assms w show ?thesis
      by (intro exI [of _ "current - 2"]) (simp add: generatePageNumbers_def go_div_5_2 add.commute)
  qed
qed

lemma NewPagination_id:
  "1 \<le> l \<Longrightarrow> l \<le> MaxQueryResultsLimit \<Longrightarrow> 0 \<le> k \<Longrightarrow> NewPagination l k = \<lparr>Limit = l, Offset = k\<rparr>"
  by (simp add: NewPagination_def)

text \<open>For lists that fit in memory (fewer than \<open>2^62\<close> elements) and an in-range limit, the first
  idiom is \<open>take\<close> after \<open>drop\<close>, without a panic.\<close>

lemma page_end_eq:
  assumes "0 \<le> offset" and "0 \<le> limit" and "limit < 2 ^ 62" and "int (length all) < 2 ^ 62"
  shows "page_end all limit offset = Some (take (nat limit) (drop (nat offset) all))"
proof (cases "offset \<ge> int (length all)")
  case True
  then show ?thesis by (simp add: page_end_def)
next
  case False
  have "in_int64 (offset + limit)"
    using False assms by (intro in_int64_small) auto
  then have w: "wrap64 (offset + limit) = offset + limit" by (rule wrap64_id)
  show ?thesis
  proof (cases "offset + limit > int (length all)")
    case True
    then have "length (drop (nat offset) all) \<le> nat limit"
      using assms(1) by auto
    with True False w assms show ?thesis
      by (auto simp: page_end_def go_slice_def)
  next
    case False2: False
    with False w assms show ?thesis
      by (auto simp: page_end_def go_slice_def nat_add_distrib)
  qed
qed

lemma page_limit_eq:
  assumes "0 \<le> offset"
  shows "page_limit all limit offset =
    Some (if limit > 0 then take (nat limit) (drop (nat offset) all) else drop (nat offset) all)"
proof (cases "offset \<ge> int (length all)")
  case True
  then show ?thesis by (simp add: page_limit_def)
next
  case False
  have "take_limit limit xs = (if limit > 0 then take (nat limit) xs else xs)" for xs :: "'a list"
    by (auto simp: take_limit_def)
  with False assms show ?thesis
    by (auto simp: page_limit_def go_slice_def)
qed

text \<open>Consecutive pages of the same size put together are the list they were cut from.\<close>

lemma concat_pages: "concat (map (\<lambda>k. take n (drop (k * n) xs)) [0..<m]) = take (m * n) xs"
  by (induction m) (simp_all add: take_add [symmetric] add.commute)

lemma concat_page_limit:
  assumes "limit > 0"
  shows "concat (map (\<lambda>k. the (page_limit xs limit (int k * limit))) [0..<m]) = take (m * nat limit) xs"
proof -
  have "the (page_limit xs limit (int k * limit)) = take (nat limit) (drop (k * nat limit) xs)" for k
    using assms page_limit_eq [of "int k * limit" xs limit] by (simp add: nat_mult_distrib)
  then show ?thesis by (simp add: concat_pages)
qed

end
