(* ===== verification/Mem_Users.thy ===== *)
theory Mem_Users
  imports Store_Model Ref_Table Dual_Index Pagination
begin

text \<open>
  \<open>internal/storage/memory_users.go\<close>: users, sessions and API keys of the in-memory store.

  An operation takes its arguments, the clock reading \<open>now\<close>, a fresh identifier \<open>xid\<close> where the code
  calls \<open>xid.New()\<close>, the enumeration order \<open>ks\<close> of a map it ranges over, and the store; it returns the
  Go result and the store after the call. Where the code writes through the caller's pointer (an
  identifier, the timestamps) the result carries the caller's object as it is after the call.
\<close>

section \<open>Users\<close>

definition CreateUser :: "User \<Rightarrow> time \<Rightarrow> string \<Rightarrow> MemoryStore \<Rightarrow> User result \<times> MemoryStore" where
  "CreateUser user now xid s =
     (if usersByName s (user_Username user) \<noteq> None then (Inl ErrDuplicate, s)
      else
        (let user = (if user_ID user = '''' then user\<lparr>user_ID := xid\<rparr> else user);
             user = user\<lparr>user_CreatedAt := now, user_UpdatedAt := now\<rparr>
         in (Inr user,
             s\<lparr>users := (users s)(user_ID user \<mapsto> user),
               usersByName := (usersByName s)(user_Username user \<mapsto> user),
               coreWrites := queueWrite (coreWrites s) (NewWriteOp WriteOpInsert ''users'' (UserPtr user) now)\<rparr>)))"

definition GetUserByUsername :: "string \<Rightarrow> MemoryStore \<Rightarrow> User result" where
  "GetUserByUsername username s =
     (case usersByName s username of None \<Rightarrow> Inl ErrNotFound | Some user \<Rightarrow> Inr user)"

definition GetUserByID :: "string \<Rightarrow> MemoryStore \<Rightarrow> User result" where
  "GetUserByID uid s = (case users s uid of None \<Rightarrow> Inl ErrNotFound | Some user \<Rightarrow> Inr user)"

definition ListUsers :: "string list \<Rightarrow> MemoryStore \<Rightarrow> User list" where
  "ListUsers ks s = range_values ks (users s)"

definition ListUsersPaginated :: "int \<Rightarrow> int \<Rightarrow> string list \<Rightarrow> MemoryStore \<Rightarrow> User list option" where
  "ListUsersPaginated limit offset ks s = page_end (range_values ks (users s)) limit offset"

definition CountUsers :: "MemoryStore \<Rightarrow> int" where
  "CountUsers s = int (card (dom (users s)))"

definition UpdateUserByID :: "User \<Rightarrow> time \<Rightarrow> MemoryStore \<Rightarrow> User result \<times> MemoryStore" where
  "UpdateUserByID user now s =
     (case users s (user_ID user) of
        None \<Rightarrow> (Inl ErrNotFound, s)
      | Some existing \<Rightarrow>
          if user_Username existing \<noteq> user_Username user \<and> usersByName s (user_Username user) \<noteq> None
          then (Inl ErrDuplicate, s)
          else
            (let byName = (if user_Username existing \<noteq> user_Username user
                           then (usersByName s)(user_Username existing := None) else usersByName s);
                 user = user\<lparr>user_UpdatedAt := now\<rparr>
             in (Inr user,
                 s\<lparr>users := (users s)(user_ID user \<mapsto> user),
                   usersByName := byName(user_Username user \<mapsto> user),
                   coreWrites := queueWrite (coreWrites s) (NewWriteOp WriteOpUpdate ''users'' (UserPtr user) now)\<rparr>)))"

definition DeleteUser :: "string \<Rightarrow> time \<Rightarrow> MemoryStore \<Rightarrow> unit result \<times> MemoryStore" where
  "DeleteUser uid now s =
     (case users s uid of
        None \<Rightarrow> (Inr (), s)
      | Some user \<Rightarrow>
          (Inr (),
           s\<lparr>users := (users s)(uid := None),
             usersByName := (usersByName s)(user_Username user := None),
             sessions := delete_where (\<lambda>_ session. session_UserID session = uid) (sessions s),
             apiKeysByUser := (apiKeysByUser s)(uid := None),
             apiKeys := delete_where (\<lambda>_ r. obj_sat (apiKeyObjs s) (\<lambda>key. apikey_UserID key = uid) r) (apiKeys s),
             coreWrites := queueWrite (coreWrites s)
               (NewWriteOp WriteOpDelete ''users'' (StringMapData [(''id'', uid)]) now)\<rparr>))"

section \<open>Sessions\<close>

definition CreateSession :: "Session \<Rightarrow> time \<Rightarrow> MemoryStore \<Rightarrow> Session result \<times> MemoryStore" where
  "CreateSession session now s =
     (if session_Token session = '''' then (Inl ErrValidation, s)
      else
        (let session = session\<lparr>session_ID := session_Token session, session_CreatedAt := now,
                               session_LastUsed := now\<rparr>
         in (Inr session,
             s\<lparr>sessions := (sessions s)(session_Token session \<mapsto> session),
               coreWrites := queueWrite (coreWrites s)
                 (NewWriteOp WriteOpInsert ''sessions'' (SessionPtr session) now)\<rparr>)))"

definition GetSessionByToken :: "string \<Rightarrow> time \<Rightarrow> MemoryStore \<Rightarrow> Session result" where
  "GetSessionByToken token now s =
     (case sessions s token of
        None \<Rightarrow> Inl ErrNotFound
      | Some session \<Rightarrow> if now > session_ExpiresAt session then Inl ErrNotFound else Inr session)"

definition DeleteSession :: "string \<Rightarrow> time \<Rightarrow> MemoryStore \<Rightarrow> unit result \<times> MemoryStore" where
  "DeleteSession token now s =
     (Inr (),
      s\<lparr>sessions := (sessions s)(token := None),
        coreWrites := queueWrite (coreWrites s)
          (NewWriteOp WriteOpDelete ''sessions'' (StringMapData [(''token'', token)]) now)\<rparr>)"

definition DeleteExpiredSessions ::
  "time \<Rightarrow> string list \<Rightarrow> MemoryStore \<Rightarrow> int result \<times> MemoryStore" where
  "DeleteExpiredSessions now ks s =
     (let deleted = int (length (filter (\<lambda>session. now > session_ExpiresAt session) (range_values ks (sessions s))))
      in (Inr deleted,
          s\<lparr>sessions := delete_where (\<lambda>_ session. now > session_ExpiresAt session) (sessions s),
            coreWrites := (if deleted > 0
              then queueWrite (coreWrites s)
                     (NewWriteOp WriteOpDelete ''sessions'' (TimeMapData [(''expired_before'', now)]) now)
              else coreWrites s)\<rparr>))"

definition DeleteUserSessions :: "string \<Rightarrow> time \<Rightarrow> MemoryStore \<Rightarrow> unit result \<times> MemoryStore" where
  "DeleteUserSessions userID now s =
     (Inr (),
      s\<lparr>sessions := delete_where (\<lambda>_ session. session_UserID session = userID) (sessions s),
        coreWrites := queueWrite (coreWrites s)
          (NewWriteOp WriteOpDelete ''sessions'' (StringMapData [(''user_id'', userID)]) now)\<rparr>)"

definition ListUserSessions :: "string \<Rightarrow> string list \<Rightarrow> MemoryStore \<Rightarrow> Session list" where
  "ListUserSessions userID ks s =
     filter (\<lambda>session. session_UserID session = userID) (range_values ks (sessions s))"

section \<open>API keys\<close>

text \<open>The hashes a \<open>range s.apiKeys\<close> loop visits, with the objects it sees.\<close>

definition api_key_range :: "string list \<Rightarrow> MemoryStore \<Rightarrow> (string \<times> ref \<times> APIKey) list" where
  "api_key_range ks s =
     List.map_filter (\<lambda>h. case apiKeys s h of None \<Rightarrow> None
        | Some r \<Rightarrow> map_option (\<lambda>key. (h, r, key)) (load (apiKeyObjs s) r)) ks"

definition api_key_expired :: "time \<Rightarrow> APIKey \<Rightarrow> bool" where
  "api_key_expired now key = (case apikey_ExpiresAt key of None \<Rightarrow> False | Some e \<Rightarrow> now > e)"

definition keys_of_user :: "string \<Rightarrow> MemoryStore \<Rightarrow> ref list" where
  "keys_of_user userID s = (case apiKeysByUser s userID of None \<Rightarrow> [] | Some rs \<Rightarrow> rs)"

definition CreateAPIKey :: "APIKey \<Rightarrow> time \<Rightarrow> string \<Rightarrow> MemoryStore \<Rightarrow> APIKey result \<times> MemoryStore" where
  "CreateAPIKey key now xid s =
     (if apikey_KeyHash key = '''' then (Inl ErrValidation, s)
      else if apiKeys s (apikey_KeyHash key) \<noteq> None then (Inl ErrDuplicate, s)
      else
        (let key = (if apikey_ID key = '''' then key\<lparr>apikey_ID := xid\<rparr> else key);
             key = key\<lparr>apikey_CreatedAt := now\<rparr>;
             (r, objs) = new_obj key (apiKeyObjs s)
         in (Inr key,
             s\<lparr>apiKeyObjs := objs,
               apiKeys := (apiKeys s)(apikey_KeyHash key \<mapsto> r),
               apiKeysByUser := (apiKeysByUser s)(apikey_UserID key \<mapsto> keys_of_user (apikey_UserID key) s @ [r]),
               coreWrites := queueWrite (coreWrites s)
                 (NewWriteOp WriteOpInsert ''api_keys'' (APIKeyPtr r) now)\<rparr>)))"

definition GetAPIKeyByID :: "string \<Rightarrow> time \<Rightarrow> string list \<Rightarrow> MemoryStore \<Rightarrow> APIKey result" where
  "GetAPIKeyByID keyID now ks s =
     (case find (\<lambda>(h, r, key). apikey_ID key = keyID) (api_key_range ks s) of
        None \<Rightarrow> Inl ErrNotFound
      | Some (h, r, key) \<Rightarrow> if api_key_expired now key then Inl ErrNotFound else Inr key)"

definition GetAPIKeyByHash :: "string \<Rightarrow> time \<Rightarrow> MemoryStore \<Rightarrow> APIKey result" where
  "GetAPIKeyByHash keyHash now s =
     (case Option.bind (apiKeys s keyHash) (load (apiKeyObjs s)) of
        None \<Rightarrow> Inl ErrNotFound
      | Some key \<Rightarrow> if api_key_expired now key then Inl ErrNotFound else Inr key)"

definition UpdateAPIKeyUsage ::
  "string \<Rightarrow> time \<Rightarrow> string list \<Rightarrow> MemoryStore \<Rightarrow> unit result \<times> MemoryStore" where
  "UpdateAPIKeyUsage keyID now ks s =
     (case find (\<lambda>(h, r, key). apikey_ID key = keyID) (api_key_range ks s) of
        None \<Rightarrow> (Inl ErrNotFound, s)
      | Some (h, r, key) \<Rightarrow>
          (Inr (),
           s\<lparr>apiKeyObjs := assign (apiKeyObjs s) r (key\<lparr>apikey_LastUsedAt := Some now\<rparr>),
             coreWrites := queueWrite (coreWrites s)
               (NewWriteOp WriteOpUpdate ''api_keys''
                 (AnyMapData [(''id'', AnyString keyID), (''last_used_at'', AnyTime now)]) now)\<rparr>))"

text \<open>\<open>append(userKeys[:i], userKeys[i+1:]...)\<close> at the first match, or the list unchanged.\<close>

fun remove_first :: "('a \<Rightarrow> bool) \<Rightarrow> 'a list \<Rightarrow> 'a list" where
  "remove_first P [] = []"
| "remove_first P (x # xs) = (if P x then xs else x # remove_first P xs)"

definition DeleteAPIKey ::
  "string \<Rightarrow> time \<Rightarrow> string list \<Rightarrow> MemoryStore \<Rightarrow> unit result \<times> MemoryStore" where
  "DeleteAPIKey keyID now ks s =
     (let (keyHash, userID) =
        (case find (\<lambda>(h, r, key). apikey_ID key = keyID) (api_key_range ks s) of
           None \<Rightarrow> ('''', '''') | Some (h, r, key) \<Rightarrow> (h, apikey_UserID key))
      in if keyHash = '''' then (Inr (), s)
         else
           (let matches = obj_sat (apiKeyObjs s) (\<lambda>key. apikey_ID key = keyID);
                userKeys = keys_of_user userID s
            in (Inr (),
                s\<lparr>apiKeys := (apiKeys s)(keyHash := None),
                  apiKeysByUser := (if list_ex matches userKeys
                    then (apiKeysByUser s)(userID \<mapsto> remove_first matches userKeys)
                    else apiKeysByUser s),
                  coreWrites := queueWrite (coreWrites s)
                    (NewWriteOp WriteOpDelete ''api_keys'' (StringMapData [(''id'', keyID)]) now)\<rparr>)))"

definition ListAPIKeys :: "string \<Rightarrow> MemoryStore \<Rightarrow> APIKey list" where
  "ListAPIKeys userID s = List.map_filter (load (apiKeyObjs s)) (keys_of_user userID s)"

section \<open>Invariants\<close>

definition users_wf :: "MemoryStore \<Rightarrow> bool" where
  "users_wf s \<longleftrightarrow> dual_indexed user_ID user_Username (users s) (usersByName s)"

definition sessions_wf :: "MemoryStore \<Rightarrow> bool" where
  "sessions_wf s \<longleftrightarrow>
     (\<forall>t session. sessions s t = Some session \<longrightarrow>
        session_Token session = t \<and> session_ID session = t \<and> t \<noteq> '''')"

text \<open>The two indexes of API keys describe the same keys: a key found under its hash is in its
  owner's list, a key in a list is found under its hash, and identifiers are unique.\<close>

definition key_indexed :: "MemoryStore \<Rightarrow> bool" where
  "key_indexed s \<longleftrightarrow>
     (\<forall>h r. apiKeys s h = Some r \<longrightarrow>
        h \<noteq> '''' \<and> (\<exists>key. load (apiKeyObjs s) r = Some key \<and> apikey_KeyHash key = h
                     \<and> r \<in> set (keys_of_user (apikey_UserID key) s)))"

definition key_listed :: "MemoryStore \<Rightarrow> bool" where
  "key_listed s \<longleftrightarrow>
     (\<forall>u. distinct (keys_of_user u s) \<and>
        (\<forall>r \<in> set (keys_of_user u s). \<exists>key. load (apiKeyObjs s) r = Some key
           \<and> apikey_UserID key = u \<and> apiKeys s (apikey_KeyHash key) = Some r))"

definition key_ids_unique :: "MemoryStore \<Rightarrow> bool" where
  "key_ids_unique s \<longleftrightarrow>
     (\<forall>h h' r r' key key'. apiKeys s h = Some r \<longrightarrow> apiKeys s h' = Some r' \<longrightarrow>
        load (apiKeyObjs s) r = Some key \<longrightarrow> load (apiKeyObjs s) r' = Some key' \<longrightarrow>
        apikey_ID key = apikey_ID key' \<longrightarrow> h = h')"

definition keys_wf :: "MemoryStore \<Rightarrow> bool" where
  "keys_wf s \<longleftrightarrow> key_indexed s \<and> key_listed s \<and> key_ids_unique s"

lemmas user_op_defs = CreateUser_def UpdateUserByID_def DeleteUser_def
lemmas session_op_defs =
  CreateSession_def DeleteSession_def DeleteExpiredSessions_def DeleteUserSessions_def
lemmas key_op_defs = CreateAPIKey_def UpdateAPIKeyUsage_def DeleteAPIKey_def

subsection \<open>User operations keep the two indexes coherent\<close>

text \<open>The identifier a call to \<open>CreateUser\<close> stores under.\<close>

definition create_user_id :: "User \<Rightarrow> string \<Rightarrow> string" where
  "create_user_id user xid = (if user_ID user = '''' then xid else user_ID user)"

lemma CreateUser_ok:
  assumes "usersByName s (user_Username user) = None"
  shows "\<exists>u. CreateUser user now xid s =
      (Inr u, s\<lparr>users := (users s)(user_ID u \<mapsto> u), usersByName := (usersByName s)(user_Username u \<mapsto> u),
                coreWrites := coreWrites s @ [NewWriteOp WriteOpInsert ''users'' (UserPtr u) now]\<rparr>)
    \<and> user_ID u = create_user_id user xid \<and> user_Username u = user_Username user
    \<and> user_CreatedAt u = now \<and> user_UpdatedAt u = now"
  using assms by (auto simp: CreateUser_def create_user_id_def queueWrite_def Let_def)

lemma CreateUser_users_wf [wf_intros]:
  assumes wf: "users_wf s" and fresh: "users s (create_user_id user xid) = None"
  shows "users_wf (snd (CreateUser user now xid s))"
proof (cases "usersByName s (user_Username user)")
  case None
  from CreateUser_ok [of s user now xid, OF None] obtain u where
    c: "CreateUser user now xid s =
      (Inr u, s\<lparr>users := (users s)(user_ID u \<mapsto> u), usersByName := (usersByName s)(user_Username u \<mapsto> u),
                coreWrites := coreWrites s @ [NewWriteOp WriteOpInsert ''users'' (UserPtr u) now]\<rparr>)"
    and u: "user_ID u = create_user_id user xid" "user_Username u = user_Username user"
    by blast
  show ?thesis
    using dual_indexed_insert [of user_ID user_Username "users s" "usersByName s" u] wf fresh None
    by (simp add: c u users_wf_def)
next
  case (Some v)
  with wf show ?thesis by (simp add: CreateUser_def)
qed

lemma UpdateUserByID_users_wf [wf_intros]:
  assumes wf: "users_wf s"
  shows "users_wf (snd (UpdateUserByID user now s))"
proof (cases "users s (user_ID user)")
  case None
  with wf show ?thesis by (simp add: UpdateUserByID_def)
next
  case (Some old)
  let ?u = "user\<lparr>user_UpdatedAt := now\<rparr>"
  let ?m = "(users s)(user_ID ?u \<mapsto> ?u)"
  show ?thesis
  proof (cases "user_Username old \<noteq> user_Username user \<and> usersByName s (user_Username user) \<noteq> None")
    case True
    with Some wf show ?thesis by (simp add: UpdateUserByID_def)
  next
    case False
    then have "dual_indexed user_ID user_Username ?m
        ((usersByName s)(user_Username old := None, user_Username ?u \<mapsto> ?u))"
      using wf Some unfolding users_wf_def by (intro dual_indexed_replace) auto
    moreover have "user_Username old = user_Username user \<Longrightarrow>
        (usersByName s)(user_Username old := None, user_Username ?u \<mapsto> ?u)
          = (usersByName s)(user_Username ?u \<mapsto> ?u)"
      by simp
    ultimately show ?thesis
      using Some False by (auto simp: UpdateUserByID_def users_wf_def Let_def)
  qed
qed

lemma DeleteUser_users_wf [wf_intros]:
  assumes wf: "users_wf s"
  shows "users_wf (snd (DeleteUser uid now s))"
  using dual_indexed_delete [of user_ID user_Username "users s" "usersByName s" uid] wf
  by (auto simp: users_wf_def DeleteUser_def split: option.splits)

text \<open>Session and API-key operations leave the user tables alone.\<close>

lemma users_wf_frame:
  "users s' = users s \<Longrightarrow> usersByName s' = usersByName s \<Longrightarrow> users_wf s' = users_wf s"
  by (simp add: users_wf_def)

lemma session_ops_frame:
  "users (snd (CreateSession ses now s)) = users s \<and> usersByName (snd (CreateSession ses now s)) = usersByName s"
  "users (snd (DeleteSession tok now s)) = users s \<and> usersByName (snd (DeleteSession tok now s)) = usersByName s"
  "users (snd (DeleteExpiredSessions now ks s)) = users s
     \<and> usersByName (snd (DeleteExpiredSessions now ks s)) = usersByName s"
  "users (snd (DeleteUserSessions uid now s)) = users s
     \<and> usersByName (snd (DeleteUserSessions uid now s)) = usersByName s"
  by (simp_all add: session_op_defs Let_def)

lemma key_ops_frame:
  "users (snd (CreateAPIKey k now xid s)) = users s \<and> usersByName (snd (CreateAPIKey k now xid s)) = usersByName s"
  "users (snd (UpdateAPIKeyUsage kid now ks s)) = users s
     \<and> usersByName (snd (UpdateAPIKeyUsage kid now ks s)) = usersByName s"
  "users (snd (DeleteAPIKey kid now ks s)) = users s \<and> usersByName (snd (DeleteAPIKey kid now ks s)) = usersByName s"
  by (simp_all add: key_op_defs new_obj_def Let_def split: option.splits prod.splits)

interpretation user_directory: named_directory users_wf users usersByName user_ID user_Username
  by unfold_locales (auto simp: users_wf_def dest: dual_indexedD1 dual_indexedD2)

subsection \<open>API-key operations keep the key indexes coherent\<close>

lemma api_key_range_mem:
  "(h, r, key) \<in> set (api_key_range ks s) \<longleftrightarrow>
     h \<in> set ks \<and> apiKeys s h = Some r \<and> load (apiKeyObjs s) r = Some key"
  by (induction ks) (auto simp: api_key_range_def map_filter_simps split: option.splits)

lemma find_SomeD: "find P xs = Some x \<Longrightarrow> x \<in> set xs \<and> P x"
  by (auto simp: find_Some_iff)

lemma find_key_Some:
  assumes "find (\<lambda>(h, r, key). apikey_ID key = kid) (api_key_range ks s) = Some (h, r, key)"
  shows "apiKeys s h = Some r" and "load (apiKeyObjs s) r = Some key" and "apikey_ID key = kid"
  using find_SomeD [OF assms] by (simp_all add: api_key_range_mem)

text \<open>With unique identifiers the loop finds the key whatever the order of the map.\<close>

lemma find_key_unique:
  assumes u: "key_ids_unique s" and e: "enumerates ks (apiKeys s)"
    and h: "apiKeys s h = Some r" and r: "load (apiKeyObjs s) r = Some key"
  shows "find (\<lambda>(h, r, k). apikey_ID k = apikey_ID key) (api_key_range ks s) = Some (h, r, key)"
proof -
  have mem: "(h, r, key) \<in> set (api_key_range ks s)"
    using e h r by (auto simp: api_key_range_mem enumerates_def)
  then obtain x where x: "find (\<lambda>(h, r, k). apikey_ID k = apikey_ID key) (api_key_range ks s) = Some x"
    by (cases "find (\<lambda>(h, r, k). apikey_ID k = apikey_ID key) (api_key_range ks s)")
      (auto simp: find_None_iff)
  obtain h' r' key' where x': "x = (h', r', key')" by (cases x) auto
  note f = find_key_Some [OF x [unfolded x']]
  have "h = h'" using u h f r unfolding key_ids_unique_def by metis
  with h r f x x' show ?thesis by simp
qed

lemma keys_of_user_upd [simp]:
  "keys_of_user u (s\<lparr>apiKeysByUser := f\<rparr>) = (case f u of None \<Rightarrow> [] | Some rs \<Rightarrow> rs)"
  by (simp add: keys_of_user_def)

lemma keys_of_user_frame [simp]:
  "keys_of_user u (s\<lparr>apiKeyObjs := x\<rparr>) = keys_of_user u s"
  "keys_of_user u (s\<lparr>apiKeys := y\<rparr>) = keys_of_user u s"
  "keys_of_user u (s\<lparr>coreWrites := z\<rparr>) = keys_of_user u s"
  by (simp_all add: keys_of_user_def)

lemma key_indexedD:
  assumes "key_indexed s" and "apiKeys s h = Some r"
  obtains key where "h \<noteq> ''''" and "load (apiKeyObjs s) r = Some key" and "apikey_KeyHash key = h"
    and "r \<in> set (keys_of_user (apikey_UserID key) s)"
  using assms unfolding key_indexed_def by blast

lemma key_listedD:
  assumes "key_listed s" and "r \<in> set (keys_of_user u s)"
  obtains key where "load (apiKeyObjs s) r = Some key" and "apikey_UserID key = u"
    and "apiKeys s (apikey_KeyHash key) = Some r"
  using assms unfolding key_listed_def by blast

text \<open>\<open>CreateAPIKey\<close> stores one new object, reachable through both indexes.\<close>

definition create_key_id :: "APIKey \<Rightarrow> string \<Rightarrow> string" where
  "create_key_id key xid = (if apikey_ID key = '''' then xid else apikey_ID key)"

definition key_id_free :: "string \<Rightarrow> MemoryStore \<Rightarrow> bool" where
  "key_id_free kid s \<longleftrightarrow>
     (\<forall>h r key. apiKeys s h = Some r \<longrightarrow> load (apiKeyObjs s) r = Some key \<longrightarrow> apikey_ID key \<noteq> kid)"

lemma CreateAPIKey_ok:
  assumes "apikey_KeyHash key \<noteq> ''''" and "apiKeys s (apikey_KeyHash key) = None"
  shows "\<exists>k. CreateAPIKey key now xid s =
      (Inr k, s\<lparr>apiKeyObjs := apiKeyObjs s @ [k],
                apiKeys := (apiKeys s)(apikey_KeyHash k \<mapsto> length (apiKeyObjs s)),
                apiKeysByUser := (apiKeysByUser s)(apikey_UserID k \<mapsto>
                   keys_of_user (apikey_UserID k) s @ [length (apiKeyObjs s)]),
                coreWrites := coreWrites s
                   @ [NewWriteOp WriteOpInsert ''api_keys'' (APIKeyPtr (length (apiKeyObjs s))) now]\<rparr>)
    \<and> apikey_ID k = create_key_id key xid \<and> apikey_KeyHash k = apikey_KeyHash key
    \<and> apikey_UserID k = apikey_UserID key"
  using assms by (auto simp: CreateAPIKey_def create_key_id_def queueWrite_def new_obj_def Let_def)

lemma CreateAPIKey_keys_wf [wf_intros]:
  assumes wf: "keys_wf s" and fresh: "key_id_free (create_key_id key xid) s"
  shows "keys_wf (snd (CreateAPIKey key now xid s))"
proof (cases "apikey_KeyHash key = '''' \<or> apiKeys s (apikey_KeyHash key) \<noteq> None")
  case True
  with wf show ?thesis by (auto simp: CreateAPIKey_def)
next
  case False
  with CreateAPIKey_ok [of key s now xid] obtain k where
    c: "CreateAPIKey key now xid s =
      (Inr k, s\<lparr>apiKeyObjs := apiKeyObjs s @ [k],
                apiKeys := (apiKeys s)(apikey_KeyHash k \<mapsto> length (apiKeyObjs s)),
                apiKeysByUser := (apiKeysByUser s)(apikey_UserID k \<mapsto>
                   keys_of_user (apikey_UserID k) s @ [length (apiKeyObjs s)]),
                coreWrites := coreWrites s
                   @ [NewWriteOp WriteOpInsert ''api_keys'' (APIKeyPtr (length (apiKeyObjs s))) now]\<rparr>)"
    and k: "apikey_ID k = create_key_id key xid" "apikey_KeyHash k = apikey_KeyHash key"
    by auto
  let ?s = "snd (CreateAPIKey key now xid s)"
  have old: "load (apiKeyObjs s) r \<noteq> None \<Longrightarrow> r \<noteq> length (apiKeyObjs s)" for r
    by (auto simp: load_def)
  have ku: "keys_of_user u ?s = keys_of_user u s @ (if u = apikey_UserID k then [length (apiKeyObjs s)] else [])" for u
    by (simp add: c keys_of_user_def)
  have "key_indexed ?s"
    unfolding key_indexed_def ku using wf False k
    by (auto simp: keys_wf_def c load_append elim!: key_indexedD split: if_splits) (use old in force)+
  moreover have "key_listed ?s"
    unfolding key_listed_def ku
  proof (intro allI conjI ballI)
    fix u
    have "r \<in> set (keys_of_user u s) \<Longrightarrow> r \<noteq> length (apiKeyObjs s)" for r
      using wf old by (auto simp: keys_wf_def elim!: key_listedD)
    then show "distinct (keys_of_user u s @ (if u = apikey_UserID k then [length (apiKeyObjs s)] else []))"
      using wf by (auto simp: keys_wf_def key_listed_def)
    fix r assume "r \<in> set (keys_of_user u s @ (if u = apikey_UserID k then [length (apiKeyObjs s)] else []))"
    then show "\<exists>key. load (apiKeyObjs ?s) r = Some key \<and> apikey_UserID key = u
        \<and> apiKeys ?s (apikey_KeyHash key) = Some r"
    proof (cases "r \<in> set (keys_of_user u s)")
      case True
      with wf obtain ky where "load (apiKeyObjs s) r = Some ky" "apikey_UserID ky = u"
        "apiKeys s (apikey_KeyHash ky) = Some r"
        by (auto simp: keys_wf_def elim: key_listedD)
      with False k old show ?thesis by (intro exI [of _ ky]) (auto simp: c load_append)
    next
      case new: False
      then have "r = length (apiKeyObjs s)" "u = apikey_UserID k"
        using \<open>r \<in> _\<close> by (auto split: if_splits)
      then show ?thesis by (simp add: c load_append)
    qed
  qed
  moreover have "key_ids_unique ?s"
  proof -
    have cl: "apiKeys s h = Some r \<Longrightarrow> r \<noteq> length (apiKeyObjs s)" for h r
      using wf old by (auto simp: keys_wf_def elim!: key_indexedD)
    show ?thesis
      using wf fresh k(1) cl unfolding key_ids_unique_def keys_wf_def key_id_free_def
      by (auto simp: c load_append split: if_splits) blast
  qed
  ultimately show ?thesis by (simp add: keys_wf_def)
qed

text \<open>An update in place is seen through both indexes and changes no key field they use.\<close>

lemma UpdateAPIKeyUsage_keys_wf [wf_intros]:
  assumes wf: "keys_wf s"
  shows "keys_wf (snd (UpdateAPIKeyUsage kid now ks s))"
proof (cases "find (\<lambda>(h, r, key). apikey_ID key = kid) (api_key_range ks s)")
  case None
  with wf show ?thesis by (simp add: UpdateAPIKeyUsage_def)
next
  case (Some x)
  obtain h r key where x: "x = (h, r, key)" by (cases x) auto
  note f = find_key_Some [OF Some [unfolded x]]
  let ?s = "snd (UpdateAPIKeyUsage kid now ks s)"
  have st: "apiKeys ?s = apiKeys s" "apiKeyObjs ?s = assign (apiKeyObjs s) r (key\<lparr>apikey_LastUsedAt := Some now\<rparr>)"
    and ku: "keys_of_user u ?s = keys_of_user u s" for u
    using Some x by (simp_all add: UpdateAPIKeyUsage_def keys_of_user_def)
  have ld: "load (apiKeyObjs ?s) r' = (if r' = r then Some (key\<lparr>apikey_LastUsedAt := Some now\<rparr>)
      else load (apiKeyObjs s) r')" for r'
    using f(2) by (simp add: st load_assign)
  have "key_indexed ?s" "key_listed ?s"
    using wf f unfolding key_indexed_def key_listed_def keys_wf_def ku st(1) ld by force+
  moreover have "key_ids_unique ?s"
    using wf f unfolding key_ids_unique_def keys_wf_def st(1) ld
    by (auto split: if_splits)
  ultimately show ?thesis by (simp add: keys_wf_def)
qed

lemma set_remove_first:
  assumes "distinct xs" and "\<And>y. y \<in> set xs \<Longrightarrow> P y \<longleftrightarrow> y = x"
  shows "set (remove_first P xs) = set xs - {x}" and "distinct (remove_first P xs)"
  using assms by (induction xs) auto

lemma remove_first_none: "\<not> list_ex P xs \<Longrightarrow> remove_first P xs = xs"
  by (induction xs) auto

lemma DeleteAPIKey_keys_wf [wf_intros]:
  assumes wf: "keys_wf s"
  shows "keys_wf (snd (DeleteAPIKey kid now ks s))"
proof (cases "find (\<lambda>(h, r, key). apikey_ID key = kid) (api_key_range ks s)")
  case None
  with wf show ?thesis by (simp add: DeleteAPIKey_def)
next
  case (Some x)
  obtain h r key where x: "x = (h, r, key)" by (cases x) auto
  note f = find_key_Some [OF Some [unfolded x]]
  have h: "h \<noteq> ''''" "apikey_KeyHash key = h" "r \<in> set (keys_of_user (apikey_UserID key) s)"
    using wf f by (auto simp: keys_wf_def elim!: key_indexedD)
  let ?s = "snd (DeleteAPIKey kid now ks s)"
  let ?P = "obj_sat (apiKeyObjs s) (\<lambda>key. apikey_ID key = kid)"
  have P: "?P q \<longleftrightarrow> q = r" if q: "q \<in> set (keys_of_user u s)" for q u
  proof
    assume "?P q"
    from wf q obtain ky where ky: "load (apiKeyObjs s) q = Some ky" "apiKeys s (apikey_KeyHash ky) = Some q"
      by (auto simp: keys_wf_def elim: key_listedD)
    then have "apikey_KeyHash ky = h"
      using \<open>?P q\<close> wf f unfolding keys_wf_def key_ids_unique_def by (auto simp: obj_sat_def)
    with ky f(1) show "q = r" by simp
  next
    assume "q = r"
    with f show "?P q" by (simp add: obj_sat_def)
  qed
  have st: "apiKeys ?s = (apiKeys s)(h := None)" "apiKeyObjs ?s = apiKeyObjs s"
    using Some x h(1) by (simp_all add: DeleteAPIKey_def Let_def)
  have ku: "keys_of_user u ?s = (if u = apikey_UserID key then remove_first ?P (keys_of_user u s) else keys_of_user u s)" for u
    using Some x h(1) by (auto simp: DeleteAPIKey_def Let_def keys_of_user_def remove_first_none)
  have d: "distinct (keys_of_user u s)" for u using wf by (simp add: keys_wf_def key_listed_def)
  have ks: "set (keys_of_user u ?s) = set (keys_of_user u s) - (if u = apikey_UserID key then {r} else {})"
    and dk: "distinct (keys_of_user u ?s)" for u
    using set_remove_first [of "keys_of_user u s" ?P r] d P unfolding ku by auto
  have "key_indexed ?s"
    unfolding key_indexed_def ks st
  proof (intro allI impI)
    fix h' r' assume a: "((apiKeys s)(h := None)) h' = Some r'"
    then have hr: "h' \<noteq> h" "apiKeys s h' = Some r'" by (auto split: if_splits)
    with wf obtain ky where "h' \<noteq> []" "load (apiKeyObjs s) r' = Some ky" "apikey_KeyHash ky = h'"
      "r' \<in> set (keys_of_user (apikey_UserID ky) s)"
      by (auto simp: keys_wf_def elim: key_indexedD)
    moreover from this hr f h have "r' \<noteq> r" by auto
    ultimately show "h' \<noteq> [] \<and> (\<exists>key'. load (apiKeyObjs s) r' = Some key' \<and> apikey_KeyHash key' = h' \<and>
        r' \<in> set (keys_of_user (apikey_UserID key') s) - (if apikey_UserID key' = apikey_UserID key then {r} else {}))"
      by (intro conjI exI [of _ ky]) auto
  qed
  moreover have "key_listed ?s"
    unfolding key_listed_def ks st
  proof (intro allI conjI ballI)
    fix u
    show "distinct (keys_of_user u ?s)" by (rule dk)
    fix r' assume a: "r' \<in> set (keys_of_user u s) - (if u = apikey_UserID key then {r} else {})"
    with wf obtain ky where ky: "load (apiKeyObjs s) r' = Some ky" "apikey_UserID ky = u"
      "apiKeys s (apikey_KeyHash ky) = Some r'"
      by (auto simp: keys_wf_def elim: key_listedD)
    with a f h have "apikey_KeyHash ky \<noteq> h" by (auto split: if_splits)
    with ky show "\<exists>key. load (apiKeyObjs s) r' = Some key \<and> apikey_UserID key = u
        \<and> ((apiKeys s)(h := None)) (apikey_KeyHash key) = Some r'"
      by auto
  qed
  moreover have "key_ids_unique ?s"
    using wf unfolding key_ids_unique_def keys_wf_def st by (auto split: if_splits)
  ultimately show ?thesis by (simp add: keys_wf_def)
qed

lemma DeleteUser_keys_wf [wf_intros]:
  assumes wf: "keys_wf s"
  shows "keys_wf (snd (DeleteUser uid now s))"
proof (cases "users s uid")
  case None
  with wf show ?thesis by (simp add: DeleteUser_def)
next
  case (Some user)
  let ?s = "snd (DeleteUser uid now s)"
  have st: "apiKeys ?s = delete_where (\<lambda>_ r. obj_sat (apiKeyObjs s) (\<lambda>key. apikey_UserID key = uid) r) (apiKeys s)"
    "apiKeyObjs ?s = apiKeyObjs s"
    and ku: "keys_of_user u ?s = (if u = uid then [] else keys_of_user u s)" for u
    using Some by (auto simp: DeleteUser_def keys_of_user_def)
  have kept: "apiKeys ?s h = Some r \<longleftrightarrow> apiKeys s h = Some r \<and>
      \<not> obj_sat (apiKeyObjs s) (\<lambda>key. apikey_UserID key = uid) r" for h r
    by (simp add: st delete_where_Some_iff)
  have "key_indexed ?s"
    unfolding key_indexed_def ku kept st(2)
  proof (intro allI impI)
    fix h r assume a: "apiKeys s h = Some r \<and> \<not> obj_sat (apiKeyObjs s) (\<lambda>key. apikey_UserID key = uid) r"
    with wf obtain ky where "h \<noteq> []" "load (apiKeyObjs s) r = Some ky" "apikey_KeyHash ky = h"
      "r \<in> set (keys_of_user (apikey_UserID ky) s)"
      by (auto simp: keys_wf_def elim: key_indexedD)
    with a show "h \<noteq> [] \<and> (\<exists>key. load (apiKeyObjs s) r = Some key \<and> apikey_KeyHash key = h \<and>
        r \<in> set (if apikey_UserID key = uid then [] else keys_of_user (apikey_UserID key) s))"
      by (auto simp: obj_sat_def)
  qed
  moreover have "key_listed ?s"
    unfolding key_listed_def ku kept st(2)
  proof (intro allI conjI ballI)
    fix u
    show "distinct (if u = uid then [] else keys_of_user u s)"
      using wf by (simp add: keys_wf_def key_listed_def)
    fix r assume a: "r \<in> set (if u = uid then [] else keys_of_user u s)"
    with wf obtain ky where "load (apiKeyObjs s) r = Some ky" "apikey_UserID ky = u"
      "apiKeys s (apikey_KeyHash ky) = Some r"
      by (auto simp: keys_wf_def elim: key_listedD split: if_splits)
    with a show "\<exists>key. load (apiKeyObjs s) r = Some key \<and> apikey_UserID key = u
        \<and> apiKeys s (apikey_KeyHash key) = Some r \<and> \<not> obj_sat (apiKeyObjs s) (\<lambda>key. apikey_UserID key = uid) r"
      by (auto simp: obj_sat_def split: if_splits)
  qed
  moreover have "key_ids_unique ?s"
    using wf unfolding key_ids_unique_def keys_wf_def kept st(2) by blast
  ultimately show ?thesis by (simp add: keys_wf_def)
qed

lemma keys_wf_frame:
  assumes "keys_wf s"
    and "apiKeys s' = apiKeys s" and "apiKeysByUser s' = apiKeysByUser s" and "apiKeyObjs s' = apiKeyObjs s"
  shows "keys_wf s'"
  using assms
  by (simp add: keys_wf_def key_indexed_def key_listed_def key_ids_unique_def keys_of_user_def)

lemma non_key_ops_keys_wf [wf_intros]:
  "keys_wf s \<Longrightarrow> keys_wf (snd (CreateUser u now xid s))"
  "keys_wf s \<Longrightarrow> keys_wf (snd (UpdateUserByID u now s))"
  "keys_wf s \<Longrightarrow> keys_wf (snd (CreateSession ses now s))"
  "keys_wf s \<Longrightarrow> keys_wf (snd (DeleteSession tok now s))"
  "keys_wf s \<Longrightarrow> keys_wf (snd (DeleteExpiredSessions now ks s))"
  "keys_wf s \<Longrightarrow> keys_wf (snd (DeleteUserSessions uid now s))"
  by (erule keys_wf_frame; simp add: CreateUser_def UpdateUserByID_def session_op_defs Let_def split: option.splits)+

section \<open>Reachable states\<close>

text \<open>One call of an operation that changes the tables of this file. A created record's identifier
  is new: it is either generated or, when the caller supplies it, unused.\<close>

inductive account_step :: "MemoryStore \<Rightarrow> MemoryStore \<Rightarrow> bool" where
  create_user: "users s (create_user_id u xid) = None \<Longrightarrow> account_step s (snd (CreateUser u now xid s))"
| update_user: "account_step s (snd (UpdateUserByID u now s))"
| delete_user: "account_step s (snd (DeleteUser uid now s))"
| create_session: "account_step s (snd (CreateSession ses now s))"
| delete_session: "account_step s (snd (DeleteSession tok now s))"
| delete_expired: "account_step s (snd (DeleteExpiredSessions now ks s))"
| delete_user_sessions: "account_step s (snd (DeleteUserSessions uid now s))"
| create_key: "key_id_free (create_key_id k xid) s \<Longrightarrow> account_step s (snd (CreateAPIKey k now xid s))"
| use_key: "account_step s (snd (UpdateAPIKeyUsage kid now ks s))"
| delete_key: "account_step s (snd (DeleteAPIKey kid now ks s))"

definition accounts_wf :: "MemoryStore \<Rightarrow> bool" where
  "accounts_wf s \<longleftrightarrow> users_wf s \<and> sessions_wf s \<and> keys_wf s"

lemma accounts_wf_new: "accounts_wf NewMemoryStore"
  by (simp add: accounts_wf_def users_wf_def sessions_wf_def keys_wf_def key_indexed_def key_listed_def
      key_ids_unique_def keys_of_user_def NewMemoryStore_def)

lemma sessions_wf_ops [wf_intros]:
  "sessions_wf s \<Longrightarrow> sessions_wf (snd (CreateUser u now xid s))"
  "sessions_wf s \<Longrightarrow> sessions_wf (snd (UpdateUserByID u now s))"
  "sessions_wf s \<Longrightarrow> sessions_wf (snd (DeleteUser uid now s))"
  "sessions_wf s \<Longrightarrow> sessions_wf (snd (CreateSession ses now s))"
  "sessions_wf s \<Longrightarrow> sessions_wf (snd (DeleteSession tok now s))"
  "sessions_wf s \<Longrightarrow> sessions_wf (snd (DeleteExpiredSessions now ks s))"
  "sessions_wf s \<Longrightarrow> sessions_wf (snd (DeleteUserSessions uid now s))"
  "sessions_wf s \<Longrightarrow> sessions_wf (snd (CreateAPIKey k now xid s))"
  "sessions_wf s \<Longrightarrow> sessions_wf (snd (UpdateAPIKeyUsage kid now ks s))"
  "sessions_wf s \<Longrightarrow> sessions_wf (snd (DeleteAPIKey kid now ks s))"
  by (auto simp: sessions_wf_def user_op_defs session_op_defs key_op_defs new_obj_def Let_def
      delete_where_Some_iff split: option.splits prod.splits)

lemma users_wf_session_key_ops [wf_intros]:
  "users_wf s \<Longrightarrow> users_wf (snd (CreateSession ses now s))"
  "users_wf s \<Longrightarrow> users_wf (snd (DeleteSession tok now s))"
  "users_wf s \<Longrightarrow> users_wf (snd (DeleteExpiredSessions now ks s))"
  "users_wf s \<Longrightarrow> users_wf (snd (DeleteUserSessions uid now s))"
  "users_wf s \<Longrightarrow> users_wf (snd (CreateAPIKey k now xid s))"
  "users_wf s \<Longrightarrow> users_wf (snd (UpdateAPIKeyUsage kid now ks s))"
  "users_wf s \<Longrightarrow> users_wf (snd (DeleteAPIKey kid now ks s))"
  using session_ops_frame key_ops_frame by (simp_all add: users_wf_def)

lemma account_step_wf: "account_step s t \<Longrightarrow> accounts_wf s \<Longrightarrow> accounts_wf t"
  by (induction rule: account_step.induct) (auto simp: accounts_wf_def intro: wf_intros)

section \<open>Properties\<close>

text \<open>C37: in every store reached from the empty one by user, session and API-key operations, the
  indexes agree: users are found under exactly their own identifier and name, sessions under their
  token, and an API key is in its owner's list exactly when it is found under its hash.\<close>

theorem accounts_reachable_wf:
  assumes "account_step\<^sup>*\<^sup>* NewMemoryStore s"
  shows "accounts_wf s"
  using assms
proof (induction rule: rtranclp_induct)
  case base
  show ?case by (rule accounts_wf_new)
next
  case (step s t)
  then show ?case by (blast intro: account_step_wf)
qed

definition sample_user :: User where
  "sample_user = \<lparr>user_ID = '''', user_Username = ''alice'', user_PasswordHash = ''h'', user_Email = '''',
     user_Role = ''admin'', user_TOTPSecret = '''', user_TOTPEnabled = False,
     user_MustChangePassword = False, user_CreatedAt = 0, user_UpdatedAt = 0\<rparr>"

definition sample_key :: APIKey where
  "sample_key = \<lparr>apikey_ID = '''', apikey_UserID = ''u1'', apikey_Name = ''ci'', apikey_KeyHash = ''h1'',
     apikey_KeyPrefix = '''', apikey_Scopes = '''', apikey_ExpiresAt = None, apikey_LastUsedAt = None,
     apikey_CreatedAt = 0\<rparr>"

definition sample_accounts :: MemoryStore where
  "sample_accounts =
     snd (CreateAPIKey sample_key 6 ''k1'' (snd (CreateUser sample_user 5 ''u1'' NewMemoryStore)))"

lemma sample_accounts_reachable: "account_step\<^sup>*\<^sup>* NewMemoryStore sample_accounts"
proof -
  have "account_step NewMemoryStore (snd (CreateUser sample_user 5 ''u1'' NewMemoryStore))"
    by (rule account_step.create_user) (simp add: NewMemoryStore_def)
  moreover have "account_step (snd (CreateUser sample_user 5 ''u1'' NewMemoryStore)) sample_accounts"
    unfolding sample_accounts_def
    by (rule account_step.create_key) (simp add: key_id_free_def CreateUser_def NewMemoryStore_def Let_def)
  ultimately show ?thesis by (meson rtranclp.simps)
qed

lemma sample_accounts_eval:
  "users sample_accounts ''u1'' = Some (sample_user\<lparr>user_ID := ''u1'', user_CreatedAt := 5, user_UpdatedAt := 5\<rparr>)"
  "apiKeys sample_accounts = [''h1'' \<mapsto> 0]"
  "apiKeyObjs sample_accounts = [sample_key\<lparr>apikey_ID := ''k1'', apikey_CreatedAt := 6\<rparr>]"
  "keys_of_user ''u1'' sample_accounts = [0]"
  "usersByName sample_accounts =
     [''alice'' \<mapsto> sample_user\<lparr>user_ID := ''u1'', user_CreatedAt := 5, user_UpdatedAt := 5\<rparr>]"
  by (simp_all add: sample_accounts_def sample_user_def sample_key_def CreateUser_def CreateAPIKey_def
      NewMemoryStore_def new_obj_def keys_of_user_def Let_def)

theorem accounts_reachable_wf_witness:
  "accounts_wf sample_accounts \<and> users sample_accounts ''u1'' \<noteq> None"
  using accounts_reachable_wf [OF sample_accounts_reachable] sample_accounts_eval(1) by simp

text \<open>Creating a user fails with the duplicate error and no effect exactly when the name is taken;
  otherwise the user is found by its name and by its identifier, with the creation time set, and no
  other name resolves differently.\<close>

theorem CreateUser_spec:
  "case CreateUser user now xid s of
     (Inl e, s') \<Rightarrow> e = ErrDuplicate \<and> s' = s \<and> usersByName s (user_Username user) \<noteq> None
   | (Inr u, s') \<Rightarrow> usersByName s (user_Username user) = None
       \<and> user_ID u = create_user_id user xid \<and> user_CreatedAt u = now
       \<and> GetUserByUsername (user_Username user) s' = Inr u \<and> GetUserByID (user_ID u) s' = Inr u
       \<and> (\<forall>n. n \<noteq> user_Username user \<longrightarrow> GetUserByUsername n s' = GetUserByUsername n s)"
proof (cases "usersByName s (user_Username user)")
  case None
  with CreateUser_ok [of s user now xid, OF None] show ?thesis
    by (auto simp: GetUserByUsername_def GetUserByID_def)
next
  case (Some u)
  then show ?thesis by (simp add: CreateUser_def)
qed

theorem CreateUser_spec_witness:
  "CreateUser sample_user 9 ''u2'' sample_accounts = (Inl ErrDuplicate, sample_accounts)
   \<and> GetUserByUsername ''bob'' (snd (CreateUser sample_user 5 ''u1'' NewMemoryStore))
       = GetUserByUsername ''bob'' NewMemoryStore"
proof -
  have "usersByName sample_accounts ''alice'' \<noteq> None"
    by (simp add: sample_accounts_def sample_user_def CreateUser_def CreateAPIKey_def sample_key_def NewMemoryStore_def new_obj_def Let_def)
  then have "CreateUser sample_user 9 ''u2'' sample_accounts = (Inl ErrDuplicate, sample_accounts)"
    using CreateUser_spec [where user = sample_user and now = 9 and xid = "''u2''" and s = sample_accounts]
    by (auto simp: sample_user_def split: prod.splits sum.splits)
  moreover have "usersByName NewMemoryStore ''alice'' = None" by (simp add: NewMemoryStore_def)
  then have "GetUserByUsername ''bob'' (snd (CreateUser sample_user 5 ''u1'' NewMemoryStore))
      = GetUserByUsername ''bob'' NewMemoryStore"
    using CreateUser_spec [where user = sample_user and now = 5 and xid = "''u1''" and s = NewMemoryStore]
    by (auto simp: sample_user_def split: prod.splits sum.splits)
  ultimately show ?thesis by simp
qed

text \<open>Updating a user. The identifier must exist and a new name must be free, else the error says
  which and nothing changes. On success the record is found under its identifier and its new name, the
  old name is free if it changed, and every other name resolves as before.\<close>

theorem UpdateUserByID_spec:
  assumes "users_wf s" and "UpdateUserByID user now s = (res, s')"
  shows "case res of
      Inl e \<Rightarrow> s' = s \<and> (e = ErrNotFound \<and> GetUserByID (user_ID user) s = Inl ErrNotFound
                 \<or> e = ErrDuplicate \<and> (\<exists>v. GetUserByUsername (user_Username user) s = Inr v
                                          \<and> user_ID v \<noteq> user_ID user))
    | Inr u \<Rightarrow> u = user\<lparr>user_UpdatedAt := now\<rparr> \<and> GetUserByID (user_ID user) s' = Inr u
        \<and> GetUserByUsername (user_Username user) s' = Inr u
        \<and> (\<forall>old. GetUserByID (user_ID user) s = Inr old \<longrightarrow> user_Username old \<noteq> user_Username user
             \<longrightarrow> GetUserByUsername (user_Username old) s' = Inl ErrNotFound)
        \<and> (\<forall>n. n \<noteq> user_Username user \<longrightarrow>
             (\<forall>old. GetUserByID (user_ID user) s = Inr old \<longrightarrow> n \<noteq> user_Username old) \<longrightarrow>
             GetUserByUsername n s' = GetUserByUsername n s)"
proof (cases "users s (user_ID user)")
  case None
  with assms(2) show ?thesis by (auto simp: UpdateUserByID_def GetUserByID_def)
next
  case (Some old)
  have old: "user_ID old = user_ID user" "usersByName s (user_Username old) = Some old"
    using user_directory.id_name [OF assms(1) Some] by auto
  show ?thesis
  proof (cases "user_Username old \<noteq> user_Username user \<and> usersByName s (user_Username user) \<noteq> None")
    case True
    then obtain v where v: "usersByName s (user_Username user) = Some v" by auto
    then have vv: "user_Username v = user_Username user" "users s (user_ID v) = Some v"
      using user_directory.name_id [OF assms(1) v] by auto
    have "user_ID v \<noteq> user_ID user"
    proof
      assume "user_ID v = user_ID user"
      with vv(2) Some have "v = old" by simp
      with vv(1) True show False by simp
    qed
    with True v assms(2) Some show ?thesis
      by (auto simp: UpdateUserByID_def GetUserByUsername_def)
  next
    case False
    with assms(2) Some show ?thesis
      by (auto simp: UpdateUserByID_def GetUserByUsername_def GetUserByID_def Let_def)
  qed
qed

theorem UpdateUserByID_spec_witness:
  "GetUserByUsername ''alice''
     (snd (UpdateUserByID (sample_user\<lparr>user_ID := ''u1'', user_Username := ''carol''\<rparr>) 8 sample_accounts))
   = Inl ErrNotFound"
proof -
  let ?c = "sample_user\<lparr>user_ID := ''u1'', user_Username := ''carol''\<rparr>"
  have wf: "users_wf sample_accounts"
    by (simp add: accounts_wf_def users_wf_def sample_accounts_def sample_user_def sample_key_def
        CreateUser_def CreateAPIKey_def NewMemoryStore_def new_obj_def Let_def dual_indexed_def)
  have "fst (UpdateUserByID ?c 8 sample_accounts) = Inr (?c\<lparr>user_UpdatedAt := 8\<rparr>)"
    by (simp add: UpdateUserByID_def sample_accounts_eval sample_user_def Let_def)
  then obtain s' where r: "UpdateUserByID ?c 8 sample_accounts = (Inr (?c\<lparr>user_UpdatedAt := 8\<rparr>), s')"
    by (cases "UpdateUserByID ?c 8 sample_accounts") simp
  have "GetUserByID (user_ID ?c) sample_accounts
      = Inr (sample_user\<lparr>user_ID := ''u1'', user_CreatedAt := 5, user_UpdatedAt := 5\<rparr>)"
    by (simp add: GetUserByID_def sample_accounts_eval(1))
  moreover from UpdateUserByID_spec [OF wf r, unfolded sum.case]
  have "\<forall>old. GetUserByID (user_ID ?c) sample_accounts = Inr old \<longrightarrow> user_Username old \<noteq> user_Username ?c
      \<longrightarrow> GetUserByUsername (user_Username old) s' = Inl ErrNotFound"
    by blast
  ultimately have "user_Username sample_user \<noteq> ''carol'' \<Longrightarrow>
      GetUserByUsername (user_Username sample_user) s' = Inl ErrNotFound"
    by simp
  then show ?thesis unfolding r by (simp add: sample_user_def)
qed



text \<open>An expired session is never returned, and the periodic removal of expired sessions is not
  observable: at its own time or later every lookup answers as if it had not run. It reports how many
  sessions it removed.\<close>

theorem DeleteExpiredSessions_unobservable:
  assumes "enumerates ks (sessions s)" and "DeleteExpiredSessions now ks s = (Inr n, s')" and "now \<le> t"
  shows "GetSessionByToken tok t s' = GetSessionByToken tok t s
    \<and> (\<forall>ses. GetSessionByToken tok t s = Inr ses \<longrightarrow> t \<le> session_ExpiresAt ses)
    \<and> n = int (card (dom (sessions s)) - card (dom (sessions s')))"
proof -
  let ?P = "\<lambda>_ session. now > session_ExpiresAt session"
  have s': "sessions s' = delete_where ?P (sessions s)"
    and n: "n = int (length (filter (\<lambda>session. now > session_ExpiresAt session) (range_values ks (sessions s))))"
    using assms(2) by (auto simp: DeleteExpiredSessions_def Let_def)
  have g: "GetSessionByToken tok t s' = GetSessionByToken tok t s"
    using assms(3) by (auto simp: GetSessionByToken_def s' delete_where_def split: option.splits)
  have live: "t \<le> session_ExpiresAt ses" if "GetSessionByToken tok t s = Inr ses" for ses
    using that by (auto simp: GetSessionByToken_def split: option.splits if_splits)
  have fin: "finite (dom (sessions s))" using assms(1) by (metis List.finite_set enumerates_def)
  let ?gone = "{k \<in> dom (sessions s). now > session_ExpiresAt (the (sessions s k))}"
  have "dom (sessions s') = dom (sessions s) - ?gone"
    unfolding s' by (auto simp: delete_where_def dom_def split: option.splits if_splits)
  then have "card (dom (sessions s')) = card (dom (sessions s)) - card ?gone"
    using fin by (simp add: card_Diff_subset)
  moreover have "card ?gone \<le> card (dom (sessions s))" using fin by (simp add: card_mono)
  moreover have "n = int (card ?gone)"
  proof -
    have "filter (\<lambda>k. sessions s k \<noteq> None) ks = ks"
      using assms(1) by (auto simp: enumerates_def filter_id_conv)
    then have "n = int (length (filter (\<lambda>k. now > session_ExpiresAt (the (sessions s k))) ks))"
      by (simp add: n range_values_def filter_map o_def)
    also have "\<dots> = int (card (set (filter (\<lambda>k. now > session_ExpiresAt (the (sessions s k))) ks)))"
      using assms(1) by (metis distinct_card distinct_filter enumerates_def)
    also have "set (filter (\<lambda>k. now > session_ExpiresAt (the (sessions s k))) ks) = ?gone"
      using assms(1) by (auto simp: enumerates_def)
    finally show ?thesis .
  qed
  ultimately show ?thesis using g live by simp
qed

definition sample_session :: Session where
  "sample_session = \<lparr>session_ID = '''', session_UserID = ''u1'', session_Token = ''t1'', session_IPAddress = '''',
     session_UserAgent = '''', session_CreatedAt = 0, session_ExpiresAt = 10, session_LastUsed = 0\<rparr>"

theorem DeleteExpiredSessions_unobservable_witness:
  "fst (DeleteExpiredSessions 20 [''t1''] (snd (CreateSession sample_session 5 NewMemoryStore))) = Inr 1
   \<and> GetSessionByToken ''t1'' 20
        (snd (DeleteExpiredSessions 20 [''t1''] (snd (CreateSession sample_session 5 NewMemoryStore))))
     = GetSessionByToken ''t1'' 20 (snd (CreateSession sample_session 5 NewMemoryStore))"
proof -
  let ?s = "snd (CreateSession sample_session 5 NewMemoryStore)"
  let ?d = "DeleteExpiredSessions 20 [''t1''] ?s"
  have e: "enumerates [''t1''] (sessions ?s)"
    by (simp add: enumerates_def CreateSession_def sample_session_def NewMemoryStore_def Let_def)
  have f: "fst ?d = Inr 1"
    by (simp add: DeleteExpiredSessions_def CreateSession_def sample_session_def NewMemoryStore_def
        range_values_def Let_def)
  then have "?d = (Inr 1, snd ?d)" by (metis prod.collapse)
  from DeleteExpiredSessions_unobservable [OF e this, of 20] f show ?thesis by simp
qed

text \<open>Marking an API key as used. When the key is stored under its hash, the use is recorded: the
  lookup by hash and the owner's list both show the new time, because both indexes hold the same
  object; and nothing else about any key changes.\<close>

theorem UpdateAPIKeyUsage_seen_everywhere:
  assumes "keys_wf s" and "enumerates ks (apiKeys s)" and "GetAPIKeyByHash h t s = Inr key"
    and "UpdateAPIKeyUsage (apikey_ID key) now ks s = (res, s')"
  shows "res = Inr () \<and> GetAPIKeyByHash h t s' = Inr (key\<lparr>apikey_LastUsedAt := Some now\<rparr>)
    \<and> key\<lparr>apikey_LastUsedAt := Some now\<rparr> \<in> set (ListAPIKeys (apikey_UserID key) s')
    \<and> (\<forall>h'. h' \<noteq> h \<longrightarrow> GetAPIKeyByHash h' t s' = GetAPIKeyByHash h' t s)
    \<and> (\<forall>u. length (ListAPIKeys u s') = length (ListAPIKeys u s))"
proof -
  from assms(3) obtain r where r: "apiKeys s h = Some r" "load (apiKeyObjs s) r = Some key"
      and live: "\<not> api_key_expired t key"
    by (auto simp: GetAPIKeyByHash_def bind_eq_Some_conv split: option.splits if_splits)
  let ?k = "key\<lparr>apikey_LastUsedAt := Some now\<rparr>"
  have u: "key_ids_unique s" "key_indexed s" "key_listed s" using assms(1) by (auto simp: keys_wf_def)
  have res: "res = Inr ()" and s': "apiKeys s' = apiKeys s" "apiKeysByUser s' = apiKeysByUser s"
      "apiKeyObjs s' = assign (apiKeyObjs s) r ?k"
    using assms(4) find_key_unique [OF u(1) assms(2) r] by (auto simp: UpdateAPIKeyUsage_def)
  have ku: "keys_of_user v s' = keys_of_user v s" for v by (simp add: keys_of_user_def s'(2))
  have 1: "GetAPIKeyByHash h t s' = Inr ?k"
    using r live by (simp add: GetAPIKeyByHash_def s' heap_simps api_key_expired_def)
  have 2: "?k \<in> set (ListAPIKeys (apikey_UserID key) s')"
  proof -
    have "r \<in> set (keys_of_user (apikey_UserID key) s)" by (rule key_indexedD [OF u(2) r(1)]) (simp add: r(2))
    moreover have "load (apiKeyObjs s') r = Some ?k" using r(2) by (simp add: s' heap_simps)
    ultimately show ?thesis by (force simp: ListAPIKeys_def map_filter_def ku simp del: load_assign)
  qed
  have 3: "GetAPIKeyByHash h' t s' = GetAPIKeyByHash h' t s" if "h' \<noteq> h" for h'
  proof (cases "apiKeys s h'")
    case (Some q)
    then obtain kq where "load (apiKeyObjs s) q = Some kq" "apikey_KeyHash kq = h'"
      using key_indexedD [OF u(2) Some] by metis
    moreover have "apikey_KeyHash key = h" using key_indexedD [OF u(2) r(1)] r(2) by (metis option.inject)
    ultimately have "q \<noteq> r" using that r(2) by auto
    with Some show ?thesis by (simp add: GetAPIKeyByHash_def s' heap_simps)
  qed (simp add: GetAPIKeyByHash_def s')
  have "load (apiKeyObjs s') q = None \<longleftrightarrow> load (apiKeyObjs s) q = None" for q
    using r(2) by (simp add: s' heap_simps)
  then have 4: "length (ListAPIKeys v s') = length (ListAPIKeys v s)" for v
    by (simp add: ListAPIKeys_def ku map_filter_def)
  show ?thesis using res 1 2 3 4 by blast
qed

theorem UpdateAPIKeyUsage_seen_everywhere_witness:
  "GetAPIKeyByHash ''h1'' 7 (snd (UpdateAPIKeyUsage ''k1'' 7 [''h1''] sample_accounts))
   = Inr (sample_key\<lparr>apikey_ID := ''k1'', apikey_CreatedAt := 6, apikey_LastUsedAt := Some 7\<rparr>)"
proof -
  let ?k = "sample_key\<lparr>apikey_ID := ''k1'', apikey_CreatedAt := 6\<rparr>"
  have wf: "keys_wf sample_accounts"
    using rtranclp_induct [OF sample_accounts_reachable, of accounts_wf] accounts_wf_new account_step_wf
    by (auto simp: accounts_wf_def)
  have e: "enumerates [''h1''] (apiKeys sample_accounts)" by (simp add: enumerates_def sample_accounts_eval)
  have g: "GetAPIKeyByHash ''h1'' 7 sample_accounts = Inr ?k"
    by (simp add: GetAPIKeyByHash_def sample_accounts_eval load_def api_key_expired_def sample_key_def)
  have "UpdateAPIKeyUsage (apikey_ID ?k) 7 [''h1''] sample_accounts
      = (fst (UpdateAPIKeyUsage ''k1'' 7 [''h1''] sample_accounts),
         snd (UpdateAPIKeyUsage ''k1'' 7 [''h1''] sample_accounts))" by simp
  from UpdateAPIKeyUsage_seen_everywhere [OF wf e g this] show ?thesis by simp
qed

end
