(* ===== verification/Mem_Projects.thy ===== *)
theory Mem_Projects
  imports Store_Model Ref_Table Dual_Index Pagination
begin

text \<open>
  \<open>internal/storage/memory_projects.go\<close>: projects, project types, webhooks and secrets of the
  in-memory store. A project is one object that both \<open>projects\<close> and \<open>projectsByName\<close> point to; a
  webhook and a secret are changed through the stored pointer.
\<close>

section \<open>Projects\<close>

definition CreateProject :: "Project \<Rightarrow> time \<Rightarrow> string \<Rightarrow> MemoryStore \<Rightarrow> Project result \<times> MemoryStore" where
  "CreateProject project now xid s =
     (if projectsByName s (project_Name project) \<noteq> None then (Inl ErrDuplicate, s)
      else
        (let project = (if project_ID project = '''' then project\<lparr>project_ID := xid\<rparr> else project);
             project = project\<lparr>project_CreatedAt := now, project_UpdatedAt := now\<rparr>;
             (stored, objs) = new_obj project (projectObjs s)
         in (Inr project,
             s\<lparr>projectObjs := objs,
               projects := (projects s)(project_ID project \<mapsto> stored),
               projectsByName := (projectsByName s)(project_Name project \<mapsto> stored),
               projectsWrites := queueWrite (projectsWrites s)
                 (NewWriteOp WriteOpInsert ''projects'' (ProjectPtr stored) now)\<rparr>)))"

definition GetProjectByID :: "string \<Rightarrow> MemoryStore \<Rightarrow> Project result" where
  "GetProjectByID pid s =
     (case deref (projects s) (projectObjs s) pid of None \<Rightarrow> Inl ErrNotFound | Some project \<Rightarrow> Inr project)"

definition GetProjectByName :: "string \<Rightarrow> MemoryStore \<Rightarrow> Project result" where
  "GetProjectByName name s =
     (case deref (projectsByName s) (projectObjs s) name of
        None \<Rightarrow> Inl ErrNotFound | Some project \<Rightarrow> Inr project)"

definition ListProjects :: "string list \<Rightarrow> MemoryStore \<Rightarrow> Project list" where
  "ListProjects ks s = range_objs ks (projects s) (projectObjs s)"

definition ListProjectsPaginated :: "int \<Rightarrow> int \<Rightarrow> string list \<Rightarrow> MemoryStore \<Rightarrow> Project list option" where
  "ListProjectsPaginated limit offset ks s =
     page_end (range_objs ks (projects s) (projectObjs s)) limit offset"

definition CountProjects :: "MemoryStore \<Rightarrow> int" where
  "CountProjects s = int (card (dom (projects s)))"

definition UpdateProjectByID :: "Project \<Rightarrow> time \<Rightarrow> MemoryStore \<Rightarrow> Project result \<times> MemoryStore" where
  "UpdateProjectByID p now s =
     (case deref (projects s) (projectObjs s) (project_ID p) of
        None \<Rightarrow> (Inl ErrNotFound, s)
      | Some existing \<Rightarrow>
          (let p = p\<lparr>project_CreatedAt := project_CreatedAt existing, project_UpdatedAt := now\<rparr>;
               byName = (if project_Name existing \<noteq> project_Name p
                         then (projectsByName s)(project_Name existing := None) else projectsByName s);
               (stored, objs) = new_obj p (projectObjs s)
           in (Inr p,
               s\<lparr>projectObjs := objs,
                 projects := (projects s)(project_ID p \<mapsto> stored),
                 projectsByName := byName(project_Name p \<mapsto> stored),
                 projectsWrites := queueWrite (projectsWrites s)
                   (NewWriteOp WriteOpUpdate ''projects'' (ProjectPtr stored) now)\<rparr>)))"

definition UpdateProjectByName :: "Project \<Rightarrow> time \<Rightarrow> MemoryStore \<Rightarrow> Project result \<times> MemoryStore" where
  "UpdateProjectByName p now s =
     (case deref (projectsByName s) (projectObjs s) (project_Name p) of
        None \<Rightarrow> (Inl ErrNotFound, s)
      | Some existing \<Rightarrow>
          (let p = p\<lparr>project_ID := project_ID existing, project_CreatedAt := project_CreatedAt existing,
                     project_UpdatedAt := now\<rparr>;
               (stored, objs) = new_obj p (projectObjs s)
           in (Inr p,
               s\<lparr>projectObjs := objs,
                 projects := (projects s)(project_ID p \<mapsto> stored),
                 projectsByName := (projectsByName s)(project_Name p \<mapsto> stored),
                 projectsWrites := queueWrite (projectsWrites s)
                   (NewWriteOp WriteOpUpdate ''projects'' (ProjectPtr stored) now)\<rparr>)))"

definition UpdateProjectHealthCheck ::
  "string \<Rightarrow> string option \<Rightarrow> bool \<Rightarrow> bool \<Rightarrow> time \<Rightarrow> MemoryStore \<Rightarrow> unit result \<times> MemoryStore" where
  "UpdateProjectHealthCheck projectID healthCheckID autoRollback rollbackOnHealthFail now s =
     (case projects s projectID of
        None \<Rightarrow> (Inl ErrNotFound, s)
      | Some r \<Rightarrow>
          (case load (projectObjs s) r of
             None \<Rightarrow> (Inl ErrNotFound, s)
           | Some project \<Rightarrow>
               (Inr (),
                s\<lparr>projectObjs := assign (projectObjs s) r
                    (project\<lparr>project_HealthCheckID := healthCheckID,
                             project_AutoRollbackEnabled := autoRollback,
                             project_RollbackOnHealthFail := rollbackOnHealthFail,
                             project_UpdatedAt := now\<rparr>),
                  projectsWrites := queueWrite (projectsWrites s)
                    (NewWriteOp WriteOpUpdate ''projects''
                      (AnyMapData [(''id'', AnyString projectID),
                                   (''health_check_id'', AnyStringPtr healthCheckID),
                                   (''auto_rollback_enabled'', AnyBool autoRollback),
                                   (''rollback_on_health_fail'', AnyBool rollbackOnHealthFail)]) now)\<rparr>)))"

text \<open>The cascade of both delete operations: webhooks by project identifier, deployments by name or
  identifier together with their logs, scheduled deployments and secrets by name.\<close>

definition dep_of_project :: "string \<Rightarrow> string \<Rightarrow> DeploymentRecord \<Rightarrow> bool" where
  "dep_of_project pid name dep \<longleftrightarrow> dep_Project dep = name \<or> dep_ProjectID dep = Some pid"

definition cascade_project :: "string \<Rightarrow> string \<Rightarrow> MemoryStore \<Rightarrow> MemoryStore" where
  "cascade_project pid name s =
     s\<lparr>webhooks := delete_objs (\<lambda>webhook. webhook_ProjectID webhook = pid) (webhooks s) (webhookObjs s),
       deployments := delete_objs (dep_of_project pid name) (deployments s) (deploymentObjs s),
       deploymentLogs := (\<lambda>depID. case deref (deployments s) (deploymentObjs s) depID of
           None \<Rightarrow> deploymentLogs s depID
         | Some dep \<Rightarrow> if dep_of_project pid name dep then None else deploymentLogs s depID),
       scheduledDeploys := delete_objs (\<lambda>sched. sched_Project sched = name) (scheduledDeploys s) (scheduledObjs s),
       secrets := delete_objs (\<lambda>secret. secret_Project secret = name) (secrets s) (secretObjs s)\<rparr>"

definition DeleteProjectByID :: "string \<Rightarrow> time \<Rightarrow> MemoryStore \<Rightarrow> unit result \<times> MemoryStore" where
  "DeleteProjectByID pid now s =
     (case deref (projects s) (projectObjs s) pid of
        None \<Rightarrow> (Inr (), s)
      | Some project \<Rightarrow>
          (Inr (),
           (cascade_project pid (project_Name project) s)
             \<lparr>projects := (projects s)(pid := None),
              projectsByName := (projectsByName s)(project_Name project := None),
              projectsWrites := queueWrite (projectsWrites s)
                (NewWriteOp WriteOpDelete ''projects'' (StringData pid) now)\<rparr>))"

definition DeleteProject :: "string \<Rightarrow> time \<Rightarrow> MemoryStore \<Rightarrow> unit result \<times> MemoryStore" where
  "DeleteProject name now s =
     (case deref (projectsByName s) (projectObjs s) name of
        None \<Rightarrow> (Inr (), s)
      | Some project \<Rightarrow>
          (Inr (),
           (cascade_project (project_ID project) name s)
             \<lparr>projects := (projects s)(project_ID project := None),
              projectsByName := (projectsByName s)(name := None),
              projectsWrites := queueWrite (projectsWrites s)
                (NewWriteOp WriteOpDelete ''projects'' (StringMapData [(''name'', name)]) now)\<rparr>))"

section \<open>Project types\<close>

definition CreateProjectType ::
  "ProjectType \<Rightarrow> time \<Rightarrow> string \<Rightarrow> string list \<Rightarrow> MemoryStore \<Rightarrow> ProjectType result \<times> MemoryStore" where
  "CreateProjectType pt now xid ks s =
     (if list_ex (\<lambda>existing. ptype_Name existing = ptype_Name pt) (range_values ks (projectTypes s))
      then (Inl ErrDuplicate, s)
      else
        (let pt = (if ptype_ID pt = '''' then pt\<lparr>ptype_ID := xid\<rparr> else pt);
             pt = pt\<lparr>ptype_CreatedAt := now\<rparr>
         in (Inr pt,
             s\<lparr>projectTypes := (projectTypes s)(ptype_ID pt \<mapsto> pt),
               projectsWrites := queueWrite (projectsWrites s)
                 (NewWriteOp WriteOpInsert ''project_types'' (ProjectTypePtr pt) now)\<rparr>)))"

definition ListProjectTypes :: "string list \<Rightarrow> MemoryStore \<Rightarrow> ProjectType list" where
  "ListProjectTypes ks s = range_values ks (projectTypes s)"

definition find_type :: "string \<Rightarrow> string list \<Rightarrow> MemoryStore \<Rightarrow> (string \<times> ProjectType) option" where
  "find_type name ks s = find (\<lambda>(i, pt). ptype_Name pt = name) (map_of_keys ks (projectTypes s))"

definition GetProjectTypeByName :: "string \<Rightarrow> string list \<Rightarrow> MemoryStore \<Rightarrow> ProjectType result" where
  "GetProjectTypeByName name ks s =
     (case find_type name ks s of None \<Rightarrow> Inl ErrNotFound | Some (i, pt) \<Rightarrow> Inr pt)"

definition UpdateProjectTypeByName ::
  "ProjectType \<Rightarrow> time \<Rightarrow> string list \<Rightarrow> MemoryStore \<Rightarrow> ProjectType result \<times> MemoryStore" where
  "UpdateProjectTypeByName pt now ks s =
     (case find_type (ptype_Name pt) ks s of
        None \<Rightarrow> (Inl ErrNotFound, s)
      | Some (i, existing) \<Rightarrow>
          (let pt = pt\<lparr>ptype_ID := i, ptype_CreatedAt := ptype_CreatedAt existing\<rparr>
           in (Inr pt,
               s\<lparr>projectTypes := (projectTypes s)(i \<mapsto> pt),
                 projectsWrites := queueWrite (projectsWrites s)
                   (NewWriteOp WriteOpUpdate ''project_types'' (ProjectTypePtr pt) now)\<rparr>)))"

definition DeleteProjectType ::
  "string \<Rightarrow> time \<Rightarrow> string list \<Rightarrow> MemoryStore \<Rightarrow> unit result \<times> MemoryStore" where
  "DeleteProjectType name now ks s =
     (case find_type name ks s of
        None \<Rightarrow> (Inr (), s)
      | Some (i, pt) \<Rightarrow>
          (Inr (),
           s\<lparr>projectTypes := (projectTypes s)(i := None),
             projectsWrites := queueWrite (projectsWrites s)
               (NewWriteOp WriteOpDelete ''project_types'' (StringMapData [(''name'', name)]) now)\<rparr>))"

section \<open>Project webhooks\<close>

definition find_webhook ::
  "string \<Rightarrow> string \<Rightarrow> string list \<Rightarrow> MemoryStore \<Rightarrow> (string \<times> ref \<times> ProjectWebhook) option" where
  "find_webhook projectID provider ks s =
     find_obj (\<lambda>webhook. webhook_ProjectID webhook = projectID \<and> webhook_Provider webhook = provider)
       ks (webhooks s) (webhookObjs s)"

definition GetProjectWebhook ::
  "string \<Rightarrow> string \<Rightarrow> string list \<Rightarrow> MemoryStore \<Rightarrow> ProjectWebhook result" where
  "GetProjectWebhook projectID provider ks s =
     (case find_webhook projectID provider ks s of
        None \<Rightarrow> Inl ErrNotFound | Some (i, r, webhook) \<Rightarrow> Inr webhook)"

definition SetProjectWebhook ::
  "string \<Rightarrow> string \<Rightarrow> string \<Rightarrow> bool \<Rightarrow> bool \<Rightarrow> time \<Rightarrow> string \<Rightarrow> string list \<Rightarrow> MemoryStore
   \<Rightarrow> unit result \<times> MemoryStore" where
  "SetProjectWebhook projectID provider secretEncrypted enabled requireSecret now xid ks s =
     (case find_webhook projectID provider ks s of
        Some (i, r, webhook) \<Rightarrow>
          (Inr (),
           s\<lparr>webhookObjs := assign (webhookObjs s) r
               (webhook\<lparr>webhook_SecretEncrypted := secretEncrypted, webhook_Enabled := enabled,
                        webhook_RequireSecret := requireSecret, webhook_UpdatedAt := now\<rparr>),
             projectsWrites := queueWrite (projectsWrites s)
               (NewWriteOp WriteOpUpdate ''project_webhooks'' (WebhookPtr r) now)\<rparr>)
      | None \<Rightarrow>
          (let webhook = \<lparr>webhook_ID = xid, webhook_ProjectID = projectID, webhook_Provider = provider,
                          webhook_SecretEncrypted = secretEncrypted, webhook_Enabled = enabled,
                          webhook_RequireSecret = requireSecret, webhook_CreatedAt = now,
                          webhook_UpdatedAt = now\<rparr>;
               (r, objs) = new_obj webhook (webhookObjs s)
           in (Inr (),
               s\<lparr>webhookObjs := objs,
                 webhooks := (webhooks s)(webhook_ID webhook \<mapsto> r),
                 projectsWrites := queueWrite (projectsWrites s)
                   (NewWriteOp WriteOpInsert ''project_webhooks'' (WebhookPtr r) now)\<rparr>)))"

definition ListProjectWebhooks :: "string \<Rightarrow> string list \<Rightarrow> MemoryStore \<Rightarrow> ProjectWebhook list" where
  "ListProjectWebhooks projectID ks s =
     filter (\<lambda>webhook. webhook_ProjectID webhook = projectID) (range_objs ks (webhooks s) (webhookObjs s))"

definition DeleteProjectWebhook ::
  "string \<Rightarrow> string \<Rightarrow> time \<Rightarrow> string list \<Rightarrow> MemoryStore \<Rightarrow> unit result \<times> MemoryStore" where
  "DeleteProjectWebhook projectID provider now ks s =
     (case find_webhook projectID provider ks s of
        None \<Rightarrow> (Inr (), s)
      | Some (i, r, webhook) \<Rightarrow>
          (Inr (),
           s\<lparr>webhooks := (webhooks s)(i := None),
             projectsWrites := queueWrite (projectsWrites s)
               (NewWriteOp WriteOpDelete ''project_webhooks''
                 (AnyMapData [(''project_id'', AnyString projectID), (''provider'', AnyString provider)]) now)\<rparr>))"

section \<open>Secrets\<close>

record SecretInfo =
  info_Key :: string
  info_Scope :: string
  info_UpdatedAt :: time

definition SetSecretEncrypted ::
  "string \<Rightarrow> string \<Rightarrow> string \<Rightarrow> string \<Rightarrow> time \<Rightarrow> string \<Rightarrow> MemoryStore \<Rightarrow> unit result \<times> MemoryStore" where
  "SetSecretEncrypted project scope key valueEncrypted now xid s =
     (let mapKey = secretKey project scope key
      in case Option.bind (secrets s mapKey) (\<lambda>r. map_option (\<lambda>x. (r, x)) (load (secretObjs s) r)) of
           Some (r, existing) \<Rightarrow>
             (Inr (),
              s\<lparr>secretObjs := assign (secretObjs s) r
                  (existing\<lparr>secret_ValueEncrypted := valueEncrypted, secret_UpdatedAt := now\<rparr>),
                projectsWrites := queueWrite (projectsWrites s)
                  (NewWriteOp WriteOpUpdate ''secrets'' (SecretPtr r) now)\<rparr>)
         | None \<Rightarrow>
             (let secret = \<lparr>secret_ID = xid, secret_Project = project, secret_ProjectID = None,
                            secret_Scope = scope, secret_Key = key,
                            secret_ValueEncrypted = valueEncrypted, secret_CreatedAt = now,
                            secret_UpdatedAt = now\<rparr>;
                  (r, objs) = new_obj secret (secretObjs s)
              in (Inr (),
                  s\<lparr>secretObjs := objs,
                    secrets := (secrets s)(mapKey \<mapsto> r),
                    projectsWrites := queueWrite (projectsWrites s)
                      (NewWriteOp WriteOpInsert ''secrets'' (SecretPtr r) now)\<rparr>)))"

definition GetSecret :: "string \<Rightarrow> string \<Rightarrow> string \<Rightarrow> MemoryStore \<Rightarrow> Secret result" where
  "GetSecret project scope key s =
     (case deref (secrets s) (secretObjs s) (secretKey project scope key) of
        None \<Rightarrow> Inl ErrNotFound | Some secret \<Rightarrow> Inr secret)"

definition ListSecrets :: "string \<Rightarrow> string list \<Rightarrow> MemoryStore \<Rightarrow> SecretInfo list" where
  "ListSecrets scope ks s =
     map (\<lambda>secret. \<lparr>info_Key = secret_Key secret, info_Scope = secret_Scope secret,
                    info_UpdatedAt = secret_UpdatedAt secret\<rparr>)
       (filter (\<lambda>secret. secret_Scope secret = scope) (range_objs ks (secrets s) (secretObjs s)))"

definition ListSecretsCtx :: "string \<Rightarrow> string list \<Rightarrow> MemoryStore \<Rightarrow> Secret list" where
  "ListSecretsCtx project ks s =
     filter (\<lambda>secret. secret_Project secret = project) (range_objs ks (secrets s) (secretObjs s))"

definition ListSecretsWithScope :: "string \<Rightarrow> string \<Rightarrow> string list \<Rightarrow> MemoryStore \<Rightarrow> Secret list" where
  "ListSecretsWithScope project scope ks s =
     filter (\<lambda>secret. secret_Project secret = project \<and> secret_Scope secret = scope)
       (range_objs ks (secrets s) (secretObjs s))"

definition ListAllSecretsCtx :: "string list \<Rightarrow> MemoryStore \<Rightarrow> Secret list" where
  "ListAllSecretsCtx ks s = range_objs ks (secrets s) (secretObjs s)"

definition DeleteSecret ::
  "string \<Rightarrow> string \<Rightarrow> time \<Rightarrow> string list \<Rightarrow> MemoryStore \<Rightarrow> unit result \<times> MemoryStore" where
  "DeleteSecret scope key now ks s =
     (case find_obj (\<lambda>secret. secret_Scope secret = scope \<and> secret_Key secret = key)
             ks (secrets s) (secretObjs s) of
        None \<Rightarrow> (Inr (), s)
      | Some (mapKey, r, secret) \<Rightarrow>
          (Inr (),
           s\<lparr>secrets := (secrets s)(mapKey := None),
             projectsWrites := queueWrite (projectsWrites s)
               (NewWriteOp WriteOpDelete ''secrets'' (StringMapData [(''scope'', scope), (''key'', key)]) now)\<rparr>))"

definition DeleteSecretCtx ::
  "string \<Rightarrow> string \<Rightarrow> string \<Rightarrow> time \<Rightarrow> MemoryStore \<Rightarrow> unit result \<times> MemoryStore" where
  "DeleteSecretCtx project scope key now s =
     (Inr (),
      s\<lparr>secrets := (secrets s)(secretKey project scope key := None),
        projectsWrites := queueWrite (projectsWrites s)
          (NewWriteOp WriteOpDelete ''secrets''
            (StringMapData [(''project'', project), (''scope'', scope), (''key'', key)]) now)\<rparr>)"

definition ExportAllSecrets :: "string list \<Rightarrow> MemoryStore \<Rightarrow> (string \<rightharpoonup> (string \<rightharpoonup> string))" where
  "ExportAllSecrets ks s =
     fold (\<lambda>secret result.
         let inner = (case result (secret_Project secret) of None \<Rightarrow> Map.empty | Some m \<Rightarrow> m)
         in result(secret_Project secret \<mapsto> inner(secret_Key secret \<mapsto> secret_Scope secret)))
       (range_objs ks (secrets s) (secretObjs s)) Map.empty"

section \<open>Invariants\<close>

text \<open>Both indexes of projects point to the same objects, each under its identifier and its name.\<close>

definition projects_wf :: "MemoryStore \<Rightarrow> bool" where
  "projects_wf s \<longleftrightarrow>
     (\<forall>i r. projects s i = Some r \<longrightarrow> r < length (projectObjs s)) \<and>
     dual_indexed (\<lambda>r. project_ID (projectObjs s ! r)) (\<lambda>r. project_Name (projectObjs s ! r))
       (projects s) (projectsByName s)"

text \<open>At most one webhook per project and provider, each under its own identifier.\<close>

definition webhooks_wf :: "MemoryStore \<Rightarrow> bool" where
  "webhooks_wf s \<longleftrightarrow>
     own_refs (webhooks s) (webhookObjs s) \<and>
     (\<forall>i j w v. deref (webhooks s) (webhookObjs s) i = Some w \<longrightarrow> deref (webhooks s) (webhookObjs s) j = Some v \<longrightarrow>
        webhook_ProjectID w = webhook_ProjectID v \<longrightarrow> webhook_Provider w = webhook_Provider v \<longrightarrow> i = j)"

definition secrets_wf :: "MemoryStore \<Rightarrow> bool" where
  "secrets_wf s \<longleftrightarrow>
     own_refs (secrets s) (secretObjs s) \<and>
     (\<forall>k x. deref (secrets s) (secretObjs s) k = Some x \<longrightarrow>
        k = secretKey (secret_Project x) (secret_Scope x) (secret_Key x))"

subsection \<open>Projects\<close>

lemma projects_deref:
  assumes "projects_wf s"
  shows "deref (projects s) (projectObjs s) i = Some p \<longleftrightarrow>
      (\<exists>r. projects s i = Some r \<and> r < length (projectObjs s) \<and> projectObjs s ! r = p)"
    and "deref (projectsByName s) (projectObjs s) k = Some p \<longleftrightarrow>
      (\<exists>r. projectsByName s k = Some r \<and> r < length (projectObjs s) \<and> projectObjs s ! r = p)"
  by (auto simp: deref_Some_iff load_def split: if_splits)

lemma projects_byName_below:
  "projects_wf s \<Longrightarrow> projectsByName s k = Some r \<Longrightarrow> r < length (projectObjs s)"
  unfolding projects_wf_def by (metis dual_indexedD2)

lemma projects_deref_None:
  assumes "projects_wf s"
  shows "deref (projects s) (projectObjs s) i = None \<longleftrightarrow> projects s i = None"
    and "deref (projectsByName s) (projectObjs s) k = None \<longleftrightarrow> projectsByName s k = None"
proof -
  show "deref (projects s) (projectObjs s) i = None \<longleftrightarrow> projects s i = None"
    using assms by (cases "projects s i") (auto simp: deref_def load_def projects_wf_def)
  show "deref (projectsByName s) (projectObjs s) k = None \<longleftrightarrow> projectsByName s k = None"
    using projects_byName_below [OF assms, of k]
    by (cases "projectsByName s k") (auto simp: deref_def load_def)
qed

interpretation project_directory: named_directory projects_wf
  "\<lambda>s. deref (projects s) (projectObjs s)" "\<lambda>s. deref (projectsByName s) (projectObjs s)"
  project_ID project_Name
proof
  fix s i p
  assume wf: "projects_wf s" and "deref (projects s) (projectObjs s) i = Some p"
  then obtain r where r: "projects s i = Some r" "r < length (projectObjs s)" "projectObjs s ! r = p"
    by (auto simp: projects_deref(1))
  with wf have "project_ID p = i" "projectsByName s (project_Name p) = Some r"
    unfolding projects_wf_def by (metis dual_indexedD1)+
  with r show "project_ID p = i \<and> deref (projectsByName s) (projectObjs s) (project_Name p) = Some p"
    by (simp add: projects_deref(2) [OF wf])
next
  fix s k p
  assume wf: "projects_wf s" and "deref (projectsByName s) (projectObjs s) k = Some p"
  then obtain r where r: "projectsByName s k = Some r" "r < length (projectObjs s)" "projectObjs s ! r = p"
    by (auto simp: projects_deref(2))
  with wf have "project_Name p = k" "projects s (project_ID p) = Some r"
    unfolding projects_wf_def by (metis dual_indexedD2)+
  with r show "project_Name p = k \<and> deref (projects s) (projectObjs s) (project_ID p) = Some p"
    by (simp add: projects_deref(1) [OF wf])
qed

text \<open>A new object does not disturb the entries already there.\<close>

lemma projects_wf_grow:
  assumes "projects_wf s"
  shows "dual_indexed (\<lambda>r. project_ID ((projectObjs s @ [p]) ! r)) (\<lambda>r. project_Name ((projectObjs s @ [p]) ! r))
      (projects s) (projectsByName s)"
  by (rule dual_indexed_cong [where ident = "\<lambda>r. project_ID (projectObjs s ! r)"
        and nm = "\<lambda>r. project_Name (projectObjs s ! r)"])
    (use assms in \<open>auto simp: projects_wf_def nth_append\<close>)

lemma CreateProject_projects_wf [wf_intros]:
  assumes "projects_wf s"
    and "projects s (if project_ID p = '''' then xid else project_ID p) = None"
  shows "projects_wf (snd (CreateProject p now xid s))"
proof (cases "projectsByName s (project_Name p)")
  case None
  let ?p = "(if project_ID p = '''' then p\<lparr>project_ID := xid\<rparr> else p)\<lparr>project_CreatedAt := now, project_UpdatedAt := now\<rparr>"
  note d = dual_indexed_insert [OF projects_wf_grow [OF assms(1), of ?p], of "length (projectObjs s)"]
  have "\<forall>i r. projects s i = Some r \<longrightarrow> r < length (projectObjs s)" using assms(1) by (simp add: projects_wf_def)
  with d None assms(2) show ?thesis
    by (auto simp: projects_wf_def CreateProject_def new_obj_def Let_def less_Suc_eq split: if_splits)
next
  case Some
  with assms(1) show ?thesis by (simp add: CreateProject_def)
qed

lemma UpdateProjectByID_projects_wf:
  assumes wf: "projects_wf s"
    and free: "\<And>q. GetProjectByName (project_Name p) s = Inr q \<Longrightarrow> project_ID q = project_ID p"
  shows "projects_wf (snd (UpdateProjectByID p now s))"
proof (cases "projects s (project_ID p)")
  case None
  with assms(1) show ?thesis by (simp add: UpdateProjectByID_def deref_def)
next
  case (Some r)
  with wf have r: "r < length (projectObjs s)" by (simp add: projects_wf_def)
  let ?e = "projectObjs s ! r"
  let ?p = "p\<lparr>project_CreatedAt := project_CreatedAt ?e, project_UpdatedAt := now\<rparr>"
  let ?objs = "projectObjs s @ [?p]"
  have d: "deref (projects s) (projectObjs s) (project_ID p) = Some ?e"
    using Some r by (simp add: deref_def load_def)
  have fr: "project_Name p = project_Name ?e \<or> projectsByName s (project_Name p) = None"
  proof (rule ccontr)
    assume c: "\<not> ?thesis"
    then obtain q where q: "deref (projectsByName s) (projectObjs s) (project_Name p) = Some q"
      using projects_deref_None(2) [OF wf, of "project_Name p"]
      by (cases "deref (projectsByName s) (projectObjs s) (project_Name p)") auto
    then have "project_ID q = project_ID p" using free by (simp add: GetProjectByName_def)
    with q project_directory.name_id [OF wf q] d have "q = ?e" "project_Name q = project_Name p" by simp_all
    with c show False by simp
  qed
  have "dual_indexed (\<lambda>r. project_ID (?objs ! r)) (\<lambda>r. project_Name (?objs ! r))
      ((projects s)(project_ID p \<mapsto> length (projectObjs s)))
      (((projectsByName s)(project_Name ?e := None))(project_Name p \<mapsto> length (projectObjs s)))"
    using dual_indexed_replace [OF projects_wf_grow [OF wf, of ?p], of "length (projectObjs s)" r] Some r fr
    by (simp add: nth_append)
  moreover have "((projectsByName s)(project_Name ?e := None))(project_Name p \<mapsto> length (projectObjs s))
      = (if project_Name ?e \<noteq> project_Name p then (projectsByName s)(project_Name ?e := None) else projectsByName s)
          (project_Name p \<mapsto> length (projectObjs s))" by auto
  ultimately show ?thesis
    using wf by (auto simp: UpdateProjectByID_def d new_obj_def Let_def projects_wf_def less_Suc_eq split: if_splits)
qed

lemma UpdateProjectByName_as_ByID:
  assumes "projects_wf s" and "deref (projectsByName s) (projectObjs s) (project_Name p) = Some e"
  shows "UpdateProjectByName p now s = UpdateProjectByID (p\<lparr>project_ID := project_ID e\<rparr>) now s"
  using project_directory.name_id [OF assms] assms(2)
  by (simp add: UpdateProjectByName_def UpdateProjectByID_def Let_def)

lemma UpdateProjectByName_projects_wf [wf_intros]:
  assumes "projects_wf s"
  shows "projects_wf (snd (UpdateProjectByName p now s))"
proof (cases "deref (projectsByName s) (projectObjs s) (project_Name p)")
  case None
  with assms show ?thesis by (simp add: UpdateProjectByName_def)
next
  case (Some e)
  show ?thesis
    unfolding UpdateProjectByName_as_ByID [OF assms Some]
    by (rule UpdateProjectByID_projects_wf [OF assms]) (simp add: GetProjectByName_def Some)
qed

lemma UpdateProjectHealthCheck_projects_wf [wf_intros]:
  assumes "projects_wf s"
  shows "projects_wf (snd (UpdateProjectHealthCheck pid hc ar rf now s))"
proof -
  let ?upd = "\<lambda>r. (projectObjs s)[r := (projectObjs s ! r)\<lparr>project_HealthCheckID := hc,
      project_AutoRollbackEnabled := ar, project_RollbackOnHealthFail := rf, project_UpdatedAt := now\<rparr>]"
  have upd: "project_ID (?upd r ! v) = project_ID (projectObjs s ! v)
      \<and> project_Name (?upd r ! v) = project_Name (projectObjs s ! v)" for r v
    by (cases "r < length (projectObjs s)"; cases "v = r") (simp_all add: list_update_beyond)
  have "dual_indexed (\<lambda>q. project_ID (?upd r ! q)) (\<lambda>q. project_Name (?upd r ! q))
      (projects s) (projectsByName s)" for r
    by (rule dual_indexed_cong [where ident = "\<lambda>r. project_ID (projectObjs s ! r)"
          and nm = "\<lambda>r. project_Name (projectObjs s ! r)"])
      (use assms upd in \<open>simp_all add: projects_wf_def\<close>)
  with assms show ?thesis
    by (auto simp: UpdateProjectHealthCheck_def projects_wf_def load_def assign_def split: option.splits)
qed

lemma DeleteProjectByID_projects_wf [wf_intros]:
  assumes "projects_wf s"
  shows "projects_wf (snd (DeleteProjectByID pid now s))"
proof (cases "projects s pid")
  case None
  with assms show ?thesis by (simp add: DeleteProjectByID_def deref_def)
next
  case (Some r)
  with assms have r: "r < length (projectObjs s)" by (simp add: projects_wf_def)
  with assms Some dual_indexed_delete [of "\<lambda>r. project_ID (projectObjs s ! r)"
      "\<lambda>r. project_Name (projectObjs s ! r)" "projects s" "projectsByName s" pid r]
  show ?thesis
    by (auto simp: DeleteProjectByID_def deref_def load_def projects_wf_def cascade_project_def split: if_splits)
qed

text \<open>Deleting by name and deleting by identifier do the same to the tables; only the pending write
  they queue differs.\<close>

lemma DeleteProject_as_ByID:
  assumes "projects_wf s" and "deref (projectsByName s) (projectObjs s) name = Some p"
  shows "snd (DeleteProject name now s)
      = (snd (DeleteProjectByID (project_ID p) now s))
          \<lparr>projectsWrites := projectsWrites s @
             [NewWriteOp WriteOpDelete ''projects'' (StringMapData [(''name'', name)]) now]\<rparr>"
  using project_directory.name_id [OF assms] assms(2)
  by (simp add: DeleteProject_def DeleteProjectByID_def queueWrite_def cascade_project_def)

lemma projects_wf_frame:
  "projects_wf s \<Longrightarrow> projects s' = projects s \<Longrightarrow> projectsByName s' = projectsByName s
   \<Longrightarrow> projectObjs s' = projectObjs s \<Longrightarrow> projects_wf s'"
  by (simp add: projects_wf_def)

lemma DeleteProject_projects_wf [wf_intros]:
  assumes "projects_wf s"
  shows "projects_wf (snd (DeleteProject name now s))"
proof (cases "deref (projectsByName s) (projectObjs s) name")
  case None
  with assms show ?thesis by (simp add: DeleteProject_def)
next
  case (Some p)
  from DeleteProjectByID_projects_wf [OF assms, of "project_ID p" now] show ?thesis
    unfolding DeleteProject_as_ByID [OF assms Some] by (rule projects_wf_frame) simp_all
qed

subsection \<open>Webhooks and secrets\<close>

lemma find_webhook_unique:
  assumes "webhooks_wf s" and "enumerates ks (webhooks s)"
    and "webhooks s i = Some r" and "load (webhookObjs s) r = Some w"
  shows "find_webhook (webhook_ProjectID w) (webhook_Provider w) ks s = Some (i, r, w)"
  unfolding find_webhook_def
proof (rule find_obj_unique [OF assms(2-4)])
  fix k y
  assume "deref (webhooks s) (webhookObjs s) k = Some y"
    and "webhook_ProjectID y = webhook_ProjectID w \<and> webhook_Provider y = webhook_Provider w"
  moreover have "deref (webhooks s) (webhookObjs s) i = Some w" using assms(3,4) by (simp add: deref_def)
  ultimately show "k = i" using assms(1) unfolding webhooks_wf_def by metis
qed simp

text \<open>The table of webhooks read through its pointers, after a set: one entry is new or replaced.\<close>

lemma SetProjectWebhook_deref:
  assumes wf: "webhooks_wf s" and ks: "enumerates ks (webhooks s)" and "webhooks s xid = None"
    and s': "s' = snd (SetProjectWebhook pid prov sec en req now xid ks s)"
  shows "\<exists>i w. deref (webhooks s') (webhookObjs s') = (deref (webhooks s) (webhookObjs s))(i \<mapsto> w)
      \<and> own_refs (webhooks s') (webhookObjs s')
      \<and> webhook_ProjectID w = pid \<and> webhook_Provider w = prov \<and> webhook_SecretEncrypted w = sec
      \<and> webhook_Enabled w = en \<and> webhook_RequireSecret w = req \<and> webhook_UpdatedAt w = now
      \<and> (\<forall>j v. deref (webhooks s) (webhookObjs s) j = Some v \<longrightarrow>
            webhook_ProjectID v = pid \<longrightarrow> webhook_Provider v = prov \<longrightarrow> j = i)
      \<and> (\<forall>v. deref (webhooks s) (webhookObjs s) i = Some v \<longrightarrow> webhook_ProjectID v = pid \<and> webhook_Provider v = prov)
      \<and> enumerates (if webhooks s i = None then i # ks else ks) (webhooks s')"
proof -
  have o: "own_refs (webhooks s) (webhookObjs s)" using wf by (simp add: webhooks_wf_def)
  show ?thesis
  proof (cases "find_webhook pid prov ks s")
    case None
    have none: "\<not> (webhook_ProjectID v = pid \<and> webhook_Provider v = prov)"
      if "deref (webhooks s) (webhookObjs s) j = Some v" for j v
      using find_obj_None [OF ks None [unfolded find_webhook_def] that] .
    let ?w = "\<lparr>webhook_ID = xid, webhook_ProjectID = pid, webhook_Provider = prov,
        webhook_SecretEncrypted = sec, webhook_Enabled = en, webhook_RequireSecret = req,
        webhook_CreatedAt = now, webhook_UpdatedAt = now\<rparr>"
    have "webhooks s' = (webhooks s)(xid \<mapsto> length (webhookObjs s))" "webhookObjs s' = webhookObjs s @ [?w]"
      by (simp_all add: s' SetProjectWebhook_def None new_obj_def Let_def)
    moreover have "deref (webhooks s) (webhookObjs s) xid = None" using assms(3) by (simp add: deref_def)
    ultimately show ?thesis using none assms(3) ks o
      by (intro exI [of _ xid] exI [of _ ?w]) (auto simp: deref_new own_refs_new enumerates_def)
  next
    case (Some z)
    obtain i r w where z: "z = (i, r, w)" by (cases z)
    note f = find_obj_Some [OF Some [unfolded z find_webhook_def]]
    let ?w = "w\<lparr>webhook_SecretEncrypted := sec, webhook_Enabled := en, webhook_RequireSecret := req,
        webhook_UpdatedAt := now\<rparr>"
    have st: "webhooks s' = webhooks s" "webhookObjs s' = assign (webhookObjs s) r ?w"
      by (simp_all add: s' SetProjectWebhook_def Some z)
    have di: "deref (webhooks s) (webhookObjs s) i = Some w" using f by (simp add: deref_def)
    then have un: "\<forall>j v. deref (webhooks s) (webhookObjs s) j = Some v \<longrightarrow> webhook_ProjectID v = pid \<longrightarrow>
        webhook_Provider v = prov \<longrightarrow> j = i"
      using wf f unfolding webhooks_wf_def by metis
    have old: "\<forall>v. deref (webhooks s) (webhookObjs s) i = Some v \<longrightarrow> webhook_ProjectID v = pid \<and> webhook_Provider v = prov"
      using di f by simp
    have d': "deref (webhooks s) (assign (webhookObjs s) r ?w) = (deref (webhooks s) (webhookObjs s))(i \<mapsto> ?w)"
      using deref_assign [OF o, of i r] f by blast
    have "own_refs (webhooks s) (assign (webhookObjs s) r ?w)" using o by (rule own_refs_assign)
    moreover have "enumerates (if webhooks s i = None then i # ks else ks) (webhooks s)" using f ks by simp
    moreover have "webhook_ProjectID ?w = pid" "webhook_Provider ?w = prov" "webhook_SecretEncrypted ?w = sec"
      "webhook_Enabled ?w = en" "webhook_RequireSecret ?w = req" "webhook_UpdatedAt ?w = now" using f by simp_all
    ultimately show ?thesis
      unfolding st using d' un old by blast
  qed
qed

text \<open>The entry a set changes belonged to the same project and provider before, if it existed.\<close>

lemma SetProjectWebhook_keeps_pair:
  assumes "webhooks_wf s" and "enumerates ks (webhooks s)" and "webhooks s xid = None"
    and "s' = snd (SetProjectWebhook pid prov sec en req now xid ks s)"
  shows "\<exists>i w. deref (webhooks s') (webhookObjs s') = (deref (webhooks s) (webhookObjs s))(i \<mapsto> w)
      \<and> webhook_ProjectID w = pid \<and> webhook_Provider w = prov \<and> webhook_SecretEncrypted w = sec
      \<and> webhook_Enabled w = en \<and> webhook_RequireSecret w = req \<and> webhook_UpdatedAt w = now
      \<and> (\<forall>v. deref (webhooks s) (webhookObjs s) i = Some v \<longrightarrow> webhook_ProjectID v = pid \<and> webhook_Provider v = prov)"
  using SetProjectWebhook_deref [OF assms] by blast

lemma SetProjectWebhook_webhooks_wf [wf_intros]:
  assumes "webhooks_wf s" and "enumerates ks (webhooks s)" and "webhooks s xid = None"
  shows "webhooks_wf (snd (SetProjectWebhook pid prov sec en req now xid ks s))"
proof -
  let ?s = "snd (SetProjectWebhook pid prov sec en req now xid ks s)"
  obtain i w where d: "deref (webhooks ?s) (webhookObjs ?s) = (deref (webhooks s) (webhookObjs s))(i \<mapsto> w)"
    and o: "own_refs (webhooks ?s) (webhookObjs ?s)"
    and w: "webhook_ProjectID w = pid" "webhook_Provider w = prov"
    and u: "\<And>j v. deref (webhooks s) (webhookObjs s) j = Some v \<Longrightarrow>
            webhook_ProjectID v = pid \<Longrightarrow> webhook_Provider v = prov \<Longrightarrow> j = i"
    using SetProjectWebhook_deref [OF assms refl, of pid prov sec en req now] by blast
  let ?m = "deref (webhooks s) (webhookObjs s)"
  have m: "?m j = Some v \<Longrightarrow> ?m k = Some v' \<Longrightarrow> webhook_ProjectID v = webhook_ProjectID v'
      \<Longrightarrow> webhook_Provider v = webhook_Provider v' \<Longrightarrow> j = k" for j k v v'
    using assms(1) unfolding webhooks_wf_def by blast
  have "j = k" if j: "(?m(i \<mapsto> w)) j = Some v" "(?m(i \<mapsto> w)) k = Some v'"
      "webhook_ProjectID v = webhook_ProjectID v'" "webhook_Provider v = webhook_Provider v'" for j k v v'
    using j u m w by (metis fun_upd_other fun_upd_same option.inject)
  with o show ?thesis unfolding webhooks_wf_def d by blast
qed

lemma webhooks_wf_subset:
  assumes "webhooks_wf s" and "own_refs (webhooks s') (webhookObjs s')"
    and "deref (webhooks s') (webhookObjs s') \<subseteq>\<^sub>m deref (webhooks s) (webhookObjs s)"
  shows "webhooks_wf s'"
proof -
  have "deref (webhooks s') (webhookObjs s') i = Some w \<Longrightarrow> deref (webhooks s) (webhookObjs s) i = Some w" for i w
    using assms(3) unfolding map_le_def by (metis domI)
  with assms(1,2) show ?thesis unfolding webhooks_wf_def by blast
qed

lemma delete_where_le: "delete_where P m \<subseteq>\<^sub>m m"
  by (auto simp: map_le_def delete_where_def split: option.splits if_splits)

lemma DeleteProjectWebhook_webhooks_wf [wf_intros]:
  assumes "webhooks_wf s"
  shows "webhooks_wf (snd (DeleteProjectWebhook pid prov now ks s))"
proof (rule webhooks_wf_subset [OF assms])
  have o: "own_refs (webhooks s) (webhookObjs s)" using assms by (simp add: webhooks_wf_def)
  show "own_refs (webhooks (snd (DeleteProjectWebhook pid prov now ks s)))
      (webhookObjs (snd (DeleteProjectWebhook pid prov now ks s)))"
    using o by (auto simp: DeleteProjectWebhook_def own_refs_remove split: option.splits)
  show "deref (webhooks (snd (DeleteProjectWebhook pid prov now ks s)))
      (webhookObjs (snd (DeleteProjectWebhook pid prov now ks s))) \<subseteq>\<^sub>m deref (webhooks s) (webhookObjs s)"
    by (auto simp: DeleteProjectWebhook_def deref_remove map_le_def split: option.splits)
qed

text \<open>A set of a secret is an \<open>upsert\<close> of the pointer table.\<close>

lemma SetSecretEncrypted_table:
  "(secrets (snd (SetSecretEncrypted project scope key val now xid s)),
    secretObjs (snd (SetSecretEncrypted project scope key val now xid s)))
   = pointer_table.upsert (secretKey project scope key)
       (\<lambda>x. x\<lparr>secret_ValueEncrypted := val, secret_UpdatedAt := now\<rparr>)
       \<lparr>secret_ID = xid, secret_Project = project, secret_ProjectID = None, secret_Scope = scope,
        secret_Key = key, secret_ValueEncrypted = val, secret_CreatedAt = now, secret_UpdatedAt = now\<rparr>
       (secrets s, secretObjs s)"
  unfolding pointer_table.upsert_def
  by (auto simp: SetSecretEncrypted_def table_new_def table_modify_def new_obj_def
      deref_def Let_def split: option.splits Option.bind_splits)

lemma SetSecretEncrypted_deref:
  assumes "secrets_wf s" and s': "s' = snd (SetSecretEncrypted project scope key val now xid s)"
  shows "deref (secrets s') (secretObjs s') = (deref (secrets s) (secretObjs s))(secretKey project scope key \<mapsto>
      (case deref (secrets s) (secretObjs s) (secretKey project scope key) of
         None \<Rightarrow> \<lparr>secret_ID = xid, secret_Project = project, secret_ProjectID = None, secret_Scope = scope,
             secret_Key = key, secret_ValueEncrypted = val, secret_CreatedAt = now, secret_UpdatedAt = now\<rparr>
       | Some x \<Rightarrow> x\<lparr>secret_ValueEncrypted := val, secret_UpdatedAt := now\<rparr>))"
    and "own_refs (secrets s') (secretObjs s')"
proof -
  have o: "own_refs (secrets s) (secretObjs s)" using assms(1) by (simp add: secrets_wf_def)
  note t = SetSecretEncrypted_table [of project scope key val now xid s, folded s']
  show "deref (secrets s') (secretObjs s') = (deref (secrets s) (secretObjs s))(secretKey project scope key \<mapsto>
      (case deref (secrets s) (secretObjs s) (secretKey project scope key) of
         None \<Rightarrow> \<lparr>secret_ID = xid, secret_Project = project, secret_ProjectID = None, secret_Scope = scope,
             secret_Key = key, secret_ValueEncrypted = val, secret_CreatedAt = now, secret_UpdatedAt = now\<rparr>
       | Some x \<Rightarrow> x\<lparr>secret_ValueEncrypted := val, secret_UpdatedAt := now\<rparr>))"
    using pointer_table.upsert_look [of "(secrets s, secretObjs s)"] o arg_cong [OF t, of fst] arg_cong [OF t, of snd]
    by simp
  show "own_refs (secrets s') (secretObjs s')"
    using pointer_table.upsert_inv [of "(secrets s, secretObjs s)"] o arg_cong [OF t, of fst] arg_cong [OF t, of snd]
    by simp
qed

lemma SetSecretEncrypted_secrets_wf [wf_intros]:
  assumes "secrets_wf s"
  shows "secrets_wf (snd (SetSecretEncrypted project scope key val now xid s))"
  using assms SetSecretEncrypted_deref [OF assms refl, of project scope key val now xid]
  unfolding secrets_wf_def by (auto split: if_splits option.splits)

lemma secrets_wf_subset:
  assumes "secrets_wf s" and "own_refs (secrets s') (secretObjs s')"
    and "deref (secrets s') (secretObjs s') \<subseteq>\<^sub>m deref (secrets s) (secretObjs s)"
  shows "secrets_wf s'"
proof -
  have "deref (secrets s') (secretObjs s') i = Some w \<Longrightarrow> deref (secrets s) (secretObjs s) i = Some w" for i w
    using assms(3) unfolding map_le_def by (metis domI)
  with assms(1,2) show ?thesis unfolding secrets_wf_def by blast
qed

lemma DeleteSecret_secrets_wf [wf_intros]:
  "secrets_wf s \<Longrightarrow> secrets_wf (snd (DeleteSecret scope key now ks s))"
  "secrets_wf s \<Longrightarrow> secrets_wf (snd (DeleteSecretCtx project scope key now s))"
  by (auto simp: secrets_wf_def DeleteSecret_def DeleteSecretCtx_def deref_remove own_refs_remove
      split: option.splits if_splits)

lemma cascade_subtables:
  assumes "webhooks_wf s" and "secrets_wf s"
  shows "webhooks_wf (cascade_project pid name s)" and "secrets_wf (cascade_project pid name s)"
proof -
  show "webhooks_wf (cascade_project pid name s)"
    by (rule webhooks_wf_subset [OF assms(1)])
      (use assms(1) in \<open>simp_all add: cascade_project_def deref_delete_objs delete_where_le own_refs_delete_objs webhooks_wf_def\<close>)
  show "secrets_wf (cascade_project pid name s)"
    by (rule secrets_wf_subset [OF assms(2)])
      (use assms(2) in \<open>simp_all add: cascade_project_def deref_delete_objs delete_where_le own_refs_delete_objs secrets_wf_def\<close>)
qed

lemma webhooks_wf_frame:
  "webhooks_wf s \<Longrightarrow> webhooks s' = webhooks s \<Longrightarrow> webhookObjs s' = webhookObjs s \<Longrightarrow> webhooks_wf s'"
  by (simp add: webhooks_wf_def)

lemma secrets_wf_frame:
  "secrets_wf s \<Longrightarrow> secrets s' = secrets s \<Longrightarrow> secretObjs s' = secretObjs s \<Longrightarrow> secrets_wf s'"
  by (simp add: secrets_wf_def)

section \<open>Reachable states\<close>

text \<open>One call of an operation of this file. Generated identifiers are new. \<open>UpdateProjectByID\<close> is
  taken with a name that is free or the project's own: the operation does not check this (see
  \<open>UpdateProjectByID_takes_over_name\<close> below).\<close>

inductive project_step :: "MemoryStore \<Rightarrow> MemoryStore \<Rightarrow> bool" where
  create_project: "projects s (if project_ID p = '''' then xid else project_ID p) = None
    \<Longrightarrow> project_step s (snd (CreateProject p now xid s))"
| update_project: "(\<And>q. GetProjectByName (project_Name p) s = Inr q \<Longrightarrow> project_ID q = project_ID p)
    \<Longrightarrow> project_step s (snd (UpdateProjectByID p now s))"
| update_project_name: "project_step s (snd (UpdateProjectByName p now s))"
| update_health: "project_step s (snd (UpdateProjectHealthCheck pid hc ar rf now s))"
| delete_project: "project_step s (snd (DeleteProjectByID pid now s))"
| delete_project_name: "project_step s (snd (DeleteProject name now s))"
| set_webhook: "enumerates ks (webhooks s) \<Longrightarrow> webhooks s xid = None
    \<Longrightarrow> project_step s (snd (SetProjectWebhook pid prov sec en req now xid ks s))"
| delete_webhook: "project_step s (snd (DeleteProjectWebhook pid prov now ks s))"
| set_secret: "project_step s (snd (SetSecretEncrypted name scope key val now xid s))"
| delete_secret: "project_step s (snd (DeleteSecret scope key now ks s))"
| delete_secret_ctx: "project_step s (snd (DeleteSecretCtx name scope key now s))"
| create_type: "project_step s (snd (CreateProjectType pt now xid ks s))"
| update_type: "project_step s (snd (UpdateProjectTypeByName pt now ks s))"
| delete_type: "project_step s (snd (DeleteProjectType name now ks s))"

definition catalog_wf :: "MemoryStore \<Rightarrow> bool" where
  "catalog_wf s \<longleftrightarrow> projects_wf s \<and> webhooks_wf s \<and> secrets_wf s"

lemma projects_wf_other_ops [wf_intros]:
  "projects_wf s \<Longrightarrow> projects_wf (snd (SetProjectWebhook pid prov sec en req now xid ks s))"
  "projects_wf s \<Longrightarrow> projects_wf (snd (DeleteProjectWebhook pid prov now ks s))"
  "projects_wf s \<Longrightarrow> projects_wf (snd (SetSecretEncrypted name scope key val now xid s))"
  "projects_wf s \<Longrightarrow> projects_wf (snd (DeleteSecret scope key now ks s))"
  "projects_wf s \<Longrightarrow> projects_wf (snd (DeleteSecretCtx name scope key now s))"
  "projects_wf s \<Longrightarrow> projects_wf (snd (CreateProjectType pt now xid ks s))"
  "projects_wf s \<Longrightarrow> projects_wf (snd (UpdateProjectTypeByName pt now ks s))"
  "projects_wf s \<Longrightarrow> projects_wf (snd (DeleteProjectType name now ks s))"
  by (erule projects_wf_frame; simp add: SetProjectWebhook_def DeleteProjectWebhook_def
      SetSecretEncrypted_def DeleteSecret_def DeleteSecretCtx_def CreateProjectType_def
      UpdateProjectTypeByName_def DeleteProjectType_def new_obj_def Let_def split: option.splits prod.splits)+

lemma webhooks_wf_other_ops [wf_intros]:
  "webhooks_wf s \<Longrightarrow> webhooks_wf (snd (CreateProject p now xid s))"
  "webhooks_wf s \<Longrightarrow> webhooks_wf (snd (UpdateProjectByID p now s))"
  "webhooks_wf s \<Longrightarrow> webhooks_wf (snd (UpdateProjectByName p now s))"
  "webhooks_wf s \<Longrightarrow> webhooks_wf (snd (UpdateProjectHealthCheck pid hc ar rf now s))"
  "webhooks_wf s \<Longrightarrow> webhooks_wf (snd (SetSecretEncrypted name scope key val now xid s))"
  "webhooks_wf s \<Longrightarrow> webhooks_wf (snd (DeleteSecret scope key now ks s))"
  "webhooks_wf s \<Longrightarrow> webhooks_wf (snd (DeleteSecretCtx name scope key now s))"
  "webhooks_wf s \<Longrightarrow> webhooks_wf (snd (CreateProjectType pt now xid ks s))"
  "webhooks_wf s \<Longrightarrow> webhooks_wf (snd (UpdateProjectTypeByName pt now ks s))"
  "webhooks_wf s \<Longrightarrow> webhooks_wf (snd (DeleteProjectType name now ks s))"
  by (erule webhooks_wf_frame; simp add: CreateProject_def UpdateProjectByID_def UpdateProjectByName_def
      UpdateProjectHealthCheck_def SetSecretEncrypted_def DeleteSecret_def DeleteSecretCtx_def
      CreateProjectType_def UpdateProjectTypeByName_def DeleteProjectType_def new_obj_def Let_def
      split: option.splits prod.splits)+

lemma secrets_wf_other_ops [wf_intros]:
  "secrets_wf s \<Longrightarrow> secrets_wf (snd (CreateProject p now xid s))"
  "secrets_wf s \<Longrightarrow> secrets_wf (snd (UpdateProjectByID p now s))"
  "secrets_wf s \<Longrightarrow> secrets_wf (snd (UpdateProjectByName p now s))"
  "secrets_wf s \<Longrightarrow> secrets_wf (snd (UpdateProjectHealthCheck pid hc ar rf now s))"
  "secrets_wf s \<Longrightarrow> secrets_wf (snd (SetProjectWebhook pid prov sec en req now xid ks s))"
  "secrets_wf s \<Longrightarrow> secrets_wf (snd (DeleteProjectWebhook pid prov now ks s))"
  "secrets_wf s \<Longrightarrow> secrets_wf (snd (CreateProjectType pt now xid ks s))"
  "secrets_wf s \<Longrightarrow> secrets_wf (snd (UpdateProjectTypeByName pt now ks s))"
  "secrets_wf s \<Longrightarrow> secrets_wf (snd (DeleteProjectType name now ks s))"
  by (erule secrets_wf_frame; simp add: CreateProject_def UpdateProjectByID_def UpdateProjectByName_def
      UpdateProjectHealthCheck_def SetProjectWebhook_def DeleteProjectWebhook_def
      CreateProjectType_def UpdateProjectTypeByName_def DeleteProjectType_def new_obj_def Let_def
      split: option.splits prod.splits)+

lemma DeleteProject_subtables [wf_intros]:
  assumes "webhooks_wf s" and "secrets_wf s"
  shows "webhooks_wf (snd (DeleteProjectByID pid now s))" and "secrets_wf (snd (DeleteProjectByID pid now s))"
    and "webhooks_wf (snd (DeleteProject name now s))" and "secrets_wf (snd (DeleteProject name now s))"
proof -
  note c = cascade_subtables [OF assms]
  show "webhooks_wf (snd (DeleteProjectByID pid now s))" "webhooks_wf (snd (DeleteProject name now s))"
    using assms by (auto simp: DeleteProjectByID_def DeleteProject_def split: option.splits intro: webhooks_wf_frame [OF c(1)])
  show "secrets_wf (snd (DeleteProjectByID pid now s))" "secrets_wf (snd (DeleteProject name now s))"
    using assms by (auto simp: DeleteProjectByID_def DeleteProject_def split: option.splits intro: secrets_wf_frame [OF c(2)])
qed

lemma project_step_wf: "project_step s t \<Longrightarrow> catalog_wf s \<Longrightarrow> catalog_wf t"
  by (induction rule: project_step.induct)
    (auto simp: catalog_wf_def intro: wf_intros UpdateProjectByID_projects_wf)

lemma catalog_wf_new: "catalog_wf NewMemoryStore"
  by (simp add: catalog_wf_def projects_wf_def webhooks_wf_def secrets_wf_def NewMemoryStore_def)

section \<open>Properties\<close>


definition sample_project :: "string \<Rightarrow> string \<Rightarrow> Project" where
  "sample_project i nm = \<lparr>project_ID = i, project_Name = nm, project_Repository = ''r'', project_Branch = ''main'',
     project_DeployPath = ''/srv'', project_TypeID = None, project_CreatedAt = 0, project_UpdatedAt = 0,
     project_LastDeployAt = None, project_LastDeployStatus = '''', project_HealthCheckID = None,
     project_AutoRollbackEnabled = False, project_RollbackOnHealthFail = False\<rparr>"

definition sample_catalog :: MemoryStore where
  "sample_catalog =
     snd (SetSecretEncrypted ''blog'' ''prod'' ''TOKEN'' ''x'' 4 ''s1''
       (snd (CreateProject (sample_project ''p2'' ''shop'') 3 ''-''
         (snd (CreateProject (sample_project ''p1'' ''blog'') 2 ''-'' NewMemoryStore)))))"

lemmas project_eval = CreateProject_def SetSecretEncrypted_def NewMemoryStore_def new_obj_def Let_def
  sample_project_def

lemma sample_catalog_reachable: "project_step\<^sup>*\<^sup>* NewMemoryStore sample_catalog"
proof -
  let ?a = "snd (CreateProject (sample_project ''p1'' ''blog'') 2 ''-'' NewMemoryStore)"
  let ?b = "snd (CreateProject (sample_project ''p2'' ''shop'') 3 ''-'' ?a)"
  have a: "project_step NewMemoryStore ?a" by (rule create_project) (simp add: project_eval)
  have b: "project_step ?a ?b" by (rule create_project) (simp add: project_eval)
  have c: "project_step ?b sample_catalog" unfolding sample_catalog_def by (rule set_secret)
  show ?thesis
    by (rule converse_rtranclp_into_rtranclp [OF a converse_rtranclp_into_rtranclp [OF b r_into_rtranclp [of project_step, OF c]]])
qed

lemma sample_catalog_eval:
  "projects sample_catalog = [''p1'' \<mapsto> 0, ''p2'' \<mapsto> 1]"
  "projectsByName sample_catalog = [''blog'' \<mapsto> 0, ''shop'' \<mapsto> 1]"
  "projectObjs sample_catalog =
     [(sample_project ''p1'' ''blog'')\<lparr>project_CreatedAt := 2, project_UpdatedAt := 2\<rparr>,
      (sample_project ''p2'' ''shop'')\<lparr>project_CreatedAt := 3, project_UpdatedAt := 3\<rparr>]"
  "deref (secrets sample_catalog) (secretObjs sample_catalog) (secretKey ''blog'' ''prod'' ''TOKEN'') \<noteq> None"
  by (simp_all add: sample_catalog_def project_eval deref_def load_def)




text \<open>Renaming a project to a name that another project has. \<open>UpdateProjectByID\<close> accepts it (unlike
  \<open>UpdateUserByID\<close>), after which the name leads to the renamed project only; the other project still
  exists under its identifier and still carries the name, and deleting it makes the renamed project
  unreachable by name.\<close>

theorem UpdateProjectByID_takes_over_name:
  assumes "projects_wf s" and "GetProjectByName (project_Name p) s = Inr q"
    and "GetProjectByID (project_ID p) s = Inr old" and "project_ID q \<noteq> project_ID p"
    and "UpdateProjectByID p now s = (res, s')"
  shows "(\<exists>p'. res = Inr p' \<and> GetProjectByName (project_Name p) s' = Inr p' \<and> project_ID p' = project_ID p)
    \<and> GetProjectByID (project_ID q) s' = Inr q \<and> project_Name q = project_Name p
    \<and> GetProjectByName (project_Name p) (snd (DeleteProjectByID (project_ID q) later s')) = Inl ErrNotFound
    \<and> (\<exists>p'. GetProjectByID (project_ID p) (snd (DeleteProjectByID (project_ID q) later s')) = Inr p'
             \<and> project_Name p' = project_Name p)"
proof -
  have q: "deref (projectsByName s) (projectObjs s) (project_Name p) = Some q"
    and o: "deref (projects s) (projectObjs s) (project_ID p) = Some old"
    using assms(2,3) by (simp_all add: GetProjectByName_def GetProjectByID_def split: option.splits)
  have qi: "project_Name q = project_Name p" "deref (projects s) (projectObjs s) (project_ID q) = Some q"
    using project_directory.name_id [OF assms(1) q] by blast+
  let ?p = "p\<lparr>project_CreatedAt := project_CreatedAt old, project_UpdatedAt := now\<rparr>"
  have res: "res = Inr ?p" and t: "projectObjs s' = projectObjs s @ [?p]"
      "projects s' = (projects s)(project_ID p \<mapsto> length (projectObjs s))"
      "projectsByName s' (project_Name p) = Some (length (projectObjs s))"
    using assms(5) by (auto simp: UpdateProjectByID_def o new_obj_def Let_def)
  have d: "deref (projects s') (projectObjs s') (project_ID q) = Some q"
    using qi(2) assms(4) by (auto simp: t deref_Some_iff load_def nth_append split: if_splits)
  have dn: "deref (projectsByName s') (projectObjs s') (project_Name p) = Some ?p"
    and di: "deref (projects s') (projectObjs s') (project_ID p) = Some ?p"
    by (simp_all add: t deref_def load_def nth_append)
  let ?s = "snd (DeleteProjectByID (project_ID q) later s')"
  have u: "projects ?s = (projects s')(project_ID q := None)"
      "projectsByName ?s = (projectsByName s')(project_Name q := None)" "projectObjs ?s = projectObjs s'"
    by (simp_all add: DeleteProjectByID_def d cascade_project_def)
  have "GetProjectByName (project_Name p) ?s = Inl ErrNotFound" "GetProjectByID (project_ID p) ?s = Inr ?p"
    using assms(4) di by (simp_all add: GetProjectByName_def GetProjectByID_def u qi(1) deref_remove)
  with d dn res qi(1) show ?thesis by (simp add: GetProjectByName_def GetProjectByID_def)
qed

theorem UpdateProjectByID_takes_over_name_witness:
  "GetProjectByName ''shop''
     (snd (DeleteProjectByID ''p2'' 8 (snd (UpdateProjectByID (sample_project ''p1'' ''shop'') 7 sample_catalog))))
   = Inl ErrNotFound"
proof -
  let ?p = "sample_project ''p1'' ''shop''"
  have wf: "projects_wf sample_catalog"
    using rtranclp_induct [OF sample_catalog_reachable, of catalog_wf] catalog_wf_new project_step_wf
    by (auto simp: catalog_wf_def)
  have g: "GetProjectByName (project_Name ?p) sample_catalog
      = Inr ((sample_project ''p2'' ''shop'')\<lparr>project_CreatedAt := 3, project_UpdatedAt := 3\<rparr>)"
    and i: "GetProjectByID (project_ID ?p) sample_catalog
      = Inr ((sample_project ''p1'' ''blog'')\<lparr>project_CreatedAt := 2, project_UpdatedAt := 2\<rparr>)"
    by (simp_all add: GetProjectByName_def GetProjectByID_def sample_catalog_eval deref_def load_def sample_project_def)
  have ne: "project_ID ((sample_project ''p2'' ''shop'')\<lparr>project_CreatedAt := 3, project_UpdatedAt := 3\<rparr>) \<noteq> project_ID ?p"
    by (simp add: sample_project_def)
  have "UpdateProjectByID ?p 7 sample_catalog
      = (fst (UpdateProjectByID ?p 7 sample_catalog), snd (UpdateProjectByID ?p 7 sample_catalog))" by simp
  from UpdateProjectByID_takes_over_name [OF wf g i ne this, of 8] show ?thesis
    by (simp add: sample_project_def)
qed

text \<open>Storing a secret and reading it back. When project and scope contain no colon, the value is
  what was last stored, an update keeps the identifier and the creation time of the secret, and the
  secrets under every other project, scope and key are unchanged.\<close>

theorem SetSecretEncrypted_GetSecret:
  assumes "secrets_wf s" and "CHR '':'' \<notin> set project" and "CHR '':'' \<notin> set scope"
    and "s' = snd (SetSecretEncrypted project scope key val now xid s)"
  shows "(\<exists>x. GetSecret project scope key s' = Inr x \<and> secret_ValueEncrypted x = val \<and> secret_UpdatedAt x = now
        \<and> (case GetSecret project scope key s of
             Inl _ \<Rightarrow> secret_ID x = xid \<and> secret_CreatedAt x = now
           | Inr y \<Rightarrow> secret_ID x = secret_ID y \<and> secret_CreatedAt x = secret_CreatedAt y))
    \<and> (\<forall>project2 scope2 key2. CHR '':'' \<notin> set project2 \<longrightarrow> CHR '':'' \<notin> set scope2
         \<longrightarrow> (project2, scope2, key2) \<noteq> (project, scope, key)
         \<longrightarrow> GetSecret project2 scope2 key2 s' = GetSecret project2 scope2 key2 s)"
proof -
  note d = SetSecretEncrypted_deref(1) [OF assms(1,4)]
  have "secretKey project2 scope2 key2 \<noteq> secretKey project scope key"
    if "CHR '':'' \<notin> set project2" "CHR '':'' \<notin> set scope2" "(project2, scope2, key2) \<noteq> (project, scope, key)"
    for project2 scope2 key2
  proof
    assume "secretKey project2 scope2 key2 = secretKey project scope key"
    then have "project2 @ CHR '':'' # (scope2 @ CHR '':'' # key2) = project @ CHR '':'' # (scope @ CHR '':'' # key)"
      by (simp add: secretKey_def)
    with that(1) assms(2) have 1: "project2 = project" "scope2 @ CHR '':'' # key2 = scope @ CHR '':'' # key"
      by (blast dest: colon_split_unique)+
    with that(2) assms(3) have "scope2 = scope" "key2 = key" by (blast dest: colon_split_unique)+
    with 1 that(3) show False by simp
  qed
  then show ?thesis by (auto simp: GetSecret_def d split: option.splits)
qed

theorem SetSecretEncrypted_GetSecret_witness:
  "\<exists>x. GetSecret ''blog'' ''prod'' ''TOKEN'' (snd (SetSecretEncrypted ''blog'' ''prod'' ''TOKEN'' ''y'' 8 ''s2'' sample_catalog)) = Inr x
     \<and> secret_ValueEncrypted x = ''y''"
proof -
  have "secrets_wf sample_catalog"
    using rtranclp_induct [OF sample_catalog_reachable, of catalog_wf] catalog_wf_new project_step_wf
    by (auto simp: catalog_wf_def)
  from SetSecretEncrypted_GetSecret [OF this _ _ refl, of "''blog''" "''prod''" "''TOKEN''" "''y''" 8 "''s2''"]
  show ?thesis by auto
qed

text \<open>Setting a webhook twice for the same project and provider keeps one webhook: whatever the order
  in which the table is searched, a lookup finds the values just set, and the webhooks of every other
  project and provider are found as before.\<close>

theorem SetProjectWebhook_GetProjectWebhook:
  assumes "webhooks_wf s" and "enumerates ks (webhooks s)" and "webhooks s xid = None"
    and "s' = snd (SetProjectWebhook pid prov sec en req now xid ks s)" and "enumerates ks' (webhooks s')"
  shows "(\<exists>w. GetProjectWebhook pid prov ks' s' = Inr w \<and> webhook_SecretEncrypted w = sec \<and> webhook_Enabled w = en
        \<and> webhook_RequireSecret w = req \<and> webhook_UpdatedAt w = now)
    \<and> (\<forall>pid2 prov2 w. (pid2, prov2) \<noteq> (pid, prov) \<longrightarrow> GetProjectWebhook pid2 prov2 ks s = Inr w
         \<longrightarrow> GetProjectWebhook pid2 prov2 ks' s' = Inr w)"
proof -
  obtain i w where d: "deref (webhooks s') (webhookObjs s') = (deref (webhooks s) (webhookObjs s))(i \<mapsto> w)"
    and w: "webhook_ProjectID w = pid" "webhook_Provider w = prov" "webhook_SecretEncrypted w = sec"
      "webhook_Enabled w = en" "webhook_RequireSecret w = req" "webhook_UpdatedAt w = now"
    and old: "\<forall>v. deref (webhooks s) (webhookObjs s) i = Some v \<longrightarrow> webhook_ProjectID v = pid \<and> webhook_Provider v = prov"
    using SetProjectWebhook_keeps_pair [OF assms(1-4)] by blast
  have wf': "webhooks_wf s'" using SetProjectWebhook_webhooks_wf [OF assms(1-3)] by (simp add: assms(4))
  have look: "GetProjectWebhook (webhook_ProjectID v) (webhook_Provider v) ks' s' = Inr v"
    if v: "deref (webhooks s') (webhookObjs s') j = Some v" for j v
  proof -
    from v obtain r where "webhooks s' j = Some r" "load (webhookObjs s') r = Some v" by (auto simp: deref_Some_iff)
    from find_webhook_unique [OF wf' assms(5) this] show ?thesis by (simp add: GetProjectWebhook_def)
  qed
  have "GetProjectWebhook pid2 prov2 ks' s' = Inr v"
    if a: "(pid2, prov2) \<noteq> (pid, prov)" "GetProjectWebhook pid2 prov2 ks s = Inr v" for pid2 prov2 v
  proof -
    from a(2) obtain j r where "find_webhook pid2 prov2 ks s = Some (j, r, v)"
      by (auto simp: GetProjectWebhook_def split: option.splits)
    then have f: "webhooks s j = Some r" "load (webhookObjs s) r = Some v" "webhook_ProjectID v = pid2" "webhook_Provider v = prov2"
      by (auto simp: find_webhook_def dest: find_obj_Some)
    then have "deref (webhooks s) (webhookObjs s) j = Some v" by (simp add: deref_def)
    with a(1) f old d have "deref (webhooks s') (webhookObjs s') j = Some v" by auto
    from look [OF this] f show ?thesis by simp
  qed
  with look [of i w] d w show ?thesis by auto
qed

theorem SetProjectWebhook_GetProjectWebhook_witness:
  "\<exists>w. GetProjectWebhook ''p1'' ''github'' [''w1'']
        (snd (SetProjectWebhook ''p1'' ''github'' ''k'' True False 5 ''w1'' [] sample_catalog)) = Inr w
     \<and> webhook_SecretEncrypted w = ''k''"
proof -
  have e: "webhooks sample_catalog = Map.empty" "webhookObjs sample_catalog = []"
    by (simp_all add: sample_catalog_def project_eval)
  then have wf: "webhooks_wf sample_catalog" and ks: "enumerates [] (webhooks sample_catalog)"
      and new: "webhooks sample_catalog ''w1'' = None"
    by (simp_all add: webhooks_wf_def enumerates_def)
  have "enumerates [''w1''] (webhooks (snd (SetProjectWebhook ''p1'' ''github'' ''k'' True False 5 ''w1'' [] sample_catalog)))"
    by (simp add: SetProjectWebhook_def find_webhook_def find_obj_def ref_range_def e new_obj_def
        map_filter_simps enumerates_def Let_def)
  from SetProjectWebhook_GetProjectWebhook [OF wf ks new refl this] show ?thesis by blast
qed

end
