(* ===== verification/Loop_Sort.thy ===== *)
theory Loop_Sort
  imports Prelude "HOL-Library.Multiset"
begin

text \<open>
  The selection-by-exchange sort that the store writes out as a double loop wherever it returns a
  list in time order (\<open>ListDeploymentsRecent\<close>, \<open>ListDeploymentsPaginated\<close>,
  \<open>ListDeploymentRollbacks\<close>, \<open>ListBlockedIPs\<close>, \<open>ListAuditLogsSince\<close>):

  \<^verbatim>\<open>
  for i := 0; i < len(all)-1; i++ {
      for j := i + 1; j < len(all); j++ {
          if all[j] comes before all[i] { all[i], all[j] = all[j], all[i] }
      }
  }
  \<close>

  The loops are functions over the array; the locale gives what the comparison must satisfy.
\<close>

definition swap_elems :: "'a list \<Rightarrow> nat \<Rightarrow> nat \<Rightarrow> 'a list" where
  "swap_elems xs i j = xs[i := xs ! j, j := xs ! i]"

lemma length_swap_elems [simp]: "length (swap_elems xs i j) = length xs"
  by (simp add: swap_elems_def)

function exchange_inner :: "('a \<Rightarrow> 'a \<Rightarrow> bool) \<Rightarrow> nat \<Rightarrow> nat \<Rightarrow> 'a list \<Rightarrow> 'a list" where
  "exchange_inner before i j xs =
     (if j < length xs
      then exchange_inner before i (Suc j)
             (if before (xs ! j) (xs ! i) then swap_elems xs i j else xs)
      else xs)"
  by pat_completeness auto
termination
  by (relation "measure (\<lambda>(before, i, j, xs). length xs - j)") auto

declare exchange_inner.simps [simp del]

lemma length_exchange_inner [simp]: "length (exchange_inner before i j xs) = length xs"
  by (induction before i j xs rule: exchange_inner.induct)
    (subst exchange_inner.simps, auto)

function exchange_outer :: "('a \<Rightarrow> 'a \<Rightarrow> bool) \<Rightarrow> nat \<Rightarrow> 'a list \<Rightarrow> 'a list" where
  "exchange_outer before i xs =
     (if i + 1 < length xs
      then exchange_outer before (Suc i) (exchange_inner before i (Suc i) xs)
      else xs)"
  by pat_completeness auto
termination
  by (relation "measure (\<lambda>(before, i, xs). length xs - i)") auto

declare exchange_outer.simps [simp del]

definition exchange_sort :: "('a \<Rightarrow> 'a \<Rightarrow> bool) \<Rightarrow> 'a list \<Rightarrow> 'a list" where
  "exchange_sort before xs = exchange_outer before 0 xs"

section \<open>The result is a permutation\<close>

lemma mset_swap_elems: "i < length xs \<Longrightarrow> j < length xs \<Longrightarrow> mset (swap_elems xs i j) = mset xs"
  by (simp add: swap_elems_def mset_swap)

lemma mset_exchange_inner: "i < length xs \<Longrightarrow> mset (exchange_inner before i j xs) = mset xs"
proof (induction before i j xs rule: exchange_inner.induct)
  case (1 before i j xs)
  then show ?case
    by (subst exchange_inner.simps) (auto simp: mset_swap_elems)
qed

lemma mset_exchange_outer: "mset (exchange_outer before i xs) = mset xs"
proof (induction before i xs rule: exchange_outer.induct)
  case (1 before i xs)
  then show ?case
    by (subst exchange_outer.simps) (auto simp: mset_exchange_inner)
qed

lemma mset_exchange_sort [simp]: "mset (exchange_sort before xs) = mset xs"
  by (simp add: exchange_sort_def mset_exchange_outer)

lemma set_exchange_sort [simp]: "set (exchange_sort before xs) = set xs"
  by (rule mset_eq_setD) simp

lemma length_exchange_sort [simp]: "length (exchange_sort before xs) = length xs"
  by (rule mset_eq_length) simp

section \<open>Elements below the loop index are untouched\<close>

lemma nth_swap_elems_other: "k \<noteq> i \<Longrightarrow> k \<noteq> j \<Longrightarrow> swap_elems xs i j ! k = xs ! k"
  by (simp add: swap_elems_def)

lemma exchange_inner_below: "k < i \<Longrightarrow> i < j \<Longrightarrow> exchange_inner before i j xs ! k = xs ! k"
proof (induction before i j xs rule: exchange_inner.induct)
  case (1 before i j xs)
  then show ?case
    by (subst exchange_inner.simps) (auto simp: nth_swap_elems_other)
qed

lemma take_exchange_inner: "i < j \<Longrightarrow> take i (exchange_inner before i j xs) = take i xs"
  by (rule nth_equalityI) (auto simp: exchange_inner_below)

lemma set_drop_exchange_inner:
  assumes "i < j" and "i < length xs"
  shows "set (drop i (exchange_inner before i j xs)) = set (drop i xs)"
proof -
  let ?ys = "exchange_inner before i j xs"
  have "mset (take i ?ys) + mset (drop i ?ys) = mset (take i xs) + mset (drop i xs)"
    using mset_exchange_inner [OF assms(2), of before j]
    by (simp flip: mset_append)
  with take_exchange_inner [OF assms(1), of before xs] have "mset (drop i ?ys) = mset (drop i xs)"
    by simp
  then show ?thesis by (rule mset_eq_setD)
qed

section \<open>The result is ordered\<close>

locale comparison =
  fixes before :: "'a \<Rightarrow> 'a \<Rightarrow> bool"
  assumes before_asym: "before x y \<Longrightarrow> \<not> before y x"
    and before_trans: "before x y \<Longrightarrow> before y z \<Longrightarrow> before x z"
begin

lemma exchange_inner_minimal:
  assumes "i < j" and "i < length xs" and "\<forall>k. i < k \<and> k < j \<longrightarrow> k < length xs \<longrightarrow> \<not> before (xs ! k) (xs ! i)"
  shows "\<forall>k. i < k \<and> k < length xs \<longrightarrow>
           \<not> before (exchange_inner before i j xs ! k) (exchange_inner before i j xs ! i)"
  using assms
proof (induction "length xs - j" arbitrary: j xs)
  case 0
  then show ?case by (subst (1 2) exchange_inner.simps) auto
next
  case (Suc n)
  then have j: "j < length xs" by simp
  let ?ys = "if before (xs ! j) (xs ! i) then swap_elems xs i j else xs"
  have "\<not> before (?ys ! k) (?ys ! i)" if k: "i < k" "k < Suc j" for k
  proof (cases "before (xs ! j) (xs ! i)")
    case True
    have yi: "?ys ! i = xs ! j" and yj: "?ys ! j = xs ! i"
      using True j Suc.prems(1,2) by (simp_all add: swap_elems_def)
    show ?thesis
    proof (cases "k = j")
      case True
      with yi yj show ?thesis using before_asym \<open>before (xs ! j) (xs ! i)\<close> by simp
    next
      case False
      with k j have "?ys ! k = xs ! k" and "\<not> before (xs ! k) (xs ! i)"
        using Suc.prems(3) by (auto simp: nth_swap_elems_other)
      with yi True show ?thesis using before_trans by metis
    qed
  next
    case False
    with k j Suc.prems(3) show ?thesis by (cases "k = j") auto
  qed
  then have "\<forall>k. i < k \<and> k < length ?ys \<longrightarrow>
      \<not> before (exchange_inner before i (Suc j) ?ys ! k) (exchange_inner before i (Suc j) ?ys ! i)"
    using Suc.hyps(2) Suc.prems(1,2) by (intro Suc.hyps(1)) auto
  moreover have "exchange_inner before i j xs = exchange_inner before i (Suc j) ?ys"
    using j by (subst exchange_inner.simps) simp
  ultimately show ?case by (auto split: if_splits)
qed

definition prefix_done :: "nat \<Rightarrow> 'a list \<Rightarrow> bool" where
  "prefix_done i xs \<longleftrightarrow>
     (\<forall>a b. a < i \<and> a < b \<and> b < length xs \<longrightarrow> \<not> before (xs ! b) (xs ! a))"

lemma prefix_done_step:
  assumes pre: "prefix_done i xs" and i: "Suc i < length xs"
  shows "prefix_done (Suc i) (exchange_inner before i (Suc i) xs)"
  unfolding prefix_done_def
proof (intro allI impI)
  fix a b
  let ?ys = "exchange_inner before i (Suc i) xs"
  assume ab: "a < Suc i \<and> a < b \<and> b < length ?ys"
  show "\<not> before (?ys ! b) (?ys ! a)"
  proof (cases "a = i")
    case True
    have "\<forall>k. i < k \<and> k < length xs \<longrightarrow> \<not> before (?ys ! k) (?ys ! i)"
      using i by (intro exchange_inner_minimal) auto
    with ab True show ?thesis by simp
  next
    case False
    with ab have a: "a < i" and ya: "?ys ! a = xs ! a" by (auto simp: exchange_inner_below)
    show ?thesis
    proof (cases "b < i")
      case True
      with ab a ya pre show ?thesis
        by (auto simp: exchange_inner_below prefix_done_def)
    next
      case False
      then have "?ys ! b = drop i ?ys ! (b - i)" and "b - i < length (drop i ?ys)"
        using ab by auto
      then have "?ys ! b \<in> set (drop i ?ys)"
        by (metis nth_mem)
      then have "?ys ! b \<in> set (drop i xs)"
        using set_drop_exchange_inner [of i "Suc i" xs before] i by simp
      then obtain c where "c < length xs - i" and "?ys ! b = xs ! (i + c)"
        by (auto simp: in_set_conv_nth)
      with a ya pre show ?thesis by (auto simp: prefix_done_def)
    qed
  qed
qed

lemma prefix_done_outer:
  "prefix_done i xs \<Longrightarrow> \<exists>k. length xs \<le> Suc k \<and> prefix_done k (exchange_outer before i xs)"
proof (induction "length xs - i" arbitrary: i xs)
  case 0
  then show ?case by (subst exchange_outer.simps) (auto intro: exI [of _ i])
next
  case (Suc n)
  show ?case
  proof (cases "Suc i < length xs")
    case True
    let ?ys = "exchange_inner before i (Suc i) xs"
    have "\<exists>k. length ?ys \<le> Suc k \<and> prefix_done k (exchange_outer before (Suc i) ?ys)"
      using Suc.hyps(2) prefix_done_step [OF Suc.prems True] by (intro Suc.hyps(1)) auto
    with True show ?thesis by (subst exchange_outer.simps) simp
  next
    case False
    with Suc.prems show ?thesis by (subst exchange_outer.simps) (auto intro: exI [of _ i])
  qed
qed

lemma exchange_sort_sorted: "sorted_wrt (\<lambda>x y. \<not> before y x) (exchange_sort before xs)"
proof -
  have "prefix_done 0 xs" by (simp add: prefix_done_def)
  then obtain k where k: "length xs \<le> Suc k" and d: "prefix_done k (exchange_sort before xs)"
    using prefix_done_outer unfolding exchange_sort_def by blast
  show ?thesis
    unfolding sorted_wrt_iff_nth_less
  proof (intro allI impI)
    fix a b
    assume "a < b" and b: "b < length (exchange_sort before xs)"
    with k have "a < k" by simp
    with \<open>a < b\<close> b d show "\<not> before (exchange_sort before xs ! b) (exchange_sort before xs ! a)"
      by (simp add: prefix_done_def)
  qed
qed

end

text \<open>The comparisons the code uses: newest first and oldest first on a timestamp field.\<close>

definition newer :: "('a \<Rightarrow> time) \<Rightarrow> 'a \<Rightarrow> 'a \<Rightarrow> bool" where
  "newer stamp x y \<longleftrightarrow> stamp x > stamp y"

definition older :: "('a \<Rightarrow> time) \<Rightarrow> 'a \<Rightarrow> 'a \<Rightarrow> bool" where
  "older stamp x y \<longleftrightarrow> stamp x < stamp y"

interpretation newest_first: comparison "newer stamp" for stamp :: "'a \<Rightarrow> time"
  by unfold_locales (auto simp: newer_def)

interpretation oldest_first: comparison "older stamp" for stamp :: "'a \<Rightarrow> time"
  by unfold_locales (auto simp: older_def)

lemma exchange_sort_newest_first:
  "sorted_wrt (\<lambda>x y. stamp x \<ge> stamp y) (exchange_sort (newer stamp) xs)"
  using newest_first.exchange_sort_sorted [of stamp xs]
  by (simp add: newer_def not_less)

lemma exchange_sort_oldest_first:
  "sorted_wrt (\<lambda>x y. stamp x \<le> stamp y) (exchange_sort (older stamp) xs)"
  using oldest_first.exchange_sort_sorted [of stamp xs]
  by (simp add: older_def not_less)

end
