(* ===== verification/Mem_Deployments.thy ===== *)
theory Mem_Deployments
  imports Store_Model Ref_Table Pagination Loop_Sort
begin

text \<open>
  \<open>internal/storage/memory_deployments.go\<close>: deployment records, their logs, rollbacks and scheduled
  deployments. Listings gather a map in the order \<open>ks\<close> and sort it with the exchange loops of
  \<open>Loop_Sort\<close>. A logs list is stored by value: the code never changes a stored log line.
\<close>

section \<open>Deployment records\<close>

definition CreateDeployment ::
  "DeploymentRecord \<Rightarrow> time \<Rightarrow> MemoryStore \<Rightarrow> DeploymentRecord result \<times> MemoryStore" where
  "CreateDeployment d now s =
     (if deployments s (dep_ID d) \<noteq> None then (Inl ErrDuplicate, s)
      else
        (let d = (if IsZero (dep_StartedAt d) then d\<lparr>dep_StartedAt := now\<rparr> else d);
             d = (if dep_Status d = '''' then d\<lparr>dep_Status := ''pending''\<rparr> else d);
             (stored, objs) = new_obj d (deploymentObjs s)
         in (Inr d,
             s\<lparr>deploymentObjs := objs,
               deployments := (deployments s)(dep_ID d \<mapsto> stored),
               deploymentsWrites := queueWrite (deploymentsWrites s)
                 (NewWriteOp WriteOpInsert ''deployments'' (DeploymentPtr stored) now)\<rparr>)))"

definition GetDeployment :: "string \<Rightarrow> MemoryStore \<Rightarrow> DeploymentRecord result" where
  "GetDeployment i s =
     (case deref (deployments s) (deploymentObjs s) i of None \<Rightarrow> Inl ErrNotFound | Some d \<Rightarrow> Inr d)"

definition UpdateDeployment :: "DeploymentRecord \<Rightarrow> time \<Rightarrow> MemoryStore \<Rightarrow> unit result \<times> MemoryStore" where
  "UpdateDeployment d now s =
     (case Option.bind (deployments s (dep_ID d)) (\<lambda>r. map_option (Pair r) (load (deploymentObjs s) r)) of
        None \<Rightarrow> (Inl ErrNotFound, s)
      | Some (r, existing) \<Rightarrow>
          (Inr (),
           s\<lparr>deploymentObjs := assign (deploymentObjs s) r
               (existing\<lparr>dep_Status := dep_Status d, dep_CompletedAt := dep_CompletedAt d,
                         dep_ErrorMessage := dep_ErrorMessage d, dep_CommitHash := dep_CommitHash d,
                         dep_ReleaseNumber := dep_ReleaseNumber d\<rparr>),
             deploymentsWrites := queueWrite (deploymentsWrites s)
               (NewWriteOp WriteOpUpdate ''deployments'' (DeploymentPtr r) now)\<rparr>))"

text \<open>Collect all deployments, then sort by \<open>StartedAt\<close> descending.\<close>

definition deployments_newest_first :: "string list \<Rightarrow> MemoryStore \<Rightarrow> DeploymentRecord list" where
  "deployments_newest_first ks s =
     exchange_sort (newer dep_StartedAt) (range_objs ks (deployments s) (deploymentObjs s))"

definition ListDeploymentsRecent :: "int \<Rightarrow> string list \<Rightarrow> MemoryStore \<Rightarrow> DeploymentRecord list" where
  "ListDeploymentsRecent limit ks s = take_limit limit (deployments_newest_first ks s)"

definition count_by :: "('a \<Rightarrow> 'k) \<Rightarrow> 'a list \<Rightarrow> ('k \<rightharpoonup> int)" where
  "count_by f xs = fold (\<lambda>x counts. counts(f x \<mapsto> (case counts (f x) of None \<Rightarrow> 0 | Some n \<Rightarrow> n) + 1)) xs Map.empty"

definition CountDeploymentsByStatus :: "string list \<Rightarrow> MemoryStore \<Rightarrow> (string \<rightharpoonup> int)" where
  "CountDeploymentsByStatus ks s = count_by dep_Status (range_objs ks (deployments s) (deploymentObjs s))"

definition ListDeploymentsPaginated ::
  "int \<Rightarrow> int \<Rightarrow> string list \<Rightarrow> MemoryStore \<Rightarrow> DeploymentRecord list option" where
  "ListDeploymentsPaginated limit offset ks s = page_limit (deployments_newest_first ks s) limit offset"

definition CountDeployments :: "MemoryStore \<Rightarrow> int" where
  "CountDeployments s = int (card (dom (deployments s)))"

section \<open>Deployment logs\<close>

definition logs_of :: "string \<Rightarrow> MemoryStore \<Rightarrow> DeploymentLog list" where
  "logs_of i s = (case deploymentLogs s i of None \<Rightarrow> [] | Some ls \<Rightarrow> ls)"

definition CreateDeploymentLog ::
  "DeploymentLog \<Rightarrow> time \<Rightarrow> string \<Rightarrow> MemoryStore \<Rightarrow> DeploymentLog result \<times> MemoryStore" where
  "CreateDeploymentLog log now xid s =
     (let log = (if dlog_ID log = '''' then log\<lparr>dlog_ID := xid\<rparr> else log);
          log = (if IsZero (dlog_CreatedAt log) then log\<lparr>dlog_CreatedAt := now\<rparr> else log)
      in (Inr log,
          s\<lparr>deploymentLogs := (deploymentLogs s)(dlog_DeploymentID log \<mapsto> logs_of (dlog_DeploymentID log) s @ [log]),
            deploymentsWrites := queueWrite (deploymentsWrites s)
              (NewWriteOp WriteOpInsert ''deployment_logs'' (DeploymentLogPtr log) now)\<rparr>))"

definition ListDeploymentLogs :: "string \<Rightarrow> MemoryStore \<Rightarrow> DeploymentLog list" where
  "ListDeploymentLogs deploymentID s = logs_of deploymentID s"

text \<open>Go compares strings bytewise.\<close>

fun str_less :: "string \<Rightarrow> string \<Rightarrow> bool" where
  "str_less _ [] = False"
| "str_less [] (_ # _) = True"
| "str_less (a # as) (b # bs) =
     (if a = b then str_less as bs else (of_char a :: nat) < of_char b)"

definition ListDeploymentLogsAfter :: "string \<Rightarrow> string \<Rightarrow> MemoryStore \<Rightarrow> DeploymentLog list" where
  "ListDeploymentLogsAfter deploymentID afterID s =
     filter (\<lambda>l. str_less afterID (dlog_ID l)) (logs_of deploymentID s)"

definition ListDeploymentLogsPaginated ::
  "string \<Rightarrow> int \<Rightarrow> int \<Rightarrow> MemoryStore \<Rightarrow> DeploymentLog list option" where
  "ListDeploymentLogsPaginated deploymentID limit offset s =
     (case deploymentLogs s deploymentID of
        None \<Rightarrow> Some []
      | Some logs \<Rightarrow> page_limit logs limit offset)"

definition CountDeploymentLogs :: "string \<Rightarrow> MemoryStore \<Rightarrow> int" where
  "CountDeploymentLogs deploymentID s = int (length (logs_of deploymentID s))"

section \<open>Rollbacks\<close>

definition CreateDeploymentRollback ::
  "DeploymentRollback \<Rightarrow> time \<Rightarrow> string \<Rightarrow> MemoryStore \<Rightarrow> DeploymentRollback result \<times> MemoryStore" where
  "CreateDeploymentRollback rollback now xid s =
     (let rollback = (if rb_ID rollback = '''' then rollback\<lparr>rb_ID := xid\<rparr> else rollback);
          rollback = (if IsZero (rb_StartedAt rollback) then rollback\<lparr>rb_StartedAt := now\<rparr> else rollback);
          rollback = (if rb_Status rollback = '''' then rollback\<lparr>rb_Status := ''pending''\<rparr> else rollback);
          (stored, objs) = new_obj rollback (rollbackObjs s)
      in (Inr rollback,
          s\<lparr>rollbackObjs := objs,
            deploymentRollbacks := (deploymentRollbacks s)(rb_ID rollback \<mapsto> stored),
            deploymentsWrites := queueWrite (deploymentsWrites s)
              (NewWriteOp WriteOpInsert ''deployment_rollbacks'' (RollbackPtr stored) now)\<rparr>))"

definition GetDeploymentRollback :: "string \<Rightarrow> MemoryStore \<Rightarrow> DeploymentRollback result" where
  "GetDeploymentRollback i s =
     (case deref (deploymentRollbacks s) (rollbackObjs s) i of None \<Rightarrow> Inl ErrNotFound | Some r \<Rightarrow> Inr r)"

definition UpdateDeploymentRollback ::
  "DeploymentRollback \<Rightarrow> time \<Rightarrow> MemoryStore \<Rightarrow> unit result \<times> MemoryStore" where
  "UpdateDeploymentRollback rollback now s =
     (case Option.bind (deploymentRollbacks s (rb_ID rollback))
             (\<lambda>r. map_option (Pair r) (load (rollbackObjs s) r)) of
        None \<Rightarrow> (Inl ErrNotFound, s)
      | Some (r, existing) \<Rightarrow>
          (Inr (),
           s\<lparr>rollbackObjs := assign (rollbackObjs s) r
               (existing\<lparr>rb_Status := rb_Status rollback, rb_ErrorMessage := rb_ErrorMessage rollback,
                         rb_CompletedAt := rb_CompletedAt rollback,
                         rb_HealthCheckError := rb_HealthCheckError rollback\<rparr>),
             deploymentsWrites := queueWrite (deploymentsWrites s)
               (NewWriteOp WriteOpUpdate ''deployment_rollbacks'' (RollbackPtr r) now)\<rparr>))"

definition ListDeploymentRollbacks ::
  "string \<Rightarrow> int \<Rightarrow> int \<Rightarrow> string list \<Rightarrow> MemoryStore \<Rightarrow> (DeploymentRollback list \<times> int) option" where
  "ListDeploymentRollbacks projectName limit offset ks s =
     (let all = exchange_sort (newer rb_StartedAt)
            (filter (\<lambda>r. rb_ProjectName r = projectName) (range_objs ks (deploymentRollbacks s) (rollbackObjs s)))
      in map_option (\<lambda>page. (page, int (length all))) (page_end all limit offset))"

text \<open>The loop keeps the first object with the greatest start time.\<close>

definition later_rollback :: "DeploymentRollback \<Rightarrow> DeploymentRollback option \<Rightarrow> DeploymentRollback option" where
  "later_rollback r latest =
     (case latest of
        None \<Rightarrow> Some r
      | Some l \<Rightarrow> if rb_StartedAt r > rb_StartedAt l then Some r else Some l)"

definition GetLatestRollbackForDeployment ::
  "string \<Rightarrow> string list \<Rightarrow> MemoryStore \<Rightarrow> DeploymentRollback result" where
  "GetLatestRollbackForDeployment deploymentID ks s =
     (case fold (\<lambda>r latest. if rb_DeploymentID r = deploymentID then later_rollback r latest else latest)
             (range_objs ks (deploymentRollbacks s) (rollbackObjs s)) None of
        None \<Rightarrow> Inl ErrNotFound | Some latest \<Rightarrow> Inr latest)"

section \<open>Scheduled deployments\<close>

definition CreateScheduledDeployment ::
  "string \<Rightarrow> string \<Rightarrow> string \<Rightarrow> string \<Rightarrow> time \<Rightarrow> string \<Rightarrow> time \<Rightarrow> MemoryStore \<Rightarrow> unit result \<times> MemoryStore" where
  "CreateScheduledDeployment i project target branch scheduledAt scheduledBy now s =
     (if scheduledDeploys s i \<noteq> None then (Inl ErrDuplicate, s)
      else
        (let scheduled = \<lparr>sched_ID = i, sched_Project = project, sched_Target = target, sched_Branch = branch,
                          sched_ScheduledAt = scheduledAt, sched_ScheduledBy = scheduledBy,
                          sched_Status = ''pending''\<rparr>;
             (r, objs) = new_obj scheduled (scheduledObjs s)
         in (Inr (),
             s\<lparr>scheduledObjs := objs,
               scheduledDeploys := (scheduledDeploys s)(i \<mapsto> r),
               deploymentsWrites := queueWrite (deploymentsWrites s)
                 (NewWriteOp WriteOpInsert ''scheduled_deployments'' (ScheduledPtr r) now)\<rparr>)))"

definition ListPendingScheduledDeployments ::
  "time \<Rightarrow> string list \<Rightarrow> MemoryStore \<Rightarrow> ScheduledDeployment list" where
  "ListPendingScheduledDeployments now ks s =
     filter (\<lambda>sd. sched_Status sd = ''pending'' \<and> sched_ScheduledAt sd < now)
       (range_objs ks (scheduledDeploys s) (scheduledObjs s))"

definition CancelScheduledDeployment :: "string \<Rightarrow> time \<Rightarrow> MemoryStore \<Rightarrow> unit result \<times> MemoryStore" where
  "CancelScheduledDeployment i now s =
     (case Option.bind (scheduledDeploys s i) (\<lambda>r. map_option (Pair r) (load (scheduledObjs s) r)) of
        None \<Rightarrow> (Inl ErrNotFound, s)
      | Some (r, sd) \<Rightarrow>
          (Inr (),
           s\<lparr>scheduledObjs := assign (scheduledObjs s) r (sd\<lparr>sched_Status := ''cancelled''\<rparr>),
             deploymentsWrites := queueWrite (deploymentsWrites s)
               (NewWriteOp WriteOpUpdate ''scheduled_deployments'' (ScheduledPtr r) now)\<rparr>))"

section \<open>Invariants\<close>

definition deployments_wf :: "MemoryStore \<Rightarrow> bool" where
  "deployments_wf s \<longleftrightarrow>
     own_refs (deployments s) (deploymentObjs s) \<and>
     keyed_by dep_ID (deref (deployments s) (deploymentObjs s)) \<and>
     own_refs (deploymentRollbacks s) (rollbackObjs s) \<and> own_refs (scheduledDeploys s) (scheduledObjs s)"

lemma UpdateDeployment_deref:
  assumes "own_refs (deployments s) (deploymentObjs s)"
    and "deref (deployments s) (deploymentObjs s) (dep_ID d) = Some e"
  shows "deref (deployments (snd (UpdateDeployment d now s))) (deploymentObjs (snd (UpdateDeployment d now s)))
    = (deref (deployments s) (deploymentObjs s))(dep_ID d \<mapsto>
        e\<lparr>dep_Status := dep_Status d, dep_CompletedAt := dep_CompletedAt d, dep_ErrorMessage := dep_ErrorMessage d,
          dep_CommitHash := dep_CommitHash d, dep_ReleaseNumber := dep_ReleaseNumber d\<rparr>)"
proof -
  obtain r where r: "deployments s (dep_ID d) = Some r" "load (deploymentObjs s) r = Some e"
    using assms(2) by (auto simp: deref_Some_iff)
  with deref_assign [OF assms(1) r(1)] show ?thesis by (simp add: UpdateDeployment_def)
qed

text \<open>One call of an operation of this file.\<close>

inductive deployment_step :: "MemoryStore \<Rightarrow> MemoryStore \<Rightarrow> bool" where
  create_deployment: "deployment_step s (snd (CreateDeployment d now s))"
| update_deployment: "deployment_step s (snd (UpdateDeployment d now s))"
| create_log: "deployment_step s (snd (CreateDeploymentLog log now xid s))"
| create_rollback: "deployment_step s (snd (CreateDeploymentRollback rb now xid s))"
| update_rollback: "deployment_step s (snd (UpdateDeploymentRollback rb now s))"
| create_scheduled: "deployment_step s (snd (CreateScheduledDeployment i p t b at by now s))"
| cancel_scheduled: "deployment_step s (snd (CancelScheduledDeployment i now s))"

lemma CreateDeployment_ok:
  assumes "deployments s (dep_ID d) = None"
  shows "\<exists>e. dep_ID e = dep_ID d \<and> dep_StartedAt e = (if IsZero (dep_StartedAt d) then now else dep_StartedAt d)
      \<and> dep_Status e = (if dep_Status d = [] then ''pending'' else dep_Status d) \<and> dep_Project e = dep_Project d
      \<and> CreateDeployment d now s = (Inr e, s\<lparr>deploymentObjs := deploymentObjs s @ [e],
            deployments := (deployments s)(dep_ID d \<mapsto> length (deploymentObjs s)),
            deploymentsWrites := deploymentsWrites s @
              [NewWriteOp WriteOpInsert ''deployments'' (DeploymentPtr (length (deploymentObjs s))) now]\<rparr>)"
  using assms by (simp add: CreateDeployment_def new_obj_def queueWrite_def Let_def)

lemma CreateDeployment_wf [wf_intros]:
  assumes wf: "deployments_wf s"
  shows "deployments_wf (snd (CreateDeployment d now s))"
proof (cases "deployments s (dep_ID d)")
  case None
  have o: "own_refs (deployments s) (deploymentObjs s)" using wf by (simp add: deployments_wf_def)
  from CreateDeployment_ok [OF None, of now] obtain e where e: "dep_ID e = dep_ID d"
    and s': "snd (CreateDeployment d now s) = s\<lparr>deploymentObjs := deploymentObjs s @ [e],
            deployments := (deployments s)(dep_ID d \<mapsto> length (deploymentObjs s)),
            deploymentsWrites := deploymentsWrites s @
              [NewWriteOp WriteOpInsert ''deployments'' (DeploymentPtr (length (deploymentObjs s))) now]\<rparr>"
    by force
  have "keyed_by dep_ID ((deref (deployments s) (deploymentObjs s))(dep_ID d \<mapsto> e))"
    using wf e by (intro keyed_by_upd) (simp_all add: deployments_wf_def)
  with wf show ?thesis
    unfolding s' deployments_wf_def by (simp add: deref_new [OF o] own_refs_new [OF o])
next
  case Some
  with wf show ?thesis by (simp add: CreateDeployment_def)
qed

lemma UpdateDeployment_wf [wf_intros]:
  assumes wf: "deployments_wf s"
  shows "deployments_wf (snd (UpdateDeployment d now s))"
proof (cases "deref (deployments s) (deploymentObjs s) (dep_ID d)")
  case None
  then have "snd (UpdateDeployment d now s) = s"
    by (cases "deployments s (dep_ID d)") (simp_all add: UpdateDeployment_def deref_def)
  with wf show ?thesis by simp
next
  case (Some e)
  have o: "own_refs (deployments s) (deploymentObjs s)" using wf by (simp add: deployments_wf_def)
  have "own_refs (deployments s) (deploymentObjs (snd (UpdateDeployment d now s)))"
    using o by (auto simp: UpdateDeployment_def own_refs_assign split: option.splits)
  moreover have "deployments (snd (UpdateDeployment d now s)) = deployments s"
    "deploymentRollbacks (snd (UpdateDeployment d now s)) = deploymentRollbacks s"
    "rollbackObjs (snd (UpdateDeployment d now s)) = rollbackObjs s"
    "scheduledDeploys (snd (UpdateDeployment d now s)) = scheduledDeploys s"
    "scheduledObjs (snd (UpdateDeployment d now s)) = scheduledObjs s"
    by (auto simp: UpdateDeployment_def split: option.splits)
  moreover have "keyed_by dep_ID (deref (deployments s) (deploymentObjs s))" using wf by (simp add: deployments_wf_def)
  moreover from this have "dep_ID e = dep_ID d" using Some by (rule keyed_byD)
  ultimately show ?thesis
    using wf UpdateDeployment_deref [OF o Some, of now]
    unfolding deployments_wf_def by (simp add: keyed_by_upd)
qed

lemma other_deployment_ops_wf [wf_intros]:
  "deployments_wf s \<Longrightarrow> deployments_wf (snd (CreateDeploymentLog log now xid s))"
  "deployments_wf s \<Longrightarrow> deployments_wf (snd (CreateDeploymentRollback rb now xid s))"
  "deployments_wf s \<Longrightarrow> deployments_wf (snd (UpdateDeploymentRollback rb now s))"
  "deployments_wf s \<Longrightarrow> deployments_wf (snd (CreateScheduledDeployment i p t b at by now s))"
  "deployments_wf s \<Longrightarrow> deployments_wf (snd (CancelScheduledDeployment i now s))"
  by (auto simp: deployments_wf_def CreateDeploymentLog_def CreateDeploymentRollback_def
      UpdateDeploymentRollback_def CreateScheduledDeployment_def CancelScheduledDeployment_def
      new_obj_def Let_def own_refs_new own_refs_assign split: option.splits)

lemma deployment_step_wf: "deployment_step s t \<Longrightarrow> deployments_wf s \<Longrightarrow> deployments_wf t"
  by (induction rule: deployment_step.induct) (auto intro: wf_intros)

lemma deployments_wf_new: "deployments_wf NewMemoryStore"
  by (simp add: deployments_wf_def NewMemoryStore_def)

lemma deployments_reachable: "deployment_step\<^sup>*\<^sup>* NewMemoryStore s \<Longrightarrow> deployments_wf s"
  by (induction rule: rtranclp_induct) (auto intro: deployments_wf_new deployment_step_wf)

section \<open>Lemmas\<close>

lemma latest_fold:
  "case fold (\<lambda>r latest. if P r then later_rollback r latest else latest) rs acc of
     None \<Rightarrow> acc = None \<and> (\<forall>r \<in> set rs. \<not> P r)
   | Some l \<Rightarrow> (acc = Some l \<or> l \<in> set rs \<and> P l)
       \<and> (\<forall>r \<in> set rs. P r \<longrightarrow> rb_StartedAt r \<le> rb_StartedAt l)
       \<and> (\<forall>a. acc = Some a \<longrightarrow> rb_StartedAt a \<le> rb_StartedAt l)"
proof (induction rs arbitrary: acc)
  case Nil
  then show ?case by (simp split: option.splits)
next
  case (Cons x rs)
  from Cons.IH [of "if P x then later_rollback x acc else acc"] show ?case
    by (auto simp: later_rollback_def split: option.splits if_splits)
qed

lemma count_by_lookup:
  "count_by f xs k = (if k \<in> f ` set xs then Some (int (length (filter (\<lambda>x. f x = k) xs))) else None)"
proof -
  have "fold (\<lambda>x counts. counts(f x \<mapsto> (case counts (f x) of None \<Rightarrow> 0 | Some n \<Rightarrow> n) + 1)) xs m k
      = (if k \<in> f ` set xs then Some ((case m k of None \<Rightarrow> 0 | Some n \<Rightarrow> n) + int (length (filter (\<lambda>x. f x = k) xs)))
         else m k)" for m :: "'b \<Rightarrow> int option"
    by (induction xs arbitrary: m) (auto simp: filter_empty_conv image_iff split: option.splits)
  then show ?thesis by (simp add: count_by_def)
qed

text \<open>With pairwise different start times the listing has one possible value.\<close>

definition start_times_differ :: "MemoryStore \<Rightarrow> bool" where
  "start_times_differ s \<longleftrightarrow>
     (\<forall>i j d e. deref (deployments s) (deploymentObjs s) i = Some d \<longrightarrow>
        deref (deployments s) (deploymentObjs s) j = Some e \<longrightarrow> dep_StartedAt d = dep_StartedAt e \<longrightarrow> i = j)"

lemma sorted_desc_unique:
  fixes f :: "'a \<Rightarrow> int"
  assumes "sorted_wrt (\<lambda>x y. f x \<ge> f y) xs" and "sorted_wrt (\<lambda>x y. f x \<ge> f y) ys"
    and "mset xs = mset ys" and "distinct (map f xs)"
  shows "xs = ys"
proof (rule map_sorted_distinct_set_unique [where f = "\<lambda>x. - f x"])
  have "distinct (map f ys)" using assms(3,4) by (metis mset_map mset_eq_imp_distinct_iff)
  then show "distinct (map (\<lambda>x. - f x) ys)" by (simp add: distinct_map inj_on_def)
  show "distinct (map (\<lambda>x. - f x) xs)" using assms(4) by (simp add: distinct_map inj_on_def)
  show "set xs = set ys" using assms(3) by (rule mset_eq_setD)
  then show "inj_on (\<lambda>x. - f x) (set xs \<union> set ys)" using assms(4) by (simp add: distinct_map inj_on_def)
  show "sorted (map (\<lambda>x. - f x) xs)" "sorted (map (\<lambda>x. - f x) ys)"
    using assms(1,2) by (simp_all add: sorted_map)
qed

lemma newest_first_unique:
  assumes "own_refs (deployments s) (deploymentObjs s)" and "start_times_differ s"
    and "enumerates ks (deployments s)" and "enumerates ks' (deployments s)"
  shows "deployments_newest_first ks s = deployments_newest_first ks' s"
  unfolding deployments_newest_first_def
proof (rule sorted_desc_unique [where f = dep_StartedAt])
  let ?m = "deref (deployments s) (deploymentObjs s)"
  have "?m k \<noteq> None" if "k \<in> set ks" for k
    using that assms(1,3) by (metis deref_None_iff domIff enumerates_def)
  then have "inj_on (\<lambda>k. dep_StartedAt (the (?m k))) (set ks)"
    using assms(2) unfolding start_times_differ_def inj_on_def by (metis option.collapse)
  then have "distinct (map dep_StartedAt (range_objs ks (deployments s) (deploymentObjs s)))"
    using assms(3) by (simp add: range_objs_deref [OF assms(3,1)] o_def distinct_map enumerates_def)
  then show "distinct (map dep_StartedAt (exchange_sort (newer dep_StartedAt)
      (range_objs ks (deployments s) (deploymentObjs s))))"
    by (metis mset_exchange_sort mset_map mset_eq_imp_distinct_iff)
qed (simp_all add: exchange_sort_newest_first mset_range_objs [OF assms(3,4,1)])

section \<open>Properties\<close>

text \<open>Paging through deployments. From any non-negative offset the listing does not panic; it is
  sorted by start time, newest first, and consecutive pages of a positive size put together list every
  deployment exactly once.\<close>

theorem ListDeploymentsPaginated_pages:
  assumes "deployments_wf s" and "enumerates ks (deployments s)" and "0 < limit"
    and "CountDeployments s \<le> int n * limit"
  shows "(\<forall>offset \<ge> 0. \<exists>page. ListDeploymentsPaginated limit offset ks s = Some page
            \<and> int (length page) \<le> limit \<and> sorted_wrt (\<lambda>d e. dep_StartedAt d \<ge> dep_StartedAt e) page)
    \<and> mset (concat (map (\<lambda>k. the (ListDeploymentsPaginated limit (int k * limit) ks s)) [0..<n]))
        = image_mset (\<lambda>i. the (deref (deployments s) (deploymentObjs s) i)) (mset_set (dom (deployments s)))"
proof -
  let ?xs = "deployments_newest_first ks s"
  have o: "own_refs (deployments s) (deploymentObjs s)" using assms(1) by (simp add: deployments_wf_def)
  have srt: "sorted_wrt (\<lambda>d e. dep_StartedAt d \<ge> dep_StartedAt e) ?xs"
    unfolding deployments_newest_first_def by (rule exchange_sort_newest_first)
  have page: "\<exists>page. ListDeploymentsPaginated limit offset ks s = Some page
            \<and> int (length page) \<le> limit \<and> sorted_wrt (\<lambda>d e. dep_StartedAt d \<ge> dep_StartedAt e) page"
    if "0 \<le> offset" for offset
    using assms(3) page_limit_eq [OF that, of ?xs limit] srt
    by (simp add: ListDeploymentsPaginated_def sorted_wrt_take sorted_wrt_drop)
  have "length ?xs = card (dom (deployments s))"
    by (simp add: deployments_newest_first_def length_range_objs [OF assms(2) o])
  then have "length ?xs \<le> n * nat limit"
    using assms(3,4) by (simp add: CountDeployments_def) (metis int_ops(7) nat_0_le of_nat_le_iff less_imp_le)
  then have "concat (map (\<lambda>k. the (ListDeploymentsPaginated limit (int k * limit) ks s)) [0..<n]) = ?xs"
    using concat_page_limit [OF assms(3), of ?xs n] by (simp add: ListDeploymentsPaginated_def)
  moreover have "mset ks = mset_set (dom (deployments s))"
    using assms(2) by (metis enumerates_def mset_set_set)
  then have "mset ?xs = image_mset (\<lambda>i. the (deref (deployments s) (deploymentObjs s) i)) (mset_set (dom (deployments s)))"
    by (simp add: deployments_newest_first_def range_objs_deref [OF assms(2) o])
  ultimately show ?thesis using page by simp
qed

definition sample_deployment :: "string \<Rightarrow> time \<Rightarrow> DeploymentRecord" where
  "sample_deployment i t = \<lparr>dep_ID = i, dep_Project = ''blog'', dep_ProjectID = None, dep_Target = ''prod'',
     dep_Branch = ''main'', dep_CommitHash = '''', dep_Status = '''', dep_ReleaseNumber = 1, dep_StartedAt = t,
     dep_CompletedAt = None, dep_TriggeredBy = '''', dep_TriggerSource = '''', dep_ErrorMessage = ''''\<rparr>"

definition sample_deployments :: MemoryStore where
  "sample_deployments =
     snd (CreateDeployment (sample_deployment ''d2'' 20) 1
       (snd (CreateDeployment (sample_deployment ''d1'' 10) 1 NewMemoryStore)))"

lemma sample_deployments_wf: "deployments_wf sample_deployments"
  unfolding sample_deployments_def by (intro CreateDeployment_wf deployments_wf_new)

lemma sample_deployments_eval:
  "deployments sample_deployments = [''d1'' \<mapsto> 0, ''d2'' \<mapsto> 1]"
  "deploymentObjs sample_deployments =
     [(sample_deployment ''d1'' 10)\<lparr>dep_Status := ''pending''\<rparr>, (sample_deployment ''d2'' 20)\<lparr>dep_Status := ''pending''\<rparr>]"
  by (simp_all add: sample_deployments_def CreateDeployment_def sample_deployment_def NewMemoryStore_def
      new_obj_def Let_def IsZero_def)

lemma sample_deployments_enum:
  "enumerates [''d1'', ''d2''] (deployments sample_deployments)"
  "enumerates [''d2'', ''d1''] (deployments sample_deployments)"
  by (auto simp: enumerates_def sample_deployments_eval)

theorem ListDeploymentsPaginated_pages_witness:
  "mset (concat (map (\<lambda>k. the (ListDeploymentsPaginated 1 (int k * 1) [''d1'', ''d2''] sample_deployments)) [0..<2]))
   = image_mset (\<lambda>i. the (deref (deployments sample_deployments) (deploymentObjs sample_deployments) i))
       (mset_set (dom (deployments sample_deployments)))"
proof -
  have "card (dom (deployments sample_deployments)) = 2" by (simp add: sample_deployments_eval)
  then have "CountDeployments sample_deployments \<le> int 2 * 1" by (simp add: CountDeployments_def)
  from ListDeploymentsPaginated_pages [OF sample_deployments_wf sample_deployments_enum(1) _ this]
  show ?thesis by simp
qed

text \<open>The order in which Go happens to visit the map does not show in a listing when no two
  deployments started at the same time: every page is the same for any two visiting orders.\<close>

theorem ListDeploymentsPaginated_order_independent:
  assumes "deployments_wf s" and "start_times_differ s"
    and "enumerates ks (deployments s)" and "enumerates ks' (deployments s)"
  shows "ListDeploymentsPaginated limit offset ks s = ListDeploymentsPaginated limit offset ks' s
    \<and> ListDeploymentsRecent limit ks s = ListDeploymentsRecent limit ks' s"
  using newest_first_unique [of s ks ks'] assms
  by (simp add: deployments_wf_def ListDeploymentsPaginated_def ListDeploymentsRecent_def)

theorem ListDeploymentsPaginated_order_independent_witness:
  "ListDeploymentsPaginated 5 0 [''d1'', ''d2''] sample_deployments
   = ListDeploymentsPaginated 5 0 [''d2'', ''d1''] sample_deployments"
proof -
  have "start_times_differ sample_deployments"
    by (auto simp: start_times_differ_def sample_deployments_eval deref_def load_def sample_deployment_def
        split: if_splits)
  from ListDeploymentsPaginated_order_independent [OF sample_deployments_wf this sample_deployments_enum]
  show ?thesis by blast
qed

text \<open>Updating a deployment. An unknown identifier is an error without effect; otherwise exactly the
  status, the completion time, the error message, the commit and the release number are taken over,
  the record keeps its project, target and start time, and no other deployment changes.\<close>

theorem UpdateDeployment_spec:
  assumes "deployments_wf s" and "UpdateDeployment d now s = (res, s')"
  shows "case GetDeployment (dep_ID d) s of
      Inl _ \<Rightarrow> res = Inl ErrNotFound \<and> s' = s
    | Inr old \<Rightarrow> res = Inr () \<and>
        GetDeployment (dep_ID d) s' = Inr (old\<lparr>dep_Status := dep_Status d, dep_CompletedAt := dep_CompletedAt d,
          dep_ErrorMessage := dep_ErrorMessage d, dep_CommitHash := dep_CommitHash d,
          dep_ReleaseNumber := dep_ReleaseNumber d\<rparr>) \<and>
        (\<forall>i. i \<noteq> dep_ID d \<longrightarrow> GetDeployment i s' = GetDeployment i s)"
proof (cases "deref (deployments s) (deploymentObjs s) (dep_ID d)")
  case None
  with assms show ?thesis
    by (cases "deployments s (dep_ID d)") (auto simp: GetDeployment_def UpdateDeployment_def deref_def)
next
  case (Some old)
  then have "fst (UpdateDeployment d now s) = Inr ()"
    by (auto simp: UpdateDeployment_def deref_Some_iff)
  moreover have "own_refs (deployments s) (deploymentObjs s)" using assms(1) by (simp add: deployments_wf_def)
  ultimately show ?thesis
    using UpdateDeployment_deref [OF _ Some, of now] assms(2) Some by (simp add: GetDeployment_def)
qed

theorem UpdateDeployment_spec_witness:
  "GetDeployment ''d1'' (snd (UpdateDeployment ((sample_deployment ''d1'' 99)\<lparr>dep_Status := ''success''\<rparr>) 30 sample_deployments))
   = Inr ((sample_deployment ''d1'' 10)\<lparr>dep_Status := ''success''\<rparr>)"
proof -
  let ?d = "(sample_deployment ''d1'' 99)\<lparr>dep_Status := ''success''\<rparr>"
  have id: "dep_ID ?d = ''d1''" by (simp add: sample_deployment_def)
  have g: "GetDeployment ''d1'' sample_deployments = Inr ((sample_deployment ''d1'' 10)\<lparr>dep_Status := ''pending''\<rparr>)"
    by (simp add: GetDeployment_def sample_deployments_eval deref_def load_def)
  have "UpdateDeployment ?d 30 sample_deployments
      = (fst (UpdateDeployment ?d 30 sample_deployments), snd (UpdateDeployment ?d 30 sample_deployments))" by simp
  from UpdateDeployment_spec [OF sample_deployments_wf this, unfolded id g sum.case]
  show ?thesis by (simp add: sample_deployment_def)
qed

text \<open>The latest rollback of a deployment is found exactly when it has one, belongs to the
  deployment, and none of the deployment's rollbacks started later.\<close>

theorem GetLatestRollbackForDeployment_latest:
  assumes "enumerates ks (deploymentRollbacks s)"
  shows "case GetLatestRollbackForDeployment deploymentID ks s of
      Inl _ \<Rightarrow> \<forall>i r. GetDeploymentRollback i s = Inr r \<longrightarrow> rb_DeploymentID r \<noteq> deploymentID
    | Inr l \<Rightarrow> (\<exists>i. GetDeploymentRollback i s = Inr l) \<and> rb_DeploymentID l = deploymentID
        \<and> (\<forall>i r. GetDeploymentRollback i s = Inr r \<longrightarrow> rb_DeploymentID r = deploymentID
             \<longrightarrow> rb_StartedAt r \<le> rb_StartedAt l)"
proof -
  have m: "GetDeploymentRollback i s = Inr r \<longleftrightarrow> deref (deploymentRollbacks s) (rollbackObjs s) i = Some r" for i r
    by (auto simp: GetDeploymentRollback_def split: option.splits)
  show ?thesis
    using latest_fold [where P = "\<lambda>r. rb_DeploymentID r = deploymentID" and acc = None
        and rs = "range_objs ks (deploymentRollbacks s) (rollbackObjs s)"]
    unfolding GetLatestRollbackForDeployment_def m
    by (auto simp: range_objs_mem [OF assms] split: option.splits)
qed

definition sample_rollback :: "string \<Rightarrow> time \<Rightarrow> DeploymentRollback" where
  "sample_rollback i t = \<lparr>rb_ID = i, rb_DeploymentID = ''d1'', rb_ProjectName = ''blog'', rb_FromRelease = 2,
     rb_ToRelease = 1, rb_Reason = '''', rb_TriggeredBy = '''', rb_HealthCheckFailed = False,
     rb_HealthCheckError = '''', rb_Status = '''', rb_ErrorMessage = '''', rb_StartedAt = t, rb_CompletedAt = None\<rparr>"

theorem GetLatestRollbackForDeployment_latest_witness:
  "\<exists>l. GetLatestRollbackForDeployment ''d1'' [''r1''] (snd (CreateDeploymentRollback (sample_rollback ''r1'' 5) 6 ''-'' NewMemoryStore)) = Inr l
     \<and> rb_DeploymentID l = ''d1''"
proof -
  let ?s = "snd (CreateDeploymentRollback (sample_rollback ''r1'' 5) 6 ''-'' NewMemoryStore)"
  have e: "enumerates [''r1''] (deploymentRollbacks ?s)"
    by (simp add: enumerates_def CreateDeploymentRollback_def sample_rollback_def NewMemoryStore_def new_obj_def Let_def IsZero_def)
  have g: "\<exists>r. GetDeploymentRollback ''r1'' ?s = Inr r \<and> rb_DeploymentID r = ''d1''"
    by (simp add: GetDeploymentRollback_def deref_def load_def CreateDeploymentRollback_def sample_rollback_def
        NewMemoryStore_def new_obj_def Let_def IsZero_def)
  show ?thesis
    using GetLatestRollbackForDeployment_latest [OF e, of "''d1''"] g by (auto split: sum.splits)
qed

text \<open>A cancelled schedule never fires: after a successful cancel the scheduled deployment is not
  listed as pending at any time, and the other schedules are listed as before.\<close>

theorem CancelScheduledDeployment_not_pending:
  assumes "deployments_wf s" and "keyed_by sched_ID (deref (scheduledDeploys s) (scheduledObjs s))"
    and "CancelScheduledDeployment i now s = (Inr (), s')"
    and "enumerates ks (scheduledDeploys s)"
  shows "sd \<in> set (ListPendingScheduledDeployments t ks s') \<longleftrightarrow>
      sd \<in> set (ListPendingScheduledDeployments t ks s) \<and> sched_ID sd \<noteq> i"
proof -
  let ?m = "deref (scheduledDeploys s) (scheduledObjs s)"
  obtain r x where r: "scheduledDeploys s i = Some r" "load (scheduledObjs s) r = Some x"
      and s': "scheduledObjs s' = assign (scheduledObjs s) r (x\<lparr>sched_Status := ''cancelled''\<rparr>)"
        "scheduledDeploys s' = scheduledDeploys s"
    using assms(3) by (auto simp: CancelScheduledDeployment_def split: option.splits Option.bind_splits)
  have o: "own_refs (scheduledDeploys s) (scheduledObjs s)" using assms(1) by (simp add: deployments_wf_def)
  have m': "deref (scheduledDeploys s') (scheduledObjs s') = ?m(i \<mapsto> x\<lparr>sched_Status := ''cancelled''\<rparr>)"
    by (simp add: s' deref_assign [OF o r(1)])
  have k: "sched_ID y = j" if "?m j = Some y" for j y using that by (rule keyed_byD [OF assms(2)])
  have e': "enumerates ks (scheduledDeploys s')" using assms(4) by (simp add: s')
  have "(\<exists>j. (?m(i \<mapsto> x\<lparr>sched_Status := ''cancelled''\<rparr>)) j = Some sd) \<and> sched_Status sd = ''pending''
      \<longleftrightarrow> (\<exists>j. ?m j = Some sd) \<and> sched_Status sd = ''pending'' \<and> sched_ID sd \<noteq> i" (is "?L \<longleftrightarrow> ?R")
  proof
    assume ?L
    then obtain j where j: "(?m(i \<mapsto> x\<lparr>sched_Status := ''cancelled''\<rparr>)) j = Some sd" "sched_Status sd = ''pending''" by blast
    have "j \<noteq> i"
    proof
      assume "j = i"
      with j(1) have "sd = x\<lparr>sched_Status := ''cancelled''\<rparr>" by simp
      with j(2) show False by simp
    qed
    with j k show ?R by (metis fun_upd_apply)
  next
    assume ?R
    then show ?L using k by (metis fun_upd_apply)
  qed
  then show ?thesis
    unfolding ListPendingScheduledDeployments_def set_filter mem_Collect_eq
      range_objs_mem [OF e'] range_objs_mem [OF assms(4)] m' by blast
qed

theorem CancelScheduledDeployment_not_pending_witness:
  "ListPendingScheduledDeployments 9 [''x'']
     (snd (CancelScheduledDeployment ''x'' 7 (snd (CreateScheduledDeployment ''x'' ''blog'' ''prod'' ''main'' 5 ''me'' 1 NewMemoryStore)))) = []
   \<and> ListPendingScheduledDeployments 9 [''x'']
     (snd (CreateScheduledDeployment ''x'' ''blog'' ''prod'' ''main'' 5 ''me'' 1 NewMemoryStore)) \<noteq> []"
proof -
  let ?s = "snd (CreateScheduledDeployment ''x'' ''blog'' ''prod'' ''main'' 5 ''me'' 1 NewMemoryStore)"
  let ?c = "CancelScheduledDeployment ''x'' 7 ?s"
  note ev = CreateScheduledDeployment_def NewMemoryStore_def new_obj_def Let_def deref_def load_def
  have wf: "deployments_wf ?s" by (intro other_deployment_ops_wf deployments_wf_new)
  have k: "keyed_by sched_ID (deref (scheduledDeploys ?s) (scheduledObjs ?s))"
    by (simp add: ev keyed_by_def)
  have e: "enumerates [''x''] (scheduledDeploys ?s)" by (simp add: ev enumerates_def)
  have "fst ?c = Inr ()" by (simp add: CancelScheduledDeployment_def ev)
  then have c: "?c = (Inr (), snd ?c)" by (metis prod.collapse)
  have p: "ListPendingScheduledDeployments 9 [''x''] ?s = [\<lparr>sched_ID = ''x'', sched_Project = ''blog'',
      sched_Target = ''prod'', sched_Branch = ''main'', sched_ScheduledAt = 5, sched_ScheduledBy = ''me'', sched_Status = ''pending''\<rparr>]"
    by (simp add: ListPendingScheduledDeployments_def range_objs_def ref_range_def map_filter_simps ev)
  have "\<forall>sd. sd \<notin> set (ListPendingScheduledDeployments 9 [''x''] (snd ?c))"
    using CancelScheduledDeployment_not_pending [OF wf k c e, of _ 9] by (auto simp: p)
  with p show ?thesis by (simp add: ex_in_conv [symmetric] flip: set_empty)
qed

end
