(* ===== verification/Mem_Audit.thy ===== *)
theory Mem_Audit
  imports Store_Model Ref_Table Pagination Loop_Sort
begin

text \<open>
  \<open>internal/storage/memory_audit.go\<close> (the audit trail and the settings) and
  \<open>internal/storage/memory_ratelimit.go\<close> (blocked addresses and fixed-window rate limits).
  The audit trail is an append-only slice of entries that are never changed.
\<close>

section \<open>Audit trail\<close>

definition LogAudit :: "AuditEntry \<Rightarrow> time \<Rightarrow> string \<Rightarrow> MemoryStore \<Rightarrow> AuditEntry result \<times> MemoryStore" where
  "LogAudit entry now xid s =
     (let entry = (if audit_ID entry = '''' then entry\<lparr>audit_ID := xid\<rparr> else entry);
          entry = (if IsZero (audit_Timestamp entry) then entry\<lparr>audit_Timestamp := now\<rparr> else entry)
      in (Inr entry,
          s\<lparr>auditLogs := auditLogs s @ [entry],
            auditWrites := queueWrite (auditWrites s)
              (NewWriteOp WriteOpInsert ''audit_logs'' (AuditEntryPtr entry) now)\<rparr>))"

text \<open>\<open>json.Marshal\<close> of the snapshot is a parameter: \<open>None\<close> when the snapshot is nil or does not
  marshal.\<close>

definition LogAuditWithSnapshot ::
  "('a \<Rightarrow> string option) \<Rightarrow> AuditEntry \<Rightarrow> 'a option \<Rightarrow> time \<Rightarrow> string \<Rightarrow> MemoryStore \<Rightarrow> AuditEntry result \<times> MemoryStore" where
  "LogAuditWithSnapshot marshal entry resourceSnapshot now xid s =
     (let entry = (case Option.bind resourceSnapshot marshal of
                     None \<Rightarrow> entry | Some data \<Rightarrow> entry\<lparr>audit_ResourceData := data\<rparr>)
      in LogAudit entry now xid s)"

definition ListAuditLogs :: "int \<Rightarrow> int \<Rightarrow> MemoryStore \<Rightarrow> AuditEntry list option" where
  "ListAuditLogs limit offset s = page_end (rev (auditLogs s)) limit offset"

definition ListAuditLogsSince :: "time \<Rightarrow> MemoryStore \<Rightarrow> AuditEntry list" where
  "ListAuditLogsSince since s =
     exchange_sort (older audit_Timestamp)
       (filter (\<lambda>e. audit_Timestamp e > since \<or> audit_Timestamp e = since) (auditLogs s))"

section \<open>Settings\<close>

definition GetSetting :: "string \<Rightarrow> string \<Rightarrow> MemoryStore \<Rightarrow> Setting result" where
  "GetSetting category key s =
     (case deref (settings s) (settingObjs s) (settingKey category key) of
        None \<Rightarrow> Inl ErrNotFound | Some setting \<Rightarrow> Inr setting)"

definition new_setting :: "string \<Rightarrow> string \<Rightarrow> string \<Rightarrow> string \<Rightarrow> string \<Rightarrow> bool \<Rightarrow> time \<Rightarrow> Setting" where
  "new_setting i category key val valueType encrypted now =
     \<lparr>setting_ID = i, setting_Category = category, setting_Key = key, setting_Value = val,
      setting_ValueType = valueType, setting_Encrypted = encrypted, setting_Description = '''',
      setting_CreatedAt = now, setting_UpdatedAt = now\<rparr>"

definition SetSetting ::
  "string \<Rightarrow> string \<Rightarrow> string \<Rightarrow> string \<Rightarrow> bool \<Rightarrow> time \<Rightarrow> string \<Rightarrow> MemoryStore \<Rightarrow> unit result \<times> MemoryStore" where
  "SetSetting category key val valueType encrypted now xid s =
     (let k = settingKey category key
      in case Option.bind (settings s k) (\<lambda>r. map_option (Pair r) (load (settingObjs s) r)) of
           Some (r, existing) \<Rightarrow>
             (Inr (),
              s\<lparr>settingObjs := assign (settingObjs s) r
                  (existing\<lparr>setting_Value := val, setting_ValueType := valueType,
                            setting_Encrypted := encrypted, setting_UpdatedAt := now\<rparr>),
                coreWrites := queueWrite (coreWrites s)
                  (NewWriteOp WriteOpUpdate ''settings'' (SettingPtr r) now)\<rparr>)
         | None \<Rightarrow>
             (let (r, objs) = new_obj (new_setting xid category key val valueType encrypted now) (settingObjs s)
              in (Inr (),
                  s\<lparr>settingObjs := objs, settings := (settings s)(k \<mapsto> r),
                    coreWrites := queueWrite (coreWrites s)
                      (NewWriteOp WriteOpInsert ''settings'' (SettingPtr r) now)\<rparr>)))"

definition InitSetting ::
  "string \<Rightarrow> string \<Rightarrow> string \<Rightarrow> string \<Rightarrow> string \<Rightarrow> bool \<Rightarrow> time \<Rightarrow> MemoryStore \<Rightarrow> unit result \<times> MemoryStore" where
  "InitSetting i category key val valueType encrypted now s =
     (let k = settingKey category key
      in if settings s k \<noteq> None then (Inr (), s)
         else
           (let (r, objs) = new_obj (new_setting i category key val valueType encrypted now) (settingObjs s)
            in (Inr (),
                s\<lparr>settingObjs := objs, settings := (settings s)(k \<mapsto> r),
                  coreWrites := queueWrite (coreWrites s)
                    (NewWriteOp WriteOpInsert ''settings'' (SettingPtr r) now)\<rparr>)))"

definition ListSettingsByCategory :: "string \<Rightarrow> string list \<Rightarrow> MemoryStore \<Rightarrow> Setting list" where
  "ListSettingsByCategory category ks s =
     filter (\<lambda>setting. setting_Category setting = category) (range_objs ks (settings s) (settingObjs s))"

definition ListAllSettings :: "string list \<Rightarrow> MemoryStore \<Rightarrow> Setting list" where
  "ListAllSettings ks s = range_objs ks (settings s) (settingObjs s)"

definition DeleteSetting :: "string \<Rightarrow> string \<Rightarrow> time \<Rightarrow> MemoryStore \<Rightarrow> unit result \<times> MemoryStore" where
  "DeleteSetting category key now s =
     (let k = settingKey category key
      in if settings s k = None then (Inl ErrNotFound, s)
         else (Inr (),
               s\<lparr>settings := (settings s)(k := None),
                 coreWrites := queueWrite (coreWrites s) (NewWriteOp WriteOpDelete ''settings'' (StringData k) now)\<rparr>))"

section \<open>Blocked addresses\<close>

definition BlockIP :: "BlockedIP \<Rightarrow> time \<Rightarrow> string \<Rightarrow> MemoryStore \<Rightarrow> BlockedIP result \<times> MemoryStore" where
  "BlockIP block now xid s =
     (if blockedIPs s (blk_IPAddress block) \<noteq> None then (Inl ErrDuplicate, s)
      else
        (let block = (if blk_ID block = '''' then block\<lparr>blk_ID := xid\<rparr> else block);
             block = (if IsZero (blk_BlockedAt block) then block\<lparr>blk_BlockedAt := now\<rparr> else block)
         in (Inr block,
             s\<lparr>blockedIPs := (blockedIPs s)(blk_IPAddress block \<mapsto> block),
               ratelimitWrites := queueWrite (ratelimitWrites s)
                 (NewWriteOp WriteOpInsert ''blocked_ips'' (BlockedIPPtr block) now)\<rparr>)))"

definition UnblockIP :: "string \<Rightarrow> time \<Rightarrow> MemoryStore \<Rightarrow> unit result \<times> MemoryStore" where
  "UnblockIP ip now s =
     (if blockedIPs s ip = None then (Inl ErrNotFound, s)
      else (Inr (),
            s\<lparr>blockedIPs := (blockedIPs s)(ip := None),
              ratelimitWrites := queueWrite (ratelimitWrites s)
                (NewWriteOp WriteOpDelete ''blocked_ips'' (StringData ip) now)\<rparr>))"

definition IsIPBlocked :: "string \<Rightarrow> time \<Rightarrow> MemoryStore \<Rightarrow> bool" where
  "IsIPBlocked ip now s =
     (case blockedIPs s ip of
        None \<Rightarrow> False
      | Some block \<Rightarrow> \<not> (\<not> IsZero (blk_ExpiresAt block) \<and> now > blk_ExpiresAt block))"

definition GetBlockedIP :: "string \<Rightarrow> MemoryStore \<Rightarrow> BlockedIP result" where
  "GetBlockedIP ip s = (case blockedIPs s ip of None \<Rightarrow> Inl ErrNotFound | Some block \<Rightarrow> Inr block)"

definition ListBlockedIPs ::
  "int \<Rightarrow> int \<Rightarrow> string list \<Rightarrow> MemoryStore \<Rightarrow> (BlockedIP list \<times> int) option" where
  "ListBlockedIPs limit offset ks s =
     (let all = exchange_sort (newer blk_BlockedAt) (range_values ks (blockedIPs s))
      in map_option (\<lambda>page. (page, int (length all))) (page_end all limit offset))"

section \<open>Rate limit windows\<close>

definition RecordRateLimitRequest ::
  "string \<Rightarrow> string \<Rightarrow> time \<Rightarrow> time \<Rightarrow> time \<Rightarrow> string \<Rightarrow> MemoryStore \<Rightarrow> unit result \<times> MemoryStore" where
  "RecordRateLimitRequest key bucket windowStart windowEnd now xid s =
     (let k = rateLimitKey key bucket;
          record = \<lparr>rl_ID = xid, rl_Key = key, rl_Bucket = bucket, rl_Count = 1,
                    rl_WindowStart = windowStart, rl_WindowEnd = windowEnd\<rparr>;
          (r', objs) = new_obj record (rateLimitObjs s);
          fresh = (Inr (),
             s\<lparr>rateLimitObjs := objs, rateLimits := (rateLimits s)(k \<mapsto> r'),
               ratelimitWrites := queueWrite (ratelimitWrites s)
                 (NewWriteOp WriteOpInsert ''rate_limits'' (RateLimitPtr r') now)\<rparr>)
      in case Option.bind (rateLimits s k) (\<lambda>r. map_option (Pair r) (load (rateLimitObjs s) r)) of
           Some (r, existing) \<Rightarrow>
             if rl_WindowStart existing = windowStart
             then (Inr (),
                   s\<lparr>rateLimitObjs := assign (rateLimitObjs s) r
                       (existing\<lparr>rl_Count := wrap64 (rl_Count existing + 1)\<rparr>),
                     ratelimitWrites := queueWrite (ratelimitWrites s)
                       (NewWriteOp WriteOpUpdate ''rate_limits'' (RateLimitPtr r) now)\<rparr>)
             else fresh
         | None \<Rightarrow> fresh)"

definition GetRateLimitCount :: "string \<Rightarrow> string \<Rightarrow> time \<Rightarrow> MemoryStore \<Rightarrow> int" where
  "GetRateLimitCount key bucket since s =
     (case deref (rateLimits s) (rateLimitObjs s) (rateLimitKey key bucket) of
        None \<Rightarrow> 0
      | Some record \<Rightarrow> if rl_WindowEnd record < since then 0 else rl_Count record)"

section \<open>Invariants\<close>

definition settings_wf :: "MemoryStore \<Rightarrow> bool" where
  "settings_wf s \<longleftrightarrow> own_refs (settings s) (settingObjs s)"

definition ratelimits_wf :: "MemoryStore \<Rightarrow> bool" where
  "ratelimits_wf s \<longleftrightarrow> own_refs (rateLimits s) (rateLimitObjs s)"

lemma settings_ops_wf [wf_intros]:
  "settings_wf s \<Longrightarrow> settings_wf (snd (SetSetting c k v vt e now xid s))"
  "settings_wf s \<Longrightarrow> settings_wf (snd (InitSetting i c k v vt e now s))"
  "settings_wf s \<Longrightarrow> settings_wf (snd (DeleteSetting c k now s))"
  by (auto simp: settings_wf_def SetSetting_def InitSetting_def DeleteSetting_def Let_def new_obj_def
      own_refs_new own_refs_assign own_refs_remove split: option.splits)

lemma RecordRateLimitRequest_wf [wf_intros]:
  "ratelimits_wf s \<Longrightarrow> ratelimits_wf (snd (RecordRateLimitRequest key bucket ws we now xid s))"
  by (auto simp: ratelimits_wf_def RecordRateLimitRequest_def Let_def new_obj_def own_refs_new
      own_refs_assign split: option.splits)

lemma ratelimits_wf_new [simp]: "ratelimits_wf NewMemoryStore"
  by (simp add: ratelimits_wf_def NewMemoryStore_def)

lemma settings_wf_new [simp]: "settings_wf NewMemoryStore"
  by (simp add: settings_wf_def NewMemoryStore_def)

section \<open>Lemmas\<close>

lemma bind_load_deref:
  "Option.bind (m k) (\<lambda>r. map_option (Pair r) (load h r)) =
     (case m k of None \<Rightarrow> None | Some r \<Rightarrow> (case load h r of None \<Rightarrow> None | Some x \<Rightarrow> Some (r, x)))"
  by (auto split: option.splits)

lemma SetSetting_deref:
  assumes o: "own_refs (settings s) (settingObjs s)" and s': "s' = snd (SetSetting c k v vt e now xid s)"
  shows "deref (settings s') (settingObjs s') = (deref (settings s) (settingObjs s))(settingKey c k \<mapsto>
      (case deref (settings s) (settingObjs s) (settingKey c k) of
         None \<Rightarrow> new_setting xid c k v vt e now
       | Some x \<Rightarrow> x\<lparr>setting_Value := v, setting_ValueType := vt, setting_Encrypted := e, setting_UpdatedAt := now\<rparr>))"
proof (cases "settings s (settingKey c k)")
  case None
  then show ?thesis
    by (simp add: s' SetSetting_def new_obj_def Let_def deref_new [OF o]) (simp add: deref_def)
next
  case (Some r)
  obtain x where "load (settingObjs s) r = Some x" using own_refs_load [OF o Some] .
  with Some show ?thesis
    by (simp add: s' SetSetting_def Let_def deref_assign [OF o Some]) (simp add: deref_def)
qed

lemma InitSetting_deref:
  assumes o: "own_refs (settings s) (settingObjs s)" and s': "s' = snd (InitSetting i c k v vt e now s)"
  shows "deref (settings s') (settingObjs s') =
      (if deref (settings s) (settingObjs s) (settingKey c k) = None
       then (deref (settings s) (settingObjs s))(settingKey c k \<mapsto> new_setting i c k v vt e now)
       else deref (settings s) (settingObjs s))"
  by (simp add: s' InitSetting_def new_obj_def Let_def deref_new [OF o] deref_None_iff [OF o])

lemma RecordRateLimitRequest_deref:
  assumes o: "own_refs (rateLimits s) (rateLimitObjs s)"
    and s': "s' = snd (RecordRateLimitRequest key bucket ws we now xid s)"
  shows "deref (rateLimits s') (rateLimitObjs s') = (deref (rateLimits s) (rateLimitObjs s))(rateLimitKey key bucket \<mapsto>
      (let fresh = \<lparr>rl_ID = xid, rl_Key = key, rl_Bucket = bucket, rl_Count = 1, rl_WindowStart = ws, rl_WindowEnd = we\<rparr>
       in case deref (rateLimits s) (rateLimitObjs s) (rateLimitKey key bucket) of
            None \<Rightarrow> fresh
          | Some x \<Rightarrow> if rl_WindowStart x = ws then x\<lparr>rl_Count := wrap64 (rl_Count x + 1)\<rparr> else fresh))"
proof (cases "rateLimits s (rateLimitKey key bucket)")
  case None
  then show ?thesis
    by (simp add: s' RecordRateLimitRequest_def new_obj_def Let_def deref_new [OF o]) (simp add: deref_def)
next
  case (Some r)
  obtain x where x: "load (rateLimitObjs s) r = Some x" using own_refs_load [OF o Some] .
  then have d: "deref (rateLimits s) (rateLimitObjs s) (rateLimitKey key bucket) = Some x"
    using Some by (simp add: deref_def)
  from Some x d show ?thesis
    by (simp add: s' RecordRateLimitRequest_def new_obj_def Let_def deref_assign [OF o Some] deref_new [OF o])
qed

text \<open>One call, and a run of calls in a window that is already current.\<close>

definition record_call :: "string \<Rightarrow> string \<Rightarrow> time \<Rightarrow> time \<Rightarrow> time \<times> string \<Rightarrow> MemoryStore \<Rightarrow> MemoryStore" where
  "record_call key bucket ws we c s = snd (RecordRateLimitRequest key bucket ws we (fst c) (snd c) s)"

lemma record_calls_count:
  assumes "ratelimits_wf u" and "deref (rateLimits u) (rateLimitObjs u) (rateLimitKey key bucket) = Some y"
    and "rl_WindowStart y = ws" and "rl_WindowEnd y = we" and "rl_Count y = int n"
    and "int n + int (length cs) < 2 ^ 63"
  shows "\<exists>x. deref (rateLimits (fold (record_call key bucket ws we) cs u)) (rateLimitObjs (fold (record_call key bucket ws we) cs u))
        = (deref (rateLimits u) (rateLimitObjs u))(rateLimitKey key bucket \<mapsto> x)
      \<and> rl_WindowStart x = ws \<and> rl_WindowEnd x = we \<and> rl_Count x = int n + int (length cs)"
  using assms
proof (induction cs arbitrary: u y n)
  case Nil
  then show ?case by (intro exI [of _ y]) auto
next
  case (Cons a cs)
  let ?k = "rateLimitKey key bucket"
  let ?u = "record_call key bucket ws we a u"
  have o: "own_refs (rateLimits u) (rateLimitObjs u)" using Cons.prems(1) by (simp add: ratelimits_wf_def)
  have "wrap64 (int n + 1) = int (Suc n)" using Cons.prems(6) wrap64_id [OF in_int64_small, of "int n + 1"] by simp
  then have m: "deref (rateLimits ?u) (rateLimitObjs ?u) = (deref (rateLimits u) (rateLimitObjs u))(?k \<mapsto> y\<lparr>rl_Count := int (Suc n)\<rparr>)"
    using RecordRateLimitRequest_deref [OF o refl, of key bucket ws we "fst a" "snd a"] Cons.prems(2,3,5)
    by (simp add: record_call_def Let_def)
  have wf: "ratelimits_wf ?u" unfolding record_call_def by (rule RecordRateLimitRequest_wf [OF Cons.prems(1)])
  have "deref (rateLimits ?u) (rateLimitObjs ?u) ?k = Some (y\<lparr>rl_Count := int (Suc n)\<rparr>)" by (simp add: m)
  then have "\<exists>x. deref (rateLimits (fold (record_call key bucket ws we) cs ?u)) (rateLimitObjs (fold (record_call key bucket ws we) cs ?u))
        = (deref (rateLimits ?u) (rateLimitObjs ?u))(?k \<mapsto> x)
      \<and> rl_WindowStart x = ws \<and> rl_WindowEnd x = we \<and> rl_Count x = int (Suc n) + int (length cs)"
    by (rule Cons.IH [OF wf]) (use Cons.prems in simp_all)
  then show ?case unfolding m by (auto simp: add.commute add.left_commute)
qed

section \<open>Properties\<close>

text \<open>The audit trail loses and reorders nothing: a logged entry is the first of the newest-first
  listing, with its identifier and time filled in; the entries logged before follow unchanged; and the
  listing since a time is exactly the entries from that time on, oldest first.\<close>

theorem LogAudit_trail:
  assumes "LogAudit entry now xid s = (Inr e, s')" and "0 \<le> n" and "n < 2 ^ 62 - 1"
    and "int (length (auditLogs s)) < 2 ^ 62 - 1"
  shows "ListAuditLogs (n + 1) 0 s' = map_option (\<lambda>page. e # page) (ListAuditLogs n 0 s)
    \<and> audit_ID e = (if audit_ID entry = '''' then xid else audit_ID entry)
    \<and> audit_Timestamp e = (if IsZero (audit_Timestamp entry) then now else audit_Timestamp entry)
    \<and> mset (ListAuditLogsSince t s') = mset (filter (\<lambda>x. t \<le> audit_Timestamp x) (auditLogs s @ [e]))
    \<and> sorted_wrt (\<lambda>x y. audit_Timestamp x \<le> audit_Timestamp y) (ListAuditLogsSince t s')"
proof -
  have l: "auditLogs s' = auditLogs s @ [e]" using assms(1) by (auto simp: LogAudit_def Let_def)
  have ids: "audit_ID e = (if audit_ID entry = '''' then xid else audit_ID entry)"
      "audit_Timestamp e = (if IsZero (audit_Timestamp entry) then now else audit_Timestamp entry)"
    using assms(1) by (auto simp: LogAudit_def Let_def)
  have "ListAuditLogs (n + 1) 0 s' = Some (take (nat (n + 1)) (e # rev (auditLogs s)))"
    using page_end_eq [of 0 "n + 1" "rev (auditLogs s')"] assms by (simp add: ListAuditLogs_def l)
  moreover have "ListAuditLogs n 0 s = Some (take (nat n) (rev (auditLogs s)))"
    using page_end_eq [of 0 n "rev (auditLogs s)"] assms by (simp add: ListAuditLogs_def)
  moreover have "nat (n + 1) = Suc (nat n)" using assms(2) by simp
  moreover have "ListAuditLogsSince t s'
      = exchange_sort (older audit_Timestamp) (filter (\<lambda>x. t \<le> audit_Timestamp x) (auditLogs s @ [e]))"
    unfolding ListAuditLogsSince_def l by (rule arg_cong, rule filter_cong) auto
  ultimately show ?thesis
    by (intro conjI ids) (simp_all only: mset_exchange_sort exchange_sort_oldest_first take_Suc_Cons option.map)
qed

definition sample_entry :: AuditEntry where
  "sample_entry = \<lparr>audit_ID = '''', audit_Timestamp = 0, audit_Source = ''web'', audit_User = ''alice'',
     audit_Action = ''login'', audit_Resource = '''', audit_ResourceID = '''', audit_ResourceData = '''',
     audit_Details = '''', audit_IPAddress = '''', audit_Result = ''ok''\<rparr>"

theorem LogAudit_trail_witness:
  "ListAuditLogs 1 0 (snd (LogAudit sample_entry 7 ''x'' NewMemoryStore))
     = Some [sample_entry\<lparr>audit_ID := ''x'', audit_Timestamp := 7\<rparr>]"
proof -
  have "LogAudit sample_entry 7 ''x'' NewMemoryStore
      = (Inr (sample_entry\<lparr>audit_ID := ''x'', audit_Timestamp := 7\<rparr>), snd (LogAudit sample_entry 7 ''x'' NewMemoryStore))"
    by (simp add: LogAudit_def sample_entry_def IsZero_def Let_def)
  from LogAudit_trail [OF this, of 0 0] show ?thesis
    by (simp add: NewMemoryStore_def ListAuditLogs_def page_end_def)
qed

text \<open>Settings. A set is read back with its value, type and encryption flag, whether the setting
  existed or not; seeding a default afterwards never overwrites it, and no setting of another category
  or key is affected (categories contain no colon).\<close>

theorem SetSetting_survives_InitSetting:
  assumes "settings_wf s" and "CHR '':'' \<notin> set c"
    and "s' = snd (InitSetting i c k dv dvt de later (snd (SetSetting c k v vt e now xid s)))"
  shows "(\<exists>x. GetSetting c k s' = Inr x \<and> setting_Value x = v \<and> setting_ValueType x = vt \<and> setting_Encrypted x = e
          \<and> setting_UpdatedAt x = now)
    \<and> (\<forall>c2 k2. CHR '':'' \<notin> set c2 \<longrightarrow> (c2, k2) \<noteq> (c, k) \<longrightarrow> GetSetting c2 k2 s' = GetSetting c2 k2 s)"
proof -
  let ?s1 = "snd (SetSetting c k v vt e now xid s)"
  have o: "own_refs (settings s) (settingObjs s)" "own_refs (settings ?s1) (settingObjs ?s1)"
    using assms(1) settings_ops_wf(1) [OF assms(1)] by (simp_all add: settings_wf_def)
  have d: "deref (settings s') (settingObjs s') = deref (settings ?s1) (settingObjs ?s1)"
    using InitSetting_deref [OF o(2) assms(3)] SetSetting_deref [OF o(1) refl, of c k v vt e now xid] by simp
  have ne: "settingKey c2 k2 \<noteq> settingKey c k" if "CHR '':'' \<notin> set c2" "(c2, k2) \<noteq> (c, k)" for c2 k2
    using colon_split_unique [of c2 k2 c k] that assms(2) by (auto simp: settingKey_def)
  show ?thesis
    using ne by (auto simp: GetSetting_def d SetSetting_deref [OF o(1) refl] new_setting_def split: option.splits)
qed

theorem SetSetting_survives_InitSetting_witness:
  "\<exists>x. GetSetting ''ui'' ''theme''
        (snd (InitSetting ''i'' ''ui'' ''theme'' ''light'' ''string'' False 9
          (snd (SetSetting ''ui'' ''theme'' ''dark'' ''string'' False 5 ''x'' NewMemoryStore)))) = Inr x
     \<and> setting_Value x = ''dark''"
  using SetSetting_survives_InitSetting [where s = NewMemoryStore and c = "''ui''" and k = "''theme''" and i = "''i''"
      and dv = "''light''" and dvt = "''string''" and de = False and later = 9 and v = "''dark''" and vt = "''string''"
      and e = False and now = 5 and xid = "''x''", OF _ _ refl] by auto

text \<open>Counting requests in a fixed window. After \<open>n + 1\<close> requests for the same key and bucket in one
  window that had not been used, the count is \<open>n + 1\<close> while the window is current and 0 once it has
  ended; other keys and buckets keep their counts (keys contain no colon).\<close>

theorem RecordRateLimitRequest_counts:
  assumes "ratelimits_wf s" and "CHR '':'' \<notin> set key" and "int (length calls) < 2 ^ 62"
    and "\<And>x. deref (rateLimits s) (rateLimitObjs s) (rateLimitKey key bucket) = Some x \<Longrightarrow> rl_WindowStart x \<noteq> ws"
    and "s' = fold (record_call key bucket ws we) (c # calls) s"
  shows "GetRateLimitCount key bucket since s' = (if we < since then 0 else int (length calls) + 1)
    \<and> (\<forall>key2 bucket2. CHR '':'' \<notin> set key2 \<longrightarrow> (key2, bucket2) \<noteq> (key, bucket)
         \<longrightarrow> GetRateLimitCount key2 bucket2 since s' = GetRateLimitCount key2 bucket2 since s)"
proof -
  let ?f = "record_call key bucket ws we"
  let ?k = "rateLimitKey key bucket"
  let ?m = "\<lambda>s. deref (rateLimits s) (rateLimitObjs s)"
  obtain now xid where c: "c = (now, xid)" by (cases c)
  have o: "own_refs (rateLimits s) (rateLimitObjs s)" using assms(1) by (simp add: ratelimits_wf_def)
  let ?new = "\<lparr>rl_ID = xid, rl_Key = key, rl_Bucket = bucket, rl_Count = 1, rl_WindowStart = ws, rl_WindowEnd = we\<rparr>"
  have m1: "?m (?f c s) = (?m s)(?k \<mapsto> ?new)"
    using RecordRateLimitRequest_deref [OF o refl, of key bucket ws we now xid] assms(4)
    by (auto simp: c Let_def record_call_def split: option.splits)
  have wf1: "ratelimits_wf (?f c s)" using RecordRateLimitRequest_wf [OF assms(1)] by (simp add: record_call_def)
  have "?m (?f c s) ?k = Some ?new" by (simp add: m1)
  from record_calls_count [OF wf1 this, of ws we 1 calls] assms(3) obtain x where
    x: "?m s' = (?m (?f c s))(?k \<mapsto> x)" "rl_WindowEnd x = we" "rl_Count x = 1 + int (length calls)"
    by (auto simp: assms(5))
  then have m': "?m s' = (?m s)(?k \<mapsto> x)" by (simp add: m1)
  have ne: "rateLimitKey key2 bucket2 \<noteq> ?k" if "CHR '':'' \<notin> set key2" "(key2, bucket2) \<noteq> (key, bucket)" for key2 bucket2
    using colon_split_unique [of key2 bucket2 key bucket] that assms(2) by (auto simp: rateLimitKey_def)
  show ?thesis using ne x(2,3) by (simp add: GetRateLimitCount_def m')
qed

theorem RecordRateLimitRequest_counts_witness:
  "GetRateLimitCount ''ip'' ''login'' 50
     (fold (record_call ''ip'' ''login'' 0 100) [(1, ''a''), (2, ''b'')] NewMemoryStore) = 2"
proof -
  have "\<And>x. deref (rateLimits NewMemoryStore) (rateLimitObjs NewMemoryStore) (rateLimitKey ''ip'' ''login'') = Some x
      \<Longrightarrow> rl_WindowStart x \<noteq> 0"
    by (simp add: NewMemoryStore_def)
  from RecordRateLimitRequest_counts [OF ratelimits_wf_new _ _ this refl, where calls = "[(2, ''b'')]" and since = 50 and we = 100 and c = "(1, ''a'')"]
  show ?thesis by simp
qed

text \<open>Blocking an address. A block of an address that has no entry takes effect at once and until it
  expires (for ever when it has no expiry); but while an expired entry is still stored, the address
  is not blocked and a new block of it is refused as a duplicate, without effect.\<close>

theorem BlockIP_spec:
  assumes "BlockIP block now xid s = (res, s')"
  shows "case res of
      Inr b \<Rightarrow> (\<forall>t. IsIPBlocked (blk_IPAddress block) t s' \<longleftrightarrow> IsZero (blk_ExpiresAt block) \<or> t \<le> blk_ExpiresAt block)
        \<and> (\<forall>ip t. ip \<noteq> blk_IPAddress block \<longrightarrow> IsIPBlocked ip t s' = IsIPBlocked ip t s)
    | Inl err \<Rightarrow> err = ErrDuplicate \<and> s' = s \<and> (\<exists>b. GetBlockedIP (blk_IPAddress block) s = Inr b
        \<and> (\<forall>t. \<not> IsZero (blk_ExpiresAt b) \<longrightarrow> blk_ExpiresAt b < t \<longrightarrow> \<not> IsIPBlocked (blk_IPAddress block) t s'))"
  using assms
  by (cases "blockedIPs s (blk_IPAddress block)")
    (auto simp: BlockIP_def IsIPBlocked_def GetBlockedIP_def Let_def not_less)

definition sample_block :: BlockedIP where
  "sample_block = \<lparr>blk_ID = '''', blk_IPAddress = ''10.0.0.1'', blk_Reason = '''', blk_BlockedAt = 0,
     blk_ExpiresAt = 10, blk_BlockedBy = ''''\<rparr>"

theorem BlockIP_spec_witness:
  "fst (BlockIP sample_block 20 ''y'' (snd (BlockIP sample_block 5 ''x'' NewMemoryStore))) = Inl ErrDuplicate
   \<and> \<not> IsIPBlocked ''10.0.0.1'' 20 (snd (BlockIP sample_block 20 ''y'' (snd (BlockIP sample_block 5 ''x'' NewMemoryStore))))"
proof -
  let ?s = "snd (BlockIP sample_block 5 ''x'' NewMemoryStore)"
  note ev = BlockIP_def sample_block_def NewMemoryStore_def IsZero_def Let_def
  have f: "fst (BlockIP sample_block 20 ''y'' ?s) = Inl ErrDuplicate" by (simp add: ev)
  then have "BlockIP sample_block 20 ''y'' ?s = (Inl ErrDuplicate, snd (BlockIP sample_block 20 ''y'' ?s))"
    by (metis prod.collapse)
  from BlockIP_spec [OF this, unfolded sum.case] obtain b where
    b: "GetBlockedIP (blk_IPAddress sample_block) ?s = Inr b"
    "\<forall>t. \<not> IsZero (blk_ExpiresAt b) \<longrightarrow> blk_ExpiresAt b < t
       \<longrightarrow> \<not> IsIPBlocked (blk_IPAddress sample_block) t (snd (BlockIP sample_block 20 ''y'' ?s))" by blast
  have "blk_ExpiresAt b = 10" using b(1) by (auto simp: ev GetBlockedIP_def)
  then have "\<not> IsIPBlocked (blk_IPAddress sample_block) 20 (snd (BlockIP sample_block 20 ''y'' ?s))"
    using b(2) by (simp add: IsZero_def)
  with f show ?thesis by (simp add: sample_block_def)
qed

end
