(* ===== verification/Mem_Agents.thy ===== *)
theory Mem_Agents
  imports Mem_Deployments Go_Strings
begin

text \<open>
  \<open>internal/storage/memory_agents.go\<close>: the agents, their binaries and their update history. Agents
  are changed through the stored pointer. The labels of an agent are a value here: the copies of the
  label map that the code makes on every read are the identity.
\<close>

section \<open>Agents\<close>

definition obj_of :: "('k \<rightharpoonup> ref) \<Rightarrow> 'a heap \<Rightarrow> 'k \<Rightarrow> (ref \<times> 'a) option" where
  "obj_of m h k = Option.bind (m k) (\<lambda>r. map_option (Pair r) (load h r))"

definition UpsertAgent :: "Agent \<Rightarrow> time \<Rightarrow> MemoryStore \<Rightarrow> Agent result \<times> MemoryStore" where
  "UpsertAgent agent now s =
     (case obj_of (agents s) (agentObjs s) (agent_ID agent) of
        Some (r, existing) \<Rightarrow>
          (let e = existing\<lparr>agent_Hostname := agent_Hostname agent, agent_Labels := agent_Labels agent,
                            agent_Capabilities := agent_Capabilities agent, agent_Status := agent_Status agent,
                            agent_LastSeenAt := now, agent_Certificate := agent_Certificate agent,
                            agent_Version := agent_Version agent, agent_OS := agent_OS agent,
                            agent_Arch := agent_Arch agent\<rparr>;
               e = (if agent_UpdatePolicy agent \<noteq> '''' then e\<lparr>agent_UpdatePolicy := agent_UpdatePolicy agent\<rparr> else e);
               e = (if agent_UpdateWindowStart agent \<noteq> ''''
                    then e\<lparr>agent_UpdateWindowStart := agent_UpdateWindowStart agent\<rparr> else e);
               e = (if agent_UpdateWindowEnd agent \<noteq> ''''
                    then e\<lparr>agent_UpdateWindowEnd := agent_UpdateWindowEnd agent\<rparr> else e)
           in (Inr agent,
               s\<lparr>agentObjs := assign (agentObjs s) r e,
                 agentsWrites := queueWrite (agentsWrites s) (NewWriteOp WriteOpUpdate ''agents'' (AgentPtr r) now)\<rparr>))
      | None \<Rightarrow>
          (let a = agent\<lparr>agent_RegisteredAt := now, agent_LastSeenAt := now\<rparr>;
               a = (if agent_Status a = '''' then a\<lparr>agent_Status := AgentStatusOnline\<rparr> else a);
               a = (if agent_UpdatePolicy a = '''' then a\<lparr>agent_UpdatePolicy := AgentUpdatePolicyImmediate\<rparr> else a);
               (stored, objs) = new_obj a (agentObjs s)
           in (Inr a,
               s\<lparr>agentObjs := objs, agents := (agents s)(agent_ID a \<mapsto> stored),
                 agentsWrites := queueWrite (agentsWrites s)
                   (NewWriteOp WriteOpInsert ''agents'' (AgentPtr stored) now)\<rparr>)))"

definition GetAgent :: "string \<Rightarrow> MemoryStore \<Rightarrow> Agent result" where
  "GetAgent i s = (case deref (agents s) (agentObjs s) i of None \<Rightarrow> Inl ErrNotFound | Some a \<Rightarrow> Inr a)"

definition ListAgents :: "string list \<Rightarrow> MemoryStore \<Rightarrow> Agent list" where
  "ListAgents ks s = range_objs ks (agents s) (agentObjs s)"

definition ListAgentsPaginated :: "int \<Rightarrow> int \<Rightarrow> string list \<Rightarrow> MemoryStore \<Rightarrow> Agent list option" where
  "ListAgentsPaginated limit offset ks s = page_end (range_objs ks (agents s) (agentObjs s)) limit offset"

definition CountAgents :: "MemoryStore \<Rightarrow> int" where
  "CountAgents s = int (card (dom (agents s)))"

definition CountAgentsByStatus :: "string list \<Rightarrow> MemoryStore \<Rightarrow> (string \<rightharpoonup> int)" where
  "CountAgentsByStatus ks s = count_by agent_Status (range_objs ks (agents s) (agentObjs s))"

definition DeleteAgent :: "string \<Rightarrow> time \<Rightarrow> MemoryStore \<Rightarrow> unit result \<times> MemoryStore" where
  "DeleteAgent i now s =
     (if agents s i = None then (Inl ErrNotFound, s)
      else (Inr (),
            s\<lparr>agents := (agents s)(i := None),
              agentUpdates := delete_objs (\<lambda>hist. hist_AgentID hist = i) (agentUpdates s) (historyObjs s),
              agentsWrites := queueWrite (agentsWrites s) (NewWriteOp WriteOpDelete ''agents'' (StringData i) now)\<rparr>))"

text \<open>The three operations that change fields of one agent.\<close>

definition modify_agent :: "string \<Rightarrow> (Agent \<Rightarrow> Agent) \<Rightarrow> time \<Rightarrow> MemoryStore \<Rightarrow> unit result \<times> MemoryStore" where
  "modify_agent agentID f now s =
     (case obj_of (agents s) (agentObjs s) agentID of
        None \<Rightarrow> (Inl ErrNotFound, s)
      | Some (r, agent) \<Rightarrow>
          (Inr (),
           s\<lparr>agentObjs := assign (agentObjs s) r (f agent),
             agentsWrites := queueWrite (agentsWrites s) (NewWriteOp WriteOpUpdate ''agents'' (AgentPtr r) now)\<rparr>))"

definition UpdateAgentVersion :: "string \<Rightarrow> string \<Rightarrow> time \<Rightarrow> MemoryStore \<Rightarrow> unit result \<times> MemoryStore" where
  "UpdateAgentVersion agentID version now =
     modify_agent agentID
       (\<lambda>agent. agent\<lparr>agent_Version := version, agent_LastUpdateAt := Some now, agent_LastUpdateError := ''''\<rparr>) now"

definition UpdateAgentUpdateError :: "string \<Rightarrow> string \<Rightarrow> time \<Rightarrow> MemoryStore \<Rightarrow> unit result \<times> MemoryStore" where
  "UpdateAgentUpdateError agentID errorMsg now =
     modify_agent agentID (\<lambda>agent. agent\<lparr>agent_LastUpdateError := errorMsg\<rparr>) now"

definition UpdateAgentUpdatePolicy ::
  "string \<Rightarrow> string \<Rightarrow> string \<Rightarrow> string \<Rightarrow> time \<Rightarrow> MemoryStore \<Rightarrow> unit result \<times> MemoryStore" where
  "UpdateAgentUpdatePolicy agentID policy windowStart windowEnd now =
     modify_agent agentID
       (\<lambda>agent. agent\<lparr>agent_UpdatePolicy := policy, agent_UpdateWindowStart := windowStart,
                      agent_UpdateWindowEnd := windowEnd\<rparr>) now"

section \<open>Update windows\<close>

text \<open>The digits are accumulated in an \<open>int\<close>, which wraps; an empty string is 0.\<close>

fun parse_digits :: "int \<Rightarrow> string \<Rightarrow> int option" where
  "parse_digits v [] = Some v"
| "parse_digits v (c # cs) =
     (case digit_value c of None \<Rightarrow> None | Some d \<Rightarrow> parse_digits (wrap64 (v * 10 + d)) cs)"

definition parseTimeComponent :: "string \<Rightarrow> int option" where
  "parseTimeComponent s = parse_digits 0 s"

text \<open>\<open>nowHour\<close> and \<open>nowMinute\<close> are \<open>now.Hour()\<close> and \<open>now.Minute()\<close>.\<close>

definition isInUpdateWindow :: "int \<Rightarrow> int \<Rightarrow> string \<Rightarrow> string \<Rightarrow> bool" where
  "isInUpdateWindow nowHour nowMinute windowStart windowEnd =
     (if windowStart = '''' \<or> windowEnd = '''' then False
      else
        (let startParts = Split windowStart CHR '':''; endParts = Split windowEnd CHR '':''
         in if length startParts \<noteq> 2 \<or> length endParts \<noteq> 2 then False
            else
              (let nowMinutes = nowHour * 60 + nowMinute
               in case parseTimeComponent (startParts ! 0) of None \<Rightarrow> False | Some startHour \<Rightarrow>
                  (case parseTimeComponent (startParts ! 1) of None \<Rightarrow> False | Some startMin \<Rightarrow>
                  (case parseTimeComponent (endParts ! 0) of None \<Rightarrow> False | Some endHour \<Rightarrow>
                  (case parseTimeComponent (endParts ! 1) of None \<Rightarrow> False | Some endMin \<Rightarrow>
                    (let startMinutes = wrap64 (startHour * 60 + startMin);
                         endMinutes = wrap64 (endHour * 60 + endMin)
                     in if endMinutes < startMinutes
                        then nowMinutes \<ge> startMinutes \<or> nowMinutes \<le> endMinutes
                        else nowMinutes \<ge> startMinutes \<and> nowMinutes \<le> endMinutes)))))))"

definition ListAgentsNeedingUpdate :: "int \<Rightarrow> int \<Rightarrow> string list \<Rightarrow> MemoryStore \<Rightarrow> Agent list" where
  "ListAgentsNeedingUpdate nowHour nowMinute ks s =
     filter (\<lambda>a. if agent_UpdatePolicy a = AgentUpdatePolicyManual then False
                 else if agent_UpdatePolicy a = AgentUpdatePolicyImmediate then True
                 else agent_UpdatePolicy a = AgentUpdatePolicyScheduled
                   \<and> isInUpdateWindow nowHour nowMinute (agent_UpdateWindowStart a) (agent_UpdateWindowEnd a))
       (range_objs ks (agents s) (agentObjs s))"

section \<open>Agent binaries\<close>

definition same_platform :: "string \<Rightarrow> string \<Rightarrow> AgentBinary \<Rightarrow> bool" where
  "same_platform os arch b \<longleftrightarrow> bin_OS b = os \<and> bin_Arch b = arch"

definition CreateAgentBinary ::
  "AgentBinary \<Rightarrow> time \<Rightarrow> string \<Rightarrow> string list \<Rightarrow> MemoryStore \<Rightarrow> AgentBinary result \<times> MemoryStore" where
  "CreateAgentBinary binary now xid ks s =
     (if list_ex (\<lambda>b. bin_Version b = bin_Version binary \<and> same_platform (bin_OS binary) (bin_Arch binary) b)
           (range_objs ks (agentBinaries s) (binaryObjs s))
      then (Inl ErrDuplicate, s)
      else
        (let binary = (if bin_ID binary = '''' then binary\<lparr>bin_ID := xid\<rparr> else binary);
             binary = binary\<lparr>bin_UploadedAt := now\<rparr>;
             (stored, objs) = new_obj binary (binaryObjs s)
         in (Inr binary,
             s\<lparr>binaryObjs := objs, agentBinaries := (agentBinaries s)(bin_ID binary \<mapsto> stored),
               agentsWrites := queueWrite (agentsWrites s)
                 (NewWriteOp WriteOpInsert ''agent_binaries'' (AgentBinaryPtr stored) now)\<rparr>)))"

definition GetAgentBinary :: "string \<Rightarrow> MemoryStore \<Rightarrow> AgentBinary result" where
  "GetAgentBinary i s =
     (case deref (agentBinaries s) (binaryObjs s) i of None \<Rightarrow> Inl ErrNotFound | Some b \<Rightarrow> Inr b)"

definition GetAgentBinaryByVersion ::
  "string \<Rightarrow> string \<Rightarrow> string \<Rightarrow> string list \<Rightarrow> MemoryStore \<Rightarrow> AgentBinary result" where
  "GetAgentBinaryByVersion version os arch ks s =
     (case find_obj (\<lambda>b. bin_Version b = version \<and> same_platform os arch b) ks (agentBinaries s) (binaryObjs s) of
        None \<Rightarrow> Inl ErrNotFound | Some (i, r, b) \<Rightarrow> Inr b)"

definition GetCurrentAgentBinary ::
  "string \<Rightarrow> string \<Rightarrow> string list \<Rightarrow> MemoryStore \<Rightarrow> AgentBinary result" where
  "GetCurrentAgentBinary os arch ks s =
     (case find_obj (\<lambda>b. bin_IsCurrent b \<and> same_platform os arch b) ks (agentBinaries s) (binaryObjs s) of
        None \<Rightarrow> Inl ErrNotFound | Some (i, r, b) \<Rightarrow> Inr b)"

definition ListAgentBinaries :: "string list \<Rightarrow> MemoryStore \<Rightarrow> AgentBinary list" where
  "ListAgentBinaries ks s = range_objs ks (agentBinaries s) (binaryObjs s)"

text \<open>One turn of the loop that unsets the current binary of the platform.\<close>

definition unset_current :: "string \<Rightarrow> string \<Rightarrow> time \<Rightarrow> string \<Rightarrow> MemoryStore \<Rightarrow> MemoryStore" where
  "unset_current os arch now i s =
     (case obj_of (agentBinaries s) (binaryObjs s) i of
        None \<Rightarrow> s
      | Some (r, b) \<Rightarrow>
          if same_platform os arch b \<and> bin_IsCurrent b
          then s\<lparr>binaryObjs := assign (binaryObjs s) r (b\<lparr>bin_IsCurrent := False\<rparr>),
                 agentsWrites := queueWrite (agentsWrites s)
                   (NewWriteOp WriteOpUpdate ''agent_binaries'' (AgentBinaryPtr r) now)\<rparr>
          else s)"

definition SetCurrentAgentBinary ::
  "string \<Rightarrow> time \<Rightarrow> string list \<Rightarrow> MemoryStore \<Rightarrow> unit result \<times> MemoryStore" where
  "SetCurrentAgentBinary i now ks s =
     (case obj_of (agentBinaries s) (binaryObjs s) i of
        None \<Rightarrow> (Inl ErrNotFound, s)
      | Some (r, target) \<Rightarrow>
          (let s = fold (unset_current (bin_OS target) (bin_Arch target) now) ks s
           in case load (binaryObjs s) r of
                None \<Rightarrow> (Inr (), s)
              | Some t \<Rightarrow>
                  (Inr (),
                   s\<lparr>binaryObjs := assign (binaryObjs s) r (t\<lparr>bin_IsCurrent := True\<rparr>),
                     agentsWrites := queueWrite (agentsWrites s)
                       (NewWriteOp WriteOpUpdate ''agent_binaries'' (AgentBinaryPtr r) now)\<rparr>)))"

definition DeleteAgentBinary :: "string \<Rightarrow> time \<Rightarrow> MemoryStore \<Rightarrow> unit result \<times> MemoryStore" where
  "DeleteAgentBinary i now s =
     (if agentBinaries s i = None then (Inl ErrNotFound, s)
      else (Inr (),
            s\<lparr>agentBinaries := (agentBinaries s)(i := None),
              agentsWrites := queueWrite (agentsWrites s) (NewWriteOp WriteOpDelete ''agent_binaries'' (StringData i) now)\<rparr>))"

section \<open>Update history\<close>

definition CreateAgentUpdateHistory ::
  "AgentUpdateHistory \<Rightarrow> time \<Rightarrow> string \<Rightarrow> MemoryStore \<Rightarrow> AgentUpdateHistory result \<times> MemoryStore" where
  "CreateAgentUpdateHistory history now xid s =
     (let history = (if hist_ID history = '''' then history\<lparr>hist_ID := xid\<rparr> else history);
          history = history\<lparr>hist_StartedAt := now\<rparr>;
          history = (if hist_Status history = '''' then history\<lparr>hist_Status := UpdateStatusPending\<rparr> else history);
          (stored, objs) = new_obj history (historyObjs s)
      in (Inr history,
          s\<lparr>historyObjs := objs, agentUpdates := (agentUpdates s)(hist_ID history \<mapsto> stored),
            agentsWrites := queueWrite (agentsWrites s)
              (NewWriteOp WriteOpInsert ''agent_update_history'' (AgentUpdatePtr stored) now)\<rparr>))"

definition GetAgentUpdateHistory :: "string \<Rightarrow> MemoryStore \<Rightarrow> AgentUpdateHistory result" where
  "GetAgentUpdateHistory i s =
     (case deref (agentUpdates s) (historyObjs s) i of None \<Rightarrow> Inl ErrNotFound | Some h \<Rightarrow> Inr h)"

definition UpdateAgentUpdateHistory ::
  "AgentUpdateHistory \<Rightarrow> time \<Rightarrow> MemoryStore \<Rightarrow> unit result \<times> MemoryStore" where
  "UpdateAgentUpdateHistory history now s =
     (case obj_of (agentUpdates s) (historyObjs s) (hist_ID history) of
        None \<Rightarrow> (Inl ErrNotFound, s)
      | Some (r, existing) \<Rightarrow>
          (Inr (),
           s\<lparr>historyObjs := assign (historyObjs s) r
               (existing\<lparr>hist_Status := hist_Status history, hist_ErrorMessage := hist_ErrorMessage history,
                         hist_CompletedAt := hist_CompletedAt history, hist_RolledBack := hist_RolledBack history\<rparr>),
             agentsWrites := queueWrite (agentsWrites s)
               (NewWriteOp WriteOpUpdate ''agent_update_history'' (AgentUpdatePtr r) now)\<rparr>))"

definition ListAgentUpdateHistory ::
  "string \<Rightarrow> int \<Rightarrow> int \<Rightarrow> string list \<Rightarrow> MemoryStore \<Rightarrow> (AgentUpdateHistory list \<times> int) option" where
  "ListAgentUpdateHistory agentID limit offset ks s =
     (let all = exchange_sort (newer hist_StartedAt)
            (filter (\<lambda>h. hist_AgentID h = agentID) (range_objs ks (agentUpdates s) (historyObjs s)))
      in map_option (\<lambda>page. (page, int (length all))) (page_end all limit offset))"

definition ListAllAgentUpdateHistory ::
  "int \<Rightarrow> int \<Rightarrow> string list \<Rightarrow> MemoryStore \<Rightarrow> (AgentUpdateHistory list \<times> int) option" where
  "ListAllAgentUpdateHistory limit offset ks s =
     (let all = exchange_sort (newer hist_StartedAt) (range_objs ks (agentUpdates s) (historyObjs s))
      in map_option (\<lambda>page. (page, int (length all))) (page_end all limit offset))"

definition later_history ::
  "AgentUpdateHistory \<Rightarrow> AgentUpdateHistory option \<Rightarrow> AgentUpdateHistory option" where
  "later_history h latest =
     (case latest of
        None \<Rightarrow> Some h
      | Some l \<Rightarrow> if hist_StartedAt h > hist_StartedAt l then Some h else Some l)"

definition GetLatestAgentUpdateHistory ::
  "string \<Rightarrow> string list \<Rightarrow> MemoryStore \<Rightarrow> AgentUpdateHistory result" where
  "GetLatestAgentUpdateHistory agentID ks s =
     (case fold (\<lambda>h latest. if hist_AgentID h = agentID then later_history h latest else latest)
             (range_objs ks (agentUpdates s) (historyObjs s)) None of
        None \<Rightarrow> Inl ErrNotFound | Some latest \<Rightarrow> Inr latest)"

section \<open>Invariant\<close>

definition agents_wf :: "MemoryStore \<Rightarrow> bool" where
  "agents_wf s \<longleftrightarrow>
     own_refs (agents s) (agentObjs s) \<and> keyed_by agent_ID (deref (agents s) (agentObjs s)) \<and>
     own_refs (agentBinaries s) (binaryObjs s) \<and> own_refs (agentUpdates s) (historyObjs s)"

lemma obj_of_Some: "obj_of m h k = Some (r, x) \<longleftrightarrow> m k = Some r \<and> load h r = Some x"
  by (auto simp: obj_of_def bind_eq_Some_conv)

lemma obj_of_None: "obj_of m h k = None \<longleftrightarrow> deref m h k = None"
  by (cases "m k") (simp_all add: obj_of_def deref_def)

lemma obj_of_deref: "map_option snd (obj_of m h k) = deref m h k"
  by (cases "m k") (simp_all add: obj_of_def deref_def option.map_comp o_def option.map_ident)

lemma deref_obj: "deref m h k = Some x \<Longrightarrow> \<exists>r. obj_of m h k = Some (r, x)"
  by (auto simp: obj_of_Some deref_Some_iff)

text \<open>What an upsert leaves of the agent, old and new.\<close>

definition upserted :: "Agent \<Rightarrow> time \<Rightarrow> Agent option \<Rightarrow> Agent" where
  "upserted agent now old =
     (case old of
        None \<Rightarrow> agent\<lparr>agent_RegisteredAt := now, agent_LastSeenAt := now,
            agent_Status := (if agent_Status agent = '''' then AgentStatusOnline else agent_Status agent),
            agent_UpdatePolicy := (if agent_UpdatePolicy agent = '''' then AgentUpdatePolicyImmediate
                                   else agent_UpdatePolicy agent)\<rparr>
      | Some e \<Rightarrow> e\<lparr>agent_Hostname := agent_Hostname agent, agent_Labels := agent_Labels agent,
            agent_Capabilities := agent_Capabilities agent, agent_Status := agent_Status agent,
            agent_LastSeenAt := now, agent_Certificate := agent_Certificate agent,
            agent_Version := agent_Version agent, agent_OS := agent_OS agent, agent_Arch := agent_Arch agent,
            agent_UpdatePolicy := (if agent_UpdatePolicy agent = '''' then agent_UpdatePolicy e
                                   else agent_UpdatePolicy agent),
            agent_UpdateWindowStart := (if agent_UpdateWindowStart agent = '''' then agent_UpdateWindowStart e
                                        else agent_UpdateWindowStart agent),
            agent_UpdateWindowEnd := (if agent_UpdateWindowEnd agent = '''' then agent_UpdateWindowEnd e
                                      else agent_UpdateWindowEnd agent)\<rparr>)"

lemma UpsertAgent_deref:
  assumes o: "own_refs (agents s) (agentObjs s)" and s': "s' = snd (UpsertAgent a now s)"
  shows "deref (agents s') (agentObjs s') =
      (deref (agents s) (agentObjs s))(agent_ID a \<mapsto> upserted a now (deref (agents s) (agentObjs s) (agent_ID a)))
    \<and> own_refs (agents s') (agentObjs s')"
proof (cases "deref (agents s) (agentObjs s) (agent_ID a)")
  case None
  then have n: "obj_of (agents s) (agentObjs s) (agent_ID a) = None" by (simp add: obj_of_None)
  show ?thesis
    unfolding s' UpsertAgent_def n option.case None upserted_def
    by (simp add: new_obj_def Let_def deref_new [OF o] own_refs_new [OF o])
next
  case (Some e)
  then obtain r where r: "obj_of (agents s) (agentObjs s) (agent_ID a) = Some (r, e)" by (blast dest: deref_obj)
  then have "agents s (agent_ID a) = Some r" by (simp add: obj_of_Some)
  then show ?thesis
    unfolding s' UpsertAgent_def r option.case Some upserted_def
    by (simp add: Let_def deref_assign [OF o] own_refs_assign [OF o])
qed

text \<open>The table of binaries read through its pointers; clearing the mark of one platform.\<close>

definition binaries :: "MemoryStore \<Rightarrow> (string \<rightharpoonup> AgentBinary)" where
  "binaries s = deref (agentBinaries s) (binaryObjs s)"

definition clear_current :: "string \<Rightarrow> string \<Rightarrow> AgentBinary \<Rightarrow> AgentBinary" where
  "clear_current os arch b = (if same_platform os arch b then b\<lparr>bin_IsCurrent := False\<rparr> else b)"

lemma clear_current_idem: "map_option (clear_current os arch) (map_option (clear_current os arch) x) = map_option (clear_current os arch) x"
  by (cases x) (auto simp: clear_current_def same_platform_def)

lemma clear_current_not: "same_platform os arch (clear_current os arch b) \<Longrightarrow> \<not> bin_IsCurrent (clear_current os arch b)"
  by (auto simp: clear_current_def same_platform_def)

lemma unset_current_binaries:
  assumes o: "own_refs (agentBinaries s) (binaryObjs s)" and s': "s' = unset_current os arch now i s"
  shows "binaries s' = (\<lambda>j. if j = i then map_option (clear_current os arch) (binaries s j) else binaries s j)"
    and "own_refs (agentBinaries s') (binaryObjs s')" and "agentBinaries s' = agentBinaries s"
proof -
  have "binaries s' = (\<lambda>j. if j = i then map_option (clear_current os arch) (binaries s j) else binaries s j)
      \<and> own_refs (agentBinaries s') (binaryObjs s') \<and> agentBinaries s' = agentBinaries s"
  proof (cases "obj_of (agentBinaries s) (binaryObjs s) i")
    case None
    then have "binaries s i = None" by (simp add: obj_of_None binaries_def)
    with None o show ?thesis by (auto simp: s' unset_current_def)
  next
    case (Some x)
    obtain r b where x: "x = (r, b)" by (cases x)
    with Some have b: "agentBinaries s i = Some r" "deref (agentBinaries s) (binaryObjs s) i = Some b"
      by (auto simp: obj_of_Some deref_def)
    have "b\<lparr>bin_IsCurrent := False\<rparr> = b" if "\<not> bin_IsCurrent b" using that by simp
    with Some x b o deref_assign [OF o b(1)] show ?thesis
      by (auto simp: s' unset_current_def own_refs_assign binaries_def clear_current_def)
  qed
  then show "binaries s' = (\<lambda>j. if j = i then map_option (clear_current os arch) (binaries s j) else binaries s j)"
    and "own_refs (agentBinaries s') (binaryObjs s')" and "agentBinaries s' = agentBinaries s" by blast+
qed

lemma unset_all_binaries:
  assumes "own_refs (agentBinaries s) (binaryObjs s)"
  shows "binaries (fold (unset_current os arch now) ks s)
        = (\<lambda>j. if j \<in> set ks then map_option (clear_current os arch) (binaries s j) else binaries s j)
    \<and> own_refs (agentBinaries (fold (unset_current os arch now) ks s)) (binaryObjs (fold (unset_current os arch now) ks s))
    \<and> agentBinaries (fold (unset_current os arch now) ks s) = agentBinaries s"
  using assms
proof (induction ks arbitrary: s)
  case Nil
  then show ?case by simp
next
  case (Cons i ks)
  note u = unset_current_binaries [OF Cons.prems refl, of os arch now i]
  show ?case using Cons.IH [OF u(2)] by (auto simp: u(1,3) clear_current_idem fun_eq_iff)
qed

lemma SetCurrentAgentBinary_binaries:
  assumes o: "own_refs (agentBinaries s) (binaryObjs s)" and ks: "enumerates ks (agentBinaries s)"
    and t: "binaries s i = Some target" and s': "s' = snd (SetCurrentAgentBinary i now ks s)"
  shows "binaries s' = (\<lambda>j. if j = i then Some (target\<lparr>bin_IsCurrent := True\<rparr>)
      else map_option (clear_current (bin_OS target) (bin_Arch target)) (binaries s j))"
    and "agentBinaries s' = agentBinaries s"
proof -
  obtain r where r: "obj_of (agentBinaries s) (binaryObjs s) i = Some (r, target)"
    using deref_obj t by (metis binaries_def)
  then have ir: "agentBinaries s i = Some r" by (simp add: obj_of_Some)
  let ?u = "fold (unset_current (bin_OS target) (bin_Arch target) now) ks s"
  have ub: "binaries ?u = (\<lambda>j. if j \<in> set ks then map_option (clear_current (bin_OS target) (bin_Arch target)) (binaries s j) else binaries s j)"
    and ou: "own_refs (agentBinaries ?u) (binaryObjs ?u)" and ua: "agentBinaries ?u = agentBinaries s"
    using unset_all_binaries [OF o] by blast+
  have in_ks: "j \<in> set ks" if "binaries s j \<noteq> None" for j
    using that ks deref_None_iff [OF o, of j] by (auto simp: enumerates_def binaries_def dom_def)
  have ub': "binaries ?u j = map_option (clear_current (bin_OS target) (bin_Arch target)) (binaries s j)" for j
    using in_ks [of j] by (cases "binaries s j") (simp_all add: ub)
  then have "binaries ?u i = Some (target\<lparr>bin_IsCurrent := False\<rparr>)"
    using t by (simp add: clear_current_def same_platform_def)
  then have "load (binaryObjs ?u) r = Some (target\<lparr>bin_IsCurrent := False\<rparr>)"
    using ir by (simp add: binaries_def deref_def ua)
  then have s'': "s' = ?u\<lparr>binaryObjs := assign (binaryObjs ?u) r (target\<lparr>bin_IsCurrent := True\<rparr>),
      agentsWrites := queueWrite (agentsWrites ?u) (NewWriteOp WriteOpUpdate ''agent_binaries'' (AgentBinaryPtr r) now)\<rparr>"
    by (simp add: s' SetCurrentAgentBinary_def r Let_def)
  have "agentBinaries ?u i = Some r" using ir by (simp add: ua)
  then have "binaries s' = (binaries ?u)(i \<mapsto> target\<lparr>bin_IsCurrent := True\<rparr>)"
    by (simp add: s'' binaries_def deref_assign [OF ou])
  then show "binaries s' = (\<lambda>j. if j = i then Some (target\<lparr>bin_IsCurrent := True\<rparr>)
      else map_option (clear_current (bin_OS target) (bin_Arch target)) (binaries s j))"
    by (auto simp: ub' fun_eq_iff)
  show "agentBinaries s' = agentBinaries s" by (simp add: s'' ua)
qed

subsection \<open>Update windows\<close>

text \<open>Times of day as the configuration writes them, and the reference definition of a window: the
  minutes since its start, counted round the clock, are at most its length.\<close>

definition digit :: "nat \<Rightarrow> char" where
  "digit n = char_of (48 + n)"

definition hhmm :: "nat \<Rightarrow> nat \<Rightarrow> string" where
  "hhmm h m = [digit (h div 10), digit (h mod 10), CHR '':'', digit (m div 10), digit (m mod 10)]"

definition in_window :: "int \<Rightarrow> int \<Rightarrow> int \<Rightarrow> bool" where
  "in_window t start end \<longleftrightarrow> (t - start) mod 1440 \<le> (end - start) mod 1440"

lemma of_char_digit: "n < 10 \<Longrightarrow> of_char (digit n) = 48 + n"
  by (simp add: digit_def)

lemma digit_value_digit: "n < 10 \<Longrightarrow> digit_value (digit n) = Some (int n)"
  by (simp add: digit_value_def of_char_digit)

lemma digit_not_colon: "n < 10 \<Longrightarrow> digit n \<noteq> CHR '':''"
proof
  assume n: "n < 10" and "digit n = CHR '':''"
  then have "of_char (digit n) = (of_char CHR '':'' :: nat)" by simp
  with n show False by (simp add: of_char_digit)
qed

lemma parse_two_digits:
  assumes "n < 100"
  shows "parseTimeComponent [digit (n div 10), digit (n mod 10)] = Some (int n)"
proof -
  have d: "n div 10 < 10" "n mod 10 < 10" using assms by auto
  have "wrap64 (int (n div 10)) = int (n div 10)" and "wrap64 (int (n div 10) * 10 + int (n mod 10)) = int n"
    using assms by (simp_all add: wrap64_id in_int64_small zdiv_int zmod_int)
  with d show ?thesis by (simp add: parseTimeComponent_def digit_value_digit)
qed

lemma Split_hhmm:
  "h < 100 \<Longrightarrow> m < 100 \<Longrightarrow>
   Split (hhmm h m) CHR '':'' = [[digit (h div 10), digit (h mod 10)], [digit (m div 10), digit (m mod 10)]]"
  by (simp add: hhmm_def digit_not_colon)

lemma window_cases:
  fixes t a b :: int
  assumes "0 \<le> t" "t < 1440" "0 \<le> a" "a < 1440" "0 \<le> b" "b < 1440"
  shows "in_window t a b \<longleftrightarrow> (if b < a then a \<le> t \<or> t \<le> b else a \<le> t \<and> t \<le> b)"
proof -
  have "(x - a) mod 1440 = (if a \<le> x then x - a else x - a + 1440)" if "0 \<le> x" "x < 1440" for x
  proof (cases "a \<le> x")
    case True
    with that assms show ?thesis by simp
  next
    case False
    have "(x - a) mod 1440 = (x - a + 1440) mod 1440" by simp
    also have "\<dots> = x - a + 1440" using False that assms by (intro mod_pos_pos_trivial) auto
    finally show ?thesis using False by simp
  qed
  with assms show ?thesis by (auto simp: in_window_def)
qed

section \<open>Properties\<close>

text \<open>An agent that registers again keeps what the server set for it. An unknown agent is stored with
  the registration time and the default status and policy; a known one keeps its registration time,
  its re-authentication secret, its last update and, unless the request names one, its update policy
  and window, and takes over what the agent reports. Other agents are not affected.\<close>

theorem UpsertAgent_spec:
  assumes "agents_wf s" and "s' = snd (UpsertAgent agent now s)"
  shows "(\<exists>a. GetAgent (agent_ID agent) s' = Inr a \<and> agent_LastSeenAt a = now
      \<and> agent_Version a = agent_Version agent \<and> agent_Labels a = agent_Labels agent
      \<and> (case GetAgent (agent_ID agent) s of
           Inl _ \<Rightarrow> agent_RegisteredAt a = now \<and> agent_HMACSecret a = agent_HMACSecret agent
             \<and> agent_Status a \<noteq> '''' \<and> agent_UpdatePolicy a \<noteq> ''''
         | Inr old \<Rightarrow> agent_RegisteredAt a = agent_RegisteredAt old \<and> agent_HMACSecret a = agent_HMACSecret old
             \<and> agent_LastUpdateAt a = agent_LastUpdateAt old
             \<and> (agent_UpdatePolicy agent = '''' \<longrightarrow> agent_UpdatePolicy a = agent_UpdatePolicy old)))
    \<and> (\<forall>i. i \<noteq> agent_ID agent \<longrightarrow> GetAgent i s' = GetAgent i s)
    \<and> keyed_by agent_ID (deref (agents s') (agentObjs s'))"
proof -
  have o: "own_refs (agents s) (agentObjs s)" and k: "keyed_by agent_ID (deref (agents s) (agentObjs s))"
    using assms(1) by (simp_all add: agents_wf_def)
  have d: "deref (agents s') (agentObjs s') = (deref (agents s) (agentObjs s))
      (agent_ID agent \<mapsto> upserted agent now (deref (agents s) (agentObjs s) (agent_ID agent)))"
    using UpsertAgent_deref [OF o assms(2)] by blast
  have "agent_ID (upserted agent now (deref (agents s) (agentObjs s) (agent_ID agent))) = agent_ID agent"
    using keyed_byD [OF k, of "agent_ID agent"]
    by (cases "deref (agents s) (agentObjs s) (agent_ID agent)") (simp_all add: upserted_def)
  then have "keyed_by agent_ID (deref (agents s') (agentObjs s'))" unfolding d by (intro keyed_by_upd k)
  moreover have "\<forall>i. i \<noteq> agent_ID agent \<longrightarrow> GetAgent i s' = GetAgent i s" by (simp add: GetAgent_def d)
  ultimately show ?thesis by (simp add: GetAgent_def d upserted_def split: option.splits)
qed

definition sample_agent :: Agent where
  "sample_agent = \<lparr>agent_ID = ''a1'', agent_Hostname = ''web1'', agent_Labels = Map.empty, agent_Capabilities = '''',
     agent_Status = '''', agent_LastSeenAt = 0, agent_RegisteredAt = 0, agent_Certificate = '''',
     agent_HMACSecret = ''k'', agent_Version = ''1.0'', agent_OS = ''linux'', agent_Arch = ''amd64'',
     agent_UpdatePolicy = '''', agent_UpdateWindowStart = '''', agent_UpdateWindowEnd = '''',
     agent_LastUpdateAt = None, agent_LastUpdateError = ''''\<rparr>"

lemma agents_wf_new: "agents_wf NewMemoryStore"
  by (simp add: agents_wf_def NewMemoryStore_def)

theorem UpsertAgent_spec_witness:
  "\<exists>a. GetAgent ''a1'' (snd (UpsertAgent sample_agent 5 NewMemoryStore)) = Inr a \<and> agent_LastSeenAt a = 5"
proof -
  have "agent_ID sample_agent = ''a1''" by (simp add: sample_agent_def)
  with UpsertAgent_spec [OF agents_wf_new refl, of sample_agent 5] show ?thesis by auto
qed

text \<open>Making a binary the current one leaves exactly that one current for its platform: whatever the
  order of the search it is the one found, and what is current on other platforms stays current.\<close>

theorem SetCurrentAgentBinary_unique:
  assumes "agents_wf s" and "enumerates ks (agentBinaries s)" and "GetAgentBinary i s = Inr target"
    and "s' = snd (SetCurrentAgentBinary i now ks s)" and "enumerates ks' (agentBinaries s')"
  shows "GetCurrentAgentBinary (bin_OS target) (bin_Arch target) ks' s' = Inr (target\<lparr>bin_IsCurrent := True\<rparr>)
    \<and> (\<forall>j b. GetAgentBinary j s = Inr b \<longrightarrow> \<not> same_platform (bin_OS target) (bin_Arch target) b
         \<longrightarrow> GetAgentBinary j s' = Inr b)"
proof -
  have o: "own_refs (agentBinaries s) (binaryObjs s)" using assms(1) by (simp add: agents_wf_def)
  have t: "binaries s i = Some target" using assms(3) by (simp add: GetAgentBinary_def binaries_def split: option.splits)
  note b = SetCurrentAgentBinary_binaries [OF o assms(2) t assms(4)]
  have "binaries s' i = Some (target\<lparr>bin_IsCurrent := True\<rparr>)" by (simp add: b(1))
  then obtain r where r: "agentBinaries s' i = Some r" "load (binaryObjs s') r = Some (target\<lparr>bin_IsCurrent := True\<rparr>)"
    by (auto simp: binaries_def deref_Some_iff)
  have "find_obj (\<lambda>b. bin_IsCurrent b \<and> same_platform (bin_OS target) (bin_Arch target) b) ks' (agentBinaries s') (binaryObjs s')
      = Some (i, r, target\<lparr>bin_IsCurrent := True\<rparr>)"
  proof (rule find_obj_unique [OF assms(5) r])
    fix j y
    assume "deref (agentBinaries s') (binaryObjs s') j = Some y"
      and y: "bin_IsCurrent y \<and> same_platform (bin_OS target) (bin_Arch target) y"
    then have "binaries s' j = Some y" by (simp add: binaries_def)
    with y show "j = i" using clear_current_not [of "bin_OS target" "bin_Arch target"]
      by (auto simp: b(1) split: if_splits)
  qed (simp add: same_platform_def)
  moreover have "GetAgentBinary j s' = Inr y"
    if "GetAgentBinary j s = Inr y" "\<not> same_platform (bin_OS target) (bin_Arch target) y" for j y
  proof -
    have "binaries s j = Some y" using that(1) by (simp add: GetAgentBinary_def binaries_def split: option.splits)
    moreover have "j \<noteq> i" using calculation t that(2) by (auto simp: same_platform_def)
    ultimately have "binaries s' j = Some y" using that(2) by (simp add: b(1) clear_current_def)
    then show ?thesis by (simp add: GetAgentBinary_def binaries_def)
  qed
  ultimately show ?thesis by (simp add: GetCurrentAgentBinary_def)
qed

definition sample_binary :: AgentBinary where
  "sample_binary = \<lparr>bin_ID = ''b1'', bin_Version = ''1.0'', bin_OS = ''linux'', bin_Arch = ''amd64'', bin_Path = '''',
     bin_ChecksumSHA256 = '''', bin_SizeBytes = 0, bin_UploadedAt = 0, bin_IsCurrent = False\<rparr>"

theorem SetCurrentAgentBinary_unique_witness:
  "GetCurrentAgentBinary ''linux'' ''amd64'' [''b1'']
     (snd (SetCurrentAgentBinary ''b1'' 3 [''b1''] (snd (CreateAgentBinary sample_binary 2 ''-'' [] NewMemoryStore))))
   = Inr (sample_binary\<lparr>bin_UploadedAt := 2, bin_IsCurrent := True\<rparr>)"
proof -
  let ?s = "snd (CreateAgentBinary sample_binary 2 ''-'' [] NewMemoryStore)"
  note ev = CreateAgentBinary_def NewMemoryStore_def sample_binary_def new_obj_def Let_def range_objs_def
    ref_range_def map_filter_simps
  have wf: "agents_wf ?s" by (simp add: agents_wf_def ev own_refs_def load_def)
  have e: "enumerates [''b1''] (agentBinaries ?s)" by (simp add: ev enumerates_def)
  have g: "GetAgentBinary ''b1'' ?s = Inr (sample_binary\<lparr>bin_UploadedAt := 2\<rparr>)"
    by (simp add: ev GetAgentBinary_def deref_def load_def)
  have o: "own_refs (agentBinaries ?s) (binaryObjs ?s)" using wf by (simp add: agents_wf_def)
  have "binaries ?s ''b1'' = Some (sample_binary\<lparr>bin_UploadedAt := 2\<rparr>)"
    using g by (simp add: GetAgentBinary_def binaries_def split: option.splits)
  from SetCurrentAgentBinary_binaries(2) [OF o e this refl] e
  have "enumerates [''b1''] (agentBinaries (snd (SetCurrentAgentBinary ''b1'' 3 [''b1''] ?s)))" by simp
  from SetCurrentAgentBinary_unique [OF wf e g refl this] show ?thesis by (simp add: sample_binary_def)
qed

text \<open>The update window of an agent, given as two times of day, contains exactly the minutes from its
  start to its end counted round the clock, so a window that ends before it starts runs over
  midnight; the end minute belongs to it.\<close>

theorem isInUpdateWindow_cyclic:
  assumes "0 \<le> hour" and "hour < 24" and "0 \<le> minute" and "minute < 60"
    and "h1 < 24" and "m1 < 60" and "h2 < 24" and "m2 < 60"
  shows "isInUpdateWindow hour minute (hhmm h1 m1) (hhmm h2 m2) \<longleftrightarrow>
      in_window (hour * 60 + minute) (int h1 * 60 + int m1) (int h2 * 60 + int m2)"
proof -
  have w: "wrap64 (int h * 60 + int m) = int h * 60 + int m" if "h < 24" "m < 60" for h m
    using that by (intro wrap64_id in_int64_small) auto
  have p: "parseTimeComponent [digit (n div 10), digit (n mod 10)] = Some (int n)" if "n < 60" for n
    using that by (intro parse_two_digits) simp
  have s: "hhmm h m \<noteq> []" for h m by (simp add: hhmm_def)
  have "isInUpdateWindow hour minute (hhmm h1 m1) (hhmm h2 m2) \<longleftrightarrow>
      (if int h2 * 60 + int m2 < int h1 * 60 + int m1
       then hour * 60 + minute \<ge> int h1 * 60 + int m1 \<or> hour * 60 + minute \<le> int h2 * 60 + int m2
       else hour * 60 + minute \<ge> int h1 * 60 + int m1 \<and> hour * 60 + minute \<le> int h2 * 60 + int m2)"
    using assms by (simp add: isInUpdateWindow_def Split_hhmm p w s Let_def)
  with assms show ?thesis by (subst window_cases) auto
qed

theorem isInUpdateWindow_cyclic_witness:
  "isInUpdateWindow 23 30 (hhmm 22 0) (hhmm 6 0) \<longleftrightarrow> in_window (23 * 60 + 30) (22 * 60) (6 * 60)"
  using isInUpdateWindow_cyclic [of 23 30 22 0 6 0] by simp

end
