(* ===== verification/Mem_Cleanup.thy ===== *)
theory Mem_Cleanup
  imports Mem_Users Mem_Projects Mem_Deployments Mem_Audit Mem_Agents
begin

text \<open>
  \<open>internal/storage/memory_cleanup.go\<close>: the periodic removal of old rows. Each operation ranges over a
  table in the order \<open>ks\<close>, deletes the entries that are too old, queues one delete per entry and
  returns how many there were.
\<close>

section \<open>Operations\<close>

text \<open>The deletes queued by a loop, in the order of the loop.\<close>

definition queue_deletes :: "string \<Rightarrow> ('a \<Rightarrow> WriteData) \<Rightarrow> time \<Rightarrow> 'a list \<Rightarrow> WriteOp list \<Rightarrow> WriteOp list" where
  "queue_deletes table data now xs ch =
     fold (\<lambda>x ch. queueWrite ch (NewWriteOp WriteOpDelete table (data x) now)) xs ch"

definition CleanupExpiredSessions ::
  "time \<Rightarrow> time \<Rightarrow> string list \<Rightarrow> MemoryStore \<Rightarrow> int result \<times> MemoryStore" where
  "CleanupExpiredSessions cutoff now ks s =
     (let old = filter (\<lambda>sess. session_ExpiresAt sess < cutoff) (range_values ks (sessions s))
      in (Inr (int (length old)),
          s\<lparr>sessions := delete_where (\<lambda>_ sess. session_ExpiresAt sess < cutoff) (sessions s),
            coreWrites := queue_deletes ''sessions'' SessionPtr now old (coreWrites s)\<rparr>))"

definition CleanupOldDeployments ::
  "time \<Rightarrow> time \<Rightarrow> string list \<Rightarrow> MemoryStore \<Rightarrow> int result \<times> MemoryStore" where
  "CleanupOldDeployments cutoff now ks s =
     (let old = filter (\<lambda>(i, r, dep). dep_StartedAt dep < cutoff) (ref_range ks (deployments s) (deploymentObjs s))
      in (Inr (int (length old)),
          s\<lparr>deployments := delete_objs (\<lambda>dep. dep_StartedAt dep < cutoff) (deployments s) (deploymentObjs s),
            deploymentsWrites := queue_deletes ''deployments'' (\<lambda>(i, r, dep). DeploymentPtr r) now old (deploymentsWrites s)\<rparr>))"

definition CleanupOldDeploymentLogs ::
  "time \<Rightarrow> time \<Rightarrow> string list \<Rightarrow> MemoryStore \<Rightarrow> int result \<times> MemoryStore" where
  "CleanupOldDeploymentLogs cutoff now ks s =
     (let old = concat (map (filter (\<lambda>log. dlog_CreatedAt log < cutoff)) (range_values ks (deploymentLogs s)))
      in (Inr (int (length old)),
          s\<lparr>deploymentLogs := (\<lambda>d. case deploymentLogs s d of
               None \<Rightarrow> None
             | Some logs \<Rightarrow> (let kept = filter (\<lambda>log. \<not> dlog_CreatedAt log < cutoff) logs
                             in if kept = [] then None else Some kept)),
            deploymentsWrites := queue_deletes ''deployment_logs'' DeploymentLogPtr now old (deploymentsWrites s)\<rparr>))"

definition CleanupOldAuditLogs :: "time \<Rightarrow> time \<Rightarrow> MemoryStore \<Rightarrow> int result \<times> MemoryStore" where
  "CleanupOldAuditLogs cutoff now s =
     (let old = filter (\<lambda>entry. audit_Timestamp entry < cutoff) (auditLogs s)
      in (Inr (int (length old)),
          s\<lparr>auditLogs := filter (\<lambda>entry. \<not> audit_Timestamp entry < cutoff) (auditLogs s),
            auditWrites := queue_deletes ''audit_logs'' AuditEntryPtr now old (auditWrites s)\<rparr>))"

definition block_lapsed :: "time \<Rightarrow> BlockedIP \<Rightarrow> bool" where
  "block_lapsed now blocked \<longleftrightarrow> \<not> IsZero (blk_ExpiresAt blocked) \<and> blk_ExpiresAt blocked < now"

definition CleanupExpiredBlockedIPs :: "time \<Rightarrow> string list \<Rightarrow> MemoryStore \<Rightarrow> int result \<times> MemoryStore" where
  "CleanupExpiredBlockedIPs now ks s =
     (let old = filter (block_lapsed now) (range_values ks (blockedIPs s))
      in (Inr (int (length old)),
          s\<lparr>blockedIPs := delete_where (\<lambda>_. block_lapsed now) (blockedIPs s),
            ratelimitWrites := queue_deletes ''blocked_ips'' BlockedIPPtr now old (ratelimitWrites s)\<rparr>))"

definition CleanupRateLimitRecords ::
  "time \<Rightarrow> time \<Rightarrow> string list \<Rightarrow> MemoryStore \<Rightarrow> int result \<times> MemoryStore" where
  "CleanupRateLimitRecords before now ks s =
     (let old = filter (\<lambda>(k, r, record). rl_WindowStart record < before) (ref_range ks (rateLimits s) (rateLimitObjs s))
      in (Inr (int (length old)),
          s\<lparr>rateLimits := delete_objs (\<lambda>record. rl_WindowStart record < before) (rateLimits s) (rateLimitObjs s),
            ratelimitWrites := queue_deletes ''rate_limits'' (\<lambda>(k, r, record). RateLimitPtr r) now old (ratelimitWrites s)\<rparr>))"

text \<open>One turn of the loop over the API keys: the key leaves both indexes.\<close>

definition drop_expired_key :: "time \<Rightarrow> string \<times> ref \<times> APIKey \<Rightarrow> MemoryStore \<Rightarrow> MemoryStore" where
  "drop_expired_key now x s =
     (case x of (hash, r, key) \<Rightarrow>
        (if (case apikey_ExpiresAt key of None \<Rightarrow> False | Some e \<Rightarrow> e < now)
         then
           (let byUser =
              (case apiKeysByUser s (apikey_UserID key) of
                 None \<Rightarrow> apiKeysByUser s
               | Some keys \<Rightarrow>
                   (let kept = filter (\<lambda>k. \<not> obj_sat (apiKeyObjs s) (\<lambda>k. apikey_KeyHash k = hash) k) keys
                    in (apiKeysByUser s)(apikey_UserID key := (if kept = [] then None else Some kept))))
            in s\<lparr>apiKeys := (apiKeys s)(hash := None), apiKeysByUser := byUser,
                 coreWrites := queueWrite (coreWrites s) (NewWriteOp WriteOpDelete ''api_keys'' (APIKeyPtr r) now)\<rparr>)
         else s))"

definition CleanupExpiredAPIKeys :: "time \<Rightarrow> string list \<Rightarrow> MemoryStore \<Rightarrow> int result \<times> MemoryStore" where
  "CleanupExpiredAPIKeys now ks s =
     (let all = ref_range ks (apiKeys s) (apiKeyObjs s)
      in (Inr (int (length (filter (\<lambda>(h, r, key). case apikey_ExpiresAt key of None \<Rightarrow> False | Some e \<Rightarrow> e < now) all))),
          fold (drop_expired_key now) all s))"

definition CleanupOrphanedWebhooks :: "time \<Rightarrow> string list \<Rightarrow> MemoryStore \<Rightarrow> int result \<times> MemoryStore" where
  "CleanupOrphanedWebhooks now ks s =
     (let orphan = (\<lambda>webhook. projects s (webhook_ProjectID webhook) = None);
          old = filter (\<lambda>(i, r, webhook). orphan webhook) (ref_range ks (webhooks s) (webhookObjs s))
      in (Inr (int (length old)),
          s\<lparr>webhooks := delete_objs orphan (webhooks s) (webhookObjs s),
            projectsWrites := queue_deletes ''webhooks'' (\<lambda>(i, r, webhook). WebhookPtr r) now old (projectsWrites s)\<rparr>))"

text \<open>An agent that has gone silent is replaced by a copy with the status \<open>stale\<close>.\<close>

definition mark_stale :: "time \<Rightarrow> time \<Rightarrow> string \<Rightarrow> int \<times> MemoryStore \<Rightarrow> int \<times> MemoryStore" where
  "mark_stale cutoff now i st =
     (case st of (marked, s) \<Rightarrow>
        (case deref (agents s) (agentObjs s) i of
           None \<Rightarrow> (marked, s)
         | Some agent \<Rightarrow>
             if agent_Status agent = AgentStatusStale \<or> \<not> agent_LastSeenAt agent < cutoff then (marked, s)
             else
               (let (r, objs) = new_obj (agent\<lparr>agent_Status := AgentStatusStale\<rparr>) (agentObjs s)
                in (marked + 1,
                    s\<lparr>agentObjs := objs, agents := (agents s)(i \<mapsto> r),
                      agentsWrites := queueWrite (agentsWrites s)
                        (NewWriteOp WriteOpUpdate ''agents'' (AgentPtr r) now)\<rparr>))))"

definition MarkStaleAgents :: "time \<Rightarrow> time \<Rightarrow> string list \<Rightarrow> MemoryStore \<Rightarrow> int result \<times> MemoryStore" where
  "MarkStaleAgents cutoff now ks s =
     (case fold (mark_stale cutoff now) ks (0, s) of (marked, s') \<Rightarrow> (Inr marked, s'))"

section \<open>Lemmas\<close>

definition key_lapsed :: "time \<Rightarrow> APIKey \<Rightarrow> bool" where
  "key_lapsed now key \<longleftrightarrow> (case apikey_ExpiresAt key of None \<Rightarrow> False | Some e \<Rightarrow> e < now)"

lemma drop_expired_key_eq:
  "apiKeys (drop_expired_key now (h, r, key) s) = (if key_lapsed now key then (apiKeys s)(h := None) else apiKeys s)"
  "apiKeyObjs (drop_expired_key now (h, r, key) s) = apiKeyObjs s"
  "keys_of_user u (drop_expired_key now (h, r, key) s) =
     filter (\<lambda>q. \<not> (key_lapsed now key \<and> apikey_UserID key = u \<and> obj_sat (apiKeyObjs s) (\<lambda>k. apikey_KeyHash k = h) q))
       (keys_of_user u s)"
  by (auto simp: drop_expired_key_def key_lapsed_def keys_of_user_def Let_def filter_empty_conv
      split: option.splits intro!: filter_True [symmetric])

lemma drop_expired_keys_eq:
  "apiKeyObjs (fold (drop_expired_key now) xs s) = apiKeyObjs s"
  "apiKeys (fold (drop_expired_key now) xs s) =
     (\<lambda>h. if \<exists>r key. (h, r, key) \<in> set xs \<and> key_lapsed now key then None else apiKeys s h)"
  "keys_of_user u (fold (drop_expired_key now) xs s) =
     filter (\<lambda>q. \<not> (\<exists>h r key. (h, r, key) \<in> set xs \<and> key_lapsed now key \<and> apikey_UserID key = u
                      \<and> obj_sat (apiKeyObjs s) (\<lambda>k. apikey_KeyHash k = h) q)) (keys_of_user u s)"
proof (induction xs arbitrary: s)
  case Nil
  case 1 show ?case by simp
  case 2 show ?case by simp
  case 3 show ?case by simp
next
  case (Cons x xs)
  obtain h r key where x: "x = (h, r, key)" by (cases x)
  case 1 show ?case by (simp add: Cons.IH(1) x drop_expired_key_eq)
  case 2 show ?case by (auto simp: Cons.IH(2) x drop_expired_key_eq fun_eq_iff)
  case 3 show ?case
    by (simp add: Cons.IH(1,3) x drop_expired_key_eq) (rule filter_cong, auto)
qed

text \<open>On coherent indexes the loop removes from both exactly the lapsed keys.\<close>

lemma CleanupExpiredAPIKeys_tables:
  assumes wf: "keys_wf s" and ks: "enumerates ks (apiKeys s)" and s': "s' = snd (CleanupExpiredAPIKeys now ks s)"
  shows "apiKeyObjs s' = apiKeyObjs s"
    and "apiKeys s' h = Some r \<longleftrightarrow> apiKeys s h = Some r \<and> \<not> obj_sat (apiKeyObjs s) (key_lapsed now) r"
    and "keys_of_user u s' = filter (\<lambda>q. \<not> obj_sat (apiKeyObjs s) (key_lapsed now) q) (keys_of_user u s)"
proof -
  have i: "key_indexed s" and l: "key_listed s" using wf by (auto simp: keys_wf_def)
  have fold: "s' = fold (drop_expired_key now) (ref_range ks (apiKeys s) (apiKeyObjs s)) s"
    by (simp add: s' CleanupExpiredAPIKeys_def Let_def)
  have mem: "(h, r, key) \<in> set (ref_range ks (apiKeys s) (apiKeyObjs s)) \<longleftrightarrow>
      apiKeys s h = Some r \<and> load (apiKeyObjs s) r = Some key" for h r key
    using ks by (auto simp: ref_range_mem enumerates_def)
  show "apiKeyObjs s' = apiKeyObjs s" by (simp add: fold drop_expired_keys_eq)
  show "apiKeys s' h = Some r \<longleftrightarrow> apiKeys s h = Some r \<and> \<not> obj_sat (apiKeyObjs s) (key_lapsed now) r"
  proof (cases "apiKeys s h")
    case None
    then show ?thesis by (simp add: fold drop_expired_keys_eq(2))
  next
    case (Some q)
    obtain key where "load (apiKeyObjs s) q = Some key" using key_indexedD [OF i Some] by metis
    with Some show ?thesis by (auto simp: fold drop_expired_keys_eq(2) mem obj_sat_def)
  qed
  have "(\<exists>h r key. apiKeys s h = Some r \<and> load (apiKeyObjs s) r = Some key \<and> key_lapsed now key \<and> apikey_UserID key = u
         \<and> obj_sat (apiKeyObjs s) (\<lambda>k. apikey_KeyHash k = h) q) \<longleftrightarrow> obj_sat (apiKeyObjs s) (key_lapsed now) q"
    if q: "q \<in> set (keys_of_user u s)" for q
  proof -
    obtain ky where ky: "load (apiKeyObjs s) q = Some ky" "apikey_UserID ky = u" "apiKeys s (apikey_KeyHash ky) = Some q"
      using key_listedD [OF l q] by metis
    then show ?thesis by (auto simp: obj_sat_def)
  qed
  then show "keys_of_user u s' = filter (\<lambda>q. \<not> obj_sat (apiKeyObjs s) (key_lapsed now) q) (keys_of_user u s)"
    unfolding fold drop_expired_keys_eq(3) mem conj_assoc by (intro filter_cong) auto
qed

lemma CleanupExpiredAPIKeys_keys_wf [wf_intros]:
  assumes "keys_wf s" and "enumerates ks (apiKeys s)"
  shows "keys_wf (snd (CleanupExpiredAPIKeys now ks s))"
proof -
  let ?s = "snd (CleanupExpiredAPIKeys now ks s)"
  note t = CleanupExpiredAPIKeys_tables [OF assms refl, where now = now]
  have i: "key_indexed s" and l: "key_listed s" and u: "key_ids_unique s" using assms(1) by (auto simp: keys_wf_def)
  have "key_indexed ?s"
    unfolding key_indexed_def t
  proof (intro allI impI)
    fix h r assume a: "apiKeys s h = Some r \<and> \<not> obj_sat (apiKeyObjs s) (key_lapsed now) r"
    obtain key where "h \<noteq> []" "load (apiKeyObjs s) r = Some key" "apikey_KeyHash key = h"
        "r \<in> set (keys_of_user (apikey_UserID key) s)"
      using a key_indexedD [OF i, of h r] by metis
    with a show "h \<noteq> [] \<and> (\<exists>key. load (apiKeyObjs s) r = Some key \<and> apikey_KeyHash key = h
        \<and> r \<in> set (filter (\<lambda>q. \<not> obj_sat (apiKeyObjs s) (key_lapsed now) q) (keys_of_user (apikey_UserID key) s)))"
      by auto
  qed
  moreover have "key_listed ?s"
    unfolding key_listed_def t
  proof (intro allI conjI ballI)
    fix v
    show "distinct (filter (\<lambda>q. \<not> obj_sat (apiKeyObjs s) (key_lapsed now) q) (keys_of_user v s))"
      using l by (simp add: key_listed_def)
    fix r assume "r \<in> set (filter (\<lambda>q. \<not> obj_sat (apiKeyObjs s) (key_lapsed now) q) (keys_of_user v s))"
    then have r: "r \<in> set (keys_of_user v s)" "\<not> obj_sat (apiKeyObjs s) (key_lapsed now) r" by auto
    from key_listedD [OF l r(1)] r(2)
    show "\<exists>key. load (apiKeyObjs s) r = Some key \<and> apikey_UserID key = v
        \<and> apiKeys s (apikey_KeyHash key) = Some r \<and> \<not> obj_sat (apiKeyObjs s) (key_lapsed now) r" by metis
  qed
  moreover have "key_ids_unique ?s" using u unfolding key_ids_unique_def t by blast
  ultimately show ?thesis by (simp add: keys_wf_def)
qed

lemma mark_stale_deref:
  assumes "own_refs (agents s) (agentObjs s)" and "mark_stale cutoff now i (n, s) = (n', s')"
  shows "own_refs (agents s') (agentObjs s')
    \<and> deref (agents s') (agentObjs s') = (\<lambda>j. if j = i then map_option (\<lambda>a.
          if agent_Status a \<noteq> AgentStatusStale \<and> agent_LastSeenAt a < cutoff then a\<lparr>agent_Status := AgentStatusStale\<rparr> else a)
          (deref (agents s) (agentObjs s) i) else deref (agents s) (agentObjs s) j)"
proof (cases "deref (agents s) (agentObjs s) i")
  case None
  with assms show ?thesis by (auto simp: mark_stale_def fun_eq_iff)
next
  case (Some a)
  show ?thesis
  proof (cases "agent_Status a = AgentStatusStale \<or> \<not> agent_LastSeenAt a < cutoff")
    case True
    with Some assms show ?thesis by (auto simp: mark_stale_def fun_eq_iff)
  next
    case False
    then have t: "agents s' = (agents s)(i \<mapsto> length (agentObjs s))"
      "agentObjs s' = agentObjs s @ [a\<lparr>agent_Status := AgentStatusStale\<rparr>]"
      using Some assms(2) by (auto simp: mark_stale_def new_obj_def Let_def)
    show ?thesis
      unfolding t using False Some by (auto simp: deref_new [OF assms(1)] own_refs_new [OF assms(1)])
  qed
qed

definition staled :: "time \<Rightarrow> Agent \<Rightarrow> Agent" where
  "staled cutoff a =
     (if agent_Status a \<noteq> AgentStatusStale \<and> agent_LastSeenAt a < cutoff then a\<lparr>agent_Status := AgentStatusStale\<rparr> else a)"

lemma mark_stale_fold:
  assumes "own_refs (agents s) (agentObjs s)" and "fold (mark_stale cutoff now) ks (n, s) = (n', s')"
  shows "own_refs (agents s') (agentObjs s')
    \<and> deref (agents s') (agentObjs s') = (\<lambda>j. if j \<in> set ks then map_option (staled cutoff) (deref (agents s) (agentObjs s) j)
                                           else deref (agents s) (agentObjs s) j)"
  using assms
proof (induction ks arbitrary: n s)
  case Nil
  then show ?case by simp
next
  case (Cons i ks)
  obtain m t where t: "mark_stale cutoff now i (n, s) = (m, t)" by (cases "mark_stale cutoff now i (n, s)")
  note d = mark_stale_deref [OF Cons.prems(1) t, folded staled_def]
  have "staled cutoff (staled cutoff a) = staled cutoff a" for a by (simp add: staled_def)
  then show ?case
    using Cons.IH [of t m] d Cons.prems(2) t by (auto simp: fun_eq_iff option.map_comp o_def)
qed

section \<open>Properties\<close>

text \<open>Removing expired API keys keeps the index by hash and the lists by owner coherent, and is not
  observable: at the time of the clean-up or later, a lookup by hash answers as if it had not run.\<close>

theorem CleanupExpiredAPIKeys_unobservable:
  assumes "keys_wf s" and "enumerates ks (apiKeys s)" and "s' = snd (CleanupExpiredAPIKeys now ks s)" and "now \<le> t"
  shows "keys_wf s' \<and> GetAPIKeyByHash h t s' = GetAPIKeyByHash h t s
    \<and> (\<forall>u. set (ListAPIKeys u s') \<subseteq> set (ListAPIKeys u s))"
proof -
  note d = CleanupExpiredAPIKeys_tables [OF assms(1,2,3)]
  have i: "key_indexed s" using assms(1) by (simp add: keys_wf_def)
  have "GetAPIKeyByHash h t s' = GetAPIKeyByHash h t s"
  proof (cases "apiKeys s h")
    case None
    then have "apiKeys s' h = None" using d(2) [of h] by (cases "apiKeys s' h") auto
    with None show ?thesis by (simp add: GetAPIKeyByHash_def)
  next
    case (Some r)
    obtain key where key: "load (apiKeyObjs s) r = Some key" using key_indexedD [OF i Some] by metis
    show ?thesis
    proof (cases "key_lapsed now key")
      case True
      then have "apiKeys s' h \<noteq> Some q" for q using d(2) [of h q] Some key by (auto simp: obj_sat_def)
      then have "apiKeys s' h = None" by (cases "apiKeys s' h") auto
      moreover have "api_key_expired t key"
        using True assms(4) by (auto simp: key_lapsed_def api_key_expired_def split: option.splits)
      ultimately show ?thesis using Some key by (simp add: GetAPIKeyByHash_def)
    next
      case False
      then have "apiKeys s' h = Some r" using d(2) [of h r] Some key by (simp add: obj_sat_def)
      with Some show ?thesis by (simp add: GetAPIKeyByHash_def d(1))
    qed
  qed
  moreover have "set (ListAPIKeys u s') \<subseteq> set (ListAPIKeys u s)" for u
    by (auto simp: ListAPIKeys_def d(1,3) map_filter_def)
  ultimately show ?thesis using CleanupExpiredAPIKeys_keys_wf [OF assms(1,2)] assms(3) by simp
qed

theorem CleanupExpiredAPIKeys_unobservable_witness:
  "GetAPIKeyByHash ''h1'' 9 (snd (CleanupExpiredAPIKeys 8 [''h1''] sample_accounts)) = GetAPIKeyByHash ''h1'' 9 sample_accounts"
proof -
  have "accounts_wf sample_accounts"
    using rtranclp_induct [OF sample_accounts_reachable, of accounts_wf] accounts_wf_new account_step_wf by blast
  then have wf: "keys_wf sample_accounts" by (simp add: accounts_wf_def)
  have e: "enumerates [''h1''] (apiKeys sample_accounts)" by (simp add: enumerates_def sample_accounts_eval)
  have "(8::int) \<le> 9" by simp
  from CleanupExpiredAPIKeys_unobservable [OF wf e refl this] show ?thesis by blast
qed

text \<open>Removing lapsed blocks changes for no address whether it is blocked, and makes room: afterwards
  an address whose block had lapsed can be blocked again.\<close>

theorem CleanupExpiredBlockedIPs_reopens:
  assumes "s' = snd (CleanupExpiredBlockedIPs now ks s)" and "now \<le> t"
  shows "IsIPBlocked ip t s' = IsIPBlocked ip t s
    \<and> (GetBlockedIP (blk_IPAddress b) s = Inr old \<and> block_lapsed now old
        \<longrightarrow> (\<exists>b'. fst (BlockIP b t xid s') = Inr b'))"
proof -
  have d: "blockedIPs s' = delete_where (\<lambda>_. block_lapsed now) (blockedIPs s)"
    by (simp add: assms(1) CleanupExpiredBlockedIPs_def Let_def)
  have "IsIPBlocked ip t s' = IsIPBlocked ip t s"
    using assms(2) by (auto simp: IsIPBlocked_def d delete_where_def block_lapsed_def split: option.splits)
  then show ?thesis
    by (auto simp: GetBlockedIP_def BlockIP_def d delete_where_def Let_def split: option.splits)
qed

theorem CleanupExpiredBlockedIPs_reopens_witness:
  "\<exists>b'. fst (BlockIP sample_block 20 ''y''
     (snd (CleanupExpiredBlockedIPs 15 [''10.0.0.1''] (snd (BlockIP sample_block 5 ''x'' NewMemoryStore))))) = Inr b'"
proof -
  let ?s = "snd (BlockIP sample_block 5 ''x'' NewMemoryStore)"
  let ?b = "sample_block\<lparr>blk_ID := ''x'', blk_BlockedAt := 5\<rparr>"
  note ev = BlockIP_def NewMemoryStore_def GetBlockedIP_def sample_block_def IsZero_def Let_def block_lapsed_def
  have "GetBlockedIP (blk_IPAddress sample_block) ?s = Inr ?b \<and> block_lapsed 15 ?b" by (simp add: ev)
  with CleanupExpiredBlockedIPs_reopens [OF refl, of 15 20 _ "[''10.0.0.1'']" ?s] show ?thesis by auto
qed

text \<open>Marking silent agents. Afterwards exactly the agents that were silent since the cutoff are
  stale (those already stale stay so), nothing but the status of an agent changes, no agent appears or
  disappears, and running it again marks nobody.\<close>

theorem MarkStaleAgents_spec:
  assumes "agents_wf s" and "enumerates ks (agents s)" and "MarkStaleAgents cutoff now ks s = (res, s')"
  shows "(\<forall>i. GetAgent i s' = (case GetAgent i s of Inl e \<Rightarrow> Inl e | Inr a \<Rightarrow> Inr (staled cutoff a)))
    \<and> (\<forall>i a. GetAgent i s' = Inr a \<longrightarrow> agent_LastSeenAt a < cutoff \<longrightarrow> agent_Status a = AgentStatusStale)
    \<and> (\<forall>i later. GetAgent i (snd (MarkStaleAgents cutoff later ks s')) = GetAgent i s')"
proof -
  have o: "own_refs (agents s) (agentObjs s)" using assms(1) by (simp add: agents_wf_def)
  obtain n where f: "fold (mark_stale cutoff now) ks (0, s) = (n, s')"
    using assms(3) by (auto simp: MarkStaleAgents_def split: prod.splits)
  have in_ks: "i \<in> set ks" if "deref (agents s) (agentObjs s) i = Some a" for i a
    using that assms(2) by (auto simp: enumerates_def deref_Some_iff)
  have d: "deref (agents s') (agentObjs s') i = map_option (staled cutoff) (deref (agents s) (agentObjs s) i)" for i
    using mark_stale_fold [OF o f] in_ks [of i] by (cases "deref (agents s) (agentObjs s) i") auto
  have g: "GetAgent i s' = (case GetAgent i s of Inl e \<Rightarrow> Inl e | Inr a \<Rightarrow> Inr (staled cutoff a))" for i
    by (simp add: GetAgent_def d split: option.splits)
  moreover have "agent_Status a = AgentStatusStale" if "GetAgent i s' = Inr a" "agent_LastSeenAt a < cutoff" for i a
    using that unfolding g by (auto simp: staled_def split: sum.splits if_splits)
  moreover have "GetAgent i (snd (MarkStaleAgents cutoff later ks s')) = GetAgent i s'" for i later
  proof -
    obtain m t where t: "fold (mark_stale cutoff later) ks (0, s') = (m, t)"
      by (cases "fold (mark_stale cutoff later) ks (0, s')")
    have "own_refs (agents s') (agentObjs s')" using mark_stale_fold [OF o f] by blast
    from mark_stale_fold [OF this t]
    have "deref (agents t) (agentObjs t) i = (if i \<in> set ks then map_option (staled cutoff) (deref (agents s') (agentObjs s') i)
        else deref (agents s') (agentObjs s') i)" by simp
    moreover have "map_option (staled cutoff) (deref (agents s') (agentObjs s') i) = deref (agents s') (agentObjs s') i"
      by (cases "deref (agents s) (agentObjs s) i") (simp_all add: d staled_def)
    ultimately show ?thesis by (simp add: GetAgent_def MarkStaleAgents_def t)
  qed
  ultimately show ?thesis by blast
qed

theorem MarkStaleAgents_spec_witness:
  "\<exists>a. GetAgent ''a1'' (snd (MarkStaleAgents 50 60 [''a1''] (snd (UpsertAgent sample_agent 5 NewMemoryStore)))) = Inr a
     \<and> agent_Status a = AgentStatusStale"
proof -
  let ?s = "snd (UpsertAgent sample_agent 5 NewMemoryStore)"
  note ev = UpsertAgent_def NewMemoryStore_def sample_agent_def new_obj_def Let_def obj_of_def
  have wf: "agents_wf ?s" by (simp add: agents_wf_def ev own_refs_def load_def keyed_by_def deref_def)
  have e: "enumerates [''a1''] (agents ?s)" by (simp add: ev enumerates_def)
  have g: "\<exists>a. GetAgent ''a1'' ?s = Inr a \<and> agent_LastSeenAt a = 5" by (simp add: ev GetAgent_def deref_def load_def)
  have "MarkStaleAgents 50 60 [''a1''] ?s
      = (fst (MarkStaleAgents 50 60 [''a1''] ?s), snd (MarkStaleAgents 50 60 [''a1''] ?s))" by simp
  from MarkStaleAgents_spec [OF wf e this] g show ?thesis by (auto simp: staled_def)
qed

end
