(* ===== verification/Mem_Deployment_Agents.thy ===== *)
theory Mem_Deployment_Agents
  imports Mem_Deployments
begin

text \<open>
  \<open>internal/storage/memory_deployment_agents.go\<close>: which agents take part in a deployment and how far
  each has come. The assignments of a deployment are a slice of structs, changed by index. These
  operations queue no write.
\<close>

section \<open>Operations\<close>

definition assigned :: "string \<Rightarrow> MemoryStore \<Rightarrow> DeploymentAgent list" where
  "assigned deploymentID m = (case deploymentAgents m deploymentID of None \<Rightarrow> [] | Some das \<Rightarrow> das)"

definition AssignAgentToDeployment ::
  "string \<Rightarrow> string \<Rightarrow> string \<Rightarrow> MemoryStore \<Rightarrow> unit result \<times> MemoryStore" where
  "AssignAgentToDeployment deploymentID agentID xid m =
     (if list_ex (\<lambda>da. da_AgentID da = agentID) (assigned deploymentID m)
      then (Inl (ErrText (''agent '' @ agentID @ '' already assigned to deployment '' @ deploymentID)), m)
      else
        (Inr (),
         m\<lparr>deploymentAgents := (deploymentAgents m)(deploymentID \<mapsto> assigned deploymentID m @
             [\<lparr>da_ID = xid, da_DeploymentID = deploymentID, da_AgentID = agentID,
               da_Status = DeploymentStatusPending, da_StartedAt = None, da_CompletedAt = None,
               da_ErrorMessage = ''''\<rparr>])\<rparr>))"

text \<open>One call per agent, each with its own generated identifier; the first error stops the loop.\<close>

fun AssignAgentsToDeployment ::
  "string \<Rightarrow> (string \<times> string) list \<Rightarrow> MemoryStore \<Rightarrow> unit result \<times> MemoryStore" where
  "AssignAgentsToDeployment deploymentID [] m = (Inr (), m)"
| "AssignAgentsToDeployment deploymentID ((agentID, xid) # rest) m =
     (case AssignAgentToDeployment deploymentID agentID xid m of
        (Inl err, m') \<Rightarrow> (Inl err, m')
      | (Inr _, m') \<Rightarrow> AssignAgentsToDeployment deploymentID rest m')"

definition GetDeploymentAgents :: "string \<Rightarrow> MemoryStore \<Rightarrow> DeploymentAgent list" where
  "GetDeploymentAgents deploymentID m = assigned deploymentID m"

definition GetAgentDeployments :: "string \<Rightarrow> string list \<Rightarrow> MemoryStore \<Rightarrow> DeploymentAgent list" where
  "GetAgentDeployments agentID ks m =
     concat (map (filter (\<lambda>da. da_AgentID da = agentID)) (range_values ks (deploymentAgents m)))"

text \<open>The loops \<open>for i := range agents { if agents[i].AgentID == agentID ... return }\<close>: the index of the
  first assignment of the agent.\<close>

fun agent_index :: "string \<Rightarrow> DeploymentAgent list \<Rightarrow> nat option" where
  "agent_index agentID [] = None"
| "agent_index agentID (da # das) =
     (if da_AgentID da = agentID then Some 0 else map_option Suc (agent_index agentID das))"

definition not_assigned :: "string \<Rightarrow> string \<Rightarrow> store_error" where
  "not_assigned agentID deploymentID =
     ErrText (''agent '' @ agentID @ '' not assigned to deployment '' @ deploymentID)"

definition not_pending :: "string \<Rightarrow> string \<Rightarrow> store_error" where
  "not_pending agentID deploymentID =
     ErrText (''agent '' @ agentID @ '' not in pending state for deployment '' @ deploymentID)"

definition UpdateDeploymentAgentStatus ::
  "string \<Rightarrow> string \<Rightarrow> DeploymentStatus \<Rightarrow> string \<Rightarrow> time \<Rightarrow> MemoryStore \<Rightarrow> unit result \<times> MemoryStore" where
  "UpdateDeploymentAgentStatus deploymentID agentID status errorMsg now m =
     (let agents = assigned deploymentID m
      in case agent_index agentID agents of
           None \<Rightarrow> (Inl (not_assigned agentID deploymentID), m)
         | Some i \<Rightarrow>
             (let da = (agents ! i)\<lparr>da_Status := status, da_ErrorMessage := errorMsg\<rparr>;
                  da = (if IsTerminal status then da\<lparr>da_CompletedAt := Some now\<rparr> else da)
              in (Inr (), m\<lparr>deploymentAgents := (deploymentAgents m)(deploymentID \<mapsto> agents[i := da])\<rparr>)))"

definition StartDeploymentAgent ::
  "string \<Rightarrow> string \<Rightarrow> time \<Rightarrow> MemoryStore \<Rightarrow> unit result \<times> MemoryStore" where
  "StartDeploymentAgent deploymentID agentID now m =
     (let agents = assigned deploymentID m
      in case agent_index agentID agents of
           None \<Rightarrow> (Inl (not_assigned agentID deploymentID), m)
         | Some i \<Rightarrow>
             if da_Status (agents ! i) \<noteq> DeploymentStatusPending
             then (Inl (not_pending agentID deploymentID), m)
             else (Inr (), m\<lparr>deploymentAgents := (deploymentAgents m)(deploymentID \<mapsto>
                     agents[i := (agents ! i)\<lparr>da_Status := DeploymentStatusRunning, da_StartedAt := Some now\<rparr>])\<rparr>))"

definition IsAgentAssignedToDeployment :: "string \<Rightarrow> string \<Rightarrow> MemoryStore \<Rightarrow> bool" where
  "IsAgentAssignedToDeployment deploymentID agentID m =
     list_ex (\<lambda>da. da_AgentID da = agentID) (assigned deploymentID m)"

definition GetDeploymentAgentStatus :: "string \<Rightarrow> string \<Rightarrow> MemoryStore \<Rightarrow> DeploymentAgent option" where
  "GetDeploymentAgentStatus deploymentID agentID m =
     find (\<lambda>da. da_AgentID da = agentID) (assigned deploymentID m)"

definition CountDeploymentAgentsByStatus :: "string \<Rightarrow> MemoryStore \<Rightarrow> (DeploymentStatus \<rightharpoonup> int)" where
  "CountDeploymentAgentsByStatus deploymentID m = count_by da_Status (assigned deploymentID m)"

definition RemoveAgentFromDeployment ::
  "string \<Rightarrow> string \<Rightarrow> MemoryStore \<Rightarrow> unit result \<times> MemoryStore" where
  "RemoveAgentFromDeployment deploymentID agentID m =
     (let agents = assigned deploymentID m
      in case agent_index agentID agents of
           None \<Rightarrow> (Inl (ErrText (''agent '' @ agentID @ '' not found for deployment '' @ deploymentID)), m)
         | Some i \<Rightarrow>
             if da_Status (agents ! i) \<noteq> DeploymentStatusPending
             then (Inl (not_pending agentID deploymentID), m)
             else (Inr (), m\<lparr>deploymentAgents := (deploymentAgents m)(deploymentID \<mapsto>
                     take i agents @ drop (Suc i) agents)\<rparr>))"

section \<open>Invariant\<close>

text \<open>An agent takes part in a deployment at most once, every assignment is stored under its own
  deployment, and a terminal status has a completion time.\<close>

definition assignment_ok :: "string \<Rightarrow> DeploymentAgent \<Rightarrow> bool" where
  "assignment_ok deploymentID da \<longleftrightarrow>
     da_DeploymentID da = deploymentID \<and> (IsTerminal (da_Status da) \<longrightarrow> da_CompletedAt da \<noteq> None)"

definition assignments_wf :: "MemoryStore \<Rightarrow> bool" where
  "assignments_wf m \<longleftrightarrow>
     (\<forall>d. distinct (map da_AgentID (assigned d m)) \<and> list_all (assignment_ok d) (assigned d m))"

lemma agent_index_Some:
  "agent_index a das = Some i \<Longrightarrow> i < length das \<and> da_AgentID (das ! i) = a"
  by (induction das arbitrary: i) (auto split: if_splits)

lemma agent_index_None: "agent_index a das = None \<longleftrightarrow> a \<notin> da_AgentID ` set das"
  by (induction das) auto

lemma find_agent_index:
  "find (\<lambda>da. da_AgentID da = a) das = map_option (\<lambda>i. das ! i) (agent_index a das)"
  by (induction das) (auto simp: option.map_comp o_def)

lemma agent_index_update:
  "agent_index a das = Some i \<Longrightarrow> da_AgentID da = a \<Longrightarrow> agent_index a (das[i := da]) = Some i"
  by (induction das arbitrary: i) (auto split: if_splits)

lemma find_update_other:
  "agent_index a das = Some i \<Longrightarrow> da_AgentID da = a \<Longrightarrow> b \<noteq> a \<Longrightarrow>
   find (\<lambda>x. da_AgentID x = b) (das[i := da]) = find (\<lambda>x. da_AgentID x = b) das"
  by (induction das arbitrary: i) (auto split: if_splits)

lemma assigned_upd [simp]:
  "assigned d (m\<lparr>deploymentAgents := (deploymentAgents m)(e \<mapsto> das)\<rparr>) = (if d = e then das else assigned d m)"
  by (simp add: assigned_def)

lemma assignments_wf_upd:
  assumes "assignments_wf m" and "distinct (map da_AgentID das)" and "list_all (assignment_ok d) das"
  shows "assignments_wf (m\<lparr>deploymentAgents := (deploymentAgents m)(d \<mapsto> das)\<rparr>)"
  using assms by (simp add: assignments_wf_def)

lemma map_agent_update:
  "agent_index a das = Some i \<Longrightarrow> da_AgentID da = a \<Longrightarrow> map da_AgentID (das[i := da]) = map da_AgentID das"
  using agent_index_Some [of a das i] by (simp add: map_update) (metis length_map list_update_id nth_map)

lemma list_all_update: "list_all P xs \<Longrightarrow> P x \<Longrightarrow> list_all P (xs[i := x])"
  by (auto simp: list_all_iff dest: set_update_subset_insert [THEN subsetD])

lemma distinct_without_nth: "distinct xs \<Longrightarrow> distinct (take i xs @ drop (Suc i) xs)"
  using set_take_disj_set_drop_if_distinct [of xs i "Suc i"] by simp

lemma Assign_wf [wf_intros]:
  assumes "assignments_wf m"
  shows "assignments_wf (snd (AssignAgentToDeployment d a xid m))"
proof (cases "list_ex (\<lambda>da. da_AgentID da = a) (assigned d m)")
  case True
  with assms show ?thesis by (simp add: AssignAgentToDeployment_def)
next
  case False
  then have "a \<notin> da_AgentID ` set (assigned d m)" by (auto simp: list_ex_iff)
  with False assms show ?thesis
    unfolding AssignAgentToDeployment_def
    by (simp, intro assignments_wf_upd)
      (auto simp: assignments_wf_def assignment_ok_def IsTerminal_def)
qed

lemma Update_wf [wf_intros]:
  assumes "assignments_wf m"
  shows "assignments_wf (snd (UpdateDeploymentAgentStatus d a st err now m))"
proof (cases "agent_index a (assigned d m)")
  case None
  with assms show ?thesis by (simp add: UpdateDeploymentAgentStatus_def)
next
  case (Some i)
  note i = agent_index_Some [OF Some]
  have ok: "assignment_ok d (assigned d m ! i)" using assms i by (simp add: assignments_wf_def list_all_length)
  show ?thesis
    unfolding UpdateDeploymentAgentStatus_def Let_def Some option.case snd_conv
    using assms i ok
    by (intro assignments_wf_upd list_all_update)
      (auto simp: assignments_wf_def assignment_ok_def map_agent_update [OF Some])
qed

lemma Start_wf [wf_intros]:
  assumes "assignments_wf m"
  shows "assignments_wf (snd (StartDeploymentAgent d a now m))"
proof (cases "agent_index a (assigned d m)")
  case None
  with assms show ?thesis by (simp add: StartDeploymentAgent_def)
next
  case (Some i)
  note i = agent_index_Some [OF Some]
  have ok: "assignment_ok d (assigned d m ! i)" using assms i by (simp add: assignments_wf_def list_all_length)
  have "assignments_wf (m\<lparr>deploymentAgents := (deploymentAgents m)(d \<mapsto> (assigned d m)
      [i := (assigned d m ! i)\<lparr>da_Status := DeploymentStatusRunning, da_StartedAt := Some now\<rparr>])\<rparr>)"
    using assms i ok
    by (intro assignments_wf_upd list_all_update)
      (auto simp: assignments_wf_def assignment_ok_def IsTerminal_def map_agent_update [OF Some])
  with assms Some show ?thesis by (simp add: StartDeploymentAgent_def Let_def)
qed

lemma Remove_wf [wf_intros]:
  assumes "assignments_wf m"
  shows "assignments_wf (snd (RemoveAgentFromDeployment d a m))"
proof (cases "agent_index a (assigned d m)")
  case None
  with assms show ?thesis by (simp add: RemoveAgentFromDeployment_def)
next
  case (Some i)
  have "set (take i (assigned d m) @ drop (Suc i) (assigned d m)) \<subseteq> set (assigned d m)"
    by (auto dest: in_set_takeD in_set_dropD)
  moreover have "distinct (map da_AgentID (take i (assigned d m) @ drop (Suc i) (assigned d m)))"
    using assms distinct_without_nth [of "map da_AgentID (assigned d m)" i]
    by (simp add: assignments_wf_def take_map drop_map)
  ultimately have "assignments_wf (m\<lparr>deploymentAgents := (deploymentAgents m)(d \<mapsto>
      take i (assigned d m) @ drop (Suc i) (assigned d m))\<rparr>)"
    using assms by (intro assignments_wf_upd) (auto simp: assignments_wf_def list_all_iff)
  with assms Some show ?thesis by (simp add: RemoveAgentFromDeployment_def Let_def)
qed

lemma AssignAgents_wf [wf_intros]:
  "assignments_wf m \<Longrightarrow> assignments_wf (snd (AssignAgentsToDeployment d as m))"
proof (induction d as m rule: AssignAgentsToDeployment.induct)
  case (2 d a xid rest m)
  then show ?case
    using Assign_wf [OF 2(2), of d a xid]
    by (auto split: prod.splits sum.splits)
qed simp

inductive assignment_step :: "MemoryStore \<Rightarrow> MemoryStore \<Rightarrow> bool" where
  assign: "assignment_step m (snd (AssignAgentToDeployment d a xid m))"
| assign_many: "assignment_step m (snd (AssignAgentsToDeployment d as m))"
| start: "assignment_step m (snd (StartDeploymentAgent d a now m))"
| update: "assignment_step m (snd (UpdateDeploymentAgentStatus d a st err now m))"
| remove: "assignment_step m (snd (RemoveAgentFromDeployment d a m))"

lemma assignment_step_wf: "assignment_step m m' \<Longrightarrow> assignments_wf m \<Longrightarrow> assignments_wf m'"
  by (induction rule: assignment_step.induct) (auto intro: wf_intros)

lemma assignments_reachable: "assignment_step\<^sup>*\<^sup>* m m' \<Longrightarrow> assignments_wf m \<Longrightarrow> assignments_wf m'"
  by (induction rule: rtranclp_induct) (auto intro: assignment_step_wf)

section \<open>Properties\<close>

text \<open>Whatever sequence of assignments, starts, status updates and removals is made, an agent takes
  part in a deployment at most once, and an assignment that has reached a terminal status carries a
  completion time.\<close>

theorem assignments_reachable_wf:
  assumes "assignment_step\<^sup>*\<^sup>* NewMemoryStore m"
  shows "distinct (map da_AgentID (GetDeploymentAgents d m))
    \<and> (\<forall>da \<in> set (GetDeploymentAgents d m). da_DeploymentID da = d
         \<and> (IsTerminal (da_Status da) \<longrightarrow> da_CompletedAt da \<noteq> None))"
proof -
  have "assignments_wf NewMemoryStore" by (simp add: assignments_wf_def assigned_def NewMemoryStore_def)
  from assignments_reachable [OF assms this] show ?thesis
    by (simp add: assignments_wf_def GetDeploymentAgents_def list_all_iff assignment_ok_def)
qed

theorem assignments_reachable_wf_witness:
  "length (GetDeploymentAgents ''d'' (snd (AssignAgentToDeployment ''d'' ''a'' ''x'' NewMemoryStore))) = 1
   \<and> distinct (map da_AgentID (GetDeploymentAgents ''d'' (snd (AssignAgentToDeployment ''d'' ''a'' ''x'' NewMemoryStore))))"
proof -
  have "assignment_step\<^sup>*\<^sup>* NewMemoryStore (snd (AssignAgentToDeployment ''d'' ''a'' ''x'' NewMemoryStore))"
    by (intro r_into_rtranclp assign)
  from assignments_reachable_wf [OF this, of "''d''"] show ?thesis
    by (simp add: GetDeploymentAgents_def AssignAgentToDeployment_def assigned_def NewMemoryStore_def)
qed

text \<open>Starting an agent succeeds exactly when it is assigned and still pending; then it is running
  with its start time set, a second start is refused, it can no longer be removed, and every other
  assignment is as before.\<close>

theorem StartDeploymentAgent_spec:
  assumes "StartDeploymentAgent d a now m = (res, m')"
  shows "case res of
      Inl _ \<Rightarrow> m' = m \<and> (\<forall>da. GetDeploymentAgentStatus d a m = Some da \<longrightarrow> da_Status da \<noteq> DeploymentStatusPending)
    | Inr _ \<Rightarrow> (\<exists>da. GetDeploymentAgentStatus d a m = Some da \<and> da_Status da = DeploymentStatusPending
           \<and> GetDeploymentAgentStatus d a m'
               = Some (da\<lparr>da_Status := DeploymentStatusRunning, da_StartedAt := Some now\<rparr>))
        \<and> StartDeploymentAgent d a later m' = (Inl (not_pending a d), m')
        \<and> RemoveAgentFromDeployment d a m' = (Inl (not_pending a d), m')
        \<and> (\<forall>e b. (e, b) \<noteq> (d, a) \<longrightarrow> GetDeploymentAgentStatus e b m' = GetDeploymentAgentStatus e b m)"
proof (cases "agent_index a (assigned d m)")
  case None
  with assms show ?thesis
    by (auto simp: StartDeploymentAgent_def GetDeploymentAgentStatus_def find_agent_index Let_def)
next
  case (Some i)
  note i = agent_index_Some [OF Some]
  let ?da = "assigned d m ! i"
  let ?run = "?da\<lparr>da_Status := DeploymentStatusRunning, da_StartedAt := Some now\<rparr>"
  show ?thesis
  proof (cases "da_Status ?da = DeploymentStatusPending")
    case False
    with assms Some show ?thesis
      by (auto simp: StartDeploymentAgent_def GetDeploymentAgentStatus_def find_agent_index Let_def)
  next
    case True
    then have r: "res = Inr ()"
      and m': "m' = m\<lparr>deploymentAgents := (deploymentAgents m)(d \<mapsto> (assigned d m)[i := ?run])\<rparr>"
      using assms Some by (auto simp: StartDeploymentAgent_def Let_def)
    have run: "da_AgentID ?run = a" using i by simp
    have idx: "agent_index a ((assigned d m)[i := ?run]) = Some i" by (rule agent_index_update [OF Some run])
    show ?thesis
      unfolding r m' sum.case
      using True Some idx i find_update_other [OF Some run]
      by (simp add: GetDeploymentAgentStatus_def find_agent_index StartDeploymentAgent_def
          RemoveAgentFromDeployment_def Let_def)
  qed
qed

theorem StartDeploymentAgent_spec_witness:
  "StartDeploymentAgent ''d'' ''a'' 9 (snd (StartDeploymentAgent ''d'' ''a'' 5 (snd (AssignAgentToDeployment ''d'' ''a'' ''x'' NewMemoryStore))))
   = (Inl (not_pending ''a'' ''d''), snd (StartDeploymentAgent ''d'' ''a'' 5 (snd (AssignAgentToDeployment ''d'' ''a'' ''x'' NewMemoryStore))))"
proof -
  let ?m = "snd (AssignAgentToDeployment ''d'' ''a'' ''x'' NewMemoryStore)"
  have "fst (StartDeploymentAgent ''d'' ''a'' 5 ?m) = Inr ()"
    by (simp add: StartDeploymentAgent_def AssignAgentToDeployment_def assigned_def NewMemoryStore_def Let_def)
  then have "StartDeploymentAgent ''d'' ''a'' 5 ?m = (Inr (), snd (StartDeploymentAgent ''d'' ''a'' 5 ?m))"
    by (metis prod.collapse)
  from StartDeploymentAgent_spec [OF this, of 9] show ?thesis by simp
qed

text \<open>Assigning several agents stops at the first that is already assigned (or listed twice), but
  keeps the assignments made before it: on success exactly the listed agents have been added, and on
  failure a proper initial part of them.\<close>

theorem AssignAgentsToDeployment_spec:
  "\<exists>k \<le> length as. map da_AgentID (GetDeploymentAgents d (snd (AssignAgentsToDeployment d as m)))
       = map da_AgentID (GetDeploymentAgents d m) @ map fst (take k as)
     \<and> (fst (AssignAgentsToDeployment d as m) = Inr () \<longleftrightarrow> k = length as)
     \<and> (k < length as \<longrightarrow> fst (as ! k) \<in> set (map da_AgentID (GetDeploymentAgents d m) @ map fst (take k as)))"
proof (induction as arbitrary: m)
  case Nil
  then show ?case by simp
next
  case (Cons x as)
  obtain a xid where x: "x = (a, xid)" by (cases x)
  show ?case
  proof (cases "list_ex (\<lambda>da. da_AgentID da = a) (assigned d m)")
    case True
    then show ?thesis
      by (intro exI [of _ 0]) (auto simp: x AssignAgentToDeployment_def GetDeploymentAgents_def list_ex_iff)
  next
    case False
    let ?m = "snd (AssignAgentToDeployment d a xid m)"
    have f: "fst (AssignAgentToDeployment d a xid m) = Inr ()"
      and ids: "map da_AgentID (GetDeploymentAgents d ?m) = map da_AgentID (GetDeploymentAgents d m) @ [a]"
      using False by (simp_all add: AssignAgentToDeployment_def GetDeploymentAgents_def)
    from f have step: "AssignAgentsToDeployment d (x # as) m = AssignAgentsToDeployment d as ?m"
      by (auto simp: x split: prod.splits sum.splits)
    from Cons.IH [of ?m] obtain k where k: "k \<le> length as"
      "map da_AgentID (GetDeploymentAgents d (snd (AssignAgentsToDeployment d as ?m)))
         = map da_AgentID (GetDeploymentAgents d ?m) @ map fst (take k as)"
      "fst (AssignAgentsToDeployment d as ?m) = Inr () \<longleftrightarrow> k = length as"
      "k < length as \<longrightarrow> fst (as ! k) \<in> set (map da_AgentID (GetDeploymentAgents d ?m) @ map fst (take k as))"
      by blast
    show ?thesis
      unfolding step by (rule exI [of _ "Suc k"]) (use k ids in \<open>auto simp: x\<close>)
  qed
qed

theorem AssignAgentsToDeployment_spec_witness:
  "\<exists>k \<le> 2. map da_AgentID (GetDeploymentAgents ''d'' (snd (AssignAgentsToDeployment ''d'' [(''a'', ''x''), (''a'', ''y'')] NewMemoryStore)))
     = map fst (take k [(''a'', ''x''), (''a'', ''y'')])"
proof -
  have "GetDeploymentAgents ''d'' NewMemoryStore = []" by (simp add: GetDeploymentAgents_def assigned_def NewMemoryStore_def)
  with AssignAgentsToDeployment_spec [of "[(''a'', ''x''), (''a'', ''y'')]" "''d''" NewMemoryStore]
  show ?thesis unfolding list.size by (metis One_nat_def Suc_1 append_Nil list.simps(8) add_0 add_Suc_right plus_1_eq_Suc)
qed

end
