(* ===== verification/Write_Behind.thy ===== *)
theory Write_Behind
  imports Write_Ops Mem_Cleanup Mem_Deployment_Agents
begin

text \<open>
  The persistence of the in-memory store: \<open>FlushBatchFunc\<close> of \<open>internal/storage/writeop.go\<close>, the write
  workers, \<open>queueWrite\<close> and the configuration of \<open>internal/storage/memory.go\<close>, and \<open>NewCachedStore\<close> of
  \<open>internal/storage/factory.go\<close>.

  The database is a parameter: a driver with the three calls the code makes on a \<open>sql.DB\<close> and a
  \<open>sql.Tx\<close>. A worker is a transition system: a channel with a capacity, the batch being gathered, the
  database behind it. Its steps are a send by the store (possible only while the channel has room,
  otherwise the sender waits), a receive, a tick of the flush timer and the shutdown. A step flushes
  with the objects as they are at that moment, so every step may use another store.
\<close>

section \<open>Flushing a batch\<close>

record ('db, 'tx) driver =
  drv_Begin :: "'db \<Rightarrow> string + 'tx"
  drv_Exec :: "SqlStmt \<Rightarrow> 'tx \<Rightarrow> string + 'tx"
  drv_Commit :: "'tx \<Rightarrow> string + 'db"

definition WriteOpType_String :: "WriteOpType \<Rightarrow> string" where
  "WriteOpType_String t =
     (case t of WriteOpInsert \<Rightarrow> ''INSERT'' | WriteOpUpdate \<Rightarrow> ''UPDATE'' | WriteOpDelete \<Rightarrow> ''DELETE'')"

text \<open>The executor passed to \<open>FlushBatchFunc\<close>: \<open>s.executeWriteOp\<close> on the open transaction.\<close>

definition tx_executor ::
  "('db, 'tx) driver \<Rightarrow> ((string \<rightharpoonup> string) \<Rightarrow> string) \<Rightarrow> MemoryStore \<Rightarrow> WriteOp \<Rightarrow> 'tx \<Rightarrow> string + 'tx" where
  "tx_executor drv labelsJSON s op tx =
     (case executeWriteOp labelsJSON s op of
        Inl e \<Rightarrow> Inl e
      | Inr None \<Rightarrow> Inr tx
      | Inr (Some q) \<Rightarrow> drv_Exec drv q tx)"

fun run_batch :: "(WriteOp \<Rightarrow> 'tx \<Rightarrow> string + 'tx) \<Rightarrow> WriteOp list \<Rightarrow> int \<Rightarrow> 'tx \<Rightarrow> int \<times> (string + 'tx)" where
  "run_batch executor [] executed tx = (executed, Inr tx)"
| "run_batch executor (op # ops) executed tx =
     (case executor op tx of
        Inl e \<Rightarrow> (executed, Inl (''execute '' @ WriteOpType_String (op_Type op) @ '' on '' @ op_Table op @ '': '' @ e))
      | Inr tx' \<Rightarrow> run_batch executor ops (executed + 1) tx')"

text \<open>The count, the error if any, and the database afterwards: the deferred rollback leaves it as it
  was unless the commit succeeded.\<close>

definition FlushBatchFunc ::
  "('db, 'tx) driver \<Rightarrow> WriteOp list \<Rightarrow> (WriteOp \<Rightarrow> 'tx \<Rightarrow> string + 'tx) \<Rightarrow> 'db \<Rightarrow> int \<times> string option \<times> 'db" where
  "FlushBatchFunc drv batch executor db =
     (if batch = [] then (0, None, db)
      else
        (case drv_Begin drv db of
           Inl e \<Rightarrow> (0, Some (''begin transaction: '' @ e), db)
         | Inr tx \<Rightarrow>
             (case run_batch executor batch 0 tx of
                (executed, Inl e) \<Rightarrow> (executed, Some e, db)
              | (executed, Inr tx') \<Rightarrow>
                  (case drv_Commit drv tx' of
                     Inl e \<Rightarrow> (executed, Some (''commit transaction: '' @ e), db)
                   | Inr db' \<Rightarrow> (executed, None, db')))))"

section \<open>A write worker\<close>

record 'db worker =
  w_chan :: "WriteOp list"
  w_batch :: "WriteOp list"
  w_db :: 'db
  w_stopped :: bool

datatype worker_event = Queued WriteOp | Committed "WriteOp list" | Discarded "WriteOp list"

text \<open>\<open>flush()\<close>: whatever the outcome, \<open>batch = batch[:0]\<close>.\<close>

definition flush ::
  "('db, 'tx) driver \<Rightarrow> (WriteOp \<Rightarrow> 'tx \<Rightarrow> string + 'tx) \<Rightarrow> 'db worker \<Rightarrow> worker_event list \<times> 'db worker" where
  "flush drv executor w =
     (if w_batch w = [] then ([], w)
      else
        (case FlushBatchFunc drv (w_batch w) executor (w_db w) of
           (executed, err, db) \<Rightarrow>
             (case err of
                None \<Rightarrow> ([Committed (w_batch w)], w\<lparr>w_batch := [], w_db := db\<rparr>)
              | Some e \<Rightarrow> ([Discarded (w_batch w)], w\<lparr>w_batch := [], w_db := db\<rparr>))))"

text \<open>\<open>case op := <-writes\<close> of the loop.\<close>

definition receive_op ::
  "('db, 'tx) driver \<Rightarrow> nat \<Rightarrow> (WriteOp \<Rightarrow> 'tx \<Rightarrow> string + 'tx) \<Rightarrow> WriteOp \<Rightarrow> 'db worker \<Rightarrow> worker_event list \<times> 'db worker" where
  "receive_op drv batchSize executor op w =
     (let w = w\<lparr>w_batch := w_batch w @ [op]\<rparr>
      in if length (w_batch w) \<ge> batchSize then flush drv executor w else ([], w))"

text \<open>\<open>case <-s.done\<close>: drain the channel, flush, return.\<close>

definition shut_down ::
  "('db, 'tx) driver \<Rightarrow> (WriteOp \<Rightarrow> 'tx \<Rightarrow> string + 'tx) \<Rightarrow> 'db worker \<Rightarrow> worker_event list \<times> 'db worker" where
  "shut_down drv executor w =
     (case flush drv executor (w\<lparr>w_batch := w_batch w @ w_chan w, w_chan := []\<rparr>) of
        (evs, w') \<Rightarrow> (evs, w'\<lparr>w_stopped := True\<rparr>))"

text \<open>The steps of one channel: \<open>started\<close> says whether \<open>startWriteWorker\<close> was called for it.\<close>

inductive worker_step ::
  "('db, 'tx) driver \<Rightarrow> ((string \<rightharpoonup> string) \<Rightarrow> string) \<Rightarrow> nat \<Rightarrow> nat \<Rightarrow> bool \<Rightarrow>
   'db worker \<Rightarrow> worker_event list \<Rightarrow> 'db worker \<Rightarrow> bool"
  for drv labelsJSON bufSize batchSize started where
  send: "length (w_chan w) < bufSize \<Longrightarrow>
    worker_step drv labelsJSON bufSize batchSize started w [Queued op] (w\<lparr>w_chan := queueWrite (w_chan w) op\<rparr>)"
| receive: "started \<Longrightarrow> \<not> w_stopped w \<Longrightarrow> w_chan w = op # rest \<Longrightarrow>
    receive_op drv batchSize (tx_executor drv labelsJSON s) op (w\<lparr>w_chan := rest\<rparr>) = (evs, w') \<Longrightarrow>
    worker_step drv labelsJSON bufSize batchSize started w evs w'"
| tick: "started \<Longrightarrow> \<not> w_stopped w \<Longrightarrow> flush drv (tx_executor drv labelsJSON s) w = (evs, w') \<Longrightarrow>
    worker_step drv labelsJSON bufSize batchSize started w evs w'"
| stop: "started \<Longrightarrow> \<not> w_stopped w \<Longrightarrow> shut_down drv (tx_executor drv labelsJSON s) w = (evs, w') \<Longrightarrow>
    worker_step drv labelsJSON bufSize batchSize started w evs w'"

inductive worker_run ::
  "('db, 'tx) driver \<Rightarrow> ((string \<rightharpoonup> string) \<Rightarrow> string) \<Rightarrow> nat \<Rightarrow> nat \<Rightarrow> bool \<Rightarrow>
   'db worker \<Rightarrow> worker_event list \<Rightarrow> 'db worker \<Rightarrow> bool"
  for drv labelsJSON bufSize batchSize started where
  run_done: "worker_run drv labelsJSON bufSize batchSize started w [] w"
| run_more: "worker_run drv labelsJSON bufSize batchSize started w evs w' \<Longrightarrow>
    worker_step drv labelsJSON bufSize batchSize started w' evs' w'' \<Longrightarrow>
    worker_run drv labelsJSON bufSize batchSize started w (evs @ evs') w''"

inductive_cases worker_stepE: "worker_step drv labelsJSON bufSize batchSize started w evs w'"

section \<open>The store's workers\<close>

datatype channel = Core | Projects | Agents | Deployments | Audit | RateLimit | Provision

text \<open>The configuration: which databases are connected, how many operations a batch holds, and the
  buffer size of the channels. The flush intervals only decide when ticks happen.\<close>

record MemoryStoreConfig =
  cfg_DB :: "channel \<Rightarrow> bool"
  cfg_BatchSize :: "channel \<Rightarrow> nat"
  cfg_ChannelBufferSize :: nat

definition DefaultMemoryStoreConfig :: MemoryStoreConfig where
  "DefaultMemoryStoreConfig =
     \<lparr>cfg_DB = (\<lambda>_. False),
      cfg_BatchSize = (\<lambda>c. case c of Core \<Rightarrow> 50 | Projects \<Rightarrow> 100 | Agents \<Rightarrow> 100 | Deployments \<Rightarrow> 200
                             | Audit \<Rightarrow> 500 | RateLimit \<Rightarrow> 1000 | Provision \<Rightarrow> 50),
      cfg_ChannelBufferSize = 10000\<rparr>"

text \<open>\<open>bufSize\<close> of \<open>NewMemoryStore\<close>; a worker is started for each database that is connected.\<close>

definition buf_size :: "MemoryStoreConfig \<Rightarrow> nat" where
  "buf_size cfg = (if cfg_ChannelBufferSize cfg = 0 then 10000 else cfg_ChannelBufferSize cfg)"

definition start_workers :: "'db \<Rightarrow> channel \<Rightarrow> 'db worker" where
  "start_workers db c = \<lparr>w_chan = [], w_batch = [], w_db = db, w_stopped = False\<rparr>"

text \<open>\<open>NewCachedStore\<close>: the default configuration with the core database connected.\<close>

definition NewCachedStore_config :: MemoryStoreConfig where
  "NewCachedStore_config = DefaultMemoryStoreConfig\<lparr>cfg_DB := (\<lambda>c. c = Core)\<rparr>"

inductive store_run ::
  "('db, 'tx) driver \<Rightarrow> ((string \<rightharpoonup> string) \<Rightarrow> string) \<Rightarrow> MemoryStoreConfig \<Rightarrow>
   (channel \<Rightarrow> 'db worker) \<Rightarrow> (channel \<times> worker_event) list \<Rightarrow> (channel \<Rightarrow> 'db worker) \<Rightarrow> bool"
  for drv labelsJSON cfg where
  store_done: "store_run drv labelsJSON cfg st [] st"
| store_more: "store_run drv labelsJSON cfg st evs st' \<Longrightarrow>
    worker_step drv labelsJSON (buf_size cfg) (cfg_BatchSize cfg c) (cfg_DB cfg c) (st' c) evs' w \<Longrightarrow>
    store_run drv labelsJSON cfg st (evs @ map (Pair c) evs') (st'(c := w))"

section \<open>Accounting for operations\<close>

text \<open>The operations sent, and the batches that left the worker, in order.\<close>

definition queued :: "worker_event list \<Rightarrow> WriteOp list" where
  "queued evs = List.map_filter (\<lambda>e. case e of Queued op \<Rightarrow> Some op | _ \<Rightarrow> None) evs"

definition handled :: "worker_event list \<Rightarrow> WriteOp list" where
  "handled evs = concat (map (\<lambda>e. case e of Queued _ \<Rightarrow> [] | Committed ops \<Rightarrow> ops | Discarded ops \<Rightarrow> ops) evs)"

lemma queued_append [simp]: "queued (xs @ ys) = queued xs @ queued ys"
  by (simp add: queued_def map_filter_def)

lemma handled_append [simp]: "handled (xs @ ys) = handled xs @ handled ys"
  by (simp add: handled_def)

lemma queued_simps [simp]:
  "queued [] = []" "queued (Queued op # evs) = op # queued evs" "queued (Committed b # evs) = queued evs"
  "queued (Discarded b # evs) = queued evs"
  by (simp_all add: queued_def map_filter_def)

lemma handled_simps [simp]:
  "handled [] = []" "handled (Queued op # evs) = handled evs" "handled (Committed b # evs) = b @ handled evs"
  "handled (Discarded b # evs) = b @ handled evs"
  by (simp_all add: handled_def)

lemma flush_accounts:
  assumes "flush drv ex w = (evs, w')"
  shows "queued evs = [] \<and> handled evs = w_batch w \<and> w_batch w' = [] \<and> w_chan w' = w_chan w \<and> w_stopped w' = w_stopped w"
  using assms by (auto simp: flush_def split: if_splits prod.splits option.splits)

lemma worker_step_accounts:
  assumes "worker_step drv lj cap n started w evs w'"
  shows "handled evs @ w_batch w' @ w_chan w' = w_batch w @ w_chan w @ queued evs"
    and "(w_stopped w \<longrightarrow> w_batch w = []) \<Longrightarrow> (w_stopped w' \<longrightarrow> w_batch w' = [])"
proof -
  have "handled evs @ w_batch w' @ w_chan w' = w_batch w @ w_chan w @ queued evs
      \<and> ((w_stopped w \<longrightarrow> w_batch w = []) \<longrightarrow> (w_stopped w' \<longrightarrow> w_batch w' = []))"
    using assms
  proof cases
    case (send op)
    then show ?thesis by (simp add: queueWrite_def)
  next
    case (receive op rest s)
    then show ?thesis
      by (auto simp: receive_op_def Let_def split: if_splits dest!: flush_accounts)
  next
    case (tick s)
    then show ?thesis by (auto dest: flush_accounts)
  next
    case (stop s)
    then show ?thesis by (auto simp: shut_down_def split: prod.splits dest!: flush_accounts)
  qed
  then show "handled evs @ w_batch w' @ w_chan w' = w_batch w @ w_chan w @ queued evs"
    and "(w_stopped w \<longrightarrow> w_batch w = []) \<Longrightarrow> (w_stopped w' \<longrightarrow> w_batch w' = [])" by blast+
qed

lemma worker_run_accounts:
  "worker_run drv lj cap n started w evs w' \<Longrightarrow> w_batch w @ w_chan w @ queued evs = handled evs @ w_batch w' @ w_chan w'"
proof (induction rule: worker_run.induct)
  case (run_done w)
  then show ?case by simp
next
  case (run_more w evs w' evs' w'')
  have "w_batch w @ w_chan w @ queued (evs @ evs') = (w_batch w @ w_chan w @ queued evs) @ queued evs'" by simp
  also have "\<dots> = handled evs @ (w_batch w' @ w_chan w' @ queued evs')" by (simp add: run_more.IH)
  also have "\<dots> = handled evs @ handled evs' @ w_batch w'' @ w_chan w''"
    using worker_step_accounts(1) [OF run_more.hyps(2)] by simp
  finally show ?case by simp
qed

lemma worker_run_stopped:
  "worker_run drv lj cap n started w evs w' \<Longrightarrow> \<not> w_stopped w \<Longrightarrow> w_stopped w' \<longrightarrow> w_batch w' = []"
proof (induction rule: worker_run.induct)
  case (run_more w evs w' evs' w'')
  then show ?case using worker_step_accounts(2) [OF run_more.hyps(2)] by blast
qed simp

section \<open>Flushing is atomic\<close>

text \<open>The reference: the operations one after the other.\<close>

fun exec_all :: "(WriteOp \<Rightarrow> 'tx \<Rightarrow> string + 'tx) \<Rightarrow> WriteOp list \<Rightarrow> 'tx \<Rightarrow> 'tx option" where
  "exec_all ex [] tx = Some tx"
| "exec_all ex (op # ops) tx = (case ex op tx of Inl _ \<Rightarrow> None | Inr tx' \<Rightarrow> exec_all ex ops tx')"

lemma run_batch_exec_all:
  "case run_batch ex ops n tx of
     (m, Inl e) \<Rightarrow> exec_all ex ops tx = None
   | (m, Inr tx') \<Rightarrow> exec_all ex ops tx = Some tx' \<and> m = n + int (length ops)"
proof (induction ops arbitrary: n tx)
  case Nil
  then show ?case by simp
next
  case (Cons op ops)
  show ?case
  proof (cases "ex op tx")
    case (Inl e)
    then show ?thesis by simp
  next
    case (Inr tx')
    from Cons.IH [where n = "n + 1" and tx = tx'] Inr show ?thesis by (auto split: prod.splits sum.splits)
  qed
qed

lemma exec_all_rejects:
  "op \<in> set ops \<Longrightarrow> (\<And>tx. \<exists>e. ex op tx = Inl e) \<Longrightarrow> exec_all ex ops tx = None"
proof (induction ops arbitrary: tx)
  case (Cons a ops)
  show ?case
  proof (cases "ex a tx")
    case (Inr tx')
    with Cons.prems have "op \<in> set ops" by (metis Inl_Inr_False set_ConsD)
    with Cons Inr show ?thesis by simp
  qed simp
qed simp

lemma FlushBatchFunc_outcome:
  assumes "FlushBatchFunc drv batch ex db = (n, err, db')" and "batch \<noteq> []"
  shows "(err \<noteq> None \<and> db' = db)
    \<or> (err = None \<and> n = int (length batch)
        \<and> (\<exists>tx tx'. drv_Begin drv db = Inr tx \<and> exec_all ex batch tx = Some tx' \<and> drv_Commit drv tx' = Inr db'))"
proof (cases "drv_Begin drv db")
  case (Inl e)
  with assms show ?thesis by (auto simp: FlushBatchFunc_def)
next
  case (Inr tx)
  obtain m r where mr: "run_batch ex batch 0 tx = (m, r)" by (cases "run_batch ex batch 0 tx")
  note x = run_batch_exec_all [where ex = ex and ops = batch and n = 0 and tx = tx, unfolded mr prod.case]
  show ?thesis
  proof (cases r)
    case (Inl e)
    with assms Inr mr show ?thesis by (auto simp: FlushBatchFunc_def)
  next
    case r: (Inr tx')
    show ?thesis
      using assms Inr mr r x by (cases "drv_Commit drv tx'") (auto simp: FlushBatchFunc_def)
  qed
qed

section \<open>Rejected operations\<close>

text \<open>An operation whose data the executor does not accept, whatever the store holds.\<close>

definition rejected :: "WriteOp \<Rightarrow> bool" where
  "rejected op \<longleftrightarrow> (\<forall>labelsJSON s. \<exists>e. executeWriteOp labelsJSON s op = Inl e)"

lemma rejected_fails: "rejected op \<Longrightarrow> \<exists>e. tx_executor drv lj s op tx = Inl e"
  unfolding rejected_def tx_executor_def by (metis sum.simps(5))

lemma rejected_batch:
  assumes "op \<in> set batch" and "rejected op"
    and "FlushBatchFunc drv batch (tx_executor drv lj s) db = (n, err, db')"
  shows "err \<noteq> None \<and> db' = db"
proof -
  have "exec_all (tx_executor drv lj s) batch tx = None" for tx
    by (rule exec_all_rejects [OF assms(1)]) (rule rejected_fails [OF assms(2)])
  then show ?thesis using FlushBatchFunc_outcome [OF assms(3)] assms(1) by fastforce
qed

lemma queued_op_rejected:
  "rejected (NewWriteOp WriteOpDelete ''sessions'' (StringMapData m) now)"
  "rejected (NewWriteOp WriteOpDelete ''sessions'' (TimeMapData tm) now)"
  "rejected (NewWriteOp WriteOpDelete ''sessions'' (SessionPtr ses) now)"
  "rejected (NewWriteOp WriteOpDelete ''projects'' (StringData i) now)"
  "rejected (NewWriteOp WriteOpDelete ''projects'' (StringMapData m) now)"
  "rejected (NewWriteOp WriteOpUpdate ''projects'' (AnyMapData am) now)"
  "rejected (NewWriteOp WriteOpDelete ''project_types'' (StringMapData m) now)"
  "rejected (NewWriteOp WriteOpDelete ''project_webhooks'' (AnyMapData am) now)"
  "rejected (NewWriteOp WriteOpDelete ''secrets'' (StringMapData m) now)"
  "rejected (NewWriteOp WriteOpDelete ''agent_binaries'' (StringData i) now)"
  by (simp_all add: rejected_def executeWriteOp_def NewWriteOp_def executeSessionOp_def executeProjectOp_def
      executeProjectTypeOp_def executeWebhookOp_def executeSecretOp_def executeAgentBinaryOp_def)

section \<open>Properties\<close>

text \<open>C1: nothing is lost or reordered on the way to a flush. Whatever the interleaving of sends, receives,
  timer ticks and shutdown, the operations sent are, in order, those of the batches handed to the
  database, then those in the batch being gathered, then those still in the channel; and once the
  worker has shut down no operation it received is left unhandled.\<close>

theorem worker_fifo:
  assumes "worker_run drv labelsJSON bufSize batchSize started (start_workers db c) evs w"
  shows "queued evs = handled evs @ w_batch w @ w_chan w \<and> (w_stopped w \<longrightarrow> w_batch w = [])"
proof -
  have "w_batch (start_workers db c) = []" "w_chan (start_workers db c) = []" "\<not> w_stopped (start_workers db c)"
    by (simp_all add: start_workers_def)
  then show ?thesis using worker_run_accounts [OF assms] worker_run_stopped [OF assms] by simp
qed

text \<open>A driver for the witnesses: a database that keeps the statements of the committed transactions.\<close>

definition log_driver :: "(SqlStmt list, SqlStmt list) driver" where
  "log_driver = \<lparr>drv_Begin = Inr, drv_Exec = (\<lambda>q tx. Inr (tx @ [q])), drv_Commit = Inr\<rparr>"

definition user_op :: WriteOp where
  "user_op = NewWriteOp WriteOpDelete ''users'' (StringData ''u1'') 5"

theorem worker_fifo_witness:
  "worker_run log_driver (\<lambda>_. ''{}'') 10 1 True (start_workers [] Core) ([Queued user_op] @ [Committed [user_op]])
     \<lparr>w_chan = [], w_batch = [], w_db = [SqlDelete ''users'' ''id'' (AnyString ''u1'')], w_stopped = False\<rparr>
   \<and> queued ([Queued user_op] @ [Committed [user_op]]) = handled ([Queued user_op] @ [Committed [user_op]])"
proof -
  let ?w0 = "start_workers [] Core :: SqlStmt list worker"
  let ?w1 = "?w0\<lparr>w_chan := queueWrite (w_chan ?w0) user_op\<rparr>"
  let ?w2 = "\<lparr>w_chan = [], w_batch = [], w_db = [SqlDelete ''users'' ''id'' (AnyString ''u1'')], w_stopped = False\<rparr>"
  have a: "worker_step log_driver (\<lambda>_. ''{}'') 10 1 True ?w0 [Queued user_op] ?w1"
    by (rule worker_step.send) (simp add: start_workers_def)
  have f: "FlushBatchFunc log_driver [user_op] (tx_executor log_driver (\<lambda>_. ''{}'') NewMemoryStore) []
      = (1, None, [SqlDelete ''users'' ''id'' (AnyString ''u1'')])"
    by (simp add: FlushBatchFunc_def log_driver_def tx_executor_def executeWriteOp_def user_op_def NewWriteOp_def executeUserOp_def)
  have b: "worker_step log_driver (\<lambda>_. ''{}'') 10 1 True ?w1 [Committed [user_op]] ?w2"
    by (rule worker_step.receive [where op = user_op and rest = "[]" and s = NewMemoryStore])
      (simp_all add: start_workers_def queueWrite_def receive_op_def flush_def f Let_def)
  have "worker_run log_driver (\<lambda>_. ''{}'') 10 1 True ?w0 ([] @ [Queued user_op]) ?w1"
    by (rule run_more [OF run_done a])
  from run_more [OF this b] have r: "worker_run log_driver (\<lambda>_. ''{}'') 10 1 True ?w0 ([Queued user_op] @ [Committed [user_op]]) ?w2"
    by simp
  from worker_fifo [OF r] r show ?thesis by simp
qed

text \<open>C2: a batch is flushed entirely or not at all. On success the database is the one reached by
  executing all its operations in order in one transaction and committing, and the count is the size
  of the batch; on any error, of the begin, of an operation or of the commit, it is unchanged.\<close>

theorem FlushBatchFunc_atomic:
  "case FlushBatchFunc drv batch executor db of
     (n, Some e, db') \<Rightarrow> db' = db
   | (n, None, db') \<Rightarrow> n = int (length batch)
       \<and> (batch = [] \<and> db' = db
          \<or> (\<exists>tx tx'. drv_Begin drv db = Inr tx \<and> exec_all executor batch tx = Some tx' \<and> drv_Commit drv tx' = Inr db'))"
proof (cases "batch = []")
  case True
  then show ?thesis by (simp add: FlushBatchFunc_def)
next
  case False
  obtain n err db' where "FlushBatchFunc drv batch executor db = (n, err, db')"
    by (cases "FlushBatchFunc drv batch executor db")
  with FlushBatchFunc_outcome [OF this False] show ?thesis by (auto split: option.splits)
qed

text \<open>C3: some operations of the store queue data that the executor refuses, and one of them in a batch
  discards the whole batch. Deleting a session or the sessions of a user,
  deleting a project by its identifier or a secret, changing a project's health check and deleting
  an agent binary all queue such an operation: no flush of a batch that contains it has any effect
  on the database.\<close>

theorem refused_operations_discard_batch:
  assumes "op \<in> {last (coreWrites (snd (DeleteSession tok now s))),
                  last (coreWrites (snd (DeleteUserSessions uid now s))),
                  last (projectsWrites (snd (DeleteSecretCtx project scope key now s)))}
      \<or> (projects s pid \<noteq> None \<and> projects_wf s
          \<and> op \<in> {last (projectsWrites (snd (DeleteProjectByID pid now s))),
                   last (projectsWrites (snd (UpdateProjectHealthCheck pid hc ar rf now s)))})
      \<or> (agentBinaries s bid \<noteq> None \<and> op = last (agentsWrites (snd (DeleteAgentBinary bid now s))))"
    and "op \<in> set batch" and "FlushBatchFunc drv batch (tx_executor drv labelsJSON s') db = (n, err, db')"
  shows "err \<noteq> None \<and> db' = db"
proof -
  have "rejected op"
    using assms(1)
  proof (elim disjE conjE)
    assume "op \<in> {last (coreWrites (snd (DeleteSession tok now s))),
                  last (coreWrites (snd (DeleteUserSessions uid now s))),
                  last (projectsWrites (snd (DeleteSecretCtx project scope key now s)))}"
    then show ?thesis
      by (auto simp: DeleteSession_def DeleteUserSessions_def DeleteSecretCtx_def queueWrite_def intro: queued_op_rejected)
  next
    assume p: "projects s pid \<noteq> None" and wf: "projects_wf s"
      and op: "op \<in> {last (projectsWrites (snd (DeleteProjectByID pid now s))),
                   last (projectsWrites (snd (UpdateProjectHealthCheck pid hc ar rf now s)))}"
    obtain r x where r: "projects s pid = Some r" "load (projectObjs s) r = Some x"
      using p wf by (auto simp: projects_wf_def load_def)
    then have "deref (projects s) (projectObjs s) pid = Some x" by (simp add: deref_def)
    with r op show ?thesis
      by (auto simp: DeleteProjectByID_def UpdateProjectHealthCheck_def queueWrite_def intro: queued_op_rejected)
  next
    assume "agentBinaries s bid \<noteq> None" and "op = last (agentsWrites (snd (DeleteAgentBinary bid now s)))"
    then show ?thesis by (auto simp: DeleteAgentBinary_def queueWrite_def intro: queued_op_rejected)
  qed
  from rejected_batch [OF assms(2) this assms(3)] show ?thesis .
qed

theorem refused_operations_discard_batch_witness:
  "snd (snd (FlushBatchFunc log_driver [user_op, last (coreWrites (snd (DeleteSession ''t'' 7 NewMemoryStore)))]
       (tx_executor log_driver (\<lambda>_. ''{}'') NewMemoryStore) [])) = []"
proof -
  let ?op = "last (coreWrites (snd (DeleteSession ''t'' 7 NewMemoryStore)))"
  let ?f = "FlushBatchFunc log_driver [user_op, ?op] (tx_executor log_driver (\<lambda>_. ''{}'') NewMemoryStore) []"
  have "?f = (fst ?f, fst (snd ?f), snd (snd ?f))" by simp
  from refused_operations_discard_batch [OF _ _ this, where tok = "''t''" and now = 7 and s = NewMemoryStore and op = ?op]
  show ?thesis by simp
qed

text \<open>A channel without a worker only fills up.\<close>

definition events_of :: "channel \<Rightarrow> (channel \<times> worker_event) list \<Rightarrow> worker_event list" where
  "events_of c evs = map snd (filter (\<lambda>x. fst x = c) evs)"

lemma unstarted_step:
  assumes "worker_step drv lj cap n False w evs w'"
  shows "\<exists>op. evs = [Queued op] \<and> length (w_chan w) < cap \<and> w' = w\<lparr>w_chan := w_chan w @ [op]\<rparr>"
  using assms by cases (simp_all add: queueWrite_def)

lemma unstarted_run:
  assumes "store_run drv lj cfg st evs st'" and "\<not> cfg_DB cfg c"
  shows "(\<forall>e \<in> set (events_of c evs). \<exists>op. e = Queued op)
    \<and> w_chan (st' c) = w_chan (st c) @ queued (events_of c evs)
    \<and> (length (w_chan (st c)) \<le> buf_size cfg \<longrightarrow> length (w_chan (st' c)) \<le> buf_size cfg)"
  using assms
proof (induction rule: store_run.induct)
  case (store_done st)
  then show ?case by (simp add: events_of_def)
next
  case (store_more st evs st' d evs' w)
  show ?case
  proof (cases "d = c")
    case True
    with store_more.prems store_more.hyps(2) obtain op where
      "evs' = [Queued op]" "length (w_chan (st' c)) < buf_size cfg" "w = (st' c)\<lparr>w_chan := w_chan (st' c) @ [op]\<rparr>"
      using unstarted_step by fastforce
    with store_more.IH [OF store_more.prems] True show ?thesis by (auto simp: events_of_def)
  next
    case False
    then have "filter (\<lambda>x. fst x = c) (map (Pair d) evs') = []" by (auto simp: filter_empty_conv)
    then have "events_of c (evs @ map (Pair d) evs') = events_of c evs" by (simp add: events_of_def)
    with store_more.IH [OF store_more.prems] False show ?thesis by (simp only: fun_upd_other not_False_eq_True) auto
  qed
qed

lemma queued_nil: "(\<forall>e \<in> set evs. \<exists>op. e = Queued op) \<Longrightarrow> queued evs = [] \<Longrightarrow> evs = []"
  by (cases evs) auto

text \<open>C4: in the store that \<open>NewCachedStore\<close> builds, only the core database has a worker. Every operation
  queued on another channel (projects, agents, deployments, audit, rate limits, provisioning) stays
  in its channel: it is never committed. Once 10000 of them are waiting, no further operation can be
  queued on that channel, so the next sender waits for ever.\<close>

theorem NewCachedStore_persists_core_only:
  assumes "store_run drv labelsJSON NewCachedStore_config (start_workers db) evs st" and "c \<noteq> Core"
  shows "(\<forall>ops. (c, Committed ops) \<notin> set evs)
    \<and> w_chan (st c) = queued (events_of c evs) \<and> length (w_chan (st c)) \<le> 10000
    \<and> (length (w_chan (st c)) = 10000 \<longrightarrow>
         (\<forall>evs' st' op. store_run drv labelsJSON NewCachedStore_config st evs' st' \<longrightarrow> (c, Queued op) \<notin> set evs'))"
proof -
  have nodb: "\<not> cfg_DB NewCachedStore_config c" using assms(2) by (simp add: NewCachedStore_config_def)
  have buf: "buf_size NewCachedStore_config = 10000"
    by (simp add: buf_size_def NewCachedStore_config_def DefaultMemoryStoreConfig_def)
  note r = unstarted_run [OF assms(1) nodb, unfolded buf]
  have e: "(c, x) \<in> set xs \<Longrightarrow> x \<in> set (events_of c xs)" for x xs by (force simp: events_of_def)
  have 1: "(c, Committed ops) \<notin> set evs" for ops using r e by blast
  have s0: "w_chan (start_workers db c) = []" by (simp add: start_workers_def)
  have 2: "w_chan (st c) = queued (events_of c evs)" "length (w_chan (st c)) \<le> 10000"
    using r unfolding s0 by auto
  have 3: "(c, Queued op) \<notin> set evs'"
    if full: "length (w_chan (st c)) = 10000" and run: "store_run drv labelsJSON NewCachedStore_config st evs' st'" for evs' st' op
  proof
    assume q: "(c, Queued op) \<in> set evs'"
    note r' = unstarted_run [OF run nodb, unfolded buf]
    have "w_chan (st' c) = w_chan (st c) @ queued (events_of c evs')" using r' by blast
    then have "length (w_chan (st' c)) = length (w_chan (st c)) + length (queued (events_of c evs'))" by simp
    moreover have "length (w_chan (st' c)) \<le> 10000" using r' full by linarith
    ultimately have "queued (events_of c evs') = []" using full by simp
    then have "events_of c evs' = []" using r' queued_nil by blast
    with e [OF q] show False by simp
  qed
  from 1 2 3 show ?thesis by blast
qed

theorem NewCachedStore_persists_core_only_witness:
  "w_chan (((start_workers [] :: channel \<Rightarrow> SqlStmt list worker)(Projects := (start_workers [] Projects)
       \<lparr>w_chan := queueWrite [] (last (projectsWrites (snd (CreateProject (sample_project ''p1'' ''blog'') 2 ''-'' NewMemoryStore))))\<rparr>)) Projects)
   = queued (events_of Projects ([] @ map (Pair Projects)
       [Queued (last (projectsWrites (snd (CreateProject (sample_project ''p1'' ''blog'') 2 ''-'' NewMemoryStore))))]))"
proof -
  let ?op = "last (projectsWrites (snd (CreateProject (sample_project ''p1'' ''blog'') 2 ''-'' NewMemoryStore)))"
  let ?st = "start_workers [] :: channel \<Rightarrow> SqlStmt list worker"
  have "worker_step log_driver (\<lambda>_. ''{}'') (buf_size NewCachedStore_config) (cfg_BatchSize NewCachedStore_config Projects)
      (cfg_DB NewCachedStore_config Projects) (?st Projects) [Queued ?op] ((?st Projects)\<lparr>w_chan := queueWrite (w_chan (?st Projects)) ?op\<rparr>)"
    by (rule worker_step.send) (simp add: start_workers_def buf_size_def NewCachedStore_config_def DefaultMemoryStoreConfig_def)
  moreover have "w_chan (?st Projects) = []" by (simp add: start_workers_def)
  ultimately have "store_run log_driver (\<lambda>_. ''{}'') NewCachedStore_config ?st ([] @ map (Pair Projects) [Queued ?op])
      (?st(Projects := (?st Projects)\<lparr>w_chan := queueWrite [] ?op\<rparr>))"
    using store_more [OF store_done] by metis
  from NewCachedStore_persists_core_only [OF this, of Projects] show ?thesis by simp
qed

end
