(* ===== verification/Go_Json.thy ===== *)
theory Go_Json
  imports Go_Strings
begin

text \<open>
  The part of \<open>encoding/json\<close> that the storage models use: \<open>Marshal\<close> of values made of strings, integers,
  booleans, slices and structs, as the compact text Go writes. A struct is the list of its fields in
  declaration order; \<open>omitempty\<close> leaves a field out of that list. Keys of a Go map are written in
  ascending order.
\<close>

datatype json =
    JNull
  | JBool bool
  | JInt int
  | JString string
  | JArray "json list"
  | JObject "(string \<times> json) list"

section \<open>Decimal integers\<close>

fun nat_digits :: "nat \<Rightarrow> string" where
  "nat_digits n =
     (if n < 10 then [char_of (48 + n)] else nat_digits (n div 10) @ [char_of (48 + n mod 10)])"

declare nat_digits.simps [simp del]

definition Itoa :: "int \<Rightarrow> string" where
  "Itoa i = (if i < 0 then CHR ''-'' # nat_digits (nat (- i)) else nat_digits (nat i))"

lemma digit_value_char: "d < 10 \<Longrightarrow> digit_value (char_of (48 + d)) = Some (int d)"
  by (simp add: digit_value_def Let_def)

lemma digits_value_append:
  "digits_value acc (xs @ ys) = Option.bind (digits_value acc xs) (\<lambda>v. digits_value v ys)"
  by (induction xs arbitrary: acc) (auto split: option.splits)

lemma digits_value_nat_digits: "digits_value 0 (nat_digits n) = Some (int n)"
proof (induction n rule: nat_digits.induct)
  case (1 n)
  show ?case
  proof (cases "n < 10")
    case True
    then show ?thesis by (simp add: nat_digits.simps [of n] digit_value_char)
  next
    case False
    have "int (n div 10) * 10 + int (n mod 10) = int n" by presburger
    with 1 False show ?thesis
      by (simp add: nat_digits.simps [of n] digits_value_append digit_value_char)
  qed
qed

lemma nat_digits_head:
  obtains c cs d where "nat_digits n = c # cs" and "digit_value c = Some d"
proof (induction n arbitrary: thesis rule: nat_digits.induct)
  case (1 n)
  show ?case
  proof (cases "n < 10")
    case True
    then show ?thesis using 1(2) by (simp add: nat_digits.simps [of n] digit_value_char)
  next
    case False
    obtain c cs d where "nat_digits (n div 10) = c # cs" and "digit_value c = Some d"
      using 1(1) [OF False] by blast
    with False show ?thesis using 1(2) by (simp add: nat_digits.simps [of n])
  qed
qed

text \<open>\<open>strconv.Itoa\<close> and \<open>strconv.Atoi\<close> are inverse on 64-bit integers.\<close>

lemma Atoi_Itoa: "in_int64 i \<Longrightarrow> Atoi (Itoa i) = Some i"
proof (cases "i < 0")
  case True
  assume "in_int64 i"
  moreover have "nat_digits (nat (- i)) \<noteq> []" using nat_digits_head by (metis list.distinct(1))
  ultimately show ?thesis using True by (simp add: Atoi_def Itoa_def digits_value_nat_digits)
next
  case False
  assume i: "in_int64 i"
  obtain c cs d where c: "nat_digits (nat i) = c # cs" and d: "digit_value c = Some d"
    using nat_digits_head .
  from d have "c \<noteq> CHR ''-''" and "c \<noteq> CHR ''+''" by (auto simp: digit_value_def)
  with i c False show ?thesis
    using digits_value_nat_digits [of "nat i"] by (simp add: Atoi_def Itoa_def Let_def)
qed

section \<open>Strings\<close>

abbreviation backslash :: char where "backslash \<equiv> CHR 0x5C"
abbreviation dquote :: char where "dquote \<equiv> CHR 0x22"

definition hex_digit :: "nat \<Rightarrow> char" where
  "hex_digit n = (if n < 10 then char_of (48 + n) else char_of (87 + n))"

text \<open>A byte below 128. The quotation mark, the backslash, the control characters and the three
  characters special in HTML are escaped.\<close>

definition json_ascii :: "char \<Rightarrow> string" where
  "json_ascii c =
     (let b = of_char c :: nat
      in if c = dquote \<or> c = backslash then [backslash, c]
         else if b = 8 then [backslash, CHR ''b'']
         else if b = 12 then [backslash, CHR ''f'']
         else if b = 10 then [backslash, CHR ''n'']
         else if b = 13 then [backslash, CHR ''r'']
         else if b = 9 then [backslash, CHR ''t'']
         else if b < 32 \<or> c = CHR ''<'' \<or> c = CHR ''>'' \<or> c = CHR ''&''
         then [backslash, CHR ''u'', CHR ''0'', CHR ''0'', hex_digit (b div 16), hex_digit (b mod 16)]
         else [c])"

text \<open>The number of bytes of the UTF-8 encoded rune at the start of the text; 0 when the bytes there are
  no rune (\<open>utf8.DecodeRune\<close> then gives \<open>RuneError\<close> with width 1).\<close>

definition utf8_cont :: "nat \<Rightarrow> bool" where
  "utf8_cont b \<longleftrightarrow> 128 \<le> b \<and> b \<le> 191"

fun rune_width :: "nat list \<Rightarrow> nat" where
  "rune_width [] = 0"
| "rune_width (b # bs) =
     (if b < 128 then 1
      else if 194 \<le> b \<and> b \<le> 223 then (case bs of b1 # _ \<Rightarrow> if utf8_cont b1 then 2 else 0 | _ \<Rightarrow> 0)
      else if 224 \<le> b \<and> b \<le> 239 then
        (case bs of
           b1 # b2 # _ \<Rightarrow>
             if utf8_cont b1 \<and> (b = 224 \<longrightarrow> 160 \<le> b1) \<and> (b = 237 \<longrightarrow> b1 \<le> 159) \<and> utf8_cont b2 then 3 else 0
         | _ \<Rightarrow> 0)
      else if 240 \<le> b \<and> b \<le> 244 then
        (case bs of
           b1 # b2 # b3 # _ \<Rightarrow>
             if utf8_cont b1 \<and> (b = 240 \<longrightarrow> 144 \<le> b1) \<and> (b = 244 \<longrightarrow> b1 \<le> 143) \<and> utf8_cont b2 \<and> utf8_cont b3
             then 4 else 0
         | _ \<Rightarrow> 0)
      else 0)"

definition rune_at :: "string \<Rightarrow> nat" where
  "rune_at s = rune_width (map of_char (take 4 s))"

text \<open>Invalid bytes become the replacement character's escape; the two Unicode line separators are
  escaped as well.\<close>

function json_chars :: "string \<Rightarrow> string" where
  "json_chars s =
     (case s of
        [] \<Rightarrow> []
      | c # t \<Rightarrow>
          if (of_char c :: nat) < 128 then json_ascii c @ json_chars t
          else if rune_at s = 0 then backslash # ''ufffd'' @ json_chars t
          else if take 3 s = [CHR 0xE2, CHR 0x80, CHR 0xA8] then backslash # ''u2028'' @ json_chars (drop 3 s)
          else if take 3 s = [CHR 0xE2, CHR 0x80, CHR 0xA9] then backslash # ''u2029'' @ json_chars (drop 3 s)
          else take (rune_at s) s @ json_chars (drop (rune_at s) s))"
  by pat_completeness auto
termination by (relation "measure length") auto

declare json_chars.simps [simp del]

definition json_quote :: "string \<Rightarrow> string" where
  "json_quote s = dquote # json_chars s @ [dquote]"

section \<open>Values\<close>

fun Marshal :: "json \<Rightarrow> string" where
  "Marshal JNull = ''null''"
| "Marshal (JBool b) = (if b then ''true'' else ''false'')"
| "Marshal (JInt i) = Itoa i"
| "Marshal (JString s) = json_quote s"
| "Marshal (JArray vs) = ''['' @ Join (map Marshal vs) '','' @ '']''"
| "Marshal (JObject fs) = ''{'' @ Join (map (\<lambda>(k, v). json_quote k @ '':'' @ Marshal v) fs) '','' @ ''}''"

text \<open>Fields with and without \<open>omitempty\<close>, and slices, whose nil is \<open>None\<close>.\<close>

type_synonym 'a slice = "'a list option"

definition elems :: "'a slice \<Rightarrow> 'a list" where
  "elems xs = (case xs of None \<Rightarrow> [] | Some l \<Rightarrow> l)"

lemma elems_simps [simp]: "elems None = []" "elems (Some l) = l"
  by (simp_all add: elems_def)

definition json_strings :: "string slice \<Rightarrow> json" where
  "json_strings xs = (case xs of None \<Rightarrow> JNull | Some l \<Rightarrow> JArray (map JString l))"

definition omit_string :: "string \<Rightarrow> string \<Rightarrow> (string \<times> json) list" where
  "omit_string k s = (if s = [] then [] else [(k, JString s)])"

definition omit_int :: "string \<Rightarrow> int \<Rightarrow> (string \<times> json) list" where
  "omit_int k i = (if i = 0 then [] else [(k, JInt i)])"

definition omit_bool :: "string \<Rightarrow> bool \<Rightarrow> (string \<times> json) list" where
  "omit_bool k b = (if b then [(k, JBool b)] else [])"

definition omit_strings :: "string \<Rightarrow> string slice \<Rightarrow> (string \<times> json) list" where
  "omit_strings k xs = (if elems xs = [] then [] else [(k, json_strings xs)])"

end
