(* ===== verification/Recipe_Model.thy ===== *)
theory Recipe_Model
  imports Store_Model Go_Json "HOL-Library.List_Lexorder" "HOL-Library.Char_ord"
begin

text \<open>
  The data of the recipe subsystem (\<open>internal/storage/recipe_component.go\<close>, \<open>playbook.go\<close>): reusable
  components, playbooks made of steps that refer to components, the activation of a playbook for a
  project with its variable bindings, and the approvals of raw components; the JSON columns the
  persistence layer writes; and the store's maps for them.

  A Go slice that may be nil is an option (\<open>'a slice\<close>), because \<open>StepsJSON\<close> tells nil and empty apart. A
  stored struct is never changed through its pointer, only replaced, so the tables hold values. The
  bindings of a step, a \<open>map[string]string\<close>, are the list of its entries.
\<close>

section \<open>Components\<close>

abbreviation ComponentTypeHook :: string where "ComponentTypeHook \<equiv> ''hook''"
abbreviation ComponentTypeCommand :: string where "ComponentTypeCommand \<equiv> ''command''"
abbreviation ComponentTypeServiceReload :: string where "ComponentTypeServiceReload \<equiv> ''service_reload''"
abbreviation ComponentTypeFileOp :: string where "ComponentTypeFileOp \<equiv> ''file_op''"
abbreviation NamespaceSeed :: string where "NamespaceSeed \<equiv> ''seed''"
abbreviation NamespaceUser :: string where "NamespaceUser \<equiv> ''user''"

definition ValidComponentTypes :: "string list" where
  "ValidComponentTypes =
     [ComponentTypeHook, ComponentTypeCommand, ComponentTypeServiceReload, ComponentTypeFileOp]"

definition ValidNamespaces :: "string list" where
  "ValidNamespaces = [NamespaceSeed, NamespaceUser]"

record ComponentContent =
  cc_Commands :: "string slice"
  cc_WorkDir :: string
  cc_User :: string
  cc_Timeout :: int
  cc_ContinueOnError :: bool
  cc_Condition :: string
  cc_ServiceName :: string
  cc_ServiceAction :: string
  cc_SourcePath :: string
  cc_DestPath :: string
  cc_FileOp :: string
  cc_FileMode :: string
  cc_FileOwner :: string

record VariableDefinition =
  vd_Name :: string
  vd_Type :: string
  vd_Required :: bool
  vd_Default :: string
  vd_Description :: string
  vd_Sensitive :: bool

record RecipeComponent =
  rc_ID :: string
  rc_Namespace :: string
  rc_Slug :: string
  rc_Version :: string
  rc_Name :: string
  rc_Description :: string
  rc_ComponentType :: string
  rc_Content :: ComponentContent
  rc_Variables :: "VariableDefinition slice"
  rc_IsSeed :: bool
  rc_IsRaw :: bool
  rc_IsDeprecated :: bool
  rc_CreatedAt :: time

definition content_json :: "ComponentContent \<Rightarrow> json" where
  "content_json c = JObject
     (omit_strings ''commands'' (cc_Commands c) @ omit_string ''work_dir'' (cc_WorkDir c) @
      omit_string ''user'' (cc_User c) @ omit_int ''timeout'' (cc_Timeout c) @
      omit_bool ''continue_on_error'' (cc_ContinueOnError c) @ omit_string ''condition'' (cc_Condition c) @
      omit_string ''service_name'' (cc_ServiceName c) @ omit_string ''service_action'' (cc_ServiceAction c) @
      omit_string ''source_path'' (cc_SourcePath c) @ omit_string ''dest_path'' (cc_DestPath c) @
      omit_string ''file_op'' (cc_FileOp c) @ omit_string ''file_mode'' (cc_FileMode c) @
      omit_string ''file_owner'' (cc_FileOwner c))"

definition variable_json :: "VariableDefinition \<Rightarrow> json" where
  "variable_json v = JObject
     ([(''name'', JString (vd_Name v)), (''type'', JString (vd_Type v)), (''required'', JBool (vd_Required v))] @
      omit_string ''default'' (vd_Default v) @ omit_string ''description'' (vd_Description v) @
      omit_bool ''sensitive'' (vd_Sensitive v))"

definition ContentJSON :: "RecipeComponent \<Rightarrow> string" where
  "ContentJSON c = Marshal (content_json (rc_Content c))"

definition VariablesJSON :: "RecipeComponent \<Rightarrow> string" where
  "VariablesJSON c =
     (case rc_Variables c of None \<Rightarrow> ''[]'' | Some vs \<Rightarrow> Marshal (JArray (map variable_json vs)))"

section \<open>Playbooks\<close>

abbreviation PhasePrepare :: string where "PhasePrepare \<equiv> ''prepare''"
abbreviation PhasePreDeploy :: string where "PhasePreDeploy \<equiv> ''pre_deploy''"
abbreviation PhaseDeploy :: string where "PhaseDeploy \<equiv> ''deploy''"
abbreviation PhasePostDeploy :: string where "PhasePostDeploy \<equiv> ''post_deploy''"
abbreviation PhaseRollback :: string where "PhaseRollback \<equiv> ''rollback''"
abbreviation PhaseFinalize :: string where "PhaseFinalize \<equiv> ''finalize''"

abbreviation SourceTypeLiteral :: string where "SourceTypeLiteral \<equiv> ''literal''"
abbreviation SourceTypeEnv :: string where "SourceTypeEnv \<equiv> ''env''"
abbreviation SourceTypeSecret :: string where "SourceTypeSecret \<equiv> ''secret''"

definition ValidPhases :: "string list" where
  "ValidPhases =
     [PhasePrepare, PhasePreDeploy, PhaseDeploy, PhasePostDeploy, PhaseRollback, PhaseFinalize]"

definition ValidSourceTypes :: "string list" where
  "ValidSourceTypes = [SourceTypeLiteral, SourceTypeEnv, SourceTypeSecret]"

record PlaybookStep =
  step_Order :: int
  step_ComponentRef :: string
  step_VariableBindings :: "(string \<times> string) list"
  step_Condition :: string
  step_Phase :: string

record ValidationRules =
  vr_RequiredFiles :: "string slice"
  vr_RequiredEnvKeys :: "string slice"
  vr_Patterns :: "string slice"

record Playbook =
  pb_ID :: string
  pb_Namespace :: string
  pb_Slug :: string
  pb_Version :: string
  pb_Name :: string
  pb_Description :: string
  pb_FrameworkType :: string
  pb_Steps :: "PlaybookStep slice"
  pb_SharedDirs :: "string slice"
  pb_SharedFiles :: "string slice"
  pb_WritableDirs :: "string slice"
  pb_KeepReleases :: int
  pb_ValidationRules :: "ValidationRules option"
  pb_IsSeed :: bool
  pb_IsDeprecated :: bool
  pb_ParentID :: "string option"
  pb_ParentVersion :: string
  pb_CreatedAt :: time

definition step_json :: "PlaybookStep \<Rightarrow> json" where
  "step_json st = JObject
     ([(''order'', JInt (step_Order st)), (''component_ref'', JString (step_ComponentRef st))] @
      (if step_VariableBindings st = [] then []
       else [(''variable_bindings'',
              JObject (map (\<lambda>(k, v). (k, JString v)) (sort_key fst (step_VariableBindings st))))]) @
      omit_string ''condition'' (step_Condition st) @ [(''phase'', JString (step_Phase st))])"

definition rules_json :: "ValidationRules \<Rightarrow> json" where
  "rules_json r = JObject
     (omit_strings ''required_files'' (vr_RequiredFiles r) @
      omit_strings ''required_env_keys'' (vr_RequiredEnvKeys r) @ omit_strings ''patterns'' (vr_Patterns r))"

definition StepsJSON :: "Playbook \<Rightarrow> string" where
  "StepsJSON p =
     Marshal (case pb_Steps p of None \<Rightarrow> JNull | Some ss \<Rightarrow> JArray (map step_json ss))"

definition SharedDirsJSON :: "Playbook \<Rightarrow> string" where
  "SharedDirsJSON p =
     (if pb_SharedDirs p = None then ''[]'' else Marshal (json_strings (pb_SharedDirs p)))"

definition SharedFilesJSON :: "Playbook \<Rightarrow> string" where
  "SharedFilesJSON p =
     (if pb_SharedFiles p = None then ''[]'' else Marshal (json_strings (pb_SharedFiles p)))"

definition WritableDirsJSON :: "Playbook \<Rightarrow> string" where
  "WritableDirsJSON p =
     (if pb_WritableDirs p = None then ''[]'' else Marshal (json_strings (pb_WritableDirs p)))"

definition ValidationRulesJSON :: "Playbook \<Rightarrow> string" where
  "ValidationRulesJSON p =
     (case pb_ValidationRules p of None \<Rightarrow> ''null'' | Some r \<Rightarrow> Marshal (rules_json r))"

section \<open>Activations, bindings and approvals\<close>

record PlaybookVariableBinding =
  vb_ID :: string
  vb_ActivationID :: string
  vb_VariableName :: string
  vb_SourceType :: string
  vb_SourceRef :: string
  vb_LiteralValue :: string

record PlaybookActivation =
  act_ID :: string
  act_ProjectID :: string
  act_PlaybookID :: string
  act_ActivatedAt :: time
  act_ActivatedBy :: "string option"
  act_Bindings :: "PlaybookVariableBinding list"

record RawCommandApproval =
  ra_ID :: string
  ra_ComponentID :: string
  ra_ApprovedBy :: string
  ra_ApprovedAt :: time
  ra_ApprovalNote :: string

section \<open>The tables of the store\<close>

text \<open>The fields of \<open>MemoryStore\<close> for recipes, beside those of \<^typ>\<open>MemoryStore\<close>. An absent key of one of
  the slice-valued maps reads as the empty slice.\<close>

record RecipeStore = MemoryStore +
  recipeComponents :: "string \<rightharpoonup> RecipeComponent"
  recipeComponentsByKey :: "string \<rightharpoonup> RecipeComponent"
  playbooks :: "string \<rightharpoonup> Playbook"
  playbooksByKey :: "string \<rightharpoonup> Playbook"
  playbookActivations :: "string \<rightharpoonup> PlaybookActivation"
  activationsByProject :: "string \<Rightarrow> PlaybookActivation list"
  activationsByPlaybook :: "string \<Rightarrow> PlaybookActivation list"
  variableBindings :: "string \<rightharpoonup> PlaybookVariableBinding"
  bindingsByActivation :: "string \<Rightarrow> PlaybookVariableBinding list"
  bindingsBySourceRef :: "string \<Rightarrow> PlaybookVariableBinding list"
  rawApprovals :: "string \<rightharpoonup> RawCommandApproval"
  rawApprovalsByComponent :: "string \<Rightarrow> RawCommandApproval list"

definition NewRecipeStore :: RecipeStore where
  "NewRecipeStore = MemoryStore.extend NewMemoryStore
     \<lparr>recipeComponents = Map.empty, recipeComponentsByKey = Map.empty,
      playbooks = Map.empty, playbooksByKey = Map.empty,
      playbookActivations = Map.empty, activationsByProject = (\<lambda>_. []), activationsByPlaybook = (\<lambda>_. []),
      variableBindings = Map.empty, bindingsByActivation = (\<lambda>_. []), bindingsBySourceRef = (\<lambda>_. []),
      rawApprovals = Map.empty, rawApprovalsByComponent = (\<lambda>_. [])\<rparr>"

text \<open>What the persistence layer is given for a stored struct: its fields, and under the name of each
  marshalling method the text that method returns.\<close>

definition component_data :: "RecipeComponent \<Rightarrow> WriteData" where
  "component_data c = StructPtr ''RecipeComponent''
     [(''ID'', AnyString (rc_ID c)), (''Namespace'', AnyString (rc_Namespace c)),
      (''Slug'', AnyString (rc_Slug c)), (''Version'', AnyString (rc_Version c)),
      (''Name'', AnyString (rc_Name c)), (''Description'', AnyString (rc_Description c)),
      (''ComponentType'', AnyString (rc_ComponentType c)), (''ContentJSON'', AnyString (ContentJSON c)),
      (''VariablesJSON'', AnyString (VariablesJSON c)), (''IsSeed'', AnyBool (rc_IsSeed c)),
      (''IsRaw'', AnyBool (rc_IsRaw c)), (''IsDeprecated'', AnyBool (rc_IsDeprecated c)),
      (''CreatedAt'', AnyTime (rc_CreatedAt c))]"

definition playbook_data :: "Playbook \<Rightarrow> WriteData" where
  "playbook_data p = StructPtr ''Playbook''
     [(''ID'', AnyString (pb_ID p)), (''Namespace'', AnyString (pb_Namespace p)),
      (''Slug'', AnyString (pb_Slug p)), (''Version'', AnyString (pb_Version p)),
      (''Name'', AnyString (pb_Name p)), (''Description'', AnyString (pb_Description p)),
      (''FrameworkType'', AnyString (pb_FrameworkType p)), (''StepsJSON'', AnyString (StepsJSON p)),
      (''SharedDirsJSON'', AnyString (SharedDirsJSON p)), (''SharedFilesJSON'', AnyString (SharedFilesJSON p)),
      (''WritableDirsJSON'', AnyString (WritableDirsJSON p)), (''KeepReleases'', AnyInt (pb_KeepReleases p)),
      (''ValidationRulesJSON'', AnyString (ValidationRulesJSON p)), (''IsSeed'', AnyBool (pb_IsSeed p)),
      (''IsDeprecated'', AnyBool (pb_IsDeprecated p)), (''ParentID'', AnyStringPtr (pb_ParentID p)),
      (''ParentVersion'', AnyString (pb_ParentVersion p)), (''CreatedAt'', AnyTime (pb_CreatedAt p))]"

definition activation_data :: "PlaybookActivation \<Rightarrow> WriteData" where
  "activation_data a = StructPtr ''PlaybookActivation''
     [(''ID'', AnyString (act_ID a)), (''ProjectID'', AnyString (act_ProjectID a)),
      (''PlaybookID'', AnyString (act_PlaybookID a)), (''ActivatedAt'', AnyTime (act_ActivatedAt a)),
      (''ActivatedBy'', AnyStringPtr (act_ActivatedBy a))]"

definition binding_data :: "PlaybookVariableBinding \<Rightarrow> WriteData" where
  "binding_data b = StructPtr ''PlaybookVariableBinding''
     [(''ID'', AnyString (vb_ID b)), (''ActivationID'', AnyString (vb_ActivationID b)),
      (''VariableName'', AnyString (vb_VariableName b)), (''SourceType'', AnyString (vb_SourceType b)),
      (''SourceRef'', AnyString (vb_SourceRef b)), (''LiteralValue'', AnyString (vb_LiteralValue b))]"

definition approval_data :: "RawCommandApproval \<Rightarrow> WriteData" where
  "approval_data a = StructPtr ''RawCommandApproval''
     [(''ID'', AnyString (ra_ID a)), (''ComponentID'', AnyString (ra_ComponentID a)),
      (''ApprovedBy'', AnyString (ra_ApprovedBy a)), (''ApprovedAt'', AnyTime (ra_ApprovedAt a)),
      (''ApprovalNote'', AnyString (ra_ApprovalNote a))]"

end
