(* ===== verification/Group_Index.thy ===== *)
theory Group_Index
  imports Prelude
begin

text \<open>
  A secondary index of the store: a map from a group to the slice of the entries in that group
  (\<open>activationsByProject\<close>, \<open>bindingsByActivation\<close>, \<open>rawApprovalsByComponent\<close>). \<open>grouped\<close> says that it
  lists exactly the entries of the primary map; an entry whose group is \<open>None\<close> is in no slice. The
  lemmas say which updates keep that, and \<open>grouped_view\<close> is what a reader of the index relies on.
\<close>

text \<open>\<open>removeActivationFromSlice\<close>, \<open>removeBindingFromSlice\<close>: the first entry with the identifier goes.\<close>

fun remove_by_id :: "('v \<Rightarrow> string) \<Rightarrow> 'v list \<Rightarrow> string \<Rightarrow> 'v list" where
  "remove_by_id ident [] i = []"
| "remove_by_id ident (a # slice) i = (if ident a = i then slice else a # remove_by_id ident slice i)"

lemma remove_by_id_filter:
  "distinct (map ident xs) \<Longrightarrow> remove_by_id ident xs i = filter (\<lambda>v. ident v \<noteq> i) xs"
proof (induction xs)
  case (Cons a xs)
  have "filter (\<lambda>v. ident v \<noteq> i) xs = xs" if "ident a = i"
  proof -
    have "i \<notin> ident ` set xs" using Cons.prems that by simp
    then show ?thesis by (auto simp: filter_id_conv)
  qed
  with Cons show ?case by simp
qed simp

definition grouped ::
  "('v \<Rightarrow> string) \<Rightarrow> ('v \<Rightarrow> string option) \<Rightarrow> (string \<rightharpoonup> 'v) \<Rightarrow> (string \<Rightarrow> 'v list) \<Rightarrow> bool" where
  "grouped ident grp m g \<longleftrightarrow>
     (\<forall>i v. m i = Some v \<longrightarrow> ident v = i) \<and>
     (\<forall>k. distinct (map ident (g k))) \<and>
     (\<forall>k v. v \<in> set (g k) \<longleftrightarrow> m (ident v) = Some v \<and> grp v = Some k)"

lemma groupedI:
  assumes "\<And>i v. m i = Some v \<Longrightarrow> ident v = i" and "\<And>k. distinct (map ident (g k))"
    and "\<And>k v. v \<in> set (g k) \<longleftrightarrow> m (ident v) = Some v \<and> grp v = Some k"
  shows "grouped ident grp m g"
  using assms by (simp add: grouped_def)

lemma grouped_keyed: "grouped ident grp m g \<Longrightarrow> m i = Some v \<Longrightarrow> ident v = i"
  by (simp add: grouped_def)

lemma grouped_distinct: "grouped ident grp m g \<Longrightarrow> distinct (map ident (g k))"
  by (simp add: grouped_def)

lemma grouped_iff: "grouped ident grp m g \<Longrightarrow> v \<in> set (g k) \<longleftrightarrow> m (ident v) = Some v \<and> grp v = Some k"
  by (simp add: grouped_def)

lemma grouped_empty [simp]: "grouped ident grp Map.empty (\<lambda>_. [])"
  by (simp add: grouped_def)

lemma grouped_fresh_id:
  "grouped ident grp m g \<Longrightarrow> m i = None \<Longrightarrow> i \<notin> ident ` set (g k)"
  by (auto simp: grouped_iff)

lemma grouped_insert:
  assumes g: "grouped ident grp m g" and new: "m (ident v) = None"
    and g': "\<And>k. g' k = (if grp v = Some k then g k @ [v] else g k)"
  shows "grouped ident grp (m(ident v \<mapsto> v)) g'"
proof (rule groupedI)
  fix i w assume "(m(ident v \<mapsto> v)) i = Some w"
  then show "ident w = i" by (auto dest: grouped_keyed [OF g] split: if_splits)
next
  fix k show "distinct (map ident (g' k))"
    using grouped_distinct [OF g] grouped_fresh_id [OF g new] by (simp add: g')
next
  fix k w show "w \<in> set (g' k) \<longleftrightarrow> (m(ident v \<mapsto> v)) (ident w) = Some w \<and> grp w = Some k"
    using grouped_iff [OF g] new by (auto simp: g')
qed

lemma grouped_delete:
  assumes g: "grouped ident grp m g" and v: "m i = Some v"
    and g': "\<And>k. g' k = (if grp v = Some k then remove_by_id ident (g k) i else g k)"
  shows "grouped ident grp (m(i := None)) g'"
proof (rule groupedI)
  fix j w assume "(m(i := None)) j = Some w"
  then show "ident w = j" by (auto dest: grouped_keyed [OF g] split: if_splits)
next
  fix k show "distinct (map ident (g' k))"
    using grouped_distinct [OF g, of k] by (simp add: g' remove_by_id_filter distinct_map_filter)
next
  fix k w
  have "ident w \<noteq> i" if "w \<in> set (g k)" "grp v \<noteq> Some k"
    using that v grouped_iff [OF g, of w k] by auto
  then show "w \<in> set (g' k) \<longleftrightarrow> (m(i := None)) (ident w) = Some w \<and> grp w = Some k"
    using grouped_distinct [OF g, of k] grouped_iff [OF g, of w k]
    by (auto simp: g' remove_by_id_filter)
qed

text \<open>An update that removes the old entry from its slice and appends the new one.\<close>

lemma grouped_move:
  assumes g: "grouped ident grp m g" and old: "m (ident v) = Some old"
    and g1: "\<And>k. g1 k = (if grp old = Some k then remove_by_id ident (g k) (ident v) else g k)"
    and g': "\<And>k. g' k = (if grp v = Some k then g1 k @ [v] else g1 k)"
  shows "grouped ident grp (m(ident v \<mapsto> v)) g'"
proof -
  have d: "grouped ident grp (m(ident v := None)) g1" by (rule grouped_delete [OF g old g1])
  have "grouped ident grp ((m(ident v := None))(ident v \<mapsto> v)) g'"
    by (rule grouped_insert [OF d _ g']) simp
  then show ?thesis by simp
qed

text \<open>An update that replaces the old entry at its place in the slice.\<close>

definition replace_by_id :: "('v \<Rightarrow> string) \<Rightarrow> 'v \<Rightarrow> 'v list \<Rightarrow> 'v list" where
  "replace_by_id ident v xs =
     (case find (\<lambda>i. ident (xs ! i) = ident v) [0..<length xs] of None \<Rightarrow> xs | Some i \<Rightarrow> xs[i := v])"

lemma replace_by_id_map:
  assumes "distinct (map ident xs)"
  shows "replace_by_id ident v xs = map (\<lambda>w. if ident w = ident v then v else w) xs"
proof (cases "find (\<lambda>i. ident (xs ! i) = ident v) [0..<length xs]")
  case None
  then have "\<forall>w\<in>set xs. ident w \<noteq> ident v" by (auto simp: find_None_iff in_set_conv_nth)
  then show ?thesis using None by (auto simp: replace_by_id_def intro: map_idI [symmetric])
next
  case (Some i)
  then have i: "i < length xs" "ident (xs ! i) = ident v" by (auto simp: find_Some_iff)
  have "ident (xs ! j) \<noteq> ident v" if "j < length xs" "j \<noteq> i" for j
    using assms i that by (metis distinct_conv_nth length_map nth_map)
  with i Some show ?thesis by (auto simp: replace_by_id_def nth_list_update intro!: nth_equalityI)
qed

lemma grouped_replace:
  assumes g: "grouped ident grp m g" and old: "m (ident v) = Some old" and k: "grp old = grp v"
    and g': "\<And>k. g' k = (if grp v = Some k then replace_by_id ident v (g k) else g k)"
  shows "grouped ident grp (m(ident v \<mapsto> v)) g'"
proof (rule groupedI)
  fix j w assume "(m(ident v \<mapsto> v)) j = Some w"
  then show "ident w = j" by (auto dest: grouped_keyed [OF g] split: if_splits)
next
  fix k
  have "map ident (map (\<lambda>w. if ident w = ident v then v else w) (g k)) = map ident (g k)" by auto
  then show "distinct (map ident (g' k))"
    using grouped_distinct [OF g, of k] by (simp only: g' replace_by_id_map if_distrib) simp
next
  fix k w
  have "old \<in> set (g k) \<longleftrightarrow> grp v = Some k" and io: "ident old = ident v"
    using grouped_iff [OF g, of old k] grouped_keyed [OF g old] old assms(3) by auto
  moreover have "x = old" if "x \<in> set (g k)" "ident x = ident v" for x
    using grouped_iff [OF g, of x k] that old by simp
  ultimately show "w \<in> set (g' k) \<longleftrightarrow> (m(ident v \<mapsto> v)) (ident w) = Some w \<and> grp w = Some k"
    using grouped_distinct [OF g, of k] grouped_iff [OF g, of w k]
    by (auto simp: g' replace_by_id_map image_iff split: if_splits)
qed

section \<open>The contract of a secondary index\<close>

locale grouped_view =
  fixes inv :: "'s \<Rightarrow> bool"
    and by_id :: "'s \<Rightarrow> string \<Rightarrow> 'v option"
    and group :: "'s \<Rightarrow> string \<Rightarrow> 'v list"
    and ident :: "'v \<Rightarrow> string"
    and grp :: "'v \<Rightarrow> string option"
  assumes entry_id: "inv s \<Longrightarrow> by_id s i = Some v \<Longrightarrow> ident v = i"
    and group_distinct: "inv s \<Longrightarrow> distinct (map ident (group s k))"
    and group_iff: "inv s \<Longrightarrow> v \<in> set (group s k) \<longleftrightarrow> by_id s (ident v) = Some v \<and> grp v = Some k"
begin

lemma in_own_group: "inv s \<Longrightarrow> by_id s i = Some v \<Longrightarrow> grp v = Some k \<Longrightarrow> v \<in> set (group s k)"
  using group_iff [of s v k] entry_id [of s i v] by simp

lemma groups_disjoint: "inv s \<Longrightarrow> v \<in> set (group s k) \<Longrightarrow> v \<in> set (group s l) \<Longrightarrow> k = l"
  using group_iff [of s v k] group_iff [of s v l] by simp

lemma group_empty_iff: "inv s \<Longrightarrow> group s k = [] \<longleftrightarrow> (\<forall>i v. by_id s i = Some v \<longrightarrow> grp v \<noteq> Some k)"
  using group_iff [of s _ k] in_own_group [of s _ _ k]
  by (metis (no_types, lifting) empty_iff list.set(1) list.set_intros(1) neq_Nil_conv)

lemma group_sole:
  assumes "inv s" and "length (group s k) \<le> 1" and "by_id s i = Some v" and "grp v = Some k"
  shows "group s k = [v]"
proof -
  have "v \<in> set (group s k)" by (rule in_own_group [OF assms(1,3,4)])
  with assms(2) show ?thesis by (cases "group s k") auto
qed

end

end
