(* ===== verification/Mem_Recipes.thy ===== *)
theory Mem_Recipes
  imports Recipe_Model Dual_Index Group_Index
begin

text \<open>
  \<open>internal/storage/memory_recipes.go\<close>: components, playbooks, activations, variable bindings and raw
  approvals of the in-memory store. A pointer argument the code tests for nil is an option. An operation
  that creates an entry returns the caller's object with the identifier and the time it was given. The
  sorts of the listings break ties in the order \<open>ks\<close> in which the map was visited, which is arbitrary.
\<close>

definition recipeComponentKey :: "string \<Rightarrow> string \<Rightarrow> string \<Rightarrow> string" where
  "recipeComponentKey namespace slug version = namespace @ '':'' @ slug @ '':'' @ version"

definition playbookKey :: "string \<Rightarrow> string \<Rightarrow> string \<Rightarrow> string" where
  "playbookKey namespace slug version = namespace @ '':'' @ slug @ '':'' @ version"

definition bindingSourceKey :: "string \<Rightarrow> string \<Rightarrow> string" where
  "bindingSourceKey sourceType sourceRef = sourceType @ '':'' @ sourceRef"

abbreviation rc_key :: "RecipeComponent \<Rightarrow> string" where
  "rc_key c \<equiv> recipeComponentKey (rc_Namespace c) (rc_Slug c) (rc_Version c)"

abbreviation pb_key :: "Playbook \<Rightarrow> string" where
  "pb_key p \<equiv> playbookKey (pb_Namespace p) (pb_Slug p) (pb_Version p)"

abbreviation queue_core :: "WriteOpType \<Rightarrow> string \<Rightarrow> WriteData \<Rightarrow> time \<Rightarrow> RecipeStore \<Rightarrow> RecipeStore" where
  "queue_core t table data now s \<equiv> s\<lparr>coreWrites := queueWrite (coreWrites s) (NewWriteOp t table data now)\<rparr>"

section \<open>Components\<close>

text \<open>The identifier and the time a new entry gets when they are not set.\<close>

definition component_defaults :: "RecipeComponent \<Rightarrow> time \<Rightarrow> string \<Rightarrow> RecipeComponent" where
  "component_defaults x now xid =
     (let x = (if rc_ID x = '''' then x\<lparr>rc_ID := xid\<rparr> else x)
      in if IsZero (rc_CreatedAt x) then x\<lparr>rc_CreatedAt := now\<rparr> else x)"

lemma component_defaults_simps [simp]:
  "rc_ID (component_defaults x now xid) = (if rc_ID x = '''' then xid else rc_ID x)"
  "rc_Namespace (component_defaults x now xid) = rc_Namespace x"
  "rc_Slug (component_defaults x now xid) = rc_Slug x"
  "rc_Version (component_defaults x now xid) = rc_Version x"
  "rc_Name (component_defaults x now xid) = rc_Name x"
  "rc_Content (component_defaults x now xid) = rc_Content x"
  "rc_Variables (component_defaults x now xid) = rc_Variables x"
  "rc_ComponentType (component_defaults x now xid) = rc_ComponentType x"
  "rc_IsRaw (component_defaults x now xid) = rc_IsRaw x"
  "rc_IsSeed (component_defaults x now xid) = rc_IsSeed x"
  "rc_IsDeprecated (component_defaults x now xid) = rc_IsDeprecated x"
  by (simp_all add: component_defaults_def Let_def)

definition CreateRecipeComponent ::
  "RecipeComponent option \<Rightarrow> time \<Rightarrow> string \<Rightarrow> RecipeStore \<Rightarrow> RecipeComponent result \<times> RecipeStore" where
  "CreateRecipeComponent c now xid s =
     (case c of
        None \<Rightarrow> (Inl (ErrText ''recipe component cannot be nil''), s)
      | Some c \<Rightarrow>
          (let key = rc_key c
           in if recipeComponentsByKey s key \<noteq> None
              then (Inl (ErrText (''recipe component with key '' @ key @ '' already exists'')), s)
              else
                (let c = component_defaults c now xid;
                     s = s\<lparr>recipeComponents := (recipeComponents s)(rc_ID c \<mapsto> c),
                           recipeComponentsByKey := (recipeComponentsByKey s)(key \<mapsto> c)\<rparr>
                 in (Inr c, queue_core WriteOpInsert ''recipe_components'' (component_data c) now s))))"

definition GetRecipeComponent ::
  "string \<Rightarrow> string \<Rightarrow> string \<Rightarrow> RecipeStore \<Rightarrow> RecipeComponent result" where
  "GetRecipeComponent namespace slug version s =
     (case recipeComponentsByKey s (recipeComponentKey namespace slug version) of
        None \<Rightarrow> Inl ErrNotFound | Some c \<Rightarrow> Inr c)"

definition GetRecipeComponentByID :: "string \<Rightarrow> RecipeStore \<Rightarrow> RecipeComponent result" where
  "GetRecipeComponentByID cid s =
     (case recipeComponents s cid of None \<Rightarrow> Inl ErrNotFound | Some c \<Rightarrow> Inr c)"

definition ListRecipeComponents ::
  "string \<Rightarrow> bool \<Rightarrow> string list \<Rightarrow> RecipeStore \<Rightarrow> RecipeComponent list" where
  "ListRecipeComponents namespace includeDeprecated ks s =
     sort_key (\<lambda>c. [rc_Namespace c, rc_Slug c, rc_Version c])
       (filter (\<lambda>c. \<not> (namespace \<noteq> '''' \<and> rc_Namespace c \<noteq> namespace) \<and>
                    \<not> (\<not> includeDeprecated \<and> rc_IsDeprecated c))
         (range_values ks (recipeComponents s)))"

definition ListRecipeComponentVersions ::
  "string \<Rightarrow> string \<Rightarrow> string list \<Rightarrow> RecipeStore \<Rightarrow> RecipeComponent list" where
  "ListRecipeComponentVersions namespace slug ks s =
     rev (sort_key rc_Version
       (filter (\<lambda>c. rc_Namespace c = namespace \<and> rc_Slug c = slug)
         (range_values ks (recipeComponents s))))"

definition UpdateRecipeComponent ::
  "RecipeComponent option \<Rightarrow> time \<Rightarrow> RecipeStore \<Rightarrow> unit result \<times> RecipeStore" where
  "UpdateRecipeComponent c now s =
     (case c of
        None \<Rightarrow> (Inl (ErrText ''recipe component cannot be nil''), s)
      | Some c \<Rightarrow>
          (case recipeComponents s (rc_ID c) of
             None \<Rightarrow> (Inl ErrNotFound, s)
           | Some existing \<Rightarrow>
               (let oldKey = rc_key existing; newKey = rc_key c;
                    byKey = (if oldKey \<noteq> newKey then (recipeComponentsByKey s)(oldKey := None)
                             else recipeComponentsByKey s)
                in if oldKey \<noteq> newKey \<and> byKey newKey \<noteq> None
                   then (Inl (ErrText (''recipe component with key '' @ newKey @ '' already exists'')),
                         s\<lparr>recipeComponentsByKey := byKey(oldKey \<mapsto> existing)\<rparr>)
                   else
                     (let s = s\<lparr>recipeComponents := (recipeComponents s)(rc_ID c \<mapsto> c),
                                recipeComponentsByKey := byKey(newKey \<mapsto> c)\<rparr>
                      in (Inr (), queue_core WriteOpUpdate ''recipe_components'' (component_data c) now s)))))"

definition DeleteRecipeComponent ::
  "string \<Rightarrow> time \<Rightarrow> RecipeStore \<Rightarrow> unit result \<times> RecipeStore" where
  "DeleteRecipeComponent cid now s =
     (case recipeComponents s cid of
        None \<Rightarrow> (Inl ErrNotFound, s)
      | Some c \<Rightarrow>
          (let s = s\<lparr>recipeComponents := (recipeComponents s)(cid := None),
                     recipeComponentsByKey := (recipeComponentsByKey s)(rc_key c := None)\<rparr>
           in (Inr (), queue_core WriteOpDelete ''recipe_components'' (StringData cid) now s)))"

section \<open>Playbooks\<close>

text \<open>\<open>make\<close> and \<open>copy\<close> of a slice unless it is nil.\<close>

definition copy_slice :: "'a slice \<Rightarrow> 'a slice" where
  "copy_slice xs = (case xs of None \<Rightarrow> None | Some l \<Rightarrow> Some (map (\<lambda>i. l ! i) [0..<length l]))"

lemma copy_slice_id [simp]: "copy_slice xs = xs"
  by (simp add: copy_slice_def map_nth split: option.split)

definition copyPlaybook :: "Playbook \<Rightarrow> Playbook" where
  "copyPlaybook p =
     p\<lparr>pb_Steps := copy_slice (pb_Steps p), pb_SharedDirs := copy_slice (pb_SharedDirs p),
       pb_SharedFiles := copy_slice (pb_SharedFiles p), pb_WritableDirs := copy_slice (pb_WritableDirs p),
       pb_ValidationRules := (case pb_ValidationRules p of None \<Rightarrow> None | Some rules \<Rightarrow> Some rules)\<rparr>"

lemma copyPlaybook_id [simp]: "copyPlaybook p = p"
  by (cases "pb_ValidationRules p") (simp_all add: copyPlaybook_def)

definition playbook_defaults :: "Playbook \<Rightarrow> time \<Rightarrow> string \<Rightarrow> Playbook" where
  "playbook_defaults x now xid =
     (let x = (if pb_ID x = '''' then x\<lparr>pb_ID := xid\<rparr> else x)
      in if IsZero (pb_CreatedAt x) then x\<lparr>pb_CreatedAt := now\<rparr> else x)"

lemma playbook_defaults_simps [simp]:
  "pb_ID (playbook_defaults x now xid) = (if pb_ID x = '''' then xid else pb_ID x)"
  "pb_Namespace (playbook_defaults x now xid) = pb_Namespace x"
  "pb_Slug (playbook_defaults x now xid) = pb_Slug x"
  "pb_Version (playbook_defaults x now xid) = pb_Version x"
  "pb_Name (playbook_defaults x now xid) = pb_Name x"
  "pb_Steps (playbook_defaults x now xid) = pb_Steps x"
  "pb_IsSeed (playbook_defaults x now xid) = pb_IsSeed x"
  "pb_ParentID (playbook_defaults x now xid) = pb_ParentID x"
  by (simp_all add: playbook_defaults_def Let_def)

definition CreatePlaybook ::
  "Playbook option \<Rightarrow> time \<Rightarrow> string \<Rightarrow> RecipeStore \<Rightarrow> Playbook result \<times> RecipeStore" where
  "CreatePlaybook p now xid s =
     (case p of
        None \<Rightarrow> (Inl (ErrText ''playbook cannot be nil''), s)
      | Some p \<Rightarrow>
          (let key = pb_key p
           in if playbooksByKey s key \<noteq> None
              then (Inl (ErrText (''playbook with key '' @ key @ '' already exists'')), s)
              else
                (let p = playbook_defaults p now xid;
                     stored = copyPlaybook p;
                     s = s\<lparr>playbooks := (playbooks s)(pb_ID p \<mapsto> stored),
                           playbooksByKey := (playbooksByKey s)(key \<mapsto> stored)\<rparr>
                 in (Inr p, queue_core WriteOpInsert ''playbooks'' (playbook_data stored) now s))))"

definition GetPlaybook :: "string \<Rightarrow> string \<Rightarrow> string \<Rightarrow> RecipeStore \<Rightarrow> Playbook result" where
  "GetPlaybook namespace slug version s =
     (case playbooksByKey s (playbookKey namespace slug version) of
        None \<Rightarrow> Inl ErrNotFound | Some p \<Rightarrow> Inr (copyPlaybook p))"

definition GetPlaybookByID :: "string \<Rightarrow> RecipeStore \<Rightarrow> Playbook result" where
  "GetPlaybookByID pid s =
     (case playbooks s pid of None \<Rightarrow> Inl ErrNotFound | Some p \<Rightarrow> Inr (copyPlaybook p))"

definition ListPlaybooks ::
  "string \<Rightarrow> string \<Rightarrow> bool \<Rightarrow> string list \<Rightarrow> RecipeStore \<Rightarrow> Playbook list" where
  "ListPlaybooks namespace frameworkType includeDeprecated ks s =
     sort_key (\<lambda>p. [pb_Namespace p, pb_Slug p, pb_Version p])
       (map copyPlaybook
         (filter (\<lambda>p. \<not> (namespace \<noteq> '''' \<and> pb_Namespace p \<noteq> namespace) \<and>
                      \<not> (frameworkType \<noteq> '''' \<and> pb_FrameworkType p \<noteq> frameworkType) \<and>
                      \<not> (\<not> includeDeprecated \<and> pb_IsDeprecated p))
           (range_values ks (playbooks s))))"

definition ListPlaybookVersions ::
  "string \<Rightarrow> string \<Rightarrow> string list \<Rightarrow> RecipeStore \<Rightarrow> Playbook list" where
  "ListPlaybookVersions namespace slug ks s =
     rev (sort_key pb_Version
       (map copyPlaybook
         (filter (\<lambda>p. pb_Namespace p = namespace \<and> pb_Slug p = slug) (range_values ks (playbooks s)))))"

definition UpdatePlaybook :: "Playbook option \<Rightarrow> time \<Rightarrow> RecipeStore \<Rightarrow> unit result \<times> RecipeStore" where
  "UpdatePlaybook p now s =
     (case p of
        None \<Rightarrow> (Inl (ErrText ''playbook cannot be nil''), s)
      | Some p \<Rightarrow>
          (case playbooks s (pb_ID p) of
             None \<Rightarrow> (Inl ErrNotFound, s)
           | Some existing \<Rightarrow>
               (let oldKey = pb_key existing; newKey = pb_key p;
                    byKey = (if oldKey \<noteq> newKey then (playbooksByKey s)(oldKey := None) else playbooksByKey s)
                in if oldKey \<noteq> newKey \<and> byKey newKey \<noteq> None
                   then (Inl (ErrText (''playbook with key '' @ newKey @ '' already exists'')),
                         s\<lparr>playbooksByKey := byKey(oldKey \<mapsto> existing)\<rparr>)
                   else
                     (let stored = copyPlaybook p;
                          s = s\<lparr>playbooks := (playbooks s)(pb_ID p \<mapsto> stored),
                                playbooksByKey := byKey(newKey \<mapsto> stored)\<rparr>
                      in (Inr (), queue_core WriteOpUpdate ''playbooks'' (playbook_data stored) now s)))))"

definition DeletePlaybook :: "string \<Rightarrow> time \<Rightarrow> RecipeStore \<Rightarrow> unit result \<times> RecipeStore" where
  "DeletePlaybook pid now s =
     (case playbooks s pid of
        None \<Rightarrow> (Inl ErrNotFound, s)
      | Some p \<Rightarrow>
          (let s = s\<lparr>playbooks := (playbooks s)(pid := None),
                     playbooksByKey := (playbooksByKey s)(pb_key p := None)\<rparr>
           in (Inr (), queue_core WriteOpDelete ''playbooks'' (StringData pid) now s)))"

section \<open>Activations\<close>

definition removeActivationFromSlice :: "PlaybookActivation list \<Rightarrow> string \<Rightarrow> PlaybookActivation list" where
  "removeActivationFromSlice = remove_by_id act_ID"

definition activation_defaults :: "PlaybookActivation \<Rightarrow> time \<Rightarrow> string \<Rightarrow> PlaybookActivation" where
  "activation_defaults x now xid =
     (let x = (if act_ID x = '''' then x\<lparr>act_ID := xid\<rparr> else x)
      in if IsZero (act_ActivatedAt x) then x\<lparr>act_ActivatedAt := now\<rparr> else x)"

lemma activation_defaults_simps [simp]:
  "act_ID (activation_defaults x now xid) = (if act_ID x = '''' then xid else act_ID x)"
  "act_ProjectID (activation_defaults x now xid) = act_ProjectID x"
  "act_PlaybookID (activation_defaults x now xid) = act_PlaybookID x"
  "act_ActivatedBy (activation_defaults x now xid) = act_ActivatedBy x"
  by (simp_all add: activation_defaults_def Let_def)

definition CreatePlaybookActivation ::
  "PlaybookActivation option \<Rightarrow> time \<Rightarrow> string \<Rightarrow> RecipeStore \<Rightarrow> PlaybookActivation result \<times> RecipeStore" where
  "CreatePlaybookActivation a now xid s =
     (case a of
        None \<Rightarrow> (Inl (ErrText ''playbook activation cannot be nil''), s)
      | Some a \<Rightarrow>
          if \<exists>existing \<in> set (activationsByProject s (act_ProjectID a)). act_ProjectID existing = act_ProjectID a
          then (Inl (ErrText (''project '' @ act_ProjectID a @ '' already has an active playbook'')), s)
          else
            (let a = activation_defaults a now xid;
                 s = s\<lparr>playbookActivations := (playbookActivations s)(act_ID a \<mapsto> a),
                       activationsByProject := (activationsByProject s)
                         (act_ProjectID a := activationsByProject s (act_ProjectID a) @ [a]),
                       activationsByPlaybook := (activationsByPlaybook s)
                         (act_PlaybookID a := activationsByPlaybook s (act_PlaybookID a) @ [a])\<rparr>
             in (Inr a, queue_core WriteOpInsert ''playbook_activations'' (activation_data a) now s)))"

definition GetPlaybookActivation :: "string \<Rightarrow> RecipeStore \<Rightarrow> PlaybookActivation result" where
  "GetPlaybookActivation projectID s =
     (let activations = activationsByProject s projectID
      in if activations = [] then Inl ErrNotFound else Inr (last activations))"

definition GetPlaybookActivationByID :: "string \<Rightarrow> RecipeStore \<Rightarrow> PlaybookActivation result" where
  "GetPlaybookActivationByID aid s =
     (case playbookActivations s aid of None \<Rightarrow> Inl ErrNotFound | Some a \<Rightarrow> Inr a)"

definition ListActivationsByPlaybook :: "string \<Rightarrow> RecipeStore \<Rightarrow> PlaybookActivation list" where
  "ListActivationsByPlaybook playbookID s = activationsByPlaybook s playbookID"

definition DeletePlaybookActivation :: "string \<Rightarrow> time \<Rightarrow> RecipeStore \<Rightarrow> unit result \<times> RecipeStore" where
  "DeletePlaybookActivation aid now s =
     (case playbookActivations s aid of
        None \<Rightarrow> (Inl ErrNotFound, s)
      | Some a \<Rightarrow>
          (let s = s\<lparr>playbookActivations := (playbookActivations s)(aid := None),
                     activationsByProject := (activationsByProject s)(act_ProjectID a :=
                       removeActivationFromSlice (activationsByProject s (act_ProjectID a)) aid),
                     activationsByPlaybook := (activationsByPlaybook s)(act_PlaybookID a :=
                       removeActivationFromSlice (activationsByPlaybook s (act_PlaybookID a)) aid)\<rparr>
           in (Inr (), queue_core WriteOpDelete ''playbook_activations'' (StringData aid) now s)))"

section \<open>Variable bindings\<close>

definition removeBindingFromSlice ::
  "PlaybookVariableBinding list \<Rightarrow> string \<Rightarrow> PlaybookVariableBinding list" where
  "removeBindingFromSlice = remove_by_id vb_ID"

text \<open>The key under which a binding is listed by its source, if it is.\<close>

definition source_key :: "PlaybookVariableBinding \<Rightarrow> string option" where
  "source_key b =
     (if vb_SourceType b \<noteq> SourceTypeLiteral \<and> vb_SourceRef b \<noteq> ''''
      then Some (bindingSourceKey (vb_SourceType b) (vb_SourceRef b)) else None)"

definition add_source ::
  "PlaybookVariableBinding \<Rightarrow> (string \<Rightarrow> PlaybookVariableBinding list) \<Rightarrow> string \<Rightarrow> PlaybookVariableBinding list" where
  "add_source b g = (case source_key b of None \<Rightarrow> g | Some key \<Rightarrow> g(key := g key @ [b]))"

definition drop_source ::
  "PlaybookVariableBinding \<Rightarrow> string \<Rightarrow> (string \<Rightarrow> PlaybookVariableBinding list) \<Rightarrow> string \<Rightarrow> PlaybookVariableBinding list" where
  "drop_source b i g =
     (case source_key b of None \<Rightarrow> g | Some key \<Rightarrow> g(key := removeBindingFromSlice (g key) i))"

definition CreateVariableBinding ::
  "PlaybookVariableBinding option \<Rightarrow> time \<Rightarrow> string \<Rightarrow> RecipeStore \<Rightarrow> PlaybookVariableBinding result \<times> RecipeStore" where
  "CreateVariableBinding b now xid s =
     (case b of
        None \<Rightarrow> (Inl (ErrText ''variable binding cannot be nil''), s)
      | Some b \<Rightarrow>
          (let b = (if vb_ID b = '''' then b\<lparr>vb_ID := xid\<rparr> else b);
               s = s\<lparr>variableBindings := (variableBindings s)(vb_ID b \<mapsto> b),
                     bindingsByActivation := (bindingsByActivation s)
                       (vb_ActivationID b := bindingsByActivation s (vb_ActivationID b) @ [b]),
                     bindingsBySourceRef := add_source b (bindingsBySourceRef s)\<rparr>
           in (Inr b, queue_core WriteOpInsert ''playbook_variable_bindings'' (binding_data b) now s)))"

definition GetVariableBindings :: "string \<Rightarrow> RecipeStore \<Rightarrow> PlaybookVariableBinding list" where
  "GetVariableBindings activationID s = bindingsByActivation s activationID"

definition UpdateVariableBinding ::
  "PlaybookVariableBinding option \<Rightarrow> time \<Rightarrow> RecipeStore \<Rightarrow> unit result \<times> RecipeStore" where
  "UpdateVariableBinding b now s =
     (case b of
        None \<Rightarrow> (Inl (ErrText ''variable binding cannot be nil''), s)
      | Some b \<Rightarrow>
          (case variableBindings s (vb_ID b) of
             None \<Rightarrow> (Inl ErrNotFound, s)
           | Some existing \<Rightarrow>
               (let bySource = drop_source existing (vb_ID b) (bindingsBySourceRef s);
                    s = s\<lparr>variableBindings := (variableBindings s)(vb_ID b \<mapsto> b),
                          bindingsByActivation := (bindingsByActivation s)(vb_ActivationID b :=
                            replace_by_id vb_ID b (bindingsByActivation s (vb_ActivationID b))),
                          bindingsBySourceRef := add_source b bySource\<rparr>
                in (Inr (), queue_core WriteOpUpdate ''playbook_variable_bindings'' (binding_data b) now s))))"

definition DeleteVariableBinding :: "string \<Rightarrow> time \<Rightarrow> RecipeStore \<Rightarrow> unit result \<times> RecipeStore" where
  "DeleteVariableBinding bid now s =
     (case variableBindings s bid of
        None \<Rightarrow> (Inl ErrNotFound, s)
      | Some b \<Rightarrow>
          (let s = s\<lparr>variableBindings := (variableBindings s)(bid := None),
                     bindingsByActivation := (bindingsByActivation s)(vb_ActivationID b :=
                       removeBindingFromSlice (bindingsByActivation s (vb_ActivationID b)) bid),
                     bindingsBySourceRef := drop_source b bid (bindingsBySourceRef s)\<rparr>
           in (Inr (), queue_core WriteOpDelete ''playbook_variable_bindings'' (StringData bid) now s)))"

definition FindBindingsBySourceRef :: "string \<Rightarrow> string \<Rightarrow> RecipeStore \<Rightarrow> PlaybookVariableBinding list" where
  "FindBindingsBySourceRef sourceType sourceRef s =
     bindingsBySourceRef s (bindingSourceKey sourceType sourceRef)"

section \<open>Raw approvals\<close>

definition approval_defaults :: "RawCommandApproval \<Rightarrow> time \<Rightarrow> string \<Rightarrow> RawCommandApproval" where
  "approval_defaults x now xid =
     (let x = (if ra_ID x = '''' then x\<lparr>ra_ID := xid\<rparr> else x)
      in if IsZero (ra_ApprovedAt x) then x\<lparr>ra_ApprovedAt := now\<rparr> else x)"

lemma approval_defaults_simps [simp]:
  "ra_ID (approval_defaults x now xid) = (if ra_ID x = '''' then xid else ra_ID x)"
  "ra_ComponentID (approval_defaults x now xid) = ra_ComponentID x"
  "ra_ApprovedBy (approval_defaults x now xid) = ra_ApprovedBy x"
  "ra_ApprovalNote (approval_defaults x now xid) = ra_ApprovalNote x"
  by (simp_all add: approval_defaults_def Let_def)

definition CreateRawApproval ::
  "RawCommandApproval option \<Rightarrow> time \<Rightarrow> string \<Rightarrow> RecipeStore \<Rightarrow> RawCommandApproval result \<times> RecipeStore" where
  "CreateRawApproval a now xid s =
     (case a of
        None \<Rightarrow> (Inl (ErrText ''raw approval cannot be nil''), s)
      | Some a \<Rightarrow>
          if \<exists>existing \<in> set (rawApprovalsByComponent s (ra_ComponentID a)). ra_ComponentID existing = ra_ComponentID a
          then (Inl (ErrText (''component '' @ ra_ComponentID a @ '' already has an approval'')), s)
          else
            (let a = approval_defaults a now xid;
                 s = s\<lparr>rawApprovals := (rawApprovals s)(ra_ID a \<mapsto> a),
                       rawApprovalsByComponent := (rawApprovalsByComponent s)
                         (ra_ComponentID a := rawApprovalsByComponent s (ra_ComponentID a) @ [a])\<rparr>
             in (Inr a, queue_core WriteOpInsert ''raw_command_approvals'' (approval_data a) now s)))"

definition GetRawApproval :: "string \<Rightarrow> RecipeStore \<Rightarrow> RawCommandApproval result" where
  "GetRawApproval componentID s =
     (let approvals = rawApprovalsByComponent s componentID
      in if approvals = [] then Inl ErrNotFound else Inr (last approvals))"

definition DeleteRawApproval :: "string \<Rightarrow> time \<Rightarrow> RecipeStore \<Rightarrow> unit result \<times> RecipeStore" where
  "DeleteRawApproval componentID now s =
     (let approvals = rawApprovalsByComponent s componentID
      in if approvals = [] then (Inl ErrNotFound, s)
         else
           (let s = fold (\<lambda>a s. queue_core WriteOpDelete ''raw_command_approvals'' (StringData (ra_ID a)) now
                              (s\<lparr>rawApprovals := (rawApprovals s)(ra_ID a := None)\<rparr>)) approvals s
            in (Inr (), s\<lparr>rawApprovalsByComponent := (rawApprovalsByComponent s)(componentID := [])\<rparr>)))"

definition ListRawApprovals :: "string list \<Rightarrow> RecipeStore \<Rightarrow> RawCommandApproval list" where
  "ListRawApprovals ks s = sort_key ra_ApprovedAt (range_values ks (rawApprovals s))"

section \<open>The invariant of the tables\<close>

text \<open>Each pair of maps describes one set of entries, each secondary index lists exactly the entries of
  its primary map, a project has at most one activation and a component at most one approval.\<close>

definition recipe_inv :: "RecipeStore \<Rightarrow> bool" where
  "recipe_inv s \<longleftrightarrow>
     dual_indexed rc_ID (\<lambda>c. rc_key c) (recipeComponents s) (recipeComponentsByKey s) \<and>
     dual_indexed pb_ID (\<lambda>p. pb_key p) (playbooks s) (playbooksByKey s) \<and>
     grouped act_ID (\<lambda>a. Some (act_ProjectID a)) (playbookActivations s) (activationsByProject s) \<and>
     grouped act_ID (\<lambda>a. Some (act_PlaybookID a)) (playbookActivations s) (activationsByPlaybook s) \<and>
     (\<forall>p. length (activationsByProject s p) \<le> 1) \<and>
     grouped vb_ID (\<lambda>b. Some (vb_ActivationID b)) (variableBindings s) (bindingsByActivation s) \<and>
     grouped vb_ID source_key (variableBindings s) (bindingsBySourceRef s) \<and>
     grouped ra_ID (\<lambda>a. Some (ra_ComponentID a)) (rawApprovals s) (rawApprovalsByComponent s) \<and>
     (\<forall>c. length (rawApprovalsByComponent s c) \<le> 1)"

lemma recipe_invD:
  assumes "recipe_inv s"
  shows "dual_indexed rc_ID (\<lambda>c. rc_key c) (recipeComponents s) (recipeComponentsByKey s)"
    and "dual_indexed pb_ID (\<lambda>p. pb_key p) (playbooks s) (playbooksByKey s)"
    and "grouped act_ID (\<lambda>a. Some (act_ProjectID a)) (playbookActivations s) (activationsByProject s)"
    and "grouped act_ID (\<lambda>a. Some (act_PlaybookID a)) (playbookActivations s) (activationsByPlaybook s)"
    and "length (activationsByProject s p) \<le> 1"
    and "grouped vb_ID (\<lambda>b. Some (vb_ActivationID b)) (variableBindings s) (bindingsByActivation s)"
    and "grouped vb_ID source_key (variableBindings s) (bindingsBySourceRef s)"
    and "grouped ra_ID (\<lambda>a. Some (ra_ComponentID a)) (rawApprovals s) (rawApprovalsByComponent s)"
    and "length (rawApprovalsByComponent s c) \<le> 1"
  using assms unfolding recipe_inv_def by blast+

interpretation component_directory: named_directory recipe_inv recipeComponents recipeComponentsByKey
  rc_ID "\<lambda>c. rc_key c"
  by unfold_locales (blast dest: dual_indexedD1 [OF recipe_invD(1)] dual_indexedD2 [OF recipe_invD(1)])+

interpretation playbook_directory: named_directory recipe_inv playbooks playbooksByKey pb_ID "\<lambda>p. pb_key p"
  by unfold_locales (blast dest: dual_indexedD1 [OF recipe_invD(2)] dual_indexedD2 [OF recipe_invD(2)])+

interpretation project_activations: grouped_view recipe_inv playbookActivations activationsByProject
  act_ID "\<lambda>a. Some (act_ProjectID a)"
  by unfold_locales
    (simp_all add: recipe_invD(3) grouped_keyed [OF recipe_invD(3)] grouped_distinct [OF recipe_invD(3)]
      grouped_iff [OF recipe_invD(3)])

interpretation playbook_activations: grouped_view recipe_inv playbookActivations activationsByPlaybook
  act_ID "\<lambda>a. Some (act_PlaybookID a)"
  by unfold_locales
    (simp_all add: grouped_keyed [OF recipe_invD(4)] grouped_distinct [OF recipe_invD(4)]
      grouped_iff [OF recipe_invD(4)])

interpretation activation_bindings: grouped_view recipe_inv variableBindings bindingsByActivation
  vb_ID "\<lambda>b. Some (vb_ActivationID b)"
  by unfold_locales
    (simp_all add: grouped_keyed [OF recipe_invD(6)] grouped_distinct [OF recipe_invD(6)]
      grouped_iff [OF recipe_invD(6)])

interpretation source_bindings: grouped_view recipe_inv variableBindings bindingsBySourceRef vb_ID source_key
  by unfold_locales
    (simp_all add: grouped_keyed [OF recipe_invD(7)] grouped_distinct [OF recipe_invD(7)]
      grouped_iff [OF recipe_invD(7)])

interpretation component_approvals: grouped_view recipe_inv rawApprovals rawApprovalsByComponent
  ra_ID "\<lambda>a. Some (ra_ComponentID a)"
  by unfold_locales
    (simp_all add: grouped_keyed [OF recipe_invD(8)] grouped_distinct [OF recipe_invD(8)]
      grouped_iff [OF recipe_invD(8)])

lemma recipe_inv_queue [simp]: "recipe_inv (s\<lparr>coreWrites := w\<rparr>) = recipe_inv s"
  by (simp add: recipe_inv_def)

lemma recipe_inv_New [simp]: "recipe_inv NewRecipeStore"
  by (simp add: recipe_inv_def NewRecipeStore_def MemoryStore.extend_def)

subsection \<open>Preservation\<close>

lemma recipe_inv_components:
  "recipe_inv s \<Longrightarrow> dual_indexed rc_ID (\<lambda>c. rc_key c) m n \<Longrightarrow>
   recipe_inv (s\<lparr>recipeComponents := m, recipeComponentsByKey := n\<rparr>)"
  by (simp add: recipe_inv_def)

lemma recipe_inv_playbooks:
  "recipe_inv s \<Longrightarrow> dual_indexed pb_ID (\<lambda>p. pb_key p) m n \<Longrightarrow>
   recipe_inv (s\<lparr>playbooks := m, playbooksByKey := n\<rparr>)"
  by (simp add: recipe_inv_def)

lemma CreateRecipeComponent_inv [wf_intros]:
  assumes i: "recipe_inv s" and fresh: "recipeComponents s (if rc_ID c = '''' then xid else rc_ID c) = None"
  shows "recipe_inv (snd (CreateRecipeComponent (Some c) now xid s))"
proof (cases "recipeComponentsByKey s (rc_key c)")
  case None
  let ?c = "component_defaults c now xid"
  have "dual_indexed rc_ID (\<lambda>c. rc_key c) ((recipeComponents s)(rc_ID ?c \<mapsto> ?c))
      ((recipeComponentsByKey s)(rc_key ?c \<mapsto> ?c))"
    by (rule dual_indexed_insert [OF recipe_invD(1) [OF i]]) (use fresh None in simp_all)
  with recipe_inv_components [OF i this] None show ?thesis
    by (simp add: CreateRecipeComponent_def Let_def)
next
  case (Some d)
  with i show ?thesis by (simp add: CreateRecipeComponent_def)
qed

lemma dual_indexed_restore:
  "dual_indexed ident nm m n \<Longrightarrow> m i = Some old \<Longrightarrow> (n(nm old := None))(nm old \<mapsto> old) = n"
  using dual_indexedD1 [of ident nm m n i old] by auto

text \<open>The shape of both updates: the key map without the old key, which is then either restored or
  given the new entry.\<close>

lemma dual_indexed_update:
  assumes "dual_indexed ident nm m n" and "m (ident v) = Some old"
    and "byKey = (if nm old \<noteq> nm v then n(nm old := None) else n)"
  shows "nm old \<noteq> nm v \<and> byKey (nm v) \<noteq> None \<Longrightarrow> byKey(nm old \<mapsto> old) = n"
    and "\<not> (nm old \<noteq> nm v \<and> byKey (nm v) \<noteq> None) \<Longrightarrow>
      dual_indexed ident nm (m(ident v \<mapsto> v)) (byKey(nm v \<mapsto> v))"
proof -
  show "byKey(nm old \<mapsto> old) = n" if "nm old \<noteq> nm v \<and> byKey (nm v) \<noteq> None"
    using dual_indexed_restore [OF assms(1,2)] assms(3) that by simp
  assume a: "\<not> (nm old \<noteq> nm v \<and> byKey (nm v) \<noteq> None)"
  then have "nm v = nm old \<or> n (nm v) = None" using assms(3) by (auto split: if_splits)
  from dual_indexed_replace [OF assms(1,2) this]
  show "dual_indexed ident nm (m(ident v \<mapsto> v)) (byKey(nm v \<mapsto> v))"
    using assms(3) by (cases "nm old = nm v") simp_all
qed

lemma UpdateRecipeComponent_inv [wf_intros]:
  assumes i: "recipe_inv s"
  shows "recipe_inv (snd (UpdateRecipeComponent (Some c) now s))"
proof (cases "recipeComponents s (rc_ID c)")
  case (Some old)
  define byKey where "byKey =
    (if rc_key old \<noteq> rc_key c then (recipeComponentsByKey s)(rc_key old := None) else recipeComponentsByKey s)"
  note u = dual_indexed_update [OF recipe_invD(1) [OF i] Some byKey_def]
  show ?thesis
  proof (cases "rc_key old \<noteq> rc_key c \<and> byKey (rc_key c) \<noteq> None")
    case True
    have "UpdateRecipeComponent (Some c) now s =
      (Inl (ErrText (''recipe component with key '' @ rc_key c @ '' already exists'')),
       s\<lparr>recipeComponentsByKey := byKey(rc_key old \<mapsto> old)\<rparr>)"
      by (simp only: UpdateRecipeComponent_def option.case Some Let_def byKey_def [symmetric] if_P [OF True])
    with u(1) [OF True] i show ?thesis by simp
  next
    case False
    have "snd (UpdateRecipeComponent (Some c) now s) = queue_core WriteOpUpdate ''recipe_components'' (component_data c) now
       (s\<lparr>recipeComponents := (recipeComponents s)(rc_ID c \<mapsto> c), recipeComponentsByKey := byKey(rc_key c \<mapsto> c)\<rparr>)"
      by (simp only: UpdateRecipeComponent_def option.case Some Let_def byKey_def [symmetric] if_not_P [OF False] snd_conv)
    with recipe_inv_components [OF i u(2) [OF False]] show ?thesis by simp
  qed
qed (simp add: UpdateRecipeComponent_def i)

lemma DeleteRecipeComponent_inv [wf_intros]:
  assumes i: "recipe_inv s"
  shows "recipe_inv (snd (DeleteRecipeComponent cid now s))"
proof (cases "recipeComponents s cid")
  case (Some c)
  with recipe_inv_components [OF i dual_indexed_delete [OF recipe_invD(1) [OF i] Some]] show ?thesis
    by (simp add: DeleteRecipeComponent_def Let_def)
qed (simp add: DeleteRecipeComponent_def i)

lemma CreatePlaybook_inv [wf_intros]:
  assumes i: "recipe_inv s" and fresh: "playbooks s (if pb_ID p = '''' then xid else pb_ID p) = None"
  shows "recipe_inv (snd (CreatePlaybook (Some p) now xid s))"
proof (cases "playbooksByKey s (pb_key p)")
  case None
  let ?p = "playbook_defaults p now xid"
  have "dual_indexed pb_ID (\<lambda>p. pb_key p) ((playbooks s)(pb_ID ?p \<mapsto> ?p)) ((playbooksByKey s)(pb_key ?p \<mapsto> ?p))"
    by (rule dual_indexed_insert [OF recipe_invD(2) [OF i]]) (use fresh None in simp_all)
  with recipe_inv_playbooks [OF i this] None show ?thesis
    by (simp add: CreatePlaybook_def Let_def)
next
  case (Some d)
  with i show ?thesis by (simp add: CreatePlaybook_def)
qed

lemma UpdatePlaybook_inv [wf_intros]:
  assumes i: "recipe_inv s"
  shows "recipe_inv (snd (UpdatePlaybook (Some p) now s))"
proof (cases "playbooks s (pb_ID p)")
  case (Some old)
  define byKey where "byKey =
    (if pb_key old \<noteq> pb_key p then (playbooksByKey s)(pb_key old := None) else playbooksByKey s)"
  note u = dual_indexed_update [OF recipe_invD(2) [OF i] Some byKey_def]
  show ?thesis
  proof (cases "pb_key old \<noteq> pb_key p \<and> byKey (pb_key p) \<noteq> None")
    case True
    have "UpdatePlaybook (Some p) now s =
      (Inl (ErrText (''playbook with key '' @ pb_key p @ '' already exists'')),
       s\<lparr>playbooksByKey := byKey(pb_key old \<mapsto> old)\<rparr>)"
      by (simp only: UpdatePlaybook_def option.case Some Let_def byKey_def [symmetric] if_P [OF True])
    with u(1) [OF True] i show ?thesis by simp
  next
    case False
    have "snd (UpdatePlaybook (Some p) now s) = queue_core WriteOpUpdate ''playbooks'' (playbook_data p) now
       (s\<lparr>playbooks := (playbooks s)(pb_ID p \<mapsto> p), playbooksByKey := byKey(pb_key p \<mapsto> p)\<rparr>)"
      by (simp only: UpdatePlaybook_def option.case Some Let_def byKey_def [symmetric] if_not_P [OF False]
          snd_conv copyPlaybook_id)
    with recipe_inv_playbooks [OF i u(2) [OF False]] show ?thesis by simp
  qed
qed (simp add: UpdatePlaybook_def i)

lemma DeletePlaybook_inv [wf_intros]:
  assumes i: "recipe_inv s"
  shows "recipe_inv (snd (DeletePlaybook pid now s))"
proof (cases "playbooks s pid")
  case (Some p)
  with recipe_inv_playbooks [OF i dual_indexed_delete [OF recipe_invD(2) [OF i] Some]] show ?thesis
    by (simp add: DeletePlaybook_def Let_def)
qed (simp add: DeletePlaybook_def i)

text \<open>The loops that look for an activation of the same project, or an approval of the same component.\<close>

lemma has_activation_iff:
  assumes "recipe_inv s"
  shows "(\<exists>a \<in> set (activationsByProject s p). act_ProjectID a = p) \<longleftrightarrow> activationsByProject s p \<noteq> []"
proof
  assume "activationsByProject s p \<noteq> []"
  then have "hd (activationsByProject s p) \<in> set (activationsByProject s p)" by simp
  then show "\<exists>a \<in> set (activationsByProject s p). act_ProjectID a = p"
    using project_activations.group_iff [OF assms] by blast
qed auto

lemma has_approval_iff:
  assumes "recipe_inv s"
  shows "(\<exists>a \<in> set (rawApprovalsByComponent s c). ra_ComponentID a = c) \<longleftrightarrow> rawApprovalsByComponent s c \<noteq> []"
proof
  assume "rawApprovalsByComponent s c \<noteq> []"
  then have "hd (rawApprovalsByComponent s c) \<in> set (rawApprovalsByComponent s c)" by simp
  then show "\<exists>a \<in> set (rawApprovalsByComponent s c). ra_ComponentID a = c"
    using component_approvals.group_iff [OF assms] by blast
qed auto

lemma recipe_inv_activations:
  "recipe_inv s \<Longrightarrow> grouped act_ID (\<lambda>a. Some (act_ProjectID a)) m g \<Longrightarrow>
   grouped act_ID (\<lambda>a. Some (act_PlaybookID a)) m h \<Longrightarrow> (\<And>p. length (g p) \<le> 1) \<Longrightarrow>
   recipe_inv (s\<lparr>playbookActivations := m, activationsByProject := g, activationsByPlaybook := h\<rparr>)"
  by (simp add: recipe_inv_def)

lemma recipe_inv_bindings:
  "recipe_inv s \<Longrightarrow> grouped vb_ID (\<lambda>b. Some (vb_ActivationID b)) m g \<Longrightarrow> grouped vb_ID source_key m h \<Longrightarrow>
   recipe_inv (s\<lparr>variableBindings := m, bindingsByActivation := g, bindingsBySourceRef := h\<rparr>)"
  by (simp add: recipe_inv_def)

lemma recipe_inv_approvals:
  "recipe_inv s \<Longrightarrow> grouped ra_ID (\<lambda>a. Some (ra_ComponentID a)) m g \<Longrightarrow> (\<And>c. length (g c) \<le> 1) \<Longrightarrow>
   recipe_inv (s\<lparr>rawApprovals := m, rawApprovalsByComponent := g\<rparr>)"
  by (simp add: recipe_inv_def)

lemma CreatePlaybookActivation_inv [wf_intros]:
  assumes i: "recipe_inv s"
    and fresh: "playbookActivations s (if act_ID a = '''' then xid else act_ID a) = None"
  shows "recipe_inv (snd (CreatePlaybookActivation (Some a) now xid s))"
proof (cases "activationsByProject s (act_ProjectID a) = []")
  case True
  let ?a = "activation_defaults a now xid"
  let ?g = "(activationsByProject s)(act_ProjectID ?a := activationsByProject s (act_ProjectID ?a) @ [?a])"
  let ?h = "(activationsByPlaybook s)(act_PlaybookID ?a := activationsByPlaybook s (act_PlaybookID ?a) @ [?a])"
  have new: "playbookActivations s (act_ID ?a) = None" using fresh by simp
  have "recipe_inv (s\<lparr>playbookActivations := (playbookActivations s)(act_ID ?a \<mapsto> ?a),
      activationsByProject := ?g, activationsByPlaybook := ?h\<rparr>)"
    by (rule recipe_inv_activations [OF i grouped_insert [OF recipe_invD(3) [OF i] new]
          grouped_insert [OF recipe_invD(4) [OF i] new]])
      (use True recipe_invD(5) [OF i] in \<open>auto simp del: activation_defaults_simps(1)\<close>)
  with True show ?thesis by (simp add: CreatePlaybookActivation_def Let_def)
next
  case False
  then show ?thesis using i has_activation_iff [OF i] by (simp add: CreatePlaybookActivation_def)
qed

lemma length_remove_by_id: "length (remove_by_id ident xs i) \<le> length xs"
  by (induction xs) auto

lemma DeletePlaybookActivation_inv [wf_intros]:
  assumes i: "recipe_inv s"
  shows "recipe_inv (snd (DeletePlaybookActivation aid now s))"
proof (cases "playbookActivations s aid")
  case (Some a)
  let ?g = "(activationsByProject s)(act_ProjectID a :=
      removeActivationFromSlice (activationsByProject s (act_ProjectID a)) aid)"
  let ?h = "(activationsByPlaybook s)(act_PlaybookID a :=
      removeActivationFromSlice (activationsByPlaybook s (act_PlaybookID a)) aid)"
  have "length (remove_by_id act_ID (activationsByProject s p) aid) \<le> 1" for p
    using length_remove_by_id le_trans recipe_invD(5) [OF i] by blast
  then have "recipe_inv (s\<lparr>playbookActivations := (playbookActivations s)(aid := None),
      activationsByProject := ?g, activationsByPlaybook := ?h\<rparr>)"
    by (intro recipe_inv_activations [OF i grouped_delete [OF recipe_invD(3) [OF i] Some]
          grouped_delete [OF recipe_invD(4) [OF i] Some]])
      (use recipe_invD(5) [OF i] in \<open>simp_all add: removeActivationFromSlice_def\<close>)
  with Some show ?thesis by (simp add: DeletePlaybookActivation_def Let_def)
qed (simp add: DeletePlaybookActivation_def i)

lemma add_source_apply: "add_source b g k = (if source_key b = Some k then g k @ [b] else g k)"
  by (auto simp: add_source_def split: option.splits)

lemma drop_source_apply:
  "drop_source b i g k = (if source_key b = Some k then remove_by_id vb_ID (g k) i else g k)"
  by (auto simp: drop_source_def removeBindingFromSlice_def split: option.splits)

lemma CreateVariableBinding_inv [wf_intros]:
  assumes i: "recipe_inv s"
    and fresh: "variableBindings s (if vb_ID b = '''' then xid else vb_ID b) = None"
  shows "recipe_inv (snd (CreateVariableBinding (Some b) now xid s))"
proof -
  define c where "c = (if vb_ID b = '''' then b\<lparr>vb_ID := xid\<rparr> else b)"
  have new: "variableBindings s (vb_ID c) = None" using fresh by (simp add: c_def split: if_splits)
  have "recipe_inv (s\<lparr>variableBindings := (variableBindings s)(vb_ID c \<mapsto> c),
      bindingsByActivation := (bindingsByActivation s)(vb_ActivationID c := bindingsByActivation s (vb_ActivationID c) @ [c]),
      bindingsBySourceRef := add_source c (bindingsBySourceRef s)\<rparr>)"
    by (rule recipe_inv_bindings [OF i grouped_insert [OF recipe_invD(6) [OF i] new]
          grouped_insert [OF recipe_invD(7) [OF i] new]])
      (simp_all add: add_source_apply)
  then show ?thesis by (simp add: CreateVariableBinding_def Let_def c_def [symmetric])
qed

text \<open>An update keeps the index by activation only if the binding stays with its activation.\<close>

lemma UpdateVariableBinding_inv [wf_intros]:
  assumes i: "recipe_inv s"
    and same: "\<And>old. variableBindings s (vb_ID b) = Some old \<Longrightarrow> vb_ActivationID old = vb_ActivationID b"
  shows "recipe_inv (snd (UpdateVariableBinding (Some b) now s))"
proof (cases "variableBindings s (vb_ID b)")
  case (Some old)
  have "recipe_inv (s\<lparr>variableBindings := (variableBindings s)(vb_ID b \<mapsto> b),
      bindingsByActivation := (bindingsByActivation s)(vb_ActivationID b :=
        replace_by_id vb_ID b (bindingsByActivation s (vb_ActivationID b))),
      bindingsBySourceRef := add_source b (drop_source old (vb_ID b) (bindingsBySourceRef s))\<rparr>)"
    by (rule recipe_inv_bindings [OF i grouped_replace [OF recipe_invD(6) [OF i] Some]
          grouped_move [OF recipe_invD(7) [OF i] Some]])
      (use same [OF Some] in \<open>simp_all add: drop_source_apply add_source_apply\<close>)
  with Some show ?thesis by (simp add: UpdateVariableBinding_def Let_def)
qed (simp add: UpdateVariableBinding_def i)

lemma DeleteVariableBinding_inv [wf_intros]:
  assumes i: "recipe_inv s"
  shows "recipe_inv (snd (DeleteVariableBinding bid now s))"
proof (cases "variableBindings s bid")
  case (Some b)
  have "recipe_inv (s\<lparr>variableBindings := (variableBindings s)(bid := None),
      bindingsByActivation := (bindingsByActivation s)(vb_ActivationID b :=
        removeBindingFromSlice (bindingsByActivation s (vb_ActivationID b)) bid),
      bindingsBySourceRef := drop_source b bid (bindingsBySourceRef s)\<rparr>)"
    by (rule recipe_inv_bindings [OF i grouped_delete [OF recipe_invD(6) [OF i] Some]
          grouped_delete [OF recipe_invD(7) [OF i] Some]])
      (simp_all add: removeBindingFromSlice_def drop_source_apply)
  with Some show ?thesis by (simp add: DeleteVariableBinding_def Let_def)
qed (simp add: DeleteVariableBinding_def i)

lemma CreateRawApproval_inv [wf_intros]:
  assumes i: "recipe_inv s" and fresh: "rawApprovals s (if ra_ID a = '''' then xid else ra_ID a) = None"
  shows "recipe_inv (snd (CreateRawApproval (Some a) now xid s))"
proof (cases "rawApprovalsByComponent s (ra_ComponentID a) = []")
  case True
  let ?a = "approval_defaults a now xid"
  have new: "rawApprovals s (ra_ID ?a) = None" using fresh by simp
  have "recipe_inv (s\<lparr>rawApprovals := (rawApprovals s)(ra_ID ?a \<mapsto> ?a),
      rawApprovalsByComponent := (rawApprovalsByComponent s)(ra_ComponentID ?a :=
        rawApprovalsByComponent s (ra_ComponentID ?a) @ [?a])\<rparr>)"
    by (rule recipe_inv_approvals [OF i grouped_insert [OF recipe_invD(8) [OF i] new]])
      (use True recipe_invD(9) [OF i] in \<open>auto simp del: approval_defaults_simps(1)\<close>)
  with True show ?thesis by (simp add: CreateRawApproval_def Let_def)
next
  case False
  then show ?thesis using i has_approval_iff [OF i] by (simp add: CreateRawApproval_def)
qed

lemma DeleteRawApproval_inv [wf_intros]:
  assumes i: "recipe_inv s"
  shows "recipe_inv (snd (DeleteRawApproval cid now s))"
proof (cases "rawApprovalsByComponent s cid")
  case (Cons a as)
  with recipe_invD(9) [OF i, of cid] have one: "rawApprovalsByComponent s cid = [a]" by simp
  then have a: "rawApprovals s (ra_ID a) = Some a" "ra_ComponentID a = cid"
    using component_approvals.group_iff [OF i, of a cid] by simp_all
  have "recipe_inv (s\<lparr>rawApprovals := (rawApprovals s)(ra_ID a := None),
      rawApprovalsByComponent := (rawApprovalsByComponent s)(cid := [])\<rparr>)"
    by (rule recipe_inv_approvals [OF i grouped_delete [OF recipe_invD(8) [OF i] a(1)]])
      (use a one recipe_invD(9) [OF i] in auto)
  with one show ?thesis by (simp add: DeleteRawApproval_def Let_def recipe_inv_def)
qed (simp add: DeleteRawApproval_def i)

section \<open>Histories of the store\<close>

text \<open>One call of an operation of the store. An identifier the caller presets or \<open>xid.New\<close> makes is not
  in use; a binding that is updated stays with its activation.\<close>

inductive recipe_step :: "RecipeStore \<Rightarrow> RecipeStore \<Rightarrow> bool" where
  create_component: "recipeComponents s (if rc_ID c = '''' then xid else rc_ID c) = None \<Longrightarrow>
     recipe_step s (snd (CreateRecipeComponent (Some c) now xid s))"
| update_component: "recipe_step s (snd (UpdateRecipeComponent (Some c) now s))"
| delete_component: "recipe_step s (snd (DeleteRecipeComponent i now s))"
| create_playbook: "playbooks s (if pb_ID p = '''' then xid else pb_ID p) = None \<Longrightarrow>
     recipe_step s (snd (CreatePlaybook (Some p) now xid s))"
| update_playbook: "recipe_step s (snd (UpdatePlaybook (Some p) now s))"
| delete_playbook: "recipe_step s (snd (DeletePlaybook i now s))"
| create_activation: "playbookActivations s (if act_ID a = '''' then xid else act_ID a) = None \<Longrightarrow>
     recipe_step s (snd (CreatePlaybookActivation (Some a) now xid s))"
| delete_activation: "recipe_step s (snd (DeletePlaybookActivation i now s))"
| create_binding: "variableBindings s (if vb_ID b = '''' then xid else vb_ID b) = None \<Longrightarrow>
     recipe_step s (snd (CreateVariableBinding (Some b) now xid s))"
| update_binding: "(\<And>old. variableBindings s (vb_ID b) = Some old \<Longrightarrow> vb_ActivationID old = vb_ActivationID b) \<Longrightarrow>
     recipe_step s (snd (UpdateVariableBinding (Some b) now s))"
| delete_binding: "recipe_step s (snd (DeleteVariableBinding i now s))"
| create_approval: "rawApprovals s (if ra_ID r = '''' then xid else ra_ID r) = None \<Longrightarrow>
     recipe_step s (snd (CreateRawApproval (Some r) now xid s))"
| delete_approval: "recipe_step s (snd (DeleteRawApproval i now s))"

inductive recipe_reachable :: "RecipeStore \<Rightarrow> bool" where
  reach_new: "recipe_reachable NewRecipeStore"
| reach_step: "recipe_reachable s \<Longrightarrow> recipe_step s t \<Longrightarrow> recipe_reachable t"

lemma recipe_step_inv: "recipe_step s t \<Longrightarrow> recipe_inv s \<Longrightarrow> recipe_inv t"
  by (induction rule: recipe_step.induct) (assumption | rule wf_intros)+

lemma recipe_reachable_inv: "recipe_reachable s \<Longrightarrow> recipe_inv s"
  by (induction rule: recipe_reachable.induct) (auto intro: recipe_step_inv)

lemma recipe_lookups:
  assumes "recipe_reachable s"
  shows "GetRecipeComponent ns slug v s = Inr c \<longleftrightarrow>
      GetRecipeComponentByID (rc_ID c) s = Inr c \<and> rc_key c = recipeComponentKey ns slug v"
    and "GetPlaybook ns slug v s = Inr p \<longleftrightarrow>
      GetPlaybookByID (pb_ID p) s = Inr p \<and> pb_key p = playbookKey ns slug v"
    and "GetPlaybookActivation pid s = Inr a \<longleftrightarrow>
      GetPlaybookActivationByID (act_ID a) s = Inr a \<and> act_ProjectID a = pid"
    and "a \<in> set (ListActivationsByPlaybook pbid s) \<longleftrightarrow>
      GetPlaybookActivationByID (act_ID a) s = Inr a \<and> act_PlaybookID a = pbid"
    and "b \<in> set (GetVariableBindings aid s) \<longleftrightarrow>
      variableBindings s (vb_ID b) = Some b \<and> vb_ActivationID b = aid"
    and "GetRawApproval cid s = Inr r \<longleftrightarrow> rawApprovals s (ra_ID r) = Some r \<and> ra_ComponentID r = cid"
proof -
  note i = recipe_reachable_inv [OF assms]
  show "GetRecipeComponent ns slug v s = Inr c \<longleftrightarrow>
      GetRecipeComponentByID (rc_ID c) s = Inr c \<and> rc_key c = recipeComponentKey ns slug v"
    using component_directory.lookup_agree [OF i, of "recipeComponentKey ns slug v" c]
    by (auto simp: GetRecipeComponent_def GetRecipeComponentByID_def split: option.splits)
  show "GetPlaybook ns slug v s = Inr p \<longleftrightarrow>
      GetPlaybookByID (pb_ID p) s = Inr p \<and> pb_key p = playbookKey ns slug v"
    using playbook_directory.lookup_agree [OF i, of "playbookKey ns slug v" p]
    by (auto simp: GetPlaybook_def GetPlaybookByID_def split: option.splits)
  show "a \<in> set (ListActivationsByPlaybook pbid s) \<longleftrightarrow>
      GetPlaybookActivationByID (act_ID a) s = Inr a \<and> act_PlaybookID a = pbid"
    using playbook_activations.group_iff [OF i, of a pbid]
    by (auto simp: ListActivationsByPlaybook_def GetPlaybookActivationByID_def split: option.splits)
  show "b \<in> set (GetVariableBindings aid s) \<longleftrightarrow>
      variableBindings s (vb_ID b) = Some b \<and> vb_ActivationID b = aid"
    using activation_bindings.group_iff [OF i, of b aid] by (simp add: GetVariableBindings_def)
  have sole: "xs = [] \<or> (\<exists>x. xs = [x])" if "length xs \<le> 1" for xs :: "'x list"
    using that by (cases xs) auto
  show "GetPlaybookActivation pid s = Inr a \<longleftrightarrow>
      GetPlaybookActivationByID (act_ID a) s = Inr a \<and> act_ProjectID a = pid"
    using project_activations.group_iff [OF i, of a pid] sole [OF recipe_invD(5) [OF i, of pid]]
    by (auto simp: GetPlaybookActivation_def GetPlaybookActivationByID_def Let_def split: option.splits)
  show "GetRawApproval cid s = Inr r \<longleftrightarrow> rawApprovals s (ra_ID r) = Some r \<and> ra_ComponentID r = cid"
    using component_approvals.group_iff [OF i, of r cid] sole [OF recipe_invD(9) [OF i, of cid]]
    by (auto simp: GetRawApproval_def Let_def)
qed


definition wit_activation :: PlaybookActivation where
  "wit_activation = \<lparr>act_ID = ''a1'', act_ProjectID = ''shop'', act_PlaybookID = ''p1'', act_ActivatedAt = 5,
     act_ActivatedBy = None, act_Bindings = []\<rparr>"

lemma wit_activation_reachable:
  "recipe_reachable (snd (CreatePlaybookActivation (Some wit_activation) 5 ''x'' NewRecipeStore))"
  by (rule reach_step [OF reach_new create_activation])
    (simp add: NewRecipeStore_def MemoryStore.extend_def)


end
