(* ===== verification/Semver.thy ===== *)
theory Semver
  imports Go_Strings "HOL-Library.Multiset"
begin

text \<open>
  \<open>internal/validation/semver.go\<close>, over the package \<open>golang.org/x/mod/semver\<close>, which is not part of the
  repository: its functions are the fields of the argument \<open>lib\<close>, and \<open>semver_lawful\<close> is what its
  documentation says of them (\<open>Compare\<close> is a three-way comparison by precedence, \<open>Sort\<close> puts versions in
  ascending order). Also the bubble sort with which \<open>services/recipes\<close> orders versions.
\<close>

record semver_lib =
  semver_IsValid :: "string \<Rightarrow> bool"
  semver_Compare :: "string \<Rightarrow> string \<Rightarrow> int"
  semver_Sort :: "string list \<Rightarrow> string list"

definition semver_lawful :: "semver_lib \<Rightarrow> bool" where
  "semver_lawful lib \<longleftrightarrow>
     (\<forall>v w. semver_Compare lib w v = - semver_Compare lib v w) \<and>
     (\<forall>u v w. semver_Compare lib u v \<le> 0 \<longrightarrow> semver_Compare lib v w \<le> 0 \<longrightarrow> semver_Compare lib u w \<le> 0) \<and>
     (\<forall>vs. mset (semver_Sort lib vs) = mset vs \<and>
           sorted_wrt (\<lambda>v w. semver_Compare lib v w \<le> 0) (semver_Sort lib vs))"

definition NormalizeSemver :: "string \<Rightarrow> string" where
  "NormalizeSemver v = (if HasPrefix v ''v'' then v else ''v'' @ v)"

definition ValidateSemver :: "semver_lib \<Rightarrow> string \<Rightarrow> bool" where
  "ValidateSemver lib v = semver_IsValid lib (NormalizeSemver v)"

definition CompareSemver :: "semver_lib \<Rightarrow> string \<Rightarrow> string \<Rightarrow> int" where
  "CompareSemver lib v1 v2 = semver_Compare lib (NormalizeSemver v1) (NormalizeSemver v2)"

definition LatestSemver :: "semver_lib \<Rightarrow> string list \<Rightarrow> string" where
  "LatestSemver lib versions =
     (if versions = [] then '''' else last (semver_Sort lib (map NormalizeSemver versions)))"

definition SortSemverAsc :: "semver_lib \<Rightarrow> string list \<Rightarrow> string list" where
  "SortSemverAsc lib versions = semver_Sort lib (map NormalizeSemver versions)"

definition SortSemverDesc :: "semver_lib \<Rightarrow> string list \<Rightarrow> string list" where
  "SortSemverDesc lib versions =
     (let normalized = semver_Sort lib (map NormalizeSemver versions); n = length normalized
      in map (\<lambda>i. normalized ! (n - 1 - i)) [0..<n])"

lemma NormalizeSemver_idem [simp]: "NormalizeSemver (NormalizeSemver v) = NormalizeSemver v"
  by (simp add: NormalizeSemver_def HasPrefix_iff)

lemma SortSemverDesc_rev: "SortSemverDesc lib vs = rev (SortSemverAsc lib vs)"
  by (rule nth_equalityI) (simp_all add: SortSemverDesc_def SortSemverAsc_def Let_def rev_nth)

lemma CompareSemver_normalized:
  "CompareSemver lib (NormalizeSemver v) w = CompareSemver lib v w"
  "CompareSemver lib v (NormalizeSemver w) = CompareSemver lib v w"
  by (simp_all add: CompareSemver_def)

text \<open>The latest version is the normal form of one of the versions, and none of them is newer.\<close>

lemma LatestSemver_greatest:
  assumes lib: "semver_lawful lib" and ne: "vs \<noteq> []"
  shows "LatestSemver lib vs \<in> NormalizeSemver ` set vs"
    and "v \<in> set vs \<Longrightarrow> CompareSemver lib v (LatestSemver lib vs) \<le> 0"
proof -
  let ?ws = "semver_Sort lib (map NormalizeSemver vs)"
  from lib have m: "mset ?ws = mset (map NormalizeSemver vs)"
    and s: "sorted_wrt (\<lambda>v w. semver_Compare lib v w \<le> 0) ?ws"
    unfolding semver_lawful_def by blast+
  from m have set: "set ?ws = NormalizeSemver ` set vs" by (metis list.set_map set_mset_mset)
  with ne have ne': "?ws \<noteq> []" by auto
  then show in_set: "LatestSemver lib vs \<in> NormalizeSemver ` set vs"
    using set ne last_in_set [OF ne'] by (simp add: LatestSemver_def)
  have refl: "semver_Compare lib x x = 0" for x
  proof -
    from lib have "semver_Compare lib x x = - semver_Compare lib x x"
      unfolding semver_lawful_def by blast
    then show ?thesis by linarith
  qed
  from s have "sorted_wrt (\<lambda>v w. semver_Compare lib v w \<le> 0) (butlast ?ws @ [last ?ws])"
    by (simp only: append_butlast_last_id [OF ne'])
  then have below: "\<forall>x \<in> set (butlast ?ws). semver_Compare lib x (last ?ws) \<le> 0"
    by (simp add: sorted_wrt_append)
  assume "v \<in> set vs"
  with set have "NormalizeSemver v \<in> set ?ws" by blast
  moreover have "set ?ws = set (butlast ?ws) \<union> {last ?ws}"
    using arg_cong [OF append_butlast_last_id [OF ne'], of set] by simp
  ultimately have "semver_Compare lib (NormalizeSemver v) (last ?ws) \<le> 0" using below refl by auto
  then show "CompareSemver lib v (LatestSemver lib vs) \<le> 0"
    using in_set ne by (auto simp: CompareSemver_def LatestSemver_def)
qed

section \<open>The bubble sort of version lists\<close>

text \<open>\<open>for j := 0; j < n; j++ { if xs[j] before xs[j+1] { swap } }\<close> on the first \<open>n + 1\<close> elements: \<open>x\<close>
  is the element carried along.\<close>

fun bubble_pass :: "('a \<Rightarrow> 'a \<Rightarrow> bool) \<Rightarrow> nat \<Rightarrow> 'a list \<Rightarrow> 'a list" where
  "bubble_pass before (Suc n) (x # y # xs) =
     (if before x y then y # bubble_pass before n (x # xs) else x # bubble_pass before n (y # xs))"
| "bubble_pass before n xs = xs"

fun bubble_passes :: "('a \<Rightarrow> 'a \<Rightarrow> bool) \<Rightarrow> nat \<Rightarrow> 'a list \<Rightarrow> 'a list" where
  "bubble_passes before 0 xs = xs"
| "bubble_passes before (Suc n) xs = bubble_passes before n (bubble_pass before (Suc n) xs)"

definition bubble_sort :: "('a \<Rightarrow> 'a \<Rightarrow> bool) \<Rightarrow> 'a list \<Rightarrow> 'a list" where
  "bubble_sort before xs = bubble_passes before (length xs - 1) xs"

lemma mset_bubble_pass [simp]: "mset (bubble_pass before n xs) = mset xs"
  by (induction before n xs rule: bubble_pass.induct) auto

lemma length_bubble_pass [simp]: "length (bubble_pass before n xs) = length xs"
  by (metis mset_bubble_pass size_mset)

lemma mset_bubble_passes [simp]: "mset (bubble_passes before n xs) = mset xs"
  by (induction n arbitrary: xs) auto

lemma mset_bubble_sort [simp]: "mset (bubble_sort before xs) = mset xs"
  by (simp add: bubble_sort_def)

lemma set_bubble_sort [simp]: "set (bubble_sort before xs) = set xs"
  by (metis mset_bubble_sort set_mset_mset)

text \<open>A pass over the first \<open>n + 1\<close> elements leaves the rest alone and puts a least of them at place
  \<open>n\<close>.\<close>

lemma bubble_pass_drop: "n < length xs \<Longrightarrow> drop (Suc n) (bubble_pass before n xs) = drop (Suc n) xs"
  by (induction before n xs rule: bubble_pass.induct) auto

lemma set_take_bubble_pass:
  assumes "n < length xs"
  shows "set (take (Suc n) (bubble_pass before n xs)) = set (take (Suc n) xs)"
proof -
  have "mset (take (Suc n) (bubble_pass before n xs)) + mset (drop (Suc n) (bubble_pass before n xs)) =
      mset (take (Suc n) xs) + mset (drop (Suc n) xs)"
    by (metis append_take_drop_id mset_append mset_bubble_pass)
  then have "mset (take (Suc n) (bubble_pass before n xs)) = mset (take (Suc n) xs)"
    by (simp add: bubble_pass_drop [OF assms])
  then show ?thesis by (metis set_mset_mset)
qed

definition weak_order :: "('a \<Rightarrow> 'a \<Rightarrow> bool) \<Rightarrow> bool" where
  "weak_order before \<longleftrightarrow>
     (\<forall>x y. before x y \<longrightarrow> \<not> before y x) \<and> (\<forall>x y z. \<not> before x y \<longrightarrow> \<not> before y z \<longrightarrow> \<not> before x z)"

lemma weak_orderD:
  assumes "weak_order before"
  shows "before x y \<Longrightarrow> \<not> before y x" and "\<not> before x y \<Longrightarrow> \<not> before y z \<Longrightarrow> \<not> before x z"
  using assms unfolding weak_order_def by blast+

lemma bubble_pass_least:
  assumes o: "weak_order before"
  shows "n < length xs \<Longrightarrow> x \<in> set (take (Suc n) xs) \<Longrightarrow> \<not> before x (bubble_pass before n xs ! n)"
proof (induction n arbitrary: xs x)
  case 0
  then show ?case using weak_orderD(1) [OF o] by (cases xs) auto
next
  case (Suc n)
  then obtain a b ys where xs: "xs = a # b # ys" by (metis Suc_length_conv Suc_lessE less_imp_Suc_add)
  show ?case
  proof (cases "before a b")
    case True
    have a: "\<not> before y (bubble_pass before n (a # ys) ! n)" if "y \<in> set (take (Suc n) (a # ys))" for y
      using Suc.IH [of "a # ys" y] Suc.prems(1) that by (simp add: xs)
    have "\<not> before b (bubble_pass before n (a # ys) ! n)"
      using weak_orderD(2) [OF o weak_orderD(1) [OF o True] a [of a]] by simp
    with a Suc.prems True show ?thesis by (auto simp: xs)
  next
    case False
    have b: "\<not> before y (bubble_pass before n (b # ys) ! n)" if "y \<in> set (take (Suc n) (b # ys))" for y
      using Suc.IH [of "b # ys" y] Suc.prems(1) that by (simp add: xs)
    have "\<not> before a (bubble_pass before n (b # ys) ! n)"
      using weak_orderD(2) [OF o False b [of b]] by simp
    with b Suc.prems False show ?thesis by (auto simp: xs)
  qed
qed

lemma bubble_passes_sorted:
  assumes o: "weak_order before"
  shows "n < length xs \<Longrightarrow> sorted_wrt (\<lambda>x y. \<not> before x y) (drop (Suc n) xs) \<Longrightarrow>
   (\<forall>x\<in>set (take (Suc n) xs). \<forall>y\<in>set (drop (Suc n) xs). \<not> before x y) \<Longrightarrow>
   sorted_wrt (\<lambda>x y. \<not> before x y) (bubble_passes before n xs)"
proof (induction n arbitrary: xs)
  case 0
  then show ?case by (cases xs) auto
next
  case (Suc n)
  let ?ys = "bubble_pass before (Suc n) xs"
  have len: "Suc n < length ?ys" using Suc.prems(1) by simp
  have d: "drop (Suc n) ?ys = ?ys ! Suc n # drop (Suc (Suc n)) xs"
    using Cons_nth_drop_Suc [OF len] bubble_pass_drop [OF Suc.prems(1)] by simp
  have t: "set (take (Suc (Suc n)) ?ys) = set (take (Suc (Suc n)) xs)"
    by (rule set_take_bubble_pass [OF Suc.prems(1)])
  have sub: "set (take (Suc n) ?ys) \<subseteq> set (take (Suc (Suc n)) ?ys)" by (rule set_take_subset_set_take) simp
  have at: "?ys ! Suc n \<in> set (take (Suc (Suc n)) ?ys)"
    using len by (auto simp: take_Suc_conv_app_nth)
  have least: "\<not> before x (?ys ! Suc n)" if "x \<in> set (take (Suc (Suc n)) xs)" for x
    by (rule bubble_pass_least [OF o Suc.prems(1) that])
  have "sorted_wrt (\<lambda>x y. \<not> before x y) (bubble_passes before n ?ys)"
  proof (rule Suc.IH)
    show "n < length ?ys" using len by simp
    show "sorted_wrt (\<lambda>x y. \<not> before x y) (drop (Suc n) ?ys)"
      using Suc.prems(2,3) at t by (simp add: d)
    show "\<forall>x\<in>set (take (Suc n) ?ys). \<forall>y\<in>set (drop (Suc n) ?ys). \<not> before x y"
      using Suc.prems(3) sub t least by (auto simp: d)
  qed
  then show ?case by simp
qed

lemma bubble_sort_sorted:
  assumes "weak_order before"
  shows "sorted_wrt (\<lambda>x y. \<not> before x y) (bubble_sort before xs)"
proof (cases xs)
  case (Cons a ys)
  then show ?thesis unfolding bubble_sort_def by (intro bubble_passes_sorted [OF assms]) simp_all
qed (simp add: bubble_sort_def)

lemma weak_order_CompareSemver:
  assumes "semver_lawful lib"
  shows "weak_order (\<lambda>x y. CompareSemver lib (f x) (f y) < 0)"
proof -
  have neg: "CompareSemver lib w v = - CompareSemver lib v w" for v w
    using assms unfolding semver_lawful_def CompareSemver_def by blast
  have "CompareSemver lib u w \<le> 0" if "CompareSemver lib u v \<le> 0" "CompareSemver lib v w \<le> 0" for u v w
    using assms that unfolding semver_lawful_def CompareSemver_def by blast
  then show ?thesis unfolding weak_order_def using neg by (metis le_minus_iff minus_zero not_less order_less_imp_not_less neg_less_0_iff_less)
qed

end
