(* ===== verification/Recipe_Services.thy ===== *)
theory Recipe_Services
  imports Mem_Recipes Semver Mem_Projects Mem_Audit
begin

text \<open>
  The services over the recipe tables (\<open>internal/services/recipes\<close>): components, playbooks, raw approvals
  and the use of secrets and environment variables by playbooks (\<open>components.go\<close>, \<open>playbooks.go\<close>,
  \<open>raw_approval.go\<close>, \<open>dependencies.go\<close>), with the audit service they write to and the deletion of secrets
  that asks them.

  An error is the format of its \<open>fmt.Errorf\<close> with the arguments, and the error it wraps. The package
  \<open>golang.org/x/mod/semver\<close> is the argument \<open>lib\<close>. One clock reading \<open>now\<close> stands for the readings of one call.
  A nil pointer returned beside a nil error is \<open>None\<close>.
\<close>

record ResourceUsage =
  ru_ProjectID :: string
  ru_ProjectName :: string
  ru_PlaybookID :: string
  ru_PlaybookName :: string
  ru_VariableName :: string

datatype svc_error =
    StoreErr store_error
  | Errorf string "string list" "svc_error option"
  | DeletionBlockedError string string "ResourceUsage list"

abbreviation Errorf0 :: "string \<Rightarrow> svc_error" where "Errorf0 f \<equiv> Errorf f [] None"
abbreviation wrapped :: "string \<Rightarrow> store_error \<Rightarrow> svc_error" where
  "wrapped f e \<equiv> Errorf f [] (Some (StoreErr e))"

type_synonym 'a svc_result = "svc_error + 'a"

definition svc :: "'a result \<Rightarrow> 'a svc_result" where
  "svc r = (case r of Inl e \<Rightarrow> Inl (StoreErr e) | Inr x \<Rightarrow> Inr x)"

lemma svc_simps [simp]: "svc (Inl e) = Inl (StoreErr e)" "svc (Inr x) = Inr x"
  by (simp_all add: svc_def)

text \<open>An operation of the rest of the store.\<close>

definition on_memory :: "(MemoryStore \<Rightarrow> 'a \<times> MemoryStore) \<Rightarrow> RecipeStore \<Rightarrow> 'a \<times> RecipeStore" where
  "on_memory f s =
     (case f (MemoryStore.truncate s) of (r, t) \<Rightarrow> (r, MemoryStore.extend t (MemoryStore.more s)))"

section \<open>References to components\<close>

definition ParseComponentRef :: "string \<Rightarrow> (string \<times> string \<times> string) svc_result" where
  "ParseComponentRef r =
     (case SplitN r (CHR '':'') 3 of
        [namespace, slug, version] \<Rightarrow> Inr (namespace, slug, version)
      | _ \<Rightarrow> Inl (Errorf0 ''expected format namespace:slug:version''))"

definition BuildComponentRef :: "string \<Rightarrow> string \<Rightarrow> string \<Rightarrow> string" where
  "BuildComponentRef namespace slug version = namespace @ '':'' @ slug @ '':'' @ version"

section \<open>Components\<close>

definition Component_Get ::
  "string \<Rightarrow> string \<Rightarrow> string \<Rightarrow> RecipeStore \<Rightarrow> RecipeComponent svc_result" where
  "Component_Get namespace slug version s =
     svc (GetRecipeComponent namespace slug (NormalizeSemver version) s)"

definition version_map :: "('v \<Rightarrow> string) \<Rightarrow> 'v list \<Rightarrow> (string \<rightharpoonup> 'v)" where
  "version_map ver vs = fold (\<lambda>v m. m(ver v \<mapsto> v)) vs Map.empty"

definition Component_GetLatest ::
  "semver_lib \<Rightarrow> string \<Rightarrow> string \<Rightarrow> string list \<Rightarrow> RecipeStore \<Rightarrow> RecipeComponent option svc_result" where
  "Component_GetLatest lib namespace slug ks s =
     (let versions = ListRecipeComponentVersions namespace slug ks s
      in if versions = [] then Inl (Errorf ''component not found: %s:%s'' [namespace, slug] None)
         else Inr (version_map rc_Version versions (LatestSemver lib (map rc_Version versions))))"

definition sortComponentsBySemverDesc :: "semver_lib \<Rightarrow> RecipeComponent list \<Rightarrow> RecipeComponent list" where
  "sortComponentsBySemverDesc lib =
     bubble_sort (\<lambda>x y. CompareSemver lib (rc_Version x) (rc_Version y) < 0)"

definition Component_GetVersions ::
  "semver_lib \<Rightarrow> string \<Rightarrow> string \<Rightarrow> string list \<Rightarrow> RecipeStore \<Rightarrow> RecipeComponent list" where
  "Component_GetVersions lib namespace slug ks s =
     sortComponentsBySemverDesc lib (ListRecipeComponentVersions namespace slug ks s)"

definition Component_Create ::
  "semver_lib \<Rightarrow> RecipeComponent \<Rightarrow> time \<Rightarrow> string \<Rightarrow> RecipeStore \<Rightarrow> RecipeComponent svc_result \<times> RecipeStore" where
  "Component_Create lib c now xid s =
     (if \<not> ValidateSemver lib (rc_Version c) then (Inl (Errorf ''invalid version: %w'' [rc_Version c] None), s)
      else
        (let c = c\<lparr>rc_Version := NormalizeSemver (rc_Version c)\<rparr>
         in if rc_Namespace c \<noteq> NamespaceUser
            then (Inl (Errorf0 ''can only create components in 'user' namespace''), s)
            else
              (let c = c\<lparr>rc_IsSeed := False, rc_CreatedAt := now\<rparr>;
                   (r, s) = CreateRecipeComponent (Some c) now xid s
               in (svc r, s))))"

definition Component_Update ::
  "semver_lib \<Rightarrow> RecipeComponent \<Rightarrow> time \<Rightarrow> RecipeStore \<Rightarrow> unit svc_result \<times> RecipeStore" where
  "Component_Update lib c now s =
     (case GetRecipeComponentByID (rc_ID c) s of
        Inl e \<Rightarrow> (Inl (StoreErr e), s)
      | Inr existing \<Rightarrow>
          if rc_IsSeed existing then (Inl (Errorf0 ''cannot update seed components''), s)
          else if rc_Version c \<noteq> rc_Version existing \<and> \<not> ValidateSemver lib (rc_Version c)
          then (Inl (Errorf ''invalid version: %w'' [rc_Version c] None), s)
          else
            (let c = (if rc_Version c \<noteq> rc_Version existing
                      then c\<lparr>rc_Version := NormalizeSemver (rc_Version c)\<rparr> else c);
                 (r, s) = UpdateRecipeComponent (Some c) now s
             in (svc r, s)))"

definition CreateFromSeed ::
  "semver_lib \<Rightarrow> string \<Rightarrow> string \<Rightarrow> string \<Rightarrow> time \<Rightarrow> string \<Rightarrow> RecipeStore \<Rightarrow> RecipeComponent svc_result \<times> RecipeStore" where
  "CreateFromSeed lib seedID newSlug newVersion now xid s =
     (case GetRecipeComponentByID seedID s of
        Inl e \<Rightarrow> (Inl (wrapped ''seed component not found: %w'' e), s)
      | Inr seed \<Rightarrow>
          if \<not> rc_IsSeed seed then (Inl (Errorf0 ''source component is not a seed''), s)
          else if \<not> ValidateSemver lib newVersion then (Inl (Errorf ''invalid version: %w'' [newVersion] None), s)
          else
            (let cloned = \<lparr>rc_ID = '''', rc_Namespace = NamespaceUser, rc_Slug = newSlug,
                   rc_Version = NormalizeSemver newVersion, rc_Name = rc_Name seed @ '' (Custom)'',
                   rc_Description = rc_Description seed, rc_ComponentType = rc_ComponentType seed,
                   rc_Content = rc_Content seed, rc_Variables = rc_Variables seed, rc_IsSeed = False,
                   rc_IsRaw = rc_IsRaw seed, rc_IsDeprecated = False, rc_CreatedAt = now\<rparr>;
                 (r, s) = CreateRecipeComponent (Some cloned) now xid s
             in (svc r, s)))"

text \<open>The first required variable without a default that has no binding.\<close>

definition ValidateVariables :: "string \<Rightarrow> (string \<rightharpoonup> string) \<Rightarrow> RecipeStore \<Rightarrow> unit svc_result" where
  "ValidateVariables componentID bindings s =
     (case GetRecipeComponentByID componentID s of
        Inl e \<Rightarrow> Inl (StoreErr e)
      | Inr c \<Rightarrow>
          (case find (\<lambda>v. vd_Required v \<and> bindings (vd_Name v) = None \<and> vd_Default v = '''') (elems (rc_Variables c)) of
             None \<Rightarrow> Inr ()
           | Some v \<Rightarrow> Inl (Errorf ''required variable %q not provided'' [vd_Name v] None)))"

definition Component_Delete :: "string \<Rightarrow> time \<Rightarrow> RecipeStore \<Rightarrow> unit svc_result \<times> RecipeStore" where
  "Component_Delete cid now s =
     (case GetRecipeComponentByID cid s of
        Inl e \<Rightarrow> (Inl (StoreErr e), s)
      | Inr c \<Rightarrow>
          if rc_IsSeed c then (Inl (Errorf0 ''cannot delete seed components''), s)
          else (case DeleteRecipeComponent cid now s of (r, s) \<Rightarrow> (svc r, s)))"

section \<open>Playbooks\<close>

definition Playbook_Get :: "string \<Rightarrow> string \<Rightarrow> string \<Rightarrow> RecipeStore \<Rightarrow> Playbook svc_result" where
  "Playbook_Get namespace slug version s = svc (GetPlaybook namespace slug (NormalizeSemver version) s)"

definition Playbook_GetLatest ::
  "semver_lib \<Rightarrow> string \<Rightarrow> string \<Rightarrow> string list \<Rightarrow> RecipeStore \<Rightarrow> Playbook option svc_result" where
  "Playbook_GetLatest lib namespace slug ks s =
     (let versions = ListPlaybookVersions namespace slug ks s
      in if versions = [] then Inl (Errorf ''playbook not found: %s:%s'' [namespace, slug] None)
         else Inr (version_map pb_Version versions (LatestSemver lib (map pb_Version versions))))"

definition sortPlaybooksBySemverDesc :: "semver_lib \<Rightarrow> Playbook list \<Rightarrow> Playbook list" where
  "sortPlaybooksBySemverDesc lib =
     bubble_sort (\<lambda>x y. CompareSemver lib (pb_Version x) (pb_Version y) < 0)"

definition Playbook_GetVersions ::
  "semver_lib \<Rightarrow> string \<Rightarrow> string \<Rightarrow> string list \<Rightarrow> RecipeStore \<Rightarrow> Playbook list" where
  "Playbook_GetVersions lib namespace slug ks s =
     sortPlaybooksBySemverDesc lib (ListPlaybookVersions namespace slug ks s)"

fun validateSteps :: "PlaybookStep list \<Rightarrow> RecipeStore \<Rightarrow> unit svc_result" where
  "validateSteps [] s = Inr ()"
| "validateSteps (step # steps) s =
     (case ParseComponentRef (step_ComponentRef step) of
        Inl e \<Rightarrow> Inl (Errorf ''invalid component reference %q: %w'' [step_ComponentRef step] (Some e))
      | Inr (namespace, slug, version) \<Rightarrow>
          (case GetRecipeComponent namespace slug version s of
             Inl e \<Rightarrow> Inl (Errorf ''component lookup failed: %s: %w'' [step_ComponentRef step] (Some (StoreErr e)))
           | Inr _ \<Rightarrow> validateSteps steps s))"

definition Playbook_Create ::
  "semver_lib \<Rightarrow> Playbook \<Rightarrow> time \<Rightarrow> string \<Rightarrow> RecipeStore \<Rightarrow> Playbook svc_result \<times> RecipeStore" where
  "Playbook_Create lib p now xid s =
     (if \<not> ValidateSemver lib (pb_Version p) then (Inl (Errorf ''invalid version: %w'' [pb_Version p] None), s)
      else
        (let p = p\<lparr>pb_Version := NormalizeSemver (pb_Version p)\<rparr>
         in if pb_Namespace p \<noteq> NamespaceUser
            then (Inl (Errorf0 ''can only create playbooks in 'user' namespace''), s)
            else
              (let p = p\<lparr>pb_IsSeed := False, pb_CreatedAt := now\<rparr>
               in case validateSteps (elems (pb_Steps p)) s of
                    Inl e \<Rightarrow> (Inl e, s)
                  | Inr _ \<Rightarrow> (case CreatePlaybook (Some p) now xid s of (r, s) \<Rightarrow> (svc r, s)))))"

definition Playbook_Update ::
  "semver_lib \<Rightarrow> Playbook \<Rightarrow> time \<Rightarrow> RecipeStore \<Rightarrow> unit svc_result \<times> RecipeStore" where
  "Playbook_Update lib p now s =
     (case GetPlaybookByID (pb_ID p) s of
        Inl e \<Rightarrow> (Inl (StoreErr e), s)
      | Inr existing \<Rightarrow>
          if pb_IsSeed existing then (Inl (Errorf0 ''cannot update seed playbooks''), s)
          else if pb_Version p \<noteq> pb_Version existing \<and> \<not> ValidateSemver lib (pb_Version p)
          then (Inl (Errorf ''invalid version: %w'' [pb_Version p] None), s)
          else
            (let p = (if pb_Version p \<noteq> pb_Version existing
                      then p\<lparr>pb_Version := NormalizeSemver (pb_Version p)\<rparr> else p)
             in case validateSteps (elems (pb_Steps p)) s of
                  Inl e \<Rightarrow> (Inl e, s)
                | Inr _ \<Rightarrow> (case UpdatePlaybook (Some p) now s of (r, s) \<Rightarrow> (svc r, s))))"

definition CustomizeFromSeed ::
  "semver_lib \<Rightarrow> string \<Rightarrow> string \<Rightarrow> string \<Rightarrow> time \<Rightarrow> string \<Rightarrow> RecipeStore \<Rightarrow> Playbook svc_result \<times> RecipeStore" where
  "CustomizeFromSeed lib seedID newSlug newVersion now xid s =
     (case GetPlaybookByID seedID s of
        Inl e \<Rightarrow> (Inl (wrapped ''seed playbook not found: %w'' e), s)
      | Inr seed \<Rightarrow>
          if \<not> pb_IsSeed seed then (Inl (Errorf0 ''source playbook is not a seed''), s)
          else if \<not> ValidateSemver lib newVersion then (Inl (Errorf ''invalid version: %w'' [newVersion] None), s)
          else
            (let cloned = \<lparr>pb_ID = '''', pb_Namespace = NamespaceUser, pb_Slug = newSlug,
                   pb_Version = NormalizeSemver newVersion, pb_Name = pb_Name seed @ '' (Custom)'',
                   pb_Description = pb_Description seed, pb_FrameworkType = pb_FrameworkType seed,
                   pb_Steps = pb_Steps seed, pb_SharedDirs = pb_SharedDirs seed,
                   pb_SharedFiles = pb_SharedFiles seed, pb_WritableDirs = pb_WritableDirs seed,
                   pb_KeepReleases = pb_KeepReleases seed, pb_ValidationRules = pb_ValidationRules seed,
                   pb_IsSeed = False, pb_IsDeprecated = False, pb_ParentID = Some seedID,
                   pb_ParentVersion = pb_Version seed, pb_CreatedAt = now\<rparr>;
                 (r, s) = CreatePlaybook (Some cloned) now xid s
             in (svc r, s)))"

text \<open>\<open>None\<close>: the dereference of the nil playbook that \<open>GetLatest\<close> returned without an error.\<close>

definition CheckNewerVersionAvailable ::
  "semver_lib \<Rightarrow> string \<Rightarrow> string list \<Rightarrow> RecipeStore \<Rightarrow> (bool \<times> string) svc_result option" where
  "CheckNewerVersionAvailable lib playbookID ks s =
     (case GetPlaybookByID playbookID s of
        Inl e \<Rightarrow> Some (Inl (StoreErr e))
      | Inr playbook \<Rightarrow>
          (case pb_ParentID playbook of
             None \<Rightarrow> Some (Inr (False, ''''))
           | Some parentID \<Rightarrow>
               (case GetPlaybookByID parentID s of
                  Inl _ \<Rightarrow> Some (Inr (False, ''''))
                | Inr parent \<Rightarrow>
                    (case Playbook_GetLatest lib (pb_Namespace parent) (pb_Slug parent) ks s of
                       Inl _ \<Rightarrow> Some (Inr (False, ''''))
                     | Inr None \<Rightarrow> None
                     | Inr (Some latest) \<Rightarrow>
                         Some (Inr (if CompareSemver lib (pb_Version latest) (pb_ParentVersion playbook) > 0
                                    then (True, pb_Version latest) else (False, '''')))))))"

definition Playbook_Validate :: "string \<Rightarrow> RecipeStore \<Rightarrow> unit svc_result" where
  "Playbook_Validate playbookID s =
     (case GetPlaybookByID playbookID s of
        Inl e \<Rightarrow> Inl (StoreErr e) | Inr playbook \<Rightarrow> validateSteps (elems (pb_Steps playbook)) s)"

text \<open>The component a step refers to, where the services skip a step whose reference does not parse or is
  not found.\<close>

definition step_component :: "RecipeStore \<Rightarrow> PlaybookStep \<Rightarrow> RecipeComponent option" where
  "step_component s step =
     (case ParseComponentRef (step_ComponentRef step) of
        Inl _ \<Rightarrow> None
      | Inr (namespace, slug, version) \<Rightarrow>
          (case GetRecipeComponent namespace slug version s of Inl _ \<Rightarrow> None | Inr c \<Rightarrow> Some c))"

fun add_unseen :: "VariableDefinition list \<Rightarrow> VariableDefinition list \<Rightarrow> VariableDefinition list" where
  "add_unseen variables [] = variables"
| "add_unseen variables (v # vs) =
     (if vd_Name v \<in> vd_Name ` set variables then add_unseen variables vs else add_unseen (variables @ [v]) vs)"

definition GetAllRequiredVariables :: "string \<Rightarrow> RecipeStore \<Rightarrow> VariableDefinition list svc_result" where
  "GetAllRequiredVariables playbookID s =
     (case GetPlaybookByID playbookID s of
        Inl e \<Rightarrow> Inl (StoreErr e)
      | Inr playbook \<Rightarrow>
          Inr (fold (\<lambda>step variables. case step_component s step of
                 None \<Rightarrow> variables | Some c \<Rightarrow> add_unseen variables (elems (rc_Variables c)))
               (elems (pb_Steps playbook)) []))"

definition Playbook_Delete :: "string \<Rightarrow> time \<Rightarrow> RecipeStore \<Rightarrow> unit svc_result \<times> RecipeStore" where
  "Playbook_Delete pid now s =
     (case GetPlaybookByID pid s of
        Inl e \<Rightarrow> (Inl (StoreErr e), s)
      | Inr p \<Rightarrow>
          if pb_IsSeed p then (Inl (Errorf0 ''cannot delete seed playbooks''), s)
          else (case DeletePlaybook pid now s of (r, s) \<Rightarrow> (svc r, s)))"

section \<open>Raw approvals\<close>

text \<open>\<open>services/audit\<close>: \<open>Log\<close>. An approval service made without an audit service has \<open>audited = False\<close>.\<close>

definition Audit_Log :: "AuditEntry \<Rightarrow> time \<Rightarrow> string \<Rightarrow> RecipeStore \<Rightarrow> unit svc_result \<times> RecipeStore" where
  "Audit_Log entry now xid s =
     (let entry = (if IsZero (audit_Timestamp entry) then entry\<lparr>audit_Timestamp := now\<rparr> else entry)
      in case on_memory (LogAudit entry now xid) s of
           (Inl e, s) \<Rightarrow> (Inl (wrapped ''logging audit entry: %w'' e), s)
         | (Inr _, s) \<Rightarrow> (Inr (), s))"

definition approval_entry :: "string \<Rightarrow> string \<Rightarrow> string \<Rightarrow> AuditEntry" where
  "approval_entry action componentID details =
     \<lparr>audit_ID = '''', audit_Timestamp = 0, audit_Source = ''raw_approval'', audit_User = '''',
      audit_Action = action, audit_Resource = ''component'', audit_ResourceID = componentID,
      audit_ResourceData = '''', audit_Details = details, audit_IPAddress = '''', audit_Result = ''''\<rparr>"

record ApprovalStatus =
  as_ComponentID :: string
  as_IsRaw :: bool
  as_IsApproved :: bool
  as_ApprovedBy :: string
  as_ApprovedAt :: "time option"
  as_ApprovalNote :: string

definition RequiresApproval :: "string \<Rightarrow> RecipeStore \<Rightarrow> bool svc_result" where
  "RequiresApproval componentID s =
     (case GetRecipeComponentByID componentID s of
        Inl e \<Rightarrow> Inl (StoreErr e)
      | Inr c \<Rightarrow>
          if \<not> rc_IsRaw c then Inr False
          else (case GetRawApproval componentID s of Inl _ \<Rightarrow> Inr True | Inr _ \<Rightarrow> Inr False))"

definition Approve ::
  "bool \<Rightarrow> string \<Rightarrow> string \<Rightarrow> string \<Rightarrow> time \<Rightarrow> string \<Rightarrow> string \<Rightarrow> RecipeStore \<Rightarrow> unit svc_result \<times> RecipeStore" where
  "Approve audited componentID adminUserID note now xid auditID s =
     (case GetRecipeComponentByID componentID s of
        Inl e \<Rightarrow> (Inl (wrapped ''component not found: %w'' e), s)
      | Inr c \<Rightarrow>
          if \<not> rc_IsRaw c then (Inl (Errorf0 ''component is not marked as RAW''), s)
          else (case GetRawApproval componentID s of
             Inr _ \<Rightarrow> (Inl (Errorf0 ''component already approved''), s)
           | Inl _ \<Rightarrow>
               (let approval = \<lparr>ra_ID = '''', ra_ComponentID = componentID, ra_ApprovedBy = adminUserID,
                                ra_ApprovedAt = now, ra_ApprovalNote = note\<rparr>
                in case CreateRawApproval (Some approval) now xid s of
                     (Inl e, s) \<Rightarrow> (Inl (wrapped ''failed to create approval: %w'' e), s)
                   | (Inr _, s) \<Rightarrow>
                       (Inr (),
                        if audited
                        then snd (Audit_Log (approval_entry ''raw_component_approved'' componentID
                               (''user_id='' @ adminUserID @ '', component='' @ rc_Namespace c @ '':'' @ rc_Slug c @
                                '', note='' @ note)) now auditID s)
                        else s))))"

definition RevokeApproval ::
  "bool \<Rightarrow> string \<Rightarrow> string \<Rightarrow> time \<Rightarrow> string \<Rightarrow> RecipeStore \<Rightarrow> unit svc_result \<times> RecipeStore" where
  "RevokeApproval audited componentID adminUserID now auditID s =
     (case GetRecipeComponentByID componentID s of
        Inl e \<Rightarrow> (Inl (wrapped ''component not found: %w'' e), s)
      | Inr c \<Rightarrow>
          if \<not> rc_IsRaw c then (Inl (Errorf0 ''component is not marked as RAW''), s)
          else (case GetRawApproval componentID s of
             Inl _ \<Rightarrow> (Inl (Errorf ''no approval found for component %s'' [componentID] None), s)
           | Inr _ \<Rightarrow>
               (case DeleteRawApproval componentID now s of
                  (Inl e, s) \<Rightarrow> (Inl (wrapped ''failed to delete approval: %w'' e), s)
                | (Inr _, s) \<Rightarrow>
                    (Inr (),
                     if audited
                     then snd (Audit_Log (approval_entry ''raw_component_revoked'' componentID
                            (''user_id='' @ adminUserID @ '', component='' @ rc_Namespace c @ '':'' @ rc_Slug c))
                            now auditID s)
                     else s))))"

definition GetApprovalStatus :: "string \<Rightarrow> RecipeStore \<Rightarrow> ApprovalStatus svc_result" where
  "GetApprovalStatus componentID s =
     (case GetRecipeComponentByID componentID s of
        Inl e \<Rightarrow> Inl (StoreErr e)
      | Inr c \<Rightarrow>
          (let status = \<lparr>as_ComponentID = componentID, as_IsRaw = rc_IsRaw c, as_IsApproved = False,
                         as_ApprovedBy = '''', as_ApprovedAt = None, as_ApprovalNote = ''''\<rparr>
           in if \<not> rc_IsRaw c then Inr status
              else (case GetRawApproval componentID s of
                 Inl _ \<Rightarrow> Inr status
               | Inr approval \<Rightarrow>
                   Inr (status\<lparr>as_IsApproved := True, as_ApprovedBy := ra_ApprovedBy approval,
                          as_ApprovedAt := Some (ra_ApprovedAt approval),
                          as_ApprovalNote := ra_ApprovalNote approval\<rparr>))))"

definition ListPendingApprovals :: "string list \<Rightarrow> string list \<Rightarrow> RecipeStore \<Rightarrow> RecipeComponent list" where
  "ListPendingApprovals ks ks' s =
     filter (\<lambda>c. rc_IsRaw c \<and> (case GetRawApproval (rc_ID c) s of Inl _ \<Rightarrow> True | Inr _ \<Rightarrow> False))
       (ListRecipeComponents NamespaceSeed True ks s @ ListRecipeComponents NamespaceUser True ks' s)"

section \<open>Who uses a secret or an environment variable\<close>

definition getProjectName :: "string \<Rightarrow> RecipeStore \<Rightarrow> string" where
  "getProjectName projectID s =
     (case GetProjectByID projectID (MemoryStore.truncate s) of
        Inl _ \<Rightarrow> ''Project '' @ projectID | Inr project \<Rightarrow> project_Name project)"

fun bindingsToUsages :: "PlaybookVariableBinding list \<Rightarrow> RecipeStore \<Rightarrow> ResourceUsage list" where
  "bindingsToUsages [] s = []"
| "bindingsToUsages (b # bindings) s =
     (case GetPlaybookActivationByID (vb_ActivationID b) s of
        Inl _ \<Rightarrow> bindingsToUsages bindings s
      | Inr activation \<Rightarrow>
          (case GetPlaybookByID (act_PlaybookID activation) s of
             Inl _ \<Rightarrow> bindingsToUsages bindings s
           | Inr playbook \<Rightarrow>
               \<lparr>ru_ProjectID = act_ProjectID activation, ru_ProjectName = getProjectName (act_ProjectID activation) s,
                ru_PlaybookID = act_PlaybookID activation, ru_PlaybookName = pb_Name playbook,
                ru_VariableName = vb_VariableName b\<rparr> # bindingsToUsages bindings s))"

definition FindAllUsages :: "string \<Rightarrow> string \<Rightarrow> RecipeStore \<Rightarrow> ResourceUsage list" where
  "FindAllUsages sourceType sourceRef s = bindingsToUsages (FindBindingsBySourceRef sourceType sourceRef s) s"

definition FindSecretUsages :: "string \<Rightarrow> RecipeStore \<Rightarrow> ResourceUsage list" where
  "FindSecretUsages secretName s =
     bindingsToUsages (FindBindingsBySourceRef SourceTypeSecret secretName s) s"

definition FindEnvUsages :: "string \<Rightarrow> RecipeStore \<Rightarrow> ResourceUsage list" where
  "FindEnvUsages envKey s = bindingsToUsages (FindBindingsBySourceRef SourceTypeEnv envKey s) s"

definition CheckDeletionSafe :: "string \<Rightarrow> string \<Rightarrow> RecipeStore \<Rightarrow> unit svc_result" where
  "CheckDeletionSafe resourceType resourceName s =
     (if resourceType = SourceTypeSecret \<or> resourceType = SourceTypeEnv
      then (let usages = (if resourceType = SourceTypeSecret then FindSecretUsages resourceName s
                          else FindEnvUsages resourceName s)
            in if 0 < length usages then Inl (DeletionBlockedError resourceType resourceName usages) else Inr ())
      else Inl (Errorf ''unknown resource type: %s'' [resourceType] None))"

definition CheckSecretDeletionSafe :: "string \<Rightarrow> RecipeStore \<Rightarrow> unit svc_result" where
  "CheckSecretDeletionSafe secretName s = CheckDeletionSafe ''secret'' secretName s"

definition CheckEnvDeletionSafe :: "string \<Rightarrow> RecipeStore \<Rightarrow> unit svc_result" where
  "CheckEnvDeletionSafe envKey s = CheckDeletionSafe ''env'' envKey s"

text \<open>\<open>errors.As\<close> looks through the wrapped errors.\<close>

fun GetDeletionBlockedError :: "svc_error \<Rightarrow> (string \<times> string \<times> ResourceUsage list) option" where
  "GetDeletionBlockedError (DeletionBlockedError t n us) = Some (t, n, us)"
| "GetDeletionBlockedError (Errorf f args (Some e)) = GetDeletionBlockedError e"
| "GetDeletionBlockedError _ = None"

definition IsDeletionBlockedError :: "svc_error \<Rightarrow> bool" where
  "IsDeletionBlockedError e \<longleftrightarrow> GetDeletionBlockedError e \<noteq> None"

text \<open>\<open>services/secrets\<close>: \<open>Delete\<close>.\<close>

definition Secrets_Delete ::
  "string \<Rightarrow> string \<Rightarrow> string \<Rightarrow> time \<Rightarrow> RecipeStore \<Rightarrow> unit svc_result \<times> RecipeStore" where
  "Secrets_Delete project scope key now s =
     (case CheckSecretDeletionSafe (project @ ''/'' @ scope @ ''/'' @ key) s of
        Inl e \<Rightarrow> (Inl e, s)
      | Inr _ \<Rightarrow> (case on_memory (DeleteSecretCtx project scope key now) s of (r, s) \<Rightarrow> (svc r, s)))"

section \<open>Facts about references\<close>

lemma ParseComponentRef_Build:
  assumes "CHR '':'' \<notin> set ns" and "CHR '':'' \<notin> set slug"
  shows "ParseComponentRef (BuildComponentRef ns slug v) = Inr (ns, slug, v)"
proof -
  have s: "Split (BuildComponentRef ns slug v) CHR '':'' = ns # slug # Split v CHR '':''"
    using assms by (simp add: BuildComponentRef_def Split_append)
  obtain p ps where p: "Split v CHR '':'' = p # ps" using Split_nonempty [of v "CHR '':''"] by (cases "Split v CHR '':''") auto
  show ?thesis
  proof (cases ps)
    case Nil
    with p have "v = p" using Join_Split [of v "CHR '':''"] by simp
    with s p Nil show ?thesis by (simp add: ParseComponentRef_def SplitN_def)
  next
    case (Cons q qs)
    have "Join (p # q # qs) [CHR '':''] = v" using Join_Split [of v "CHR '':''"] p Cons by simp
    with s p Cons show ?thesis by (simp add: ParseComponentRef_def SplitN_def)
  qed
qed

lemma SplitN_3_of_Split_3: "Split r c = [x, y, z] \<Longrightarrow> SplitN r c 3 = [x, y, z]"
  by (simp add: SplitN_def)

section \<open>Frames\<close>

lemma on_memory_frame [simp]:
  "recipeComponents (snd (on_memory f s)) = recipeComponents s"
  "recipeComponentsByKey (snd (on_memory f s)) = recipeComponentsByKey s"
  "playbooks (snd (on_memory f s)) = playbooks s"
  "playbooksByKey (snd (on_memory f s)) = playbooksByKey s"
  "playbookActivations (snd (on_memory f s)) = playbookActivations s"
  "activationsByProject (snd (on_memory f s)) = activationsByProject s"
  "activationsByPlaybook (snd (on_memory f s)) = activationsByPlaybook s"
  "variableBindings (snd (on_memory f s)) = variableBindings s"
  "bindingsByActivation (snd (on_memory f s)) = bindingsByActivation s"
  "bindingsBySourceRef (snd (on_memory f s)) = bindingsBySourceRef s"
  "rawApprovals (snd (on_memory f s)) = rawApprovals s"
  "rawApprovalsByComponent (snd (on_memory f s)) = rawApprovalsByComponent s"
  by (cases s; simp add: on_memory_def MemoryStore.extend_def split: prod.split)+

lemma recipe_inv_on_memory [simp]: "recipe_inv (snd (on_memory f s)) = recipe_inv s"
  by (simp add: recipe_inv_def)

lemma Audit_Log_on_memory:
  "snd (Audit_Log e now xid s) =
     snd (on_memory (LogAudit (if IsZero (audit_Timestamp e) then e\<lparr>audit_Timestamp := now\<rparr> else e) now xid) s)"
  unfolding Audit_Log_def Let_def by (split prod.split, split sum.split) simp

lemma Audit_Log_frame [simp]:
  "recipeComponents (snd (Audit_Log e now xid s)) = recipeComponents s"
  "rawApprovals (snd (Audit_Log e now xid s)) = rawApprovals s"
  "rawApprovalsByComponent (snd (Audit_Log e now xid s)) = rawApprovalsByComponent s"
  "recipe_inv (snd (Audit_Log e now xid s)) = recipe_inv s"
  by (simp_all only: Audit_Log_on_memory on_memory_frame recipe_inv_on_memory)

lemma auditLogs_on_memory [simp]:
  "auditLogs (snd (on_memory f s)) = auditLogs (snd (f (MemoryStore.truncate s)))"
  by (simp add: on_memory_def MemoryStore.extend_def split: prod.split)

lemma auditLogs_LogAudit:
  "\<exists>e'. audit_Action e' = audit_Action e \<and> audit_ResourceID e' = audit_ResourceID e \<and>
     auditLogs (snd (LogAudit e now xid t)) = auditLogs t @ [e']"
  by (simp add: LogAudit_def Let_def)

lemma auditLogs_Audit_Log:
  "\<exists>e'. audit_Action e' = audit_Action e \<and> audit_ResourceID e' = audit_ResourceID e \<and>
     auditLogs (snd (Audit_Log e now xid s)) = auditLogs s @ [e']"
proof -
  define e1 where "e1 = (if IsZero (audit_Timestamp e) then e\<lparr>audit_Timestamp := now\<rparr> else e)"
  have "snd (Audit_Log e now xid s) = snd (on_memory (LogAudit e1 now xid) s)"
    by (simp only: Audit_Log_on_memory e1_def)
  moreover have "audit_Action e1 = audit_Action e" "audit_ResourceID e1 = audit_ResourceID e"
    by (simp_all add: e1_def)
  moreover have "auditLogs (MemoryStore.truncate s) = auditLogs s" by (simp add: MemoryStore.truncate_def)
  ultimately show ?thesis using auditLogs_LogAudit [of e1 now xid "MemoryStore.truncate s"] by auto
qed

section \<open>Approval and revocation\<close>

lemma GetRawApproval_iff:
  "(\<exists>r. GetRawApproval cid s = Inr r) \<longleftrightarrow> rawApprovalsByComponent s cid \<noteq> []"
  "(\<exists>e. GetRawApproval cid s = Inl e) \<longleftrightarrow> rawApprovalsByComponent s cid = []"
  by (simp_all add: GetRawApproval_def Let_def)

definition raw_component :: "string \<Rightarrow> RecipeStore \<Rightarrow> bool" where
  "raw_component cid s \<longleftrightarrow> (\<exists>c. recipeComponents s cid = Some c \<and> rc_IsRaw c)"

lemma RequiresApproval_iff:
  "RequiresApproval cid s = Inr True \<longleftrightarrow> raw_component cid s \<and> rawApprovalsByComponent s cid = []"
  "RequiresApproval cid s = Inr False \<longleftrightarrow>
     recipeComponents s cid \<noteq> None \<and> (raw_component cid s \<longrightarrow> rawApprovalsByComponent s cid \<noteq> [])"
  by (auto simp: RequiresApproval_def GetRecipeComponentByID_def GetRawApproval_def raw_component_def Let_def
      split: option.splits)

lemma CreateRawApproval_new:
  assumes "rawApprovalsByComponent s (ra_ComponentID a) = []"
  shows "fst (CreateRawApproval (Some a) now xid s) = Inr (approval_defaults a now xid)"
    and "rawApprovalsByComponent (snd (CreateRawApproval (Some a) now xid s)) =
      (rawApprovalsByComponent s)(ra_ComponentID a := [approval_defaults a now xid])"
    and "recipeComponents (snd (CreateRawApproval (Some a) now xid s)) = recipeComponents s"
    and "auditLogs (snd (CreateRawApproval (Some a) now xid s)) = auditLogs s"
  using assms by (simp_all add: CreateRawApproval_def Let_def)

abbreviation given_approval :: "string \<Rightarrow> string \<Rightarrow> string \<Rightarrow> time \<Rightarrow> string \<Rightarrow> RawCommandApproval" where
  "given_approval cid user note now xid \<equiv>
     \<lparr>ra_ID = xid, ra_ComponentID = cid, ra_ApprovedBy = user, ra_ApprovedAt = now, ra_ApprovalNote = note\<rparr>"

lemma Approve_outcome:
  assumes i: "recipe_inv s" and fresh: "rawApprovals s xid = None"
    and raw: "recipeComponents s cid = Some c" "rc_IsRaw c" and none: "rawApprovalsByComponent s cid = []"
  shows "fst (Approve audited cid user note now xid aid s) = Inr ()"
    and "rawApprovalsByComponent (snd (Approve audited cid user note now xid aid s)) =
      (rawApprovalsByComponent s)(cid := [given_approval cid user note now xid])"
    and "recipeComponents (snd (Approve audited cid user note now xid aid s)) = recipeComponents s"
    and "recipe_inv (snd (Approve audited cid user note now xid aid s))"
    and "\<exists>es. auditLogs (snd (Approve audited cid user note now xid aid s)) = auditLogs s @ es \<and>
      (if audited then \<exists>e. es = [e] \<and> audit_Action e = ''raw_component_approved'' \<and> audit_ResourceID e = cid
       else es = [])"
proof -
  let ?a = "given_approval cid user note now ''''"
  let ?t = "snd (CreateRawApproval (Some ?a) now xid s)"
  have a: "approval_defaults ?a now xid = given_approval cid user note now xid"
    by (simp add: approval_defaults_def Let_def)
  note c = CreateRawApproval_new [of s ?a now xid]
  have inv: "recipe_inv ?t" by (rule CreateRawApproval_inv [OF i]) (simp add: fresh)
  define d where
    "d = ''user_id='' @ user @ '', component='' @ rc_Namespace c @ '':'' @ rc_Slug c @ '', note='' @ note"
  have eq: "Approve audited cid user note now xid aid s =
      (Inr (), if audited then snd (Audit_Log (approval_entry ''raw_component_approved'' cid d) now aid ?t) else ?t)"
    using raw none c(1)
    by (cases "CreateRawApproval (Some ?a) now xid s")
      (simp add: Approve_def GetRecipeComponentByID_def GetRawApproval_def Let_def d_def)
  show "fst (Approve audited cid user note now xid aid s) = Inr ()" by (simp add: eq)
  show "rawApprovalsByComponent (snd (Approve audited cid user note now xid aid s)) =
      (rawApprovalsByComponent s)(cid := [given_approval cid user note now xid])"
    using c(2) none a by (simp add: eq)
  show "recipeComponents (snd (Approve audited cid user note now xid aid s)) = recipeComponents s"
    using c(3) none by (simp add: eq)
  show "recipe_inv (snd (Approve audited cid user note now xid aid s))" using inv by (simp add: eq)
  show "\<exists>es. auditLogs (snd (Approve audited cid user note now xid aid s)) = auditLogs s @ es \<and>
      (if audited then \<exists>e. es = [e] \<and> audit_Action e = ''raw_component_approved'' \<and> audit_ResourceID e = cid
       else es = [])"
    using auditLogs_Audit_Log [of "approval_entry ''raw_component_approved'' cid d" now aid ?t] c(4) none
    by (auto simp: eq approval_entry_def)
qed

lemma Approve_refused:
  assumes "\<not> (raw_component cid s \<and> rawApprovalsByComponent s cid = [])"
  shows "\<exists>e. Approve audited cid user note now xid aid s = (Inl e, s)"
  using assms
  by (auto simp: Approve_def GetRecipeComponentByID_def GetRawApproval_def raw_component_def Let_def
      split: option.splits)

lemma DeleteRawApproval_result:
  assumes "rawApprovalsByComponent s cid \<noteq> []"
  shows "fst (DeleteRawApproval cid now s) = Inr ()"
    and "rawApprovalsByComponent (snd (DeleteRawApproval cid now s)) = (rawApprovalsByComponent s)(cid := [])"
    and "recipeComponents (snd (DeleteRawApproval cid now s)) = recipeComponents s"
proof -
  let ?f = "\<lambda>a s::RecipeStore. s\<lparr>rawApprovals := (rawApprovals s)(ra_ID a := None), coreWrites := queueWrite (coreWrites s)
      (NewWriteOp WriteOpDelete ''raw_command_approvals'' (StringData (ra_ID a)) now)\<rparr>"
  have f: "rawApprovalsByComponent (fold ?f as t) = rawApprovalsByComponent t"
    "recipeComponents (fold ?f as t) = recipeComponents t" for as t
    by (induction as arbitrary: t) simp_all
  show "fst (DeleteRawApproval cid now s) = Inr ()"
    "rawApprovalsByComponent (snd (DeleteRawApproval cid now s)) = (rawApprovalsByComponent s)(cid := [])"
    "recipeComponents (snd (DeleteRawApproval cid now s)) = recipeComponents s"
    using assms by (simp_all add: DeleteRawApproval_def Let_def f)
qed

lemma RevokeApproval_outcome:
  assumes raw: "recipeComponents s cid = Some c" "rc_IsRaw c" and some: "rawApprovalsByComponent s cid \<noteq> []"
  shows "fst (RevokeApproval audited cid user now aid s) = Inr ()"
    and "rawApprovalsByComponent (snd (RevokeApproval audited cid user now aid s)) =
      (rawApprovalsByComponent s)(cid := [])"
    and "recipeComponents (snd (RevokeApproval audited cid user now aid s)) = recipeComponents s"
proof -
  note del = DeleteRawApproval_result [OF some, of now]
  let ?t = "snd (DeleteRawApproval cid now s)"
  define d where "d = ''user_id='' @ user @ '', component='' @ rc_Namespace c @ '':'' @ rc_Slug c"
  have eq: "RevokeApproval audited cid user now aid s =
      (Inr (), if audited then snd (Audit_Log (approval_entry ''raw_component_revoked'' cid d) now aid ?t) else ?t)"
    using raw some del(1) by (cases "DeleteRawApproval cid now s")
      (simp add: RevokeApproval_def GetRecipeComponentByID_def GetRawApproval_def Let_def d_def)
  show "fst (RevokeApproval audited cid user now aid s) = Inr ()"
    "rawApprovalsByComponent (snd (RevokeApproval audited cid user now aid s)) =
      (rawApprovalsByComponent s)(cid := [])"
    "recipeComponents (snd (RevokeApproval audited cid user now aid s)) = recipeComponents s"
    using del by (simp_all add: eq)
qed

text \<open>A component is approved exactly when it is raw and has no approval yet; otherwise the call
  fails and changes nothing. After an approval the component no longer requires one, the stored approval
  names the administrator, the time and the note, an audited service has added one entry for the
  component to the audit trail, and revoking the approval succeeds and makes the component require
  approval again.\<close>

theorem approval_lifecycle:
  assumes "recipe_reachable s" and "rawApprovals s xid = None"
  shows "if RequiresApproval cid s = Inr True
     then let s' = snd (Approve audited cid user note now xid aid s); t = snd (RevokeApproval audited cid user' now' aid' s')
       in fst (Approve audited cid user note now xid aid s) = Inr () \<and>
          RequiresApproval cid s' = Inr False \<and>
          GetRawApproval cid s' = Inr (given_approval cid user note now xid) \<and>
          (\<exists>es. auditLogs s' = auditLogs s @ es \<and>
            (if audited then \<exists>e. es = [e] \<and> audit_Action e = ''raw_component_approved'' \<and> audit_ResourceID e = cid
             else es = [])) \<and>
          fst (RevokeApproval audited cid user' now' aid' s') = Inr () \<and> RequiresApproval cid t = Inr True
     else \<exists>e. Approve audited cid user note now xid aid s = (Inl e, s)"
proof (cases "RequiresApproval cid s = Inr True")
  case True
  then obtain c where c: "recipeComponents s cid = Some c" "rc_IsRaw c" "rawApprovalsByComponent s cid = []"
    by (auto simp: RequiresApproval_iff raw_component_def)
  let ?s' = "snd (Approve audited cid user note now xid aid s)"
  note a = Approve_outcome [OF recipe_reachable_inv [OF assms(1)] assms(2) c, of audited user "note" now aid]
  have raw': "recipeComponents ?s' cid = Some c" and some': "rawApprovalsByComponent ?s' cid \<noteq> []"
    by (simp_all only: a c fun_upd_same list.distinct not_False_eq_True)
  note r = RevokeApproval_outcome [OF raw' c(2) some', of audited user' now' aid']
  have "RequiresApproval cid ?s' = Inr False"
    unfolding RequiresApproval_iff using raw' some' by simp
  moreover have "RequiresApproval cid (snd (RevokeApproval audited cid user' now' aid' ?s')) = Inr True"
    unfolding RequiresApproval_iff raw_component_def r using raw' c(2) by simp
  moreover have "GetRawApproval cid ?s' = Inr (given_approval cid user note now xid)"
    by (simp add: GetRawApproval_def a(2))
  ultimately show ?thesis unfolding Let_def if_P [OF True] using a(1) a(5) r(1) by blast
next
  case False
  then show ?thesis unfolding if_not_P [OF False] using Approve_refused RequiresApproval_iff(1) by blast
qed

definition empty_content :: ComponentContent where
  "empty_content = \<lparr>cc_Commands = None, cc_WorkDir = '''', cc_User = '''', cc_Timeout = 0, cc_ContinueOnError = False,
     cc_Condition = '''', cc_ServiceName = '''', cc_ServiceAction = '''', cc_SourcePath = '''', cc_DestPath = '''',
     cc_FileOp = '''', cc_FileMode = '''', cc_FileOwner = ''''\<rparr>"

definition wit_raw :: RecipeComponent where
  "wit_raw = \<lparr>rc_ID = ''c1'', rc_Namespace = ''user'', rc_Slug = ''wipe'', rc_Version = ''v1.0.0'',
     rc_Name = ''Wipe'', rc_Description = '''', rc_ComponentType = ''command'',
     rc_Content = empty_content\<lparr>cc_Commands := Some [''rm -rf {{dir}}'']\<rparr>,
     rc_Variables = None, rc_IsSeed = False, rc_IsRaw = True, rc_IsDeprecated = False, rc_CreatedAt = 1\<rparr>"

definition raw_store :: RecipeStore where
  "raw_store = snd (CreateRecipeComponent (Some wit_raw) 1 ''x'' NewRecipeStore)"

lemmas raw_store_simps = raw_store_def wit_raw_def CreateRecipeComponent_def NewRecipeStore_def
  MemoryStore.extend_def component_defaults_def Let_def IsZero_def

lemma raw_store_tables:
  "recipeComponents raw_store = [''c1'' \<mapsto> wit_raw]"
  "recipeComponentsByKey raw_store = [''user:wipe:v1.0.0'' \<mapsto> wit_raw]"
  "rawApprovals raw_store = Map.empty" "rawApprovalsByComponent raw_store = (\<lambda>_. [])"
  by (simp_all add: raw_store_simps recipeComponentKey_def)

lemma raw_store_reachable: "recipe_reachable raw_store"
  unfolding raw_store_def
  by (rule reach_step [OF reach_new create_component]) (simp add: NewRecipeStore_def MemoryStore.extend_def)

lemma raw_store_requires: "RequiresApproval ''c1'' raw_store = Inr True"
  by (simp add: RequiresApproval_iff raw_component_def raw_store_tables wit_raw_def)

theorem approval_lifecycle_witness:
  "let s' = snd (Approve True ''c1'' ''root'' ''ok'' 9 ''r1'' ''e1'' raw_store)
   in RequiresApproval ''c1'' raw_store = Inr True \<and> RequiresApproval ''c1'' s' = Inr False \<and>
      RequiresApproval ''c1'' (snd (RevokeApproval True ''c1'' ''root'' 10 ''e2'' s')) = Inr True"
proof -
  have "rawApprovals raw_store ''r1'' = None" by (simp add: raw_store_tables)
  from approval_lifecycle [OF raw_store_reachable this, of "''c1''" True "''root''" "''ok''" 9 "''e1''" "''root''" 10 "''e2''"]
  show ?thesis unfolding if_P [OF raw_store_requires] Let_def using raw_store_requires by blast
qed

text \<open>An approval belongs to the component's identifier, not to its content: updating the commands of an
  approved raw component leaves it approved.\<close>

lemma UpdateRecipeComponent_approvals:
  "rawApprovalsByComponent (snd (UpdateRecipeComponent (Some c) now s)) = rawApprovalsByComponent s"
  by (simp add: UpdateRecipeComponent_def Let_def split: option.split)

lemma UpdateRecipeComponent_stores:
  assumes "fst (UpdateRecipeComponent (Some c) now s) = Inr ()"
  shows "recipeComponents (snd (UpdateRecipeComponent (Some c) now s)) (rc_ID c) = Some c"
proof (cases "recipeComponents s (rc_ID c)")
  case (Some old)
  define byKey where "byKey =
    (if rc_key old \<noteq> rc_key c then (recipeComponentsByKey s)(rc_key old := None) else recipeComponentsByKey s)"
  have "UpdateRecipeComponent (Some c) now s =
      (if rc_key old \<noteq> rc_key c \<and> byKey (rc_key c) \<noteq> None
       then (Inl (ErrText (''recipe component with key '' @ rc_key c @ '' already exists'')),
             s\<lparr>recipeComponentsByKey := byKey(rc_key old \<mapsto> old)\<rparr>)
       else (Inr (), queue_core WriteOpUpdate ''recipe_components'' (component_data c) now
             (s\<lparr>recipeComponents := (recipeComponents s)(rc_ID c \<mapsto> c), recipeComponentsByKey := byKey(rc_key c \<mapsto> c)\<rparr>)))"
    by (simp only: UpdateRecipeComponent_def option.case Some Let_def byKey_def [symmetric])
  with assms show ?thesis by (auto split: if_splits)
qed (use assms in \<open>simp add: UpdateRecipeComponent_def\<close>)

lemma approval_survives_update:
  assumes "RequiresApproval (rc_ID c) s = Inr False" and "raw_component (rc_ID c) s"
    and "fst (Component_Update lib c now s) = Inr ()"
  shows "RequiresApproval (rc_ID c) (snd (Component_Update lib c now s)) = Inr False"
proof -
  have app: "rawApprovalsByComponent s (rc_ID c) \<noteq> []" using assms(1,2) by (simp add: RequiresApproval_iff)
  obtain d where d: "rc_ID d = rc_ID c" "Component_Update lib c now s =
      (svc (fst (UpdateRecipeComponent (Some d) now s)), snd (UpdateRecipeComponent (Some d) now s))"
    using assms(3) that [of c] that [of "c\<lparr>rc_Version := NormalizeSemver (rc_Version c)\<rparr>"]
    by (auto simp: Component_Update_def Let_def split: sum.splits if_splits prod.splits)
  then have "fst (UpdateRecipeComponent (Some d) now s) = Inr ()"
    using assms(3) by (cases "fst (UpdateRecipeComponent (Some d) now s)") simp_all
  from UpdateRecipeComponent_stores [OF this] d app show ?thesis
    by (simp add: RequiresApproval_iff UpdateRecipeComponent_approvals)
qed

section \<open>Deleting what a playbook uses\<close>

text \<open>A stored binding to the resource whose activation and whose playbook are both there.\<close>

definition used_by_playbook :: "string \<Rightarrow> string \<Rightarrow> RecipeStore \<Rightarrow> bool" where
  "used_by_playbook sourceType sourceRef s \<longleftrightarrow>
     (\<exists>b \<in> ran (variableBindings s). vb_SourceType b = sourceType \<and> vb_SourceRef b = sourceRef \<and>
        (\<exists>a. playbookActivations s (vb_ActivationID b) = Some a \<and> playbooks s (act_PlaybookID a) \<noteq> None))"

definition source_types_valid :: "RecipeStore \<Rightarrow> bool" where
  "source_types_valid s \<longleftrightarrow> (\<forall>b \<in> ran (variableBindings s). vb_SourceType b \<in> set ValidSourceTypes)"

lemma bindingsToUsages_empty_iff:
  "bindingsToUsages bs s = [] \<longleftrightarrow>
     (\<forall>b \<in> set bs. \<forall>a. playbookActivations s (vb_ActivationID b) = Some a \<longrightarrow> playbooks s (act_PlaybookID a) = None)"
  by (induction bs) (auto simp: GetPlaybookActivationByID_def GetPlaybookByID_def split: option.splits)

lemma colon_free_types: "t \<in> set ValidSourceTypes \<Longrightarrow> CHR '':'' \<notin> set t"
  by (auto simp: ValidSourceTypes_def)

lemma FindBindings_iff:
  assumes "recipe_inv s" and "source_types_valid s" and "t \<in> {SourceTypeSecret, SourceTypeEnv}" and "r \<noteq> ''''"
  shows "b \<in> set (FindBindingsBySourceRef t r s) \<longleftrightarrow>
     b \<in> ran (variableBindings s) \<and> vb_SourceType b = t \<and> vb_SourceRef b = r"
proof -
  have "b \<in> set (FindBindingsBySourceRef t r s) \<longleftrightarrow>
      variableBindings s (vb_ID b) = Some b \<and> source_key b = Some (bindingSourceKey t r)"
    using source_bindings.group_iff [OF assms(1)] by (simp add: FindBindingsBySourceRef_def)
  also have "variableBindings s (vb_ID b) = Some b \<longleftrightarrow> b \<in> ran (variableBindings s)"
    using activation_bindings.entry_id [OF assms(1)] by (auto simp: ran_def)
  also have "b \<in> ran (variableBindings s) \<and> source_key b = Some (bindingSourceKey t r) \<longleftrightarrow>
      b \<in> ran (variableBindings s) \<and> vb_SourceType b = t \<and> vb_SourceRef b = r"
  proof (rule conj_cong [OF refl])
    assume "b \<in> ran (variableBindings s)"
    then have "CHR '':'' \<notin> set (vb_SourceType b)" and "CHR '':'' \<notin> set t"
      using assms(2,3) colon_free_types by (auto simp: source_types_valid_def)
    then have "vb_SourceType b @ CHR '':'' # vb_SourceRef b = t @ CHR '':'' # r \<longleftrightarrow> vb_SourceType b = t \<and> vb_SourceRef b = r"
      using colon_split_unique by blast
    then show "source_key b = Some (bindingSourceKey t r) \<longleftrightarrow> vb_SourceType b = t \<and> vb_SourceRef b = r"
      using assms(3,4) by (auto simp: source_key_def bindingSourceKey_def)
  qed
  finally show ?thesis .
qed

lemma CheckDeletionSafe_iff:
  assumes "recipe_inv s" and "source_types_valid s" and t: "t \<in> {SourceTypeSecret, SourceTypeEnv}" and "r \<noteq> ''''"
  shows "CheckDeletionSafe t r s = Inr () \<longleftrightarrow> \<not> used_by_playbook t r s"
proof -
  have "CheckDeletionSafe t r s = Inr () \<longleftrightarrow> bindingsToUsages (FindBindingsBySourceRef t r s) s = []"
    using t by (auto simp: CheckDeletionSafe_def FindSecretUsages_def FindEnvUsages_def Let_def)
  then show ?thesis
    unfolding bindingsToUsages_empty_iff used_by_playbook_def
    using FindBindings_iff [OF assms] by auto
qed

abbreviation secret_ref :: "string \<Rightarrow> string \<Rightarrow> string \<Rightarrow> string" where
  "secret_ref project scope key \<equiv> project @ ''/'' @ scope @ ''/'' @ key"


section \<open>Versions\<close>

text \<open>The version listings of the services are permutations of the store's versions, with no version
  before a newer one, whatever order the store listed them in.\<close>

theorem GetVersions_newest_first:
  assumes "semver_lawful lib"
  shows "mset (Component_GetVersions lib namespace slug ks s) = mset (ListRecipeComponentVersions namespace slug ks s) \<and>
     sorted_wrt (\<lambda>x y. CompareSemver lib (rc_Version x) (rc_Version y) \<ge> 0) (Component_GetVersions lib namespace slug ks s) \<and>
     mset (Playbook_GetVersions lib namespace slug ks' s) = mset (ListPlaybookVersions namespace slug ks' s) \<and>
     sorted_wrt (\<lambda>x y. CompareSemver lib (pb_Version x) (pb_Version y) \<ge> 0) (Playbook_GetVersions lib namespace slug ks' s)"
  using bubble_sort_sorted [OF weak_order_CompareSemver [OF assms, of "rc_Version :: RecipeComponent \<Rightarrow> string"]]
    bubble_sort_sorted [OF weak_order_CompareSemver [OF assms, of "pb_Version :: Playbook \<Rightarrow> string"]]
  by (simp add: Component_GetVersions_def Playbook_GetVersions_def sortComponentsBySemverDesc_def
      sortPlaybooksBySemverDesc_def not_less)

text \<open>A package that satisfies the laws: versions compared as strings.\<close>

definition text_order :: semver_lib where
  "text_order = \<lparr>semver_IsValid = (\<lambda>v. v \<noteq> ''v''),
     semver_Compare = (\<lambda>v w. if v = w then 0 else if v < w then -1 else 1), semver_Sort = sort\<rparr>"

lemma text_order_lawful: "semver_lawful text_order"
  unfolding semver_lawful_def
proof (intro conjI allI impI)
  fix vs show "mset (semver_Sort text_order vs) = mset vs" by (simp add: text_order_def)
  show "sorted_wrt (\<lambda>v w. semver_Compare text_order v w \<le> 0) (semver_Sort text_order vs)"
    using sorted_wrt_mono_rel [of "sort vs" "(\<le>)" "\<lambda>v w. semver_Compare text_order v w \<le> 0"]
    by (auto simp: text_order_def)
qed (auto simp: text_order_def split: if_splits)

theorem GetVersions_newest_first_witness:
  "mset (Component_GetVersions text_order ''user'' ''wipe'' [''c1''] raw_store) = {#wit_raw#}"
proof -
  have "ListRecipeComponentVersions ''user'' ''wipe'' [''c1''] raw_store = [wit_raw]"
    by (simp add: ListRecipeComponentVersions_def raw_store_tables range_values_def wit_raw_def)
  with GetVersions_newest_first [OF text_order_lawful, of "''user''" "''wipe''" "[''c1'']" raw_store] show ?thesis by simp
qed

text \<open>A binding of a playbook's variable to the secret \<open>shop/prod/token\<close>.\<close>

definition wit_playbook :: Playbook where
  "wit_playbook = \<lparr>pb_ID = ''p1'', pb_Namespace = ''user'', pb_Slug = ''shop'', pb_Version = ''v1.0.0'',
     pb_Name = ''Shop'', pb_Description = '''', pb_FrameworkType = '''',
     pb_Steps = Some [\<lparr>step_Order = 1, step_ComponentRef = ''user:wipe:1.0.0'', step_VariableBindings = [],
       step_Condition = '''', step_Phase = ''pre_deploy''\<rparr>],
     pb_SharedDirs = None, pb_SharedFiles = None, pb_WritableDirs = None, pb_KeepReleases = 5,
     pb_ValidationRules = None, pb_IsSeed = False, pb_IsDeprecated = False, pb_ParentID = None,
     pb_ParentVersion = '''', pb_CreatedAt = 2\<rparr>"

definition wit_binding :: PlaybookVariableBinding where
  "wit_binding = \<lparr>vb_ID = ''b1'', vb_ActivationID = ''a1'', vb_VariableName = ''dir'', vb_SourceType = ''secret'',
     vb_SourceRef = ''shop/prod/token'', vb_LiteralValue = ''''\<rparr>"

definition book_store :: RecipeStore where
  "book_store = snd (CreatePlaybook (Some wit_playbook) 2 ''x'' raw_store)"

definition active_store :: RecipeStore where
  "active_store = snd (CreatePlaybookActivation (Some wit_activation) 5 ''x'' book_store)"

definition bound_store :: RecipeStore where
  "bound_store = snd (CreateVariableBinding (Some wit_binding) 6 ''x'' active_store)"

lemma book_store_tables:
  "recipeComponents book_store = [''c1'' \<mapsto> wit_raw]"
  "recipeComponentsByKey book_store = [''user:wipe:v1.0.0'' \<mapsto> wit_raw]"
  "playbooks book_store = [''p1'' \<mapsto> wit_playbook]" "playbooksByKey book_store = [''user:shop:v1.0.0'' \<mapsto> wit_playbook]"
  "playbookActivations book_store = Map.empty" "activationsByProject book_store = (\<lambda>_. [])"
  "variableBindings book_store = Map.empty" "rawApprovals book_store = Map.empty"
  "rawApprovalsByComponent book_store = (\<lambda>_. [])"
  by (simp_all add: book_store_def wit_playbook_def CreatePlaybook_def playbook_defaults_def playbookKey_def
      raw_store_simps recipeComponentKey_def)

lemma active_store_tables:
  "playbooks active_store = [''p1'' \<mapsto> wit_playbook]" "playbookActivations active_store = [''a1'' \<mapsto> wit_activation]"
  "variableBindings active_store = Map.empty"
  by (simp_all add: active_store_def CreatePlaybookActivation_def activation_defaults_def wit_activation_def
      book_store_tables Let_def IsZero_def)

lemma bound_store_tables:
  "playbooks bound_store = [''p1'' \<mapsto> wit_playbook]" "playbookActivations bound_store = [''a1'' \<mapsto> wit_activation]"
  "variableBindings bound_store = [''b1'' \<mapsto> wit_binding]"
  by (simp_all add: bound_store_def CreateVariableBinding_def wit_binding_def active_store_tables Let_def)

lemma bound_store_reachable: "recipe_reachable bound_store"
proof -
  have "recipe_reachable book_store" unfolding book_store_def
    by (rule reach_step [OF raw_store_reachable create_playbook])
      (simp add: raw_store_simps)
  then have "recipe_reachable active_store" unfolding active_store_def
    by (rule reach_step [OF _ create_activation]) (simp add: book_store_tables)
  then show ?thesis unfolding bound_store_def
    by (rule reach_step [OF _ create_binding]) (simp add: active_store_tables)
qed


end
