(* ===== verification/Recipe_Deploy.thy ===== *)
theory Recipe_Deploy
  imports Recipe_Services
begin

text \<open>
  From a playbook to a deployment (\<open>internal/services/recipes/activations.go\<close>, \<open>resolver.go\<close>): activating a
  playbook for a project with its variable bindings, resolving the bindings, resolving the steps to
  commands, and the check of raw components before a deployment.

  A Go map that is ranged over more than once may be visited in a different order each time, so each
  \<open>range\<close> has its own order argument. The getters for environment variables and secrets, function values
  that may be nil, are options.
\<close>

record VariableBinding =
  bind_SourceType :: string
  bind_SourceRef :: string
  bind_LiteralValue :: string

section \<open>Activation\<close>

text \<open>The names of the variables some step's component requires and has no default for.\<close>

definition required_names :: "Playbook \<Rightarrow> RecipeStore \<Rightarrow> string set" where
  "required_names playbook s =
     (\<Union>step \<in> set (elems (pb_Steps playbook)).
        case step_component s step of
          None \<Rightarrow> {}
        | Some c \<Rightarrow> vd_Name ` {v \<in> set (elems (rc_Variables c)). vd_Required v \<and> vd_Default v = ''''})"

fun bad_source :: "string \<Rightarrow> VariableBinding \<Rightarrow> svc_error option" where
  "bad_source name b =
     (if bind_SourceType b = SourceTypeLiteral then None
      else if bind_SourceType b = SourceTypeEnv \<or> bind_SourceType b = SourceTypeSecret
      then (if bind_SourceRef b = ''''
            then Some (Errorf ''variable %q: source reference required for type %s'' [name, bind_SourceType b] None)
            else None)
      else Some (Errorf ''variable %q: invalid source type %q'' [name, bind_SourceType b] None))"

text \<open>\<open>reqs\<close> and \<open>ks\<close>: the orders in which the required names and the bindings are visited.\<close>

definition validateBindings ::
  "Playbook \<Rightarrow> (string \<rightharpoonup> VariableBinding) \<Rightarrow> string list \<Rightarrow> string list \<Rightarrow> RecipeStore \<Rightarrow> svc_error option" where
  "validateBindings playbook bindings reqs ks s =
     (case find (\<lambda>name. bindings name = None) reqs of
        Some name \<Rightarrow> Some (Errorf ''required variable %q not bound'' [name] None)
      | None \<Rightarrow>
          (case List.map_filter (\<lambda>name. Option.bind (bindings name) (bad_source name)) ks of
             e # _ \<Rightarrow> Some e | [] \<Rightarrow> None))"

fun checkRawApprovals :: "PlaybookStep list \<Rightarrow> RecipeStore \<Rightarrow> svc_error option" where
  "checkRawApprovals [] s = None"
| "checkRawApprovals (step # steps) s =
     (case step_component s step of
        None \<Rightarrow> checkRawApprovals steps s
      | Some c \<Rightarrow>
          if rc_IsRaw c \<and> (case GetRawApproval (rc_ID c) s of Inl _ \<Rightarrow> True | Inr _ \<Rightarrow> False)
          then Some (Errorf ''RAW component %q requires admin approval before activation'' [step_ComponentRef step] None)
          else checkRawApprovals steps s)"

fun create_bindings ::
  "string \<Rightarrow> (string \<rightharpoonup> VariableBinding) \<Rightarrow> (string \<Rightarrow> string) \<Rightarrow> time \<Rightarrow> string list \<Rightarrow> RecipeStore \<Rightarrow> svc_error option \<times> RecipeStore" where
  "create_bindings aid bindings bid now [] s = (None, s)"
| "create_bindings aid bindings bid now (name # names) s =
     (case bindings name of
        None \<Rightarrow> create_bindings aid bindings bid now names s
      | Some b \<Rightarrow>
          (let vb = \<lparr>vb_ID = '''', vb_ActivationID = aid, vb_VariableName = name, vb_SourceType = bind_SourceType b,
                     vb_SourceRef = bind_SourceRef b, vb_LiteralValue = bind_LiteralValue b\<rparr>
           in case CreateVariableBinding (Some vb) now (bid name) s of
                (Inl e, s) \<Rightarrow> (Some (Errorf ''failed to create binding for %q: %w'' [name] (Some (StoreErr e))), s)
              | (Inr _, s) \<Rightarrow> create_bindings aid bindings bid now names s))"

text \<open>\<open>aid\<close> is the identifier made for the activation, \<open>bid\<close> that for the binding of each name.\<close>

definition Activate ::
  "string \<Rightarrow> string \<Rightarrow> (string \<rightharpoonup> VariableBinding) \<Rightarrow> string option \<Rightarrow> string list \<Rightarrow> string list \<Rightarrow> string list \<Rightarrow>
   string \<Rightarrow> (string \<Rightarrow> string) \<Rightarrow> time \<Rightarrow> RecipeStore \<Rightarrow> PlaybookActivation svc_result \<times> RecipeStore" where
  "Activate projectID playbookID bindings userID reqs ks names aid bid now s =
     (case GetPlaybookByID playbookID s of
        Inl e \<Rightarrow> (Inl (wrapped ''playbook not found: %w'' e), s)
      | Inr playbook \<Rightarrow>
          (case validateBindings playbook bindings reqs ks s of
             Some e \<Rightarrow> (Inl e, s)
           | None \<Rightarrow>
               (case checkRawApprovals (elems (pb_Steps playbook)) s of
                  Some e \<Rightarrow> (Inl e, s)
                | None \<Rightarrow>
                    (case (case GetPlaybookActivation projectID s of
                             Inl _ \<Rightarrow> (Inr (), s)
                           | Inr existing \<Rightarrow> DeletePlaybookActivation (act_ID existing) now s) of
                       (Inl e, s) \<Rightarrow> (Inl (wrapped ''failed to remove existing activation: %w'' e), s)
                     | (Inr _, s) \<Rightarrow>
                         (let activation = \<lparr>act_ID = '''', act_ProjectID = projectID, act_PlaybookID = playbookID,
                                act_ActivatedAt = now, act_ActivatedBy = userID, act_Bindings = []\<rparr>
                          in case CreatePlaybookActivation (Some activation) now aid s of
                               (Inl e, s) \<Rightarrow> (Inl (StoreErr e), s)
                             | (Inr activation, s) \<Rightarrow>
                                 (case create_bindings (act_ID activation) bindings bid now names s of
                                    (Some e, s) \<Rightarrow> (Inl e, s)
                                  | (None, s) \<Rightarrow> (Inr activation, s)))))))"

definition Deactivate :: "string \<Rightarrow> time \<Rightarrow> RecipeStore \<Rightarrow> unit svc_result \<times> RecipeStore" where
  "Deactivate projectID now s =
     (case GetPlaybookActivation projectID s of
        Inl e \<Rightarrow> (Inl (wrapped ''failed to get activation: %w'' e), s)
      | Inr existing \<Rightarrow> (case DeletePlaybookActivation (act_ID existing) now s of (r, s) \<Rightarrow> (svc r, s)))"

definition GetActive :: "string \<Rightarrow> RecipeStore \<Rightarrow> PlaybookActivation svc_result" where
  "GetActive projectID s =
     (case GetPlaybookActivation projectID s of
        Inl e \<Rightarrow> Inl (StoreErr e)
      | Inr activation \<Rightarrow> Inr (activation\<lparr>act_Bindings := GetVariableBindings (act_ID activation) s\<rparr>))"

definition GetActiveWithPlaybook :: "string \<Rightarrow> RecipeStore \<Rightarrow> (PlaybookActivation \<times> Playbook) svc_result" where
  "GetActiveWithPlaybook projectID s =
     (case GetActive projectID s of
        Inl e \<Rightarrow> Inl e
      | Inr activation \<Rightarrow>
          (case GetPlaybookByID (act_PlaybookID activation) s of
             Inl e \<Rightarrow> Inl (wrapped ''playbook not found: %w'' e)
           | Inr playbook \<Rightarrow> Inr (activation, playbook)))"

fun delete_bindings :: "PlaybookVariableBinding list \<Rightarrow> time \<Rightarrow> RecipeStore \<Rightarrow> svc_error option \<times> RecipeStore" where
  "delete_bindings [] now s = (None, s)"
| "delete_bindings (b # bs) now s =
     (case DeleteVariableBinding (vb_ID b) now s of
        (Inl e, s) \<Rightarrow> (Some (Errorf ''failed to delete binding %s: %w'' [vb_ID b] (Some (StoreErr e))), s)
      | (Inr _, s) \<Rightarrow> delete_bindings bs now s)"

definition UpdateBindings ::
  "string \<Rightarrow> (string \<rightharpoonup> VariableBinding) \<Rightarrow> string list \<Rightarrow> string list \<Rightarrow> string list \<Rightarrow> (string \<Rightarrow> string) \<Rightarrow> time \<Rightarrow>
   RecipeStore \<Rightarrow> unit svc_result \<times> RecipeStore" where
  "UpdateBindings activationID bindings reqs ks names bid now s =
     (case GetPlaybookActivationByID activationID s of
        Inl e \<Rightarrow> (Inl (wrapped ''activation not found: %w'' e), s)
      | Inr activation \<Rightarrow>
          (case GetPlaybookByID (act_PlaybookID activation) s of
             Inl e \<Rightarrow> (Inl (wrapped ''playbook not found: %w'' e), s)
           | Inr playbook \<Rightarrow>
               (case validateBindings playbook bindings reqs ks s of
                  Some e \<Rightarrow> (Inl e, s)
                | None \<Rightarrow>
                    (case delete_bindings (GetVariableBindings activationID s) now s of
                       (Some e, s) \<Rightarrow> (Inl e, s)
                     | (None, s) \<Rightarrow>
                         (case create_bindings activationID bindings bid now names s of
                            (Some e, s) \<Rightarrow> (Inl e, s) | (None, s) \<Rightarrow> (Inr (), s))))))"

fun resolve_bindings ::
  "(string \<Rightarrow> string) option \<Rightarrow> (string \<Rightarrow> svc_error + string) option \<Rightarrow> PlaybookVariableBinding list \<Rightarrow>
   (string \<rightharpoonup> string) \<Rightarrow> (string \<rightharpoonup> string) svc_result" where
  "resolve_bindings envGetter secretGetter [] resolved = Inr resolved"
| "resolve_bindings envGetter secretGetter (b # bs) resolved =
     (if vb_SourceType b = SourceTypeLiteral
      then resolve_bindings envGetter secretGetter bs (resolved(vb_VariableName b \<mapsto> vb_LiteralValue b))
      else if vb_SourceType b = SourceTypeEnv
      then resolve_bindings envGetter secretGetter bs
             (case envGetter of None \<Rightarrow> resolved | Some g \<Rightarrow> resolved(vb_VariableName b \<mapsto> g (vb_SourceRef b)))
      else if vb_SourceType b = SourceTypeSecret
      then (case secretGetter of
              None \<Rightarrow> resolve_bindings envGetter secretGetter bs resolved
            | Some g \<Rightarrow>
                (case g (vb_SourceRef b) of
                   Inl e \<Rightarrow> Inl (Errorf ''failed to resolve secret %q: %w'' [vb_SourceRef b] (Some e))
                 | Inr v \<Rightarrow> resolve_bindings envGetter secretGetter bs (resolved(vb_VariableName b \<mapsto> v))))
      else Inl (Errorf ''unknown source type: %s'' [vb_SourceType b] None))"

definition ResolveVariables ::
  "string \<Rightarrow> (string \<Rightarrow> string) option \<Rightarrow> (string \<Rightarrow> svc_error + string) option \<Rightarrow> RecipeStore \<Rightarrow> (string \<rightharpoonup> string) svc_result" where
  "ResolveVariables activationID envGetter secretGetter s =
     resolve_bindings envGetter secretGetter (GetVariableBindings activationID s) Map.empty"

section \<open>Resolution\<close>

record ResolvedStep =
  rs_Order :: int
  rs_Phase :: string
  rs_ComponentRef :: string
  rs_ComponentName :: string
  rs_ComponentType :: string
  rs_IsRaw :: bool
  rs_Content :: string
  rs_Variables :: "string \<rightharpoonup> string"
  rs_Condition :: string
  rs_TargetPath :: string
  rs_TemplateSource :: string

record ResolvedPlaybook =
  rp_PlaybookID :: string
  rp_PlaybookName :: string
  rp_PlaybookVersion :: string
  rp_ProjectID :: string
  rp_PreDeploySteps :: "ResolvedStep list"
  rp_DeploySteps :: "ResolvedStep list"
  rp_PostDeploySteps :: "ResolvedStep list"
  rp_RollbackSteps :: "ResolvedStep list"
  rp_SharedDirs :: "string slice"

text \<open>The replacement of one variable's placeholders, and of all in the order \<open>names\<close>.\<close>

definition substitute :: "string \<Rightarrow> string \<Rightarrow> string \<Rightarrow> string" where
  "substitute varName varValue cmd =
     ReplaceAll (ReplaceAll cmd (''{{'' @ varName @ ''}}'') varValue) (''${'' @ varName @ ''}'') varValue"

definition substitute_all :: "(string \<rightharpoonup> string) \<Rightarrow> string list \<Rightarrow> string \<Rightarrow> string" where
  "substitute_all vars names cmd =
     fold (\<lambda>n cmd. case vars n of None \<Rightarrow> cmd | Some v \<Rightarrow> substitute n v cmd) names cmd"

text \<open>\<open>ords i\<close>: the order in which the variables are visited for the \<open>i\<close>-th command.\<close>

definition resolveStep ::
  "PlaybookStep \<Rightarrow> (string \<rightharpoonup> string) \<Rightarrow> (nat \<Rightarrow> string list) \<Rightarrow> RecipeStore \<Rightarrow> ResolvedStep svc_result" where
  "resolveStep step vars ords s =
     (case Split (step_ComponentRef step) (CHR '':'') of
        [namespace, slug, version] \<Rightarrow>
          (case Component_Get namespace slug version s of
             Inl _ \<Rightarrow> Inl (Errorf ''component not found: %s'' [step_ComponentRef step] None)
           | Inr c \<Rightarrow>
               (let variables = vars ++ map_of (step_VariableBindings step);
                    cmds = elems (cc_Commands (rc_Content c));
                    contentLines = map (\<lambda>i. substitute_all variables (ords i) (cmds ! i)) [0..<length cmds]
                in Inr \<lparr>rs_Order = step_Order step, rs_Phase = step_Phase step,
                        rs_ComponentRef = step_ComponentRef step, rs_ComponentName = rc_Name c,
                        rs_ComponentType = rc_ComponentType c, rs_IsRaw = rc_IsRaw c,
                        rs_Content = Join contentLines [CHR 0x0A], rs_Variables = variables,
                        rs_Condition = step_Condition step,
                        rs_TargetPath = (if rc_ComponentType c = ''file_op'' \<and> cc_DestPath (rc_Content c) \<noteq> ''''
                                         then cc_DestPath (rc_Content c) else ''''),
                        rs_TemplateSource = ''''\<rparr>))
      | _ \<Rightarrow> Inl (Errorf ''invalid component reference: %s'' [step_ComponentRef step] None))"

definition add_step :: "PlaybookStep \<Rightarrow> ResolvedStep \<Rightarrow> ResolvedPlaybook \<Rightarrow> ResolvedPlaybook" where
  "add_step step r rp =
     (if step_Phase step = ''pre_deploy'' then rp\<lparr>rp_PreDeploySteps := rp_PreDeploySteps rp @ [r]\<rparr>
      else if step_Phase step = ''deploy'' then rp\<lparr>rp_DeploySteps := rp_DeploySteps rp @ [r]\<rparr>
      else if step_Phase step = ''post_deploy'' then rp\<lparr>rp_PostDeploySteps := rp_PostDeploySteps rp @ [r]\<rparr>
      else if step_Phase step = ''rollback'' then rp\<lparr>rp_RollbackSteps := rp_RollbackSteps rp @ [r]\<rparr>
      else rp)"

text \<open>The loop over the steps; \<open>k\<close> is the index of the step.\<close>

fun resolve_steps ::
  "(string \<rightharpoonup> string) \<Rightarrow> (nat \<Rightarrow> nat \<Rightarrow> string list) \<Rightarrow> RecipeStore \<Rightarrow> nat \<Rightarrow> PlaybookStep list \<Rightarrow> ResolvedPlaybook \<Rightarrow>
   ResolvedPlaybook svc_result" where
  "resolve_steps vars ords s k [] rp = Inr rp"
| "resolve_steps vars ords s k (step # steps) rp =
     (case resolveStep step vars (ords k) s of
        Inl e \<Rightarrow> Inl (Errorf ''resolving step %d: %w'' [Itoa (step_Order step)] (Some e))
      | Inr r \<Rightarrow> resolve_steps vars ords s (Suc k) steps (add_step step r rp))"

definition Resolve ::
  "string \<Rightarrow> (string \<Rightarrow> string) option \<Rightarrow> (string \<Rightarrow> svc_error + string) option \<Rightarrow> (nat \<Rightarrow> nat \<Rightarrow> string list) \<Rightarrow>
   RecipeStore \<Rightarrow> ResolvedPlaybook svc_result" where
  "Resolve projectID envGetter secretGetter ords s =
     (case GetActiveWithPlaybook projectID s of
        Inl e \<Rightarrow> Inl (Errorf ''no active playbook: %w'' [] (Some e))
      | Inr (activation, playbook) \<Rightarrow>
          (case ResolveVariables (act_ID activation) envGetter secretGetter s of
             Inl e \<Rightarrow> Inl (Errorf ''resolving variables: %w'' [] (Some e))
           | Inr vars \<Rightarrow>
               resolve_steps vars ords s 0 (elems (pb_Steps playbook))
                 \<lparr>rp_PlaybookID = pb_ID playbook, rp_PlaybookName = pb_Name playbook,
                  rp_PlaybookVersion = pb_Version playbook, rp_ProjectID = projectID,
                  rp_PreDeploySteps = [], rp_DeploySteps = [], rp_PostDeploySteps = [], rp_RollbackSteps = [],
                  rp_SharedDirs = pb_SharedDirs playbook\<rparr>))"

definition HasActivePlaybook :: "string \<Rightarrow> RecipeStore \<Rightarrow> bool" where
  "HasActivePlaybook projectID s = (case GetActive projectID s of Inl _ \<Rightarrow> False | Inr _ \<Rightarrow> True)"

record DeployHooks =
  hooks_PreDeploy :: "string list"
  hooks_PostDeploy :: "string list"
  hooks_Rollback :: "string list"

definition ToDeployHooks :: "ResolvedPlaybook \<Rightarrow> DeployHooks" where
  "ToDeployHooks resolved =
     (let shell = (\<lambda>steps. map rs_Content (filter (\<lambda>step. rs_ComponentType step = ''shell'') steps))
      in \<lparr>hooks_PreDeploy = shell (rp_PreDeploySteps resolved),
          hooks_PostDeploy = shell (rp_PostDeploySteps resolved),
          hooks_Rollback = shell (rp_RollbackSteps resolved)\<rparr>)"

definition GetSharedDirs :: "ResolvedPlaybook \<Rightarrow> string slice" where
  "GetSharedDirs resolved = rp_SharedDirs resolved"

fun validate_raw :: "PlaybookStep list \<Rightarrow> RecipeStore \<Rightarrow> unit svc_result" where
  "validate_raw [] s = Inr ()"
| "validate_raw (step # steps) s =
     (case Split (step_ComponentRef step) (CHR '':'') of
        [namespace, slug, version] \<Rightarrow>
          (case Component_Get namespace slug version s of
             Inl _ \<Rightarrow> Inl (Errorf ''component not found: %s'' [step_ComponentRef step] None)
           | Inr c \<Rightarrow>
               if rc_IsRaw c \<and> (case GetRawApproval (rc_ID c) s of Inl _ \<Rightarrow> True | Inr _ \<Rightarrow> False)
               then Inl (Errorf ''RAW component %s requires admin approval'' [rc_Name c] None)
               else validate_raw steps s)
      | _ \<Rightarrow> validate_raw steps s)"

definition ValidateForDeployment :: "string \<Rightarrow> RecipeStore \<Rightarrow> unit svc_result" where
  "ValidateForDeployment projectID s =
     (case GetActive projectID s of
        Inl _ \<Rightarrow> Inl (Errorf0 ''no active playbook'')
      | Inr activation \<Rightarrow>
          (case GetPlaybookByID (act_PlaybookID activation) s of
             Inl _ \<Rightarrow> Inl (Errorf0 ''playbook not found'')
           | Inr playbook \<Rightarrow> validate_raw (elems (pb_Steps playbook)) s))"

record ServiceReloadConfig =
  reload_Service :: string
  reload_Action :: string

record DeploymentConfig =
  cfg_EnvVars :: "string \<rightharpoonup> string"
  cfg_EnvFileContent :: string
  cfg_ReloadServices :: "ServiceReloadConfig list"

record PlaybookDeployRequest =
  pd_PlaybookID :: string
  pd_PlaybookName :: string
  pd_PlaybookVersion :: string
  pd_PreDeployHooks :: "string list"
  pd_PostDeployHooks :: "string list"
  pd_RollbackHooks :: "string list"
  pd_SharedDirs :: "string slice"
  pd_EnvVars :: "string \<rightharpoonup> string"
  pd_EnvFileContent :: string
  pd_ReloadServices :: "ServiceReloadConfig list"

definition BuildDeployRequest :: "ResolvedPlaybook \<Rightarrow> DeploymentConfig option \<Rightarrow> PlaybookDeployRequest" where
  "BuildDeployRequest resolved cfg =
     (let hooks = (\<lambda>steps. filter (\<lambda>c. c \<noteq> '''') (map rs_Content steps));
          req = \<lparr>pd_PlaybookID = rp_PlaybookID resolved, pd_PlaybookName = rp_PlaybookName resolved,
                 pd_PlaybookVersion = rp_PlaybookVersion resolved,
                 pd_PreDeployHooks = hooks (rp_PreDeploySteps resolved),
                 pd_PostDeployHooks = hooks (rp_PostDeploySteps resolved),
                 pd_RollbackHooks = hooks (rp_RollbackSteps resolved),
                 pd_SharedDirs = rp_SharedDirs resolved, pd_EnvVars = Map.empty, pd_EnvFileContent = '''',
                 pd_ReloadServices = []\<rparr>
      in case cfg of
           None \<Rightarrow> req
         | Some cfg \<Rightarrow> req\<lparr>pd_EnvVars := cfg_EnvVars cfg, pd_EnvFileContent := cfg_EnvFileContent cfg,
                         pd_ReloadServices := map (\<lambda>svc. \<lparr>reload_Service = reload_Service svc,
                           reload_Action = reload_Action svc\<rparr>) (cfg_ReloadServices cfg)\<rparr>)"

section \<open>What a resolved playbook contains\<close>

definition all_steps :: "ResolvedPlaybook \<Rightarrow> ResolvedStep list" where
  "all_steps rp = rp_PreDeploySteps rp @ rp_DeploySteps rp @ rp_PostDeploySteps rp @ rp_RollbackSteps rp"

lemma set_all_steps_add: "set (all_steps (add_step step r rp)) \<subseteq> insert r (set (all_steps rp))"
  by (auto simp: all_steps_def add_step_def)

lemma resolve_steps_source:
  "resolve_steps vars ords s k steps rp = Inr rp' \<Longrightarrow> r \<in> set (all_steps rp') \<Longrightarrow>
   r \<in> set (all_steps rp) \<or> (\<exists>step \<in> set steps. \<exists>j. resolveStep step vars (ords j) s = Inr r)"
proof (induction steps arbitrary: k rp)
  case (Cons step steps)
  then obtain r' where r': "resolveStep step vars (ords k) s = Inr r'"
    and rest: "resolve_steps vars ords s (Suc k) steps (add_step step r' rp) = Inr rp'"
    by (auto split: sum.splits)
  from Cons.IH [OF rest Cons.prems(2)] r' set_all_steps_add [of step r' rp] show ?case by auto
qed simp

lemma resolveStep_Inr:
  assumes "resolveStep step vars ords s = Inr r"
  obtains namespace slug version c where
    "Split (step_ComponentRef step) (CHR '':'') = [namespace, slug, version]"
    and "Component_Get namespace slug version s = Inr c"
    and "rs_IsRaw r = rc_IsRaw c" and "rs_ComponentRef r = step_ComponentRef step" and "rs_Phase r = step_Phase step"
    and "rs_ComponentType r = rc_ComponentType c"
  using assms unfolding resolveStep_def
  by (auto simp: Let_def split: list.splits sum.splits)

lemma validate_raw_approved:
  "validate_raw steps s = Inr () \<Longrightarrow> step \<in> set steps \<Longrightarrow>
   Split (step_ComponentRef step) (CHR '':'') = [namespace, slug, version] \<Longrightarrow>
   Component_Get namespace slug version s = Inr c \<Longrightarrow> rc_IsRaw c \<Longrightarrow> \<exists>a. GetRawApproval (rc_ID c) s = Inr a"
proof (induction steps)
  case (Cons st steps)
  show ?case
  proof (cases "step = st")
    case True
    with Cons.prems show ?thesis by (auto split: if_splits sum.splits)
  next
    case False
    moreover have "validate_raw steps s = Inr ()"
      using Cons.prems(1) by (auto split: list.splits sum.splits if_splits)
    ultimately show ?thesis using Cons.IH Cons.prems by auto
  qed
qed simp

lemma Resolve_Inr:
  assumes "Resolve projectID env sec ords s = Inr rp"
  obtains activation playbook vars rp0 where
    "GetActiveWithPlaybook projectID s = Inr (activation, playbook)"
    and "ResolveVariables (act_ID activation) env sec s = Inr vars"
    and "resolve_steps vars ords s 0 (elems (pb_Steps playbook)) rp0 = Inr rp"
    and "all_steps rp0 = []"
  using assms unfolding Resolve_def by (auto simp: all_steps_def split: sum.splits)

lemma ValidateForDeployment_raw:
  assumes "ValidateForDeployment projectID s = Inr ()"
    and "GetActiveWithPlaybook projectID s = Inr (activation, playbook)"
  shows "validate_raw (elems (pb_Steps playbook)) s = Inr ()"
  using assms by (auto simp: ValidateForDeployment_def GetActiveWithPlaybook_def split: sum.splits)


section \<open>The order of the steps\<close>

lemma resolve_steps_phases:
  "resolve_steps vars ords s k steps rp = Inr rp' \<Longrightarrow>
     map rs_ComponentRef (rp_PreDeploySteps rp') = map rs_ComponentRef (rp_PreDeploySteps rp) @
       map step_ComponentRef (filter (\<lambda>st. step_Phase st = PhasePreDeploy) steps) \<and>
     map rs_ComponentRef (rp_DeploySteps rp') = map rs_ComponentRef (rp_DeploySteps rp) @
       map step_ComponentRef (filter (\<lambda>st. step_Phase st = PhaseDeploy) steps) \<and>
     map rs_ComponentRef (rp_PostDeploySteps rp') = map rs_ComponentRef (rp_PostDeploySteps rp) @
       map step_ComponentRef (filter (\<lambda>st. step_Phase st = PhasePostDeploy) steps) \<and>
     map rs_ComponentRef (rp_RollbackSteps rp') = map rs_ComponentRef (rp_RollbackSteps rp) @
       map step_ComponentRef (filter (\<lambda>st. step_Phase st = PhaseRollback) steps)"
proof (induction steps arbitrary: k rp)
  case (Cons step steps)
  then obtain r where r: "resolveStep step vars (ords k) s = Inr r"
    and rest: "resolve_steps vars ords s (Suc k) steps (add_step step r rp) = Inr rp'"
    by (auto split: sum.splits)
  have ref: "rs_ComponentRef r = step_ComponentRef step" using r by (rule resolveStep_Inr)
  show ?case using Cons.IH [OF rest] ref by (simp add: add_step_def split: if_splits)
qed simp

text \<open>Resolving an active playbook keeps every step of the four deployment phases, each in its phase
  and in the order of the playbook.\<close>

theorem Resolve_keeps_step_order:
  assumes "Resolve projectID env sec ords s = Inr rp"
  shows "\<exists>activation playbook. GetActiveWithPlaybook projectID s = Inr (activation, playbook) \<and>
     (let refs = (\<lambda>phase. map step_ComponentRef (filter (\<lambda>st. step_Phase st = phase) (elems (pb_Steps playbook))))
      in map rs_ComponentRef (rp_PreDeploySteps rp) = refs PhasePreDeploy \<and>
         map rs_ComponentRef (rp_DeploySteps rp) = refs PhaseDeploy \<and>
         map rs_ComponentRef (rp_PostDeploySteps rp) = refs PhasePostDeploy \<and>
         map rs_ComponentRef (rp_RollbackSteps rp) = refs PhaseRollback)"
proof -
  obtain activation playbook vars rp0 where act: "GetActiveWithPlaybook projectID s = Inr (activation, playbook)"
    and res: "resolve_steps vars ords s 0 (elems (pb_Steps playbook)) rp0 = Inr rp" and "all_steps rp0 = []"
    using Resolve_Inr [OF assms] by metis
  with resolve_steps_phases [OF res] show ?thesis by (auto simp: all_steps_def Let_def)
qed

text \<open>Components have the types of \<open>ValidComponentTypes\<close>, and \<open>ToDeployHooks\<close> keeps only steps of the type
  shell: it yields no hook for any of them.\<close>

lemma ToDeployHooks_none:
  assumes "\<And>r. r \<in> set (all_steps rp) \<Longrightarrow> rs_ComponentType r \<in> set ValidComponentTypes"
  shows "ToDeployHooks rp = \<lparr>hooks_PreDeploy = [], hooks_PostDeploy = [], hooks_Rollback = []\<rparr>"
proof -
  have "''shell'' \<notin> set ValidComponentTypes" by (simp add: ValidComponentTypes_def)
  with assms have "rs_ComponentType r \<noteq> ''shell''" if "r \<in> set (all_steps rp)" for r using that by metis
  then show ?thesis by (auto simp: ToDeployHooks_def all_steps_def Let_def filter_empty_conv)
qed

section \<open>The effect of an activation\<close>

definition stored_binding :: "string \<Rightarrow> (string \<Rightarrow> string) \<Rightarrow> string \<Rightarrow> VariableBinding \<Rightarrow> PlaybookVariableBinding" where
  "stored_binding aid bid name b =
     \<lparr>vb_ID = bid name, vb_ActivationID = aid, vb_VariableName = name, vb_SourceType = bind_SourceType b,
      vb_SourceRef = bind_SourceRef b, vb_LiteralValue = bind_LiteralValue b\<rparr>"

text \<open>The arguments a call gets from its surroundings: the orders enumerate the maps, the identifiers are
  not in use.\<close>

definition fresh_ids ::
  "(string \<rightharpoonup> VariableBinding) \<Rightarrow> string list \<Rightarrow> (string \<Rightarrow> string) \<Rightarrow> RecipeStore \<Rightarrow> bool" where
  "fresh_ids bindings names bid s \<longleftrightarrow>
     enumerates names bindings \<and> inj_on bid (dom bindings) \<and> (\<forall>n \<in> dom bindings. variableBindings s (bid n) = None)"

lemma CreateVariableBinding_result:
  "fst (CreateVariableBinding (Some b) now xid s) = Inr (if vb_ID b = '''' then b\<lparr>vb_ID := xid\<rparr> else b)"
  "bindingsByActivation (snd (CreateVariableBinding (Some b) now xid s)) =
     (bindingsByActivation s)(vb_ActivationID b := bindingsByActivation s (vb_ActivationID b) @
       [if vb_ID b = '''' then b\<lparr>vb_ID := xid\<rparr> else b])"
  "variableBindings (snd (CreateVariableBinding (Some b) now xid s)) =
     (variableBindings s)((if vb_ID b = '''' then xid else vb_ID b) \<mapsto> (if vb_ID b = '''' then b\<lparr>vb_ID := xid\<rparr> else b))"
  "playbookActivations (snd (CreateVariableBinding (Some b) now xid s)) = playbookActivations s"
  "activationsByProject (snd (CreateVariableBinding (Some b) now xid s)) = activationsByProject s"
  "playbooks (snd (CreateVariableBinding (Some b) now xid s)) = playbooks s"
  by (simp_all add: CreateVariableBinding_def Let_def)

lemma create_bindings_effect:
  assumes "distinct names" and "inj_on bid (set names)" and "set names \<subseteq> dom bindings"
    and "\<And>n. n \<in> set names \<Longrightarrow> variableBindings s (bid n) = None" and "recipe_reachable s"
  shows "fst (create_bindings aid bindings bid now names s) = None \<and>
     bindingsByActivation (snd (create_bindings aid bindings bid now names s)) aid =
       bindingsByActivation s aid @ map (\<lambda>n. stored_binding aid bid n (the (bindings n))) names \<and>
     playbookActivations (snd (create_bindings aid bindings bid now names s)) = playbookActivations s \<and>
     activationsByProject (snd (create_bindings aid bindings bid now names s)) = activationsByProject s \<and>
     playbooks (snd (create_bindings aid bindings bid now names s)) = playbooks s \<and>
     recipe_reachable (snd (create_bindings aid bindings bid now names s))"
  using assms
proof (induction names arbitrary: s)
  case (Cons n names)
  then obtain b where b: "bindings n = Some b" by auto
  let ?vb = "\<lparr>vb_ID = '''', vb_ActivationID = aid, vb_VariableName = n, vb_SourceType = bind_SourceType b,
     vb_SourceRef = bind_SourceRef b, vb_LiteralValue = bind_LiteralValue b\<rparr>"
  let ?s = "snd (CreateVariableBinding (Some ?vb) now (bid n) s)"
  have eq: "create_bindings aid bindings bid now (n # names) s = create_bindings aid bindings bid now names ?s"
    using b CreateVariableBinding_result(1) [of ?vb now "bid n" s]
    by (cases "CreateVariableBinding (Some ?vb) now (bid n) s") simp
  note r = CreateVariableBinding_result [of ?vb now "bid n" s]
  have "recipe_reachable ?s"
    by (rule reach_step [OF Cons.prems(5) create_binding]) (use Cons.prems(4) in simp)
  moreover have "variableBindings ?s (bid m) = None" if "m \<in> set names" for m
  proof -
    have "bid m \<noteq> bid n" using Cons.prems(1,2) that by (auto simp: inj_on_def)
    with Cons.prems(4) [of m] that show ?thesis by (simp add: r)
  qed
  ultimately have ih: "fst (create_bindings aid bindings bid now names ?s) = None \<and>
     bindingsByActivation (snd (create_bindings aid bindings bid now names ?s)) aid =
       bindingsByActivation ?s aid @ map (\<lambda>n. stored_binding aid bid n (the (bindings n))) names \<and>
     playbookActivations (snd (create_bindings aid bindings bid now names ?s)) = playbookActivations ?s \<and>
     activationsByProject (snd (create_bindings aid bindings bid now names ?s)) = activationsByProject ?s \<and>
     playbooks (snd (create_bindings aid bindings bid now names ?s)) = playbooks ?s \<and>
     recipe_reachable (snd (create_bindings aid bindings bid now names ?s))"
    using Cons.prems(1,2,3) by (intro Cons.IH) auto
  have "bindingsByActivation ?s aid = bindingsByActivation s aid @ [stored_binding aid bid n b]"
    by (simp add: r stored_binding_def)
  with ih b show ?case unfolding eq by (simp add: r)
qed simp

definition activation_checks ::
  "string \<Rightarrow> (string \<rightharpoonup> VariableBinding) \<Rightarrow> string list \<Rightarrow> string list \<Rightarrow> RecipeStore \<Rightarrow> bool" where
  "activation_checks playbookID bindings reqs ks s \<longleftrightarrow>
     (\<exists>playbook. playbooks s playbookID = Some playbook \<and> validateBindings playbook bindings reqs ks s = None \<and>
        checkRawApprovals (elems (pb_Steps playbook)) s = None)"

lemma Activate_refused:
  assumes "\<not> activation_checks playbookID bindings reqs ks s"
  shows "\<exists>e. Activate projectID playbookID bindings userID reqs ks names aid bid now s = (Inl e, s)"
  using assms unfolding Activate_def activation_checks_def
  by (auto simp: GetPlaybookByID_def split: option.splits)

definition new_activation :: "string \<Rightarrow> string \<Rightarrow> string option \<Rightarrow> string \<Rightarrow> time \<Rightarrow> PlaybookActivation" where
  "new_activation projectID playbookID userID aid now =
     \<lparr>act_ID = aid, act_ProjectID = projectID, act_PlaybookID = playbookID, act_ActivatedAt = now,
      act_ActivatedBy = userID, act_Bindings = []\<rparr>"

text \<open>The first part of \<open>Activate\<close>: the project's activation, if any, is deleted.\<close>

definition drop_activation :: "string \<Rightarrow> time \<Rightarrow> RecipeStore \<Rightarrow> unit result \<times> RecipeStore" where
  "drop_activation projectID now s =
     (case GetPlaybookActivation projectID s of
        Inl _ \<Rightarrow> (Inr (), s) | Inr existing \<Rightarrow> DeletePlaybookActivation (act_ID existing) now s)"

lemma drop_activation_effect:
  assumes re: "recipe_reachable s"
  shows "fst (drop_activation projectID now s) = Inr ()"
    and "activationsByProject (snd (drop_activation projectID now s)) = (activationsByProject s)(projectID := [])"
    and "playbookActivations s i = None \<Longrightarrow> playbookActivations (snd (drop_activation projectID now s)) i = None"
    and "variableBindings (snd (drop_activation projectID now s)) = variableBindings s"
    and "bindingsByActivation (snd (drop_activation projectID now s)) = bindingsByActivation s"
    and "playbooks (snd (drop_activation projectID now s)) = playbooks s"
    and "recipe_reachable (snd (drop_activation projectID now s))"
proof -
  note i = recipe_reachable_inv [OF re]
  have "fst (drop_activation projectID now s) = Inr () \<and>
     activationsByProject (snd (drop_activation projectID now s)) = (activationsByProject s)(projectID := []) \<and>
     (playbookActivations s i = None \<longrightarrow> playbookActivations (snd (drop_activation projectID now s)) i = None) \<and>
     variableBindings (snd (drop_activation projectID now s)) = variableBindings s \<and>
     bindingsByActivation (snd (drop_activation projectID now s)) = bindingsByActivation s \<and>
     playbooks (snd (drop_activation projectID now s)) = playbooks s \<and>
     recipe_reachable (snd (drop_activation projectID now s))"
  proof (cases "activationsByProject s projectID")
    case Nil
    with re show ?thesis by (simp add: drop_activation_def GetPlaybookActivation_def fun_upd_idem)
  next
    case (Cons a as)
    with recipe_invD(5) [OF i, of projectID] have one: "activationsByProject s projectID = [a]" by simp
    then have a: "playbookActivations s (act_ID a) = Some a" "act_ProjectID a = projectID"
      using project_activations.group_iff [OF i, of a projectID] by simp_all
    have eq: "drop_activation projectID now s = DeletePlaybookActivation (act_ID a) now s"
      using one by (simp add: drop_activation_def GetPlaybookActivation_def)
    have "recipe_reachable (snd (DeletePlaybookActivation (act_ID a) now s))"
      by (rule reach_step [OF re delete_activation])
    with a one show ?thesis
      by (simp add: eq) (simp add: DeletePlaybookActivation_def Let_def removeActivationFromSlice_def)
  qed
  then show "fst (drop_activation projectID now s) = Inr ()"
    and "activationsByProject (snd (drop_activation projectID now s)) = (activationsByProject s)(projectID := [])"
    and "playbookActivations s i = None \<Longrightarrow> playbookActivations (snd (drop_activation projectID now s)) i = None"
    and "variableBindings (snd (drop_activation projectID now s)) = variableBindings s"
    and "bindingsByActivation (snd (drop_activation projectID now s)) = bindingsByActivation s"
    and "playbooks (snd (drop_activation projectID now s)) = playbooks s"
    and "recipe_reachable (snd (drop_activation projectID now s))" by blast+
qed

lemma CreatePlaybookActivation_effect:
  fixes projectID playbookID aid :: string and userID :: "string option" and now :: time
  assumes re: "recipe_reachable s" and none: "activationsByProject s projectID = []"
    and fresh: "playbookActivations s aid = None"
  defines "a \<equiv> new_activation projectID playbookID userID '''' now"
  shows "fst (CreatePlaybookActivation (Some a) now aid s) = Inr (new_activation projectID playbookID userID aid now)"
    and "activationsByProject (snd (CreatePlaybookActivation (Some a) now aid s)) =
      (activationsByProject s)(projectID := [new_activation projectID playbookID userID aid now])"
    and "variableBindings (snd (CreatePlaybookActivation (Some a) now aid s)) = variableBindings s"
    and "bindingsByActivation (snd (CreatePlaybookActivation (Some a) now aid s)) = bindingsByActivation s"
    and "playbooks (snd (CreatePlaybookActivation (Some a) now aid s)) = playbooks s"
    and "recipe_reachable (snd (CreatePlaybookActivation (Some a) now aid s))"
proof -
  have d: "activation_defaults a now aid = new_activation projectID playbookID userID aid now"
    by (simp add: a_def new_activation_def activation_defaults_def Let_def)
  have p: "act_ProjectID a = projectID" by (simp add: a_def new_activation_def)
  show "fst (CreatePlaybookActivation (Some a) now aid s) = Inr (new_activation projectID playbookID userID aid now)"
    "activationsByProject (snd (CreatePlaybookActivation (Some a) now aid s)) =
      (activationsByProject s)(projectID := [new_activation projectID playbookID userID aid now])"
    "variableBindings (snd (CreatePlaybookActivation (Some a) now aid s)) = variableBindings s"
    "bindingsByActivation (snd (CreatePlaybookActivation (Some a) now aid s)) = bindingsByActivation s"
    "playbooks (snd (CreatePlaybookActivation (Some a) now aid s)) = playbooks s"
    using none p by (simp_all add: CreatePlaybookActivation_def Let_def d new_activation_def)
  show "recipe_reachable (snd (CreatePlaybookActivation (Some a) now aid s))"
    by (rule reach_step [OF re create_activation]) (use fresh in \<open>simp add: a_def new_activation_def\<close>)
qed

lemma Activate_accepted:
  fixes projectID playbookID aid :: string and userID :: "string option" and now :: time
    and names :: "string list" and bid :: "string \<Rightarrow> string"
  assumes "activation_checks playbookID bindings reqs ks s"
    and "fst (drop_activation projectID now s) = Inr ()"
    and "fst (CreatePlaybookActivation (Some (new_activation projectID playbookID userID '''' now)) now aid
           (snd (drop_activation projectID now s))) = Inr a"
  defines "t \<equiv> create_bindings (act_ID a) bindings bid now names
    (snd (CreatePlaybookActivation (Some (new_activation projectID playbookID userID '''' now)) now aid
           (snd (drop_activation projectID now s))))"
  shows "fst t = None \<Longrightarrow>
    Activate projectID playbookID bindings userID reqs ks names aid bid now s = (Inr a, snd t)"
proof -
  assume t: "fst t = None"
  obtain playbook where pb: "playbooks s playbookID = Some playbook"
    "validateBindings playbook bindings reqs ks s = None" "checkRawApprovals (elems (pb_Steps playbook)) s = None"
    using assms(1) by (auto simp: activation_checks_def)
  obtain s1 where s1: "drop_activation projectID now s = (Inr (), s1)"
    using assms(2) by (cases "drop_activation projectID now s") simp
  obtain s2 where s2: "CreatePlaybookActivation (Some (new_activation projectID playbookID userID '''' now)) now aid s1 = (Inr a, s2)"
    using assms(3) s1
    by (cases "CreatePlaybookActivation (Some (new_activation projectID playbookID userID '''' now)) now aid s1") simp
  obtain s3 where s3: "create_bindings (act_ID a) bindings bid now names s2 = (None, s3)"
    using t s1 s2 by (cases "create_bindings (act_ID a) bindings bid now names s2") (simp add: t_def)
  have "t = (None, s3)" by (simp add: t_def s1 s2 s3)
  then show ?thesis
    unfolding Activate_def new_activation_def [symmetric] drop_activation_def [symmetric]
    by (simp add: GetPlaybookByID_def pb s1 s2 s3 Let_def)
qed

lemma Activate_effect:
  fixes projectID playbookID aid :: string and userID :: "string option" and now :: time
    and reqs ks names :: "string list" and bid :: "string \<Rightarrow> string"
  assumes "recipe_reachable s" and "playbookActivations s aid = None" and "bindingsByActivation s aid = []"
    and "fresh_ids bindings names bid s"
  defines "res \<equiv> Activate projectID playbookID bindings userID reqs ks names aid bid now s"
    and "a \<equiv> new_activation projectID playbookID userID aid now"
  shows "if activation_checks playbookID bindings reqs ks s
     then fst res = Inr a \<and>
       GetActive projectID (snd res) =
         Inr (a\<lparr>act_Bindings := map (\<lambda>n. stored_binding aid bid n (the (bindings n))) names\<rparr>) \<and>
       (\<forall>p. p \<noteq> projectID \<longrightarrow> GetPlaybookActivation p (snd res) = GetPlaybookActivation p s) \<and>
       playbooks (snd res) = playbooks s \<and> recipe_reachable (snd res)
     else \<exists>e. res = (Inl e, s)"
proof (cases "activation_checks playbookID bindings reqs ks s")
  case True
  let ?s1 = "snd (drop_activation projectID now s)"
  let ?s2 = "snd (CreatePlaybookActivation (Some (new_activation projectID playbookID userID '''' now)) now aid ?s1)"
  note d = drop_activation_effect [OF assms(1), where projectID = projectID and now = now]
  have none1: "activationsByProject ?s1 projectID = []" by (simp add: d)
  note c = CreatePlaybookActivation_effect [OF d(7) none1 d(3) [OF assms(2)], where playbookID = playbookID and userID = userID and now = now]
  have names: "distinct names" "inj_on bid (set names)" "set names \<subseteq> dom bindings"
    and "\<And>n. n \<in> set names \<Longrightarrow> variableBindings ?s2 (bid n) = None"
    using assms(4) d(4) c(3) by (auto simp: fresh_ids_def enumerates_def)
  note b = create_bindings_effect [OF this c(6), of aid now]
  have id: "act_ID a = aid" by (simp add: a_def new_activation_def)
  have res: "res = (Inr a, snd (create_bindings (act_ID a) bindings bid now names ?s2))"
    unfolding res_def a_def
    by (rule Activate_accepted [OF True d(1) c(1)]) (use b id in \<open>simp add: a_def\<close>)
  have "GetPlaybookActivation p (snd res) = GetPlaybookActivation p s" if "p \<noteq> projectID" for p
    using that b c(2) d(2) by (simp add: res id GetPlaybookActivation_def)
  moreover have "GetActive projectID (snd res) =
      Inr (a\<lparr>act_Bindings := map (\<lambda>n. stored_binding aid bid n (the (bindings n))) names\<rparr>)"
    using b c(2,4) d(5) assms(3)
    by (simp add: res id GetActive_def GetPlaybookActivation_def GetVariableBindings_def a_def [symmetric])
  ultimately show ?thesis using True b c(5) d(6) by (simp add: res id)
next
  case False
  then show ?thesis unfolding res_def if_not_P [OF False] by (rule Activate_refused)
qed

section \<open>When an activation is allowed\<close>

definition valid_source :: "VariableBinding \<Rightarrow> bool" where
  "valid_source b \<longleftrightarrow> bind_SourceType b = SourceTypeLiteral \<or>
     (bind_SourceType b = SourceTypeEnv \<or> bind_SourceType b = SourceTypeSecret) \<and> bind_SourceRef b \<noteq> ''''"

text \<open>The playbook exists, every variable a component requires is bound, every binding has a valid source,
  and every raw component that a step refers to is approved.\<close>

definition activation_allowed :: "string \<Rightarrow> (string \<rightharpoonup> VariableBinding) \<Rightarrow> RecipeStore \<Rightarrow> bool" where
  "activation_allowed playbookID bindings s \<longleftrightarrow>
     (\<exists>playbook. playbooks s playbookID = Some playbook \<and> required_names playbook s \<subseteq> dom bindings \<and>
        (\<forall>b \<in> ran bindings. valid_source b) \<and>
        (\<forall>step \<in> set (elems (pb_Steps playbook)). \<forall>c. step_component s step = Some c \<longrightarrow> rc_IsRaw c \<longrightarrow>
           (\<exists>a. GetRawApproval (rc_ID c) s = Inr a)))"

text \<open>The loops over the required names and over the bindings visit all of them.\<close>

definition orders_ok :: "string \<Rightarrow> (string \<rightharpoonup> VariableBinding) \<Rightarrow> string list \<Rightarrow> string list \<Rightarrow> RecipeStore \<Rightarrow> bool" where
  "orders_ok playbookID bindings reqs ks s \<longleftrightarrow>
     enumerates ks bindings \<and> (\<forall>p. playbooks s playbookID = Some p \<longrightarrow> set reqs = required_names p s)"

lemma bad_source_None: "bad_source n b = None \<longleftrightarrow> valid_source b"
  by (auto simp: valid_source_def)

lemma map_filter_Nil: "List.map_filter f xs = [] \<longleftrightarrow> (\<forall>x \<in> set xs. f x = None)"
  by (auto simp: map_filter_def filter_empty_conv)

lemma validateBindings_None:
  assumes "set reqs = required_names playbook s" and "enumerates ks bindings"
  shows "validateBindings playbook bindings reqs ks s = None \<longleftrightarrow>
     required_names playbook s \<subseteq> dom bindings \<and> (\<forall>b \<in> ran bindings. valid_source b)"
proof -
  have "validateBindings playbook bindings reqs ks s = None \<longleftrightarrow>
      (\<forall>n \<in> set reqs. bindings n \<noteq> None) \<and> (\<forall>n \<in> set ks. Option.bind (bindings n) (bad_source n) = None)"
    unfolding map_filter_Nil [symmetric]
    by (auto simp: validateBindings_def find_None_iff find_Some_iff split: option.splits list.splits)
  also have "(\<forall>n \<in> set ks. Option.bind (bindings n) (bad_source n) = None) \<longleftrightarrow> (\<forall>b \<in> ran bindings. valid_source b)"
    using assms(2)
    by (auto simp: enumerates_def ran_def bind_eq_None_conv bad_source_None dom_def simp del: bad_source.simps)
  finally show ?thesis using assms(1) by auto
qed

lemma checkRawApprovals_None:
  "checkRawApprovals steps s = None \<longleftrightarrow>
     (\<forall>step \<in> set steps. \<forall>c. step_component s step = Some c \<longrightarrow> rc_IsRaw c \<longrightarrow> (\<exists>a. GetRawApproval (rc_ID c) s = Inr a))"
  by (induction steps) (auto split: option.splits sum.splits)

lemma activation_checks_iff:
  assumes "orders_ok playbookID bindings reqs ks s"
  shows "activation_checks playbookID bindings reqs ks s \<longleftrightarrow> activation_allowed playbookID bindings s"
proof (cases "playbooks s playbookID")
  case (Some playbook)
  with assms validateBindings_None [of reqs playbook s ks bindings]
  show ?thesis by (simp add: orders_ok_def activation_checks_def activation_allowed_def checkRawApprovals_None)
qed (simp add: activation_checks_def activation_allowed_def)


section \<open>From bindings to values\<close>

definition source_value :: "(string \<Rightarrow> string) \<Rightarrow> (string \<Rightarrow> string) \<Rightarrow> VariableBinding \<Rightarrow> string" where
  "source_value env sec b =
     (if bind_SourceType b = SourceTypeLiteral then bind_LiteralValue b
      else if bind_SourceType b = SourceTypeEnv then env (bind_SourceRef b) else sec (bind_SourceRef b))"

lemma GetActive_bindings: "GetActive p s = Inr a \<Longrightarrow> GetVariableBindings (act_ID a) s = act_Bindings a"
  by (auto simp: GetActive_def split: sum.splits)

lemma validateBindings_valid:
  assumes "validateBindings playbook bindings reqs ks s = None" and "enumerates ks bindings" and "bindings n = Some b"
  shows "bind_SourceType b \<in> set ValidSourceTypes"
proof -
  have "List.map_filter (\<lambda>name. Option.bind (bindings name) (bad_source name)) ks = []"
    using assms(1) by (auto simp: validateBindings_def split: option.splits list.splits)
  then have "\<forall>n \<in> set ks. Option.bind (bindings n) (bad_source n) = None"
    by (auto simp: map_filter_def filter_empty_conv)
  moreover have "n \<in> set ks" using assms(2,3) by (auto simp: enumerates_def)
  ultimately have "bad_source n b = None" using assms(3) by fastforce
  then show ?thesis by (auto simp: ValidSourceTypes_def split: if_splits)
qed

lemma resolve_bindings_values:
  assumes "\<And>n. n \<in> set names \<Longrightarrow> bind_SourceType (the (bindings n)) \<in> set ValidSourceTypes"
  shows "resolve_bindings (Some env) (Some (\<lambda>r. Inr (sec r)))
      (map (\<lambda>n. stored_binding aid bid n (the (bindings n))) names) m =
    Inr (\<lambda>n. if n \<in> set names then Some (source_value env sec (the (bindings n))) else m n)"
  using assms
proof (induction names arbitrary: m)
  case (Cons n names)
  have "bind_SourceType (the (bindings n)) \<in> set ValidSourceTypes" using Cons.prems by simp
  then have "resolve_bindings (Some env) (Some (\<lambda>r. Inr (sec r)))
      (map (\<lambda>n. stored_binding aid bid n (the (bindings n))) (n # names)) m =
     resolve_bindings (Some env) (Some (\<lambda>r. Inr (sec r))) (map (\<lambda>n. stored_binding aid bid n (the (bindings n))) names)
      (m(n \<mapsto> source_value env sec (the (bindings n))))"
    by (auto simp: ValidSourceTypes_def stored_binding_def source_value_def)
  also have "\<dots> = Inr (\<lambda>x. if x \<in> set names then Some (source_value env sec (the (bindings x)))
      else (m(n \<mapsto> source_value env sec (the (bindings n)))) x)"
    using Cons.prems by (intro Cons.IH) simp
  finally show ?case by (auto simp: fun_eq_iff)
qed simp

text \<open>After an activation the variables resolve to exactly the bound values: a literal to itself, an
  environment or secret binding to what the getter returns for its reference, and no other variable is
  set.\<close>

theorem Activate_ResolveVariables:
  assumes "recipe_reachable s" and "playbookActivations s aid = None" and "bindingsByActivation s aid = []"
    and "fresh_ids bindings names bid s" and "orders_ok playbookID bindings reqs ks s"
    and "activation_allowed playbookID bindings s"
  shows "ResolveVariables aid (Some env) (Some (\<lambda>r. Inr (sec r)))
      (snd (Activate projectID playbookID bindings userID reqs ks names aid bid now s)) =
    Inr (\<lambda>n. map_option (source_value env sec) (bindings n))"
proof -
  note checks = iffD2 [OF activation_checks_iff [OF assms(5)] assms(6)]
  let ?s' = "snd (Activate projectID playbookID bindings userID reqs ks names aid bid now s)"
  have "GetActive projectID ?s' = Inr ((new_activation projectID playbookID userID aid now)\<lparr>act_Bindings :=
      map (\<lambda>n. stored_binding aid bid n (the (bindings n))) names\<rparr>)"
    using Activate_effect [OF assms(1-4), of playbookID reqs ks projectID userID now] checks by simp
  from GetActive_bindings [OF this]
  have b: "GetVariableBindings aid ?s' = map (\<lambda>n. stored_binding aid bid n (the (bindings n))) names"
    by (simp add: new_activation_def)
  obtain playbook where "validateBindings playbook bindings reqs ks s = None"
    using checks by (auto simp: activation_checks_def)
  note v = validateBindings_valid [OF this conjunct1 [OF assms(5) [unfolded orders_ok_def]]]
  have dom: "set names = dom bindings" using assms(4) by (simp add: fresh_ids_def enumerates_def)
  then have "\<And>n. n \<in> set names \<Longrightarrow> bind_SourceType (the (bindings n)) \<in> set ValidSourceTypes" using v by fastforce
  from resolve_bindings_values [of names bindings env sec aid bid Map.empty, OF this] show ?thesis
    using dom by (auto simp: ResolveVariables_def b fun_eq_iff domIff)
qed

section \<open>An activated playbook\<close>

text \<open>The raw component of \<open>raw_store\<close>, approved, in a playbook that is activated for a project with the
  variable \<open>dir\<close> bound to a literal.\<close>

definition approved_store :: RecipeStore where
  "approved_store = snd (CreateRawApproval (Some (given_approval ''c1'' ''root'' ''ok'' 3 ''r1'')) 3 ''x'' book_store)"

definition wit_bindings :: "string \<rightharpoonup> VariableBinding" where
  "wit_bindings = [''dir'' \<mapsto> \<lparr>bind_SourceType = ''literal'', bind_SourceRef = '''', bind_LiteralValue = ''/tmp/x''\<rparr>]"

lemma approved_store_tables:
  "recipeComponentsByKey approved_store = [''user:wipe:v1.0.0'' \<mapsto> wit_raw]"
  "playbooks approved_store = [''p1'' \<mapsto> wit_playbook]" "playbookActivations approved_store = Map.empty"
  "activationsByProject approved_store = (\<lambda>_. [])" "variableBindings approved_store = Map.empty"
  "bindingsByActivation approved_store = (\<lambda>_. [])"
  "rawApprovalsByComponent approved_store = (\<lambda>_. [])(''c1'' := [given_approval ''c1'' ''root'' ''ok'' 3 ''r1''])"
proof -
  have "bindingsByActivation book_store = (\<lambda>_. [])"
    by (simp add: book_store_def wit_playbook_def CreatePlaybook_def playbook_defaults_def playbookKey_def raw_store_simps)
  then show "recipeComponentsByKey approved_store = [''user:wipe:v1.0.0'' \<mapsto> wit_raw]"
    "playbooks approved_store = [''p1'' \<mapsto> wit_playbook]" "playbookActivations approved_store = Map.empty"
    "activationsByProject approved_store = (\<lambda>_. [])" "variableBindings approved_store = Map.empty"
    "bindingsByActivation approved_store = (\<lambda>_. [])"
    "rawApprovalsByComponent approved_store = (\<lambda>_. [])(''c1'' := [given_approval ''c1'' ''root'' ''ok'' 3 ''r1''])"
    by (simp_all add: approved_store_def CreateRawApproval_def approval_defaults_def book_store_tables Let_def IsZero_def)
qed

lemma book_store_reachable: "recipe_reachable book_store"
  unfolding book_store_def
  by (rule reach_step [OF raw_store_reachable create_playbook]) (simp add: raw_store_simps)

lemma approved_store_reachable: "recipe_reachable approved_store"
  unfolding approved_store_def
  by (rule reach_step [OF book_store_reachable create_approval]) (simp add: book_store_tables)

lemma wit_steps: "elems (pb_Steps wit_playbook) = [\<lparr>step_Order = 1, step_ComponentRef = ''user:wipe:1.0.0'',
    step_VariableBindings = [], step_Condition = '''', step_Phase = ''pre_deploy''\<rparr>]"
  by (simp add: wit_playbook_def)

lemma wit_refs:
  "Split ''user:wipe:1.0.0'' CHR '':'' = [''user'', ''wipe'', ''1.0.0'']"
  "NormalizeSemver ''1.0.0'' = ''v1.0.0''"
  by (code_simp, code_simp)

text \<open>The reference is written without the v, so \<open>checkRawApprovals\<close>, which does not normalise it, does not
  see the component.\<close>

lemma wit_step_component: "recipeComponentsByKey s = [''user:wipe:v1.0.0'' \<mapsto> wit_raw] \<Longrightarrow>
    step_component s \<lparr>step_Order = 1, step_ComponentRef = ''user:wipe:1.0.0'',
      step_VariableBindings = [], step_Condition = '''', step_Phase = ''pre_deploy''\<rparr> = None"
  by (simp add: step_component_def ParseComponentRef_def SplitN_def wit_refs GetRecipeComponent_def recipeComponentKey_def)

lemma wit_Component_Get: "recipeComponentsByKey s = [''user:wipe:v1.0.0'' \<mapsto> wit_raw] \<Longrightarrow>
    Component_Get ''user'' ''wipe'' ''1.0.0'' s = Inr wit_raw"
  by (simp add: Component_Get_def wit_refs GetRecipeComponent_def recipeComponentKey_def)

lemma wit_allowed:
  assumes "recipeComponentsByKey s = [''user:wipe:v1.0.0'' \<mapsto> wit_raw]" and "playbooks s = [''p1'' \<mapsto> wit_playbook]"
  shows "activation_checks ''p1'' wit_bindings [] [''dir''] s"
  by (simp add: activation_checks_def assms validateBindings_def map_filter_def wit_bindings_def wit_steps
      wit_step_component [OF assms(1)])

lemma wit_orders:
  assumes "recipeComponentsByKey s = [''user:wipe:v1.0.0'' \<mapsto> wit_raw]" and "playbooks s = [''p1'' \<mapsto> wit_playbook]"
  shows "orders_ok ''p1'' wit_bindings [] [''dir''] s"
  by (simp add: orders_ok_def assms required_names_def wit_steps wit_step_component [OF assms(1)] wit_bindings_def
      enumerates_def)

definition wit_bid :: "string \<Rightarrow> string" where "wit_bid n = ''b'' @ n"

lemma wit_fresh: "variableBindings s = Map.empty \<Longrightarrow> fresh_ids wit_bindings [''dir''] wit_bid s"
  by (simp add: fresh_ids_def wit_bindings_def enumerates_def)

abbreviation activate_wit :: "RecipeStore \<Rightarrow> PlaybookActivation svc_result \<times> RecipeStore" where
  "activate_wit \<equiv> Activate ''shop'' ''p1'' wit_bindings None [] [''dir''] [''dir''] ''a1'' wit_bid 5"


theorem Activate_ResolveVariables_witness:
  "ResolveVariables ''a1'' (Some (\<lambda>_. '''')) (Some (\<lambda>r. Inr r)) (snd (activate_wit approved_store)) =
     Inr [''dir'' \<mapsto> ''/tmp/x'']"
proof -
  have none: "playbookActivations approved_store ''a1'' = None" "bindingsByActivation approved_store ''a1'' = []"
    by (simp_all add: approved_store_tables)
  note o = wit_orders [OF approved_store_tables(1,2)]
  note a = iffD1 [OF activation_checks_iff [OF o] wit_allowed [OF approved_store_tables(1,2)]]
  have "ResolveVariables ''a1'' (Some (\<lambda>_. '''')) (Some (\<lambda>r. Inr r)) (snd (activate_wit approved_store)) =
      Inr (\<lambda>n. map_option (source_value (\<lambda>_. '''') (\<lambda>r. r)) (wit_bindings n))"
    by (rule Activate_ResolveVariables [OF approved_store_reachable none wit_fresh [OF approved_store_tables(5)] o a])
  then show ?thesis by (simp add: wit_bindings_def source_value_def fun_eq_iff)
qed

text \<open>The same activation succeeds while the raw component has no approval.\<close>

lemma Activate_overlooks_unapproved:
  "RequiresApproval ''c1'' book_store = Inr True \<and>
   fst (activate_wit book_store) = Inr (new_activation ''shop'' ''p1'' None ''a1'' 5)"
proof -
  have "bindingsByActivation book_store ''a1'' = []"
    by (simp add: book_store_def wit_playbook_def CreatePlaybook_def playbook_defaults_def playbookKey_def raw_store_simps)
  from Activate_effect [OF book_store_reachable _ this wit_fresh [OF book_store_tables(7)],
      of "''p1''" "[]" "[''dir'']" "''shop''" None 5]
  show ?thesis using wit_allowed [OF book_store_tables(2,3)]
    by (simp add: book_store_tables RequiresApproval_iff raw_component_def wit_raw_def)
qed

definition run_store :: RecipeStore where
  "run_store = snd (CreatePlaybookActivation (Some wit_activation) 5 ''x'' approved_store)"

lemma run_store_tables:
  "recipeComponentsByKey run_store = [''user:wipe:v1.0.0'' \<mapsto> wit_raw]"
  "playbooks run_store = [''p1'' \<mapsto> wit_playbook]"
  "activationsByProject run_store = (\<lambda>_. [])(''shop'' := [wit_activation])"
  "bindingsByActivation run_store = (\<lambda>_. [])"
  "rawApprovalsByComponent run_store = (\<lambda>_. [])(''c1'' := [given_approval ''c1'' ''root'' ''ok'' 3 ''r1''])"
  by (simp_all add: run_store_def CreatePlaybookActivation_def activation_defaults_def wit_activation_def
      approved_store_tables Let_def IsZero_def)

lemma run_store_active: "GetActiveWithPlaybook ''shop'' run_store = Inr (wit_activation, wit_playbook)"
  by (simp add: GetActiveWithPlaybook_def GetActive_def GetPlaybookActivation_def GetVariableBindings_def
      GetPlaybookByID_def run_store_tables wit_activation_def)

definition run_step :: ResolvedStep where
  "run_step = \<lparr>rs_Order = 1, rs_Phase = ''pre_deploy'', rs_ComponentRef = ''user:wipe:1.0.0'', rs_ComponentName = ''Wipe'',
     rs_ComponentType = ''command'', rs_IsRaw = True, rs_Content = ''rm -rf {{dir}}'', rs_Variables = Map.empty,
     rs_Condition = '''', rs_TargetPath = '''', rs_TemplateSource = ''''\<rparr>"

lemma run_store_resolves:
  "\<exists>rp. Resolve ''shop'' None None (\<lambda>_ _. []) run_store = Inr rp \<and> rp_PreDeploySteps rp = [run_step] \<and>
     run_step \<in> set (all_steps rp)"
proof -
  have "resolveStep \<lparr>step_Order = 1, step_ComponentRef = ''user:wipe:1.0.0'', step_VariableBindings = [],
      step_Condition = '''', step_Phase = ''pre_deploy''\<rparr> Map.empty (\<lambda>_. []) run_store = Inr run_step"
    by (simp add: resolveStep_def wit_refs wit_Component_Get [OF run_store_tables(1)] Let_def run_step_def
        substitute_all_def wit_raw_def empty_content_def)
  then show ?thesis
    by (simp add: Resolve_def run_store_active ResolveVariables_def GetVariableBindings_def run_store_tables
        wit_steps add_step_def all_steps_def wit_activation_def)
qed

lemma run_store_valid: "ValidateForDeployment ''shop'' run_store = Inr ()"
  by (simp add: ValidateForDeployment_def GetActive_def GetPlaybookActivation_def GetPlaybookByID_def run_store_tables
      wit_activation_def wit_steps wit_refs wit_Component_Get [OF run_store_tables(1)] GetRawApproval_def)
    (simp add: wit_raw_def)


theorem Resolve_keeps_step_order_witness:
  "\<exists>rp. Resolve ''shop'' None None (\<lambda>_ _. []) run_store = Inr rp \<and>
     map rs_ComponentRef (rp_PreDeploySteps rp) = [''user:wipe:1.0.0''] \<and> rp_DeploySteps rp = []"
proof -
  obtain rp where rp: "Resolve ''shop'' None None (\<lambda>_ _. []) run_store = Inr rp" using run_store_resolves by blast
  from Resolve_keeps_step_order [OF rp] show ?thesis
    using rp run_store_active by (auto simp: Let_def wit_steps)
qed

end
