(* ===== verification/Recipe_Persist.thy ===== *)
theory Recipe_Persist
  imports Recipe_Deploy Write_Behind
begin

text \<open>
  The recipe tables between start-up and disk: the seed loader that runs when the server starts
  (\<open>internal/storage/seeds/loader.go\<close>), and what the persistence layer does with the writes the recipe
  operations queue. The built-in seeds (\<open>SeedComponents\<close>, \<open>SeedPlaybooks\<close>, \<open>SeedProjectTypes\<close>) are arguments.
\<close>

section \<open>Seeds\<close>

record SeedComponent =
  sc_Slug :: string
  sc_Version :: string
  sc_Name :: string
  sc_Description :: string
  sc_Type :: string
  sc_Content :: ComponentContent
  sc_Variables :: "VariableDefinition slice"

record SeedPlaybook =
  sp_Slug :: string
  sp_Version :: string
  sp_Name :: string
  sp_Description :: string
  sp_FrameworkType :: string
  sp_Steps :: "PlaybookStep slice"
  sp_SharedDirs :: "string slice"
  sp_SharedFiles :: "string slice"
  sp_WritableDirs :: "string slice"
  sp_KeepReleases :: int

record SeedProjectType =
  st_Name :: string
  st_Description :: string
  st_BuildCmd :: string

abbreviation DefaultKeepReleases :: int where "DefaultKeepReleases \<equiv> 5"

text \<open>\<open>getC\<close>, \<open>getP\<close>: the lookup of the store the loader was given; \<open>Inr None\<close> is a nil entry without an error.
  \<open>xid\<close> is the identifier made for a new entry, \<open>ks\<close> an order in which the project types are visited.\<close>

definition loadComponent ::
  "(string \<Rightarrow> string \<Rightarrow> string \<Rightarrow> RecipeStore \<Rightarrow> RecipeComponent option result) \<Rightarrow>
   SeedComponent \<Rightarrow> time \<Rightarrow> string \<Rightarrow> RecipeStore \<Rightarrow> unit svc_result \<times> RecipeStore" where
  "loadComponent getC sc now xid s =
     (case getC NamespaceSeed (sc_Slug sc) (sc_Version sc) s of
        Inl e \<Rightarrow> (Inl (wrapped ''check existing component: %w'' e), s)
      | Inr (Some existing) \<Rightarrow> (Inr (), s)
      | Inr None \<Rightarrow>
          (let component = \<lparr>rc_ID = '''', rc_Namespace = NamespaceSeed, rc_Slug = sc_Slug sc,
                 rc_Version = sc_Version sc, rc_Name = sc_Name sc, rc_Description = sc_Description sc,
                 rc_ComponentType = sc_Type sc, rc_Content = sc_Content sc, rc_Variables = sc_Variables sc,
                 rc_IsSeed = True, rc_IsRaw = False, rc_IsDeprecated = False, rc_CreatedAt = now\<rparr>
           in case CreateRecipeComponent (Some component) now xid s of
                (Inl e, s) \<Rightarrow> (Inl (wrapped ''create component: %w'' e), s)
              | (Inr _, s) \<Rightarrow> (Inr (), s)))"

definition loadPlaybook ::
  "(string \<Rightarrow> string \<Rightarrow> string \<Rightarrow> RecipeStore \<Rightarrow> Playbook option result) \<Rightarrow>
   SeedPlaybook \<Rightarrow> time \<Rightarrow> string \<Rightarrow> RecipeStore \<Rightarrow> unit svc_result \<times> RecipeStore" where
  "loadPlaybook getP sp now xid s =
     (case getP NamespaceSeed (sp_Slug sp) (sp_Version sp) s of
        Inl e \<Rightarrow> (Inl (wrapped ''check existing playbook: %w'' e), s)
      | Inr (Some existing) \<Rightarrow> (Inr (), s)
      | Inr None \<Rightarrow>
          (let keepReleases = (if sp_KeepReleases sp = 0 then DefaultKeepReleases else sp_KeepReleases sp);
               playbook = \<lparr>pb_ID = '''', pb_Namespace = NamespaceSeed, pb_Slug = sp_Slug sp,
                 pb_Version = sp_Version sp, pb_Name = sp_Name sp, pb_Description = sp_Description sp,
                 pb_FrameworkType = sp_FrameworkType sp, pb_Steps = sp_Steps sp, pb_SharedDirs = sp_SharedDirs sp,
                 pb_SharedFiles = sp_SharedFiles sp, pb_WritableDirs = sp_WritableDirs sp,
                 pb_KeepReleases = keepReleases, pb_ValidationRules = None, pb_IsSeed = True, pb_IsDeprecated = False,
                 pb_ParentID = None, pb_ParentVersion = '''', pb_CreatedAt = now\<rparr>
           in case CreatePlaybook (Some playbook) now xid s of
                (Inl e, s) \<Rightarrow> (Inl (wrapped ''create playbook: %w'' e), s)
              | (Inr _, s) \<Rightarrow> (Inr (), s)))"

definition loadProjectType ::
  "SeedProjectType \<Rightarrow> time \<Rightarrow> string \<Rightarrow> string list \<Rightarrow> string list \<Rightarrow> RecipeStore \<Rightarrow> unit svc_result \<times> RecipeStore" where
  "loadProjectType st now xid ks ks' s =
     (case GetProjectTypeByName (st_Name st) ks (MemoryStore.truncate s) of
        Inr existing \<Rightarrow> (Inr (), s)
      | Inl _ \<Rightarrow>
          (let pt = \<lparr>ptype_ID = '''', ptype_Name = st_Name st, ptype_Description = st_Description st,
                     ptype_BuildCmd = st_BuildCmd st, ptype_ProjectCount = 0, ptype_CreatedAt = now\<rparr>
           in case on_memory (CreateProjectType pt now xid ks') s of
                (Inl e, s) \<Rightarrow> (Inl (wrapped ''create project type: %w'' e), s)
              | (Inr _, s) \<Rightarrow> (Inr (), s)))"

text \<open>A loop that loads each item in turn and stops at the first error, naming the item.\<close>

fun load_each ::
  "('a \<Rightarrow> RecipeStore \<Rightarrow> unit svc_result \<times> RecipeStore) \<Rightarrow> ('a \<Rightarrow> svc_error \<Rightarrow> svc_error) \<Rightarrow> 'a list \<Rightarrow>
   RecipeStore \<Rightarrow> unit svc_result \<times> RecipeStore" where
  "load_each f err [] s = (Inr (), s)"
| "load_each f err (x # xs) s =
     (case f x s of (Inl e, s) \<Rightarrow> (Inl (err x e), s) | (Inr _, s) \<Rightarrow> load_each f err xs s)"

text \<open>\<open>idc\<close>, \<open>idp\<close>, \<open>idt\<close>: the identifiers made for the items; \<open>ord\<close>: the orders of the project types.\<close>

definition LoadSeeds ::
  "(string \<Rightarrow> string \<Rightarrow> string \<Rightarrow> RecipeStore \<Rightarrow> RecipeComponent option result) \<Rightarrow>
   (string \<Rightarrow> string \<Rightarrow> string \<Rightarrow> RecipeStore \<Rightarrow> Playbook option result) \<Rightarrow>
   SeedComponent list \<Rightarrow> SeedPlaybook list \<Rightarrow> SeedProjectType list \<Rightarrow>
   (SeedComponent \<Rightarrow> string) \<Rightarrow> (SeedPlaybook \<Rightarrow> string) \<Rightarrow> (SeedProjectType \<Rightarrow> string) \<Rightarrow>
   (RecipeStore \<Rightarrow> string list) \<Rightarrow> time \<Rightarrow> RecipeStore \<Rightarrow> unit svc_result \<times> RecipeStore" where
  "LoadSeeds getC getP comps books types idc idp idt ord now s =
     (if \<not> (0 < length comps \<or> 0 < length books \<or> 0 < length types) then (Inr (), s)
      else
        (case load_each (\<lambda>sc. loadComponent getC sc now (idc sc))
                (\<lambda>sc e. Errorf ''failed to load component %s:%s: %w'' [sc_Slug sc, sc_Version sc] (Some e)) comps s of
           (Inl e, s) \<Rightarrow> (Inl e, s)
         | (Inr _, s) \<Rightarrow>
             (case load_each (\<lambda>sp. loadPlaybook getP sp now (idp sp))
                     (\<lambda>sp e. Errorf ''failed to load playbook %s:%s: %w'' [sp_Slug sp, sp_Version sp] (Some e)) books s of
                (Inl e, s) \<Rightarrow> (Inl e, s)
              | (Inr _, s) \<Rightarrow>
                  load_each (\<lambda>st s. loadProjectType st now (idt st) (ord s) (ord s) s)
                    (\<lambda>st e. Errorf ''failed to load project type %s: %w'' [st_Name st] (Some e)) types s)))"

text \<open>The lookups of the in-memory store, which report a missing entry as an error.\<close>

definition memory_component ::
  "string \<Rightarrow> string \<Rightarrow> string \<Rightarrow> RecipeStore \<Rightarrow> RecipeComponent option result" where
  "memory_component ns slug v s = map_sum (\<lambda>e. e) Some (GetRecipeComponent ns slug v s)"

definition memory_playbook :: "string \<Rightarrow> string \<Rightarrow> string \<Rightarrow> RecipeStore \<Rightarrow> Playbook option result" where
  "memory_playbook ns slug v s = map_sum (\<lambda>e. e) Some (GetPlaybook ns slug v s)"

lemma loadComponent_memory:
  "loadComponent memory_component sc now xid s =
     (case GetRecipeComponent NamespaceSeed (sc_Slug sc) (sc_Version sc) s of
        Inl e \<Rightarrow> (Inl (wrapped ''check existing component: %w'' e), s) | Inr _ \<Rightarrow> (Inr (), s))"
  by (simp add: loadComponent_def memory_component_def split: sum.split)

lemma loadPlaybook_memory:
  "loadPlaybook memory_playbook sp now xid s =
     (case GetPlaybook NamespaceSeed (sp_Slug sp) (sp_Version sp) s of
        Inl e \<Rightarrow> (Inl (wrapped ''check existing playbook: %w'' e), s) | Inr _ \<Rightarrow> (Inr (), s))"
  by (simp add: loadPlaybook_def memory_playbook_def split: sum.split)

lemma load_each_stuck:
  assumes "\<And>x. snd (f x s) = s"
  shows "load_each f err xs s = (case find (\<lambda>x. \<exists>e. fst (f x s) = Inl e) xs of
     None \<Rightarrow> (Inr (), s) | Some x \<Rightarrow> (case fst (f x s) of Inl e \<Rightarrow> (Inl (err x e), s) | Inr _ \<Rightarrow> (Inr (), s)))"
proof (induction xs)
  case (Cons x xs)
  obtain r where r: "f x s = (r, s)" using assms [of x] by (metis prod.collapse)
  then show ?case using Cons by (cases r) simp_all
qed simp

text \<open>Started on the in-memory store, the seed loader adds no component and no playbook: while some
  seed component is missing it stops at the first missing one with an error and the store is unchanged, so
  neither playbooks nor project types are loaded.\<close>

theorem LoadSeeds_memory_adds_nothing:
  assumes "\<exists>sc \<in> set comps. GetRecipeComponent NamespaceSeed (sc_Slug sc) (sc_Version sc) s = Inl ErrNotFound"
  shows "\<exists>sc \<in> set comps. GetRecipeComponent NamespaceSeed (sc_Slug sc) (sc_Version sc) s = Inl ErrNotFound \<and>
     LoadSeeds memory_component memory_playbook comps books types idc idp idt ord now s =
       (Inl (Errorf ''failed to load component %s:%s: %w'' [sc_Slug sc, sc_Version sc]
          (Some (wrapped ''check existing component: %w'' ErrNotFound))), s)"
proof -
  let ?f = "\<lambda>sc. loadComponent memory_component sc now (idc sc)"
  let ?err = "\<lambda>sc e. Errorf ''failed to load component %s:%s: %w'' [sc_Slug sc, sc_Version sc] (Some e)"
  let ?P = "\<lambda>sc. GetRecipeComponent NamespaceSeed (sc_Slug sc) (sc_Version sc) s = Inl ErrNotFound"
  have P: "(\<exists>e. fst (?f sc s) = Inl e) \<longleftrightarrow> ?P sc" for sc
    by (simp add: loadComponent_memory GetRecipeComponent_def split: option.split)
  have stuck: "snd (?f sc s) = s" for sc by (simp add: loadComponent_memory split: sum.split)
  from assms obtain sc where find: "find ?P comps = Some sc"
    by (cases "find ?P comps") (auto simp: find_None_iff)
  then have sc: "sc \<in> set comps" "?P sc" by (auto simp: find_Some_iff)
  have "load_each ?f ?err comps s = (Inl (?err sc (wrapped ''check existing component: %w'' ErrNotFound)), s)"
    using load_each_stuck [of ?f s ?err comps, OF stuck] sc(2)
    by (simp add: P find) (simp add: loadComponent_memory)
  moreover have "comps \<noteq> []" using sc(1) by auto
  ultimately have "LoadSeeds memory_component memory_playbook comps books types idc idp idt ord now s =
      (Inl (?err sc (wrapped ''check existing component: %w'' ErrNotFound)), s)"
    by (simp add: LoadSeeds_def)
  with sc show ?thesis by blast
qed

definition wit_seed :: SeedComponent where
  "wit_seed = \<lparr>sc_Slug = ''symlink-shared'', sc_Version = ''v1.0.0'', sc_Name = ''Symlink Shared Directories'',
     sc_Description = '''', sc_Type = ''command'', sc_Content = empty_content, sc_Variables = None\<rparr>"

theorem LoadSeeds_memory_adds_nothing_witness:
  "snd (LoadSeeds memory_component memory_playbook [wit_seed] [] [] (\<lambda>_. ''i'') (\<lambda>_. ''i'') (\<lambda>_. ''i'') (\<lambda>_. []) 1
     NewRecipeStore) = NewRecipeStore"
proof -
  have "\<exists>sc \<in> set [wit_seed]. GetRecipeComponent NamespaceSeed (sc_Slug sc) (sc_Version sc) NewRecipeStore = Inl ErrNotFound"
    by (simp add: GetRecipeComponent_def NewRecipeStore_def MemoryStore.extend_def)
  from LoadSeeds_memory_adds_nothing [OF this, of "[]" "[]" "\<lambda>_. ''i''" "\<lambda>_. ''i''" "\<lambda>_. ''i''" "\<lambda>_. []" 1]
  show ?thesis by auto
qed

section \<open>Persistence of recipes\<close>

lemma recipe_delete_rejected:
  "rejected (NewWriteOp WriteOpDelete ''recipe_components'' (StringData i) now)"
  "rejected (NewWriteOp WriteOpDelete ''playbooks'' (StringData i) now)"
  "rejected (NewWriteOp WriteOpDelete ''playbook_activations'' (StringData i) now)"
  "rejected (NewWriteOp WriteOpDelete ''playbook_variable_bindings'' (StringData i) now)"
  "rejected (NewWriteOp WriteOpDelete ''raw_command_approvals'' (StringData i) now)"
  by (simp_all add: rejected_def executeWriteOp_def NewWriteOp_def executeRecipeComponentOp_def executePlaybookOp_def
      executePlaybookActivationOp_def executeVariableBindingOp_def executeRawApprovalOp_def as_int64_def)

text \<open>Deleting a component, a playbook, an activation, a binding or an approval queues an operation
  the persistence layer refuses: no flush of a batch that contains it has any effect on the database, so
  the deleted entry is there again after a restart.\<close>

theorem recipe_deletions_discard_batch:
  assumes "(recipeComponents s i \<noteq> None \<and> op = last (coreWrites (snd (DeleteRecipeComponent i now s)))) \<or>
     (playbooks s i \<noteq> None \<and> op = last (coreWrites (snd (DeletePlaybook i now s)))) \<or>
     (playbookActivations s i \<noteq> None \<and> op = last (coreWrites (snd (DeletePlaybookActivation i now s)))) \<or>
     (variableBindings s i \<noteq> None \<and> op = last (coreWrites (snd (DeleteVariableBinding i now s)))) \<or>
     (\<exists>a. rawApprovalsByComponent s i = [a] \<and> op = last (coreWrites (snd (DeleteRawApproval i now s))))"
    and "op \<in> set batch" and "FlushBatchFunc drv batch (tx_executor drv labelsJSON s') db = (n, err, db')"
  shows "err \<noteq> None \<and> db' = db"
proof -
  have "rejected op" using assms(1)
    by (elim disjE) (auto simp: DeleteRecipeComponent_def DeletePlaybook_def DeletePlaybookActivation_def
        DeleteVariableBinding_def DeleteRawApproval_def queueWrite_def Let_def intro: recipe_delete_rejected)
  from rejected_batch [OF assms(2) this assms(3)] show ?thesis .
qed

theorem recipe_deletions_discard_batch_witness:
  "snd (snd (FlushBatchFunc log_driver [user_op, last (coreWrites (snd (DeleteRecipeComponent ''c1'' 7 raw_store)))]
       (tx_executor log_driver (\<lambda>_. ''{}'') NewMemoryStore) [])) = []"
proof -
  let ?op = "last (coreWrites (snd (DeleteRecipeComponent ''c1'' 7 raw_store)))"
  let ?f = "FlushBatchFunc log_driver [user_op, ?op] (tx_executor log_driver (\<lambda>_. ''{}'') NewMemoryStore) []"
  have "?f = (fst ?f, fst (snd ?f), snd (snd ?f))" by simp
  from recipe_deletions_discard_batch [OF _ _ this, where s = raw_store and i = "''c1''" and now = 7 and op = ?op]
  show ?thesis by (simp add: raw_store_tables)
qed

text \<open>The writes of new and changed entries are accepted; the row carries the fields and the JSON texts.\<close>

lemma component_insert_row:
  "executeWriteOp lj ms (NewWriteOp WriteOpInsert ''recipe_components'' (component_data c) now) =
     Inr (Some (SqlInsert ''recipe_components''
       [(''id'', AnyString (rc_ID c)), (''namespace'', AnyString (rc_Namespace c)), (''slug'', AnyString (rc_Slug c)),
        (''version'', AnyString (rc_Version c)), (''name'', AnyString (rc_Name c)),
        (''description'', AnyString (rc_Description c)), (''component_type'', AnyString (rc_ComponentType c)),
        (''content'', AnyString (ContentJSON c)), (''variables'', AnyString (VariablesJSON c)),
        (''is_seed'', AnyBool (rc_IsSeed c)), (''is_raw'', AnyBool (rc_IsRaw c)),
        (''is_deprecated'', AnyBool (rc_IsDeprecated c)), (''created_at'', AnyTime (rc_CreatedAt c))]))"
  by (simp add: executeWriteOp_def NewWriteOp_def executeRecipeComponentOp_def component_data_def as_struct_def
      marshalled_def binds_def fld_def)

end
