(* ===== verification/Security_Model.thy ===== *)
theory Security_Model
  imports Store_Model Ref_Table
begin

text \<open>
  The security data of the store (\<open>internal/storage/models_security.go\<close>) and the fields of
  \<open>MemoryStore\<close> that hold it. Five classes have objects that are changed through their pointer
  (authorities, agent certificates, registration tokens, encryption keys, recovery codes): their tables
  are pointer tables, a map of references with its heap. The other classes are only replaced, so their
  tables hold values.
\<close>

section \<open>Data\<close>

abbreviation CAStatusActive :: string where "CAStatusActive \<equiv> ''active''"
abbreviation CAStatusInactive :: string where "CAStatusInactive \<equiv> ''inactive''"
abbreviation CertStatusActive :: string where "CertStatusActive \<equiv> ''active''"
abbreviation CertStatusExpired :: string where "CertStatusExpired \<equiv> ''expired''"
abbreviation CertStatusRevoked :: string where "CertStatusRevoked \<equiv> ''revoked''"
abbreviation KeyStatusPending :: string where "KeyStatusPending \<equiv> ''pending''"
abbreviation KeyStatusActive :: string where "KeyStatusActive \<equiv> ''active''"
abbreviation KeyStatusInactive :: string where "KeyStatusInactive \<equiv> ''inactive''"
abbreviation KeyStatusScheduled :: string where "KeyStatusScheduled \<equiv> ''scheduled''"
abbreviation KeyStatusDeleted :: string where "KeyStatusDeleted \<equiv> ''deleted''"

record CertificateAuthority =
  ca_ID :: string
  ca_Version :: int
  ca_CommonName :: string
  ca_CertificatePEM :: string
  ca_PrivateKeyEnc :: string
  ca_NotBefore :: time
  ca_NotAfter :: time
  ca_Status :: string
  ca_IsCurrent :: bool
  ca_CreatedAt :: time
  ca_RotatedAt :: "time option"

record AgentCertificate =
  acert_ID :: string
  acert_AgentID :: string
  acert_CAID :: string
  acert_SerialNumber :: string
  acert_CertificatePEM :: string
  acert_NotBefore :: time
  acert_NotAfter :: time
  acert_Status :: string
  acert_IssuedAt :: time
  acert_RenewedAt :: "time option"
  acert_RevokedAt :: "time option"
  acert_RevocationReason :: string

record ServerCertificate =
  scert_ID :: string
  scert_Hostname :: string
  scert_CertificatePEM :: string
  scert_PrivateKeyEnc :: string
  scert_SANs :: string
  scert_NotBefore :: time
  scert_NotAfter :: time
  scert_CAID :: string
  scert_CreatedAt :: time

record RegistrationToken =
  rt_ID :: string
  rt_Token :: string
  rt_AgentID :: string
  rt_ExpiresAt :: time
  rt_UsedAt :: "time option"
  rt_CreatedBy :: string
  rt_CreatedAt :: time

record SourceCredential =
  cred_ID :: string
  cred_Name :: string
  cred_Type :: string
  cred_URLPattern :: string
  cred_CredentialEnc :: string
  cred_CreatedBy :: string
  cred_CreatedAt :: time
  cred_UpdatedAt :: time

record RevokedCertificate =
  rev_ID :: string
  rev_SerialNumber :: string
  rev_AgentID :: string
  rev_Reason :: string
  rev_RevokedAt :: time
  rev_RevokedBy :: string

record EncryptionKey =
  ek_ID :: string
  ek_Version :: int
  ek_KeyMaterialEnc :: string
  ek_Algorithm :: string
  ek_Status :: string
  ek_CreatedAt :: time
  ek_ActivatedAt :: "time option"
  ek_DeactivatedAt :: "time option"
  ek_ScheduledDeletionAt :: "time option"
  ek_DeletionCancelledAt :: "time option"

record SSHKey =
  sk_ID :: string
  sk_Name :: string
  sk_PublicKey :: string
  sk_PrivateKeyEnc :: string
  sk_Fingerprint :: string
  sk_KeyType :: string
  sk_CreatedBy :: string
  sk_CreatedAt :: time

record CertAuditEvent =
  cae_ID :: string
  cae_Timestamp :: time
  cae_EventType :: string
  cae_AgentID :: string
  cae_Hostname :: string
  cae_Serial :: string
  cae_CAID :: string
  cae_Reason :: string
  cae_RequestedBy :: string
  cae_ClientIP :: string

record CertAuditFilter =
  caf_AgentID :: string
  caf_EventType :: string
  caf_Since :: "time option"
  caf_Until :: "time option"
  caf_Limit :: int
  caf_Offset :: int

record ACMECertificate =
  acme_ID :: string
  acme_Domain :: string
  acme_CertificatePEM :: string
  acme_PrivateKeyEncrypted :: string
  acme_Issuer :: string
  acme_NotBefore :: time
  acme_NotAfter :: time
  acme_LastRenewal :: "time option"
  acme_AutoRenew :: bool
  acme_CreatedAt :: time
  acme_UpdatedAt :: time

record ACMEAccount =
  acct_ID :: string
  acct_Email :: string
  acct_AccountURL :: string
  acct_PrivateKeyEncrypted :: string
  acct_DirectoryURL :: string
  acct_CreatedAt :: time

record RecoveryCode =
  rcode_ID :: string
  rcode_UserID :: string
  rcode_CodeHash :: string
  rcode_UsedAt :: "time option"
  rcode_CreatedAt :: time

section \<open>Pointer tables\<close>

type_synonym 'a ptr_table = "(string \<rightharpoonup> ref) \<times> 'a heap"

definition tlook :: "'a ptr_table \<Rightarrow> string \<rightharpoonup> 'a" where
  "tlook t = deref (fst t) (snd t)"

definition table_ok :: "'a ptr_table \<Rightarrow> bool" where
  "table_ok t \<longleftrightarrow> own_refs (fst t) (snd t)"

definition table_delete :: "string \<Rightarrow> 'a ptr_table \<Rightarrow> 'a ptr_table" where
  "table_delete k t = ((fst t)(k := None), snd t)"

definition table_objs :: "string list \<Rightarrow> 'a ptr_table \<Rightarrow> 'a list" where
  "table_objs ks t = range_objs ks (fst t) (snd t)"

definition empty_table :: "'a ptr_table" where
  "empty_table = (Map.empty, [])"

section \<open>The tables of the store\<close>

record SecurityStore = MemoryStore +
  certificateAuthorities :: "CertificateAuthority ptr_table"
  agentCertificates :: "AgentCertificate ptr_table"
  serverCertificates :: "string \<rightharpoonup> ServerCertificate"
  registrationTokens :: "RegistrationToken ptr_table"
  sourceCredentials :: "string \<rightharpoonup> SourceCredential"
  revokedCertificates :: "string \<rightharpoonup> RevokedCertificate"
  encryptionKeys :: "EncryptionKey ptr_table"
  sshKeys :: "string \<rightharpoonup> SSHKey"
  certAuditEvents :: "CertAuditEvent list"
  acmeCertificates :: "string \<rightharpoonup> ACMECertificate"
  acmeAccounts :: "string \<rightharpoonup> ACMEAccount"
  recoveryCodes :: "string \<rightharpoonup> ref list"
  recoveryObjs :: "RecoveryCode heap"

definition NewSecurityStore :: SecurityStore where
  "NewSecurityStore = MemoryStore.extend NewMemoryStore
     \<lparr>certificateAuthorities = empty_table, agentCertificates = empty_table,
      serverCertificates = Map.empty, registrationTokens = empty_table, sourceCredentials = Map.empty,
      revokedCertificates = Map.empty, encryptionKeys = empty_table, sshKeys = Map.empty,
      certAuditEvents = [], acmeCertificates = Map.empty, acmeAccounts = Map.empty,
      recoveryCodes = Map.empty, recoveryObjs = []\<rparr>"

text \<open>What the persistence layer is given for the classes it writes and that no longer change: the
  fields.\<close>

definition acme_certificate_data :: "ACMECertificate \<Rightarrow> WriteData" where
  "acme_certificate_data c = StructPtr ''ACMECertificate''
     [(''ID'', AnyString (acme_ID c)), (''Domain'', AnyString (acme_Domain c)),
      (''CertificatePEM'', AnyString (acme_CertificatePEM c)),
      (''PrivateKeyEncrypted'', AnyBytes (acme_PrivateKeyEncrypted c)), (''Issuer'', AnyString (acme_Issuer c)),
      (''NotBefore'', AnyTime (acme_NotBefore c)), (''NotAfter'', AnyTime (acme_NotAfter c)),
      (''LastRenewal'', AnyTimePtr (acme_LastRenewal c)), (''AutoRenew'', AnyBool (acme_AutoRenew c)),
      (''CreatedAt'', AnyTime (acme_CreatedAt c)), (''UpdatedAt'', AnyTime (acme_UpdatedAt c))]"

definition acme_account_data :: "ACMEAccount \<Rightarrow> WriteData" where
  "acme_account_data a = StructPtr ''ACMEAccount''
     [(''ID'', AnyString (acct_ID a)), (''Email'', AnyString (acct_Email a)),
      (''AccountURL'', AnyString (acct_AccountURL a)),
      (''PrivateKeyEncrypted'', AnyBytes (acct_PrivateKeyEncrypted a)),
      (''DirectoryURL'', AnyString (acct_DirectoryURL a)), (''CreatedAt'', AnyTime (acct_CreatedAt a))]"

definition server_cert_data :: "ServerCertificate \<Rightarrow> WriteData" where
  "server_cert_data c = StructPtr ''ServerCertificate''
     [(''ID'', AnyString (scert_ID c)), (''Hostname'', AnyString (scert_Hostname c)),
      (''CertificatePEM'', AnyString (scert_CertificatePEM c)), (''PrivateKeyEnc'', AnyBytes (scert_PrivateKeyEnc c)),
      (''SANs'', AnyString (scert_SANs c)), (''NotBefore'', AnyTime (scert_NotBefore c)),
      (''NotAfter'', AnyTime (scert_NotAfter c)), (''CAID'', AnyString (scert_CAID c)),
      (''CreatedAt'', AnyTime (scert_CreatedAt c))]"

definition credential_data :: "SourceCredential \<Rightarrow> WriteData" where
  "credential_data c = StructPtr ''SourceCredential''
     [(''ID'', AnyString (cred_ID c)), (''Name'', AnyString (cred_Name c)), (''Type'', AnyString (cred_Type c)),
      (''URLPattern'', AnyString (cred_URLPattern c)), (''CredentialEnc'', AnyBytes (cred_CredentialEnc c)),
      (''CreatedBy'', AnyString (cred_CreatedBy c)), (''CreatedAt'', AnyTime (cred_CreatedAt c)),
      (''UpdatedAt'', AnyTime (cred_UpdatedAt c))]"

definition revoked_data :: "RevokedCertificate \<Rightarrow> WriteData" where
  "revoked_data c = StructPtr ''RevokedCertificate''
     [(''ID'', AnyString (rev_ID c)), (''SerialNumber'', AnyString (rev_SerialNumber c)),
      (''AgentID'', AnyString (rev_AgentID c)), (''Reason'', AnyString (rev_Reason c)),
      (''RevokedAt'', AnyTime (rev_RevokedAt c)), (''RevokedBy'', AnyString (rev_RevokedBy c))]"

definition ssh_key_data :: "SSHKey \<Rightarrow> WriteData" where
  "ssh_key_data k = StructPtr ''SSHKey''
     [(''ID'', AnyString (sk_ID k)), (''Name'', AnyString (sk_Name k)), (''PublicKey'', AnyString (sk_PublicKey k)),
      (''PrivateKeyEnc'', AnyBytes (sk_PrivateKeyEnc k)), (''Fingerprint'', AnyString (sk_Fingerprint k)),
      (''KeyType'', AnyString (sk_KeyType k)), (''CreatedBy'', AnyString (sk_CreatedBy k)),
      (''CreatedAt'', AnyTime (sk_CreatedAt k))]"

definition cert_event_data :: "CertAuditEvent \<Rightarrow> WriteData" where
  "cert_event_data e = StructPtr ''CertAuditEvent''
     [(''ID'', AnyString (cae_ID e)), (''Timestamp'', AnyTime (cae_Timestamp e)),
      (''EventType'', AnyString (cae_EventType e)), (''AgentID'', AnyString (cae_AgentID e)),
      (''Hostname'', AnyString (cae_Hostname e)), (''Serial'', AnyString (cae_Serial e)),
      (''CAID'', AnyString (cae_CAID e)), (''Reason'', AnyString (cae_Reason e)),
      (''RequestedBy'', AnyString (cae_RequestedBy e)), (''ClientIP'', AnyString (cae_ClientIP e))]"

definition recovery_fields :: "RecoveryCode \<Rightarrow> (string \<times> AnyValue) list" where
  "recovery_fields c =
     [(''ID'', AnyString (rcode_ID c)), (''UserID'', AnyString (rcode_UserID c)),
      (''CodeHash'', AnyString (rcode_CodeHash c)), (''UsedAt'', AnyTimePtr (rcode_UsedAt c)),
      (''CreatedAt'', AnyTime (rcode_CreatedAt c))]"

section \<open>Working with pointer tables\<close>

text \<open>The laws of \<open>pointer_table\<close> in these terms.\<close>

lemma table_ok_empty [simp]: "table_ok empty_table"
  by (simp add: table_ok_def empty_table_def)

lemma tlook_empty [simp]: "tlook empty_table = Map.empty"
  by (simp add: tlook_def empty_table_def)

lemma table_new_fst: "fst (table_new k x t) = (fst t)(k \<mapsto> length (snd t))"
  by (simp add: table_new_def new_obj_def)

lemma tlook_new [store_simps]: "table_ok t \<Longrightarrow> tlook (table_new k x t) = (tlook t)(k \<mapsto> x)"
  unfolding tlook_def table_ok_def by (rule pointer_table.look_new)

lemma table_ok_new [wf_intros]: "table_ok t \<Longrightarrow> table_ok (table_new k x t)"
  unfolding table_ok_def by (rule pointer_table.inv_new)

lemma tlook_modify [store_simps]:
  "table_ok t \<Longrightarrow> tlook t k \<noteq> None \<Longrightarrow> tlook (table_modify k x t) = (tlook t)(k \<mapsto> x)"
  unfolding tlook_def table_ok_def by (rule pointer_table.look_modify)

lemma table_ok_modify [wf_intros]: "table_ok t \<Longrightarrow> table_ok (table_modify k x t)"
  unfolding table_ok_def by (rule pointer_table.inv_modify)

lemma tlook_delete [store_simps]: "table_ok t \<Longrightarrow> tlook (table_delete k t) = (tlook t)(k := None)"
  unfolding tlook_def table_ok_def table_delete_def
  using pointer_table.look_remove [of t k] by simp

lemma table_ok_delete [wf_intros]: "table_ok t \<Longrightarrow> table_ok (table_delete k t)"
  unfolding table_ok_def table_delete_def using pointer_table.inv_remove [of t k] by simp

lemma fst_table_modify [simp]: "fst (table_modify k x t) = fst t"
  by (simp add: table_modify_def split: option.splits)

lemma tlook_None_iff: "table_ok t \<Longrightarrow> tlook t k = None \<longleftrightarrow> fst t k = None"
  by (simp add: tlook_def table_ok_def deref_None_iff)

lemma dom_tlook: "table_ok t \<Longrightarrow> dom (tlook t) = dom (fst t)"
  by (simp add: dom_def tlook_None_iff)

lemma enumerates_tlook: "table_ok t \<Longrightarrow> enumerates ks (tlook t) \<longleftrightarrow> enumerates ks (fst t)"
  by (simp add: enumerates_def dom_tlook)

lemma table_objs_deref:
  "table_ok t \<Longrightarrow> enumerates ks (fst t) \<Longrightarrow> table_objs ks t = map (\<lambda>k. the (tlook t k)) ks"
  by (simp add: table_objs_def tlook_def table_ok_def range_objs_deref)

lemma set_table_objs: "table_ok t \<Longrightarrow> enumerates ks (fst t) \<Longrightarrow> set (table_objs ks t) = ran (tlook t)"
  unfolding table_objs_def by (auto simp: range_objs_mem tlook_def ran_def)

end
