(* ===== verification/Mem_Security.thy ===== *)
theory Mem_Security
  imports Security_Model Pagination
begin

text \<open>
  \<open>internal/storage/memory_security.go\<close>: certificate authorities, the certificates of agents and of the
  server, registration tokens, source credentials, the revocation list, encryption keys, SSH keys, the
  certificate audit trail, ACME data and recovery codes. One definition per method of \<open>MemoryStore\<close>, with
  the write operations it queues.

  A \<open>Save\<close> method fills in the identifier of its argument; the stored value is returned. Where an
  operation makes several identifiers, \<open>newID\<close> gives the one made for each certificate or position.
\<close>

section \<open>Shared by the operations\<close>

definition found :: "'a option \<Rightarrow> 'a result" where
  "found v = (case v of None \<Rightarrow> Inl ErrNotFound | Some x \<Rightarrow> Inr x)"

definition queue_core :: "WriteOp \<Rightarrow> SecurityStore \<Rightarrow> SecurityStore" where
  "queue_core op s = s\<lparr>coreWrites := queueWrite (coreWrites s) op\<rparr>"

definition obj_op :: "WriteOpType \<Rightarrow> string \<Rightarrow> string \<Rightarrow> 'a ptr_table \<Rightarrow> string \<Rightarrow> time \<Rightarrow> WriteOp" where
  "obj_op ty table T t k now = NewWriteOp ty table (ObjPtr T (the (fst t k))) now"

definition save_type :: "bool \<Rightarrow> WriteOpType" where
  "save_type exists = (if exists then WriteOpUpdate else WriteOpInsert)"

section \<open>Certificate authorities\<close>

definition GetCA :: "string \<Rightarrow> SecurityStore \<Rightarrow> CertificateAuthority result" where
  "GetCA i s = found (tlook (certificateAuthorities s) i)"

definition GetCurrentCA :: "string list \<Rightarrow> SecurityStore \<Rightarrow> CertificateAuthority result" where
  "GetCurrentCA ks s = found (find ca_IsCurrent (table_objs ks (certificateAuthorities s)))"

definition ListCAs :: "string list \<Rightarrow> SecurityStore \<Rightarrow> CertificateAuthority list" where
  "ListCAs ks s = table_objs ks (certificateAuthorities s)"

definition SaveCA :: "CertificateAuthority \<Rightarrow> time \<Rightarrow> SecurityStore \<Rightarrow> unit result \<times> SecurityStore" where
  "SaveCA ca now s =
     (let stored = (if IsZero (ca_CreatedAt ca) then ca\<lparr>ca_CreatedAt := now\<rparr> else ca);
          exists = fst (certificateAuthorities s) (ca_ID ca) \<noteq> None;
          s = s\<lparr>certificateAuthorities := table_new (ca_ID ca) stored (certificateAuthorities s)\<rparr>
      in (Inr (), queue_core
            (obj_op (save_type exists) ''certificate_authorities'' ''CertificateAuthority''
               (certificateAuthorities s) (ca_ID ca) now) s))"

definition retire_ca :: "string \<Rightarrow> time \<Rightarrow> string \<Rightarrow> SecurityStore \<Rightarrow> SecurityStore" where
  "retire_ca i now k s =
     (case tlook (certificateAuthorities s) k of
        None \<Rightarrow> s
      | Some ca \<Rightarrow>
          if ca_ID ca \<noteq> i \<and> ca_IsCurrent ca
          then queue_core (obj_op WriteOpUpdate ''certificate_authorities'' ''CertificateAuthority''
                 (certificateAuthorities s) k now)
               (s\<lparr>certificateAuthorities := table_modify k
                   (ca\<lparr>ca_IsCurrent := False, ca_Status := CAStatusInactive, ca_RotatedAt := Some now\<rparr>)
                   (certificateAuthorities s)\<rparr>)
          else s)"

definition SetCurrentCA :: "string \<Rightarrow> time \<Rightarrow> string list \<Rightarrow> SecurityStore \<Rightarrow> unit result \<times> SecurityStore" where
  "SetCurrentCA i now ks s =
     (case tlook (certificateAuthorities s) i of
        None \<Rightarrow> (Inl ErrNotFound, s)
      | Some _ \<Rightarrow>
          (let s = fold (retire_ca i now) ks s
           in case tlook (certificateAuthorities s) i of
                None \<Rightarrow> (Inr (), s)
              | Some targetCA \<Rightarrow>
                  (Inr (), queue_core (obj_op WriteOpUpdate ''certificate_authorities'' ''CertificateAuthority''
                     (certificateAuthorities s) i now)
                   (s\<lparr>certificateAuthorities := table_modify i
                       (targetCA\<lparr>ca_IsCurrent := True, ca_Status := CAStatusActive\<rparr>)
                       (certificateAuthorities s)\<rparr>))))"

section \<open>Agent certificates\<close>

definition active_cert_of :: "string \<Rightarrow> AgentCertificate \<Rightarrow> bool" where
  "active_cert_of agentID cert \<longleftrightarrow> acert_AgentID cert = agentID \<and> acert_Status cert = CertStatusActive"

definition GetAgentCert :: "string \<Rightarrow> string list \<Rightarrow> SecurityStore \<Rightarrow> AgentCertificate result" where
  "GetAgentCert agentID ks s = found (find (active_cert_of agentID) (table_objs ks (agentCertificates s)))"

definition GetAgentCertBySerial :: "string \<Rightarrow> SecurityStore \<Rightarrow> AgentCertificate result" where
  "GetAgentCertBySerial serialNumber s = found (tlook (agentCertificates s) serialNumber)"

definition ListAgentCerts :: "string list \<Rightarrow> SecurityStore \<Rightarrow> AgentCertificate list" where
  "ListAgentCerts ks s = table_objs ks (agentCertificates s)"

definition ListAgentCertsByAgent :: "string \<Rightarrow> string list \<Rightarrow> SecurityStore \<Rightarrow> AgentCertificate list" where
  "ListAgentCertsByAgent agentID ks s =
     filter (\<lambda>cert. acert_AgentID cert = agentID) (table_objs ks (agentCertificates s))"

definition SaveAgentCert ::
  "AgentCertificate \<Rightarrow> time \<Rightarrow> string \<Rightarrow> SecurityStore \<Rightarrow> AgentCertificate result \<times> SecurityStore" where
  "SaveAgentCert cert now xid s =
     (let stored = (if acert_ID cert = '''' then cert\<lparr>acert_ID := xid\<rparr> else cert);
          stored = (if IsZero (acert_IssuedAt stored) then stored\<lparr>acert_IssuedAt := now\<rparr> else stored);
          exists = fst (agentCertificates s) (acert_SerialNumber cert) \<noteq> None;
          s = s\<lparr>agentCertificates := table_new (acert_SerialNumber cert) stored (agentCertificates s)\<rparr>
      in (Inr (cert\<lparr>acert_ID := acert_ID stored\<rparr>), queue_core
            (obj_op (save_type exists) ''agent_certificates'' ''AgentCertificate''
               (agentCertificates s) (acert_SerialNumber cert) now) s))"

definition revoked_entry :: "string \<Rightarrow> string \<Rightarrow> string \<Rightarrow> string \<Rightarrow> string \<Rightarrow> time \<Rightarrow> RevokedCertificate" where
  "revoked_entry i serialNumber agentID reason revokedBy now =
     \<lparr>rev_ID = i, rev_SerialNumber = serialNumber, rev_AgentID = agentID, rev_Reason = reason,
      rev_RevokedAt = now, rev_RevokedBy = revokedBy\<rparr>"

definition revoke_cert :: "string \<Rightarrow> time \<Rightarrow> AgentCertificate \<Rightarrow> AgentCertificate" where
  "revoke_cert reason now cert =
     cert\<lparr>acert_Status := CertStatusRevoked, acert_RevokedAt := Some now, acert_RevocationReason := reason\<rparr>"

text \<open>Revoking the certificate under one key of the table, with the entry on the revocation list.\<close>

definition revoke_at ::
  "string \<Rightarrow> string \<Rightarrow> RevokedCertificate \<Rightarrow> time \<Rightarrow> AgentCertificate \<Rightarrow> SecurityStore \<Rightarrow> SecurityStore" where
  "revoke_at k reason revoked now cert s =
     (let s = s\<lparr>agentCertificates := table_modify k (revoke_cert reason now cert) (agentCertificates s)\<rparr>;
          s = queue_core (obj_op WriteOpUpdate ''agent_certificates'' ''AgentCertificate'' (agentCertificates s) k now) s;
          s = s\<lparr>revokedCertificates := (revokedCertificates s)(rev_SerialNumber revoked \<mapsto> revoked)\<rparr>
      in queue_core (NewWriteOp WriteOpInsert ''revoked_certificates'' (revoked_data revoked) now) s)"

definition revoke_visit ::
  "string \<Rightarrow> string \<Rightarrow> string \<Rightarrow> time \<Rightarrow> (string \<Rightarrow> string) \<Rightarrow> string \<Rightarrow> bool \<times> SecurityStore \<Rightarrow> bool \<times> SecurityStore" where
  "revoke_visit agentID reason revokedBy now newID k = (\<lambda>(hit, s).
     case tlook (agentCertificates s) k of
       None \<Rightarrow> (hit, s)
     | Some cert \<Rightarrow>
         if acert_AgentID cert \<noteq> agentID \<or> acert_Status cert \<noteq> CertStatusActive then (hit, s)
         else (True, revoke_at k reason
                 (revoked_entry (newID k) (acert_SerialNumber cert) agentID reason revokedBy now) now cert s))"

definition RevokeAgentCert ::
  "string \<Rightarrow> string \<Rightarrow> string \<Rightarrow> time \<Rightarrow> (string \<Rightarrow> string) \<Rightarrow> string list \<Rightarrow> SecurityStore \<Rightarrow> unit result \<times> SecurityStore" where
  "RevokeAgentCert agentID reason revokedBy now newID ks s =
     (let (hit, s) = fold (revoke_visit agentID reason revokedBy now newID) ks (False, s)
      in (if hit then Inr () else Inl ErrNotFound, s))"

definition RevokeAgentCertBySerial ::
  "string \<Rightarrow> string \<Rightarrow> string \<Rightarrow> time \<Rightarrow> string \<Rightarrow> SecurityStore \<Rightarrow> unit result \<times> SecurityStore" where
  "RevokeAgentCertBySerial serialNumber reason revokedBy now xid s =
     (case tlook (agentCertificates s) serialNumber of
        None \<Rightarrow> (Inl ErrNotFound, s)
      | Some cert \<Rightarrow> (Inr (), revoke_at serialNumber reason
          (revoked_entry xid serialNumber (acert_AgentID cert) reason revokedBy now) now cert s))"

definition UpdateAgentCertStatus :: "string \<Rightarrow> string \<Rightarrow> time \<Rightarrow> SecurityStore \<Rightarrow> unit result \<times> SecurityStore" where
  "UpdateAgentCertStatus serialNumber status now s =
     (case tlook (agentCertificates s) serialNumber of
        None \<Rightarrow> (Inl ErrNotFound, s)
      | Some cert \<Rightarrow>
          (Inr (), queue_core (obj_op WriteOpUpdate ''agent_certificates'' ''AgentCertificate''
             (agentCertificates s) serialNumber now)
           (s\<lparr>agentCertificates := table_modify serialNumber (cert\<lparr>acert_Status := status\<rparr>) (agentCertificates s)\<rparr>)))"

section \<open>Server certificates\<close>

definition GetServerCert :: "string \<Rightarrow> SecurityStore \<Rightarrow> ServerCertificate result" where
  "GetServerCert hostname s = found (serverCertificates s hostname)"

definition ListServerCerts :: "string list \<Rightarrow> SecurityStore \<Rightarrow> ServerCertificate list" where
  "ListServerCerts ks s = range_values ks (serverCertificates s)"

definition SaveServerCert ::
  "ServerCertificate \<Rightarrow> time \<Rightarrow> string \<Rightarrow> SecurityStore \<Rightarrow> ServerCertificate result \<times> SecurityStore" where
  "SaveServerCert cert now xid s =
     (let stored = (if scert_ID cert = '''' then cert\<lparr>scert_ID := xid\<rparr> else cert);
          stored = (if IsZero (scert_CreatedAt stored) then stored\<lparr>scert_CreatedAt := now\<rparr> else stored);
          exists = serverCertificates s (scert_Hostname cert) \<noteq> None
      in (Inr (cert\<lparr>scert_ID := scert_ID stored\<rparr>),
          queue_core (NewWriteOp (save_type exists) ''server_certificates'' (server_cert_data stored) now)
            (s\<lparr>serverCertificates := (serverCertificates s)(scert_Hostname cert \<mapsto> stored)\<rparr>)))"

definition DeleteServerCert :: "string \<Rightarrow> time \<Rightarrow> SecurityStore \<Rightarrow> unit result \<times> SecurityStore" where
  "DeleteServerCert hostname now s =
     (case serverCertificates s hostname of
        None \<Rightarrow> (Inl ErrNotFound, s)
      | Some cert \<Rightarrow>
          (Inr (), queue_core (NewWriteOp WriteOpDelete ''server_certificates'' (server_cert_data cert) now)
             (s\<lparr>serverCertificates := (serverCertificates s)(hostname := None)\<rparr>)))"

section \<open>Registration tokens\<close>

definition GetRegistrationToken :: "string \<Rightarrow> SecurityStore \<Rightarrow> RegistrationToken result" where
  "GetRegistrationToken token s = found (tlook (registrationTokens s) token)"

definition ListRegistrationTokens :: "string list \<Rightarrow> SecurityStore \<Rightarrow> RegistrationToken list" where
  "ListRegistrationTokens ks s = table_objs ks (registrationTokens s)"

definition SaveRegistrationToken ::
  "RegistrationToken \<Rightarrow> time \<Rightarrow> string \<Rightarrow> SecurityStore \<Rightarrow> RegistrationToken result \<times> SecurityStore" where
  "SaveRegistrationToken rt now xid s =
     (let stored = (if rt_ID rt = '''' then rt\<lparr>rt_ID := xid\<rparr> else rt);
          stored = (if IsZero (rt_CreatedAt stored) then stored\<lparr>rt_CreatedAt := now\<rparr> else stored);
          exists = fst (registrationTokens s) (rt_Token rt) \<noteq> None;
          s = s\<lparr>registrationTokens := table_new (rt_Token rt) stored (registrationTokens s)\<rparr>
      in (Inr (rt\<lparr>rt_ID := rt_ID stored\<rparr>), queue_core
            (obj_op (save_type exists) ''registration_tokens'' ''RegistrationToken''
               (registrationTokens s) (rt_Token rt) now) s))"

definition DeleteRegistrationToken :: "string \<Rightarrow> time \<Rightarrow> SecurityStore \<Rightarrow> unit result \<times> SecurityStore" where
  "DeleteRegistrationToken token now s =
     (case tlook (registrationTokens s) token of
        None \<Rightarrow> (Inl ErrNotFound, s)
      | Some rt \<Rightarrow>
          (Inr (), queue_core (obj_op WriteOpDelete ''registration_tokens'' ''RegistrationToken''
             (registrationTokens s) token now)
           (s\<lparr>registrationTokens := table_delete token (registrationTokens s)\<rparr>)))"

definition MarkTokenUsed :: "string \<Rightarrow> time \<Rightarrow> SecurityStore \<Rightarrow> unit result \<times> SecurityStore" where
  "MarkTokenUsed token now s =
     (case tlook (registrationTokens s) token of
        None \<Rightarrow> (Inl ErrNotFound, s)
      | Some rt \<Rightarrow>
          (Inr (), queue_core (obj_op WriteOpUpdate ''registration_tokens'' ''RegistrationToken''
             (registrationTokens s) token now)
           (s\<lparr>registrationTokens := table_modify token (rt\<lparr>rt_UsedAt := Some now\<rparr>) (registrationTokens s)\<rparr>)))"

definition drop_expired :: "time \<Rightarrow> string \<Rightarrow> int \<times> SecurityStore \<Rightarrow> int \<times> SecurityStore" where
  "drop_expired now k = (\<lambda>(deleted, s).
     case tlook (registrationTokens s) k of
       None \<Rightarrow> (deleted, s)
     | Some rt \<Rightarrow>
         if rt_ExpiresAt rt < now
         then (deleted + 1,
               queue_core (obj_op WriteOpDelete ''registration_tokens'' ''RegistrationToken''
                 (registrationTokens s) k now)
               (s\<lparr>registrationTokens := table_delete k (registrationTokens s)\<rparr>))
         else (deleted, s))"

definition CleanupExpiredTokens :: "time \<Rightarrow> string list \<Rightarrow> SecurityStore \<Rightarrow> int \<times> SecurityStore" where
  "CleanupExpiredTokens now ks s = fold (drop_expired now) ks (0, s)"

section \<open>Source credentials\<close>

definition GetSourceCredential :: "string \<Rightarrow> SecurityStore \<Rightarrow> SourceCredential result" where
  "GetSourceCredential i s = found (sourceCredentials s i)"

definition GetSourceCredentialByName :: "string \<Rightarrow> string list \<Rightarrow> SecurityStore \<Rightarrow> SourceCredential result" where
  "GetSourceCredentialByName name ks s =
     found (find (\<lambda>cred. cred_Name cred = name) (range_values ks (sourceCredentials s)))"

definition ListSourceCredentials :: "string list \<Rightarrow> SecurityStore \<Rightarrow> SourceCredential list" where
  "ListSourceCredentials ks s = range_values ks (sourceCredentials s)"

definition SaveSourceCredential ::
  "SourceCredential \<Rightarrow> time \<Rightarrow> string \<Rightarrow> SecurityStore \<Rightarrow> SourceCredential result \<times> SecurityStore" where
  "SaveSourceCredential cred now xid s =
     (let isNew = cred_ID cred = '''';
          stored = (if isNew then cred\<lparr>cred_ID := xid\<rparr> else cred);
          stored = (if IsZero (cred_CreatedAt stored) then stored\<lparr>cred_CreatedAt := now\<rparr> else stored);
          stored = stored\<lparr>cred_UpdatedAt := now\<rparr>
      in (Inr (cred\<lparr>cred_ID := cred_ID stored\<rparr>),
          queue_core (NewWriteOp (save_type (\<not> isNew)) ''source_credentials'' (credential_data stored) now)
            (s\<lparr>sourceCredentials := (sourceCredentials s)(cred_ID stored \<mapsto> stored)\<rparr>)))"

definition DeleteSourceCredential :: "string \<Rightarrow> time \<Rightarrow> SecurityStore \<Rightarrow> unit result \<times> SecurityStore" where
  "DeleteSourceCredential i now s =
     (case sourceCredentials s i of
        None \<Rightarrow> (Inl ErrNotFound, s)
      | Some cred \<Rightarrow>
          (Inr (), queue_core (NewWriteOp WriteOpDelete ''source_credentials'' (credential_data cred) now)
             (s\<lparr>sourceCredentials := (sourceCredentials s)(i := None)\<rparr>)))"

section \<open>The revocation list\<close>

definition IsRevoked :: "string \<Rightarrow> SecurityStore \<Rightarrow> bool" where
  "IsRevoked serialNumber s \<longleftrightarrow> revokedCertificates s serialNumber \<noteq> None"

definition ListRevokedCerts :: "string list \<Rightarrow> SecurityStore \<Rightarrow> RevokedCertificate list" where
  "ListRevokedCerts ks s = range_values ks (revokedCertificates s)"

definition SaveRevokedCert ::
  "RevokedCertificate \<Rightarrow> time \<Rightarrow> string \<Rightarrow> SecurityStore \<Rightarrow> RevokedCertificate result \<times> SecurityStore" where
  "SaveRevokedCert revoked now xid s =
     (let stored = (if rev_ID revoked = '''' then revoked\<lparr>rev_ID := xid\<rparr> else revoked);
          stored = (if IsZero (rev_RevokedAt stored) then stored\<lparr>rev_RevokedAt := now\<rparr> else stored);
          exists = revokedCertificates s (rev_SerialNumber revoked) \<noteq> None
      in (Inr (revoked\<lparr>rev_ID := rev_ID stored\<rparr>),
          queue_core (NewWriteOp (save_type exists) ''revoked_certificates'' (revoked_data stored) now)
            (s\<lparr>revokedCertificates := (revokedCertificates s)(rev_SerialNumber revoked \<mapsto> stored)\<rparr>)))"

section \<open>Encryption keys\<close>

definition GetEncryptionKey :: "string \<Rightarrow> SecurityStore \<Rightarrow> EncryptionKey result" where
  "GetEncryptionKey i s = found (tlook (encryptionKeys s) i)"

definition GetCurrentEncryptionKey :: "string list \<Rightarrow> SecurityStore \<Rightarrow> EncryptionKey result" where
  "GetCurrentEncryptionKey ks s =
     found (find (\<lambda>key. ek_Status key = KeyStatusActive) (table_objs ks (encryptionKeys s)))"

definition ListEncryptionKeys :: "string list \<Rightarrow> SecurityStore \<Rightarrow> EncryptionKey list" where
  "ListEncryptionKeys ks s = table_objs ks (encryptionKeys s)"

definition SaveEncryptionKey :: "EncryptionKey \<Rightarrow> time \<Rightarrow> SecurityStore \<Rightarrow> unit result \<times> SecurityStore" where
  "SaveEncryptionKey key now s =
     (let stored = (if IsZero (ek_CreatedAt key) then key\<lparr>ek_CreatedAt := now\<rparr> else key);
          exists = fst (encryptionKeys s) (ek_ID key) \<noteq> None;
          s = s\<lparr>encryptionKeys := table_new (ek_ID key) stored (encryptionKeys s)\<rparr>
      in (Inr (), queue_core
            (obj_op (save_type exists) ''encryption_keys'' ''EncryptionKey'' (encryptionKeys s) (ek_ID key) now) s))"

definition with_key_status :: "string \<Rightarrow> time option \<Rightarrow> time \<Rightarrow> EncryptionKey \<Rightarrow> EncryptionKey" where
  "with_key_status status scheduledDeletion now key =
     (let key = key\<lparr>ek_Status := status\<rparr>
      in if status = KeyStatusActive then key\<lparr>ek_ActivatedAt := Some now\<rparr>
         else if status = KeyStatusInactive then key\<lparr>ek_DeactivatedAt := Some now\<rparr>
         else if status = KeyStatusScheduled then key\<lparr>ek_ScheduledDeletionAt := scheduledDeletion\<rparr>
         else key)"

definition UpdateEncryptionKeyStatus ::
  "string \<Rightarrow> string \<Rightarrow> time option \<Rightarrow> time \<Rightarrow> SecurityStore \<Rightarrow> unit result \<times> SecurityStore" where
  "UpdateEncryptionKeyStatus i status scheduledDeletion now s =
     (case tlook (encryptionKeys s) i of
        None \<Rightarrow> (Inl ErrNotFound, s)
      | Some key \<Rightarrow>
          (Inr (), queue_core (obj_op WriteOpUpdate ''encryption_keys'' ''EncryptionKey'' (encryptionKeys s) i now)
           (s\<lparr>encryptionKeys := table_modify i (with_key_status status scheduledDeletion now key) (encryptionKeys s)\<rparr>)))"

section \<open>SSH keys\<close>

definition GetSSHKey :: "string \<Rightarrow> SecurityStore \<Rightarrow> SSHKey result" where
  "GetSSHKey i s = found (sshKeys s i)"

definition GetSSHKeyByName :: "string \<Rightarrow> string list \<Rightarrow> SecurityStore \<Rightarrow> SSHKey result" where
  "GetSSHKeyByName name ks s = found (find (\<lambda>key. sk_Name key = name) (range_values ks (sshKeys s)))"

definition ListSSHKeys :: "string list \<Rightarrow> SecurityStore \<Rightarrow> SSHKey list" where
  "ListSSHKeys ks s = range_values ks (sshKeys s)"

definition SaveSSHKey :: "SSHKey \<Rightarrow> time \<Rightarrow> string \<Rightarrow> SecurityStore \<Rightarrow> SSHKey result \<times> SecurityStore" where
  "SaveSSHKey key now xid s =
     (let isNew = sk_ID key = '''';
          stored = (if isNew then key\<lparr>sk_ID := xid\<rparr> else key);
          stored = (if IsZero (sk_CreatedAt stored) then stored\<lparr>sk_CreatedAt := now\<rparr> else stored)
      in (Inr (key\<lparr>sk_ID := sk_ID stored\<rparr>),
          queue_core (NewWriteOp (save_type (\<not> isNew)) ''ssh_keys'' (ssh_key_data stored) now)
            (s\<lparr>sshKeys := (sshKeys s)(sk_ID stored \<mapsto> stored)\<rparr>)))"

definition DeleteSSHKey :: "string \<Rightarrow> time \<Rightarrow> SecurityStore \<Rightarrow> unit result \<times> SecurityStore" where
  "DeleteSSHKey i now s =
     (case sshKeys s i of
        None \<Rightarrow> (Inl ErrNotFound, s)
      | Some key \<Rightarrow>
          (Inr (), queue_core (NewWriteOp WriteOpDelete ''ssh_keys'' (ssh_key_data key) now)
             (s\<lparr>sshKeys := (sshKeys s)(i := None)\<rparr>)))"

section \<open>The certificate audit trail\<close>

definition SaveCertAuditEvent ::
  "CertAuditEvent \<Rightarrow> time \<Rightarrow> string \<Rightarrow> SecurityStore \<Rightarrow> CertAuditEvent result \<times> SecurityStore" where
  "SaveCertAuditEvent event now xid s =
     (let stored = event\<lparr>cae_ID := xid\<rparr>;
          stored = (if IsZero (cae_Timestamp stored) then stored\<lparr>cae_Timestamp := now\<rparr> else stored)
      in (Inr (event\<lparr>cae_ID := cae_ID stored\<rparr>),
          s\<lparr>certAuditEvents := certAuditEvents s @ [stored],
            auditWrites := queueWrite (auditWrites s)
              (NewWriteOp WriteOpInsert ''cert_audit_events'' (cert_event_data stored) now)\<rparr>))"

definition event_matches :: "CertAuditFilter \<Rightarrow> CertAuditEvent \<Rightarrow> bool" where
  "event_matches filt event \<longleftrightarrow>
     \<not> (caf_AgentID filt \<noteq> '''' \<and> cae_AgentID event \<noteq> caf_AgentID filt) \<and>
     \<not> (caf_EventType filt \<noteq> '''' \<and> cae_EventType event \<noteq> caf_EventType filt) \<and>
     \<not> (case caf_Since filt of None \<Rightarrow> False | Some since \<Rightarrow> cae_Timestamp event < since) \<and>
     \<not> (case caf_Until filt of None \<Rightarrow> False | Some until \<Rightarrow> cae_Timestamp event > until)"

text \<open>\<open>None\<close> is a run-time panic of the slice expressions; \<open>ListCertAuditEvents_page\<close> shows there is none.\<close>

definition ListCertAuditEvents :: "CertAuditFilter \<Rightarrow> SecurityStore \<Rightarrow> CertAuditEvent list option" where
  "ListCertAuditEvents filt s =
     (let events = filter (event_matches filt) (certAuditEvents s)
      in if caf_Offset filt > 0 \<and> caf_Offset filt \<ge> int (length events) then Some []
         else
           (case (if caf_Offset filt > 0 then go_slice events (caf_Offset filt) (int (length events)) else Some events) of
              None \<Rightarrow> None
            | Some events \<Rightarrow>
                if caf_Limit filt > 0 \<and> int (length events) > caf_Limit filt
                then go_slice events 0 (caf_Limit filt) else Some events))"

section \<open>ACME\<close>

definition GetACMECertificate :: "string \<Rightarrow> SecurityStore \<Rightarrow> ACMECertificate result" where
  "GetACMECertificate domain s = found (acmeCertificates s domain)"

definition SaveACMECertificate ::
  "ACMECertificate \<Rightarrow> time \<Rightarrow> string \<Rightarrow> SecurityStore \<Rightarrow> ACMECertificate result \<times> SecurityStore" where
  "SaveACMECertificate cert now xid s =
     (let existing = acmeCertificates s (acme_Domain cert);
          stored = (case existing of
              None \<Rightarrow> cert\<lparr>acme_ID := xid, acme_CreatedAt := now, acme_UpdatedAt := now\<rparr>
            | Some e \<Rightarrow> cert\<lparr>acme_ID := acme_ID e, acme_CreatedAt := acme_CreatedAt e, acme_UpdatedAt := now\<rparr>)
      in (Inr (cert\<lparr>acme_ID := acme_ID stored\<rparr>),
          queue_core (NewWriteOp (save_type (existing \<noteq> None)) ''acme_certificates'' (acme_certificate_data stored) now)
            (s\<lparr>acmeCertificates := (acmeCertificates s)(acme_Domain cert \<mapsto> stored)\<rparr>)))"

definition DeleteACMECertificate :: "string \<Rightarrow> time \<Rightarrow> SecurityStore \<Rightarrow> unit result \<times> SecurityStore" where
  "DeleteACMECertificate domain now s =
     (case acmeCertificates s domain of
        None \<Rightarrow> (Inl ErrNotFound, s)
      | Some cert \<Rightarrow>
          (Inr (), queue_core (NewWriteOp WriteOpDelete ''acme_certificates'' (acme_certificate_data cert) now)
             (s\<lparr>acmeCertificates := (acmeCertificates s)(domain := None)\<rparr>)))"

definition ListACMECertificates :: "string list \<Rightarrow> SecurityStore \<Rightarrow> ACMECertificate list" where
  "ListACMECertificates ks s = range_values ks (acmeCertificates s)"

definition GetACMEAccount :: "string \<Rightarrow> SecurityStore \<Rightarrow> ACMEAccount result" where
  "GetACMEAccount email s = found (acmeAccounts s email)"

definition SaveACMEAccount ::
  "ACMEAccount \<Rightarrow> time \<Rightarrow> string \<Rightarrow> SecurityStore \<Rightarrow> ACMEAccount result \<times> SecurityStore" where
  "SaveACMEAccount account now xid s =
     (let existing = acmeAccounts s (acct_Email account);
          stored = (case existing of
              None \<Rightarrow> account\<lparr>acct_ID := xid, acct_CreatedAt := now\<rparr>
            | Some e \<Rightarrow> account\<lparr>acct_ID := acct_ID e, acct_CreatedAt := acct_CreatedAt e\<rparr>)
      in (Inr (account\<lparr>acct_ID := acct_ID stored\<rparr>),
          queue_core (NewWriteOp (save_type (existing \<noteq> None)) ''acme_accounts'' (acme_account_data stored) now)
            (s\<lparr>acmeAccounts := (acmeAccounts s)(acct_Email account \<mapsto> stored)\<rparr>)))"

definition DeleteACMEAccount :: "string \<Rightarrow> time \<Rightarrow> SecurityStore \<Rightarrow> unit result \<times> SecurityStore" where
  "DeleteACMEAccount email now s =
     (case acmeAccounts s email of
        None \<Rightarrow> (Inl ErrNotFound, s)
      | Some account \<Rightarrow>
          (Inr (), queue_core (NewWriteOp WriteOpDelete ''acme_accounts'' (acme_account_data account) now)
             (s\<lparr>acmeAccounts := (acmeAccounts s)(email := None)\<rparr>)))"

section \<open>Recovery codes\<close>

definition code_op :: "WriteOpType \<Rightarrow> time \<Rightarrow> ref \<Rightarrow> WriteOp" where
  "code_op ty now r = NewWriteOp ty ''recovery_codes'' (ObjPtr ''RecoveryCode'' r) now"

definition delete_codes :: "time \<Rightarrow> ref list \<Rightarrow> SecurityStore \<Rightarrow> SecurityStore" where
  "delete_codes now rs s = fold (\<lambda>r. queue_core (code_op WriteOpDelete now r)) rs s"

definition store_code ::
  "string \<Rightarrow> time \<Rightarrow> string \<times> RecoveryCode \<Rightarrow> ref list \<times> SecurityStore \<Rightarrow> ref list \<times> SecurityStore" where
  "store_code userID now = (\<lambda>(i, code) (rs, s).
     let (r, objs) = new_obj (code\<lparr>rcode_ID := i, rcode_UserID := userID, rcode_CreatedAt := now\<rparr>) (recoveryObjs s)
     in (rs @ [r], queue_core (code_op WriteOpInsert now r) (s\<lparr>recoveryObjs := objs\<rparr>)))"

definition SaveRecoveryCodes ::
  "string \<Rightarrow> RecoveryCode list \<Rightarrow> time \<Rightarrow> (nat \<Rightarrow> string) \<Rightarrow> SecurityStore \<Rightarrow> unit result \<times> SecurityStore" where
  "SaveRecoveryCodes userID codes now newID s =
     (let s = (case recoveryCodes s userID of None \<Rightarrow> s | Some existing \<Rightarrow> delete_codes now existing s);
          (newCodes, s) = fold (store_code userID now) (zip (map newID [0..<length codes]) codes) ([], s)
      in (Inr (), s\<lparr>recoveryCodes := (recoveryCodes s)(userID \<mapsto> newCodes)\<rparr>))"

definition codes_of :: "SecurityStore \<Rightarrow> ref list \<Rightarrow> RecoveryCode list" where
  "codes_of s rs = List.map_filter (load (recoveryObjs s)) rs"

definition ListRecoveryCodes :: "string \<Rightarrow> SecurityStore \<Rightarrow> RecoveryCode list" where
  "ListRecoveryCodes userID s =
     (case recoveryCodes s userID of None \<Rightarrow> [] | Some codes \<Rightarrow> codes_of s codes)"

definition code_refs :: "string list \<Rightarrow> SecurityStore \<Rightarrow> ref list" where
  "code_refs ks s = concat (range_values ks (recoveryCodes s))"

definition UseRecoveryCode :: "string \<Rightarrow> time \<Rightarrow> string list \<Rightarrow> SecurityStore \<Rightarrow> unit result \<times> SecurityStore" where
  "UseRecoveryCode codeID now ks s =
     (case find (obj_sat (recoveryObjs s) (\<lambda>code. rcode_ID code = codeID)) (code_refs ks s) of
        None \<Rightarrow> (Inl ErrNotFound, s)
      | Some r \<Rightarrow>
          (case load (recoveryObjs s) r of
             None \<Rightarrow> (Inl ErrNotFound, s)
           | Some code \<Rightarrow>
               if rcode_UsedAt code \<noteq> None then (Inl (ErrText ''recovery code already used''), s)
               else (Inr (), queue_core (code_op WriteOpUpdate now r)
                      (s\<lparr>recoveryObjs := assign (recoveryObjs s) r (code\<lparr>rcode_UsedAt := Some now\<rparr>)\<rparr>))))"

definition DeleteRecoveryCodes :: "string \<Rightarrow> time \<Rightarrow> SecurityStore \<Rightarrow> unit result \<times> SecurityStore" where
  "DeleteRecoveryCodes userID now s =
     (case recoveryCodes s userID of
        None \<Rightarrow> (Inr (), s)
      | Some codes \<Rightarrow>
          (Inr (), (delete_codes now codes s)\<lparr>recoveryCodes := (recoveryCodes s)(userID := None)\<rparr>))"

definition CountUnusedRecoveryCodes :: "string \<Rightarrow> SecurityStore \<Rightarrow> int" where
  "CountUnusedRecoveryCodes userID s =
     (case recoveryCodes s userID of
        None \<Rightarrow> 0
      | Some codes \<Rightarrow> int (length (filter (\<lambda>code. rcode_UsedAt code = None) (codes_of s codes))))"

section \<open>Well-formed security tables\<close>

definition codes_wf :: "SecurityStore \<Rightarrow> bool" where
  "codes_wf s \<longleftrightarrow> distinct (map rcode_ID (recoveryObjs s)) \<and>
     (\<forall>u rs. recoveryCodes s u = Some rs \<longrightarrow>
        distinct rs \<and> (\<forall>r \<in> set rs. r < length (recoveryObjs s) \<and> rcode_UserID (recoveryObjs s ! r) = u))"

definition security_wf :: "SecurityStore \<Rightarrow> bool" where
  "security_wf s \<longleftrightarrow>
     table_ok (certificateAuthorities s) \<and> keyed_by ca_ID (tlook (certificateAuthorities s)) \<and>
     table_ok (agentCertificates s) \<and> keyed_by acert_SerialNumber (tlook (agentCertificates s)) \<and>
     table_ok (registrationTokens s) \<and> keyed_by rt_Token (tlook (registrationTokens s)) \<and>
     table_ok (encryptionKeys s) \<and> keyed_by ek_ID (tlook (encryptionKeys s)) \<and>
     keyed_by rev_SerialNumber (revokedCertificates s) \<and> codes_wf s"

lemma queue_core_simps [simp]:
  "certificateAuthorities (queue_core op s) = certificateAuthorities s"
  "agentCertificates (queue_core op s) = agentCertificates s"
  "serverCertificates (queue_core op s) = serverCertificates s"
  "registrationTokens (queue_core op s) = registrationTokens s"
  "sourceCredentials (queue_core op s) = sourceCredentials s"
  "revokedCertificates (queue_core op s) = revokedCertificates s"
  "encryptionKeys (queue_core op s) = encryptionKeys s"
  "sshKeys (queue_core op s) = sshKeys s"
  "certAuditEvents (queue_core op s) = certAuditEvents s"
  "acmeCertificates (queue_core op s) = acmeCertificates s"
  "acmeAccounts (queue_core op s) = acmeAccounts s"
  "recoveryCodes (queue_core op s) = recoveryCodes s"
  "recoveryObjs (queue_core op s) = recoveryObjs s"
  by (simp_all add: queue_core_def)

lemma codes_wf_cong:
  "recoveryCodes s' = recoveryCodes s \<Longrightarrow> recoveryObjs s' = recoveryObjs s \<Longrightarrow> codes_wf s' = codes_wf s"
  by (simp add: codes_wf_def)

lemma security_wf_New: "security_wf NewSecurityStore"
  by (simp add: security_wf_def NewSecurityStore_def MemoryStore.defs codes_wf_def)

lemma keyed_modify:
  assumes "keyed_by ident (tlook t)" and "tlook t k = Some x" and "ident y = ident x" and "table_ok t"
  shows "keyed_by ident (tlook (table_modify k y t))"
proof -
  have "ident x = k" using assms(1,2) by (rule keyed_byD)
  then show ?thesis using assms by (simp add: tlook_modify keyed_by_upd)
qed

lemma keyed_delete: "table_ok t \<Longrightarrow> keyed_by ident (tlook t) \<Longrightarrow> keyed_by ident (tlook (table_delete k t))"
  by (simp add: tlook_delete keyed_by_remove)

lemma keyed_new: "table_ok t \<Longrightarrow> keyed_by ident (tlook t) \<Longrightarrow> ident x = k \<Longrightarrow> keyed_by ident (tlook (table_new k x t))"
  by (simp add: tlook_new keyed_by_upd)

lemmas table_intros = table_ok_new table_ok_modify table_ok_delete keyed_new keyed_modify keyed_delete

section \<open>Loops over the tables\<close>

text \<open>\<open>for _, p := range m { if P(*p) { *p = f(*p) } }\<close> as an update of the values.\<close>

lemma tlook_modify_keep:
  assumes "table_ok t" and "tlook t k = Some x"
  shows "tlook (table_modify k y t) j = (if j = k then Some y else tlook t j)"
  using assms by (simp add: tlook_modify)

definition retired :: "string \<Rightarrow> time \<Rightarrow> CertificateAuthority \<Rightarrow> CertificateAuthority" where
  "retired i now ca =
     (if ca_ID ca \<noteq> i \<and> ca_IsCurrent ca
      then ca\<lparr>ca_IsCurrent := False, ca_Status := CAStatusInactive, ca_RotatedAt := Some now\<rparr> else ca)"

lemma retired_idem: "retired i now (retired i now ca) = retired i now ca"
  by (simp add: retired_def)

lemma retire_ca_look:
  assumes "table_ok (certificateAuthorities s)"
  shows "table_ok (certificateAuthorities (retire_ca i now k s))"
    and "fst (certificateAuthorities (retire_ca i now k s)) = fst (certificateAuthorities s)"
    and "tlook (certificateAuthorities (retire_ca i now k s)) =
      (\<lambda>j. if j = k then map_option (retired i now) (tlook (certificateAuthorities s) j)
           else tlook (certificateAuthorities s) j)"
  using assms
  by (auto simp: retire_ca_def retired_def tlook_modify table_ok_modify fun_eq_iff split: option.splits)

lemma retire_all_look:
  assumes "table_ok (certificateAuthorities s)"
  shows "table_ok (certificateAuthorities (fold (retire_ca i now) ks s))"
    and "fst (certificateAuthorities (fold (retire_ca i now) ks s)) = fst (certificateAuthorities s)"
    and "tlook (certificateAuthorities (fold (retire_ca i now) ks s)) =
      (\<lambda>j. if j \<in> set ks then map_option (retired i now) (tlook (certificateAuthorities s) j)
           else tlook (certificateAuthorities s) j)"
  using assms
proof (induction ks arbitrary: s)
  case (Cons k ks)
  { case 1 then show ?case using Cons.IH(1) retire_ca_look(1) by simp }
  { case 2 then show ?case using Cons.IH(2) retire_ca_look(1,2) by simp }
  { case 3 then show ?case using Cons.IH(3) retire_ca_look(1,3)
      by (auto simp: fun_eq_iff option.map_comp comp_def retired_idem) }
qed simp_all

text \<open>Everything but the authorities and the queue stays the same.\<close>

definition ca_frame :: "SecurityStore \<Rightarrow> SecurityStore \<Rightarrow> bool" where
  "ca_frame s s' \<longleftrightarrow> (\<exists>t ops. s' = s\<lparr>certificateAuthorities := t, coreWrites := ops\<rparr>)"

lemma ca_frame_refl: "ca_frame s s"
  unfolding ca_frame_def by (intro exI [of _ "certificateAuthorities s"] exI [of _ "coreWrites s"]) simp

lemma ca_frame_trans: "ca_frame s s' \<Longrightarrow> ca_frame s' s'' \<Longrightarrow> ca_frame s s''"
  unfolding ca_frame_def by (clarsimp simp del: split_paired_Ex) blast

lemma ca_frameI: "ca_frame s (s\<lparr>certificateAuthorities := t, coreWrites := ops\<rparr>)"
  unfolding ca_frame_def by blast

lemma retire_ca_frame: "ca_frame s (retire_ca i now k s)"
  by (simp add: retire_ca_def queue_core_def ca_frame_refl ca_frameI split: option.split)

lemma retire_all_frame: "ca_frame s (fold (retire_ca i now) ks s)"
  by (induction ks arbitrary: s) (auto intro: ca_frame_refl ca_frame_trans retire_ca_frame)

subsection \<open>Revoking the certificates of an agent\<close>

definition revoke_if :: "string \<Rightarrow> string \<Rightarrow> time \<Rightarrow> AgentCertificate \<Rightarrow> AgentCertificate" where
  "revoke_if agentID reason now cert =
     (if active_cert_of agentID cert then revoke_cert reason now cert else cert)"

lemma revoke_if_not_active [simp]: "\<not> active_cert_of agentID (revoke_if agentID reason now cert)"
  by (simp add: revoke_if_def active_cert_of_def revoke_cert_def)

lemma revoke_if_idem [simp]: "revoke_if a reason now (revoke_if a reason now cert) = revoke_if a reason now cert"
  by (simp add: revoke_if_def active_cert_of_def revoke_cert_def)

lemma revoke_if_serial [simp]: "acert_SerialNumber (revoke_if a reason now cert) = acert_SerialNumber cert"
  by (simp add: revoke_if_def revoke_cert_def)

definition certs_wf :: "SecurityStore \<Rightarrow> bool" where
  "certs_wf s \<longleftrightarrow> table_ok (agentCertificates s) \<and> keyed_by acert_SerialNumber (tlook (agentCertificates s))"

definition has_active :: "string \<Rightarrow> SecurityStore \<Rightarrow> string \<Rightarrow> bool" where
  "has_active agentID s k = (case tlook (agentCertificates s) k of None \<Rightarrow> False | Some c \<Rightarrow> active_cert_of agentID c)"

lemma revoke_at_simps [simp]:
  "agentCertificates (revoke_at k reason revoked now cert s) =
     table_modify k (revoke_cert reason now cert) (agentCertificates s)"
  "revokedCertificates (revoke_at k reason revoked now cert s) =
     (revokedCertificates s)(rev_SerialNumber revoked \<mapsto> revoked)"
  by (simp_all add: revoke_at_def Let_def)

text \<open>The certificates of an agent under the keys \<open>K\<close> are revoked and listed; nothing else changes in the two
  tables.\<close>

definition revoked_on ::
  "string \<Rightarrow> string \<Rightarrow> string \<Rightarrow> time \<Rightarrow> (string \<Rightarrow> string) \<Rightarrow> string set \<Rightarrow> SecurityStore \<Rightarrow> SecurityStore \<Rightarrow> bool" where
  "revoked_on agentID reason revokedBy now newID K s s' \<longleftrightarrow> certs_wf s' \<and>
     fst (agentCertificates s') = fst (agentCertificates s) \<and>
     tlook (agentCertificates s') =
      (\<lambda>j. if j \<in> K then map_option (revoke_if agentID reason now) (tlook (agentCertificates s) j)
           else tlook (agentCertificates s) j) \<and>
     revokedCertificates s' =
      (\<lambda>n. if n \<in> K \<and> has_active agentID s n then Some (revoked_entry (newID n) n agentID reason revokedBy now)
           else revokedCertificates s n)"

lemma revoked_on_active:
  assumes "revoked_on agentID reason revokedBy now newID K s s'"
  shows "has_active agentID s' j \<longleftrightarrow> j \<notin> K \<and> has_active agentID s j"
  using assms by (auto simp: revoked_on_def has_active_def split: option.splits)

lemma revoke_visit_look:
  assumes "certs_wf s" and "revoke_visit agentID reason revokedBy now newID k (hit, s) = (hit', s')"
  shows "revoked_on agentID reason revokedBy now newID {k} s s' \<and> (hit' \<longleftrightarrow> hit \<or> has_active agentID s k)"
proof (cases "has_active agentID s k")
  case False
  then have "hit' = hit" "s' = s"
    using assms(2) by (auto simp: revoke_visit_def has_active_def active_cert_of_def split: option.splits)
  with assms(1) False show ?thesis
    by (auto simp: revoked_on_def has_active_def revoke_if_def fun_eq_iff option.map_ident split: option.splits)
next
  case True
  then obtain cert where c: "tlook (agentCertificates s) k = Some cert" "active_cert_of agentID cert"
    by (auto simp: has_active_def split: option.splits)
  have t: "table_ok (agentCertificates s)" and kb: "keyed_by acert_SerialNumber (tlook (agentCertificates s))"
    using assms(1) by (simp_all add: certs_wf_def)
  have serial: "acert_SerialNumber cert = k" using kb c(1) by (rule keyed_byD)
  have h: "hit'" and s': "s' = revoke_at k reason (revoked_entry (newID k) k agentID reason revokedBy now) now cert s"
    using assms(2) c serial by (auto simp: revoke_visit_def active_cert_of_def)
  have "certs_wf s'"
    using t kb c by (simp add: s' certs_wf_def table_ok_modify keyed_modify revoke_cert_def)
  with h c t True show ?thesis
    by (auto simp: s' revoked_on_def revoke_if_def tlook_modify fun_eq_iff revoked_entry_def)
qed

lemma revoke_loop_look:
  assumes "certs_wf s"
    and "fold (revoke_visit agentID reason revokedBy now newID) ks (hit, s) = (hit', s')"
  shows "revoked_on agentID reason revokedBy now newID (set ks) s s' \<and>
    (hit' \<longleftrightarrow> hit \<or> (\<exists>k \<in> set ks. has_active agentID s k))"
  using assms
proof (induction ks arbitrary: hit s)
  case (Cons k ks)
  obtain h1 s1 where v: "revoke_visit agentID reason revokedBy now newID k (hit, s) = (h1, s1)" by fastforce
  note l = revoke_visit_look [OF Cons.prems(1) v]
  have f: "fold (revoke_visit agentID reason revokedBy now newID) ks (h1, s1) = (hit', s')"
    using Cons.prems(2) v by simp
  have w: "certs_wf s1" using l by (simp add: revoked_on_def)
  have act: "has_active agentID s1 j \<longleftrightarrow> j \<noteq> k \<and> has_active agentID s j" for j
    using revoked_on_active [OF conjunct1 [OF l]] by auto
  show ?case using Cons.IH [OF w f] l
    by (auto simp: revoked_on_def act fun_eq_iff option.map_comp comp_def)
qed (simp add: revoked_on_def)

subsection \<open>Expired tokens\<close>

definition expired_token :: "time \<Rightarrow> SecurityStore \<Rightarrow> string \<Rightarrow> bool" where
  "expired_token now s k =
     (case tlook (registrationTokens s) k of None \<Rightarrow> False | Some rt \<Rightarrow> rt_ExpiresAt rt < now)"

definition token_frame :: "SecurityStore \<Rightarrow> SecurityStore \<Rightarrow> bool" where
  "token_frame s s' \<longleftrightarrow> (\<exists>t ops. s' = s\<lparr>registrationTokens := t, coreWrites := ops\<rparr>)"

lemma token_frame_refl [simp]: "token_frame s s"
  unfolding token_frame_def by (intro exI [of _ "registrationTokens s"] exI [of _ "coreWrites s"]) simp

lemma token_frameI: "token_frame s (s\<lparr>registrationTokens := t, coreWrites := ops\<rparr>)"
  unfolding token_frame_def by blast

lemma token_frame_trans: "token_frame s s' \<Longrightarrow> token_frame s' s'' \<Longrightarrow> token_frame s s''"
  unfolding token_frame_def by (clarsimp simp del: split_paired_Ex) blast

lemma drop_expired_step:
  assumes "table_ok (registrationTokens s)" and "drop_expired now k (n, s) = (n', s')"
  shows "table_ok (registrationTokens s')" and "token_frame s s'"
    and "tlook (registrationTokens s') =
      (if expired_token now s k then (tlook (registrationTokens s))(k := None) else tlook (registrationTokens s))"
    and "n' = (if expired_token now s k then n + 1 else n)"
  using assms
  by (auto simp: drop_expired_def expired_token_def table_ok_delete tlook_delete token_frameI queue_core_def
      split: option.splits if_splits)

lemma drop_expired_loop:
  assumes "table_ok (registrationTokens s)" and "distinct ks"
    and "fold (drop_expired now) ks (n, s) = (n', s')"
  shows "table_ok (registrationTokens s') \<and> token_frame s s' \<and>
     tlook (registrationTokens s') =
       (\<lambda>k. if k \<in> set ks \<and> expired_token now s k then None else tlook (registrationTokens s) k) \<and>
     n' = n + int (length (filter (expired_token now s) ks))"
  using assms
proof (induction ks arbitrary: n s)
  case (Cons k ks)
  obtain n1 s1 where v: "drop_expired now k (n, s) = (n1, s1)" by fastforce
  note d = drop_expired_step [OF Cons.prems(1) v]
  have f: "fold (drop_expired now) ks (n1, s1) = (n', s')" using Cons.prems(3) v by simp
  have e: "expired_token now s1 j = expired_token now s j" if "j \<noteq> k" for j
    using that by (simp add: expired_token_def d(3))
  have eq: "filter (expired_token now s1) ks = filter (expired_token now s) ks"
    using Cons.prems(2) e by (intro filter_cong) (simp, metis distinct.simps(2))
  have "distinct ks" using Cons.prems(2) by simp
  note ih = Cons.IH [OF d(1) this f]
  moreover have "token_frame s s'" using ih d(2) token_frame_trans by blast
  moreover have "tlook (registrationTokens s') j =
      (if j \<in> set (k # ks) \<and> expired_token now s j then None else tlook (registrationTokens s) j)" for j
    using ih Cons.prems(2) by (cases "j = k") (auto simp: d(3) e)
  ultimately show ?case by (auto simp: eq d(4))
qed simp

subsection \<open>Recovery codes\<close>

definition code_frame :: "SecurityStore \<Rightarrow> SecurityStore \<Rightarrow> bool" where
  "code_frame s s' \<longleftrightarrow> (\<exists>objs ops. s' = s\<lparr>recoveryObjs := objs, coreWrites := ops\<rparr>)"

lemma code_frame_refl [simp]: "code_frame s s"
  unfolding code_frame_def by (intro exI [of _ "recoveryObjs s"] exI [of _ "coreWrites s"]) simp

lemma code_frameI: "code_frame s (s\<lparr>recoveryObjs := objs, coreWrites := ops\<rparr>)"
  unfolding code_frame_def by blast

lemma code_frame_trans: "code_frame s s' \<Longrightarrow> code_frame s' s'' \<Longrightarrow> code_frame s s''"
  unfolding code_frame_def by clarsimp blast

lemma queue_core_frame: "code_frame s (queue_core op s)"
  unfolding code_frame_def queue_core_def
  by (intro exI [of _ "recoveryObjs s"] exI [of _ "queueWrite (coreWrites s) op"]) simp

lemma delete_codes_frame: "code_frame s (delete_codes now rs s)" and
  recoveryObjs_delete_codes [simp]: "recoveryObjs (delete_codes now rs s) = recoveryObjs s"
  unfolding delete_codes_def
  by (induction rs arbitrary: s) (simp_all, metis code_frame_trans queue_core_frame)

definition new_code :: "string \<Rightarrow> time \<Rightarrow> string \<times> RecoveryCode \<Rightarrow> RecoveryCode" where
  "new_code userID now = (\<lambda>(i, code). code\<lparr>rcode_ID := i, rcode_UserID := userID, rcode_CreatedAt := now\<rparr>)"

lemma store_codes_loop:
  "\<exists>s'. fold (store_code userID now) ics (rs, s) =
      (rs @ [length (recoveryObjs s)..<length (recoveryObjs s) + length ics], s') \<and>
    recoveryObjs s' = recoveryObjs s @ map (new_code userID now) ics \<and> code_frame s s'"
proof (induction ics arbitrary: rs s)
  case (Cons ic ics)
  let ?r = "length (recoveryObjs s)"
  let ?s1 = "queue_core (code_op WriteOpInsert now ?r) (s\<lparr>recoveryObjs := recoveryObjs s @ [new_code userID now ic]\<rparr>)"
  have step: "store_code userID now ic (rs, s) = (rs @ [?r], ?s1)"
    by (simp add: store_code_def new_obj_def new_code_def split: prod.splits)
  have "code_frame s ?s1" by (simp add: queue_core_def code_frameI)
  moreover obtain s' where
    "fold (store_code userID now) ics (rs @ [?r], ?s1) =
       ((rs @ [?r]) @ [length (recoveryObjs ?s1)..<length (recoveryObjs ?s1) + length ics], s')"
    "recoveryObjs s' = recoveryObjs ?s1 @ map (new_code userID now) ics" "code_frame ?s1 s'"
    using Cons.IH by blast
  ultimately show ?case using step code_frame_trans
    by (intro exI [of _ s']) (auto simp: upt_conv_Cons Suc_le_eq)
qed simp

lemma SaveRecoveryCodes_objs:
  assumes "s' = snd (SaveRecoveryCodes userID codes now newID s)"
  shows "recoveryObjs s' = recoveryObjs s @ map (new_code userID now) (zip (map newID [0..<length codes]) codes)"
    and "recoveryCodes s' = (recoveryCodes s)(userID \<mapsto>
      [length (recoveryObjs s)..<length (recoveryObjs s) + length codes])"
    and "\<exists>objs ops m. s' = s\<lparr>recoveryObjs := objs, coreWrites := ops, recoveryCodes := m\<rparr>"
proof -
  let ?d = "case recoveryCodes s userID of None \<Rightarrow> s | Some existing \<Rightarrow> delete_codes now existing s"
  have d: "recoveryObjs ?d = recoveryObjs s" "code_frame s ?d"
    by (simp_all add: delete_codes_frame split: option.split)
  obtain s1 where s1: "fold (store_code userID now) (zip (map newID [0..<length codes]) codes) ([], ?d) =
      ([length (recoveryObjs s)..<length (recoveryObjs s) + length codes], s1)"
    "recoveryObjs s1 = recoveryObjs s @ map (new_code userID now) (zip (map newID [0..<length codes]) codes)" "code_frame ?d s1"
    using store_codes_loop [of userID now "zip (map newID [0..<length codes]) codes" "[]" ?d] d(1) by auto
  have s': "s' = s1\<lparr>recoveryCodes := (recoveryCodes s1)(userID \<mapsto>
      [length (recoveryObjs s)..<length (recoveryObjs s) + length codes])\<rparr>"
    using s1(1) by (simp add: assms SaveRecoveryCodes_def Let_def)
  have fr: "code_frame s s1" using d(2) s1(3) code_frame_trans by blast
  then obtain objs ops where e: "s1 = s\<lparr>recoveryObjs := objs, coreWrites := ops\<rparr>" by (auto simp: code_frame_def)
  show "recoveryObjs s' = recoveryObjs s @ map (new_code userID now) (zip (map newID [0..<length codes]) codes)"
    using s1(2) by (simp add: s')
  show "recoveryCodes s' = (recoveryCodes s)(userID \<mapsto> [length (recoveryObjs s)..<length (recoveryObjs s) + length codes])"
    by (simp add: s' e)
  show "\<exists>objs ops m. s' = s\<lparr>recoveryObjs := objs, coreWrites := ops, recoveryCodes := m\<rparr>"
    unfolding s' e by blast
qed

section \<open>Every run of the operations\<close>

text \<open>One operation of the store. A listing order \<open>ks\<close> enumerates its table. The identifiers of new
  recovery codes, made by \<open>xid.New()\<close>, differ from each other and from the identifiers of all codes made
  before.\<close>

definition fresh_ids :: "(nat \<Rightarrow> string) \<Rightarrow> nat \<Rightarrow> SecurityStore \<Rightarrow> bool" where
  "fresh_ids newID n s \<longleftrightarrow> distinct (map newID [0..<n]) \<and>
     set (map newID [0..<n]) \<inter> set (map rcode_ID (recoveryObjs s)) = {}"

inductive security_step :: "SecurityStore \<Rightarrow> SecurityStore \<Rightarrow> bool" where
  SaveCA: "security_step s (snd (SaveCA ca now s))"
| SetCurrentCA: "enumerates ks (fst (certificateAuthorities s)) \<Longrightarrow> security_step s (snd (SetCurrentCA i now ks s))"
| SaveAgentCert: "security_step s (snd (SaveAgentCert cert now xid s))"
| RevokeAgentCert: "enumerates ks (fst (agentCertificates s)) \<Longrightarrow>
    security_step s (snd (RevokeAgentCert agentID reason revokedBy now newID ks s))"
| RevokeAgentCertBySerial: "security_step s (snd (RevokeAgentCertBySerial n reason revokedBy now xid s))"
| UpdateAgentCertStatus: "security_step s (snd (UpdateAgentCertStatus n status now s))"
| SaveServerCert: "security_step s (snd (SaveServerCert scert now xid s))"
| DeleteServerCert: "security_step s (snd (DeleteServerCert h now s))"
| SaveRegistrationToken: "security_step s (snd (SaveRegistrationToken rt now xid s))"
| DeleteRegistrationToken: "security_step s (snd (DeleteRegistrationToken token now s))"
| MarkTokenUsed: "security_step s (snd (MarkTokenUsed token now s))"
| CleanupExpiredTokens: "enumerates ks (fst (registrationTokens s)) \<Longrightarrow>
    security_step s (snd (CleanupExpiredTokens now ks s))"
| SaveSourceCredential: "security_step s (snd (SaveSourceCredential cred now xid s))"
| DeleteSourceCredential: "security_step s (snd (DeleteSourceCredential i now s))"
| SaveRevokedCert: "security_step s (snd (SaveRevokedCert revoked now xid s))"
| SaveEncryptionKey: "security_step s (snd (SaveEncryptionKey key now s))"
| UpdateEncryptionKeyStatus: "security_step s (snd (UpdateEncryptionKeyStatus i status at now s))"
| SaveSSHKey: "security_step s (snd (SaveSSHKey sk now xid s))"
| DeleteSSHKey: "security_step s (snd (DeleteSSHKey i now s))"
| SaveCertAuditEvent: "security_step s (snd (SaveCertAuditEvent event now xid s))"
| SaveACMECertificate: "security_step s (snd (SaveACMECertificate acme now xid s))"
| DeleteACMECertificate: "security_step s (snd (DeleteACMECertificate d now s))"
| SaveACMEAccount: "security_step s (snd (SaveACMEAccount acct now xid s))"
| DeleteACMEAccount: "security_step s (snd (DeleteACMEAccount e now s))"
| SaveRecoveryCodes: "fresh_ids newID (length codes) s \<Longrightarrow>
    security_step s (snd (SaveRecoveryCodes u codes now newID s))"
| UseRecoveryCode: "enumerates ks (recoveryCodes s) \<Longrightarrow> security_step s (snd (UseRecoveryCode c now ks s))"
| DeleteRecoveryCodes: "security_step s (snd (DeleteRecoveryCodes u now s))"

abbreviation security_steps :: "SecurityStore \<Rightarrow> SecurityStore \<Rightarrow> bool" where
  "security_steps \<equiv> security_step\<^sup>*\<^sup>*"

text \<open>What no operation takes back.\<close>

definition codes_grow :: "RecoveryCode list \<Rightarrow> RecoveryCode list \<Rightarrow> bool" where
  "codes_grow cs cs' \<longleftrightarrow> length cs \<le> length cs' \<and>
     (\<forall>r < length cs. rcode_ID (cs' ! r) = rcode_ID (cs ! r) \<and>
        (rcode_UsedAt (cs ! r) \<noteq> None \<longrightarrow> rcode_UsedAt (cs' ! r) = rcode_UsedAt (cs ! r)))"

definition history_kept :: "SecurityStore \<Rightarrow> SecurityStore \<Rightarrow> bool" where
  "history_kept s s' \<longleftrightarrow>
     dom (tlook (certificateAuthorities s)) \<subseteq> dom (tlook (certificateAuthorities s')) \<and>
     dom (tlook (encryptionKeys s)) \<subseteq> dom (tlook (encryptionKeys s')) \<and>
     dom (revokedCertificates s) \<subseteq> dom (revokedCertificates s') \<and>
     (\<exists>es. certAuditEvents s' = certAuditEvents s @ es) \<and>
     codes_grow (recoveryObjs s) (recoveryObjs s')"

definition step_ok :: "SecurityStore \<Rightarrow> SecurityStore \<Rightarrow> bool" where
  "step_ok s s' \<longleftrightarrow> security_wf s \<longrightarrow> security_wf s' \<and> history_kept s s'"

lemma codes_grow_refl [simp]: "codes_grow cs cs"
  by (simp add: codes_grow_def)

lemma codes_grow_append [simp]: "codes_grow cs (cs @ ds)"
  by (simp add: codes_grow_def nth_append)

lemma codes_grow_trans: "codes_grow a b \<Longrightarrow> codes_grow b c \<Longrightarrow> codes_grow a c"
  by (auto simp: codes_grow_def)

lemma history_kept_refl [simp]: "history_kept s s"
  by (simp add: history_kept_def)

lemma history_kept_trans: "history_kept s s' \<Longrightarrow> history_kept s' s'' \<Longrightarrow> history_kept s s''"
  unfolding history_kept_def by (elim conjE exE, intro conjI)
    (blast intro: subset_trans, blast intro: subset_trans, blast intro: subset_trans, simp, blast intro: codes_grow_trans)

lemma step_ok_refl [simp]: "step_ok s s"
  by (simp add: step_ok_def)

lemma step_ok_trans: "step_ok s s' \<Longrightarrow> step_ok s' s'' \<Longrightarrow> step_ok s s''"
  unfolding step_ok_def using history_kept_trans by blast

lemma step_ok_queue [simp]: "step_ok s (queue_core op s') = step_ok s s'"
  by (simp add: step_ok_def security_wf_def history_kept_def codes_wf_def)

lemma step_ok_coreWrites [simp]: "step_ok s (s'\<lparr>coreWrites := ops\<rparr>) = step_ok s s'"
  by (simp add: step_ok_def security_wf_def history_kept_def codes_wf_def)

lemma modify_ok:
  assumes "table_ok t" and "keyed_by ident (tlook t)" and "tlook t k = Some x" and "ident y = ident x"
  shows "table_ok (table_modify k y t) \<and> keyed_by ident (tlook (table_modify k y t)) \<and>
    dom (tlook t) \<subseteq> dom (tlook (table_modify k y t))"
  using keyed_modify [OF assms(2-4,1)] assms(1,3) by (auto simp: table_ok_modify tlook_modify)

lemma new_ok:
  assumes "table_ok t" and "keyed_by ident (tlook t)" and "ident x = k"
  shows "table_ok (table_new k x t) \<and> keyed_by ident (tlook (table_new k x t)) \<and>
    dom (tlook t) \<subseteq> dom (tlook (table_new k x t))"
  using keyed_new [OF assms] assms(1) by (auto simp: table_ok_new tlook_new)

lemma keyed_by_map_if:
  "keyed_by ident m \<Longrightarrow> (\<And>x. ident (f x) = ident x) \<Longrightarrow> keyed_by ident (\<lambda>j. if j \<in> K then map_option f (m j) else m j)"
  by (auto simp: keyed_by_def split: if_splits)

lemma dom_map_if: "dom (\<lambda>j. if j \<in> K then map_option f (m j) else m j) = dom m"
  by (auto simp: dom_def)

lemma retired_ID [simp]: "ca_ID (retired i now ca) = ca_ID ca"
  by (simp add: retired_def)

text \<open>One table is replaced by another.\<close>

lemma step_ok_ca:
  assumes "table_ok (certificateAuthorities s) \<Longrightarrow> keyed_by ca_ID (tlook (certificateAuthorities s)) \<Longrightarrow>
    table_ok t \<and> keyed_by ca_ID (tlook t) \<and> dom (tlook (certificateAuthorities s)) \<subseteq> dom (tlook t)"
  shows "step_ok s (s\<lparr>certificateAuthorities := t\<rparr>)"
  using assms by (simp add: step_ok_def security_wf_def history_kept_def codes_wf_def)

lemma step_ok_cert:
  assumes "table_ok (agentCertificates s) \<Longrightarrow> keyed_by acert_SerialNumber (tlook (agentCertificates s)) \<Longrightarrow>
    table_ok t \<and> keyed_by acert_SerialNumber (tlook t)"
  shows "step_ok s (s\<lparr>agentCertificates := t\<rparr>)"
  using assms by (simp add: step_ok_def security_wf_def history_kept_def codes_wf_def)

lemma step_ok_token:
  assumes "table_ok (registrationTokens s) \<Longrightarrow> keyed_by rt_Token (tlook (registrationTokens s)) \<Longrightarrow>
    table_ok t \<and> keyed_by rt_Token (tlook t)"
  shows "step_ok s (s\<lparr>registrationTokens := t\<rparr>)"
  using assms by (simp add: step_ok_def security_wf_def history_kept_def codes_wf_def)

lemma step_ok_key:
  assumes "table_ok (encryptionKeys s) \<Longrightarrow> keyed_by ek_ID (tlook (encryptionKeys s)) \<Longrightarrow>
    table_ok t \<and> keyed_by ek_ID (tlook t) \<and> dom (tlook (encryptionKeys s)) \<subseteq> dom (tlook t)"
  shows "step_ok s (s\<lparr>encryptionKeys := t\<rparr>)"
  using assms by (simp add: step_ok_def security_wf_def history_kept_def codes_wf_def)

lemma step_ok_codes:
  assumes "codes_wf s \<Longrightarrow> codes_wf s' \<and> codes_grow (recoveryObjs s) (recoveryObjs s')"
    and "\<exists>objs ops m. s' = s\<lparr>recoveryObjs := objs, coreWrites := ops, recoveryCodes := m\<rparr>"
  shows "step_ok s s'"
proof -
  obtain objs ops m where e: "s' = s\<lparr>recoveryObjs := objs, coreWrites := ops, recoveryCodes := m\<rparr>"
    using assms(2) by blast
  show ?thesis using assms(1) by (simp add: e step_ok_def security_wf_def history_kept_def)
qed

lemma step_ok_other [simp]:
  "step_ok s (s\<lparr>serverCertificates := a\<rparr>)" "step_ok s (s\<lparr>sourceCredentials := b\<rparr>)"
  "step_ok s (s\<lparr>sshKeys := c\<rparr>)" "step_ok s (s\<lparr>acmeCertificates := d\<rparr>)" "step_ok s (s\<lparr>acmeAccounts := e\<rparr>)"
  "step_ok s (s\<lparr>certAuditEvents := certAuditEvents s @ es, auditWrites := ops\<rparr>)"
  by (simp_all add: step_ok_def security_wf_def history_kept_def codes_wf_def)

lemma step_ok_revoked:
  "rev_SerialNumber r = n \<Longrightarrow> step_ok s (s\<lparr>revokedCertificates := (revokedCertificates s)(n \<mapsto> r)\<rparr>)"
  by (auto simp: step_ok_def security_wf_def history_kept_def codes_wf_def keyed_by_upd)

text \<open>Every operation keeps the tables well-formed and the history.\<close>

lemma step_ok_SetCurrentCA: "step_ok s (snd (SetCurrentCA i now ks s))"
proof (cases "tlook (certificateAuthorities s) i")
  case None
  then show ?thesis by (simp add: SetCurrentCA_def)
next
  case (Some ca)
  let ?u = "fold (retire_ca i now) ks s"
  obtain t ops where u: "?u = s\<lparr>certificateAuthorities := t, coreWrites := ops\<rparr>"
    using retire_all_frame [of s i now ks] unfolding ca_frame_def by blast
  have ok: "step_ok s ?u"
  proof -
    have "step_ok s (s\<lparr>certificateAuthorities := t\<rparr>)"
    proof (rule step_ok_ca)
      assume "table_ok (certificateAuthorities s)"
      note l = retire_all_look [OF this, of i now ks, unfolded u, simplified]
      assume "keyed_by ca_ID (tlook (certificateAuthorities s))"
      then show "table_ok t \<and> keyed_by ca_ID (tlook t) \<and> dom (tlook (certificateAuthorities s)) \<subseteq> dom (tlook t)"
        using l(1) keyed_by_map_if [of ca_ID _ "retired i now"] by (simp only: l(3) dom_map_if retired_ID) simp
    qed
    then show ?thesis by (simp add: u step_ok_def security_wf_def history_kept_def codes_wf_def)
  qed
  have "step_ok ?u (?u\<lparr>certificateAuthorities := table_modify i (ca'\<lparr>ca_IsCurrent := True, ca_Status := CAStatusActive\<rparr>)
      (certificateAuthorities ?u)\<rparr>)" if "tlook (certificateAuthorities ?u) i = Some ca'" for ca'
    by (rule step_ok_ca, rule modify_ok [OF _ _ that], assumption+) simp
  then show ?thesis using step_ok_trans [OF ok] ok
    by (simp add: SetCurrentCA_def Some Let_def split: option.split)
qed

lemma step_ok_RevokeAgentCert: "step_ok s (snd (RevokeAgentCert agentID reason revokedBy now newID ks s))"
proof -
  have one: "step_ok s (snd (revoke_visit agentID reason revokedBy now newID k (hit, s)))" for k hit s
  proof (cases "tlook (agentCertificates s) k")
    case (Some cert)
    let ?m = "s\<lparr>agentCertificates := table_modify k (revoke_cert reason now cert) (agentCertificates s)\<rparr>"
    have "step_ok s ?m"
      by (rule step_ok_cert, drule (1) modify_ok [OF _ _ Some, where y = "revoke_cert reason now cert"])
        (simp_all add: revoke_cert_def)
    then have "step_ok s (revoke_at k reason revoked now cert s)" for revoked
      using step_ok_trans [of s ?m] step_ok_revoked [of revoked _ ?m]
      by (simp add: revoke_at_def Let_def queue_core_def)
    then show ?thesis using Some by (simp add: revoke_visit_def)
  qed (simp add: revoke_visit_def)
  have "step_ok s (snd (fold (revoke_visit agentID reason revokedBy now newID) ks (hit, s)))" for hit s
  proof (induction ks arbitrary: hit s)
    case (Cons k ks)
    obtain h1 s1 where v: "revoke_visit agentID reason revokedBy now newID k (hit, s) = (h1, s1)" by fastforce
    then show ?case using step_ok_trans [OF _ Cons.IH [of s1 h1]] one [of s k hit] by simp
  qed simp
  then show ?thesis by (simp add: RevokeAgentCert_def case_prod_unfold Let_def)
qed

lemma step_ok_RevokeAgentCertBySerial: "step_ok s (snd (RevokeAgentCertBySerial n reason revokedBy now xid s))"
proof (cases "tlook (agentCertificates s) n")
  case (Some cert)
  let ?m = "s\<lparr>agentCertificates := table_modify n (revoke_cert reason now cert) (agentCertificates s)\<rparr>"
  have "step_ok s ?m"
    by (rule step_ok_cert, drule (1) modify_ok [OF _ _ Some, where y = "revoke_cert reason now cert"])
      (simp_all add: revoke_cert_def)
  then show ?thesis
    using step_ok_trans [of s ?m] step_ok_revoked [of "revoked_entry xid n (acert_AgentID cert) reason revokedBy now" _ ?m] Some
    by (simp add: RevokeAgentCertBySerial_def revoke_at_def Let_def queue_core_def)
qed (simp add: RevokeAgentCertBySerial_def)

lemma step_ok_CleanupExpiredTokens:
  assumes "enumerates ks (fst (registrationTokens s))"
  shows "step_ok s (snd (CleanupExpiredTokens now ks s))"
proof -
  obtain n s' where f: "fold (drop_expired now) ks (0, s) = (n, s')" by fastforce
  have d: "distinct ks" using assms by (simp add: enumerates_def)
  have "step_ok s s'"
  proof (cases "table_ok (registrationTokens s)")
    case True
    note l = drop_expired_loop [OF True d f]
    then obtain t ops where e: "s' = s\<lparr>registrationTokens := t, coreWrites := ops\<rparr>"
      unfolding token_frame_def by blast
    have "step_ok s (s\<lparr>registrationTokens := t\<rparr>)"
      using l by (intro step_ok_token) (auto simp: e keyed_by_def split: if_splits)
    then show ?thesis by (simp add: e)
  qed (simp add: step_ok_def security_wf_def)
  then show ?thesis by (simp add: CleanupExpiredTokens_def f)
qed

lemma step_ok_SaveRecoveryCodes:
  assumes "fresh_ids newID (length codes) s"
  shows "step_ok s (snd (SaveRecoveryCodes u codes now newID s))" (is "step_ok s ?s'")
proof -
  note o = SaveRecoveryCodes_objs [OF refl, of u codes now newID s]
  have "map rcode_ID (recoveryObjs ?s') = map rcode_ID (recoveryObjs s) @ map newID [0..<length codes]"
    by (simp add: o(1) new_code_def case_prod_unfold comp_def)
  then have d: "distinct (map rcode_ID (recoveryObjs ?s'))" if "codes_wf s"
    using that assms by (auto simp: codes_wf_def fresh_ids_def)
  have "codes_wf ?s'" if "codes_wf s"
    using that d by (auto simp: codes_wf_def o(2) o(1) nth_append new_code_def trans_less_add1 split: prod.split)
  then show ?thesis by (intro step_ok_codes o(3)) (simp add: o(1))
qed

lemma step_ok_UseRecoveryCode: "step_ok s (snd (UseRecoveryCode c now ks s))"
proof (cases "find (obj_sat (recoveryObjs s) (\<lambda>code. rcode_ID code = c)) (code_refs ks s)")
  case (Some r)
  show ?thesis
  proof (cases "load (recoveryObjs s) r")
    case (Some code)
    then have r: "r < length (recoveryObjs s)" "recoveryObjs s ! r = code" by (auto simp: load_def split: if_splits)
    let ?s' = "s\<lparr>recoveryObjs := (recoveryObjs s)[r := code\<lparr>rcode_UsedAt := Some now\<rparr>]\<rparr>"
    have "codes_wf ?s'" if "codes_wf s"
      using that r by (auto simp: codes_wf_def map_update nth_list_update) (metis list_update_id map_update)
    moreover have "codes_grow (recoveryObjs s) (recoveryObjs ?s')" if "rcode_UsedAt code = None"
      using that r by (auto simp: codes_grow_def nth_list_update)
    ultimately have "step_ok s ?s'" if "rcode_UsedAt code = None"
      using that by (auto simp: step_ok_def security_wf_def history_kept_def)
    then show ?thesis using Some \<open>find _ _ = _\<close> by (simp add: UseRecoveryCode_def assign_def)
  qed (use Some in \<open>simp add: UseRecoveryCode_def\<close>)
qed (simp add: UseRecoveryCode_def)

lemma step_ok_DeleteRecoveryCodes: "step_ok s (snd (DeleteRecoveryCodes u now s))"
proof (cases "recoveryCodes s u")
  case (Some codes)
  obtain objs ops where e: "delete_codes now codes s = s\<lparr>recoveryObjs := objs, coreWrites := ops\<rparr>"
    using delete_codes_frame [of s now codes] unfolding code_frame_def by blast
  have "objs = recoveryObjs s" using recoveryObjs_delete_codes [of now codes s] by (simp add: e)
  then show ?thesis
    by (auto simp: DeleteRecoveryCodes_def Some e step_ok_def security_wf_def history_kept_def codes_wf_def)
qed (simp add: DeleteRecoveryCodes_def)

text \<open>The operations on a single entry.\<close>

lemma step_ok_save:
  "step_ok s (snd (SaveCA ca now s))" "step_ok s (snd (SaveAgentCert cert now xid s))"
  "step_ok s (snd (SaveRegistrationToken rt now xid s))" "step_ok s (snd (SaveEncryptionKey key now s))"
  "step_ok s (snd (SaveRevokedCert revoked now xid s))"
  by (auto simp: SaveCA_def SaveAgentCert_def SaveRegistrationToken_def SaveEncryptionKey_def SaveRevokedCert_def Let_def
      intro!: step_ok_ca step_ok_cert step_ok_token step_ok_key step_ok_revoked table_ok_new keyed_new
      simp: tlook_new)

lemma with_key_status_ID [simp]: "ek_ID (with_key_status status at now key) = ek_ID key"
  by (simp add: with_key_status_def Let_def)

lemma step_ok_change:
  "step_ok s (snd (UpdateAgentCertStatus n status now s))" "step_ok s (snd (MarkTokenUsed token now s))"
  "step_ok s (snd (DeleteRegistrationToken token now s))" "step_ok s (snd (UpdateEncryptionKeyStatus i status at now s))"
  by (auto simp: UpdateAgentCertStatus_def MarkTokenUsed_def DeleteRegistrationToken_def UpdateEncryptionKeyStatus_def
      tlook_modify split: option.split
      intro!: step_ok_cert step_ok_token step_ok_key table_ok_modify table_ok_delete keyed_modify keyed_delete)

lemma step_ok_values:
  "step_ok s (snd (SaveServerCert scert now xid s))" "step_ok s (snd (DeleteServerCert h now s))"
  "step_ok s (snd (SaveSourceCredential cred now xid s))" "step_ok s (snd (DeleteSourceCredential i now s))"
  "step_ok s (snd (SaveSSHKey sk now xid s))" "step_ok s (snd (DeleteSSHKey i now s))"
  "step_ok s (snd (SaveCertAuditEvent event now xid s))"
  "step_ok s (snd (SaveACMECertificate acme now xid s))" "step_ok s (snd (DeleteACMECertificate d now s))"
  "step_ok s (snd (SaveACMEAccount acct now xid s))" "step_ok s (snd (DeleteACMEAccount e now s))"
  by (simp_all add: SaveServerCert_def DeleteServerCert_def SaveSourceCredential_def DeleteSourceCredential_def
      SaveSSHKey_def DeleteSSHKey_def SaveCertAuditEvent_def SaveACMECertificate_def DeleteACMECertificate_def
      SaveACMEAccount_def DeleteACMEAccount_def Let_def split: option.split)

lemma security_step_ok: "security_step s s' \<Longrightarrow> step_ok s s'"
  by (induction rule: security_step.induct)
    (simp_all add: step_ok_save step_ok_change step_ok_values step_ok_SetCurrentCA step_ok_RevokeAgentCert
      step_ok_RevokeAgentCertBySerial step_ok_CleanupExpiredTokens step_ok_SaveRecoveryCodes step_ok_UseRecoveryCode
      step_ok_DeleteRecoveryCodes)

lemma security_steps_ok: "security_steps s s' \<Longrightarrow> step_ok s s'"
  by (induction rule: rtranclp_induct) (auto intro: step_ok_trans security_step_ok)

section \<open>Properties\<close>

lemma found_Inr [simp]: "found v = Inr x \<longleftrightarrow> v = Some x"
  by (simp add: found_def split: option.split)

lemma found_Inl [simp]: "found v = Inl e \<longleftrightarrow> v = None \<and> e = ErrNotFound"
  by (auto simp: found_def split: option.split)

lemma reachable_wf: "security_steps NewSecurityStore s \<Longrightarrow> security_wf s"
  using security_steps_ok security_wf_New unfolding step_ok_def by blast


definition wit_ca :: CertificateAuthority where
  "wit_ca = \<lparr>ca_ID = ''ca1'', ca_Version = 1, ca_CommonName = ''vcdeploy'', ca_CertificatePEM = ''pem'',
     ca_PrivateKeyEnc = ''enc'', ca_NotBefore = 1, ca_NotAfter = 100, ca_Status = CAStatusActive,
     ca_IsCurrent = True, ca_CreatedAt = 1, ca_RotatedAt = None\<rparr>"

lemmas table_eval = table_new_def new_obj_def tlook_def deref_def load_def empty_table_def Let_def


lemma find_code:
  assumes "codes_wf s" and "find (obj_sat (recoveryObjs s) (\<lambda>code. rcode_ID code = c)) rs = Some r"
  shows "r < length (recoveryObjs s) \<and> rcode_ID (recoveryObjs s ! r) = c"
  using assms(2) by (auto simp: find_Some_iff obj_sat_def load_def split: if_splits)

lemma UseRecoveryCode_Inr:
  assumes "codes_wf s"
  shows "UseRecoveryCode c now ks s = (Inr (), s') \<Longrightarrow>
    \<exists>r. r < length (recoveryObjs s) \<and> rcode_ID (recoveryObjs s ! r) = c \<and> rcode_UsedAt (recoveryObjs s ! r) = None
      \<and> recoveryObjs s' = (recoveryObjs s)[r := (recoveryObjs s ! r)\<lparr>rcode_UsedAt := Some now\<rparr>]"
  using find_code [OF assms, of c "code_refs ks s"]
  by (auto simp: UseRecoveryCode_def load_def assign_def split: option.splits if_splits)

text \<open>C18: a recovery code works once. After a use that succeeded, no later use of the same code succeeds,
  whatever operations happen in between, even when the user's codes are replaced by new ones.\<close>

theorem recovery_code_once:
  assumes "security_steps NewSecurityStore s" and "enumerates ks (recoveryCodes s)"
    and "UseRecoveryCode c now ks s = (Inr (), s1)" and "security_steps s1 s'"
  shows "fst (UseRecoveryCode c now' ks' s') \<noteq> Inr ()"
proof
  assume "fst (UseRecoveryCode c now' ks' s') = Inr ()"
  then obtain s'' where u: "UseRecoveryCode c now' ks' s' = (Inr (), s'')" by (metis prod.collapse)
  have wf: "security_wf s" using reachable_wf assms(1) .
  have "security_step s s1" using security_step.UseRecoveryCode [OF assms(2), of c now] assms(3) by simp
  then have wf1: "security_wf s1" using security_step_ok wf unfolding step_ok_def by blast
  then have wf': "security_wf s'" and h: "codes_grow (recoveryObjs s1) (recoveryObjs s')"
    using security_steps_ok [OF assms(4)] by (auto simp: step_ok_def history_kept_def)
  obtain r where r: "r < length (recoveryObjs s)" "rcode_ID (recoveryObjs s ! r) = c"
      "recoveryObjs s1 = (recoveryObjs s)[r := (recoveryObjs s ! r)\<lparr>rcode_UsedAt := Some now\<rparr>]"
    using UseRecoveryCode_Inr [OF _ assms(3)] wf by (auto simp: security_wf_def)
  obtain q where q: "q < length (recoveryObjs s')" "rcode_ID (recoveryObjs s' ! q) = c"
      "rcode_UsedAt (recoveryObjs s' ! q) = None"
    using UseRecoveryCode_Inr [OF _ u] wf' by (auto simp: security_wf_def)
  have r': "r < length (recoveryObjs s')" "rcode_ID (recoveryObjs s' ! r) = c" "rcode_UsedAt (recoveryObjs s' ! r) = Some now"
    using h r by (auto simp: codes_grow_def)
  have "distinct (map rcode_ID (recoveryObjs s'))" using wf' by (simp add: security_wf_def codes_wf_def)
  then have "r = q" using q(1,2) r'(1,2) nth_eq_iff_index_eq by fastforce
  with q(3) r'(3) show False by simp
qed

definition wit_code :: RecoveryCode where
  "wit_code = \<lparr>rcode_ID = '''', rcode_UserID = '''', rcode_CodeHash = ''h'', rcode_UsedAt = None, rcode_CreatedAt = 0\<rparr>"

definition code_store :: SecurityStore where
  "code_store = snd (SaveRecoveryCodes ''u1'' [wit_code] 2 (\<lambda>_. ''k1'') NewSecurityStore)"

lemma code_store_reachable: "security_steps NewSecurityStore code_store"
  unfolding code_store_def
  by (rule r_into_rtranclp, rule security_step.SaveRecoveryCodes)
    (simp add: fresh_ids_def NewSecurityStore_def MemoryStore.defs)

lemma code_store_codes:
  "recoveryCodes code_store = [''u1'' \<mapsto> [0]]"
  "recoveryObjs code_store = [wit_code\<lparr>rcode_ID := ''k1'', rcode_UserID := ''u1'', rcode_CreatedAt := 2\<rparr>]"
  using SaveRecoveryCodes_objs [OF refl, of "''u1''" "[wit_code]" 2 "\<lambda>_. ''k1''" NewSecurityStore]
  by (simp_all add: code_store_def new_code_def NewSecurityStore_def MemoryStore.defs)

theorem recovery_code_once_witness:
  "fst (UseRecoveryCode ''k1'' 5 [''u1''] code_store) = Inr () \<and>
   fst (UseRecoveryCode ''k1'' 6 [''u1''] (snd (UseRecoveryCode ''k1'' 5 [''u1''] code_store))) \<noteq> Inr ()"
proof -
  have e: "enumerates [''u1''] (recoveryCodes code_store)" by (simp add: enumerates_def code_store_codes)
  have u: "UseRecoveryCode ''k1'' 5 [''u1''] code_store = (Inr (), snd (UseRecoveryCode ''k1'' 5 [''u1''] code_store))"
    by (simp add: UseRecoveryCode_def code_refs_def range_values_def code_store_codes obj_sat_def load_def wit_code_def)
  from recovery_code_once [OF code_store_reachable e u rtranclp.rtrancl_refl] u show ?thesis by (metis fst_conv)
qed


definition wit_cert :: AgentCertificate where
  "wit_cert = \<lparr>acert_ID = ''c1'', acert_AgentID = ''web1'', acert_CAID = ''ca1'', acert_SerialNumber = ''0a'',
     acert_CertificatePEM = ''pem'', acert_NotBefore = 1, acert_NotAfter = 90, acert_Status = CertStatusActive,
     acert_IssuedAt = 1, acert_RenewedAt = None, acert_RevokedAt = None, acert_RevocationReason = ''''\<rparr>"

definition cert_store :: SecurityStore where
  "cert_store = snd (SaveAgentCert wit_cert 2 ''-'' NewSecurityStore)"

lemma cert_store_reachable: "security_steps NewSecurityStore cert_store"
  unfolding cert_store_def by (rule r_into_rtranclp) (rule security_step.SaveAgentCert)

lemma cert_store_table: "agentCertificates cert_store = ([''0a'' \<mapsto> 0], [wit_cert])"
  by (simp add: cert_store_def SaveAgentCert_def wit_cert_def NewSecurityStore_def MemoryStore.defs table_eval IsZero_def)


text \<open>After an authority is made current it is the only current one. In every reachable state, making
  the authority \<open>i\<close> current succeeds exactly when it exists; then \<open>GetCurrentCA\<close> returns it, active,
  whatever order the map is visited in, and every other authority is kept, with another authority that was
  current marked inactive and rotated now.\<close>

theorem SetCurrentCA_unique:
  assumes "security_steps NewSecurityStore s" and "enumerates ks (fst (certificateAuthorities s))"
    and "SetCurrentCA i now ks s = (res, s')" and "GetCA i s = Inr ca"
    and "enumerates ks' (fst (certificateAuthorities s'))"
  shows "res = Inr () \<and> GetCurrentCA ks' s' = Inr (ca\<lparr>ca_IsCurrent := True, ca_Status := CAStatusActive\<rparr>)
    \<and> (\<forall>j other. j \<noteq> i \<longrightarrow> GetCA j s = Inr other \<longrightarrow> GetCA j s' = Inr (retired i now other))"
proof -
  have wf: "table_ok (certificateAuthorities s)" and kb: "keyed_by ca_ID (tlook (certificateAuthorities s))"
    using reachable_wf [OF assms(1)] by (simp_all add: security_wf_def)
  have ca: "tlook (certificateAuthorities s) i = Some ca" using assms(4) by (simp add: GetCA_def)
  let ?u = "fold (retire_ca i now) ks s"
  note l = retire_all_look [OF wf, of i now ks]
  have ks: "k \<in> set ks" if "tlook (certificateAuthorities s) k \<noteq> None" for k
    using that assms(2) wf tlook_None_iff [of "certificateAuthorities s" k] by (auto simp: enumerates_def)
  have lu: "tlook (certificateAuthorities ?u) j = map_option (retired i now) (tlook (certificateAuthorities s) j)" for j
    using ks [of j] by (cases "tlook (certificateAuthorities s) j") (simp_all add: l(3))
  have "retired i now ca = ca" using kb ca by (auto simp: retired_def dest: keyed_byD)
  then have ui: "tlook (certificateAuthorities ?u) i = Some ca" using lu ca by simp
  let ?ca = "ca\<lparr>ca_IsCurrent := True, ca_Status := CAStatusActive\<rparr>"
  have res: "res = Inr ()" and s': "certificateAuthorities s' = table_modify i ?ca (certificateAuthorities ?u)"
    using assms(3) by (auto simp: SetCurrentCA_def ca ui Let_def)
  have ls: "tlook (certificateAuthorities s') = (\<lambda>j. if j = i then Some ?ca
      else map_option (retired i now) (tlook (certificateAuthorities s) j))"
    using l(1) ui by (auto simp: s' tlook_modify lu fun_eq_iff)
  have ok': "table_ok (certificateAuthorities s')" using l(1) by (simp add: s' table_ok_modify)
  have only: "c = ?ca" if "c \<in> ran (tlook (certificateAuthorities s'))" and "ca_IsCurrent c" for c
  proof (rule ccontr)
    assume "c \<noteq> ?ca"
    with that(1) obtain j d where "j \<noteq> i" "tlook (certificateAuthorities s) j = Some d" "c = retired i now d"
      by (auto simp: ls ran_def split: if_splits)
    with that(2) kb show False by (auto simp: retired_def dest: keyed_byD split: if_splits)
  qed
  have "find ca_IsCurrent (table_objs ks' (certificateAuthorities s')) = Some ?ca"
  proof -
    have "?ca \<in> ran (tlook (certificateAuthorities s'))" by (auto simp: ran_def ls)
    then have "\<exists>c \<in> set (table_objs ks' (certificateAuthorities s')). ca_IsCurrent c"
      using set_table_objs [OF ok' assms(5)] by force
    then obtain c where c: "find ca_IsCurrent (table_objs ks' (certificateAuthorities s')) = Some c"
      by (metis find_None_iff option.exhaust)
    then have "c \<in> ran (tlook (certificateAuthorities s'))" "ca_IsCurrent c"
      using set_table_objs [OF ok' assms(5)] by (auto simp: find_Some_iff dest: nth_mem)
    with only c show ?thesis by simp
  qed
  then show ?thesis using res by (simp add: GetCurrentCA_def GetCA_def ls)
qed

theorem SetCurrentCA_unique_witness:
  "fst (SetCurrentCA ''ca1'' 9 [''ca1''] (snd (SaveCA (wit_ca\<lparr>ca_IsCurrent := False\<rparr>) 2 NewSecurityStore))) = Inr ()"
proof -
  let ?s = "snd (SaveCA (wit_ca\<lparr>ca_IsCurrent := False\<rparr>) 2 NewSecurityStore)"
  have a: "security_steps NewSecurityStore ?s" by (rule r_into_rtranclp) (rule security_step.SaveCA)
  have t: "certificateAuthorities ?s = ([''ca1'' \<mapsto> 0], [wit_ca\<lparr>ca_IsCurrent := False\<rparr>])"
    by (simp add: SaveCA_def wit_ca_def NewSecurityStore_def MemoryStore.defs table_eval IsZero_def)
  have e: "enumerates [''ca1''] (fst (certificateAuthorities ?s))" by (simp add: enumerates_def t)
  have g: "GetCA ''ca1'' ?s = Inr (wit_ca\<lparr>ca_IsCurrent := False\<rparr>)" by (simp add: GetCA_def t table_eval)
  obtain r s' where r: "SetCurrentCA ''ca1'' 9 [''ca1''] ?s = (r, s')" by fastforce
  then have "fst (certificateAuthorities s') = fst (certificateAuthorities ?s)"
    by (auto simp: SetCurrentCA_def retire_ca_def Let_def split: option.splits if_splits)
  with e have e': "enumerates [''ca1''] (fst (certificateAuthorities s'))" by simp
  from SetCurrentCA_unique [OF a e r g e'] r show ?thesis by simp
qed

section \<open>Lemmas for the callers\<close>

text \<open>A certificate on the revocation list can be active again in the certificate table: the status is set
  without a look at the list.\<close>

lemma revoked_cert_reactivated:
  assumes "table_ok (agentCertificates s)" and "GetAgentCertBySerial n s = Inr cert" and "IsRevoked n s"
  shows "GetAgentCertBySerial n (snd (UpdateAgentCertStatus n CertStatusActive now s)) =
      Inr (cert\<lparr>acert_Status := CertStatusActive\<rparr>) \<and> IsRevoked n (snd (UpdateAgentCertStatus n CertStatusActive now s))"
  using assms by (simp add: GetAgentCertBySerial_def UpdateAgentCertStatus_def IsRevoked_def tlook_modify)

lemma MarkTokenUsed_again:
  assumes "table_ok (registrationTokens s)" and "GetRegistrationToken token s = Inr rt"
  shows "fst (MarkTokenUsed token now s) = Inr ()"
    and "GetRegistrationToken token (snd (MarkTokenUsed token now s)) = Inr (rt\<lparr>rt_UsedAt := Some now\<rparr>)"
  using assms by (simp_all add: GetRegistrationToken_def MarkTokenUsed_def tlook_modify)

lemma CleanupExpiredTokens_exact:
  assumes "table_ok (registrationTokens s)" and "enumerates ks (fst (registrationTokens s))"
    and "CleanupExpiredTokens now ks s = (n, s')"
  shows "GetRegistrationToken token s' = Inr rt \<longleftrightarrow> GetRegistrationToken token s = Inr rt \<and> \<not> rt_ExpiresAt rt < now"
    and "n = int (card {k. expired_token now s k})"
proof -
  have d: "distinct ks" "set ks = dom (fst (registrationTokens s))" using assms(2) by (auto simp: enumerates_def)
  have f: "fold (drop_expired now) ks (0, s) = (n, s')" using assms(3) by (simp add: CleanupExpiredTokens_def)
  note l = drop_expired_loop [OF assms(1) d(1) f]
  have in_ks: "k \<in> set ks" if "tlook (registrationTokens s) k = Some x" for k x
    using that d(2) tlook_None_iff [OF assms(1), of k] by auto
  show "GetRegistrationToken token s' = Inr rt \<longleftrightarrow> GetRegistrationToken token s = Inr rt \<and> \<not> rt_ExpiresAt rt < now"
    using l in_ks by (auto simp: GetRegistrationToken_def expired_token_def split: option.splits if_splits)
  have "set (filter (expired_token now s) ks) = {k. expired_token now s k}"
    using in_ks by (auto simp: expired_token_def split: option.splits)
  then show "n = int (card {k. expired_token now s k})"
    using l d(1) distinct_card [of "filter (expired_token now s) ks"] by simp
qed

text \<open>The page of audit events: no slice expression is out of range, and negative offsets and limits
  mean none.\<close>

lemma ListCertAuditEvents_page:
  "ListCertAuditEvents filt s =
     Some (let events = drop (nat (caf_Offset filt)) (filter (event_matches filt) (certAuditEvents s))
           in if caf_Limit filt > 0 then take (nat (caf_Limit filt)) events else events)"
  by (auto simp: ListCertAuditEvents_def go_slice_def Let_def)

lemma load_nth: "r < length h \<Longrightarrow> load h r = Some (h ! r)"
  by (simp add: load_def)

text \<open>Saving recovery codes replaces the codes of the user, and all new codes are listed in order.\<close>

lemma ListRecoveryCodes_Save:
  "ListRecoveryCodes u (snd (SaveRecoveryCodes u codes now newID s)) =
     map (new_code u now) (zip (map newID [0..<length codes]) codes)"
proof -
  note o = SaveRecoveryCodes_objs [OF refl, of u codes now newID s]
  let ?new = "map (new_code u now) (zip (map newID [0..<length codes]) codes)"
  have "List.map_filter (load (xs @ ys)) [length xs..<length xs + length ys] = ys" for xs ys :: "RecoveryCode list"
    by (rule nth_equalityI) (auto simp: map_filter_def load_def nth_append filter_id_conv)
  from this [of "recoveryObjs s" ?new] show ?thesis by (simp add: ListRecoveryCodes_def codes_of_def o(1,2))
qed

end
