(* ===== verification/Security_Persist.thy ===== *)
theory Security_Persist
  imports Mem_Security Write_Behind
begin

text \<open>
  The security tables and the persistence layer. A pending write of this subsystem holds a pointer to an
  object that may still change; \<open>resolve\<close> follows it when the write is executed. The dispatch of
  \<open>executeWriteOp\<close> knows three of the twelve tables; for the others it logs a warning and succeeds.
\<close>

definition persisted_tables :: "string list" where
  "persisted_tables = [''acme_certificates'', ''acme_accounts'', ''recovery_codes'']"

definition unknown_tables :: "string list" where
  "unknown_tables =
     [''certificate_authorities'', ''agent_certificates'', ''server_certificates'', ''registration_tokens'',
      ''source_credentials'', ''revoked_certificates'', ''encryption_keys'', ''ssh_keys'', ''cert_audit_events'']"

definition resolve :: "SecurityStore \<Rightarrow> WriteOp \<Rightarrow> WriteOp" where
  "resolve s op =
     (case op_Data op of
        ObjPtr T r \<Rightarrow>
          (if T = ''RecoveryCode''
           then (case load (recoveryObjs s) r of
                   None \<Rightarrow> op | Some code \<Rightarrow> op\<lparr>op_Data := StructPtr T (recovery_fields code)\<rparr>)
           else op)
      | _ \<Rightarrow> op)"

definition execute_security :: "((string \<rightharpoonup> string) \<Rightarrow> string) \<Rightarrow> SecurityStore \<Rightarrow> WriteOp \<Rightarrow> exec_result" where
  "execute_security labelsJSON s op = executeWriteOp labelsJSON (MemoryStore.truncate s) (resolve s op)"

fun stmt_table :: "SqlStmt \<Rightarrow> string" where
  "stmt_table (SqlInsert t _) = t"
| "stmt_table (SqlUpsert t _ _ _) = t"
| "stmt_table (SqlUpdate t _ _ _) = t"
| "stmt_table (SqlDelete t _ _) = t"
| "stmt_table (SqlDeleteJoined t _ _) = t"
| "stmt_table (SqlDeleteBefore t _ _) = t"

section \<open>What the operations queue\<close>

definition queue_ok :: "SecurityStore \<Rightarrow> bool" where
  "queue_ok s \<longleftrightarrow> (\<forall>op \<in> set (coreWrites s @ auditWrites s). op_Table op \<in> set (persisted_tables @ unknown_tables))"

lemma table_NewWriteOp [simp]: "op_Table (NewWriteOp ty t d now) = t"
  by (simp add: NewWriteOp_def)

lemma table_obj_op [simp]: "op_Table (obj_op ty t T tab k now) = t"
  by (simp add: obj_op_def)

lemma table_code_op [simp]: "op_Table (code_op ty now r) = ''recovery_codes''"
  by (simp add: code_op_def)

lemma queue_ok_core [simp]:
  "queue_ok (queue_core op s) \<longleftrightarrow> op_Table op \<in> set (persisted_tables @ unknown_tables) \<and> queue_ok s"
  by (auto simp: queue_ok_def queue_core_def queueWrite_def)

lemma queue_ok_update [simp]:
  "queue_ok (s\<lparr>certificateAuthorities := a\<rparr>) = queue_ok s" "queue_ok (s\<lparr>agentCertificates := b\<rparr>) = queue_ok s"
  "queue_ok (s\<lparr>serverCertificates := c\<rparr>) = queue_ok s" "queue_ok (s\<lparr>registrationTokens := d\<rparr>) = queue_ok s"
  "queue_ok (s\<lparr>sourceCredentials := e\<rparr>) = queue_ok s" "queue_ok (s\<lparr>revokedCertificates := f\<rparr>) = queue_ok s"
  "queue_ok (s\<lparr>encryptionKeys := g\<rparr>) = queue_ok s" "queue_ok (s\<lparr>sshKeys := h\<rparr>) = queue_ok s"
  "queue_ok (s\<lparr>acmeCertificates := i\<rparr>) = queue_ok s" "queue_ok (s\<lparr>acmeAccounts := j\<rparr>) = queue_ok s"
  "queue_ok (s\<lparr>recoveryObjs := k\<rparr>) = queue_ok s" "queue_ok (s\<lparr>recoveryCodes := l\<rparr>) = queue_ok s"
  by (simp_all add: queue_ok_def)

lemma queue_ok_New: "queue_ok NewSecurityStore"
  by (simp add: queue_ok_def NewSecurityStore_def MemoryStore.defs NewMemoryStore_def)

lemma queue_ok_fold: "(\<And>x s. queue_ok s \<Longrightarrow> queue_ok (f x s)) \<Longrightarrow> queue_ok s \<Longrightarrow> queue_ok (fold f xs s)"
  by (induction xs arbitrary: s) auto

lemma queue_ok_fold_snd:
  "(\<And>x a s. queue_ok s \<Longrightarrow> queue_ok (snd (f x (a, s)))) \<Longrightarrow> queue_ok (snd p) \<Longrightarrow> queue_ok (snd (fold f xs p))"
  by (induction xs arbitrary: p) (auto, metis prod.collapse)

lemmas queue_tables = persisted_tables_def unknown_tables_def

lemma queue_ok_loops:
  "queue_ok s \<Longrightarrow> queue_ok (retire_ca i now k s)"
  "queue_ok s \<Longrightarrow> queue_ok (snd (revoke_visit agentID reason revokedBy now newID k (hit, s)))"
  "queue_ok s \<Longrightarrow> queue_ok (snd (drop_expired now k (n, s)))"
  "queue_ok s \<Longrightarrow> queue_ok (delete_codes now rs s)"
  "queue_ok s \<Longrightarrow> queue_ok (snd (store_code u now ic (rs, s)))"
proof -
  assume q: "queue_ok s"
  show "queue_ok (retire_ca i now k s)" using q by (simp add: retire_ca_def queue_tables split: option.split)
  show "queue_ok (snd (revoke_visit agentID reason revokedBy now newID k (hit, s)))"
    using q by (simp add: revoke_visit_def revoke_at_def Let_def queue_tables split: option.split)
  show "queue_ok (snd (drop_expired now k (n, s)))" using q by (simp add: drop_expired_def queue_tables split: option.split)
  show "queue_ok (delete_codes now rs s)"
    unfolding delete_codes_def using q by (rule queue_ok_fold [rotated]) (simp add: queue_tables)
  show "queue_ok (snd (store_code u now ic (rs, s)))"
    using q by (simp add: store_code_def new_obj_def queue_tables split: prod.split)
qed

lemma queue_ok_many:
  assumes "queue_ok s"
  shows "queue_ok (snd (SetCurrentCA i now ks s))"
    and "queue_ok (snd (RevokeAgentCert agentID reason revokedBy now newID ks s))"
    and "queue_ok (snd (CleanupExpiredTokens now ks s))"
    and "queue_ok (snd (SaveRecoveryCodes u codes now newID' s))"
proof -
  have "queue_ok (fold (retire_ca i now) ks s)" by (rule queue_ok_fold [OF queue_ok_loops(1) assms])
  then show "queue_ok (snd (SetCurrentCA i now ks s))"
    using assms by (simp add: SetCurrentCA_def Let_def queue_tables split: option.split)
  show "queue_ok (snd (RevokeAgentCert agentID reason revokedBy now newID ks s))"
    using queue_ok_fold_snd [where f = "revoke_visit agentID reason revokedBy now newID" and p = "(False, s)"] queue_ok_loops(2) assms
    by (simp add: RevokeAgentCert_def Let_def case_prod_unfold)
  show "queue_ok (snd (CleanupExpiredTokens now ks s))"
    using queue_ok_fold_snd [where f = "drop_expired now" and p = "(0, s)"] queue_ok_loops(3) assms
    by (simp add: CleanupExpiredTokens_def)
  let ?d = "case recoveryCodes s u of None \<Rightarrow> s | Some existing \<Rightarrow> delete_codes now existing s"
  have "queue_ok ?d" using assms queue_ok_loops(4) by (simp split: option.split)
  then show "queue_ok (snd (SaveRecoveryCodes u codes now newID' s))"
    using queue_ok_fold_snd [where f = "store_code u now" and p = "([], ?d)"] queue_ok_loops(5)
    by (simp add: SaveRecoveryCodes_def Let_def case_prod_unfold)
qed

lemma queue_ok_step: "security_step s s' \<Longrightarrow> queue_ok s \<Longrightarrow> queue_ok s'"
proof (induction rule: security_step.induct)
  case (SaveCertAuditEvent s event now xid)
  then show ?case by (simp add: SaveCertAuditEvent_def Let_def queue_ok_def queueWrite_def queue_tables)
qed (simp_all add: queue_ok_many queue_ok_loops(4) SaveCA_def SaveAgentCert_def RevokeAgentCertBySerial_def revoke_at_def
    UpdateAgentCertStatus_def SaveServerCert_def DeleteServerCert_def SaveRegistrationToken_def DeleteRegistrationToken_def
    MarkTokenUsed_def SaveSourceCredential_def DeleteSourceCredential_def SaveRevokedCert_def SaveEncryptionKey_def
    UpdateEncryptionKeyStatus_def SaveSSHKey_def DeleteSSHKey_def SaveACMECertificate_def DeleteACMECertificate_def
    SaveACMEAccount_def DeleteACMEAccount_def UseRecoveryCode_def DeleteRecoveryCodes_def Let_def queue_tables
    split: option.split)

lemma queue_ok_steps: "security_steps s s' \<Longrightarrow> queue_ok s \<Longrightarrow> queue_ok s'"
  by (induction rule: rtranclp_induct) (auto intro: queue_ok_step)

section \<open>What is executed\<close>

lemma resolve_Table [simp]: "op_Table (resolve s op) = op_Table op" "op_Type (resolve s op) = op_Type op"
  by (simp_all add: resolve_def split: WriteData.split option.split)

lemma unknown_table_ignored: "op_Table op \<in> set unknown_tables \<Longrightarrow> executeWriteOp lj s op = Inr None"
  by (auto simp: unknown_tables_def executeWriteOp_def)

lemma as_struct_Inr: "as_struct T err d f = Inr x \<Longrightarrow> \<exists>fs. f fs = Inr x"
  by (auto simp: as_struct_def split: WriteData.splits if_splits)

lemma persisted_table_stmt:
  assumes "op_Table op \<in> set persisted_tables" and "executeWriteOp lj s op = Inr (Some q)"
  shows "stmt_table q = op_Table op"
  using assms
  by (auto simp: persisted_tables_def executeWriteOp_def Let_def executeACMECertificateOp_def executeACMEAccountOp_def
      executeRecoveryCodeOp_def split: WriteOpType.splits dest!: as_struct_Inr)

text \<open>C20: authorities, agent and server certificates, registration tokens, credentials, revocations,
  encryption keys, SSH keys and certificate audit events never reach the database through the memory store.
  Whatever operations led to the present state, each write they queued, executed at any later state,
  succeeds without a statement, unless it is for ACME data or recovery codes. The changes are lost when
  the server restarts.\<close>

theorem security_tables_never_written:
  assumes "security_steps NewSecurityStore s" and "op \<in> set (coreWrites s @ auditWrites s)"
  shows "(op_Table op \<in> set unknown_tables \<longrightarrow> execute_security labelsJSON st op = Inr None)
    \<and> (\<forall>q. execute_security labelsJSON st op = Inr (Some q) \<longrightarrow> stmt_table q \<in> set persisted_tables)"
proof -
  have "queue_ok s" by (rule queue_ok_steps [OF assms(1) queue_ok_New])
  then have t: "op_Table op \<in> set persisted_tables \<or> op_Table op \<in> set unknown_tables"
    using assms(2) by (auto simp: queue_ok_def)
  have u: "execute_security labelsJSON st op = Inr None" if "op_Table op \<in> set unknown_tables"
    using that by (simp add: execute_security_def unknown_table_ignored)
  moreover have "stmt_table q \<in> set persisted_tables" if "execute_security labelsJSON st op = Inr (Some q)" for q
    using t u that persisted_table_stmt [of "resolve st op"] by (auto simp: execute_security_def)
  ultimately show ?thesis by blast
qed

theorem security_tables_never_written_witness:
  "execute_security (\<lambda>_. ''{}'') NewSecurityStore
     (last (coreWrites (snd (SaveCA wit_ca 2 NewSecurityStore)))) = Inr None"
proof -
  let ?s = "snd (SaveCA wit_ca 2 NewSecurityStore)"
  let ?op = "last (coreWrites ?s)"
  have a: "security_steps NewSecurityStore ?s" by (rule r_into_rtranclp) (rule security_step.SaveCA)
  have "coreWrites ?s \<noteq> []" by (simp add: SaveCA_def Let_def queue_core_def queueWrite_def)
  then have m: "?op \<in> set (coreWrites ?s @ auditWrites ?s)" by simp
  have "op_Table ?op \<in> set unknown_tables"
    by (simp add: SaveCA_def Let_def queue_core_def queueWrite_def unknown_tables_def)
  with security_tables_never_written [OF a m] show ?thesis by blast
qed

text \<open>Recovery codes are written: the row carries the fields the code has when the batch is flushed.\<close>

lemma recovery_code_row:
  assumes "load (recoveryObjs s) r = Some code"
  shows "execute_security lj s (code_op WriteOpInsert now r) =
     Inr (Some (SqlInsert ''recovery_codes''
       [(''id'', AnyString (rcode_ID code)), (''user_id'', AnyString (rcode_UserID code)),
        (''code_hash'', AnyString (rcode_CodeHash code)), (''used_at'', AnyTimePtr (rcode_UsedAt code)),
        (''created_at'', AnyTime (rcode_CreatedAt code))]))"
  using assms by (simp add: execute_security_def resolve_def code_op_def NewWriteOp_def executeWriteOp_def
      executeRecoveryCodeOp_def as_struct_def binds_def fld_def recovery_fields_def)

end
