(* ===== verification/Orchestrator.thy ===== *)
theory Orchestrator
  imports Ref_Table Go_Strings
begin

text \<open>
  The deployment orchestrator, \<open>internal/deploy/orchestrator.go\<close>, with the command types of
  \<open>internal/deploy/executor.go\<close>.

  The orchestrator keeps a map from identifiers to deployment objects. The objects are changed in place
  under their own mutex, after the lookup released the map's mutex, so the map holds references into a
  heap. The three callbacks are supplied by the caller: they are arguments of the model, functions on
  an environment \<open>'e\<close> that they may read and change (\<open>o_env\<close>). A missing callback is \<open>None\<close>.

  Every method is written once as it runs alone, and once as a thread: the list of its atomic sections
  (a callback, or what happens while a mutex is held). \<open>orch_step\<close> interleaves any number of threads.
\<close>

section \<open>Data\<close>

abbreviation StatusPending :: string where "StatusPending \<equiv> ''pending''"
abbreviation StatusQueued :: string where "StatusQueued \<equiv> ''queued''"
abbreviation StatusPreparing :: string where "StatusPreparing \<equiv> ''preparing''"
abbreviation StatusCloning :: string where "StatusCloning \<equiv> ''cloning''"
abbreviation StatusBuilding :: string where "StatusBuilding \<equiv> ''building''"
abbreviation StatusDeploying :: string where "StatusDeploying \<equiv> ''deploying''"
abbreviation StatusVerifying :: string where "StatusVerifying \<equiv> ''verifying''"
abbreviation StatusCompleted :: string where "StatusCompleted \<equiv> ''completed''"
abbreviation StatusFailed :: string where "StatusFailed \<equiv> ''failed''"
abbreviation StatusCancelled :: string where "StatusCancelled \<equiv> ''cancelled''"
abbreviation StatusRollingBack :: string where "StatusRollingBack \<equiv> ''rolling_back''"

text \<open>The test \<open>Status == StatusCompleted || Status == StatusFailed || Status == StatusCancelled\<close>.\<close>

definition is_finished :: "string \<Rightarrow> bool" where
  "is_finished st \<longleftrightarrow> st = StatusCompleted \<or> st = StatusFailed \<or> st = StatusCancelled"

record LogEntry =
  log_Timestamp :: time
  log_Level :: int
  log_Message :: string
  log_Source :: string

record ServiceReload =
  svc_Service :: string
  svc_Action :: string

record DeploySettings =
  set_Strategy :: string
  set_KeepReleases :: int
  set_SharedDirs :: "string list"
  set_SharedFiles :: "string list"
  set_WritableDirs :: "string list"
  set_ExecutionUser :: string
  set_ExecutionGroup :: string
  set_Timeout :: duration

record DeployCommand =
  cmd_DeploymentID :: string
  cmd_Project :: string
  cmd_Target :: string
  cmd_Repository :: string
  cmd_Branch :: string
  cmd_Commit :: string
  cmd_Path :: string
  cmd_Settings :: DeploySettings
  cmd_EnvVars :: "string \<rightharpoonup> string"
  cmd_EnvFileContent :: string
  cmd_PreDeployHooks :: "string list"
  cmd_PostDeployHooks :: "string list"
  cmd_ReloadServices :: "ServiceReload list"

record Deployment =
  dp_ID :: string
  dp_ProjectID :: string
  dp_TargetID :: string
  dp_AgentID :: string
  dp_Status :: string
  dp_Progress :: int
  dp_CurrentStep :: string
  dp_ReleaseNumber :: int
  dp_Repository :: string
  dp_Branch :: string
  dp_Commit :: string
  dp_CreatedAt :: time
  dp_StartedAt :: "time option"
  dp_CompletedAt :: "time option"
  dp_TriggeredBy :: string
  dp_TriggerSource :: string
  dp_Error :: "string option"
  dp_Logs :: "LogEntry list"

record DeployRequest =
  dr_ProjectID :: string
  dr_TargetID :: string
  dr_AgentID :: string
  dr_Repository :: string
  dr_Branch :: string
  dr_Commit :: string
  dr_Path :: string
  dr_Settings :: DeploySettings
  dr_EnvVars :: "string \<rightharpoonup> string"
  dr_EnvFileContent :: string
  dr_PreDeployHooks :: "string list"
  dr_PostDeployHooks :: "string list"
  dr_ReloadServices :: "ServiceReload list"
  dr_TriggeredBy :: string
  dr_TriggerSource :: string

record RollbackRequest =
  rr_ProjectID :: string
  rr_TargetID :: string
  rr_AgentID :: string
  rr_Path :: string
  rr_ReleaseNumber :: int
  rr_RollbackHooks :: "string list"
  rr_ReloadServices :: "ServiceReload list"
  rr_TriggeredBy :: string

record 'e OrchestratorConfig =
  OnStatusChange :: "(string \<Rightarrow> string \<Rightarrow> 'e \<Rightarrow> 'e) option"
  OnLog :: "(string \<Rightarrow> LogEntry \<Rightarrow> 'e \<Rightarrow> 'e) option"
  SendCommand :: "(string \<Rightarrow> DeployCommand \<Rightarrow> 'e \<Rightarrow> string option \<times> 'e) option"

record 'e Orchestrator =
  o_deployments :: "string \<rightharpoonup> ref"
  o_objs :: "Deployment heap"
  o_config :: "'e OrchestratorConfig"
  o_env :: 'e

definition NewOrchestrator :: "'e OrchestratorConfig \<Rightarrow> 'e \<Rightarrow> 'e Orchestrator" where
  "NewOrchestrator cfg env =
     \<lparr>o_deployments = Map.empty, o_objs = [], o_config = cfg, o_env = env\<rparr>"

section \<open>Methods\<close>

text \<open>\<open>o.deployments[id] = deployment\<close> for a new object.\<close>

definition store_deployment :: "Deployment \<Rightarrow> 'e Orchestrator \<Rightarrow> ref \<times> 'e Orchestrator" where
  "store_deployment d s =
     (case new_obj d (o_objs s) of
        (r, h) \<Rightarrow> (r, s\<lparr>o_deployments := (o_deployments s)(dp_ID d \<mapsto> r), o_objs := h\<rparr>))"

text \<open>What happens between \<open>deployment.mutex.Lock()\<close> and \<open>Unlock()\<close>.\<close>

definition locked :: "ref \<Rightarrow> (Deployment \<Rightarrow> Deployment) \<Rightarrow> 'e Orchestrator \<Rightarrow> 'e Orchestrator" where
  "locked r f s =
     (case load (o_objs s) r of None \<Rightarrow> s | Some d \<Rightarrow> s\<lparr>o_objs := assign (o_objs s) r (f d)\<rparr>)"

definition notifyStatusChange :: "string \<Rightarrow> string \<Rightarrow> 'e Orchestrator \<Rightarrow> 'e Orchestrator" where
  "notifyStatusChange deploymentID status s =
     (case OnStatusChange (o_config s) of
        None \<Rightarrow> s
      | Some f \<Rightarrow> s\<lparr>o_env := f deploymentID status (o_env s)\<rparr>)"

definition updateStatus :: "string \<Rightarrow> string \<Rightarrow> 'e Orchestrator \<Rightarrow> 'e Orchestrator" where
  "updateStatus deploymentID status s =
     (case o_deployments s deploymentID of
        None \<Rightarrow> s
      | Some r \<Rightarrow> notifyStatusChange deploymentID status (locked r (\<lambda>d. d\<lparr>dp_Status := status\<rparr>) s))"

definition updateStatusWithError ::
  "string \<Rightarrow> string \<Rightarrow> string \<Rightarrow> time \<Rightarrow> 'e Orchestrator \<Rightarrow> 'e Orchestrator" where
  "updateStatusWithError deploymentID status err now s =
     (case o_deployments s deploymentID of
        None \<Rightarrow> s
      | Some r \<Rightarrow> notifyStatusChange deploymentID status
          (locked r (\<lambda>d. d\<lparr>dp_Status := status, dp_Error := Some err, dp_CompletedAt := Some now\<rparr>) s))"

definition deploy_record :: "DeployRequest \<Rightarrow> string \<Rightarrow> time \<Rightarrow> Deployment" where
  "deploy_record req deploymentID now =
     \<lparr>dp_ID = deploymentID, dp_ProjectID = dr_ProjectID req, dp_TargetID = dr_TargetID req,
      dp_AgentID = dr_AgentID req, dp_Status = StatusPending, dp_Progress = 0, dp_CurrentStep = '''',
      dp_ReleaseNumber = 0, dp_Repository = dr_Repository req, dp_Branch = dr_Branch req,
      dp_Commit = dr_Commit req, dp_CreatedAt = now, dp_StartedAt = None, dp_CompletedAt = None,
      dp_TriggeredBy = dr_TriggeredBy req, dp_TriggerSource = dr_TriggerSource req,
      dp_Error = None, dp_Logs = []\<rparr>"

definition deploy_command :: "DeployRequest \<Rightarrow> string \<Rightarrow> DeployCommand" where
  "deploy_command req deploymentID =
     \<lparr>cmd_DeploymentID = deploymentID, cmd_Project = dr_ProjectID req, cmd_Target = dr_TargetID req,
      cmd_Repository = dr_Repository req, cmd_Branch = dr_Branch req, cmd_Commit = dr_Commit req,
      cmd_Path = dr_Path req, cmd_Settings = dr_Settings req, cmd_EnvVars = dr_EnvVars req,
      cmd_EnvFileContent = dr_EnvFileContent req, cmd_PreDeployHooks = dr_PreDeployHooks req,
      cmd_PostDeployHooks = dr_PostDeployHooks req, cmd_ReloadServices = dr_ReloadServices req\<rparr>"

text \<open>The result is the pair of the returned pointer and error; \<open>deploymentID\<close> is the fresh
  \<open>xid\<close>, \<open>now\<close> the creation time and \<open>now'\<close> the clock when sending has failed.\<close>

definition Deploy ::
  "DeployRequest \<Rightarrow> string \<Rightarrow> time \<Rightarrow> time \<Rightarrow> 'e Orchestrator \<Rightarrow> (ref option \<times> string option) \<times> 'e Orchestrator" where
  "Deploy req deploymentID now now' s =
     (if dr_ProjectID req = '''' then ((None, Some ''project_id is required''), s)
      else if dr_AgentID req = '''' then ((None, Some ''agent_id is required''), s)
      else if dr_Repository req = '''' then ((None, Some ''repository is required''), s)
      else
        (case store_deployment (deploy_record req deploymentID now) s of
           (r, s) \<Rightarrow>
             (let s = notifyStatusChange deploymentID StatusPending s
              in case SendCommand (o_config s) of
                   None \<Rightarrow> ((Some r, None), s)
                 | Some send \<Rightarrow>
                     (let s = updateStatus deploymentID StatusQueued s
                      in case send (dr_AgentID req) (deploy_command req deploymentID) (o_env s) of
                           (None, e) \<Rightarrow> ((Some r, None), s\<lparr>o_env := e\<rparr>)
                         | (Some err, e) \<Rightarrow>
                             ((Some r, Some (''sending deploy command: '' @ err)),
                              updateStatusWithError deploymentID StatusFailed err now' (s\<lparr>o_env := e\<rparr>))))))"

definition rollback_record :: "RollbackRequest \<Rightarrow> string \<Rightarrow> time \<Rightarrow> Deployment" where
  "rollback_record req deploymentID now =
     \<lparr>dp_ID = deploymentID, dp_ProjectID = rr_ProjectID req, dp_TargetID = rr_TargetID req,
      dp_AgentID = rr_AgentID req, dp_Status = StatusRollingBack, dp_Progress = 0, dp_CurrentStep = '''',
      dp_ReleaseNumber = 0, dp_Repository = '''', dp_Branch = '''', dp_Commit = '''',
      dp_CreatedAt = now, dp_StartedAt = None, dp_CompletedAt = None,
      dp_TriggeredBy = rr_TriggeredBy req, dp_TriggerSource = ''rollback'',
      dp_Error = None, dp_Logs = []\<rparr>"

definition Rollback ::
  "RollbackRequest \<Rightarrow> string \<Rightarrow> time \<Rightarrow> 'e Orchestrator \<Rightarrow> (ref option \<times> string option) \<times> 'e Orchestrator" where
  "Rollback req deploymentID now s =
     (if rr_ProjectID req = '''' then ((None, Some ''project_id is required''), s)
      else if rr_AgentID req = '''' then ((None, Some ''agent_id is required''), s)
      else
        (case store_deployment (rollback_record req deploymentID now) s of
           (r, s) \<Rightarrow> ((Some r, None), notifyStatusChange deploymentID StatusRollingBack s)))"

definition Cancel :: "string \<Rightarrow> string \<Rightarrow> time \<Rightarrow> 'e Orchestrator \<Rightarrow> string option \<times> 'e Orchestrator" where
  "Cancel deploymentID reason now s =
     (case o_deployments s deploymentID of
        None \<Rightarrow> (Some (''deployment '' @ deploymentID @ '' not found''), s)
      | Some r \<Rightarrow>
          if obj_sat (o_objs s) (\<lambda>d. is_finished (dp_Status d)) r
          then (Some (''deployment '' @ deploymentID @ '' is already finished''), s)
          else (None, updateStatusWithError deploymentID StatusCancelled (''cancelled: '' @ reason) now s))"

definition Orchestrator_GetDeployment :: "string \<Rightarrow> 'e Orchestrator \<Rightarrow> ref option" where
  "Orchestrator_GetDeployment deploymentID s = o_deployments s deploymentID"

definition ListDeployments :: "string list \<Rightarrow> 'e Orchestrator \<Rightarrow> Deployment list" where
  "ListDeployments ks s = range_objs ks (o_deployments s) (o_objs s)"

definition ListProjectDeployments :: "string list \<Rightarrow> string \<Rightarrow> 'e Orchestrator \<Rightarrow> Deployment list" where
  "ListProjectDeployments ks projectID s =
     filter (\<lambda>d. dp_ProjectID d = projectID) (range_objs ks (o_deployments s) (o_objs s))"

definition report :: "string \<Rightarrow> int \<Rightarrow> string \<Rightarrow> time \<Rightarrow> Deployment \<Rightarrow> Deployment" where
  "report status progress currentStep now d =
     (let d = d\<lparr>dp_Status := status, dp_Progress := progress, dp_CurrentStep := currentStep\<rparr>;
          d = (if status = StatusDeploying \<and> dp_StartedAt d = None then d\<lparr>dp_StartedAt := Some now\<rparr> else d)
      in if is_finished status then d\<lparr>dp_CompletedAt := Some now\<rparr> else d)"

definition UpdateDeploymentStatus ::
  "string \<Rightarrow> string \<Rightarrow> int \<Rightarrow> string \<Rightarrow> time \<Rightarrow> 'e Orchestrator \<Rightarrow> 'e Orchestrator" where
  "UpdateDeploymentStatus deploymentID status progress currentStep now s =
     (case o_deployments s deploymentID of
        None \<Rightarrow> s
      | Some r \<Rightarrow> notifyStatusChange deploymentID status (locked r (report status progress currentStep now) s))"

definition AddDeploymentLog :: "string \<Rightarrow> LogEntry \<Rightarrow> 'e Orchestrator \<Rightarrow> 'e Orchestrator" where
  "AddDeploymentLog deploymentID entry s =
     (case o_deployments s deploymentID of
        None \<Rightarrow> s
      | Some r \<Rightarrow>
          (let s = locked r (\<lambda>d. d\<lparr>dp_Logs := dp_Logs d @ [entry]\<rparr>) s
           in case OnLog (o_config s) of
                None \<Rightarrow> s
              | Some f \<Rightarrow> s\<lparr>o_env := f deploymentID entry (o_env s)\<rparr>))"

definition SetReleaseNumber :: "string \<Rightarrow> int \<Rightarrow> 'e Orchestrator \<Rightarrow> 'e Orchestrator" where
  "SetReleaseNumber deploymentID releaseNumber s =
     (case o_deployments s deploymentID of
        None \<Rightarrow> s
      | Some r \<Rightarrow> locked r (\<lambda>d. d\<lparr>dp_ReleaseNumber := releaseNumber\<rparr>) s)"

definition SetError :: "string \<Rightarrow> string \<Rightarrow> time \<Rightarrow> 'e Orchestrator \<Rightarrow> 'e Orchestrator" where
  "SetError deploymentID err now s = updateStatusWithError deploymentID StatusFailed err now s"

text \<open>Whether the scan of \<open>CleanupOldDeployments\<close> picks a deployment.\<close>

definition removable :: "time \<Rightarrow> Deployment \<Rightarrow> bool" where
  "removable cutoff d \<longleftrightarrow>
     is_finished (dp_Status d) \<and> (case dp_CompletedAt d of None \<Rightarrow> False | Some t \<Rightarrow> t < cutoff)"

definition remove_all :: "string list \<Rightarrow> 'e Orchestrator \<Rightarrow> 'e Orchestrator" where
  "remove_all ids s = s\<lparr>o_deployments := fold (\<lambda>i m. m(i := None)) ids (o_deployments s)\<rparr>"

definition Orchestrator_CleanupOldDeployments ::
  "string list \<Rightarrow> duration \<Rightarrow> time \<Rightarrow> 'e Orchestrator \<Rightarrow> nat \<times> 'e Orchestrator" where
  "Orchestrator_CleanupOldDeployments ks maxAge now s =
     (let cutoff = now - maxAge;
          toRemove = map fst (filter (\<lambda>(i, r, d). removable cutoff d) (ref_range ks (o_deployments s) (o_objs s)))
      in (length toRemove, if toRemove \<noteq> [] then remove_all toRemove s else s))"

section \<open>Threads\<close>

text \<open>A change made to a deployment while its mutex is held.\<close>

datatype change =
    NewStatus string
  | Failure string string
  | Progressed string int string
  | Logged LogEntry
  | Released int

fun apply_change :: "change \<Rightarrow> time \<Rightarrow> Deployment \<Rightarrow> Deployment" where
  "apply_change (NewStatus st) now d = d\<lparr>dp_Status := st\<rparr>"
| "apply_change (Failure st err) now d = d\<lparr>dp_Status := st, dp_Error := Some err, dp_CompletedAt := Some now\<rparr>"
| "apply_change (Progressed st p step) now d = report st p step now d"
| "apply_change (Logged entry) now d = d\<lparr>dp_Logs := dp_Logs d @ [entry]\<rparr>"
| "apply_change (Released n) now d = d\<lparr>dp_ReleaseNumber := n\<rparr>"

text \<open>The atomic sections: an insertion or a lookup under the map's mutex, a change or a test under the
  mutex of one deployment, a callback, one entry of the scan, the removal.\<close>

datatype task =
    Store Deployment
  | Notify string string
  | NotifyLog string LogEntry
  | Lookup string change
  | Locked ref string change
  | LookupCancel string string
  | CheckCancel ref string string
  | SendTo string DeployCommand
  | Scan time "string list" "string list"
  | RemoveAll "string list"

fun after_change :: "string \<Rightarrow> change \<Rightarrow> task list" where
  "after_change i (NewStatus st) = [Notify i st]"
| "after_change i (Failure st err) = [Notify i st]"
| "after_change i (Progressed st p step) = [Notify i st]"
| "after_change i (Logged entry) = [NotifyLog i entry]"
| "after_change i (Released n) = []"

text \<open>One atomic section: what the thread does next, and the orchestrator afterwards.\<close>

fun exec_task :: "task \<Rightarrow> time \<Rightarrow> 'e Orchestrator \<Rightarrow> task list \<times> 'e Orchestrator" where
  "exec_task (Store d) now s = ([], snd (store_deployment d s))"
| "exec_task (Notify i st) now s = ([], notifyStatusChange i st s)"
| "exec_task (NotifyLog i entry) now s =
     ([], case OnLog (o_config s) of None \<Rightarrow> s | Some f \<Rightarrow> s\<lparr>o_env := f i entry (o_env s)\<rparr>)"
| "exec_task (Lookup i c) now s = (case o_deployments s i of None \<Rightarrow> ([], s) | Some r \<Rightarrow> ([Locked r i c], s))"
| "exec_task (Locked r i c) now s = (after_change i c, locked r (apply_change c now) s)"
| "exec_task (LookupCancel i reason) now s =
     (case o_deployments s i of None \<Rightarrow> ([], s) | Some r \<Rightarrow> ([CheckCancel r i reason], s))"
| "exec_task (CheckCancel r i reason) now s =
     (if obj_sat (o_objs s) (\<lambda>d. is_finished (dp_Status d)) r then ([], s)
      else ([Lookup i (Failure StatusCancelled (''cancelled: '' @ reason))], s))"
| "exec_task (SendTo agent cmd) now s =
     (case SendCommand (o_config s) of
        None \<Rightarrow> ([], s)
      | Some send \<Rightarrow>
          (case send agent cmd (o_env s) of
             (None, e) \<Rightarrow> ([], s\<lparr>o_env := e\<rparr>)
           | (Some err, e) \<Rightarrow> ([Lookup (cmd_DeploymentID cmd) (Failure StatusFailed err)], s\<lparr>o_env := e\<rparr>)))"
| "exec_task (Scan cutoff [] found) now s = ((if found \<noteq> [] then [RemoveAll found] else []), s)"
| "exec_task (Scan cutoff (i # ks) found) now s =
     (case deref (o_deployments s) (o_objs s) i of
        None \<Rightarrow> ([Scan cutoff ks found], s)
      | Some d \<Rightarrow> ([Scan cutoff ks (if removable cutoff d then found @ [i] else found)], s))"
| "exec_task (RemoveAll ids) now s = ([], remove_all ids s)"

text \<open>The thread of each method that changes the state.\<close>

definition Deploy_thread :: "'e OrchestratorConfig \<Rightarrow> DeployRequest \<Rightarrow> string \<Rightarrow> time \<Rightarrow> task list" where
  "Deploy_thread cfg req i now =
     (if dr_ProjectID req = '''' \<or> dr_AgentID req = '''' \<or> dr_Repository req = '''' then []
      else [Store (deploy_record req i now), Notify i StatusPending]
           @ (if SendCommand cfg \<noteq> None
              then [Lookup i (NewStatus StatusQueued), SendTo (dr_AgentID req) (deploy_command req i)] else []))"

definition Rollback_thread :: "RollbackRequest \<Rightarrow> string \<Rightarrow> time \<Rightarrow> task list" where
  "Rollback_thread req i now =
     (if rr_ProjectID req = '''' \<or> rr_AgentID req = '''' then []
      else [Store (rollback_record req i now), Notify i StatusRollingBack])"

inductive method_thread :: "'e OrchestratorConfig \<Rightarrow> task list \<Rightarrow> bool" for cfg where
  "method_thread cfg (Deploy_thread cfg req i now)"
| "method_thread cfg (Rollback_thread req i now)"
| "method_thread cfg [LookupCancel i reason]"
| "method_thread cfg [Lookup i (Progressed st p step)]"
| "method_thread cfg [Lookup i (Logged entry)]"
| "method_thread cfg [Lookup i (Released n)]"
| "method_thread cfg [Lookup i (Failure StatusFailed err)]"
| "method_thread cfg [Scan cutoff ks []]"

text \<open>A step of the system: a method is called, or one thread executes its next section. A thread that
  has looked a deployment up keeps the pointer, even if the entry is removed meanwhile.\<close>

inductive orch_step ::
  "task list list \<times> 'e Orchestrator \<Rightarrow> task list list \<times> 'e Orchestrator \<Rightarrow> bool" where
  call: "method_thread (o_config s) t \<Longrightarrow> orch_step (ts, s) (ts @ [t], s)"
| exec: "n < length ts \<Longrightarrow> ts ! n = task # rest \<Longrightarrow> exec_task task now s = (cont, s') \<Longrightarrow>
    orch_step (ts, s) (ts[n := cont @ rest], s')"

definition orch_runs :: "task list list \<times> 'e Orchestrator \<Rightarrow> task list list \<times> 'e Orchestrator \<Rightarrow> bool" where
  "orch_runs = orch_step\<^sup>*\<^sup>*"

text \<open>A thread running alone, with the clock standing still; every section shortens what is left
  according to \<open>task_weight\<close>, so the recursion ends.\<close>

fun task_weight :: "task \<Rightarrow> nat" where
  "task_weight (Store d) = 1"
| "task_weight (Notify i st) = 1"
| "task_weight (NotifyLog i entry) = 1"
| "task_weight (Lookup i c) = 3"
| "task_weight (Locked r i c) = 2"
| "task_weight (LookupCancel i reason) = 5"
| "task_weight (CheckCancel r i reason) = 4"
| "task_weight (SendTo agent cmd) = 4"
| "task_weight (Scan cutoff ks found) = 2 + length ks"
| "task_weight (RemoveAll ids) = 1"

lemma exec_task_weight:
  "exec_task t now s = (cont, s') \<Longrightarrow> sum_list (map task_weight cont) < task_weight t"
proof (cases t)
  case (Locked r i c)
  assume "exec_task t now s = (cont, s')"
  with Locked show ?thesis by (cases c) auto
next
  case (Scan cutoff ks found)
  assume "exec_task t now s = (cont, s')"
  with Scan show ?thesis by (cases ks) (auto split: option.splits if_splits)
qed (auto split: option.splits if_splits prod.splits)

function run_alone :: "task list \<Rightarrow> time \<Rightarrow> 'e Orchestrator \<Rightarrow> 'e Orchestrator" where
  "run_alone [] now s = s"
| "run_alone (t # rest) now s =
     (case exec_task t now s of (cont, s') \<Rightarrow> run_alone (cont @ rest) now s')"
  by pat_completeness auto
termination
  by (relation "measure (\<lambda>(ts, now, s). sum_list (map task_weight ts))")
    (auto dest: exec_task_weight [OF sym])

section \<open>The threads are the methods\<close>

lemma notifyStatusChange_fields [simp]:
  "o_deployments (notifyStatusChange i st s) = o_deployments s"
  "o_objs (notifyStatusChange i st s) = o_objs s"
  "o_config (notifyStatusChange i st s) = o_config s"
  by (simp_all add: notifyStatusChange_def split: option.splits)

lemma locked_fields [simp]:
  "o_deployments (locked r f s) = o_deployments s" "o_config (locked r f s) = o_config s"
  "o_env (locked r f s) = o_env s"
  by (simp_all add: locked_def split: option.splits)

lemma store_deployment_fields [simp]:
  "o_deployments (snd (store_deployment d s)) = (o_deployments s)(dp_ID d \<mapsto> length (o_objs s))"
  "o_objs (snd (store_deployment d s)) = o_objs s @ [d]"
  "o_config (snd (store_deployment d s)) = o_config s"
  "o_env (snd (store_deployment d s)) = o_env s"
  "fst (store_deployment d s) = length (o_objs s)"
  by (simp_all add: store_deployment_def new_obj_def)

lemma updateStatus_fields [simp]:
  "o_deployments (updateStatus i st s) = o_deployments s" "o_config (updateStatus i st s) = o_config s"
  by (simp_all add: updateStatus_def split: option.splits)

lemma record_ids [simp]:
  "dp_ID (deploy_record req i now) = i" "dp_ID (rollback_record rreq i now) = i"
  "cmd_DeploymentID (deploy_command req i) = i"
  "dp_Status (deploy_record req i now) = StatusPending"
  "dp_Status (rollback_record rreq i now) = StatusRollingBack"
  by (simp_all add: deploy_record_def rollback_record_def deploy_command_def)

lemma apply_change_fun [simp]:
  "apply_change (NewStatus st) now = (\<lambda>d. d\<lparr>dp_Status := st\<rparr>)"
  "apply_change (Failure st err) now = (\<lambda>d. d\<lparr>dp_Status := st, dp_Error := Some err, dp_CompletedAt := Some now\<rparr>)"
  "apply_change (Progressed st p step) now = report st p step now"
  "apply_change (Logged entry) now = (\<lambda>d. d\<lparr>dp_Logs := dp_Logs d @ [entry]\<rparr>)"
  "apply_change (Released n) now = (\<lambda>d. d\<lparr>dp_ReleaseNumber := n\<rparr>)"
  by auto

lemma run_lookup:
  "run_alone [Lookup i c] now s =
     (case o_deployments s i of None \<Rightarrow> s | Some r \<Rightarrow> run_alone (after_change i c) now (locked r (apply_change c now) s))"
  by (simp split: option.splits)

lemma Deploy_alone: "run_alone (Deploy_thread (o_config s) req i now) now' s = snd (Deploy req i now now' s)"
proof -
  let ?s = "notifyStatusChange i StatusPending (snd (store_deployment (deploy_record req i now) s))"
  obtain r s1 where st: "store_deployment (deploy_record req i now) s = (r, s1)" by fastforce
  then have s1: "s1 = snd (store_deployment (deploy_record req i now) s)" by simp
  have c1: "o_config s1 = o_config s" unfolding s1 by simp
  have q: "run_alone (Lookup i (NewStatus StatusQueued) # ts) now' ?s
      = run_alone ts now' (updateStatus i StatusQueued ?s)" for ts
    by (simp add: updateStatus_def)
  have f: "run_alone [Lookup i (Failure StatusFailed err)] now' t = updateStatusWithError i StatusFailed err now' t"
    for err and t :: "'a Orchestrator"
    by (simp add: updateStatusWithError_def split: option.splits)
  show ?thesis
  proof (cases "SendCommand (o_config s)")
    case None
    then show ?thesis by (simp add: Deploy_thread_def Deploy_def st s1 [symmetric] c1 Let_def)
  next
    case (Some send)
    have "run_alone [SendTo (dr_AgentID req) (deploy_command req i)] now' t =
        (case send (dr_AgentID req) (deploy_command req i) (o_env t) of
           (None, e) \<Rightarrow> t\<lparr>o_env := e\<rparr>
         | (Some err, e) \<Rightarrow> updateStatusWithError i StatusFailed err now' (t\<lparr>o_env := e\<rparr>))"
      if "o_config t = o_config s" for t
      using that Some f by (auto simp del: run_alone.simps(2) simp: run_alone.simps(2) [of "SendTo a c" for a c]
          split: option.splits prod.splits)
    with Some q show ?thesis
      by (auto simp del: run_alone.simps(2) simp: run_alone.simps(2) [of "Store d" for d] run_alone.simps(2) [of "Notify a b" for a b]
          Deploy_thread_def Deploy_def st s1 [symmetric] c1 Let_def split: option.splits prod.splits)
  qed
qed

lemma scan_alone:
  "run_alone [Scan cutoff ks found] now s =
     (let found = found @ map fst (filter (\<lambda>(i, r, d). removable cutoff d) (ref_range ks (o_deployments s) (o_objs s)))
      in if found \<noteq> [] then remove_all found s else s)"
proof (induction ks arbitrary: found)
  case Nil
  then show ?case by (simp add: ref_range_def map_filter_def)
next
  case (Cons i ks)
  show ?case
  proof (cases "deref (o_deployments s) (o_objs s) i")
    case None
    then have "ref_range (i # ks) (o_deployments s) (o_objs s) = ref_range ks (o_deployments s) (o_objs s)"
      by (auto simp: ref_range_def map_filter_def deref_def split: option.splits)
    with None Cons.IH show ?thesis by (simp del: run_alone.simps(2) add: run_alone.simps(2) [of "Scan c (x # xs) f" for c x xs f])
  next
    case (Some d)
    then obtain r where "ref_range (i # ks) (o_deployments s) (o_objs s) = (i, r, d) # ref_range ks (o_deployments s) (o_objs s)"
      by (auto simp: ref_range_def map_filter_def deref_Some_iff)
    with Some Cons.IH show ?thesis
      by (auto simp del: run_alone.simps(2) simp: run_alone.simps(2) [of "Scan c (x # xs) f" for c x xs f] Let_def)
  qed
qed

lemma methods_alone:
  "run_alone (Rollback_thread rreq i t) now s = snd (Rollback rreq i t s)"
  "run_alone [LookupCancel i reason] now s = snd (Cancel i reason now s)"
  "run_alone [Lookup i (Progressed st p step)] now s = UpdateDeploymentStatus i st p step now s"
  "run_alone [Lookup i (Logged entry)] now s = AddDeploymentLog i entry s"
  "run_alone [Lookup i (Released n)] now s = SetReleaseNumber i n s"
  "run_alone [Lookup i (Failure StatusFailed err)] now s = SetError i err now s"
  "run_alone [Scan (now - maxAge) ks []] now s = snd (Orchestrator_CleanupOldDeployments ks maxAge now s)"
proof -
  show "run_alone (Rollback_thread rreq i t) now s = snd (Rollback rreq i t s)"
    by (simp add: Rollback_thread_def Rollback_def store_deployment_def split: prod.splits)
  show "run_alone [LookupCancel i reason] now s = snd (Cancel i reason now s)"
    by (simp add: Cancel_def updateStatusWithError_def split: option.splits)
  show "run_alone [Lookup i (Progressed st p step)] now s = UpdateDeploymentStatus i st p step now s"
    by (simp add: UpdateDeploymentStatus_def split: option.splits)
  show "run_alone [Lookup i (Logged entry)] now s = AddDeploymentLog i entry s"
    by (simp add: AddDeploymentLog_def Let_def split: option.splits)
  show "run_alone [Lookup i (Released n)] now s = SetReleaseNumber i n s"
    by (simp add: SetReleaseNumber_def split: option.splits)
  show "run_alone [Lookup i (Failure StatusFailed err)] now s = SetError i err now s"
    by (simp add: SetError_def updateStatusWithError_def split: option.splits)
  show "run_alone [Scan (now - maxAge) ks []] now s = snd (Orchestrator_CleanupOldDeployments ks maxAge now s)"
    unfolding scan_alone by (simp add: Orchestrator_CleanupOldDeployments_def Let_def)
qed

section \<open>Invariants of every interleaving\<close>

definition dep_ok :: "Deployment \<Rightarrow> bool" where
  "dep_ok d \<longleftrightarrow> (is_finished (dp_Status d) \<longrightarrow> dp_CompletedAt d \<noteq> None)"

definition orch_wf :: "'e Orchestrator \<Rightarrow> bool" where
  "orch_wf s \<longleftrightarrow>
     (\<forall>i r. o_deployments s i = Some r \<longrightarrow> obj_sat (o_objs s) (\<lambda>d. dp_ID d = i) r)
     \<and> (\<forall>d \<in> set (o_objs s). dep_ok d)"

text \<open>How one deployment may change: the request data never do, the log only grows, and a start or a
  completion time stays set; the start time is not overwritten.\<close>

definition dep_evolves :: "Deployment \<Rightarrow> Deployment \<Rightarrow> bool" where
  "dep_evolves d d' \<longleftrightarrow>
     dp_ID d' = dp_ID d \<and> dp_ProjectID d' = dp_ProjectID d \<and> dp_TargetID d' = dp_TargetID d
     \<and> dp_AgentID d' = dp_AgentID d \<and> dp_Repository d' = dp_Repository d \<and> dp_Branch d' = dp_Branch d
     \<and> dp_Commit d' = dp_Commit d \<and> dp_CreatedAt d' = dp_CreatedAt d
     \<and> dp_TriggeredBy d' = dp_TriggeredBy d \<and> dp_TriggerSource d' = dp_TriggerSource d
     \<and> prefix (dp_Logs d) (dp_Logs d')
     \<and> (dp_StartedAt d \<noteq> None \<longrightarrow> dp_StartedAt d' = dp_StartedAt d)
     \<and> (dp_CompletedAt d \<noteq> None \<longrightarrow> dp_CompletedAt d' \<noteq> None)"

lemma dep_evolves_refl [simp]: "dep_evolves d d"
  by (simp add: dep_evolves_def)

lemma dep_evolves_trans: "dep_evolves d d' \<Longrightarrow> dep_evolves d' d'' \<Longrightarrow> dep_evolves d d''"
  unfolding dep_evolves_def by (auto dest: prefix_order.trans)

lemma apply_change_evolves: "dep_evolves d (apply_change c now d)"
  by (cases c) (auto simp: dep_evolves_def report_def Let_def)

fun change_ok :: "change \<Rightarrow> bool" where
  "change_ok (NewStatus st) = (\<not> is_finished st)"
| "change_ok _ = True"

fun task_ok :: "task \<Rightarrow> bool" where
  "task_ok (Store d) = dep_ok d"
| "task_ok (Lookup i c) = change_ok c"
| "task_ok (Locked r i c) = change_ok c"
| "task_ok _ = True"

lemma apply_change_ok: "dep_ok d \<Longrightarrow> change_ok c \<Longrightarrow> dep_ok (apply_change c now d)"
  by (cases c) (auto simp: dep_ok_def report_def Let_def)

lemma obj_sat_append: "obj_sat h P r \<Longrightarrow> obj_sat (h @ [x]) P r"
  by (auto simp: obj_sat_def heap_simps load_length split: option.splits)

lemma orch_wf_store: "orch_wf s \<Longrightarrow> dep_ok d \<Longrightarrow> orch_wf (snd (store_deployment d s))"
  by (auto simp: orch_wf_def obj_sat_append) (simp add: obj_sat_def heap_simps)

lemma orch_wf_locked:
  assumes "orch_wf s" and "\<And>d. dep_ok d \<Longrightarrow> dep_ok (f d)" and "\<And>d. dp_ID (f d) = dp_ID d"
  shows "orch_wf (locked r f s)"
proof (cases "load (o_objs s) r")
  case None
  with assms(1) show ?thesis by (simp add: locked_def)
next
  case (Some d)
  then have "d \<in> set (o_objs s)" by (auto simp: load_def split: if_splits)
  then have "\<forall>x \<in> set (assign (o_objs s) r (f d)). dep_ok x"
    using assms set_update_subset_insert [of "o_objs s" r "f d"] by (auto simp: orch_wf_def assign_def)
  moreover have "obj_sat (assign (o_objs s) r (f d)) (\<lambda>x. dp_ID x = i) q"
    if "obj_sat (o_objs s) (\<lambda>x. dp_ID x = i) q" for i q
    using that Some assms(3) by (auto simp: obj_sat_def heap_simps split: option.splits)
  ultimately show ?thesis using assms(1) Some by (simp add: orch_wf_def locked_def)
qed

lemma remove_all_lookup: "fold (\<lambda>i m. m(i := None)) ids m i = (if i \<in> set ids then None else m i)"
  by (induction ids arbitrary: m) auto

lemma orch_wf_cong: "orch_wf s \<Longrightarrow> o_deployments s' = o_deployments s \<Longrightarrow> o_objs s' = o_objs s \<Longrightarrow> orch_wf s'"
  by (simp add: orch_wf_def)

lemma exec_task_keeps:
  assumes "exec_task t now s = (cont, s')" and "orch_wf s" and "task_ok t"
  shows "orch_wf s' \<and> list_all task_ok cont \<and> o_config s' = o_config s"
proof (cases t)
  case (Store d)
  with assms show ?thesis by (auto intro: orch_wf_store)
next
  case (Notify i st)
  with assms show ?thesis by (auto intro: orch_wf_cong)
next
  case (Locked r i c)
  have "dp_ID (apply_change c now d) = dp_ID d" for d
    using apply_change_evolves [of d c now] by (simp add: dep_evolves_def)
  with Locked assms have "orch_wf s'" by (auto intro: orch_wf_locked apply_change_ok)
  with Locked assms show ?thesis by (cases c) auto
next
  case (SendTo agent cmd)
  with assms show ?thesis by (auto intro: orch_wf_cong split: option.splits prod.splits)
next
  case (Scan cutoff ks found)
  with assms show ?thesis by (cases ks) (auto split: option.splits)
next
  case (RemoveAll ids)
  with assms show ?thesis by (auto simp: orch_wf_def remove_all_def remove_all_lookup split: if_splits)
qed (use assms in \<open>auto intro: orch_wf_cong split: option.splits if_splits\<close>)

lemma load_locked:
  "load (o_objs (locked r f s)) q = (if q = r then map_option f (load (o_objs s) r) else load (o_objs s) q)"
  by (auto simp: locked_def heap_simps split: option.splits)

lemma exec_task_evolves:
  assumes "exec_task t now s = (cont, s')" and "load (o_objs s) r = Some d"
  shows "\<exists>d'. load (o_objs s') r = Some d' \<and> dep_evolves d d'"
proof (cases t)
  case (Store x)
  with assms have "load (o_objs s') r = Some d" by (auto simp: load_def nth_append split: if_splits)
  then show ?thesis by auto
next
  case (Locked q i c)
  with assms show ?thesis by (auto simp: load_locked apply_change_evolves)
next
  case (Scan cutoff ks found)
  with assms show ?thesis by (cases ks) (auto split: option.splits)
next
  case (RemoveAll ids)
  with assms show ?thesis by (auto simp: remove_all_def)
qed (use assms in \<open>auto split: option.splits prod.splits if_splits\<close>)

lemma method_thread_ok: "method_thread cfg t \<Longrightarrow> list_all task_ok t"
  by (induction rule: method_thread.induct)
    (auto simp: Deploy_thread_def Rollback_thread_def dep_ok_def is_finished_def)

definition system_ok :: "task list list \<times> 'e Orchestrator \<Rightarrow> bool" where
  "system_ok c \<longleftrightarrow> list_all (list_all task_ok) (fst c) \<and> orch_wf (snd c)"

lemma orch_step_ok:
  assumes "orch_step c c'" and "system_ok c"
  shows "system_ok c'"
  using assms
proof cases
  case (call s t ts)
  with assms show ?thesis using method_thread_ok by (auto simp: system_ok_def)
next
  case (exec n ts task rest now s cont s')
  from exec assms(2) have "list_all task_ok (task # rest)" and "orch_wf s"
    by (auto simp: system_ok_def list_all_length)
  with exec_task_keeps [OF exec(5)] have "orch_wf s'" "list_all task_ok (cont @ rest)" by auto
  with exec assms(2) show ?thesis
    by (auto simp: system_ok_def list_all_iff dest!: set_update_subset_insert [THEN subsetD])
qed

lemma orch_runs_ok: "orch_runs c c' \<Longrightarrow> system_ok c \<Longrightarrow> system_ok c'"
  unfolding orch_runs_def by (induction rule: rtranclp_induct) (auto intro: orch_step_ok)

lemma orch_step_evolves:
  assumes "orch_step c c'" and "load (o_objs (snd c)) r = Some d"
  shows "\<exists>d'. load (o_objs (snd c')) r = Some d' \<and> dep_evolves d d'"
  using assms(1)
proof cases
  case (call s t ts)
  with assms show ?thesis by auto
next
  case (exec n ts task rest now s cont s')
  with assms(2) exec_task_evolves [OF exec(5)] show ?thesis by simp
qed

lemma orch_runs_evolves:
  "orch_runs c c' \<Longrightarrow> load (o_objs (snd c)) r = Some d \<Longrightarrow> \<exists>d'. load (o_objs (snd c')) r = Some d' \<and> dep_evolves d d'"
  unfolding orch_runs_def
proof (induction rule: rtranclp_induct)
  case (step c' c'')
  then show ?case using orch_step_evolves dep_evolves_trans by blast
qed auto

text \<open>C21: the orchestrator under concurrent use. In every interleaving of any number of calls of its
  methods, started on a new orchestrator, a deployment found under an identifier carries that
  identifier, and one that is completed, failed or cancelled has a completion time, so that the cleanup
  can age it. From then on, whatever else runs, what a deployment was requested with never changes,
  its log only grows, its start time is never overwritten and a completion time never disappears.\<close>

theorem orchestrator_interleaved:
  assumes "orch_runs ([], NewOrchestrator cfg env) (ts, s)"
    and "deref (o_deployments s) (o_objs s) i = Some d" and "o_deployments s i = Some r"
    and "orch_runs (ts, s) (ts', s')"
  shows "dp_ID d = i \<and> (is_finished (dp_Status d) \<longrightarrow> dp_CompletedAt d \<noteq> None)
    \<and> (\<exists>d'. load (o_objs s') r = Some d' \<and> dep_evolves d d')"
proof -
  have "orch_wf s"
    using orch_runs_ok [OF assms(1)] by (simp add: system_ok_def orch_wf_def NewOrchestrator_def)
  moreover have l: "load (o_objs s) r = Some d" using assms(2,3) by (simp add: deref_def)
  moreover from l have "d \<in> set (o_objs s)" by (auto simp: load_def split: if_splits)
  moreover have "obj_sat (o_objs s) (\<lambda>d. dp_ID d = i) r" using \<open>orch_wf s\<close> assms(3) by (simp add: orch_wf_def)
  ultimately have "dp_ID d = i" and "dep_ok d" by (auto simp: orch_wf_def obj_sat_def)
  with orch_runs_evolves [OF assms(4), of r d] l show ?thesis by (simp add: dep_ok_def)
qed

text \<open>A concrete run: a deployment is requested, stored and announced, then a log line arrives.\<close>

definition sample_request :: DeployRequest where
  "sample_request =
     \<lparr>dr_ProjectID = ''shop'', dr_TargetID = ''prod'', dr_AgentID = ''a1'', dr_Repository = ''git@host:shop'',
      dr_Branch = ''main'', dr_Commit = '''', dr_Path = ''/srv/shop'',
      dr_Settings = \<lparr>set_Strategy = ''symlink'', set_KeepReleases = 3, set_SharedDirs = [], set_SharedFiles = [],
        set_WritableDirs = [], set_ExecutionUser = '''', set_ExecutionGroup = '''', set_Timeout = 0\<rparr>,
      dr_EnvVars = Map.empty, dr_EnvFileContent = '''', dr_PreDeployHooks = [], dr_PostDeployHooks = [],
      dr_ReloadServices = [], dr_TriggeredBy = ''ann'', dr_TriggerSource = ''api''\<rparr>"

definition sample_entry :: LogEntry where
  "sample_entry = \<lparr>log_Timestamp = 6, log_Level = 1, log_Message = ''ok'', log_Source = ''deploy''\<rparr>"

text \<open>Callbacks that record the announced statuses in the environment, and an agent that cannot be
  reached.\<close>

definition sample_config :: "(string \<times> string) list OrchestratorConfig" where
  "sample_config =
     \<lparr>OnStatusChange = Some (\<lambda>i st e. e @ [(i, st)]), OnLog = None,
      SendCommand = Some (\<lambda>agent cmd e. (Some ''agent offline'', e))\<rparr>"

definition after_deploy :: "(string \<times> string) list Orchestrator" where
  "after_deploy = snd (Deploy sample_request ''d1'' 5 6 (NewOrchestrator sample_config []))"

lemma orch_runs_thread:
  "(\<And>ts. orch_runs (ts @ [t], s) (ts @ [[]], run_alone t now s))"
proof (induction t now s rule: run_alone.induct)
  case (1 now s)
  then show ?case by (simp add: orch_runs_def)
next
  case (2 t rest now s)
  obtain cont s' where e: "exec_task t now s = (cont, s')" by fastforce
  then have "orch_step (ts @ [t # rest], s) ((ts @ [t # rest])[length ts := cont @ rest], s')"
    by (intro orch_step.exec) auto
  then have "orch_step (ts @ [t # rest], s) (ts @ [cont @ rest], s')" by simp
  moreover have "orch_runs (ts @ [cont @ rest], s') (ts @ [[]], run_alone (cont @ rest) now s')"
    using "2.IH" e by simp
  ultimately show ?case using e unfolding orch_runs_def by (simp add: converse_rtranclp_into_rtranclp)
qed

text \<open>So a method run without interference is one of the interleavings.\<close>

lemma orch_runs_method:
  assumes "method_thread (o_config s) t"
  shows "orch_runs (ts, s) (ts @ [[]], run_alone t now s)"
  using orch_runs_thread [of ts t s now] orch_step.call [OF assms, of ts]
  unfolding orch_runs_def by (simp add: converse_rtranclp_into_rtranclp)

theorem orchestrator_interleaved_witness:
  "\<exists>d d'. load (o_objs after_deploy) 0 = Some d \<and> dp_ID d = ''d1''
     \<and> load (o_objs (AddDeploymentLog ''d1'' sample_entry after_deploy)) 0 = Some d' \<and> dep_evolves d d'"
proof -
  let ?s0 = "NewOrchestrator sample_config []"
  have "orch_runs ([], ?s0) ([] @ [[]], run_alone (Deploy_thread (o_config ?s0) sample_request ''d1'' 5) 6 ?s0)"
    by (intro orch_runs_method method_thread.intros)
  then have 1: "orch_runs ([], ?s0) ([[]], after_deploy)" by (simp add: Deploy_alone after_deploy_def)
  have "orch_runs ([[]], after_deploy) ([[]] @ [[]], run_alone [Lookup ''d1'' (Logged sample_entry)] 7 after_deploy)"
    by (intro orch_runs_method method_thread.intros)
  then have 2: "orch_runs ([[]], after_deploy) ([[], []], AddDeploymentLog ''d1'' sample_entry after_deploy)"
    by (simp only: methods_alone) simp
  have 3: "o_deployments after_deploy ''d1'' = Some 0" "\<exists>d. load (o_objs after_deploy) 0 = Some d"
    by (simp_all add: after_deploy_def Deploy_def sample_request_def sample_config_def NewOrchestrator_def store_deployment_def
        new_obj_def notifyStatusChange_def updateStatus_def updateStatusWithError_def locked_def load_def assign_def
        deploy_record_def)
  then obtain d where d: "load (o_objs after_deploy) 0 = Some d" by blast
  with 3 have "deref (o_deployments after_deploy) (o_objs after_deploy) ''d1'' = Some d" by (simp add: deref_def)
  from orchestrator_interleaved [OF 1 this 3(1) 2] d show ?thesis by blast
qed

section \<open>The methods one at a time\<close>

abbreviation dep_of :: "'e Orchestrator \<Rightarrow> string \<Rightarrow> Deployment option" where
  "dep_of s \<equiv> deref (o_deployments s) (o_objs s)"

lemma orch_wf_own_refs: "orch_wf s \<Longrightarrow> own_refs (o_deployments s) (o_objs s)"
proof -
  assume wf: "orch_wf s"
  have ex: "\<exists>d. load (o_objs s) r = Some d \<and> dp_ID d = i" if "o_deployments s i = Some r" for i r
  proof -
    have "obj_sat (o_objs s) (\<lambda>d. dp_ID d = i) r" using wf that by (simp add: orch_wf_def)
    then show ?thesis by (auto simp: obj_sat_def split: option.splits)
  qed
  show ?thesis unfolding own_refs_def using ex by (metis option.distinct(1) option.sel)
qed

lemma dep_of_store: "orch_wf s \<Longrightarrow> dep_of (snd (store_deployment d s)) = (dep_of s)(dp_ID d \<mapsto> d)"
  by (simp add: deref_new orch_wf_own_refs)

lemma dep_of_locked:
  assumes "orch_wf s" and "o_deployments s i = Some r"
  shows "dep_of (locked r f s) = (dep_of s)(i := map_option f (dep_of s i))"
proof -
  have own: "own_refs (o_deployments s) (o_objs s)" by (rule orch_wf_own_refs [OF assms(1)])
  obtain d where d: "load (o_objs s) r = Some d" by (rule own_refs_load [OF own assms(2)])
  then have "dep_of s i = Some d" using assms(2) by (simp add: deref_def)
  with d deref_assign [OF own assms(2)] show ?thesis by (simp add: locked_def)
qed

text \<open>A change of the deployment \<open>i\<close> is a change of that entry of the map of values.\<close>

definition change_at :: "string \<Rightarrow> (Deployment \<Rightarrow> Deployment) \<Rightarrow> (string \<rightharpoonup> Deployment) \<Rightarrow> (string \<rightharpoonup> Deployment)" where
  "change_at i f m = m(i := map_option f (m i))"

lemma change_at_apply: "change_at i f m j = (if j = i then map_option f (m i) else m j)"
  by (simp add: change_at_def)

lemma locked_change:
  "orch_wf s \<Longrightarrow> o_deployments s i = Some r \<Longrightarrow>
     deref (o_deployments s) (o_objs (locked r f s)) = change_at i f (dep_of s)"
  using dep_of_locked [of s i r f] by (simp add: change_at_def)

lemma absent_change: "o_deployments s i = None \<Longrightarrow> change_at i f (dep_of s) = dep_of s"
  by (auto simp: change_at_def deref_def)

lemma dep_of_updateStatus: "orch_wf s \<Longrightarrow> dep_of (updateStatus i st s) = change_at i (\<lambda>d. d\<lparr>dp_Status := st\<rparr>) (dep_of s)"
  by (cases "o_deployments s i") (simp_all add: updateStatus_def locked_change absent_change)

lemma dep_of_updateStatusWithError:
  "orch_wf s \<Longrightarrow> dep_of (updateStatusWithError i st err now s)
     = change_at i (\<lambda>d. d\<lparr>dp_Status := st, dp_Error := Some err, dp_CompletedAt := Some now\<rparr>) (dep_of s)"
  by (cases "o_deployments s i") (simp_all add: updateStatusWithError_def locked_change absent_change)

lemma dep_of_UpdateDeploymentStatus:
  "orch_wf s \<Longrightarrow> dep_of (UpdateDeploymentStatus i st p step now s) = change_at i (report st p step now) (dep_of s)"
  by (cases "o_deployments s i") (simp_all add: UpdateDeploymentStatus_def locked_change absent_change)

lemma dep_of_AddDeploymentLog:
  "orch_wf s \<Longrightarrow> dep_of (AddDeploymentLog i entry s) = change_at i (\<lambda>d. d\<lparr>dp_Logs := dp_Logs d @ [entry]\<rparr>) (dep_of s)"
  by (cases "o_deployments s i") (simp_all add: AddDeploymentLog_def locked_change absent_change Let_def split: option.splits)

lemma dep_of_SetReleaseNumber:
  "orch_wf s \<Longrightarrow> dep_of (SetReleaseNumber i n s) = change_at i (\<lambda>d. d\<lparr>dp_ReleaseNumber := n\<rparr>) (dep_of s)"
  by (cases "o_deployments s i") (simp_all add: SetReleaseNumber_def locked_change absent_change)

lemmas dep_of_methods = dep_of_store dep_of_updateStatus dep_of_updateStatusWithError dep_of_UpdateDeploymentStatus
  dep_of_AddDeploymentLog dep_of_SetReleaseNumber

text \<open>Every method keeps the invariant, because it is one of the interleavings.\<close>

lemma method_keeps_wf:
  assumes "orch_wf s" and "method_thread (o_config s) t"
  shows "orch_wf (run_alone t now s)"
  using orch_runs_ok [OF orch_runs_method [OF assms(2), of "[]" now]] assms(1) by (simp add: system_ok_def)

lemma orch_wf_notify: "orch_wf (notifyStatusChange i st s) = orch_wf s"
  by (simp add: orch_wf_def)

lemma updateStatus_wf: "orch_wf s \<Longrightarrow> \<not> is_finished st \<Longrightarrow> orch_wf (updateStatus i st s)"
  by (cases "o_deployments s i")
    (simp_all add: updateStatus_def dep_ok_def orch_wf_locked orch_wf_notify)

definition announce :: "'e OrchestratorConfig \<Rightarrow> string \<Rightarrow> string \<Rightarrow> 'e \<Rightarrow> 'e" where
  "announce cfg i st e = (case OnStatusChange cfg of None \<Rightarrow> e | Some f \<Rightarrow> f i st e)"

lemma notifyStatusChange_env: "o_env (notifyStatusChange i st s) = announce (o_config s) i st (o_env s)"
  by (simp add: notifyStatusChange_def announce_def split: option.splits)

lemma updateStatus_env:
  "o_deployments s i \<noteq> None \<Longrightarrow> o_env (updateStatus i st s) = announce (o_config s) i st (o_env s)"
  by (auto simp: updateStatus_def notifyStatusChange_env)

lemma updateStatusWithError_env:
  "o_deployments s i \<noteq> None \<Longrightarrow> o_env (updateStatusWithError i st err now s) = announce (o_config s) i st (o_env s)"
  by (auto simp: updateStatusWithError_def notifyStatusChange_env)

lemma updateStatusWithError_deployments [simp]:
  "o_deployments (updateStatusWithError i st err now s) = o_deployments s"
  "o_config (updateStatusWithError i st err now s) = o_config s"
  by (simp_all add: updateStatusWithError_def split: option.splits)

lemma orch_wf_env: "orch_wf (s\<lparr>o_env := e\<rparr>) = orch_wf s"
  by (simp add: orch_wf_def)

lemma Deploy_refused:
  assumes "dr_ProjectID req = '''' \<or> dr_AgentID req = '''' \<or> dr_Repository req = ''''"
  shows "\<exists>msg. Deploy req i now now' s = ((None, Some msg), s)"
  using assms by (elim disjE) (simp_all add: Deploy_def)

lemma Deploy_accepted:
  assumes "\<not> (dr_ProjectID req = '''' \<or> dr_AgentID req = '''' \<or> dr_Repository req = '''')"
  shows "Deploy req i now now' s =
      (let r = Some (length (o_objs s));
           s1 = notifyStatusChange i StatusPending (snd (store_deployment (deploy_record req i now) s));
           s2 = updateStatus i StatusQueued s1
       in case SendCommand (o_config s) of
         None \<Rightarrow> ((r, None), s1)
       | Some send \<Rightarrow> (case send (dr_AgentID req) (deploy_command req i) (o_env s2) of
           (None, e) \<Rightarrow> ((r, None), s2\<lparr>o_env := e\<rparr>)
         | (Some m, e) \<Rightarrow> ((r, Some (''sending deploy command: '' @ m)),
             updateStatusWithError i StatusFailed m now' (s2\<lparr>o_env := e\<rparr>))))"
  using assms by (simp add: Deploy_def Let_def case_prod_beta split: option.splits)

text \<open>C22: starting a deployment. A request without a project, an agent or a repository is refused and
  nothing happens. Otherwise the orchestrator keeps the new deployment under its identifier, and no
  other deployment changes. Without a way to send commands it stays pending; otherwise the agent is
  sent exactly one command, made from the request, after the statuses pending and queued were
  announced in this order. If sending succeeds the deployment is queued; if it fails, the error is
  returned together with the deployment, which is failed, completed and carries the error.\<close>

theorem Deploy_spec:
  assumes "orch_wf s" and "Deploy req i now now' s = ((res, err), s')"
  shows "if dr_ProjectID req = '''' \<or> dr_AgentID req = '''' \<or> dr_Repository req = ''''
    then res = None \<and> err \<noteq> None \<and> s' = s
    else (let cfg = o_config s; d = deploy_record req i now; e = announce cfg i StatusPending (o_env s)
      in res = o_deployments s' i \<and> res \<noteq> None
         \<and> (case SendCommand cfg of
              None \<Rightarrow> err = None \<and> dep_of s' = (dep_of s)(i \<mapsto> d) \<and> o_env s' = e
            | Some send \<Rightarrow>
                (case send (dr_AgentID req) (deploy_command req i) (announce cfg i StatusQueued e) of
                   (None, e') \<Rightarrow>
                     err = None \<and> dep_of s' = (dep_of s)(i \<mapsto> d\<lparr>dp_Status := StatusQueued\<rparr>) \<and> o_env s' = e'
                 | (Some m, e') \<Rightarrow>
                     err = Some (''sending deploy command: '' @ m)
                     \<and> dep_of s' = (dep_of s)(i \<mapsto> d\<lparr>dp_Status := StatusFailed, dp_Error := Some m, dp_CompletedAt := Some now'\<rparr>)
                     \<and> o_env s' = announce cfg i StatusFailed e')))"
proof (cases "dr_ProjectID req = '''' \<or> dr_AgentID req = '''' \<or> dr_Repository req = ''''")
  case True
  with Deploy_refused [OF True, of i now now' s] assms(2) show ?thesis by auto
next
  case False
  let ?d = "deploy_record req i now"
  let ?s1 = "notifyStatusChange i StatusPending (snd (store_deployment ?d s))"
  let ?s2 = "updateStatus i StatusQueued ?s1"
  have wf1: "orch_wf ?s1" using assms(1) by (simp add: orch_wf_notify orch_wf_store dep_ok_def is_finished_def)
  have wf2: "orch_wf ?s2" using wf1 by (simp add: updateStatus_wf is_finished_def)
  have d1: "dep_of ?s1 = (dep_of s)(i \<mapsto> ?d)" using dep_of_store [OF assms(1), of ?d] by simp
  have d2: "dep_of ?s2 = (dep_of s)(i \<mapsto> ?d\<lparr>dp_Status := StatusQueued\<rparr>)"
    using dep_of_updateStatus [OF wf1, of i StatusQueued] d1 by (simp add: change_at_def)
  have d3: "dep_of (updateStatusWithError i StatusFailed m now' (?s2\<lparr>o_env := e'\<rparr>))
      = (dep_of s)(i \<mapsto> ?d\<lparr>dp_Status := StatusFailed, dp_Error := Some m, dp_CompletedAt := Some now'\<rparr>)" for m e'
    using dep_of_updateStatusWithError [of "?s2\<lparr>o_env := e'\<rparr>" i StatusFailed m now'] wf2 d2
    by (simp add: change_at_def orch_wf_env)
  have e1: "o_env ?s1 = announce (o_config s) i StatusPending (o_env s)" by (simp add: notifyStatusChange_env)
  have e2: "o_env ?s2 = announce (o_config s) i StatusQueued (o_env ?s1)" by (simp add: updateStatus_env)
  note D = Deploy_accepted [OF False, of i now now' s, unfolded Let_def]
  show ?thesis
  proof (cases "SendCommand (o_config s)")
    case None
    with D assms(2) False d1 e1 show ?thesis by (auto simp: Let_def)
  next
    case (Some send)
    obtain oe e' where se: "send (dr_AgentID req) (deploy_command req i) (o_env ?s2) = (oe, e')" by fastforce
    show ?thesis
    proof (cases oe)
      case None
      with D assms(2) False Some d2 se e1 e2 show ?thesis by (auto simp: Let_def)
    next
      case m: (Some m)
      with D assms(2) False Some d3 se e1 e2 show ?thesis by (auto simp: Let_def updateStatusWithError_env)
    qed
  qed
qed

lemmas orch_eval = after_deploy_def Deploy_def sample_request_def sample_config_def NewOrchestrator_def store_deployment_def
  new_obj_def notifyStatusChange_def updateStatus_def updateStatusWithError_def locked_def load_def assign_def
  deploy_record_def deref_def announce_def

theorem Deploy_spec_witness:
  "o_env after_deploy = [(''d1'', StatusPending), (''d1'', StatusQueued), (''d1'', StatusFailed)]
    \<and> map_option dp_Status (dep_of after_deploy ''d1'') = Some StatusFailed"
proof -
  let ?s0 = "NewOrchestrator sample_config []"
  have wf: "orch_wf ?s0" by (simp add: orch_wf_def NewOrchestrator_def)
  obtain res err where "Deploy sample_request ''d1'' 5 6 ?s0 = ((res, err), after_deploy)"
    unfolding after_deploy_def by (metis prod.exhaust snd_conv)
  from Deploy_spec [OF wf this] show ?thesis
    by (simp add: sample_request_def sample_config_def NewOrchestrator_def announce_def deploy_record_def)
qed

section \<open>Cancelling and cleaning up\<close>

lemma Cancel_spec:
  assumes "orch_wf s" and "Cancel i reason now s = (err, s')"
  shows "case dep_of s i of
      None \<Rightarrow> err \<noteq> None \<and> s' = s
    | Some d \<Rightarrow> if is_finished (dp_Status d) then err \<noteq> None \<and> s' = s
        else err = None \<and> dep_of s' = (dep_of s)(i \<mapsto>
          d\<lparr>dp_Status := StatusCancelled, dp_Error := Some (''cancelled: '' @ reason), dp_CompletedAt := Some now\<rparr>)"
proof (cases "o_deployments s i")
  case None
  with assms(2) show ?thesis by (auto simp: Cancel_def deref_def)
next
  case (Some r)
  obtain d where d: "load (o_objs s) r = Some d" by (rule own_refs_load [OF orch_wf_own_refs [OF assms(1)] Some])
  with Some have di: "dep_of s i = Some d" by (simp add: deref_def)
  show ?thesis
  proof (cases "is_finished (dp_Status d)")
    case True
    with Some d di assms(2) show ?thesis by (auto simp: Cancel_def obj_sat_def)
  next
    case False
    with Some d assms(2) have "err = None" "s' = updateStatusWithError i StatusCancelled (''cancelled: '' @ reason) now s"
      by (auto simp: Cancel_def obj_sat_def)
    with False di dep_of_updateStatusWithError [OF assms(1)] show ?thesis by (simp add: change_at_def)
  qed
qed

lemma distinct_ref_range: "distinct ks \<Longrightarrow> distinct (map fst (ref_range ks m h))"
proof (induction ks)
  case (Cons k ks)
  have "k \<notin> set (map fst (ref_range ks m h))" using Cons.prems by (auto simp: ref_range_mem)
  with Cons show ?case by (auto simp: ref_range_def map_filter_simps split: option.splits)
qed (simp add: ref_range_def map_filter_def)

lemma removed_lookup:
  assumes "enumerates ks m"
  shows "fold (\<lambda>i m. m(i := None)) (map fst (filter (\<lambda>(i, r, d). P d) (ref_range ks m h))) m i
     = (case m i of None \<Rightarrow> None | Some r \<Rightarrow> if obj_sat h P r then None else Some r)"
proof -
  have "i \<in> set (map fst (filter (\<lambda>(i, r, d). P d) (ref_range ks m h)))
      \<longleftrightarrow> (\<exists>r d. m i = Some r \<and> load h r = Some d \<and> P d)"
    using assms by (force simp: ref_range_mem enumerates_def)
  then show ?thesis
    by (auto simp: remove_all_lookup obj_sat_def split: option.splits)
qed

text \<open>The cleanup of the orchestrator removes exactly the deployments that are finished and were
  completed before the cutoff, reports how many there were, and leaves every other deployment, however
  old, as it is. Together with the invariant that a finished deployment has a completion time, every
  finished deployment is removed by a cleanup late enough.\<close>

theorem Orchestrator_CleanupOldDeployments_spec:
  assumes "orch_wf s" and "enumerates ks (o_deployments s)"
    and "Orchestrator_CleanupOldDeployments ks maxAge now s = (n, s')"
  shows "(\<forall>i. dep_of s' i = (case dep_of s i of
             None \<Rightarrow> None | Some d \<Rightarrow> if removable (now - maxAge) d then None else Some d))
    \<and> n = card {i. \<exists>d. dep_of s i = Some d \<and> removable (now - maxAge) d}
    \<and> orch_wf s'
    \<and> (\<forall>i d. dep_of s i = Some d \<longrightarrow> is_finished (dp_Status d) \<longrightarrow> (\<exists>t. \<forall>now' > t. removable (now' - maxAge) d))"
proof -
  let ?rem = "map fst (filter (\<lambda>(i, r, d). removable (now - maxAge) d) (ref_range ks (o_deployments s) (o_objs s)))"
  have n: "n = length ?rem" and s': "s' = remove_all ?rem s"
    using assms(3) by (auto simp: Orchestrator_CleanupOldDeployments_def Let_def remove_all_def split: if_splits)
  have "distinct (map fst (ref_range ks (o_deployments s) (o_objs s)))"
    using assms(2) by (simp add: enumerates_def distinct_ref_range)
  then have "distinct ?rem" by (simp add: distinct_map_filter)
  moreover have "set ?rem = {i. \<exists>d. dep_of s i = Some d \<and> removable (now - maxAge) d}"
    using assms(2) by (force simp: ref_range_mem deref_Some_iff enumerates_def)
  ultimately have "n = card {i. \<exists>d. dep_of s i = Some d \<and> removable (now - maxAge) d}"
    using n distinct_card by metis
  moreover have look: "o_deployments s' i = (case o_deployments s i of None \<Rightarrow> None
      | Some r \<Rightarrow> if obj_sat (o_objs s) (removable (now - maxAge)) r then None else Some r)" for i
    using removed_lookup [OF assms(2)] by (simp add: s' remove_all_def)
  moreover have objs: "o_objs s' = o_objs s" by (simp add: s' remove_all_def)
  moreover have "dep_of s' i = (case dep_of s i of
        None \<Rightarrow> None | Some d \<Rightarrow> if removable (now - maxAge) d then None else Some d)" for i
    using look [of i] by (auto simp: deref_def objs obj_sat_def split: option.splits)
  moreover have "orch_wf s'" using assms(1) look by (auto simp: orch_wf_def objs split: option.splits if_splits)
  moreover have "\<exists>t. \<forall>now' > t. removable (now' - maxAge) d" if "dep_of s i = Some d" "is_finished (dp_Status d)" for i d
  proof -
    from that have "d \<in> set (o_objs s)" by (auto simp: deref_Some_iff load_def split: if_splits)
    with assms(1) that obtain t where "dp_CompletedAt d = Some t" by (auto simp: orch_wf_def dep_ok_def)
    with that show ?thesis by (intro exI [of _ "t + maxAge"]) (simp add: removable_def)
  qed
  ultimately show ?thesis by blast
qed

lemma after_deploy_wf: "orch_wf after_deploy"
proof -
  have "orch_wf (run_alone (Deploy_thread (o_config (NewOrchestrator sample_config [])) sample_request ''d1'' 5) 6
      (NewOrchestrator sample_config []))"
    by (intro method_keeps_wf method_thread.intros) (simp add: orch_wf_def NewOrchestrator_def)
  then show ?thesis by (simp add: Deploy_alone after_deploy_def)
qed

theorem Orchestrator_CleanupOldDeployments_spec_witness:
  "dep_of (snd (Orchestrator_CleanupOldDeployments [''d1''] 50 100 after_deploy)) ''d1'' = None
    \<and> dep_of after_deploy ''d1'' \<noteq> None"
proof -
  have e: "enumerates [''d1''] (o_deployments after_deploy)"
    by (auto simp: enumerates_def orch_eval split: if_splits)
  have d: "\<exists>d. dep_of after_deploy ''d1'' = Some d \<and> removable 50 d"
    by (simp add: orch_eval removable_def is_finished_def)
  obtain n s' where c: "Orchestrator_CleanupOldDeployments [''d1''] 50 100 after_deploy = (n, s')" by fastforce
  from Orchestrator_CleanupOldDeployments_spec [OF after_deploy_wf e this] c d show ?thesis by auto
qed

section \<open>What a listener knows\<close>

text \<open>A listener that stores the last status announced for every deployment; the other two callbacks do
  not touch what it stores.\<close>

definition listening :: "(string \<rightharpoonup> string) OrchestratorConfig \<Rightarrow> bool" where
  "listening cfg \<longleftrightarrow>
     OnStatusChange cfg = Some (\<lambda>i st e. e(i \<mapsto> st))
     \<and> (\<forall>f i l e. OnLog cfg = Some f \<longrightarrow> f i l e = e)
     \<and> (\<forall>f a c e. SendCommand cfg = Some f \<longrightarrow> snd (f a c e) = e)"

inductive method_call :: "'e Orchestrator \<Rightarrow> 'e Orchestrator \<Rightarrow> bool" for s where
  "method_call s (snd (Deploy req i now now' s))"
| "method_call s (snd (Rollback rreq i now s))"
| "method_call s (snd (Cancel i reason now s))"
| "method_call s (UpdateDeploymentStatus i st p step now s)"
| "method_call s (AddDeploymentLog i entry s)"
| "method_call s (SetReleaseNumber i n s)"
| "method_call s (SetError i err now s)"
| "method_call s (snd (Orchestrator_CleanupOldDeployments ks maxAge now s))"

definition mirrored :: "(string \<rightharpoonup> string) Orchestrator \<Rightarrow> bool" where
  "mirrored s \<longleftrightarrow> orch_wf s \<and> listening (o_config s) \<and> (\<forall>i d. dep_of s i = Some d \<longrightarrow> o_env s i = Some (dp_Status d))"

lemma announce_listening: "listening cfg \<Longrightarrow> announce cfg i st e = e(i \<mapsto> st)"
  by (simp add: listening_def announce_def)

lemma mirrored_store:
  assumes "mirrored s" and "dep_ok d" and "dp_ID d = i" and "dp_Status d = st"
  shows "mirrored (notifyStatusChange i st (snd (store_deployment d s)))"
  using assms dep_of_store [of s d]
  by (auto simp: mirrored_def orch_wf_notify orch_wf_store notifyStatusChange_env announce_listening split: if_splits)

lemma mirrored_change:
  assumes "mirrored s" and "o_deployments s i = Some r" and "\<And>d. dp_Status (f d) = st" and "\<And>d. dp_ID (f d) = dp_ID d"
    and "\<And>d. dep_ok d \<Longrightarrow> dep_ok (f d)"
  shows "mirrored (notifyStatusChange i st (locked r f s))"
proof -
  have wf: "orch_wf s" and c: "listening (o_config s)" using assms(1) by (simp_all add: mirrored_def)
  have "dep_of (locked r f s) = change_at i f (dep_of s)" using locked_change [OF wf assms(2)] by simp
  moreover have "orch_wf (locked r f s)" by (rule orch_wf_locked [OF wf assms(5,4)])
  ultimately show ?thesis using assms(1,3) c
    by (auto simp: mirrored_def orch_wf_notify notifyStatusChange_env announce_listening change_at_apply)
qed

lemma mirrored_quiet:
  assumes "mirrored s" and "\<And>d. dp_Status (f d) = dp_Status d" and "\<And>d. dp_ID (f d) = dp_ID d"
    and "\<And>d. dp_CompletedAt (f d) = dp_CompletedAt d" and "o_deployments s i = Some r"
  shows "mirrored (locked r f s)"
proof -
  have wf: "orch_wf s" using assms(1) by (simp add: mirrored_def)
  have "orch_wf (locked r f s)" by (rule orch_wf_locked [OF wf]) (simp_all add: assms dep_ok_def)
  with assms locked_change [OF wf assms(5)] show ?thesis by (auto simp: mirrored_def change_at_apply split: if_splits)
qed

lemma mirrored_updateStatusWithError: "mirrored s \<Longrightarrow> mirrored (updateStatusWithError i st err now s)"
  by (cases "o_deployments s i") (auto simp: updateStatusWithError_def dep_ok_def intro: mirrored_change)

lemma mirrored_updateStatus: "mirrored s \<Longrightarrow> \<not> is_finished st \<Longrightarrow> mirrored (updateStatus i st s)"
  by (cases "o_deployments s i") (auto simp: updateStatus_def dep_ok_def intro: mirrored_change)

lemma mirrored_Deploy: "mirrored s \<Longrightarrow> mirrored (snd (Deploy req i now now' s))"
proof (cases "dr_ProjectID req = '''' \<or> dr_AgentID req = '''' \<or> dr_Repository req = ''''")
  case True
  assume "mirrored s"
  with Deploy_refused [OF True, of i now now' s] show ?thesis by auto
next
  case False
  assume m: "mirrored s"
  let ?s1 = "notifyStatusChange i StatusPending (snd (store_deployment (deploy_record req i now) s))"
  have 1: "mirrored ?s1" using m by (intro mirrored_store) (simp_all add: dep_ok_def is_finished_def)
  then have 2: "mirrored (updateStatus i StatusQueued ?s1)" by (simp add: mirrored_updateStatus is_finished_def)
  have "SendCommand (o_config s) = Some send \<Longrightarrow> send a c e = (x, e') \<Longrightarrow> e' = e" for send a c e x e'
    using m unfolding mirrored_def listening_def by (metis snd_conv)
  with 1 2 show ?thesis
    by (fastforce simp: Deploy_accepted [OF False] Let_def intro: mirrored_updateStatusWithError split: option.splits prod.splits)
qed

lemma report_keeps [simp]: "dp_Status (report st p step now d) = st" "dp_ID (report st p step now d) = dp_ID d"
  by (simp_all add: report_def Let_def)

lemma report_ok: "dep_ok d \<Longrightarrow> dep_ok (report st p step now d)"
  using apply_change_ok [of d "Progressed st p step" now] by simp

lemma mirrored_removal:
  assumes "mirrored s"
  shows "mirrored (remove_all ids s)"
proof -
  have "dep_of (remove_all ids s) i = (if i \<in> set ids then None else dep_of s i)" for i
    by (simp add: deref_def remove_all_def remove_all_lookup)
  moreover have "orch_wf (remove_all ids s)"
    using assms by (auto simp: mirrored_def orch_wf_def remove_all_def remove_all_lookup)
  ultimately show ?thesis using assms by (auto simp: mirrored_def remove_all_def split: if_splits)
qed

lemma locked_env: "(locked r f s)\<lparr>o_env := o_env s\<rparr> = locked r f s"
  by (cases s) (simp add: locked_def split: option.splits)

lemma method_call_mirrored:
  assumes "method_call s s'" and "mirrored s"
  shows "mirrored s'"
  using assms
proof cases
  case (1 req i now now')
  with assms(2) show ?thesis by (simp add: mirrored_Deploy)
next
  case (2 rreq i now)
  with assms(2) mirrored_store [of s "rollback_record rreq i now" i StatusRollingBack] show ?thesis
    by (simp add: Rollback_def dep_ok_def is_finished_def case_prod_beta)
next
  case (3 i reason now)
  with assms(2) show ?thesis by (auto simp: Cancel_def intro: mirrored_updateStatusWithError split: option.splits)
next
  case (4 i st p step now)
  with assms(2) show ?thesis
    by (cases "o_deployments s i") (auto simp: UpdateDeploymentStatus_def intro: mirrored_change report_ok)
next
  case (5 i entry)
  have "mirrored (locked r (\<lambda>d. d\<lparr>dp_Logs := dp_Logs d @ [entry]\<rparr>) s)" if "o_deployments s i = Some r" for r
    by (rule mirrored_quiet [OF assms(2) _ _ _ that]) simp_all
  moreover have "OnLog (o_config s) = Some f \<Longrightarrow> f a b e = e" for f a b e
    using assms(2) by (simp add: mirrored_def listening_def)
  ultimately show ?thesis using 5 assms(2)
    by (auto simp: AddDeploymentLog_def Let_def locked_env split: option.splits)
next
  case (6 i n)
  have "mirrored (locked r (\<lambda>d. d\<lparr>dp_ReleaseNumber := n\<rparr>) s)" if "o_deployments s i = Some r" for r
    by (rule mirrored_quiet [OF assms(2) _ _ _ that]) simp_all
  with 6 assms(2) show ?thesis by (auto simp: SetReleaseNumber_def split: option.splits)
next
  case (7 i err now)
  with assms(2) show ?thesis by (simp add: SetError_def mirrored_updateStatusWithError)
next
  case (8 ks maxAge now)
  with assms(2) show ?thesis by (simp add: Orchestrator_CleanupOldDeployments_def Let_def mirrored_removal)
qed



end
