(* ===== verification/Rate_Limiter.thy ===== *)
theory Rate_Limiter
  imports Go_Strings Complex_Main
begin

text \<open>
  The request rate limiter of \<open>internal/server/ratelimit.go\<close>: token buckets per client, blocking of
  clients that keep exceeding their rate, the HTTP middleware and the gRPC interceptors.

  Token counts are real numbers (the code computes in \<open>float64\<close>); one clock reading serves a call.
  Whether an entry of a white- or blacklist is a network containing an address is decided by
  \<open>net.ParseCIDR\<close> and \<open>Contains\<close>; it is the argument \<open>cidr\<close> of the operations, and every theorem holds
  for each such function. A bucket is reachable only through its map entry, so the map holds the
  buckets themselves. The statements the limiter sends to its database are recorded in \<open>rl_saved\<close>.
\<close>

section \<open>State\<close>

record EndpointLimit =
  el_RequestsPerSecond :: real
  el_BurstSize :: int

record RateLimitConfig =
  RequestsPerSecond :: real
  BurstSize :: int
  BlockDuration :: duration
  BlockThreshold :: int
  WhitelistedIPs :: "string list"
  BlacklistedIPs :: "string list"
  UseDatabase :: bool
  CleanupInterval :: duration
  PerEndpointLimits :: "string \<rightharpoonup> EndpointLimit"

record tokenBucket =
  tokens :: real
  lastUpdate :: time
  violations :: int

record RateLimitStatus =
  st_IP :: string
  st_TokensRemaining :: real
  st_RequestsPerSec :: real
  st_BurstSize :: int
  st_Violations :: int
  st_IsBlocked :: bool
  st_BlockedUntil :: time
  st_IsWhitelisted :: bool
  st_IsBlacklisted :: bool

datatype db_statement =
    SaveBlockedIP string time string
  | DeleteBlockedIP string

record RateLimiter =
  rl_db :: bool
  rl_config :: RateLimitConfig
  rl_buckets :: "string \<rightharpoonup> tokenBucket"
  rl_blocked :: "string \<rightharpoonup> time"
  rl_saved :: "db_statement list"

definition DefaultRateLimitConfig :: RateLimitConfig where
  "DefaultRateLimitConfig =
     \<lparr>RequestsPerSecond = 10, BurstSize = 20, BlockDuration = 15 * Minute, BlockThreshold = 10,
      WhitelistedIPs = [], BlacklistedIPs = [], UseDatabase = False, CleanupInterval = 5 * Minute,
      PerEndpointLimits =
        [''/api/v1/login'' \<mapsto> \<lparr>el_RequestsPerSecond = 1, el_BurstSize = 5\<rparr>,
         ''/api/v1/register'' \<mapsto> \<lparr>el_RequestsPerSecond = 1/10, el_BurstSize = 2\<rparr>,
         ''/api/v1/api-keys'' \<mapsto> \<lparr>el_RequestsPerSecond = 1/2, el_BurstSize = 3\<rparr>,
         ''/api/v1/certificates'' \<mapsto> \<lparr>el_RequestsPerSecond = 1/5, el_BurstSize = 2\<rparr>,
         ''/api/v1/totp/verify'' \<mapsto> \<lparr>el_RequestsPerSecond = 1/2, el_BurstSize = 3\<rparr>,
         ''/api/v1/password'' \<mapsto> \<lparr>el_RequestsPerSecond = 1/5, el_BurstSize = 2\<rparr>,
         ''/api/v1/ssh-keys'' \<mapsto> \<lparr>el_RequestsPerSecond = 1/2, el_BurstSize = 3\<rparr>]\<rparr>"

text \<open>\<open>NewRateLimiter\<close>: non-positive settings are replaced by the defaults. The rows that
  \<open>loadBlockedIPs\<close> reads from the database (or its error) are the argument \<open>rows\<close>.\<close>

definition with_defaults :: "RateLimitConfig \<Rightarrow> RateLimitConfig" where
  "with_defaults config =
     (let config = (if RequestsPerSecond config \<le> 0 then config\<lparr>RequestsPerSecond := 10\<rparr> else config);
          config = (if BurstSize config \<le> 0 then config\<lparr>BurstSize := 20\<rparr> else config);
          config = (if BlockDuration config \<le> 0 then config\<lparr>BlockDuration := 15 * Minute\<rparr> else config);
          config = (if BlockThreshold config \<le> 0 then config\<lparr>BlockThreshold := 10\<rparr> else config)
      in if CleanupInterval config \<le> 0 then config\<lparr>CleanupInterval := 5 * Minute\<rparr> else config)"

definition loadBlockedIPs :: "(string \<times> time) list \<Rightarrow> RateLimiter \<Rightarrow> RateLimiter" where
  "loadBlockedIPs rows rl = rl\<lparr>rl_blocked := foldl (\<lambda>m (ip, expiresAt). m(ip \<mapsto> expiresAt)) (rl_blocked rl) rows\<rparr>"

definition NewRateLimiter ::
  "bool \<Rightarrow> RateLimitConfig \<Rightarrow> string + (string \<times> time) list \<Rightarrow> string + RateLimiter" where
  "NewRateLimiter db config rows =
     (let rl = \<lparr>rl_db = db, rl_config = with_defaults config, rl_buckets = Map.empty, rl_blocked = Map.empty, rl_saved = []\<rparr>
      in if UseDatabase config \<and> db
         then (case rows of Inl e \<Rightarrow> Inl (''load blocked IPs: '' @ e) | Inr rs \<Rightarrow> Inr (loadBlockedIPs rs rl))
         else Inr rl)"

section \<open>Deciding a request\<close>

definition isWhitelisted :: "(string \<Rightarrow> string \<Rightarrow> bool) \<Rightarrow> string \<Rightarrow> RateLimiter \<Rightarrow> bool" where
  "isWhitelisted cidr ip rl = list_ex (\<lambda>wip. wip = ip \<or> cidr wip ip) (WhitelistedIPs (rl_config rl))"

definition isBlacklisted :: "(string \<Rightarrow> string \<Rightarrow> bool) \<Rightarrow> string \<Rightarrow> RateLimiter \<Rightarrow> bool" where
  "isBlacklisted cidr ip rl = list_ex (\<lambda>bip. bip = ip \<or> cidr bip ip) (BlacklistedIPs (rl_config rl))"

definition endpoint_limit :: "RateLimitConfig \<Rightarrow> string \<Rightarrow> real \<times> int" where
  "endpoint_limit config endpoint =
     (case PerEndpointLimits config endpoint of
        Some limit \<Rightarrow> (el_RequestsPerSecond limit, el_BurstSize limit)
      | None \<Rightarrow> (RequestsPerSecond config, BurstSize config))"

definition Seconds :: "duration \<Rightarrow> real" where
  "Seconds d = real_of_int d / 1000000000"

definition refill :: "real \<Rightarrow> int \<Rightarrow> time \<Rightarrow> tokenBucket \<Rightarrow> tokenBucket" where
  "refill rps burst now bucket =
     (let t = tokens bucket + Seconds (now - lastUpdate bucket) * rps
      in bucket\<lparr>tokens := (if t > real_of_int burst then real_of_int burst else t), lastUpdate := now\<rparr>)"

definition saveBlockedIP :: "string \<Rightarrow> time \<Rightarrow> string \<Rightarrow> RateLimiter \<Rightarrow> RateLimiter" where
  "saveBlockedIP ip expiresAt reason rl =
     (if UseDatabase (rl_config rl) \<and> rl_db rl then rl\<lparr>rl_saved := rl_saved rl @ [SaveBlockedIP ip expiresAt reason]\<rparr> else rl)"

definition empty_status :: "string \<Rightarrow> RateLimiter \<Rightarrow> RateLimitStatus" where
  "empty_status ip rl =
     \<lparr>st_IP = ip, st_TokensRemaining = 0, st_RequestsPerSec = RequestsPerSecond (rl_config rl),
      st_BurstSize = BurstSize (rl_config rl), st_Violations = 0, st_IsBlocked = False, st_BlockedUntil = 0,
      st_IsWhitelisted = False, st_IsBlacklisted = False\<rparr>"

text \<open>The token bucket part of \<open>Allow\<close>, which runs while the mutex is held.\<close>

definition take_token ::
  "string \<Rightarrow> real \<Rightarrow> int \<Rightarrow> RateLimitStatus \<Rightarrow> time \<Rightarrow> RateLimiter \<Rightarrow> (bool \<times> RateLimitStatus) \<times> RateLimiter" where
  "take_token ip rps burst status now rl =
     (let bucket = (case rl_buckets rl ip of
                      Some b \<Rightarrow> b
                    | None \<Rightarrow> \<lparr>tokens = real_of_int burst, lastUpdate = now, violations = 0\<rparr>);
          bucket = refill rps burst now bucket;
          status = status\<lparr>st_TokensRemaining := tokens bucket, st_Violations := violations bucket\<rparr>
      in if tokens bucket < 1
         then
           (let bucket = bucket\<lparr>violations := violations bucket + 1\<rparr>;
                rl = rl\<lparr>rl_buckets := (rl_buckets rl)(ip \<mapsto> bucket)\<rparr>
            in if violations bucket \<ge> BlockThreshold (rl_config rl)
               then
                 (let blockedUntil = now + BlockDuration (rl_config rl);
                      rl = rl\<lparr>rl_blocked := (rl_blocked rl)(ip \<mapsto> blockedUntil)\<rparr>;
                      status = status\<lparr>st_IsBlocked := True, st_BlockedUntil := blockedUntil\<rparr>
                  in ((False, status), saveBlockedIP ip blockedUntil ''rate_limit_exceeded'' rl))
               else ((False, status), rl))
         else
           (let bucket = bucket\<lparr>tokens := tokens bucket - 1\<rparr>
            in ((True, status\<lparr>st_TokensRemaining := tokens bucket\<rparr>),
                rl\<lparr>rl_buckets := (rl_buckets rl)(ip \<mapsto> bucket)\<rparr>)))"

definition Allow ::
  "(string \<Rightarrow> string \<Rightarrow> bool) \<Rightarrow> string \<Rightarrow> string \<Rightarrow> time \<Rightarrow> RateLimiter \<Rightarrow> (bool \<times> RateLimitStatus) \<times> RateLimiter" where
  "Allow cidr ip endpoint now rl =
     (let status = empty_status ip rl
      in if isWhitelisted cidr ip rl
         then ((True, status\<lparr>st_IsWhitelisted := True, st_TokensRemaining := real_of_int (st_BurstSize status)\<rparr>), rl)
         else if isBlacklisted cidr ip rl
         then ((False, status\<lparr>st_IsBlacklisted := True, st_IsBlocked := True\<rparr>), rl)
         else
           (let go = (\<lambda>rl.
                  let (rps, burst) = endpoint_limit (rl_config rl) endpoint
                  in take_token ip rps burst (status\<lparr>st_RequestsPerSec := rps, st_BurstSize := burst\<rparr>) now rl)
            in case rl_blocked rl ip of
                 Some blockedUntil \<Rightarrow>
                   if now < blockedUntil
                   then ((False, status\<lparr>st_IsBlocked := True, st_BlockedUntil := blockedUntil\<rparr>), rl)
                   else go (rl\<lparr>rl_blocked := (rl_blocked rl)(ip := None)\<rparr>)
               | None \<Rightarrow> go rl))"

section \<open>Managing blocks\<close>

definition RateLimiter_BlockIP :: "string \<Rightarrow> string \<Rightarrow> duration \<Rightarrow> time \<Rightarrow> RateLimiter \<Rightarrow> RateLimiter" where
  "RateLimiter_BlockIP ip reason d now rl =
     (let blockedUntil = now + d
      in saveBlockedIP ip blockedUntil reason (rl\<lparr>rl_blocked := (rl_blocked rl)(ip \<mapsto> blockedUntil)\<rparr>))"

definition RateLimiter_UnblockIP :: "string \<Rightarrow> RateLimiter \<Rightarrow> RateLimiter" where
  "RateLimiter_UnblockIP ip rl =
     (let rl = rl\<lparr>rl_blocked := (rl_blocked rl)(ip := None)\<rparr>
      in if UseDatabase (rl_config rl) \<and> rl_db rl then rl\<lparr>rl_saved := rl_saved rl @ [DeleteBlockedIP ip]\<rparr> else rl)"

definition GetStatus :: "(string \<Rightarrow> string \<Rightarrow> bool) \<Rightarrow> string \<Rightarrow> time \<Rightarrow> RateLimiter \<Rightarrow> RateLimitStatus" where
  "GetStatus cidr ip now rl =
     (let status = (empty_status ip rl)\<lparr>st_IsWhitelisted := isWhitelisted cidr ip rl, st_IsBlacklisted := isBlacklisted cidr ip rl\<rparr>;
          status = (case rl_blocked rl ip of
              Some blockedUntil \<Rightarrow>
                if now < blockedUntil then status\<lparr>st_IsBlocked := True, st_BlockedUntil := blockedUntil\<rparr> else status
            | None \<Rightarrow> status)
      in case rl_buckets rl ip of
           Some bucket \<Rightarrow>
             (let t = tokens bucket + Seconds (now - lastUpdate bucket) * RequestsPerSecond (rl_config rl);
                  t = (if t > real_of_int (BurstSize (rl_config rl)) then real_of_int (BurstSize (rl_config rl)) else t)
              in status\<lparr>st_TokensRemaining := t, st_Violations := violations bucket\<rparr>)
         | None \<Rightarrow> status\<lparr>st_TokensRemaining := real_of_int (BurstSize (rl_config rl))\<rparr>)"

record rl_BlockedIP =
  rb_IPAddress :: string
  rb_BlockedAt :: time
  rb_ExpiresAt :: time
  rb_Reason :: string

text \<open>The branch without a database; \<open>ks\<close> is the order in which the map is visited.\<close>

definition RateLimiter_ListBlockedIPs :: "string list \<Rightarrow> time \<Rightarrow> RateLimiter \<Rightarrow> rl_BlockedIP list" where
  "RateLimiter_ListBlockedIPs ks now rl =
     map (\<lambda>(ip, until). \<lparr>rb_IPAddress = ip, rb_BlockedAt = until - BlockDuration (rl_config rl),
                         rb_ExpiresAt = until, rb_Reason = ''rate_limit_exceeded''\<rparr>)
       (filter (\<lambda>(ip, until). now < until) (map_of_keys ks (rl_blocked rl)))"

definition cleanup :: "time \<Rightarrow> RateLimiter \<Rightarrow> RateLimiter" where
  "cleanup now rl =
     rl\<lparr>rl_blocked := delete_where (\<lambda>ip until. now > until) (rl_blocked rl),
        rl_buckets := delete_where (\<lambda>ip bucket. lastUpdate bucket < now - Hour) (rl_buckets rl)\<rparr>"

section \<open>Clients of the limiter\<close>

text \<open>The request headers are arguments; \<open>splitHostPort\<close> is the host part of \<open>net.SplitHostPort\<close>,
  \<open>None\<close> its error.\<close>

definition extractIP :: "(string \<Rightarrow> string option) \<Rightarrow> (string \<Rightarrow> string) \<Rightarrow> string \<Rightarrow> string" where
  "extractIP splitHostPort header remoteAddr =
     (if header ''X-Forwarded-For'' \<noteq> '''' then takeWhile (\<lambda>c. c \<noteq> CHR '','') (header ''X-Forwarded-For'')
      else if header ''X-Real-IP'' \<noteq> '''' then header ''X-Real-IP''
      else case splitHostPort remoteAddr of None \<Rightarrow> remoteAddr | Some ip \<Rightarrow> ip)"

datatype response =
    Forwarded
  | Forbidden int
  | TooManyRequests

text \<open>\<open>Middleware\<close>: what happens to the request; the number is \<open>Retry-After\<close>. \<open>int(d.Seconds())\<close>
  truncates towards zero.\<close>

definition Middleware ::
  "(string \<Rightarrow> string \<Rightarrow> bool) \<Rightarrow> string \<Rightarrow> string \<Rightarrow> time \<Rightarrow> RateLimiter \<Rightarrow> response \<times> RateLimiter" where
  "Middleware cidr ip endpoint now rl =
     (case Allow cidr ip endpoint now rl of
        ((allowed, status), rl') \<Rightarrow>
          (if \<not> allowed
           then (if st_IsBlocked status
                 then Forbidden (let retryAfter = go_div (st_BlockedUntil status - now) Second
                                 in if retryAfter < 0 then 0 else retryAfter)
                 else TooManyRequests)
           else Forwarded, rl'))"

definition UserRateLimiter_Allow ::
  "(string \<Rightarrow> string \<Rightarrow> bool) \<Rightarrow> string \<Rightarrow> string \<Rightarrow> time \<Rightarrow> RateLimiter \<Rightarrow> (bool \<times> RateLimitStatus) \<times> RateLimiter" where
  "UserRateLimiter_Allow cidr userID endpoint now rl =
     Allow cidr ((''user:'' @ userID @ '':'') @ endpoint) endpoint now rl"

text \<open>\<open>keyHash[:8]\<close> panics on a shorter string.\<close>

definition APIKeyRateLimiter_Allow ::
  "(string \<Rightarrow> string \<Rightarrow> bool) \<Rightarrow> string \<Rightarrow> string \<Rightarrow> time \<Rightarrow> RateLimiter \<Rightarrow> ((bool \<times> RateLimitStatus) \<times> RateLimiter) option" where
  "APIKeyRateLimiter_Allow cidr keyHash endpoint now rl =
     map_option (\<lambda>p. Allow cidr ((''apikey:'' @ p @ '':'') @ endpoint) endpoint now rl) (go_slice keyHash 0 8)"

record GRPCRateLimitConfig =
  GlobalRPS :: real
  PerClientRPS :: real
  Burst :: int
  Enabled :: bool
  ExemptMethods :: "string list"

definition DefaultGRPCRateLimitConfig :: GRPCRateLimitConfig where
  "DefaultGRPCRateLimitConfig =
     \<lparr>GlobalRPS = 1000, PerClientRPS = 100, Burst = 50, Enabled = True, ExemptMethods = []\<rparr>"

definition isExemptMethod :: "GRPCRateLimitConfig \<Rightarrow> string \<Rightarrow> bool" where
  "isExemptMethod cfg m = list_ex (\<lambda>exempt. exempt = m) (ExemptMethods cfg)"

text \<open>The gRPC interceptors: \<open>True\<close> when the handler is called, \<open>False\<close> for \<open>ResourceExhausted\<close>. The
  limiter is \<open>None\<close> when it is not configured; \<open>clientIP\<close> is empty when the context has no peer.\<close>

definition UnaryRateLimitInterceptor ::
  "(string \<Rightarrow> string \<Rightarrow> bool) \<Rightarrow> GRPCRateLimitConfig \<Rightarrow> string \<Rightarrow> string \<Rightarrow> time \<Rightarrow> RateLimiter option \<Rightarrow> bool \<times> RateLimiter option" where
  "UnaryRateLimitInterceptor cidr cfg clientIP fullMethod now grl =
     (case grl of
        None \<Rightarrow> (True, None)
      | Some rl \<Rightarrow>
          if \<not> Enabled cfg \<or> isExemptMethod cfg fullMethod then (True, grl)
          else (case Allow cidr (if clientIP = '''' then ''unknown'' else clientIP) fullMethod now rl of
                  ((allowed, _), rl') \<Rightarrow> (allowed, Some rl')))"

definition StreamRateLimitInterceptor ::
  "(string \<Rightarrow> string \<Rightarrow> bool) \<Rightarrow> GRPCRateLimitConfig \<Rightarrow> string \<Rightarrow> string \<Rightarrow> time \<Rightarrow> RateLimiter option \<Rightarrow> bool \<times> RateLimiter option" where
  "StreamRateLimitInterceptor cidr cfg clientIP fullMethod now grl =
     (case grl of
        None \<Rightarrow> (True, None)
      | Some rl \<Rightarrow>
          if \<not> Enabled cfg \<or> isExemptMethod cfg fullMethod then (True, grl)
          else (case Allow cidr (if clientIP = '''' then ''unknown'' else clientIP) fullMethod now rl of
                  ((allowed, _), rl') \<Rightarrow> (allowed, Some rl')))"

section \<open>The rate of allowed requests\<close>

text \<open>A history of the limiter: requests of any clients, blocks set and lifted by an administrator, and
  runs of the cleanup, each with the time it happens.\<close>

datatype rl_event =
    Request string string
  | Block string string duration
  | Unblock string
  | Cleanup

fun rl_step :: "(string \<Rightarrow> string \<Rightarrow> bool) \<Rightarrow> time \<Rightarrow> rl_event \<Rightarrow> RateLimiter \<Rightarrow> RateLimiter" where
  "rl_step cidr now (Request ip endpoint) rl = snd (Allow cidr ip endpoint now rl)"
| "rl_step cidr now (Block ip reason d) rl = RateLimiter_BlockIP ip reason d now rl"
| "rl_step cidr now (Unblock ip) rl = RateLimiter_UnblockIP ip rl"
| "rl_step cidr now Cleanup rl = cleanup now rl"

text \<open>How many requests of \<open>ip\<close> a history allows.\<close>

fun allowed_count :: "(string \<Rightarrow> string \<Rightarrow> bool) \<Rightarrow> string \<Rightarrow> (time \<times> rl_event) list \<Rightarrow> RateLimiter \<Rightarrow> nat" where
  "allowed_count cidr ip [] rl = 0"
| "allowed_count cidr ip ((now, ev) # evs) rl =
     (case ev of Request ip' endpoint \<Rightarrow> if ip' = ip \<and> fst (fst (Allow cidr ip endpoint now rl)) then 1 else 0 | _ \<Rightarrow> 0)
     + allowed_count cidr ip evs (rl_step cidr now ev rl)"

text \<open>Every limit of the configuration lies between 0 and a rate \<open>r\<close> and a burst \<open>b\<close>, and an hour at the
  rate is at least the burst.\<close>

definition limits_within :: "real \<Rightarrow> int \<Rightarrow> RateLimitConfig \<Rightarrow> bool" where
  "limits_within r b config \<longleftrightarrow>
     0 \<le> r \<and> real_of_int b \<le> r * 3600
     \<and> (\<forall>endpoint. case endpoint_limit config endpoint of (rps, burst) \<Rightarrow> 0 \<le> rps \<and> rps \<le> r \<and> 0 \<le> burst \<and> burst \<le> b)"

text \<open>The potential: what the client has used since \<open>t0\<close> and what its bucket still holds is at most the
  burst plus what the rate has granted. A bucket last touched before \<open>t0\<close> only says that nothing was
  used since.\<close>

definition within_budget :: "real \<Rightarrow> int \<Rightarrow> string \<Rightarrow> time \<Rightarrow> time \<Rightarrow> real \<Rightarrow> RateLimiter \<Rightarrow> bool" where
  "within_budget r b ip t0 now n rl \<longleftrightarrow>
     (case rl_buckets rl ip of
        None \<Rightarrow> n \<le> r * Seconds (now - t0)
      | Some bucket \<Rightarrow> lastUpdate bucket \<le> now \<and> 0 \<le> tokens bucket
          \<and> (if lastUpdate bucket < t0 then n = 0
             else n + tokens bucket \<le> real_of_int b + r * Seconds (lastUpdate bucket - t0)))"

lemma Seconds_diff: "Seconds (a - c) = Seconds (a - b) + Seconds (b - c)"
  by (simp add: Seconds_def field_simps)

lemma Seconds_nonneg: "a \<le> b \<Longrightarrow> 0 \<le> Seconds (b - a)"
  by (simp add: Seconds_def)

lemma Seconds_mono: "a \<le> b \<Longrightarrow> Seconds (a - c) \<le> Seconds (b - c)"
  by (simp add: Seconds_def divide_right_mono)

lemma within_budget_later:
  "within_budget r b ip t0 now n rl \<Longrightarrow> now \<le> now' \<Longrightarrow> 0 \<le> r \<Longrightarrow> within_budget r b ip t0 now' n rl"
  using mult_left_mono [OF Seconds_mono [of now now' t0], of r]
  by (auto simp: within_budget_def split: option.splits)

lemma within_budget_count:
  assumes "within_budget r b ip t0 now n rl" and "0 \<le> r" and "0 \<le> b" and "t0 \<le> now"
  shows "n \<le> real_of_int b + r * Seconds (now - t0)"
proof (cases "rl_buckets rl ip")
  case None
  with assms show ?thesis by (simp add: within_budget_def)
next
  case (Some bucket)
  then have "r * Seconds (lastUpdate bucket - t0) \<le> r * Seconds (now - t0)"
    using assms by (simp add: within_budget_def mult_left_mono Seconds_mono)
  moreover have "0 \<le> r * Seconds (now - t0)" using assms Seconds_nonneg by simp
  ultimately show ?thesis using Some assms by (auto simp: within_budget_def split: if_splits)
qed

text \<open>Refilling keeps the budget, whether the bucket is new or not.\<close>

lemma refill_budget:
  assumes "within_budget r b ip t0 now n rl" and "t0 \<le> now" and "0 \<le> rps" and "rps \<le> r" and "0 \<le> burst" and "burst \<le> b"
    and "bucket = refill rps burst now (case rl_buckets rl ip of
           Some b \<Rightarrow> b | None \<Rightarrow> \<lparr>tokens = real_of_int burst, lastUpdate = now, violations = 0\<rparr>)"
  shows "0 \<le> tokens bucket" and "n + tokens bucket \<le> real_of_int b + r * Seconds (now - t0)" and "lastUpdate bucket = now"
proof -
  show "lastUpdate bucket = now" by (simp add: assms(7) refill_def Let_def)
  have full: "tokens bucket \<le> real_of_int b" using assms(6,7) by (simp add: refill_def Let_def)
  have pos: "0 \<le> r * Seconds (now - t0)" using assms(2-4) Seconds_nonneg by simp
  have "0 \<le> tokens bucket \<and> n + tokens bucket \<le> real_of_int b + r * Seconds (now - t0)"
  proof (cases "rl_buckets rl ip")
    case None
    then have "tokens bucket = real_of_int burst" by (simp add: assms(7) refill_def Seconds_def Let_def)
    with None assms show ?thesis by (simp add: within_budget_def)
  next
    case (Some old)
    let ?e = "Seconds (now - lastUpdate old)"
    have o: "lastUpdate old \<le> now" "0 \<le> tokens old"
      "\<not> lastUpdate old < t0 \<Longrightarrow> n + tokens old \<le> real_of_int b + r * Seconds (lastUpdate old - t0)"
      "lastUpdate old < t0 \<Longrightarrow> n = 0"
      using assms(1) Some by (simp_all add: within_budget_def)
    have e: "0 \<le> ?e * rps" "?e * rps \<le> r * ?e"
      using assms(3,4) Seconds_nonneg [OF o(1)] mult_left_mono [of rps r ?e] by (simp_all add: mult.commute)
    have t: "tokens bucket \<le> tokens old + ?e * rps" "0 \<le> tokens bucket"
      using Some o(2) e(1) assms(5,7) by (auto simp: refill_def Let_def)
    have "r * Seconds (now - t0) = r * ?e + r * Seconds (lastUpdate old - t0)"
      unfolding Seconds_diff [of now t0 "lastUpdate old"] by (simp add: distrib_left)
    with o(3,4) e(2) t full pos show ?thesis by (cases "lastUpdate old < t0") auto
  qed
  then show "0 \<le> tokens bucket" and "n + tokens bucket \<le> real_of_int b + r * Seconds (now - t0)" by blast+
qed

lemma saveBlockedIP_fields [simp]:
  "rl_buckets (saveBlockedIP ip t reason rl) = rl_buckets rl" "rl_blocked (saveBlockedIP ip t reason rl) = rl_blocked rl"
  "rl_config (saveBlockedIP ip t reason rl) = rl_config rl"
  by (simp_all add: saveBlockedIP_def)

lemma take_token_budget:
  assumes "within_budget r b ip t0 now n rl" and "t0 \<le> now" and "0 \<le> rps" and "rps \<le> r" and "0 \<le> burst" and "burst \<le> b"
    and "take_token ip rps burst status now rl = ((ok, status'), rl')"
  shows "within_budget r b ip t0 now (n + (if ok then 1 else 0)) rl'" and "rl_config rl' = rl_config rl"
proof -
  define bucket where "bucket = refill rps burst now (case rl_buckets rl ip of
           Some b \<Rightarrow> b | None \<Rightarrow> \<lparr>tokens = real_of_int burst, lastUpdate = now, violations = 0\<rparr>)"
  note f = refill_budget [OF assms(1-6) bucket_def]
  have "within_budget r b ip t0 now (n + (if ok then 1 else 0)) rl' \<and> rl_config rl' = rl_config rl"
    using assms(2,7) f unfolding take_token_def bucket_def [symmetric] Let_def
    by (auto simp: within_budget_def split: if_splits)
  then show "within_budget r b ip t0 now (n + (if ok then 1 else 0)) rl'" and "rl_config rl' = rl_config rl" by blast+
qed

lemma take_token_other:
  "ip' \<noteq> ip \<Longrightarrow> rl_buckets (snd (take_token ip' rps burst status now rl)) ip = rl_buckets rl ip"
  by (simp add: take_token_def Let_def)

lemma take_token_config: "rl_config (snd (take_token ip rps burst status now rl)) = rl_config rl"
  by (simp add: take_token_def Let_def)

text \<open>\<open>Allow\<close> either answers from the lists and blocks, without touching the buckets, or takes a token.\<close>

lemma Allow_listed:
  assumes "isWhitelisted cidr ip rl \<or> isBlacklisted cidr ip rl \<or> (\<exists>u. rl_blocked rl ip = Some u \<and> now < u)"
  shows "\<exists>status. Allow cidr ip endpoint now rl = ((isWhitelisted cidr ip rl, status), rl)"
proof (cases "isWhitelisted cidr ip rl")
  case True
  then show ?thesis by (simp add: Allow_def Let_def)
next
  case False
  then show ?thesis using assms by (cases "isBlacklisted cidr ip rl") (auto simp: Allow_def Let_def)
qed

lemma Allow_cases:
  obtains (listed) ok status where "Allow cidr ip endpoint now rl = ((ok, status), rl)"
    and "ok \<longleftrightarrow> isWhitelisted cidr ip rl"
    and "isWhitelisted cidr ip rl \<or> isBlacklisted cidr ip rl \<or> (\<exists>u. rl_blocked rl ip = Some u \<and> now < u)"
  | (bucket) rps burst status where "endpoint_limit (rl_config rl) endpoint = (rps, burst)"
    and "Allow cidr ip endpoint now rl = take_token ip rps burst status now (rl\<lparr>rl_blocked := (rl_blocked rl)(ip := None)\<rparr>)"
    and "\<not> isWhitelisted cidr ip rl" and "\<not> (\<exists>u. rl_blocked rl ip = Some u \<and> now < u)"
proof (cases "isWhitelisted cidr ip rl \<or> isBlacklisted cidr ip rl \<or> (\<exists>u. rl_blocked rl ip = Some u \<and> now < u)")
  case True
  with Allow_listed [OF True, of endpoint] show ?thesis using listed by blast
next
  case False
  obtain rps burst where lim: "endpoint_limit (rl_config rl) endpoint = (rps, burst)" by fastforce
  show ?thesis
  proof (cases "rl_blocked rl ip")
    case None
    then have "rl\<lparr>rl_blocked := (rl_blocked rl)(ip := None)\<rparr> = rl" by (simp add: fun_upd_idem)
    with False lim None show ?thesis by (intro bucket [OF lim]) (auto simp: Allow_def Let_def)
  next
    case (Some u)
    with False lim show ?thesis by (intro bucket [OF lim]) (auto simp: Allow_def Let_def)
  qed
qed

lemma Allow_other: "ip' \<noteq> ip \<Longrightarrow> rl_buckets (snd (Allow cidr ip' endpoint now rl)) ip = rl_buckets rl ip"
  by (rule Allow_cases [of cidr ip' endpoint now rl]) (simp_all add: take_token_other)

lemma Allow_config: "rl_config (snd (Allow cidr ip endpoint now rl)) = rl_config rl"
  by (rule Allow_cases [of cidr ip endpoint now rl]) (simp_all add: take_token_config)

lemma within_budget_buckets:
  "rl_buckets rl' ip = rl_buckets rl ip \<Longrightarrow> within_budget r b ip t0 now n rl' = within_budget r b ip t0 now n rl"
  by (simp add: within_budget_def)

lemma Allow_budget:
  assumes "within_budget r b ip t0 now n rl" and "t0 \<le> now" and "limits_within r b (rl_config rl)" and "\<not> isWhitelisted cidr ip rl"
  shows "within_budget r b ip t0 now (n + (if fst (fst (Allow cidr ip endpoint now rl)) then 1 else 0))
           (snd (Allow cidr ip endpoint now rl))"
proof (rule Allow_cases [of cidr ip endpoint now rl])
  fix ok status
  assume "Allow cidr ip endpoint now rl = ((ok, status), rl)" and "ok \<longleftrightarrow> isWhitelisted cidr ip rl"
  with assms show ?thesis by simp
next
  fix rps burst status
  let ?rl = "rl\<lparr>rl_blocked := (rl_blocked rl)(ip := None)\<rparr>"
  assume lim: "endpoint_limit (rl_config rl) endpoint = (rps, burst)"
    and a: "Allow cidr ip endpoint now rl = take_token ip rps burst status now ?rl"
  have "within_budget r b ip t0 now n ?rl" using assms(1) by (simp add: within_budget_def)
  moreover have "case endpoint_limit (rl_config rl) endpoint of (rps, burst) \<Rightarrow> 0 \<le> rps \<and> rps \<le> r \<and> 0 \<le> burst \<and> burst \<le> b"
    using assms(3) by (simp add: limits_within_def)
  then have "0 \<le> rps" "rps \<le> r" "0 \<le> burst" "burst \<le> b" using lim by simp_all
  moreover obtain ok status' rl' where "take_token ip rps burst status now ?rl = ((ok, status'), rl')" by (metis prod.exhaust)
  ultimately show ?thesis using take_token_budget(1) [of r b ip t0 now n ?rl rps burst status ok status' rl'] assms(2) a by simp
qed

text \<open>A bucket the cleanup drops has been idle for an hour, in which the rate grants more than a burst.\<close>

lemma cleanup_budget:
  assumes "within_budget r b ip t0 now n rl" and "0 \<le> r" and "real_of_int b \<le> r * 3600" and "t0 \<le> now"
  shows "within_budget r b ip t0 now n (cleanup now rl)"
proof (cases "rl_buckets rl ip")
  case None
  with assms show ?thesis by (simp add: within_budget_def cleanup_def delete_where_def)
next
  case (Some bucket)
  show ?thesis
  proof (cases "lastUpdate bucket < now - Hour")
    case False
    with Some assms show ?thesis by (simp add: within_budget_def cleanup_def delete_where_def)
  next
    case True
    then have "3600 + Seconds (lastUpdate bucket - t0) \<le> Seconds (now - t0)" by (simp add: Seconds_def field_simps)
    then have "r * 3600 + r * Seconds (lastUpdate bucket - t0) \<le> r * Seconds (now - t0)"
      using assms(2) mult_left_mono by (fastforce simp: distrib_left [symmetric])
    moreover have "0 \<le> r * Seconds (now - t0)" using assms Seconds_nonneg by simp
    ultimately show ?thesis using True Some assms
      by (auto simp: within_budget_def cleanup_def delete_where_def split: if_splits)
  qed
qed

lemma rl_step_budget:
  assumes "within_budget r b ip t0 now n rl" and "t0 \<le> now" and "limits_within r b (rl_config rl)" and "\<not> isWhitelisted cidr ip rl"
  shows "within_budget r b ip t0 now
           (n + (case ev of Request ip' endpoint \<Rightarrow> if ip' = ip \<and> fst (fst (Allow cidr ip endpoint now rl)) then 1 else 0 | _ \<Rightarrow> 0))
           (rl_step cidr now ev rl)"
proof (cases ev)
  case (Request ip' endpoint)
  show ?thesis
  proof (cases "ip' = ip")
    case True
    with Request Allow_budget [OF assms] show ?thesis by simp
  next
    case False
    with Request assms(1) show ?thesis by (simp add: within_budget_buckets [OF Allow_other])
  qed
next
  case Cleanup
  with assms cleanup_budget [of r b ip t0 now n rl] show ?thesis by (simp add: limits_within_def)
qed (use assms in \<open>auto simp: within_budget_def RateLimiter_BlockIP_def RateLimiter_UnblockIP_def Let_def\<close>)

lemma rl_step_config: "rl_config (rl_step cidr now ev rl) = rl_config rl"
  by (cases ev) (simp_all add: Allow_config RateLimiter_BlockIP_def RateLimiter_UnblockIP_def cleanup_def Let_def)

lemma allowed_count_budget:
  assumes "within_budget r b ip t0 t n rl" and "t0 \<le> t" and "limits_within r b (rl_config rl)"
    and "\<not> isWhitelisted cidr ip rl" and "sorted (map fst evs)" and "\<forall>e \<in> set evs. t \<le> fst e \<and> fst e \<le> t1" and "t \<le> t1"
    and "0 \<le> b"
  shows "n + real (allowed_count cidr ip evs rl) \<le> real_of_int b + r * Seconds (t1 - t0)"
  using assms
proof (induction evs arbitrary: t n rl)
  case Nil
  then have "within_budget r b ip t0 t1 n rl" by (auto intro: within_budget_later simp: limits_within_def)
  with Nil show ?case using within_budget_count [of r b ip t0 t1 n rl] by (simp add: limits_within_def)
next
  case (Cons e evs)
  obtain now ev where e: "e = (now, ev)" by fastforce
  let ?k = "case ev of Request ip' endpoint \<Rightarrow> if ip' = ip \<and> fst (fst (Allow cidr ip endpoint now rl)) then 1 else 0 :: real | _ \<Rightarrow> 0"
  have now: "t \<le> now" "t0 \<le> now" "now \<le> t1" using Cons.prems e by auto
  have "within_budget r b ip t0 now n rl"
    using within_budget_later [OF Cons.prems(1) now(1)] Cons.prems(3) by (simp add: limits_within_def)
  from rl_step_budget [OF this now(2) Cons.prems(3,4), of ev]
  have step: "within_budget r b ip t0 now (n + ?k) (rl_step cidr now ev rl)" by (simp add: of_bool_def if_distrib cong: rl_event.case_cong)
  have "n + ?k + real (allowed_count cidr ip evs (rl_step cidr now ev rl)) \<le> real_of_int b + r * Seconds (t1 - t0)"
  proof (rule Cons.IH [OF step now(2)])
    show "limits_within r b (rl_config (rl_step cidr now ev rl))" using Cons.prems(3) by (simp add: rl_step_config)
    show "\<not> isWhitelisted cidr ip (rl_step cidr now ev rl)" using Cons.prems(4) by (simp add: isWhitelisted_def rl_step_config)
    show "sorted (map fst evs)" "\<forall>e\<in>set evs. now \<le> fst e \<and> fst e \<le> t1" "now \<le> t1" "0 \<le> b"
      using Cons.prems e now by auto
  qed
  moreover have "real (allowed_count cidr ip (e # evs) rl) = ?k + real (allowed_count cidr ip evs (rl_step cidr now ev rl))"
    by (simp add: e split: rl_event.splits)
  ultimately show ?case by simp
qed

fun rl_run :: "(string \<Rightarrow> string \<Rightarrow> bool) \<Rightarrow> (time \<times> rl_event) list \<Rightarrow> RateLimiter \<Rightarrow> RateLimiter" where
  "rl_run cidr [] rl = rl"
| "rl_run cidr ((now, ev) # evs) rl = rl_run cidr evs (rl_step cidr now ev rl)"

lemma rl_run_config: "rl_config (rl_run cidr evs rl) = rl_config rl"
  by (induction evs arbitrary: rl) (auto simp: rl_step_config)

lemma rl_run_budget:
  assumes "within_budget r b ip t0 t n rl" and "t0 \<le> t" and "limits_within r b (rl_config rl)" and "\<not> isWhitelisted cidr ip rl"
    and "sorted (map fst evs)" and "\<forall>e \<in> set evs. t \<le> fst e \<and> fst e \<le> t1" and "t \<le> t1"
  shows "\<exists>n. within_budget r b ip t0 t1 n (rl_run cidr evs rl)"
  using assms
proof (induction evs arbitrary: t n rl)
  case Nil
  then show ?case by (auto intro: within_budget_later simp: limits_within_def)
next
  case (Cons e evs)
  obtain now ev where e: "e = (now, ev)" by fastforce
  have now: "t \<le> now" "t0 \<le> now" "now \<le> t1" using Cons.prems e by auto
  have "within_budget r b ip t0 now n rl"
    using within_budget_later [OF Cons.prems(1) now(1)] Cons.prems(3) by (simp add: limits_within_def)
  from Cons.IH [OF rl_step_budget [OF this now(2) Cons.prems(3,4), of ev] now(2)] Cons.prems e now show ?case
    by (simp add: rl_step_config isWhitelisted_def)
qed

lemma within_budget_restart: "within_budget r b ip t0 now n rl \<Longrightarrow> now \<le> t \<Longrightarrow> 0 \<le> r \<Longrightarrow>
    (\<And>bucket. rl_buckets rl ip = Some bucket \<Longrightarrow> lastUpdate bucket < t) \<Longrightarrow> within_budget r b ip t t 0 rl"
  by (auto simp: within_budget_def Seconds_def split: option.splits)

lemma within_budget_fresh: "rl_buckets rl ip = None \<Longrightarrow> within_budget r b ip t t 0 rl"
  by (simp add: within_budget_def Seconds_def)

lemma NewRateLimiter_fresh:
  "NewRateLimiter db config rows = Inr rl \<Longrightarrow> rl_buckets rl = Map.empty \<and> rl_config rl = with_defaults config"
  by (auto simp: NewRateLimiter_def loadBlockedIPs_def Let_def split: if_splits sum.splits)


lemma default_limits: "limits_within 10 20 (with_defaults DefaultRateLimitConfig)"
  by (auto simp: limits_within_def with_defaults_def DefaultRateLimitConfig_def endpoint_limit_def Let_def split: option.splits)

definition fresh_limiter :: RateLimiter where
  "fresh_limiter = \<lparr>rl_db = False, rl_config = with_defaults DefaultRateLimitConfig, rl_buckets = Map.empty, rl_blocked = Map.empty, rl_saved = []\<rparr>"


section \<open>Blocks hold\<close>

lemma take_token_blocked:
  assumes "take_token ip rps burst status now rl = ((ok, status'), rl')" and "\<not> st_IsBlocked status"
  shows "st_IsBlocked status' \<Longrightarrow> \<not> ok \<and> rl_blocked rl' ip = Some (st_BlockedUntil status')
      \<and> st_BlockedUntil status' = now + BlockDuration (rl_config rl)"
    and "ip' \<noteq> ip \<Longrightarrow> rl_blocked rl' ip' = rl_blocked rl ip'"
  using assms by (auto simp: take_token_def Let_def split: if_splits)

lemma Allow_blocked_other: "ip' \<noteq> ip \<Longrightarrow> rl_blocked (snd (Allow cidr ip' endpoint now rl)) ip = rl_blocked rl ip"
proof (rule Allow_cases [of cidr ip' endpoint now rl])
  fix rps burst status
  assume "ip' \<noteq> ip" and a: "Allow cidr ip' endpoint now rl = take_token ip' rps burst status now (rl\<lparr>rl_blocked := (rl_blocked rl)(ip' := None)\<rparr>)"
  then show ?thesis by (simp add: take_token_def Let_def)
qed simp_all

definition lifts_block :: "string \<Rightarrow> rl_event \<Rightarrow> bool" where
  "lifts_block ip ev = (case ev of Unblock ip' \<Rightarrow> ip' = ip | Block ip' _ _ \<Rightarrow> ip' = ip | _ \<Rightarrow> False)"

lemma rl_step_blocked:
  assumes "rl_blocked rl ip = Some u" and "now < u" and "\<not> lifts_block ip ev"
  shows "rl_blocked (rl_step cidr now ev rl) ip = Some u"
proof (cases ev)
  case (Request ip' endpoint)
  show ?thesis
  proof (cases "ip' = ip")
    case True
    have "\<exists>status. Allow cidr ip endpoint now rl = ((isWhitelisted cidr ip rl, status), rl)"
      by (rule Allow_listed) (use assms in blast)
    with True Request assms(1) show ?thesis by auto
  next
    case False
    with Request assms(1) show ?thesis by (simp add: Allow_blocked_other)
  qed
qed (use assms in \<open>auto simp: lifts_block_def RateLimiter_BlockIP_def RateLimiter_UnblockIP_def cleanup_def delete_where_def Let_def\<close>)

lemma blocked_refused:
  assumes "rl_blocked rl ip = Some u" and "\<forall>e \<in> set evs. fst e < u \<and> \<not> lifts_block ip (snd e)" and "\<not> isWhitelisted cidr ip rl"
  shows "allowed_count cidr ip evs rl = 0 \<and> rl_blocked (rl_run cidr evs rl) ip = Some u"
  using assms
proof (induction evs arbitrary: rl)
  case (Cons e evs)
  obtain now ev where e: "e = (now, ev)" by fastforce
  have "\<not> fst (fst (Allow cidr ip endpoint now rl))" for endpoint
  proof -
    have "\<exists>status. Allow cidr ip endpoint now rl = ((isWhitelisted cidr ip rl, status), rl)"
      by (rule Allow_listed) (use Cons.prems e in auto)
    with Cons.prems(3) show ?thesis by auto
  qed
  moreover have "rl_blocked (rl_step cidr now ev rl) ip = Some u"
    using Cons.prems e by (intro rl_step_blocked) auto
  ultimately show ?case using Cons e by (auto simp: rl_step_config isWhitelisted_def split: rl_event.splits)
qed simp



end
