(* ===== verification/Safe_Path.thy ===== *)
theory Safe_Path
  imports Go_Strings
begin

text \<open>
  Path handling, \<open>internal/security/safepath.go\<close>, over the functions of \<open>path/filepath\<close> it calls (on
  Unix, where the separator is \<open>/\<close> and there are no volume names). The working directory that
  \<open>filepath.Abs\<close> asks the system for is the argument \<open>wd\<close>, \<open>None\<close> when the system call fails.

  What a path means is given by \<open>walk\<close>: a place in the directory tree is the list of the names on the
  way from the root, and a path leads from one place to another. Symbolic links are not followed: the
  code works on the text of the paths alone.
\<close>

section \<open>Cleaning paths\<close>

abbreviation slash :: char where "slash \<equiv> CHR ''/''"

text \<open>\<open>filepath.Clean\<close> on the elements of a path, the cleaned elements in reverse: a \<open>..\<close> removes the
  element before it, is dropped at the root, and is kept where a relative path has nothing to remove.\<close>

definition clean_element :: "bool \<Rightarrow> string list \<Rightarrow> string \<Rightarrow> string list" where
  "clean_element rooted out e =
     (if e = '''' \<or> e = ''.'' then out
      else if e = ''..''
      then (case out of
              [] \<Rightarrow> if rooted then [] else [''..'']
            | prev # rest \<Rightarrow> if prev = ''..'' then ''..'' # out else rest)
      else e # out)"

definition IsAbs :: "string \<Rightarrow> bool" where
  "IsAbs path = HasPrefix path ''/''"

definition clean_elements :: "string \<Rightarrow> string list" where
  "clean_elements path = rev (foldl (clean_element (IsAbs path)) [] (Split path slash))"

definition Clean :: "string \<Rightarrow> string" where
  "Clean path =
     (let out = (if IsAbs path then ''/'' else '''') @ Join (clean_elements path) ''/''
      in if out = '''' then ''.'' else out)"

text \<open>\<open>filepath.Join\<close> of two elements.\<close>

definition Join2 :: "string \<Rightarrow> string \<Rightarrow> string" where
  "Join2 a b = (if a \<noteq> '''' then Clean (a @ ''/'' @ b) else if b \<noteq> '''' then Clean b else '''')"

definition Abs :: "string option \<Rightarrow> string \<Rightarrow> string option" where
  "Abs wd path = (if IsAbs path then Some (Clean path) else map_option (\<lambda>d. Join2 d path) wd)"

section \<open>The checks\<close>

datatype path_error = ErrPathTraversal | ErrAbsolutePath | ErrEmptyPath

definition SafeJoin :: "string \<Rightarrow> string \<Rightarrow> path_error + string" where
  "SafeJoin base relativePath =
     (if base = '''' \<or> relativePath = '''' then Inl ErrEmptyPath
      else
        (let cleanBase = Clean base
         in if IsAbs relativePath then Inl ErrAbsolutePath
            else
              (let joined = Join2 cleanBase relativePath;
                   cleanJoined = Clean joined
               in if \<not> HasPrefix (cleanJoined @ ''/'') (cleanBase @ ''/'') \<and> cleanJoined \<noteq> cleanBase
                  then Inl ErrPathTraversal
                  else Inr cleanJoined)))"

definition IsWithinBase :: "string option \<Rightarrow> string \<Rightarrow> string \<Rightarrow> bool" where
  "IsWithinBase wd base path =
     (if base = '''' \<or> path = '''' then False
      else
        (let cleanBase = Clean base; cleanPath = Clean path
         in case Abs wd cleanBase of
              None \<Rightarrow> False
            | Some absBase \<Rightarrow>
                (case Abs wd cleanPath of
                   None \<Rightarrow> False
                 | Some absPath \<Rightarrow> HasPrefix (absPath @ ''/'') (absBase @ ''/'') \<or> absPath = absBase)))"

definition ValidateRelativePath :: "string \<Rightarrow> path_error option" where
  "ValidateRelativePath path =
     (if path = '''' then Some ErrEmptyPath
      else if IsAbs path then Some ErrAbsolutePath
      else
        (let cleaned = Clean path
         in if HasPrefix cleaned ''../'' \<or> cleaned = ''..'' then Some ErrPathTraversal else None))"

text \<open>\<open>strings.ReplaceAll(s, old, "")\<close> for a non-empty \<open>old\<close>.\<close>

function remove_all_of :: "string \<Rightarrow> string \<Rightarrow> string" where
  "remove_all_of old s =
     (if old \<noteq> '''' \<and> HasPrefix s old then remove_all_of old (drop (length old) s)
      else case s of [] \<Rightarrow> [] | c # t \<Rightarrow> c # remove_all_of old t)"
  by pat_completeness auto
termination
proof (relation "measure (\<lambda>(old, s). length s)")
  fix old s :: string
  assume a: "old \<noteq> '''' \<and> HasPrefix s old"
  then have "s \<noteq> []" by (auto simp: HasPrefix_def)
  with a show "((old, drop (length old) s), (old, s)) \<in> measure (\<lambda>(old, s). length s)" by simp
qed auto

declare remove_all_of.simps [simp del]

lemma remove_all_of_shorter: "length (remove_all_of old s) \<le> length s"
proof (induction old s rule: remove_all_of.induct)
  case (1 old s)
  show ?case
  proof (cases "old \<noteq> '''' \<and> HasPrefix s old")
    case True
    with 1 have "length (remove_all_of old (drop (length old) s)) \<le> length (drop (length old) s)" by blast
    also have "\<dots> \<le> length s" by simp
    finally show ?thesis using True by (subst remove_all_of.simps) simp
  next
    case False
    with 1 show ?thesis by (subst remove_all_of.simps) (auto split: list.splits)
  qed
qed

lemma remove_all_of_strict: "Contains s old \<Longrightarrow> old \<noteq> '''' \<Longrightarrow> length (remove_all_of old s) < length s"
proof (induction old s rule: remove_all_of.induct)
  case (1 old s)
  show ?case
  proof (cases "HasPrefix s old")
    case True
    then have "s \<noteq> []" using "1.prems"(2) by (auto simp: HasPrefix_def)
    with "1.prems"(2) have "length (drop (length old) s) < length s" by simp
    with remove_all_of_shorter [of old "drop (length old) s"] have "length (remove_all_of old (drop (length old) s)) < length s"
      by linarith
    with True "1.prems"(2) show ?thesis by (subst remove_all_of.simps) simp
  next
    case False
    then have np: "\<not> prefix old s" by (simp add: HasPrefix_iff)
    with "1.prems" obtain c t where s: "s = c # t" by (cases s) (auto simp: Contains_iff)
    with np "1.prems" have "Contains t old" by (simp add: Contains_iff sublist_Cons_right)
    with 1 False s show ?thesis by (subst remove_all_of.simps) simp
  qed
qed

text \<open>\<open>for strings.Contains(cleaned, "..") { cleaned = strings.ReplaceAll(cleaned, "..", "") }\<close>\<close>

function strip_dotdot :: "string \<Rightarrow> string" where
  "strip_dotdot s = (if Contains s ''..'' then strip_dotdot (remove_all_of ''..'' s) else s)"
  by pat_completeness auto
termination
  by (relation "measure length") (auto simp: remove_all_of_strict)

declare strip_dotdot.simps [simp del]

definition SanitizePath :: "string \<Rightarrow> string" where
  "SanitizePath path =
     (let cleaned = strip_dotdot (Clean path)
      in Clean (remove_all_of [CHR 0x00] cleaned))"

section \<open>What a path means\<close>

definition walk1 :: "string list \<Rightarrow> string \<Rightarrow> string list" where
  "walk1 d e = (if e = '''' \<or> e = ''.'' then d else if e = ''..'' then butlast d else d @ [e])"

definition walk :: "string list \<Rightarrow> string list \<Rightarrow> string list" where
  "walk d es = foldl walk1 d es"

text \<open>The place a path leads to from the place \<open>d\<close>; an absolute path starts at the root.\<close>

definition follow :: "string list \<Rightarrow> string \<Rightarrow> string list" where
  "follow d path = walk (if IsAbs path then [] else d) (Split path slash)"

definition plain :: "string \<Rightarrow> bool" where
  "plain e \<longleftrightarrow> e \<noteq> '''' \<and> e \<noteq> ''.'' \<and> e \<noteq> ''..'' \<and> slash \<notin> set e"

lemma plain_no_slash: "list_all plain es \<Longrightarrow> \<forall>e \<in> set es. slash \<notin> set e"
  unfolding list_all_iff plain_def by blast

lemma walk_simps [simp]: "walk d [] = d" "walk d (e # es) = walk (walk1 d e) es"
  by (simp_all add: walk_def)

lemma walk_append: "walk d (es @ fs) = walk (walk d es) fs"
  by (simp add: walk_def)

lemma walk_plain: "list_all plain es \<Longrightarrow> walk d es = d @ es"
  by (induction es arbitrary: d) (auto simp: walk1_def plain_def)

lemma walk1_plain: "list_all plain d \<Longrightarrow> slash \<notin> set e \<Longrightarrow> list_all plain (walk1 d e)"
  by (auto simp: walk1_def plain_def list_all_iff dest: in_set_butlastD)

lemma walk_keeps_plain: "list_all plain d \<Longrightarrow> \<forall>e \<in> set es. slash \<notin> set e \<Longrightarrow> list_all plain (walk d es)"
proof (induction es arbitrary: d)
  case (Cons e es)
  from Cons.prems have "list_all plain (walk1 d e)" by (simp add: walk1_plain)
  from Cons.IH [OF this] Cons.prems show ?case by simp
qed simp

lemma follow_plain: "list_all plain d \<Longrightarrow> list_all plain (follow d p)"
  unfolding follow_def by (rule walk_keeps_plain) (use Split_no_sep in auto)

text \<open>For an absolute path, cleaning computes exactly the place the path leads to.\<close>

lemma clean_element_rooted: "list_all plain out \<Longrightarrow> rev (clean_element True out e) = walk1 (rev out) e"
  by (cases out) (auto simp: clean_element_def walk1_def plain_def butlast_append)

lemma clean_element_plain: "list_all plain out \<Longrightarrow> slash \<notin> set e \<Longrightarrow> list_all plain (clean_element True out e)"
  by (cases out) (auto simp: clean_element_def plain_def)

lemma clean_fold_rooted:
  "list_all plain out \<Longrightarrow> \<forall>e \<in> set es. slash \<notin> set e \<Longrightarrow> rev (foldl (clean_element True) out es) = walk (rev out) es"
proof (induction es arbitrary: out)
  case (Cons e es)
  then have "list_all plain (clean_element True out e)" by (simp add: clean_element_plain)
  from Cons.IH [OF this] Cons.prems show ?case by (simp add: clean_element_rooted)
qed simp

lemma Clean_abs: "IsAbs p \<Longrightarrow> Clean p = ''/'' @ Join (follow [] p) ''/''"
proof -
  assume "IsAbs p"
  moreover have "\<forall>e \<in> set (Split p slash). slash \<notin> set e" by (auto dest: Split_no_sep)
  ultimately have "clean_elements p = follow [] p"
    using clean_fold_rooted [of "[]" "Split p slash"] by (simp add: clean_elements_def follow_def)
  with \<open>IsAbs p\<close> show ?thesis by (simp add: Clean_def Let_def)
qed

lemma IsAbs_slash [simp]: "IsAbs (CHR ''/'' # p)"
  by (simp add: IsAbs_def HasPrefix_def)

lemma IsAbs_Clean: "IsAbs p \<Longrightarrow> IsAbs (Clean p)"
  by (simp add: Clean_abs)

text \<open>The text of a place, and back.\<close>

lemma follow_text: "list_all plain es \<Longrightarrow> follow [] (''/'' @ Join es ''/'') = es"
proof (cases "es = []")
  case True
  then show ?thesis by (simp add: follow_def walk1_def)
next
  case False
  assume p: "list_all plain es"
  then have "Split (Join es ''/'') slash = es" using False by (intro Split_Join) (auto simp: list_all_iff plain_def)
  then show ?thesis using walk_plain [OF p] by (simp add: follow_def walk1_def)
qed

lemma follow_Clean: "IsAbs p \<Longrightarrow> follow [] (Clean p) = follow [] p"
  unfolding Clean_abs by (rule follow_text) (simp add: follow_plain)

lemma Clean_Clean_abs: "IsAbs p \<Longrightarrow> Clean (Clean p) = Clean p"
  using IsAbs_Clean [of p] by (simp add: Clean_abs [of "Clean p"] follow_Clean) (simp add: Clean_abs)

section \<open>Containment\<close>

definition text_of :: "string list \<Rightarrow> string" where
  "text_of es = concat (map (\<lambda>e. e @ ''/'') es)"

lemma Join_text_of: "es \<noteq> [] \<Longrightarrow> Join es ''/'' @ ''/'' = text_of es"
proof (induction es)
  case (Cons e es)
  then show ?case by (cases es) (auto simp: text_of_def)
qed simp

lemma prefix_first_element:
  "slash \<notin> set b \<Longrightarrow> slash \<notin> set e \<Longrightarrow> prefix (b @ slash # xs) (e @ slash # ys) \<longleftrightarrow> b = e \<and> prefix xs ys"
proof (induction b arbitrary: e)
  case Nil
  then show ?case by (cases e) auto
next
  case (Cons c b)
  then show ?case by (cases e) auto
qed

lemma prefix_text_of:
  "list_all plain bs \<Longrightarrow> list_all plain es \<Longrightarrow> prefix (text_of bs) (text_of es) \<longleftrightarrow> prefix bs es"
proof (induction bs arbitrary: es)
  case (Cons b bs)
  show ?case
  proof (cases es)
    case Nil
    then show ?thesis by (simp add: text_of_def)
  next
    case (Cons e es')
    have "prefix (b @ slash # text_of bs) (e @ slash # text_of es') \<longleftrightarrow> b = e \<and> prefix (text_of bs) (text_of es')"
      using Cons.prems local.Cons by (intro prefix_first_element) (auto simp: plain_def)
    with Cons.IH [of es'] Cons.prems local.Cons show ?thesis by (simp add: text_of_def)
  qed
qed (simp add: text_of_def)

text \<open>The test both checks make on two cleaned absolute paths: it holds for the base itself and, unless
  the base is the root, for what lies below it.\<close>

lemma prefix_test:
  assumes "list_all plain bs" and "list_all plain es"
  shows "(HasPrefix ((''/'' @ Join es ''/'') @ ''/'') ((''/'' @ Join bs ''/'') @ ''/'') \<or> ''/'' @ Join es ''/'' = ''/'' @ Join bs ''/'')
     \<longleftrightarrow> es = bs \<or> (bs \<noteq> [] \<and> prefix bs es)"
proof -
  have eq: "Join es ''/'' = Join bs ''/'' \<longleftrightarrow> es = bs"
    using follow_text [OF assms(1)] follow_text [OF assms(2)] by metis
  consider "bs = []" "es = []" | "bs = []" "es \<noteq> []" | "bs \<noteq> []" "es = []" | "bs \<noteq> []" "es \<noteq> []" by blast
  then show ?thesis
  proof cases
    case 1
    then show ?thesis by simp
  next
    case 2
    then obtain e es' where e: "es = e # es'" "e \<noteq> ''''" "slash \<notin> set e" using assms(2) by (cases es) (auto simp: plain_def)
    then obtain c e' where "e = c # e'" "c \<noteq> slash" by (cases e) auto
    with 2 e eq show ?thesis by (simp add: HasPrefix_iff Join_text_of text_of_def)
  next
    case 3
    then obtain b bs' where b: "bs = b # bs'" "b \<noteq> ''''" "slash \<notin> set b" using assms(1) by (cases bs) (auto simp: plain_def)
    then obtain c b' where "b = c # b'" "c \<noteq> slash" by (cases b) auto
    with 3 b eq show ?thesis by (simp add: HasPrefix_iff Join_text_of text_of_def)
  next
    case 4
    with eq prefix_text_of [OF assms] show ?thesis by (auto simp: HasPrefix_iff Join_text_of)
  qed
qed

lemma follow_join: "IsAbs b \<Longrightarrow> follow [] (b @ ''/'' @ p) = walk (follow [] b) (Split p slash)"
proof -
  assume "IsAbs b"
  then have "IsAbs (b @ ''/'' @ p)" by (auto simp: IsAbs_def HasPrefix_iff)
  with \<open>IsAbs b\<close> Split_append_sep [of b slash p] show ?thesis by (simp add: follow_def walk_append)
qed



section \<open>Relative paths\<close>

text \<open>Cleaning a relative path leaves \<open>k\<close> times \<open>..\<close> and then plain names: \<open>k\<close> levels up, then down.\<close>

definition up_down :: "string list \<Rightarrow> nat \<Rightarrow> string list \<Rightarrow> bool" where
  "up_down out k ns \<longleftrightarrow> out = rev ns @ replicate k ''..'' \<and> list_all plain ns"

lemma butlast_take_up: "butlast (take (length d - k) d) = take (length d - Suc k) d"
  by (simp add: butlast_take)

lemma up_down_element:
  assumes "up_down out k ns" and "slash \<notin> set e"
  shows "\<exists>k' ns'. up_down (clean_element False out e) k' ns'
     \<and> (\<forall>d. walk1 (take (length d - k) d @ ns) e = take (length d - k') d @ ns')"
proof -
  have out: "out = rev ns @ replicate k ''..''" and ns: "list_all plain ns" using assms by (simp_all add: up_down_def)
  consider "e = '''' \<or> e = ''.''" | "e = ''..''" "ns = []" | "e = ''..''" "ns \<noteq> []" | "plain e"
    using assms(2) by (auto simp: plain_def)
  then show ?thesis
  proof cases
    case 1
    with assms(1) show ?thesis by (intro exI [of _ k] exI [of _ ns]) (auto simp: clean_element_def walk1_def)
  next
    case 2
    then have "clean_element False out e = replicate (Suc k) ''..''"
      using out by (cases k) (auto simp: clean_element_def)
    with 2 show ?thesis
      by (intro exI [of _ "Suc k"] exI [of _ "[]"]) (simp add: up_down_def walk1_def butlast_take_up)
  next
    case 3
    then obtain ms m where m: "ns = ms @ [m]" by (cases ns rule: rev_cases) auto
    with ns have "m \<noteq> ''..''" by (simp add: plain_def)
    with 3 m out ns show ?thesis
      by (intro exI [of _ k] exI [of _ ms]) (simp add: up_down_def clean_element_def walk1_def butlast_append)
  next
    case 4
    with out ns show ?thesis
      by (intro exI [of _ k] exI [of _ "ns @ [e]"]) (simp add: up_down_def clean_element_def walk1_def plain_def)
  qed
qed

lemma up_down_fold:
  assumes "up_down out k ns" and "\<forall>e \<in> set es. slash \<notin> set e"
  shows "\<exists>k' ns'. up_down (foldl (clean_element False) out es) k' ns'
     \<and> (\<forall>d. walk (take (length d - k) d @ ns) es = take (length d - k') d @ ns')"
  using assms
proof (induction es arbitrary: out k ns)
  case Nil
  then show ?case by auto
next
  case (Cons e es)
  obtain k' ns' where 1: "up_down (clean_element False out e) k' ns'"
    and 2: "\<And>d. walk1 (take (length d - k) d @ ns) e = take (length d - k') d @ ns'"
    using up_down_element [OF Cons.prems(1), of e] Cons.prems(2) by auto
  from Cons.IH [OF 1] Cons.prems(2) show ?case by (simp add: 2)
qed

lemma relative_clean:
  assumes "\<not> IsAbs p"
  obtains k ns where "clean_elements p = replicate k ''..'' @ ns" and "list_all plain ns"
    and "\<And>d. follow d p = take (length d - k) d @ ns"
proof -
  have "up_down [] 0 []" by (simp add: up_down_def)
  moreover have "\<forall>e \<in> set (Split p slash). slash \<notin> set e" by (auto dest: Split_no_sep)
  ultimately obtain k ns where "up_down (foldl (clean_element False) [] (Split p slash)) k ns"
    and "\<And>d. walk d (Split p slash) = take (length d - k) d @ ns"
    using up_down_fold [of "[]" 0 "[]" "Split p slash"] by auto
  with assms that [of k ns] show thesis by (auto simp: clean_elements_def up_down_def follow_def)
qed

lemma leading_dotdot:
  assumes "\<forall>e \<in> set es. slash \<notin> set e"
  shows "HasPrefix (Join es ''/'') ''../'' \<or> Join es ''/'' = ''..'' \<longleftrightarrow> es \<noteq> [] \<and> hd es = ''..''"
proof (cases es)
  case (Cons e es')
  then have s: "slash \<notin> set e" using assms by simp
  show ?thesis
  proof (cases es')
    case Nil
    have "\<not> prefix ''../'' e" using s by (auto simp: prefix_def)
    with Cons Nil show ?thesis by (simp add: HasPrefix_iff)
  next
    case c: (Cons f fs)
    let ?rest = "Join (f # fs) ''/''"
    have "prefix ''../'' (e @ slash # ?rest) \<longleftrightarrow> e = ''..''"
      using prefix_first_element [of "''..''" e "[]" ?rest] s by auto
    moreover have "e @ slash # ?rest \<noteq> ''..''" by (auto simp: append_eq_Cons_conv)
    ultimately show ?thesis using Cons c by (simp add: HasPrefix_iff)
  qed
qed (simp add: HasPrefix_def)

text \<open>A relative path passes \<open>ValidateRelativePath\<close> exactly when it is not empty, not absolute and,
  from whatever directory it is followed, leads to a place inside that directory.\<close>

theorem ValidateRelativePath_exact:
  "ValidateRelativePath p = None \<longleftrightarrow> p \<noteq> '''' \<and> \<not> IsAbs p \<and> (\<forall>d. prefix d (follow d p))"
proof (cases "p = '''' \<or> IsAbs p")
  case True
  then show ?thesis by (auto simp: ValidateRelativePath_def)
next
  case False
  then obtain k ns where c: "clean_elements p = replicate k ''..'' @ ns" and ns: "list_all plain ns"
    and f: "\<And>d. follow d p = take (length d - k) d @ ns"
    using relative_clean [of p] by blast
  have sl: "\<forall>e \<in> set (replicate k ''..'' @ ns). slash \<notin> set e" using plain_no_slash [OF ns] by (simp add: ball_Un)
  have hd: "replicate k ''..'' @ ns \<noteq> [] \<and> hd (replicate k ''..'' @ ns) = ''..'' \<longleftrightarrow> k \<noteq> 0"
    using ns by (cases k; cases ns) (auto simp: plain_def)
  have "ValidateRelativePath p = None \<longleftrightarrow> \<not> (HasPrefix (Clean p) ''../'' \<or> Clean p = ''..'')"
    using False by (auto simp: ValidateRelativePath_def Let_def)
  also have "\<dots> \<longleftrightarrow> \<not> (HasPrefix (Join (replicate k ''..'' @ ns) ''/'') ''../'' \<or> Join (replicate k ''..'' @ ns) ''/'' = ''..'')"
    using False by (auto simp: Clean_def c Let_def HasPrefix_def)
  also have "\<dots> \<longleftrightarrow> k = 0" unfolding leading_dotdot [OF sl] hd by simp
  also have "\<dots> \<longleftrightarrow> (\<forall>d. prefix d (follow d p))"
  proof
    assume "\<forall>d. prefix d (follow d p)"
    then have p: "prefix [''x'' @ concat ns] (follow [''x'' @ concat ns] p)" by blast
    show "k = 0"
    proof (rule ccontr)
      assume "k \<noteq> 0"
      then have "follow [''x'' @ concat ns] p = ns" using f by simp
      with p obtain ms where "ns = (''x'' @ concat ns) # ms" by (auto simp: prefix_def)
      then have "length (concat ns) = length ((''x'' @ concat ns) @ concat ms)" by (metis concat.simps(2))
      then show False by simp
    qed
  qed (simp add: f)
  finally show ?thesis using False by auto
qed

section \<open>Limits of the checks\<close>

text \<open>With a relative base that climbs, the prefix test does not see an escape: \<open>../..\<close> is outside \<open>..\<close>.\<close>

lemma SafeJoin_relative_base_escapes: "SafeJoin ''..'' ''..'' = Inr ''../..''"
  by code_simp

text \<open>With the root or the working directory as the base, even a harmless name is refused.\<close>

lemma SafeJoin_root_base_refuses: "SafeJoin ''/'' ''etc'' = Inl ErrPathTraversal" "SafeJoin ''.'' ''etc'' = Inl ErrPathTraversal"
  by code_simp+

text \<open>\<open>SanitizePath\<close> removes the null bytes after the \<open>..\<close>, so a null byte between two dots brings a
  traversal back.\<close>

lemma SanitizePath_restores_traversal:
  "SanitizePath (''.'' @ [CHR 0x00] @ ''./secret'') = ''../secret''"
  by code_simp

end
