(* ===== verification/Cmd_Validator.thy ===== *)
theory Cmd_Validator
  imports Go_Strings
begin

text \<open>
  The command validator, \<open>internal/security/cmdvalidator.go\<close>: commands are accepted only when they
  contain no blocked substring and start an allowed program.

  A compiled regular expression is what it is used for, the test whether it matches a string. An error
  is the reason it gives; the texts with quoted values are left out.
\<close>

section \<open>The validator\<close>

record CommandValidator =
  AllowedBinaries :: "string \<rightharpoonup> bool"
  AllowedPatterns :: "(string \<Rightarrow> bool) list"
  BlockedSubstrings :: "string list"

definition defaultBlockedSubstrings :: "string list" where
  "defaultBlockedSubstrings =
     [''$('', [CHR 0x60], ''${'', ''&&'', ''||'', '';'', ''|'', ''>'', ''<'', ''>>'', ''<<'', ''&'',
      ''eval '', ''exec '', [CHR 0x0A], [CHR 0x0D], [CHR 0x00]]"

definition defaultAllowedNames :: "string list" where
  "defaultAllowedNames =
     [''git'', ''/usr/bin/git'', ''php'', ''composer'', ''/usr/bin/php'', ''node'', ''npm'', ''npx'', ''yarn'', ''pnpm'',
      ''python'', ''python3'', ''pip'', ''pip3'', ''rsync'', ''cp'', ''mv'', ''rm'', ''mkdir'', ''chmod'', ''chown'', ''ln'',
      ''tar'', ''unzip'', ''echo'', ''cat'', ''grep'', ''head'', ''tail'', ''wc'', ''date'', ''sleep'', ''test'', ''true'',
      ''false'', ''exit'', ''pwd'', ''sh'', ''bash'', ''systemctl'', ''service'', ''artisan'', ''rake'', ''bundle'',
      ''docker'', ''docker-compose'', ''timeout'']"

definition defaultAllowedBinaries :: "string \<rightharpoonup> bool" where
  "defaultAllowedBinaries name = (if name \<in> set defaultAllowedNames then Some True else None)"

definition NewCommandValidator :: CommandValidator where
  "NewCommandValidator =
     \<lparr>AllowedBinaries = defaultAllowedBinaries, AllowedPatterns = [], BlockedSubstrings = defaultBlockedSubstrings\<rparr>"

definition NewStrictCommandValidator :: CommandValidator where
  "NewStrictCommandValidator =
     \<lparr>AllowedBinaries = Map.empty, AllowedPatterns = [], BlockedSubstrings = defaultBlockedSubstrings\<rparr>"

definition AllowBinary :: "string \<Rightarrow> CommandValidator \<Rightarrow> CommandValidator" where
  "AllowBinary name v = v\<lparr>AllowedBinaries := (AllowedBinaries v)(name \<mapsto> True)\<rparr>"

definition AllowPattern :: "(string \<Rightarrow> bool) \<Rightarrow> CommandValidator \<Rightarrow> CommandValidator" where
  "AllowPattern pattern v = v\<lparr>AllowedPatterns := AllowedPatterns v @ [pattern]\<rparr>"

definition BlockSubstring :: "string \<Rightarrow> CommandValidator \<Rightarrow> CommandValidator" where
  "BlockSubstring s v = v\<lparr>BlockedSubstrings := BlockedSubstrings v @ [s]\<rparr>"

section \<open>Extracting the program\<close>

lemma strip_left_length: "length (strip_left ws s) \<le> length s"
proof (induction ws s rule: strip_left.induct)
  case (1 ws s)
  then show ?case
    by (subst strip_left.simps) (fastforce split: option.splits dest: strip_one_shorter)
qed

lemma TrimSpace_length: "length (TrimSpace s) \<le> length s"
  unfolding TrimSpace_def
  by (metis (no_types, lifting) dual_order.trans length_rev strip_left_length)

text \<open>\<open>strings.SplitN(cmd, " ", 2)\<close>: two parts when there is a blank.\<close>

definition split_blank :: "string \<Rightarrow> (string \<times> string) option" where
  "split_blank cmd = map_option (\<lambda>i. (take i cmd, drop (Suc i) cmd)) (Index cmd '' '')"

lemma split_blank_shorter: "split_blank cmd = Some (p, q) \<Longrightarrow> length q < length cmd"
proof -
  assume "split_blank cmd = Some (p, q)"
  then obtain i where i: "Index cmd '' '' = Some i" and q: "q = drop (Suc i) cmd" by (auto simp: split_blank_def)
  from Index_Some_split [OF i] have "i < length cmd" by auto
  with q show ?thesis by simp
qed

text \<open>The loop that skips inline environment variables.\<close>

function skip_env :: "string \<Rightarrow> string" where
  "skip_env cmd =
     (if Contains cmd ''='' then
        (case split_blank cmd of
           None \<Rightarrow> cmd
         | Some (p, q) \<Rightarrow> if \<not> Contains p ''='' then cmd else skip_env (TrimSpace q))
      else cmd)"
  by pat_completeness auto
termination
proof (relation "measure length")
  fix cmd x p q
  assume "split_blank cmd = Some x" "(p, q) = x"
  then have "length q < length cmd" by (metis split_blank_shorter)
  with TrimSpace_length [of q] show "(TrimSpace q, cmd) \<in> measure length" by simp
qed simp

declare skip_env.simps [simp del]

definition extractBinary :: "string \<Rightarrow> string" where
  "extractBinary cmd =
     (let cmd = TrimSpace cmd;
          cmd = (case Index cmd '' '' of
                   None \<Rightarrow> cmd
                 | Some idx \<Rightarrow>
                     if idx > 0 \<and> take idx cmd = ''cd''
                     then (case Index cmd ''&&'' of
                             None \<Rightarrow> cmd
                           | Some andIdx \<Rightarrow> if andIdx > 0 then TrimSpace (drop (andIdx + 2) cmd) else cmd)
                     else cmd);
          parts = Fields (skip_env cmd)
      in case parts of [] \<Rightarrow> '''' | w # _ \<Rightarrow> w)"

definition extractBaseName :: "string \<Rightarrow> string" where
  "extractBaseName path = last (Split path (CHR ''/''))"

section \<open>Validation\<close>

datatype block_reason = BlockedPattern string | EmptyCommand | NoBinary | NotInAllowlist string

definition allows :: "CommandValidator \<Rightarrow> string \<Rightarrow> bool" where
  "allows v name \<longleftrightarrow> AllowedBinaries v name = Some True"

definition Validate :: "CommandValidator \<Rightarrow> string \<Rightarrow> block_reason option" where
  "Validate v cmd =
     (case List.find (Contains cmd) (BlockedSubstrings v) of
        Some blocked \<Rightarrow> Some (BlockedPattern blocked)
      | None \<Rightarrow>
          (let cmd = TrimSpace cmd
           in if cmd = '''' then Some EmptyCommand
              else
                (let binary = extractBinary cmd
                 in if binary = '''' then Some NoBinary
                    else if allows v binary then None
                    else if allows v (extractBaseName binary) then None
                    else if list_ex (\<lambda>p. p cmd) (AllowedPatterns v) then None
                    else Some (NotInAllowlist binary))))"

fun validate_from :: "CommandValidator \<Rightarrow> nat \<Rightarrow> string list \<Rightarrow> (nat \<times> block_reason) option" where
  "validate_from v i [] = None"
| "validate_from v i (hook # hooks) =
     (case Validate v hook of Some e \<Rightarrow> Some (i, e) | None \<Rightarrow> validate_from v (Suc i) hooks)"

definition ValidateHooks :: "CommandValidator \<Rightarrow> string list \<Rightarrow> (nat \<times> block_reason) option" where
  "ValidateHooks v hooks = validate_from v 0 hooks"

definition truncateForError :: "string \<Rightarrow> string" where
  "truncateForError s = (if length s \<le> 50 then s else take 47 s @ ''...'')"

section \<open>Words of a command\<close>

abbreviation blank :: char where "blank \<equiv> CHR '' ''"

text \<open>Commands whose only white space is the blank.\<close>

definition simple_char :: "char \<Rightarrow> bool" where
  "simple_char c \<longleftrightarrow> (let n = of_char c :: nat in n < 128 \<and> \<not> (9 \<le> n \<and> n \<le> 13))"

lemma strip_one_simple:
  assumes "simple_char c"
  shows "strip_one white_space (c # t) = (if c = blank then Some t else None)"
    and "strip_one (map rev white_space) (c # t) = (if c = blank then Some t else None)"
proof -
  have n: "c \<noteq> d" if "\<not> simple_char d" for d using assms that by auto
  have ne: "c \<noteq> CHR 0x09" "c \<noteq> CHR 0x0A" "c \<noteq> CHR 0x0B" "c \<noteq> CHR 0x0C" "c \<noteq> CHR 0x0D" "c \<noteq> CHR 0xC2" "c \<noteq> CHR 0xE1"
    "c \<noteq> CHR 0xE2" "c \<noteq> CHR 0xE3" "c \<noteq> CHR 0x85" "c \<noteq> CHR 0xA0" "c \<noteq> CHR 0x80" "c \<noteq> CHR 0xA8" "c \<noteq> CHR 0xA9" "c \<noteq> CHR 0xAF"
    "c \<noteq> CHR 0x9F" "c \<noteq> CHR 0x81" "c \<noteq> CHR 0x82" "c \<noteq> CHR 0x83" "c \<noteq> CHR 0x84" "c \<noteq> CHR 0x86" "c \<noteq> CHR 0x87"
    "c \<noteq> CHR 0x88" "c \<noteq> CHR 0x89" "c \<noteq> CHR 0x8A"
    by (rule n, simp add: simple_char_def Let_def)+
  show "strip_one white_space (c # t) = (if c = blank then Some t else None)"
    and "strip_one (map rev white_space) (c # t) = (if c = blank then Some t else None)"
    unfolding white_space_list by (simp_all add: HasPrefix_def ne)
qed

lemma strip_one_Nil: "strip_one ws [] = None"
  by (induction ws) (auto simp: HasPrefix_def)

definition words :: "string \<Rightarrow> string list" where
  "words s = filter (\<lambda>p. p \<noteq> '''') (Split s blank)"

lemma words_blank: "words (blank # s) = words s" "words (s @ [blank]) = words s" "words [] = []"
  using Split_append_sep [of s blank "[]"] by (simp_all add: words_def)

lemma words_dropWhile: "words (dropWhile (\<lambda>c. c = blank) s) = words s"
  by (induction s) (simp_all add: words_blank)

lemma words_dropWhile_rev: "words (rev (dropWhile (\<lambda>c. c = blank) (rev s))) = words s"
  by (induction s rule: rev_induct) (simp_all add: words_blank)

lemma strip_left_simple:
  assumes "list_all simple_char s" and "ws = white_space \<or> ws = map rev white_space"
  shows "strip_left ws s = dropWhile (\<lambda>c. c = blank) s"
  using assms(1)
proof (induction s)
  case Nil
  then show ?case by (subst strip_left.simps) (simp add: strip_one_Nil)
next
  case (Cons c s)
  then have "strip_one ws (c # s) = (if c = blank then Some s else None)" using assms(2) strip_one_simple by auto
  with Cons show ?case by (subst strip_left.simps) simp
qed

lemma list_all_dropWhile: "list_all P s \<Longrightarrow> list_all P (dropWhile Q s)"
  by (induction s) auto

lemma TrimSpace_simple:
  "list_all simple_char s \<Longrightarrow> TrimSpace s = rev (dropWhile (\<lambda>c. c = blank) (rev (dropWhile (\<lambda>c. c = blank) s)))"
  by (simp add: TrimSpace_def strip_left_simple list_all_dropWhile list_all_rev)

lemma TrimSpace_words: "list_all simple_char s \<Longrightarrow> words (TrimSpace s) = words s"
  by (simp add: TrimSpace_simple words_dropWhile words_dropWhile_rev)

lemma TrimSpace_simple_chars: "list_all simple_char s \<Longrightarrow> list_all simple_char (TrimSpace s)"
  by (simp add: TrimSpace_simple list_all_dropWhile list_all_rev)

lemma fields_from_simple:
  "list_all simple_char s \<Longrightarrow> fields_from acc s = filter (\<lambda>p. p \<noteq> '''') (case Split s blank of p # ps \<Rightarrow> (rev acc @ p) # ps)"
proof (induction s arbitrary: acc)
  case Nil
  then show ?case by (subst fields_from.simps) (simp add: strip_one_Nil)
next
  case (Cons c s)
  then have so: "strip_one white_space (c # s) = (if c = blank then Some s else None)" by (simp add: strip_one_simple)
  obtain p ps where sp: "Split s blank = p # ps" using Split_nonempty by (cases "Split s blank") auto
  from Cons so sp show ?case by (subst fields_from.simps) auto
qed

lemma Fields_simple: "list_all simple_char s \<Longrightarrow> Fields s = words s"
  using fields_from_simple [of s "[]"] Split_nonempty [of s blank]
  by (simp add: Fields_def words_def split: list.splits)

text \<open>The word the shell takes as the program: the first one that is not an assignment. (The code takes
  the last word when all are assignments.)\<close>

fun drop_assignments :: "string list \<Rightarrow> string list" where
  "drop_assignments (w # w' # ws) = (if CHR ''='' \<in> set w then drop_assignments (w' # ws) else w # w' # ws)"
| "drop_assignments ws = ws"

definition trimmed :: "string \<Rightarrow> bool" where
  "trimmed s \<longleftrightarrow> s = [] \<or> (hd s \<noteq> blank \<and> last s \<noteq> blank)"

lemma dropWhile_hd: "dropWhile (\<lambda>c. c = blank) s \<noteq> [] \<Longrightarrow> hd (dropWhile (\<lambda>c. c = blank) s) \<noteq> blank"
  using hd_dropWhile [of "\<lambda>c. c = blank" s] by simp

lemma TrimSpace_trimmed: "list_all simple_char s \<Longrightarrow> trimmed (TrimSpace s)"
proof -
  assume s: "list_all simple_char s"
  define l where "l = dropWhile (\<lambda>c. c = blank) s"
  define r where "r = dropWhile (\<lambda>c. c = blank) (rev l)"
  have t: "TrimSpace s = rev r" using s by (simp add: TrimSpace_simple l_def r_def)
  show ?thesis
  proof (cases "r = []")
    case False
    then have "hd r \<noteq> blank" unfolding r_def by (rule dropWhile_hd)
    moreover obtain xs where "rev l = xs @ r" unfolding r_def by (metis takeWhile_dropWhile_id)
    then have "l = rev r @ rev xs" by (metis rev_append rev_rev_ident)
    with False have "hd (rev r) = hd l" "l \<noteq> []" by simp_all
    moreover from this have "hd l \<noteq> blank" unfolding l_def using dropWhile_hd by blast
    ultimately show ?thesis using False by (simp add: t trimmed_def last_rev)
  qed (simp add: t trimmed_def)
qed

lemma Index_blank: "Index s '' '' = Some i \<Longrightarrow> s = take i s @ blank # drop (Suc i) s \<and> blank \<notin> set (take i s)"
proof (induction s arbitrary: i)
  case (Cons c s)
  show ?case
  proof (cases "c = blank")
    case True
    with Cons.prems show ?thesis by (subst (asm) Index.simps) (simp add: HasPrefix_def)
  next
    case False
    with Cons.prems obtain j where "Index s '' '' = Some j" "i = Suc j"
      by (subst (asm) Index.simps) (auto simp: HasPrefix_def)
    with Cons.IH False show ?thesis by auto
  qed
qed (simp add: Index.simps HasPrefix_def)

lemma Index_no_blank: "Index s '' '' = None \<Longrightarrow> blank \<notin> set s"
  using Contains_char_iff [of s blank] by (simp add: Contains_def)

lemma words_nonblank: "(\<exists>c \<in> set s. c \<noteq> blank) \<Longrightarrow> words s \<noteq> []"
proof -
  assume "\<exists>c \<in> set s. c \<noteq> blank"
  then obtain c where c: "c \<in> set s" "c \<noteq> blank" by blast
  have "words s = [] \<Longrightarrow> c \<in> set s \<Longrightarrow> c = blank" for c
  proof (induction s)
    case (Cons d s)
    then show ?case by (cases "d = blank") (auto simp: words_def split: list.splits)
  qed simp
  with c show ?thesis by blast
qed

lemma split_blank_words:
  assumes "split_blank s = Some (p, q)" and "trimmed s"
  shows "words s = p # words q" and "words q \<noteq> []" and "s = p @ blank # q"
proof -
  obtain i where i: "Index s '' '' = Some i" and p: "p = take i s" and q: "q = drop (Suc i) s"
    using assms(1) by (auto simp: split_blank_def)
  from Index_blank [OF i] p q show s: "s = p @ blank # q" by simp
  have np: "blank \<notin> set p" using Index_blank [OF i] p by simp
  have "p \<noteq> []" using assms(2) s by (auto simp: trimmed_def)
  with np show "words s = p # words q" unfolding s by (simp add: words_def Split_append)
  have "q \<noteq> []" "last q \<noteq> blank" using assms(2) s by (auto simp: trimmed_def split: if_splits)
  then show "words q \<noteq> []" using words_nonblank by (metis last_in_set)
qed

lemma no_assignment: "CHR ''='' \<notin> set s \<Longrightarrow> drop_assignments (words s) = words s"
proof -
  assume "CHR ''='' \<notin> set s"
  moreover have "x \<in> set w \<Longrightarrow> w \<in> set (Split s c) \<Longrightarrow> x \<in> set s" for x w c
    by (induction s c arbitrary: w rule: Split.induct) (fastforce split: if_splits list.splits)+
  ultimately have "\<forall>w \<in> set (words s). CHR ''='' \<notin> set w" unfolding words_def by fastforce
  then show ?thesis by (cases "words s" rule: drop_assignments.cases) auto
qed

lemma skip_env_words:
  "list_all simple_char s \<Longrightarrow> trimmed s \<Longrightarrow> words (skip_env s) = drop_assignments (words s) \<and> list_all simple_char (skip_env s)"
proof (induction s rule: skip_env.induct)
  case (1 s)
  show ?case
  proof (cases "Contains s ''=''")
    case False
    with "1.prems" show ?thesis by (subst (1 2) skip_env.simps) (simp add: Contains_char_iff no_assignment)
  next
    case True
    show ?thesis
    proof (cases "split_blank s")
      case None
      then have "blank \<notin> set s" by (simp add: split_blank_def Index_no_blank)
      then have "drop_assignments (words s) = words s" by (simp add: words_def Split_single)
      with True None "1.prems" show ?thesis by (subst (1 2) skip_env.simps) simp
    next
      case (Some x)
      obtain p q where x: "x = (p, q)" by fastforce
      note w = split_blank_words [OF Some [unfolded x] "1.prems"(2)]
      have q: "list_all simple_char q" using "1.prems"(1) unfolding w(3) by simp
      show ?thesis
      proof (cases "Contains p ''=''")
        case False
        then have "drop_assignments (words s) = words s"
          using w(1,2) by (cases "words q") (auto simp: Contains_char_iff)
        with False True Some x "1.prems" show ?thesis by (subst (1 2) skip_env.simps) simp
      next
        case p: True
        then have "drop_assignments (words s) = drop_assignments (words q)"
          using w(1,2) by (cases "words q") (auto simp: Contains_char_iff)
        moreover have "words (skip_env (TrimSpace q)) = drop_assignments (words (TrimSpace q))
            \<and> list_all simple_char (skip_env (TrimSpace q))"
          using "1.IH" [OF True Some x [symmetric]] p q by (simp add: TrimSpace_trimmed TrimSpace_simple_chars)
        moreover have "skip_env s = skip_env (TrimSpace q)"
          using True Some x p by (subst skip_env.simps) simp
        ultimately show ?thesis using q by (simp add: TrimSpace_words)
      qed
    qed
  qed
qed

lemma set_TrimSpace: "list_all simple_char s \<Longrightarrow> set (TrimSpace s) \<subseteq> set s"
  by (auto simp: TrimSpace_simple dest!: set_dropWhileD)

lemma extractBinary_words:
  assumes "list_all simple_char cmd" and "CHR ''&'' \<notin> set cmd"
  shows "extractBinary cmd = (case drop_assignments (words cmd) of [] \<Rightarrow> '''' | w # _ \<Rightarrow> w)"
proof -
  let ?c = "TrimSpace cmd"
  have "\<not> Contains ?c ''&&''"
    using assms set_TrimSpace [OF assms(1)] by (auto simp: Contains_iff sublist_def)
  then have n: "Index ?c ''&&'' = None" by (simp add: Contains_def)
  have "list_all simple_char ?c" "trimmed ?c" using assms(1) by (simp_all add: TrimSpace_simple_chars TrimSpace_trimmed)
  from skip_env_words [OF this] have "Fields (skip_env ?c) = drop_assignments (words cmd)"
    using assms(1) by (simp add: Fields_simple TrimSpace_words)
  then show ?thesis by (simp add: extractBinary_def Let_def n split: option.splits)
qed

lemma no_words: "list_all simple_char s \<Longrightarrow> TrimSpace s = '''' \<longleftrightarrow> words s = []"
proof
  assume s: "list_all simple_char s"
  show "TrimSpace s = '''' \<Longrightarrow> words s = []" using TrimSpace_words [OF s] by (simp add: words_blank)
  assume "words s = []"
  then have "words (TrimSpace s) = []" using TrimSpace_words [OF s] by simp
  then have "\<forall>c \<in> set (TrimSpace s). c = blank" using words_nonblank by blast
  with TrimSpace_trimmed [OF s] show "TrimSpace s = ''''" by (cases "TrimSpace s") (auto simp: trimmed_def)
qed

lemma words_nonempty: "w \<in> set (words s) \<Longrightarrow> w \<noteq> ''''"
  by (simp add: words_def)

lemma drop_assignments_subset: "set (drop_assignments ws) \<subseteq> set ws" "drop_assignments ws = [] \<longleftrightarrow> ws = []"
  by (induction ws rule: drop_assignments.induct) auto

lemma find_None_iff_all: "List.find P xs = None \<longleftrightarrow> (\<forall>x \<in> set xs. \<not> P x)"
  by (auto simp: find_None_iff)



lemma ValidateHooks_all: "ValidateHooks v hooks = None \<longleftrightarrow> (\<forall>h \<in> set hooks. Validate v h = None)"
proof -
  have "validate_from v i hooks = None \<longleftrightarrow> (\<forall>h \<in> set hooks. Validate v h = None)" for i
    by (induction hooks arbitrary: i) (auto split: option.splits)
  then show ?thesis by (simp add: ValidateHooks_def)
qed

text \<open>With other white space the loop over the assignments and the shell disagree: a tab ends the
  assignment for the shell, which starts \<open>evil\<close>, but not for the code, which sees \<open>git\<close>.\<close>

lemma Validate_tab_bypass: "Validate NewCommandValidator (''A=1'' @ [CHR 0x09] @ ''evil git'') = None"
  by code_simp

end
