(* ===== verification/Cron.thy ===== *)
theory Cron
  imports Go_Strings
begin

text \<open>
  Schedules, \<open>internal/scheduler/scheduler.go\<close>: cron expressions, intervals and daily times.

  A location of package \<open>time\<close> turns instants into calendar fields and back; it comes from the time-zone
  database, so it is a record of functions, \<open>calendar\<close>, and an argument of what depends on it. \<open>utc\<close> is the
  calendar of the location UTC. \<open>time.ParseDuration\<close> is the argument \<open>parseDuration\<close>.
\<close>

section \<open>Calendars\<close>

record calendar =
  cal_Minute :: "time \<Rightarrow> int"
  cal_Hour :: "time \<Rightarrow> int"
  cal_Day :: "time \<Rightarrow> int"
  cal_Month :: "time \<Rightarrow> int"
  cal_Weekday :: "time \<Rightarrow> int"
  cal_DayAt :: "time \<Rightarrow> int \<Rightarrow> int \<Rightarrow> time"
  cal_AddDays :: "time \<Rightarrow> int \<Rightarrow> time"
  cal_AddYears :: "time \<Rightarrow> int \<Rightarrow> time"

text \<open>\<open>cal_DayAt t h m\<close> is \<open>time.Date\<close> at \<open>h:m\<close> on the day of \<open>t\<close>; \<open>cal_AddDays\<close> and \<open>cal_AddYears\<close> are
  \<open>AddDate(0, 0, n)\<close> and \<open>AddDate(n, 0, 0)\<close>.\<close>

section \<open>Cron expressions\<close>

record CronSchedule =
  cron_Minute :: "int list"
  cron_Hour :: "int list"
  cron_Day :: "int list"
  cron_Month :: "int list"
  cron_Weekday :: "int list"

text \<open>\<open>for i := minVal; i <= maxVal; i += step\<close>: the addition wraps. The first argument bounds the
  number of iterations; \<open>parseField\<close> takes 64, and \<open>step_values_enough\<close> shows that the loop has ended by
  then.\<close>

fun step_values :: "nat \<Rightarrow> int \<Rightarrow> int \<Rightarrow> int \<Rightarrow> int list" where
  "step_values 0 i maxVal step = []"
| "step_values (Suc n) i maxVal step =
     (if i \<le> maxVal then i # step_values n (wrap64 (i + step)) maxVal step else [])"

definition parse_part :: "string \<Rightarrow> int \<Rightarrow> int \<Rightarrow> string + int list" where
  "parse_part part minVal maxVal =
     (if Contains part ''-''
      then
        (case Split part (CHR ''-'') of
           [lo, hi] \<Rightarrow>
             (case Atoi lo of
                None \<Rightarrow> Inl (''invalid range start: '' @ lo)
              | Some start \<Rightarrow>
                  (case Atoi hi of
                     None \<Rightarrow> Inl (''invalid range end: '' @ hi)
                   | Some end' \<Rightarrow>
                       if start < minVal \<or> end' > maxVal \<or> start > end'
                       then Inl (''range out of bounds: '' @ part)
                       else Inr [start..end']))
         | _ \<Rightarrow> Inl (''invalid range: '' @ part))
      else
        (case Atoi part of
           None \<Rightarrow> Inl (''invalid value: '' @ part)
         | Some val \<Rightarrow>
             if val < minVal \<or> val > maxVal then Inl ''value out of bounds'' else Inr [val]))"

fun parse_parts :: "string list \<Rightarrow> int \<Rightarrow> int \<Rightarrow> int list \<Rightarrow> string + int list" where
  "parse_parts [] minVal maxVal values = Inr values"
| "parse_parts (part # parts) minVal maxVal values =
     (case parse_part part minVal maxVal of
        Inl e \<Rightarrow> Inl e
      | Inr vs \<Rightarrow> parse_parts parts minVal maxVal (values @ vs))"

text \<open>The number in the message of a value out of bounds is left out.\<close>

definition parseField :: "string \<Rightarrow> int \<Rightarrow> int \<Rightarrow> string + int list" where
  "parseField field minVal maxVal =
     (if field = ''*'' then Inr [minVal..maxVal]
      else if HasPrefix field ''*/''
      then (case Atoi (drop 2 field) of
              None \<Rightarrow> Inl (''invalid step value: '' @ field)
            | Some step \<Rightarrow> if step \<le> 0 then Inl (''invalid step value: '' @ field) else Inr (step_values 64 minVal maxVal step))
      else parse_parts (Split field (CHR '','')) minVal maxVal [])"

definition ParseCron :: "string \<Rightarrow> string + CronSchedule" where
  "ParseCron expr =
     (case Fields expr of
        [f0, f1, f2, f3, f4] \<Rightarrow>
          (case parseField f0 0 59 of Inl e \<Rightarrow> Inl (''invalid minute field: '' @ e) | Inr minute \<Rightarrow>
          (case parseField f1 0 23 of Inl e \<Rightarrow> Inl (''invalid hour field: '' @ e) | Inr hour \<Rightarrow>
          (case parseField f2 1 31 of Inl e \<Rightarrow> Inl (''invalid day field: '' @ e) | Inr day \<Rightarrow>
          (case parseField f3 1 12 of Inl e \<Rightarrow> Inl (''invalid month field: '' @ e) | Inr month \<Rightarrow>
          (case parseField f4 0 6 of Inl e \<Rightarrow> Inl (''invalid weekday field: '' @ e) | Inr weekday \<Rightarrow>
             Inr \<lparr>cron_Minute = minute, cron_Hour = hour, cron_Day = day, cron_Month = month, cron_Weekday = weekday\<rparr>)))))
      | _ \<Rightarrow> Inl ''cron expression must have 5 fields'')"

section \<open>The next run\<close>

definition contains :: "int list \<Rightarrow> int \<Rightarrow> bool" where
  "contains slice val = list_ex (\<lambda>v. v = val) slice"

definition cron_matches :: "calendar \<Rightarrow> CronSchedule \<Rightarrow> time \<Rightarrow> bool" where
  "cron_matches cal s t \<longleftrightarrow>
     contains (cron_Minute s) (cal_Minute cal t) \<and> contains (cron_Hour s) (cal_Hour cal t)
     \<and> contains (cron_Day s) (cal_Day cal t) \<and> contains (cron_Month s) (cal_Month cal t)
     \<and> contains (cron_Weekday s) (cal_Weekday cal t)"

fun search_minutes :: "nat \<Rightarrow> (time \<Rightarrow> bool) \<Rightarrow> time \<Rightarrow> time option" where
  "search_minutes 0 P t = None"
| "search_minutes (Suc n) P t = (if P t then Some t else search_minutes n P (t + Minute))"

abbreviation maxIterations :: nat where "maxIterations \<equiv> 4 * 365 * 24 * 60"

text \<open>\<open>Truncate(time.Minute)\<close> rounds down to a multiple of a minute since the zero time.\<close>

definition Truncate :: "time \<Rightarrow> duration \<Rightarrow> time" where
  "Truncate t d = t - t mod d"

definition CronSchedule_Next :: "calendar \<Rightarrow> CronSchedule \<Rightarrow> time \<Rightarrow> time" where
  "CronSchedule_Next cal s after =
     (case search_minutes maxIterations (cron_matches cal s) (Truncate (after + Minute) Minute) of
        Some t \<Rightarrow> t
      | None \<Rightarrow> cal_AddYears cal after 10)"

definition IntervalSchedule_Next :: "duration \<Rightarrow> time \<Rightarrow> time" where
  "IntervalSchedule_Next interval after = after + interval"

definition DailySchedule_Next :: "calendar \<Rightarrow> int \<Rightarrow> int \<Rightarrow> time \<Rightarrow> time" where
  "DailySchedule_Next cal hour minute after =
     (let next = cal_DayAt cal after hour minute
      in if \<not> next > after then cal_AddDays cal next 1 else next)"

datatype Schedule =
    IntervalSchedule duration
  | DailySchedule int int
  | CronSched CronSchedule

definition Next :: "calendar \<Rightarrow> Schedule \<Rightarrow> time \<Rightarrow> time" where
  "Next cal s after =
     (case s of
        IntervalSchedule d \<Rightarrow> IntervalSchedule_Next d after
      | DailySchedule h m \<Rightarrow> DailySchedule_Next cal h m after
      | CronSched c \<Rightarrow> CronSchedule_Next cal c after)"

section \<open>Schedule strings\<close>

text \<open>\<open>strings.ToLower\<close> where its result is an ASCII string: besides the letters, only the Kelvin sign
  and the dotted capital I have an ASCII lower case.\<close>

function ToLower :: "string \<Rightarrow> string" where
  "ToLower s =
     (case s of
        [] \<Rightarrow> []
      | c # cs \<Rightarrow>
          if HasPrefix s [CHR 0xE2, CHR 0x84, CHR 0xAA] then CHR ''k'' # ToLower (drop 3 s)
          else if HasPrefix s [CHR 0xC4, CHR 0xB0] then CHR ''i'' # ToLower (drop 2 s)
          else (let n = of_char c :: nat in if 65 \<le> n \<and> n \<le> 90 then char_of (n + 32) else c) # ToLower cs)"
  by pat_completeness auto
termination
  by (relation "measure length") auto

declare ToLower.simps [simp del]

definition ParseSchedule :: "(string \<Rightarrow> duration option) \<Rightarrow> string \<Rightarrow> string + Schedule" where
  "ParseSchedule parseDuration expr0 =
     (let expr = TrimSpace expr0; kw = ToLower expr
      in if kw = ''@daily'' \<or> kw = ''@midnight'' then Inr (DailySchedule 0 0)
         else if kw = ''@hourly'' then Inr (IntervalSchedule Hour)
         else if kw = ''@weekly''
         then Inr (CronSched \<lparr>cron_Minute = [0], cron_Hour = [0], cron_Day = [1..31], cron_Month = [1..12], cron_Weekday = [0]\<rparr>)
         else if kw = ''@monthly''
         then Inr (CronSched \<lparr>cron_Minute = [0], cron_Hour = [0], cron_Day = [1], cron_Month = [1..12], cron_Weekday = [0..6]\<rparr>)
         else
           (case parseDuration expr of
              Some d \<Rightarrow> if d < Minute then Inl ''interval must be at least 1 minute'' else Inr (IntervalSchedule d)
            | None \<Rightarrow> map_sum id CronSched (ParseCron expr)))"

section \<open>Fields\<close>

lemma small_step:
  assumes "0 \<le> i" and "i \<le> hi" and "0 < step" and "step \<le> 2 ^ 62" and "hi < 2 ^ 62"
  shows "wrap64 (i + step) = i + step"
  using assms by (intro wrap64_id) (simp add: in_int64_def min_int64_def max_int64_def)

lemma step_values_small:
  assumes "0 \<le> i" and "0 < step" and "step \<le> 2 ^ 62" and "hi < 2 ^ 62"
  shows "set (step_values n i hi step) \<subseteq> {i..hi}"
    and "nat (hi + 1 - i) \<le> n \<Longrightarrow> step_values (n + m) i hi step = step_values n i hi step"
proof -
  have "set (step_values n i hi step) \<subseteq> {i..hi}
      \<and> (nat (hi + 1 - i) \<le> n \<longrightarrow> step_values (n + m) i hi step = step_values n i hi step)"
    using assms(1)
  proof (induction n arbitrary: i)
    case 0
    then show ?case by (cases m) auto
  next
    case (Suc n)
    show ?case
    proof (cases "i \<le> hi")
      case True
      with Suc.prems have w: "wrap64 (i + step) = i + step" using assms by (simp add: small_step)
      have "0 \<le> i + step" using Suc.prems assms(2) by simp
      from Suc.IH [OF this] True w assms(2) show ?thesis by auto
    qed simp
  qed
  then show "set (step_values n i hi step) \<subseteq> {i..hi}"
    and "nat (hi + 1 - i) \<le> n \<Longrightarrow> step_values (n + m) i hi step = step_values n i hi step" by blast+
qed

lemma step_values_big:
  assumes "2 ^ 62 < step" and "lo + step \<le> max_int64" and "0 \<le> lo" and "lo \<le> hi" and "hi < 2 ^ 62"
  shows "step_values (Suc (Suc n)) lo hi step = [lo]"
proof -
  have "wrap64 (lo + step) = lo + step" using assms by (intro wrap64_id) (simp add: in_int64_def min_int64_def)
  with assms show ?thesis by simp
qed

lemma step_values_overflow:
  assumes "1 \<le> hi" and "hi < 2 ^ 62"
  shows "step_values (Suc (Suc (Suc (Suc n)))) 1 hi max_int64 = [1, min_int64, - 1]"
proof -
  have "wrap64 (1 + max_int64) = min_int64" "wrap64 (min_int64 + max_int64) = - 1" "wrap64 (- 1 + max_int64) = max_int64 - 1"
    by (simp_all add: wrap64_def min_int64_def max_int64_def)
  moreover have "\<not> max_int64 - 1 \<le> hi" "min_int64 \<le> hi" using assms by (simp_all add: max_int64_def min_int64_def)
  ultimately show ?thesis using assms by simp
qed

text \<open>Whatever the step, 64 iterations are enough for the fields of a cron expression.\<close>

lemma step_values_enough:
  assumes "0 < step" and "step \<le> max_int64" and "lo \<in> {0, 1}" and "lo \<le> hi" and "hi \<le> 59"
  shows "step_values (64 + m) lo hi step = step_values 64 lo hi step"
proof -
  consider "step \<le> 2 ^ 62" | "2 ^ 62 < step" "lo + step \<le> max_int64" | "lo = 1" "step = max_int64"
    using assms by force
  then show ?thesis
  proof cases
    case 1
    with assms show ?thesis by (intro step_values_small(2)) auto
  next
    case 2
    then have "step_values (Suc (Suc n)) lo hi step = [lo]" for n using assms by (intro step_values_big) auto
    from this [of "62 + m"] this [of 62] show ?thesis by (simp add: numeral_eq_Suc)
  next
    case 3
    then have "step_values (Suc (Suc (Suc (Suc n)))) lo hi step = [1, min_int64, - 1]" for n
      using assms by (simp only:) (intro step_values_overflow, auto)
    from this [of "60 + m"] this [of 60] show ?thesis by (simp add: numeral_eq_Suc)
  qed
qed

text \<open>A field is well formed when it has a value and all its values lie in the range.\<close>

definition field_ok :: "int \<Rightarrow> int \<Rightarrow> int list \<Rightarrow> bool" where
  "field_ok lo hi vs \<longleftrightarrow> vs \<noteq> [] \<and> list_all (\<lambda>v. lo \<le> v \<and> v \<le> hi) vs"

lemma parse_part_ok: "parse_part part lo hi = Inr vs \<Longrightarrow> field_ok lo hi vs"
  by (auto simp: parse_part_def field_ok_def list_all_iff split: if_splits list.splits option.splits)

lemma parse_parts_ok:
  "parse_parts parts lo hi acc = Inr vs \<Longrightarrow> list_all (\<lambda>v. lo \<le> v \<and> v \<le> hi) acc \<Longrightarrow> parts \<noteq> [] \<or> acc \<noteq> [] \<Longrightarrow> field_ok lo hi vs"
proof (induction parts lo hi acc rule: parse_parts.induct)
  case (1 lo hi acc)
  then show ?case by (simp add: field_ok_def)
next
  case (2 part parts lo hi acc)
  then obtain ws where w: "parse_part part lo hi = Inr ws" by (auto split: sum.splits)
  then have ok: "field_ok lo hi ws" by (rule parse_part_ok)
  have "parse_parts parts lo hi (acc @ ws) = Inr vs" using "2.prems"(1) w by simp
  moreover have "list_all (\<lambda>v. lo \<le> v \<and> v \<le> hi) (acc @ ws)" using "2.prems"(2) ok by (simp add: field_ok_def)
  moreover have "acc @ ws \<noteq> []" using ok by (simp add: field_ok_def)
  ultimately show ?case using "2.IH" [OF w] by blast
qed

lemma step_values_ok:
  assumes "0 < step" and "step < max_int64" and "lo \<in> {0, 1}" and "lo \<le> hi" and "hi \<le> 59"
  shows "field_ok lo hi (step_values 64 lo hi step)"
proof -
  have "(64 :: nat) = Suc 63" by simp
  then have ne: "step_values 64 lo hi step \<noteq> []" using assms(4) by (metis list.distinct(1) step_values.simps(2))
  have "set (step_values 64 lo hi step) \<subseteq> {lo..hi}"
  proof (cases "step \<le> 2 ^ 62")
    case True
    with assms show ?thesis by (intro step_values_small(1)) auto
  next
    case False
    then have "step_values (Suc (Suc n)) lo hi step = [lo]" for n
      using assms by (intro step_values_big) auto
    from this [of 62] assms(4) show ?thesis by (simp add: numeral_eq_Suc)
  qed
  with ne show ?thesis unfolding field_ok_def list_all_iff by (meson atLeastAtMost_iff subsetD)
qed

lemma parseField_ok:
  assumes "parseField field lo hi = Inr vs" and "Atoi (drop 2 field) \<noteq> Some max_int64"
    and "lo \<in> {0, 1}" and "lo \<le> hi" and "hi \<le> 59"
  shows "field_ok lo hi vs"
proof -
  consider "field = ''*''" | "field \<noteq> ''*''" "HasPrefix field ''*/''" | "field \<noteq> ''*''" "\<not> HasPrefix field ''*/''" by blast
  then show ?thesis
  proof cases
    case 1
    then have "vs = [lo..hi]" using assms(1) unfolding parseField_def by simp
    with assms(4) show ?thesis by (simp add: field_ok_def list_all_iff)
  next
    case 2
    then obtain step where st: "Atoi (drop 2 field) = Some step" "0 < step" "vs = step_values 64 lo hi step"
      using assms(1) unfolding parseField_def by (cases "Atoi (drop 2 field)") (simp_all split: if_splits)
    then have "step < max_int64" using assms(2) Atoi_in_range [OF st(1)] by (auto simp: in_int64_def)
    with step_values_ok [OF st(2) this assms(3-5)] st(3) show ?thesis by simp
  next
    case 3
    then have "parse_parts (Split field (CHR '','')) lo hi [] = Inr vs" using assms(1) unfolding parseField_def by simp
    from parse_parts_ok [OF this] show ?thesis by (simp add: Split_nonempty)
  qed
qed


lemma parseField_step_overflow:
  "parseField ''*/9223372036854775807'' 1 31 = Inr [1, - 9223372036854775808, - 1]"
  by code_simp


section \<open>Correctness of the search\<close>

lemma search_minutes_Some:
  "search_minutes n P t = Some u \<Longrightarrow> \<exists>k < n. u = t + int k * Minute \<and> P u \<and> (\<forall>j < k. \<not> P (t + int j * Minute))"
proof (induction n arbitrary: t)
  case (Suc n)
  show ?case
  proof (cases "P t")
    case True
    with Suc.prems show ?thesis by auto
  next
    case False
    with Suc.prems have "search_minutes n P (t + Minute) = Some u" by simp
    from Suc.IH [OF this] obtain k where k: "k < n" "u = t + Minute + int k * Minute" "P u"
      "\<forall>j < k. \<not> P (t + Minute + int j * Minute)" by blast
    have "\<not> P (t + int j * Minute)" if "j < Suc k" for j
      using False k(4) that by (cases j) (auto simp: algebra_simps)
    with k show ?thesis by (intro exI [of _ "Suc k"]) (auto simp: algebra_simps)
  qed
qed simp

lemma search_minutes_None: "search_minutes n P t = None \<Longrightarrow> \<forall>j < n. \<not> P (t + int j * Minute)"
proof (induction n arbitrary: t)
  case (Suc n)
  then have "\<not> P t" and IH: "\<forall>j < n. \<not> P (t + Minute + int j * Minute)" by (auto split: if_splits)
  have "\<not> P (t + int j * Minute)" if "j < Suc n" for j
    using \<open>\<not> P t\<close> IH that by (cases j) (auto simp: algebra_simps)
  then show ?case by blast
qed simp

lemma next_minute:
  fixes after :: time
  defines "start \<equiv> Truncate (after + Minute) Minute"
  shows "after < start" and "start \<le> after + Minute" and "start mod Minute = 0"
    and "u mod Minute = 0 \<Longrightarrow> after < u \<Longrightarrow> \<exists>j. u = start + int j * Minute"
proof -
  show 1: "after < start" and "start \<le> after + Minute"
    unfolding start_def Truncate_def
    using pos_mod_bound [of Minute "after + Minute"] pos_mod_sign [of Minute "after + Minute"] by simp_all
  have "start = Minute * ((after + Minute) div Minute)"
    unfolding start_def Truncate_def by (simp only: minus_mod_eq_mult_div)
  then show 3: "start mod Minute = 0" by (simp only: mod_mult_self1_is_0)
  assume u: "u mod Minute = 0" "after < u"
  have "Minute dvd u - start" using u(1) 3 by (simp add: mod_eq_0_iff_dvd dvd_diff)
  then obtain k where k: "u - start = Minute * k" by (elim dvdE)
  have "start \<le> after + Minute" unfolding start_def Truncate_def by simp
  with u(2) k have "0 \<le> k" by (simp)
  with k show "\<exists>j. u = start + int j * Minute" by (intro exI [of _ "nat k"]) simp
qed

text \<open>C30: the next run of a cron schedule. Whatever the location, \<open>Next\<close> returns: if a full minute in the
  four years (of 365 days) after \<open>after\<close> matches the schedule, it returns the earliest such minute, which
  is later than \<open>after\<close>; otherwise it returns the date ten years later.\<close>

theorem CronSchedule_Next_earliest:
  fixes cal :: calendar and s :: CronSchedule and after :: time
  defines "start \<equiv> Truncate (after + Minute) Minute" and "t \<equiv> CronSchedule_Next cal s after"
  shows "(cron_matches cal s t \<and> t mod Minute = 0 \<and> after < t \<and> t < start + int maxIterations * Minute
        \<and> (\<forall>u. u mod Minute = 0 \<and> after < u \<and> cron_matches cal s u \<longrightarrow> t \<le> u))
    \<or> (t = cal_AddYears cal after 10
        \<and> (\<forall>u. u mod Minute = 0 \<and> after < u \<and> u < start + int maxIterations * Minute \<longrightarrow> \<not> cron_matches cal s u))"
proof (cases "search_minutes maxIterations (cron_matches cal s) start")
  case None
  have "\<not> cron_matches cal s u" if u: "u mod Minute = 0" "after < u" "u < start + int maxIterations * Minute" for u
  proof -
    obtain j where j: "u = start + int j * Minute" using next_minute(4) [OF u(1,2)] start_def by blast
    with u(3) have "j < maxIterations" by simp
    with search_minutes_None [OF None] j show ?thesis by blast
  qed
  with None show ?thesis by (simp add: t_def CronSchedule_Next_def start_def)
next
  case (Some u)
  then have t: "t = u" by (simp add: t_def CronSchedule_Next_def start_def)
  obtain k where k: "k < maxIterations" "u = start + int k * Minute" "cron_matches cal s u"
    "\<forall>j < k. \<not> cron_matches cal s (start + int j * Minute)"
    using search_minutes_Some [OF Some] by blast
  have "u \<le> v" if v: "v mod Minute = 0" "after < v" "cron_matches cal s v" for v
  proof -
    obtain j where j: "v = start + int j * Minute" using next_minute(4) [OF v(1,2)] start_def by blast
    with k(4) v(3) have "\<not> j < k" by blast
    with j k(2) show ?thesis by simp
  qed
  moreover have "start mod Minute = 0" using next_minute(3) start_def by simp
  then have "u mod Minute = 0" unfolding k(2) by (simp only: mod_mult_self1)
  moreover have "after < u" using next_minute(1) [of after] k(2) start_def by simp
  ultimately show ?thesis using t k by auto
qed

section \<open>The calendar of UTC\<close>

text \<open>Days since the first of March of the year 0, in the proleptic Gregorian calendar. The zero time is
  the first of January of the year 1, a Monday.\<close>

abbreviation Day :: duration where "Day \<equiv> 24 * Hour"

definition civil_of_days :: "int \<Rightarrow> int \<times> int \<times> int" where
  "civil_of_days z =
     (let era = z div 146097; doe = z mod 146097;
          yoe = (doe - doe div 1460 + doe div 36524 - doe div 146096) div 365;
          doy = doe - (365 * yoe + yoe div 4 - yoe div 100);
          mp = (5 * doy + 2) div 153;
          d = doy - (153 * mp + 2) div 5 + 1;
          m = (if mp < 10 then mp + 3 else mp - 9);
          y = yoe + era * 400
      in (if m \<le> 2 then y + 1 else y, m, d))"

definition days_of_civil :: "int \<Rightarrow> int \<Rightarrow> int \<Rightarrow> int" where
  "days_of_civil y m d =
     (let y = (if m \<le> 2 then y - 1 else y); mp = (if m > 2 then m - 3 else m + 9)
      in 365 * y + y div 4 - y div 100 + y div 400 + (153 * mp + 2) div 5 + d - 1)"

definition utc_date :: "time \<Rightarrow> int \<times> int \<times> int" where
  "utc_date t = civil_of_days (t div Day + 306)"

definition utc :: calendar where
  "utc =
     \<lparr>cal_Minute = (\<lambda>t. t mod Hour div Minute), cal_Hour = (\<lambda>t. t mod Day div Hour),
      cal_Day = (\<lambda>t. snd (snd (utc_date t))), cal_Month = (\<lambda>t. fst (snd (utc_date t))),
      cal_Weekday = (\<lambda>t. (t div Day + 1) mod 7),
      cal_DayAt = (\<lambda>t h m. t - t mod Day + h * Hour + m * Minute),
      cal_AddDays = (\<lambda>t n. t + n * Day),
      cal_AddYears = (\<lambda>t n. case utc_date t of
         (y, m, d) \<Rightarrow> t + (days_of_civil (y + n) m d - days_of_civil y m d) * Day)\<rparr>"

text \<open>What the scheduler relies on: adding ten years, or a day to a time of day of today, leads to a
  later instant.\<close>

locale forward_calendar =
  fixes cal :: calendar
  assumes years_forward: "t < cal_AddYears cal t 10"
    and day_forward: "0 \<le> h \<Longrightarrow> 0 \<le> m \<Longrightarrow> t < cal_AddDays cal (cal_DayAt cal t h m) 1"
begin

lemma cron_forward: "t < CronSchedule_Next cal s t"
proof (cases "search_minutes maxIterations (cron_matches cal s) (Truncate (t + Minute) Minute)")
  case None
  then show ?thesis by (simp add: CronSchedule_Next_def years_forward)
next
  case (Some u)
  with search_minutes_Some [OF Some] next_minute(1) [of t] show ?thesis by (auto simp: CronSchedule_Next_def)
qed

end

definition schedule_ok :: "Schedule \<Rightarrow> bool" where
  "schedule_ok s = (case s of IntervalSchedule d \<Rightarrow> 0 < d | DailySchedule h m \<Rightarrow> 0 \<le> h \<and> 0 \<le> m | CronSched c \<Rightarrow> True)"

context forward_calendar
begin

lemma Next_forward: "schedule_ok s \<Longrightarrow> t < Next cal s t"
  using cron_forward day_forward
  by (auto simp: Next_def schedule_ok_def IntervalSchedule_Next_def DailySchedule_Next_def Let_def split: Schedule.splits)

end

lemma years_step:
  fixes y :: int
  shows "a \<le> a' \<Longrightarrow> c \<le> c' \<Longrightarrow> b' \<le> b + 1 \<Longrightarrow> 365 * y + a - b + c < 365 * (y + 10) + a' - b' + c'"
  by simp

lemma years_later:
  fixes y :: int
  shows "365 * y + y div 4 - y div 100 + y div 400 < 365 * (y + 10) + (y + 10) div 4 - (y + 10) div 100 + (y + 10) div 400"
proof -
  have "y div 4 \<le> (y + 10) div 4" "y div 400 \<le> (y + 10) div 400" by (simp_all add: zdiv_mono1)
  moreover have "(y + 10) div 100 \<le> (y + 100) div 100" by (rule zdiv_mono1) simp_all
  moreover have "(y + 100) div 100 = y div 100 + 1" using div_add_self2 [of "100 :: int" y] by simp
  ultimately have "y div 4 \<le> (y + 10) div 4" "y div 400 \<le> (y + 10) div 400" "(y + 10) div 100 \<le> y div 100 + 1" by simp_all
  then show ?thesis by (rule years_step)
qed

interpretation utc_calendar: forward_calendar utc
proof unfold_locales
  fix t :: time
  obtain y m d where u: "utc_date t = (y, m, d)" by (cases "utc_date t")
  have "0 < days_of_civil (y + 10) m d - days_of_civil y m d"
    using years_later [of y] years_later [of "y - 1"] by (simp add: days_of_civil_def Let_def)
  with u show "t < cal_AddYears utc t 10" by (simp add: utc_def)
next
  fix h m t :: int
  assume "0 \<le> h" "0 \<le> m"
  moreover have "t mod Day < Day" by simp
  ultimately show "t < cal_AddDays utc (cal_DayAt utc t h m) 1" by (simp add: utc_def)
qed

lemma ParseSchedule_ok: "ParseSchedule parseDuration expr = Inr s \<Longrightarrow> schedule_ok s"
  by (cases "ParseCron (TrimSpace expr)")
    (auto simp: ParseSchedule_def schedule_ok_def Let_def split: if_splits option.splits Schedule.splits)

theorem CronSchedule_Next_earliest_witness:
  "cron_matches utc \<lparr>cron_Minute = [5], cron_Hour = [0], cron_Day = [1], cron_Month = [1], cron_Weekday = [1]\<rparr>
     (CronSchedule_Next utc \<lparr>cron_Minute = [5], cron_Hour = [0], cron_Day = [1], cron_Month = [1], cron_Weekday = [1]\<rparr> 7)"
proof -
  let ?c = "\<lparr>cron_Minute = [5], cron_Hour = [0], cron_Day = [1], cron_Month = [1], cron_Weekday = [1]\<rparr>"
  have m: "cron_matches utc ?c (5 * Minute)"
    by code_simp
  have u: "5 * Minute mod Minute = 0 \<and> 7 < 5 * Minute \<and> 5 * Minute < Truncate (7 + Minute) Minute + int maxIterations * Minute"
    by (simp add: Truncate_def)
  from CronSchedule_Next_earliest [of utc ?c 7] show ?thesis
  proof (elim disjE conjE)
    assume "\<forall>u. u mod Minute = 0 \<and> 7 < u \<and> u < Truncate (7 + Minute) Minute + int maxIterations * Minute \<longrightarrow> \<not> cron_matches utc ?c u"
    from this [rule_format, OF u] m show ?thesis by (rule notE)
  qed
qed

end
