(* ===== verification/Scheduler.thy ===== *)
theory Scheduler
  imports Cron
begin

text \<open>
  The job scheduler, \<open>internal/scheduler/scheduler.go\<close>. A job is what the interface \<open>Job\<close> offers: its
  name, whether it is enabled and what running it does, on an environment \<open>'e\<close> the scheduler does not
  know. \<open>ks\<close> is the order in which the map of jobs is visited, \<open>now\<close> the clock in the scheduler's location.
  The channel \<open>stopCh\<close> is its state, open or closed; closing it twice is a panic, \<open>None\<close>.
\<close>

record 'e Job =
  job_Name :: string
  job_Run :: "'e \<Rightarrow> string option \<times> 'e"
  job_Enabled :: "'e \<Rightarrow> bool"

record 'e jobEntry =
  je_job :: "'e Job"
  je_schedule :: Schedule
  je_lastRun :: time
  je_nextRun :: time

record 'e Scheduler =
  sch_jobs :: "string \<rightharpoonup> 'e jobEntry"
  sch_running :: bool
  sch_stopClosed :: bool
  sch_location :: calendar
  sch_env :: 'e

record JobStatus =
  js_Name :: string
  js_Enabled :: bool
  js_LastRun :: time
  js_NextRun :: time

definition NewScheduler :: "calendar \<Rightarrow> 'e \<Rightarrow> 'e Scheduler" where
  "NewScheduler local env =
     \<lparr>sch_jobs = Map.empty, sch_running = False, sch_stopClosed = False, sch_location = local, sch_env = env\<rparr>"

definition AddJob :: "'e Job \<Rightarrow> Schedule \<Rightarrow> time \<Rightarrow> 'e Scheduler \<Rightarrow> string option \<times> 'e Scheduler" where
  "AddJob job schedule now s =
     (case sch_jobs s (job_Name job) of
        Some _ \<Rightarrow> (Some (''job '' @ job_Name job @ '' already exists''), s)
      | None \<Rightarrow>
          (let entry = \<lparr>je_job = job, je_schedule = schedule, je_lastRun = 0, je_nextRun = Next (sch_location s) schedule now\<rparr>
           in (None, s\<lparr>sch_jobs := (sch_jobs s)(job_Name job \<mapsto> entry)\<rparr>)))"

definition RemoveJob :: "string \<Rightarrow> 'e Scheduler \<Rightarrow> 'e Scheduler" where
  "RemoveJob name s = s\<lparr>sch_jobs := (sch_jobs s)(name := None)\<rparr>"

definition Start :: "'e Scheduler \<Rightarrow> 'e Scheduler" where
  "Start s = (if sch_running s then s else s\<lparr>sch_running := True\<rparr>)"

definition Stop :: "'e Scheduler \<Rightarrow> 'e Scheduler option" where
  "Stop s =
     (if \<not> sch_running s then Some s
      else if sch_stopClosed s then None
      else Some (s\<lparr>sch_running := False, sch_stopClosed := True\<rparr>))"

text \<open>The loop of \<open>run\<close> goes on while \<open>stopCh\<close> is open.\<close>

definition executeJob :: "time \<Rightarrow> 'e jobEntry \<Rightarrow> 'e Scheduler \<Rightarrow> 'e Scheduler" where
  "executeJob now entry s =
     (let name = job_Name (je_job entry);
          (err, env) = job_Run (je_job entry) (sch_env s);
          upd = (\<lambda>e. e\<lparr>je_lastRun := now, je_nextRun := Next (sch_location s) (je_schedule e) now\<rparr>)
      in s\<lparr>sch_env := env, sch_jobs := (sch_jobs s)(name := map_option upd (sch_jobs s name))\<rparr>)"

definition is_due :: "time \<Rightarrow> 'e \<Rightarrow> 'e jobEntry \<Rightarrow> bool" where
  "is_due now env entry \<longleftrightarrow> job_Enabled (je_job entry) env \<and> (now > je_nextRun entry \<or> now = je_nextRun entry)"

definition runDueJobs :: "string list \<Rightarrow> time \<Rightarrow> 'e Scheduler \<Rightarrow> 'e Scheduler" where
  "runDueJobs ks now s =
     (let dueJobs = filter (is_due now (sch_env s)) (range_values ks (sch_jobs s))
      in fold (executeJob now) dueJobs s)"

definition RunJobNow :: "string \<Rightarrow> 'e Scheduler \<Rightarrow> string option \<times> 'e Scheduler" where
  "RunJobNow name s =
     (case sch_jobs s name of
        None \<Rightarrow> (Some (''job '' @ name @ '' not found''), s)
      | Some entry \<Rightarrow> (case job_Run (je_job entry) (sch_env s) of (err, env) \<Rightarrow> (err, s\<lparr>sch_env := env\<rparr>)))"

definition GetJobStatus :: "'e Scheduler \<Rightarrow> string \<rightharpoonup> JobStatus" where
  "GetJobStatus s =
     (\<lambda>name. map_option (\<lambda>entry.
        \<lparr>js_Name = name, js_Enabled = job_Enabled (je_job entry) (sch_env s),
         js_LastRun = je_lastRun entry, js_NextRun = je_nextRun entry\<rparr>) (sch_jobs s name))"

section \<open>Invariant\<close>

text \<open>Every entry is stored under the name of its job, with a schedule that moves forward.\<close>

definition sched_wf :: "'e Scheduler \<Rightarrow> bool" where
  "sched_wf s \<longleftrightarrow> (\<forall>name e. sch_jobs s name = Some e \<longrightarrow> job_Name (je_job e) = name \<and> schedule_ok (je_schedule e))"

lemma sched_wf_New: "sched_wf (NewScheduler loc env)"
  by (simp add: sched_wf_def NewScheduler_def)

lemma sched_wf_AddJob: "sched_wf s \<Longrightarrow> schedule_ok schedule \<Longrightarrow> sched_wf (snd (AddJob job schedule now s))"
  by (auto simp: sched_wf_def AddJob_def Let_def split: option.splits)

lemma sched_wf_RemoveJob: "sched_wf s \<Longrightarrow> sched_wf (RemoveJob name s)"
  by (auto simp: sched_wf_def RemoveJob_def)

lemma sched_wf_executeJob: "sched_wf s \<Longrightarrow> sched_wf (executeJob now entry s)"
  by (auto simp: sched_wf_def executeJob_def Let_def split: prod.splits if_splits)

lemma sched_wf_runDueJobs: "sched_wf s \<Longrightarrow> sched_wf (runDueJobs ks now s)"
proof -
  have "sched_wf s \<Longrightarrow> sched_wf (fold (executeJob now) es s)" for es
    by (induction es arbitrary: s) (simp_all add: sched_wf_executeJob)
  then show "sched_wf s \<Longrightarrow> sched_wf (runDueJobs ks now s)" by (simp add: runDueJobs_def Let_def)
qed

section \<open>Running the due jobs\<close>

definition after_run :: "calendar \<Rightarrow> time \<Rightarrow> 'e jobEntry \<Rightarrow> 'e jobEntry" where
  "after_run cal now e = e\<lparr>je_lastRun := now, je_nextRun := Next cal (je_schedule e) now\<rparr>"

lemma executeJob_jobs:
  "sch_jobs (executeJob now entry s) =
     (sch_jobs s)(job_Name (je_job entry) := map_option (after_run (sch_location s) now) (sch_jobs s (job_Name (je_job entry))))"
  "sch_location (executeJob now entry s) = sch_location s"
  "sch_env (executeJob now entry s) = snd (job_Run (je_job entry) (sch_env s))"
  by (simp_all add: executeJob_def after_run_def [abs_def] Let_def case_prod_beta)

lemma after_run_twice: "after_run cal now (after_run cal now e) = after_run cal now e"
  by (simp add: after_run_def)

lemma fold_executeJob:
  "sch_jobs (fold (executeJob now) es s) name =
     (if name \<in> (\<lambda>e. job_Name (je_job e)) ` set es then map_option (after_run (sch_location s) now) (sch_jobs s name) else sch_jobs s name)"
  "sch_location (fold (executeJob now) es s) = sch_location s"
  "sch_env (fold (executeJob now) es s) = fold (\<lambda>e env. snd (job_Run (je_job e) env)) es (sch_env s)"
proof (induction es arbitrary: s)
  case (Cons e es)
  {
    case 1
    show ?case by (simp add: Cons.IH executeJob_jobs option.map_comp comp_def after_run_twice cong: option.map_cong)
  next
    case 2
    show ?case by (simp add: Cons.IH executeJob_jobs)
  next
    case 3
    show ?case by (simp add: Cons.IH executeJob_jobs)
  }
qed simp_all

lemma due_names:
  assumes "sched_wf s" and "enumerates ks (sch_jobs s)"
  shows "name \<in> (\<lambda>e. job_Name (je_job e)) ` set (filter (is_due now (sch_env s)) (range_values ks (sch_jobs s)))
    \<longleftrightarrow> (\<exists>e. sch_jobs s name = Some e \<and> is_due now (sch_env s) e)"
proof -
  have "set (range_values ks (sch_jobs s)) = Map.ran (sch_jobs s)" by (rule set_range_values [OF assms(2)])
  then show ?thesis using assms(1) by (auto simp: sched_wf_def Map.ran_def image_iff)
qed

lemma count_list_distinct: "distinct xs \<Longrightarrow> count_list xs x = (if x \<in> set xs then 1 else 0)"
  by (induction xs) auto


text \<open>A job that counts its runs, added at time 0 to run every minute.\<close>

definition counting_job :: "nat Job" where
  "counting_job = \<lparr>job_Name = ''gc'', job_Run = (\<lambda>n. (None, Suc n)), job_Enabled = (\<lambda>_. True)\<rparr>"

definition one_job :: "nat Scheduler" where
  "one_job = snd (AddJob counting_job (IntervalSchedule Minute) 0 (NewScheduler utc 0))"


section \<open>Starting and stopping\<close>

text \<open>A scheduler that was stopped cannot be used again: a second \<open>Start\<close> begins a loop that ends at once,
  because \<open>stopCh\<close> is still closed, and the next \<open>Stop\<close> panics.\<close>

lemma restart_panics:
  assumes "Stop (Start s) = Some s'"
  shows "sch_stopClosed s' \<and> Stop (Start s') = None"
  using assms by (auto simp: Stop_def Start_def split: if_splits)

lemma Stop_idempotent: "Stop s = Some s' \<Longrightarrow> Stop s' = Some s'"
  by (auto simp: Stop_def split: if_splits)

end
