(* ===== verification/Go_Json_Parse.thy ===== *)
theory Go_Json_Parse
  imports Go_Json
begin

text \<open>
  \<open>json.Unmarshal\<close> into a \<open>[]string\<close>, which the scopes of API keys are read with: \<open>null\<close> or an array of strings
  and nulls, with white space; every other text is an error. And the proof that it reads back what
  \<open>json.Marshal\<close> writes.
\<close>

section \<open>Runes\<close>

text \<open>The UTF-8 encoding of a rune.\<close>

definition encode_rune :: "nat \<Rightarrow> string" where
  "encode_rune r =
     map char_of
       (if r < 0x80 then [r]
        else if r < 0x800 then [192 + r div 64, 128 + r mod 64]
        else if r < 0x10000 then [224 + r div 4096, 128 + r div 64 mod 64, 128 + r mod 64]
        else [240 + r div 262144, 128 + r div 4096 mod 64, 128 + r div 64 mod 64, 128 + r mod 64])"

definition RuneError :: nat where
  "RuneError = 0xFFFD"

definition hex_value :: "char \<Rightarrow> nat option" where
  "hex_value c =
     (let b = of_char c
      in if 48 \<le> b \<and> b \<le> 57 then Some (b - 48)
         else if 97 \<le> b \<and> b \<le> 102 then Some (b - 87)
         else if 65 \<le> b \<and> b \<le> 70 then Some (b - 55)
         else None)"

fun hex4 :: "string \<Rightarrow> (nat \<times> string) option" where
  "hex4 (a # b # c # d # rest) =
     (case (hex_value a, hex_value b, hex_value c, hex_value d) of
        (Some p, Some q, Some r, Some t) \<Rightarrow> Some (((p * 16 + q) * 16 + r) * 16 + t, rest)
      | _ \<Rightarrow> None)"
| "hex4 _ = None"

lemma hex4_shorter: "hex4 s = Some (r, rest) \<Longrightarrow> length rest < length s"
  by (cases s rule: hex4.cases) (auto split: option.splits)

text \<open>The second half of a surrogate pair, as another escape.\<close>

definition low_surrogate :: "nat \<Rightarrow> string \<Rightarrow> (nat \<times> string) option" where
  "low_surrogate r s =
     (case s of
        x # y # rest \<Rightarrow>
          if x = backslash \<and> y = CHR ''u'' \<and> r < 0xDC00
          then (case hex4 rest of
                  Some (r', rest') \<Rightarrow>
                    if 0xDC00 \<le> r' \<and> r' < 0xE000 then Some ((r - 0xD800) * 0x400 + (r' - 0xDC00) + 0x10000, rest') else None
                | None \<Rightarrow> None)
          else None
      | _ \<Rightarrow> None)"

lemma low_surrogate_shorter: "low_surrogate r s = Some (r', rest) \<Longrightarrow> length rest < length s"
  by (auto simp: low_surrogate_def split: list.splits if_splits option.splits dest!: hex4_shorter)

definition json_escape :: "char \<Rightarrow> char option" where
  "json_escape e =
     (if e \<in> {dquote, backslash, CHR ''/''} then Some e
      else if e = CHR ''b'' then Some (CHR 0x08) else if e = CHR ''f'' then Some (CHR 0x0C)
      else if e = CHR ''n'' then Some (CHR 0x0A) else if e = CHR ''r'' then Some (CHR 0x0D)
      else if e = CHR ''t'' then Some (CHR 0x09) else None)"

section \<open>Strings\<close>

text \<open>The contents of a string literal after its opening quote, and what follows the closing quote.\<close>

function json_string :: "string \<Rightarrow> (string \<times> string) option" where
  "json_string s =
     (case s of
        [] \<Rightarrow> None
      | c # t \<Rightarrow>
          if c = dquote then Some ([], t)
          else if (of_char c :: nat) < 32 then None
          else if c = backslash then
            (case t of
               [] \<Rightarrow> None
             | e # u \<Rightarrow>
                 if e = CHR ''u'' then
                   (case hex4 u of
                      None \<Rightarrow> None
                    | Some (r, v) \<Rightarrow>
                        if 0xD800 \<le> r \<and> r < 0xE000 then
                          (case low_surrogate r v of
                             Some (r', v') \<Rightarrow> map_option (apfst (append (encode_rune r'))) (json_string v')
                           | None \<Rightarrow> map_option (apfst (append (encode_rune RuneError))) (json_string v))
                        else map_option (apfst (append (encode_rune r))) (json_string v))
                 else (case json_escape e of None \<Rightarrow> None | Some x \<Rightarrow> map_option (apfst (Cons x)) (json_string u)))
          else if (of_char c :: nat) < 128 then map_option (apfst (Cons c)) (json_string t)
          else if rune_at s = 0 then map_option (apfst (append (encode_rune RuneError))) (json_string t)
          else map_option (apfst (append (take (rune_at s) s))) (json_string (drop (rune_at s) s)))"
  by pat_completeness auto
termination
  by (relation "measure length") (auto dest!: hex4_shorter low_surrogate_shorter)

declare json_string.simps [simp del]

section \<open>Arrays of strings\<close>

definition skip_ws :: "string \<Rightarrow> string" where
  "skip_ws s = dropWhile (\<lambda>c. c \<in> {CHR 0x20, CHR 0x09, CHR 0x0A, CHR 0x0D}) s"

lemma length_skip_ws: "length (skip_ws s) \<le> length s"
  by (simp add: skip_ws_def length_dropWhile_le)

lemma json_string_rest:
  assumes "json_string (c # t) = Some (x, rest)"
  shows "rest = t \<or> (\<exists>y x'. json_string y = Some (x', rest) \<and> length y \<le> length t)"
proof -
  have "length (drop (rune_at (c # t)) (c # t)) \<le> length t" if "rune_at (c # t) \<noteq> 0" using that by simp
  then show ?thesis using assms
    by (subst (asm) json_string.simps)
      (fastforce simp del: length_drop drop_Cons' split: list.splits if_splits option.splits
        dest!: hex4_shorter low_surrogate_shorter)
qed

lemma json_string_shorter: "json_string s = Some (x, rest) \<Longrightarrow> length rest < length s"
proof (induction s arbitrary: x rest rule: length_induct)
  case (1 s)
  show ?case
  proof (cases s)
    case Nil
    then show ?thesis using "1.prems" by (simp add: json_string.simps [of "[]"])
  next
    case (Cons c t)
    from json_string_rest [OF "1.prems" [unfolded Cons]] show ?thesis
    proof
      assume "\<exists>y x'. json_string y = Some (x', rest) \<and> length y \<le> length t"
      then obtain y x' where y: "json_string y = Some (x', rest)" "length y \<le> length t" by blast
      with "1.IH" Cons have "length rest < length y" by auto
      with y Cons show ?thesis by simp
    qed (simp add: Cons)
  qed
qed

text \<open>One element: a string, or null, which leaves the empty string.\<close>

definition json_elem :: "string \<Rightarrow> (string \<times> string) option" where
  "json_elem s =
     (case s of [] \<Rightarrow> None
      | c # t \<Rightarrow> if c = dquote then json_string t
                 else if take 4 s = ''null'' then Some ('''', drop 4 s) else None)"

lemma json_elem_shorter: "json_elem s = Some (x, rest) \<Longrightarrow> length rest < length s"
  by (auto simp: json_elem_def split: list.splits if_splits dest!: json_string_shorter)

text \<open>The elements from the first one to the closing bracket, and what follows it.\<close>

function json_elems :: "string \<Rightarrow> (string list \<times> string) option" where
  "json_elems s =
     (case json_elem s of
        None \<Rightarrow> None
      | Some (x, r) \<Rightarrow>
          (case skip_ws r of
             [] \<Rightarrow> None
           | c # t \<Rightarrow>
               if c = CHR '']'' then Some ([x], t)
               else if c = CHR '','' then map_option (apfst (Cons x)) (json_elems (skip_ws t))
               else None))"
  by pat_completeness auto
termination
proof (relation "measure length", simp)
  fix s p x r c t
  assume a: "json_elem s = Some p" "(x, r) = p" "skip_ws r = c # t"
  have "length (skip_ws t) \<le> length t" by (rule length_skip_ws)
  also have "length t < length (skip_ws r)" by (simp add: a(3))
  also have "length (skip_ws r) \<le> length r" by (rule length_skip_ws)
  also have "length r < length s" using a(1,2) json_elem_shorter by blast
  finally show "(skip_ws t, s) \<in> measure length" by simp
qed

declare json_elems.simps [simp del]

text \<open>The whole text; \<open>null\<close> gives the nil slice, which has no elements either.\<close>

definition unmarshal_strings :: "string \<Rightarrow> string list option" where
  "unmarshal_strings data =
     (let s = skip_ws data
      in if take 4 s = ''null'' \<and> skip_ws (drop 4 s) = [] then Some []
         else
           (case s of
              [] \<Rightarrow> None
            | c # t \<Rightarrow>
                if c \<noteq> CHR ''['' then None
                else
                  (case skip_ws t of
                     [] \<Rightarrow> None
                   | d # u \<Rightarrow>
                       if d = CHR '']'' then (if skip_ws u = [] then Some [] else None)
                       else
                         (case json_elems (d # u) of
                            Some (xs, rest) \<Rightarrow> if skip_ws rest = [] then Some xs else None
                          | None \<Rightarrow> None))))"

section \<open>Reading back what was written\<close>

definition ascii :: "string \<Rightarrow> bool" where
  "ascii s \<longleftrightarrow> list_all (\<lambda>c. (of_char c :: nat) < 128) s"

lemma hex_digit_value: "n < 16 \<Longrightarrow> hex_value (hex_digit n) = Some n"
  by (auto simp: hex_value_def hex_digit_def Let_def)

lemma encode_rune_ascii: "(of_char c :: nat) < 128 \<Longrightarrow> encode_rune (of_char c) = [c]"
  by (simp add: encode_rune_def)

lemma json_string_ascii:
  assumes "(of_char c :: nat) < 128"
  shows "json_string (json_ascii c @ s) = map_option (apfst (Cons c)) (json_string s)"
proof -
  let ?b = "of_char c :: nat"
  have bs: "json_string (backslash # e # s) = map_option (apfst (Cons x)) (json_string s)"
    if "json_escape e = Some x" "e \<noteq> CHR ''u''" for e x
    by (subst json_string.simps) (simp add: that)
  have of: "?b = n \<Longrightarrow> c = char_of n" for n by (metis char_of_char)
  consider "c = dquote \<or> c = backslash" | "?b \<in> {8, 9, 10, 12, 13}"
    | "c \<noteq> dquote" "c \<noteq> backslash" "?b \<notin> {8, 9, 10, 12, 13}" "?b < 32 \<or> c = CHR ''<'' \<or> c = CHR ''>'' \<or> c = CHR ''&''"
    | "c \<noteq> dquote" "c \<noteq> backslash" "?b \<notin> {8, 9, 10, 12, 13}" "\<not> (?b < 32 \<or> c = CHR ''<'' \<or> c = CHR ''>'' \<or> c = CHR ''&'')"
    by blast
  then show ?thesis
  proof cases
    case 1
    then show ?thesis using bs [of c c] by (auto simp: json_ascii_def Let_def json_escape_def)
  next
    case 2
    then have "c = char_of (8 :: nat) \<or> c = char_of (9 :: nat) \<or> c = char_of (10 :: nat) \<or> c = char_of (12 :: nat) \<or> c = char_of (13 :: nat)"
      using of by fast
    moreover have "char_of (8 :: nat) = CHR 0x08" "char_of (9 :: nat) = CHR 0x09" "char_of (10 :: nat) = CHR 0x0A"
      "char_of (12 :: nat) = CHR 0x0C" "char_of (13 :: nat) = CHR 0x0D"
      by (simp_all add: char_of_def bit_0)
    ultimately consider "c = CHR 0x08" | "c = CHR 0x09" | "c = CHR 0x0A" | "c = CHR 0x0C" | "c = CHR 0x0D"
      by (simp only:) blast
    moreover have "json_escape (CHR ''b'') = Some (CHR 0x08)" "json_escape (CHR ''t'') = Some (CHR 0x09)"
      "json_escape (CHR ''n'') = Some (CHR 0x0A)" "json_escape (CHR ''f'') = Some (CHR 0x0C)" "json_escape (CHR ''r'') = Some (CHR 0x0D)"
      by (simp_all add: json_escape_def)
    note esc = this [THEN bs, simplified]
    ultimately show ?thesis by cases (simp_all add: json_ascii_def Let_def esc)
  next
    case 3
    have z: "hex_value (CHR ''0'') = Some 0" by (simp add: hex_value_def Let_def)
    have "?b div 16 < 16" "?b mod 16 < 16" using assms by simp_all
    then have "hex4 (''00'' @ hex_digit (?b div 16) # hex_digit (?b mod 16) # s) = Some (?b, s)"
      using hex_digit_value [of "?b div 16"] hex_digit_value [of "?b mod 16"] z by simp
    moreover have "json_ascii c = [backslash, CHR ''u'', CHR ''0'', CHR ''0'', hex_digit (?b div 16), hex_digit (?b mod 16)]"
      using 3 by (auto simp: json_ascii_def Let_def)
    moreover have "append [c] = Cons c" by (simp add: fun_eq_iff)
    ultimately show ?thesis using assms
      by (subst json_string.simps) (simp add: encode_rune_ascii del: hex4.simps)
  next
    case 4
    then show ?thesis using assms by (subst json_string.simps) (auto simp: json_ascii_def Let_def)
  qed
qed

lemma json_string_chars: "ascii s \<Longrightarrow> json_string (json_chars s @ dquote # rest) = Some (s, rest)"
proof (induction s)
  case Nil
  show ?case by (simp add: json_chars.simps [of "[]"] json_string.simps [of "dquote # rest"])
next
  case (Cons c s)
  then have "(of_char c :: nat) < 128" "ascii s" by (simp_all add: ascii_def)
  then show ?case
    using Cons.IH json_string_ascii [of c "json_chars s @ dquote # rest"] by (simp add: json_chars.simps [of "c # s"])
qed

lemma json_elem_quote: "ascii s \<Longrightarrow> json_elem (json_quote s @ rest) = Some (s, rest)"
  by (simp add: json_elem_def json_quote_def json_string_chars)

lemma json_elems_Join:
  "list_all ascii (x # xs) \<Longrightarrow> json_elems (Join (map json_quote (x # xs)) '','' @ CHR '']'' # rest) = Some (x # xs, rest)"
proof (induction xs arbitrary: x)
  case Nil
  then show ?case by (subst json_elems.simps) (simp add: json_elem_quote skip_ws_def)
next
  case (Cons y ys)
  have ws: "skip_ws (CHR '','' # s) = CHR '','' # s" for s by (simp add: skip_ws_def)
  have start: "skip_ws (Join (map json_quote (y # ys)) '','' @ s) = Join (map json_quote (y # ys)) '','' @ s" for s
    by (cases ys) (simp_all add: json_quote_def skip_ws_def)
  have "json_elems (Join (map json_quote (x # y # ys)) '','' @ CHR '']'' # rest) =
      map_option (apfst (Cons x)) (json_elems (Join (map json_quote (y # ys)) '','' @ CHR '']'' # rest))"
    using Cons.prems start [of "CHR '']'' # rest"] by (subst json_elems.simps) (simp add: json_elem_quote ws)
  with Cons show ?case by simp
qed

text \<open>Texts of ASCII characters are read back.\<close>

lemma unmarshal_Marshal:
  assumes "list_all ascii (elems xs)"
  shows "unmarshal_strings (Marshal (json_strings xs)) = Some (elems xs)"
proof (cases "elems xs")
  case Nil
  then have "xs = None \<or> xs = Some []" by (cases xs) auto
  then show ?thesis by (auto simp: json_strings_def unmarshal_strings_def skip_ws_def)
next
  case (Cons y ys)
  then have xs: "xs = Some (y # ys)" by (cases xs) auto
  have m: "map (Marshal \<circ> JString) zs = map json_quote zs" for zs by simp
  have "\<exists>t. Join (map json_quote (y # ys)) '','' = dquote # t" by (cases ys) (simp_all add: json_quote_def)
  then obtain t where t: "Join (map json_quote (y # ys)) '','' = dquote # t" by blast
  have "json_elems (dquote # t @ '']'') = Some (y # ys, [])"
    using json_elems_Join [of y ys "[]"] assms Cons t by simp
  then show ?thesis using t unfolding xs
    by (simp add: json_strings_def unmarshal_strings_def skip_ws_def m del: list.map)
qed

end
