(* ===== verification/Auth_Rules.thy ===== *)
theory Auth_Rules
  imports Go_Json
begin

text \<open>
  The pure rules of \<open>internal/security\<close> for passwords (\<open>password.go\<close>), recovery codes (\<open>recovery.go\<close>), one-time
  passwords (\<open>totp.go\<close>) and names of agents, hosts and labels (\<open>validation.go\<close>). The tables of package
  \<open>unicode\<close> beyond ASCII, HMAC-SHA1, bcrypt and random bytes are arguments.
\<close>

section \<open>Characters\<close>

definition in_range :: "nat \<Rightarrow> nat \<Rightarrow> char \<Rightarrow> bool" where
  "in_range a b ch \<longleftrightarrow> a \<le> of_char ch \<and> (of_char ch :: nat) \<le> b"

abbreviation is_upper :: "char \<Rightarrow> bool" where "is_upper \<equiv> in_range 65 90"
abbreviation is_lower :: "char \<Rightarrow> bool" where "is_lower \<equiv> in_range 97 122"
abbreviation is_digit :: "char \<Rightarrow> bool" where "is_digit \<equiv> in_range 48 57"
abbreviation is_ascii :: "char \<Rightarrow> bool" where "is_ascii \<equiv> in_range 0 127"
abbreviation alnum :: "char \<Rightarrow> bool" where "alnum ch \<equiv> is_upper ch \<or> is_lower ch \<or> is_digit ch"

text \<open>\<open>strings.ToUpper\<close> and \<open>strings.ToLower\<close>: the mapping of texts with other characters is an argument.\<close>

definition ToUpper :: "(string \<Rightarrow> string) \<Rightarrow> string \<Rightarrow> string" where
  "ToUpper other s =
     (if list_all is_ascii s then map (\<lambda>ch. if is_lower ch then char_of (of_char ch - 32 :: nat) else ch) s else other s)"

definition ToLower :: "(string \<Rightarrow> string) \<Rightarrow> string \<Rightarrow> string" where
  "ToLower other s =
     (if list_all is_ascii s then map (\<lambda>ch. if is_upper ch then char_of (of_char ch + 32 :: nat) else ch) s else other s)"

text \<open>The runes a \<open>range\<close> loop sees; a byte that starts no rune is the replacement character.\<close>

fun rune_value :: "nat list \<Rightarrow> nat" where
  "rune_value [a] = a"
| "rune_value [a, b] = (a mod 32) * 64 + b mod 64"
| "rune_value [a, b, c] = (a mod 16) * 4096 + (b mod 64) * 64 + c mod 64"
| "rune_value [a, b, c, d] = (a mod 8) * 262144 + (b mod 64) * 4096 + (c mod 64) * 64 + d mod 64"
| "rune_value _ = 0xFFFD"

function runes :: "string \<Rightarrow> nat list" where
  "runes s =
     (case s of
        [] \<Rightarrow> []
      | c # t \<Rightarrow>
          if rune_at s = 0 then 0xFFFD # runes t
          else rune_value (map of_char (take (rune_at s) s)) # runes (drop (rune_at s) s))"
  by pat_completeness auto
termination by (relation "measure length") auto

declare runes.simps [simp del]

section \<open>Passwords\<close>

datatype password_error = ErrPasswordTooShort | ErrPasswordNoUppercase | ErrPasswordNoLowercase
  | ErrPasswordNoDigit | ErrPasswordNoSpecialChar

record unicode =
  IsUpper :: "nat \<Rightarrow> bool"
  IsLower :: "nat \<Rightarrow> bool"
  IsDigit :: "nat \<Rightarrow> bool"

definition MinPasswordLength :: nat where
  "MinPasswordLength = 12"

definition isSpecialChar :: "nat \<Rightarrow> bool" where
  "isSpecialChar r \<longleftrightarrow>
     r \<in> set (map of_char (''!@#$%^&*()_+-=[]{}|;'' @ [CHR 0x27] @ '':'' @ [CHR 0x22] @ '',./<>?'' @ [CHR 0x60] @ ''~'' @ [CHR 0x5C]))"

text \<open>The flags of the loop: uppercase, lowercase, digit, special.\<close>

definition note_char :: "unicode \<Rightarrow> nat \<Rightarrow> bool \<times> bool \<times> bool \<times> bool \<Rightarrow> bool \<times> bool \<times> bool \<times> bool" where
  "note_char u r = (\<lambda>(up, lo, dg, sp).
     if IsUpper u r then (True, lo, dg, sp) else if IsLower u r then (up, True, dg, sp)
     else if IsDigit u r then (up, lo, True, sp) else if isSpecialChar r then (up, lo, dg, True) else (up, lo, dg, sp))"

definition ValidatePassword :: "unicode \<Rightarrow> string \<Rightarrow> password_error option" where
  "ValidatePassword u password =
     (if length password < MinPasswordLength then Some ErrPasswordTooShort
      else
        (case fold (note_char u) (runes password) (False, False, False, False) of
           (hasUppercase, hasLowercase, hasDigit, hasSpecial) \<Rightarrow>
             if \<not> hasUppercase then Some ErrPasswordNoUppercase
             else if \<not> hasLowercase then Some ErrPasswordNoLowercase
             else if \<not> hasDigit then Some ErrPasswordNoDigit
             else if \<not> hasSpecial then Some ErrPasswordNoSpecialChar
             else None))"

definition ValidatePasswordWithErrors :: "unicode \<Rightarrow> string \<Rightarrow> password_error list" where
  "ValidatePasswordWithErrors u password =
     (let errs = (if length password < MinPasswordLength then [ErrPasswordTooShort] else [])
      in case fold (note_char u) (runes password) (False, False, False, False) of
           (hasUppercase, hasLowercase, hasDigit, hasSpecial) \<Rightarrow>
             let errs = (if \<not> hasUppercase then errs @ [ErrPasswordNoUppercase] else errs);
                 errs = (if \<not> hasLowercase then errs @ [ErrPasswordNoLowercase] else errs);
                 errs = (if \<not> hasDigit then errs @ [ErrPasswordNoDigit] else errs)
             in if \<not> hasSpecial then errs @ [ErrPasswordNoSpecialChar] else errs)"

section \<open>Recovery codes\<close>

definition RecoveryCodeCount :: nat where "RecoveryCodeCount = 8"
definition RecoveryCodeLength :: nat where "RecoveryCodeLength = 8"

definition recoveryCodeChars :: string where
  "recoveryCodeChars = ''23456789ABCDEFGHJKMNPQRSTUVWXYZ''"

type_synonym random_bytes = "string + string"

text \<open>\<open>rand.Read\<close> fills a buffer of the length asked for, or fails.\<close>

definition generateCode :: "random_bytes \<Rightarrow> string + string" where
  "generateCode rnd =
     (case rnd of Inl e \<Rightarrow> Inl e
      | Inr b \<Rightarrow> Inr (map (\<lambda>v. recoveryCodeChars ! (of_char v mod length recoveryCodeChars)) b))"

fun generate_codes ::
  "(string \<Rightarrow> string + string) \<Rightarrow> random_bytes list \<Rightarrow> string + (string list \<times> string list)" where
  "generate_codes bcrypt [] = Inr ([], [])"
| "generate_codes bcrypt (rnd # rnds) =
     (case generateCode rnd of
        Inl e \<Rightarrow> Inl e
      | Inr code \<Rightarrow>
          (case bcrypt code of
             Inl e \<Rightarrow> Inl e
           | Inr hash \<Rightarrow>
               (case generate_codes bcrypt rnds of
                  Inl e \<Rightarrow> Inl e | Inr (plaintext, hashes) \<Rightarrow> Inr (code # plaintext, hash # hashes))))"

text \<open>The \<open>i\<close>-th reading of the random source is \<open>rnd i\<close>, the salted hash of the \<open>i\<close>-th code \<open>bcrypt\<close> of it.\<close>

definition GenerateRecoveryCodes ::
  "(string \<Rightarrow> string + string) \<Rightarrow> (nat \<Rightarrow> random_bytes) \<Rightarrow> string + (string list \<times> string list)" where
  "GenerateRecoveryCodes bcrypt rnd = generate_codes bcrypt (map rnd [0..<RecoveryCodeCount])"

text \<open>\<open>matches hash code\<close> is \<open>bcrypt.CompareHashAndPassword(hash, code) == nil\<close>; the result \<open>-1\<close> is \<open>None\<close>.\<close>

definition VerifyRecoveryCode :: "(string \<Rightarrow> string) \<Rightarrow> (string \<Rightarrow> string \<Rightarrow> bool) \<Rightarrow> string \<Rightarrow> string list \<Rightarrow> nat option" where
  "VerifyRecoveryCode upper_other matches code hashes =
     (let code = ToUpper upper_other (TrimSpace code)
      in find (\<lambda>i. matches (hashes ! i) code) [0..<length hashes])"

definition format_code :: "string \<Rightarrow> string" where
  "format_code code = (if length code = RecoveryCodeLength then take 4 code @ ''-'' @ drop 4 code else code)"

definition FormatRecoveryCodes :: "string list \<Rightarrow> string list" where
  "FormatRecoveryCodes codes = map format_code codes"

definition NormalizeRecoveryCode :: "(string \<Rightarrow> string) \<Rightarrow> string \<Rightarrow> string" where
  "NormalizeRecoveryCode upper_other code =
     ReplaceAll (ReplaceAll (ToUpper upper_other (TrimSpace code)) ''-'' '''') '' '' ''''"

section \<open>One-time passwords\<close>

record TOTPConfig =
  totp_Issuer :: string
  totp_Digits :: int
  totp_Period :: int

definition DefaultTOTPConfig :: TOTPConfig where
  "DefaultTOTPConfig = \<lparr>totp_Issuer = ''vcdeploy'', totp_Digits = 6, totp_Period = 30\<rparr>"

text \<open>Base 32 without padding, as \<open>encoding/base32\<close> decodes it: line breaks are skipped, every other
  character must be of the alphabet, eight characters give five bytes and a last group of 2, 4, 5 or 7
  gives 1, 2, 3 or 4 (a last group of another length gives none).\<close>

definition b32_value :: "char \<Rightarrow> nat option" where
  "b32_value ch = (if is_upper ch then Some (of_char ch - 65) else if in_range 50 55 ch then Some (of_char ch - 24) else None)"

fun all_some :: "'a option list \<Rightarrow> 'a list option" where
  "all_some [] = Some []"
| "all_some (None # xs) = None"
| "all_some (Some x # xs) = map_option (Cons x) (all_some xs)"

definition b32_bits :: "nat list \<Rightarrow> nat" where
  "b32_bits vs = fold (\<lambda>v n. n * 32 + v) vs 0"

text \<open>The first \<open>n\<close> bytes of a group, filled up with zero bits to eight characters.\<close>

definition b32_group :: "nat \<Rightarrow> nat list \<Rightarrow> string" where
  "b32_group n vs =
     (let bits = b32_bits vs * 32 ^ (8 - length vs)
      in map (\<lambda>i. char_of (bits div 256 ^ (4 - i) mod 256)) [0..<n])"

function b32_decode :: "nat list \<Rightarrow> string" where
  "b32_decode vs =
     (if length vs \<ge> 8 then b32_group 5 (take 8 vs) @ b32_decode (drop 8 vs)
      else if length vs = 7 then b32_group 4 vs else if length vs = 5 then b32_group 3 vs
      else if length vs = 4 then b32_group 2 vs else if length vs = 2 then b32_group 1 vs else [])"
  by pat_completeness auto
termination by (relation "measure length") auto

declare b32_decode.simps [simp del]

definition base32_DecodeString :: "string \<Rightarrow> string option" where
  "base32_DecodeString s =
     map_option b32_decode (all_some (map b32_value (filter (\<lambda>ch. ch \<noteq> CHR 0x0A \<and> ch \<noteq> CHR 0x0D) s)))"

definition big_endian64 :: "nat \<Rightarrow> string" where
  "big_endian64 n = map (\<lambda>i. char_of (n div 256 ^ (7 - i) mod 256)) [0..<8]"

definition uint32_at :: "nat \<Rightarrow> string \<Rightarrow> nat" where
  "uint32_at i s = fold (\<lambda>ch n. n * 256 + of_char ch) (take 4 (drop i s)) 0"

text \<open>Zero padding of \<open>fmt.Sprintf("%0*d", width, n)\<close>.\<close>

definition pad_zeros :: "nat \<Rightarrow> nat \<Rightarrow> string" where
  "pad_zeros width n = (let d = nat_digits n in replicate (width - length d) CHR ''0'' @ d)"

text \<open>The loop \<open>mod *= 10\<close> on a \<open>uint32\<close>.\<close>

definition totp_mod :: "int \<Rightarrow> nat" where
  "totp_mod digits = ((\<lambda>m. m * 10 mod 2 ^ 32) ^^ nat digits) 1"

text \<open>\<open>hmac key message\<close> is HMAC-SHA1, twenty bytes. \<open>None\<close> is a panic: a division by a zero period or
  modulus.\<close>

definition generateTOTP :: "(string \<Rightarrow> string \<Rightarrow> string) \<Rightarrow> string \<Rightarrow> int \<Rightarrow> TOTPConfig \<Rightarrow> string option" where
  "generateTOTP hmac secret timestamp config =
     (case base32_DecodeString secret of
        None \<Rightarrow> Some ''''
      | Some key \<Rightarrow>
          if totp_Period config = 0 then None
          else
            (let counter = nat (go_div timestamp (totp_Period config) mod 2 ^ 64);
                 hash = hmac key (big_endian64 counter);
                 offset = of_char (last hash) mod 16;
                 code = uint32_at offset hash mod 2 ^ 31;
                 m = totp_mod (totp_Digits config)
             in if m = 0 then None else Some (pad_zeros (nat (totp_Digits config)) (code mod m))))"

definition ValidateTOTP :: "(string \<Rightarrow> string \<Rightarrow> string) \<Rightarrow> string \<Rightarrow> string \<Rightarrow> TOTPConfig \<Rightarrow> int \<Rightarrow> bool option" where
  "ValidateTOTP hmac secret code config now =
     (let expected = map (\<lambda>offset. generateTOTP hmac secret (now + offset) config)
            [- totp_Period config, 0, totp_Period config]
      in if list_all (\<lambda>e. e \<noteq> None) expected then Some (Some code \<in> set expected)
         else if hd expected = Some code then Some True else None)"

definition GenerateTOTPURI :: "string \<Rightarrow> string \<Rightarrow> TOTPConfig \<Rightarrow> string" where
  "GenerateTOTPURI secret username config =
     ''otpauth://totp/'' @ totp_Issuer config @ '':'' @ username @ ''?secret='' @ secret @ ''&issuer='' @ totp_Issuer config
     @ ''&digits='' @ Itoa (totp_Digits config) @ ''&period='' @ Itoa (totp_Period config)"

section \<open>Names\<close>

datatype name_error = ErrEmptyValue | ErrInvalidAgentID | ErrReservedAgentID string | ErrInvalidHostname | ErrValueTooLong
  | ErrName string

definition agentIDRegex :: "string \<Rightarrow> bool" where
  "agentIDRegex s = (case s of [] \<Rightarrow> False
     | ch # rest \<Rightarrow> alnum ch \<and> 2 \<le> length rest \<and> length rest \<le> 63 \<and>
         list_all (\<lambda>x. alnum x \<or> x = CHR ''_'' \<or> x = CHR ''-'') rest)"

definition host_label :: "string \<Rightarrow> bool" where
  "host_label s \<longleftrightarrow> s \<noteq> [] \<and> length s \<le> 63 \<and> alnum (hd s) \<and> alnum (last s) \<and> list_all (\<lambda>x. alnum x \<or> x = CHR ''-'') s"

definition hostnameRegex :: "string \<Rightarrow> bool" where
  "hostnameRegex s = list_all host_label (Split s (CHR ''.''))"

definition reservedAgentIDs :: "string list" where
  "reservedAgentIDs = [''master'', ''server'', ''admin'', ''root'', ''system'', ''localhost'', ''all'', ''any'', ''none'',
     ''default'', ''internal'', ''external'', ''public'', ''private'']"

definition IsReservedAgentID :: "(string \<Rightarrow> string) \<Rightarrow> string \<Rightarrow> bool" where
  "IsReservedAgentID lower_other i \<longleftrightarrow> ToLower lower_other i \<in> set reservedAgentIDs"

definition ValidateAgentID :: "(string \<Rightarrow> string) \<Rightarrow> string \<Rightarrow> name_error option" where
  "ValidateAgentID lower_other i =
     (if i = '''' then Some ErrEmptyValue
      else if \<not> agentIDRegex i then Some ErrInvalidAgentID
      else if ToLower lower_other i \<in> set reservedAgentIDs then Some (ErrReservedAgentID i)
      else None)"

definition ValidateHostname :: "string \<Rightarrow> name_error option" where
  "ValidateHostname hostname =
     (if hostname = '''' then Some ErrEmptyValue
      else if length hostname > 253 then Some ErrValueTooLong
      else if \<not> hostnameRegex hostname then Some ErrInvalidHostname
      else None)"

definition ValidateRegistrationToken :: "string \<Rightarrow> name_error option" where
  "ValidateRegistrationToken token =
     (if token = '''' then Some ErrEmptyValue
      else if length token < 32 then Some (ErrName ''token too short: must be at least 32 characters'')
      else if length token > 256 then Some ErrValueTooLong
      else None)"

definition label_key :: "string \<Rightarrow> bool" where
  "label_key s = (case s of [] \<Rightarrow> False
     | ch # rest \<Rightarrow> alnum ch \<and> list_all (\<lambda>x. alnum x \<or> x = CHR ''_'' \<or> x = CHR ''.'' \<or> x = CHR ''-'') rest)"

definition ValidateLabel :: "string \<Rightarrow> string \<Rightarrow> (string \<times> name_error) option" where
  "ValidateLabel key val =
     (if key = '''' then Some (''label key: '', ErrEmptyValue)
      else if length key > 63 then Some (''label key: '', ErrValueTooLong)
      else if length val > 255 then Some (''label value: '', ErrValueTooLong)
      else if \<not> label_key key then Some ('''', ErrName ''invalid label key: must start with alphanumeric and contain only alphanumeric, hyphens, underscores, or dots'')
      else None)"

definition ValidateCSR :: "string \<Rightarrow> string option" where
  "ValidateCSR csr =
     (if csr = '''' then Some ''CSR cannot be empty''
      else if \<not> Contains csr ''-----BEGIN CERTIFICATE REQUEST-----'' then Some ''invalid CSR: must be PEM encoded''
      else if length csr > 16384 then Some ''CSR too large: maximum 16KB''
      else None)"

text \<open>The loop of \<open>SanitizeAgentID\<close>: the result so far and \<open>lastWasHyphen\<close>.\<close>

definition sanitize_char :: "char \<Rightarrow> string \<times> bool \<Rightarrow> string \<times> bool" where
  "sanitize_char c = (\<lambda>(result, lastWasHyphen).
     if is_lower c \<or> is_digit c then (result @ [c], False)
     else if c = CHR ''-'' \<or> c = CHR ''_'' \<or> c = CHR ''.'' \<or> c = CHR '' ''
     then (if \<not> lastWasHyphen \<and> result \<noteq> [] then (result @ [CHR ''-''], True) else (result, lastWasHyphen))
     else (result, lastWasHyphen))"

definition trim_hyphens :: "string \<Rightarrow> string" where
  "trim_hyphens s = rev (dropWhile (\<lambda>c. c = CHR ''-'') (rev s))"

definition SanitizeAgentID :: "(string \<Rightarrow> string) \<Rightarrow> string \<Rightarrow> string" where
  "SanitizeAgentID lower_other i =
     (let result = trim_hyphens (fst (fold sanitize_char (ToLower lower_other i) ([], False)));
          result = (if length result < 3 then result @ ''-agent'' else result);
          result = (if length result > 64 then take 64 result else result)
      in trim_hyphens result)"

section \<open>Passwords: properties\<close>

lemma fold_note_char:
  "fold (note_char u) rs (up, lo, dg, sp) =
     (up \<or> (\<exists>r \<in> set rs. IsUpper u r), lo \<or> (\<exists>r \<in> set rs. IsLower u r \<and> \<not> IsUpper u r),
      dg \<or> (\<exists>r \<in> set rs. IsDigit u r \<and> \<not> IsUpper u r \<and> \<not> IsLower u r),
      sp \<or> (\<exists>r \<in> set rs. isSpecialChar r \<and> \<not> IsUpper u r \<and> \<not> IsLower u r \<and> \<not> IsDigit u r))"
  by (induction rs arbitrary: up lo dg sp) (auto simp: note_char_def)

text \<open>The check for one error reports the first of the complete list.\<close>

lemma ValidatePassword_first:
  "ValidatePassword u p = (case ValidatePasswordWithErrors u p of [] \<Rightarrow> None | e # _ \<Rightarrow> Some e)"
  by (simp add: ValidatePassword_def ValidatePasswordWithErrors_def Let_def split: prod.split list.split)

lemma ValidatePassword_accepts:
  "ValidatePassword u p = None \<longleftrightarrow> 12 \<le> length p \<and> (\<exists>r \<in> set (runes p). IsUpper u r) \<and>
     (\<exists>r \<in> set (runes p). IsLower u r \<and> \<not> IsUpper u r) \<and>
     (\<exists>r \<in> set (runes p). IsDigit u r \<and> \<not> IsUpper u r \<and> \<not> IsLower u r) \<and>
     (\<exists>r \<in> set (runes p). isSpecialChar r \<and> \<not> IsUpper u r \<and> \<not> IsLower u r \<and> \<not> IsDigit u r)"
  by (auto simp: ValidatePassword_def MinPasswordLength_def fold_note_char split: if_splits)

section \<open>Recovery codes: properties\<close>

text \<open>Text whose ends are printing characters has nothing to trim.\<close>

lemma strip_left_other: "(\<And>w. w \<in> set ws \<Longrightarrow> hd w \<noteq> hd s) \<Longrightarrow> s \<noteq> [] \<Longrightarrow> strip_left ws s = s"
proof -
  assume a: "\<And>w. w \<in> set ws \<Longrightarrow> hd w \<noteq> hd s" and s: "s \<noteq> []"
  from a have "strip_one ws s = None"
  proof (induction ws)
    case (Cons w ws)
    have "hd w \<noteq> hd s" using Cons.prems by simp
    then have "\<not> (w \<noteq> [] \<and> HasPrefix s w)" using s by (cases w; cases s) (auto simp: HasPrefix_def)
    then have "strip_one (w # ws) s = strip_one ws s" by (simp only: strip_one.simps if_False)
    with Cons show ?case by (metis list.set_intros(2))
  qed simp
  then show ?thesis by (simp add: strip_left.simps [of ws s])
qed

lemma white_space_ends:
  "w \<in> set white_space \<Longrightarrow> \<not> in_range 33 127 (hd w) \<and> \<not> in_range 33 127 (last w)"
  unfolding white_space_list by (auto simp: in_range_def)

lemma TrimSpace_id:
  assumes "s \<noteq> []" and "in_range 33 127 (hd s)" and "in_range 33 127 (last s)"
  shows "TrimSpace s = s"
proof -
  have "strip_left white_space s = s"
    using assms white_space_ends by (intro strip_left_other) metis+
  moreover have "strip_left (map rev white_space) (rev s) = rev s"
  proof (rule strip_left_other)
    fix w assume "w \<in> set (map rev white_space)"
    then obtain w' where w': "w' \<in> set white_space" "w = rev w'" by auto
    then have "hd w = last w'" by (simp add: hd_rev)
    then show "hd w \<noteq> hd (rev s)" using w'(1) assms(3) white_space_ends by (metis hd_rev)
  qed (use assms in simp)
  ultimately show ?thesis by (simp add: TrimSpace_def)
qed

definition code_char :: "char \<Rightarrow> bool" where
  "code_char ch \<longleftrightarrow> ch \<in> set recoveryCodeChars"

lemma code_chars: "code_char ch \<Longrightarrow> is_upper ch \<or> is_digit ch"
  by (auto simp: code_char_def recoveryCodeChars_def in_range_def)

lemma generateCode_chars:
  assumes "generateCode (Inr b) = Inr code"
  shows "list_all code_char code \<and> length code = length b"
proof -
  have "recoveryCodeChars ! (n mod length recoveryCodeChars) \<in> set recoveryCodeChars" for n
    by (rule nth_mem) (simp add: recoveryCodeChars_def)
  with assms show ?thesis by (auto simp: generateCode_def list_all_iff code_char_def)
qed

lemma ToUpper_id: "list_all (\<lambda>ch. is_upper ch \<or> is_digit ch \<or> ch = CHR ''-'') s \<Longrightarrow> ToUpper other s = s"
proof -
  assume a: "list_all (\<lambda>ch. is_upper ch \<or> is_digit ch \<or> ch = CHR ''-'') s"
  have "list_all is_ascii s" by (rule list.pred_mono_strong [OF a]) (auto simp: in_range_def)
  moreover have "map (\<lambda>ch. if is_lower ch then char_of (of_char ch - 32 :: nat) else ch) s = s"
    using a by (intro map_idI) (auto simp: list_all_iff in_range_def)
  ultimately show ?thesis by (simp add: ToUpper_def)
qed

lemma format_code_split:
  assumes "list_all code_char code" and "length code = 8"
  obtains a b where "format_code code = a @ CHR ''-'' # b" and "code = a @ b" and "a \<noteq> []" and "b \<noteq> []"
    and "list_all code_char a" and "list_all code_char b"
proof
  show "format_code code = take 4 code @ CHR ''-'' # drop 4 code" using assms by (simp add: format_code_def RecoveryCodeLength_def)
  show "list_all code_char (take 4 code)" "list_all code_char (drop 4 code)" using assms(1)
    by (auto simp: list_all_iff dest: in_set_takeD in_set_dropD)
qed (use assms in auto)

lemma upper_trim_formatted:
  assumes "list_all code_char code" and "length code = 8"
  shows "ToUpper other (TrimSpace (format_code code)) = format_code code"
proof -
  obtain a b where f: "format_code code = a @ CHR ''-'' # b" "a \<noteq> []" "b \<noteq> []" "list_all code_char a" "list_all code_char b"
    using format_code_split [OF assms] by metis
  have "in_range 33 127 (hd (format_code code))" "in_range 33 127 (last (format_code code))"
    using f code_chars [of "hd a"] code_chars [of "last b"] by (auto simp: list_all_iff in_range_def)
  then have "TrimSpace (format_code code) = format_code code" using f by (intro TrimSpace_id) simp_all
  moreover have "ToUpper other (format_code code) = format_code code"
    using f code_chars by (intro ToUpper_id) (auto simp: list_all_iff)
  ultimately show ?thesis by simp
qed

text \<open>A code as it is shown normalises to the code that was hashed.\<close>

lemma Normalize_format:
  assumes "generateCode (Inr b) = Inr code" and "length b = 8"
  shows "NormalizeRecoveryCode other (format_code code) = code"
proof -
  have c: "list_all code_char code" "length code = 8" using generateCode_chars [OF assms(1)] assms(2) by auto
  obtain x y where f: "format_code code = x @ CHR ''-'' # y" "code = x @ y" using format_code_split [OF c] by metis
  have no: "ch \<noteq> CHR ''-'' \<and> ch \<noteq> CHR '' ''" if "ch \<in> set code" for ch
    using c(1) that code_chars by (fastforce simp: list_all_iff in_range_def)
  have gone: "concat (map (\<lambda>z. if z = d then [] else [z]) s) = s" if "\<And>z. z \<in> set s \<Longrightarrow> z \<noteq> d" for d and s :: string
    using that by (induction s) auto
  have "concat (map (\<lambda>z. if z = CHR ''-'' then [] else [z]) (format_code code)) = code"
    using gone [of x "CHR ''-''"] gone [of y "CHR ''-''"] no f(2) unfolding f(1) by simp
  then show ?thesis
    unfolding NormalizeRecoveryCode_def upper_trim_formatted [OF c] ReplaceAll_char using gone [of code "CHR '' ''"] no by simp
qed

text \<open>The contract of bcrypt: a hash matches the password it was made from.\<close>

definition bcrypt_lawful :: "(string \<Rightarrow> string + string) \<Rightarrow> (string \<Rightarrow> string \<Rightarrow> bool) \<Rightarrow> bool" where
  "bcrypt_lawful bcrypt matches \<longleftrightarrow> (\<forall>p h. bcrypt p = Inr h \<longrightarrow> matches h p)"

lemma generate_codes_spec:
  "generate_codes bcrypt rnds = Inr (ps, hs) \<Longrightarrow>
     length ps = length rnds \<and> length hs = length rnds \<and>
     (\<forall>i < length rnds. generateCode (rnds ! i) = Inr (ps ! i) \<and> bcrypt (ps ! i) = Inr (hs ! i))"
proof (induction rnds arbitrary: ps hs)
  case (Cons rnd rnds)
  obtain code hash ps' hs' where "generateCode rnd = Inr code" "bcrypt code = Inr hash" "generate_codes bcrypt rnds = Inr (ps', hs')"
    "ps = code # ps'" "hs = hash # hs'"
    using Cons.prems by (auto split: sum.splits)
  with Cons.IH [of ps' hs'] show ?case by (auto simp: nth_Cons split: nat.split)
qed simp

text \<open>The recovery codes shown to a user work when they are typed in as shown. The eight codes that
  \<open>GenerateRecoveryCodes\<close> returns, formatted with a dash and normalised again, match the hashes stored for
  them, each its own.\<close>

theorem recovery_codes_match:
  assumes "bcrypt_lawful bcrypt matches" and "\<And>i. \<exists>b. rnd i = Inr b \<and> length b = 8"
    and "GenerateRecoveryCodes bcrypt rnd = Inr (plaintext, hashes)"
  shows "length plaintext = 8 \<and> length hashes = 8 \<and>
    (\<forall>i < 8. matches (hashes ! i) (NormalizeRecoveryCode other (FormatRecoveryCodes plaintext ! i)))"
proof -
  note g = generate_codes_spec [OF assms(3) [unfolded GenerateRecoveryCodes_def]]
  have len: "length plaintext = 8" "length hashes = 8" using g by (simp_all add: RecoveryCodeCount_def)
  have "matches (hashes ! i) (NormalizeRecoveryCode other (FormatRecoveryCodes plaintext ! i))" if i: "i < 8" for i
  proof -
    obtain b where b: "rnd i = Inr b" "length b = 8" using assms(2) by blast
    have gi: "generateCode (rnd i) = Inr (plaintext ! i)" "bcrypt (plaintext ! i) = Inr (hashes ! i)"
      using g i by (auto simp: RecoveryCodeCount_def)
    have "NormalizeRecoveryCode other (FormatRecoveryCodes plaintext ! i) = plaintext ! i"
      using Normalize_format [of b "plaintext ! i"] gi(1) b i len by (simp add: FormatRecoveryCodes_def)
    with gi(2) assms(1) show ?thesis by (simp add: bcrypt_lawful_def)
  qed
  with len show ?thesis by blast
qed

theorem recovery_codes_match_witness:
  "\<exists>ps hs. GenerateRecoveryCodes Inr (\<lambda>_. Inr ''abcdefgh'') = Inr (ps, hs) \<and>
     (hs ! 0 = NormalizeRecoveryCode (\<lambda>s. s) (FormatRecoveryCodes ps ! 0))"
proof -
  have "GenerateRecoveryCodes Inr (\<lambda>_. Inr ''abcdefgh'') \<noteq> Inl e" for e
    by (simp add: GenerateRecoveryCodes_def RecoveryCodeCount_def upt_rec generateCode_def)
  then obtain ps hs where r: "GenerateRecoveryCodes Inr (\<lambda>_. Inr ''abcdefgh'') = Inr (ps, hs)"
    by (metis old.sum.exhaust surj_pair)
  have "bcrypt_lawful Inr (=)" by (simp add: bcrypt_lawful_def)
  from recovery_codes_match [OF this _ r, of "\<lambda>s. s"] r show ?thesis by auto
qed

text \<open>\<open>VerifyRecoveryCode\<close> does not remove the dash, so it refuses a code as it is shown (with hashes that match
  only their own code).\<close>

lemma VerifyRecoveryCode_refuses_shown_code:
  assumes "list_all code_char code" and "length code = 8"
    and "\<And>h c. h \<in> set hashes \<Longrightarrow> matches h c \<Longrightarrow> list_all code_char c"
  shows "VerifyRecoveryCode other matches (format_code code) hashes = None"
proof -
  obtain a b where f: "format_code code = a @ CHR ''-'' # b" using format_code_split [OF assms(1,2)] by metis
  have "\<not> list_all code_char (format_code code)" by (auto simp: f code_char_def recoveryCodeChars_def)
  then show ?thesis
    using assms(3) by (auto simp: VerifyRecoveryCode_def Let_def upper_trim_formatted [OF assms(1,2)] find_None_iff)
      (metis nth_mem)
qed

section \<open>One-time passwords: properties\<close>

lemma generateTOTP_period:
  "go_div t (totp_Period config) = go_div t' (totp_Period config) \<Longrightarrow>
     generateTOTP hmac secret t config = generateTOTP hmac secret t' config"
  by (simp add: generateTOTP_def Let_def split: option.split)

lemma length_nat_digits: "n < 10 ^ k \<Longrightarrow> 0 < k \<Longrightarrow> length (nat_digits n) \<le> k"
proof (induction k arbitrary: n)
  case (Suc k)
  show ?case
  proof (cases "n < 10")
    case True
    then show ?thesis by (simp add: nat_digits.simps [of n])
  next
    case False
    then have "0 < k" using Suc.prems by (cases k) auto
    moreover have "n div 10 < 10 ^ k" using Suc.prems by (simp add: less_mult_imp_div_less mult.commute)
    ultimately show ?thesis using Suc.IH False by (simp add: nat_digits.simps [of n])
  qed
qed simp

lemma totp_mod_6: "totp_mod 6 = 10 ^ 6"
proof -
  have "nat 6 = Suc (Suc (Suc (Suc (Suc (Suc 0)))))" by simp
  then show ?thesis unfolding totp_mod_def by (simp only: funpow.simps comp_def id_def) simp
qed

text \<open>C16: a one-time password is accepted for one period of clock difference in each direction, and no other
  code is. With the default configuration, a code generated at time \<open>t\<close> is accepted at every time at most
  30 seconds before or after \<open>t\<close>; a code that is accepted is the code of the current period or of one of its
  neighbours and, for a secret that decodes, has six characters.\<close>

theorem ValidateTOTP_skew:
  assumes "30 \<le> now" and "0 \<le> t"
  shows "(\<bar>now - t\<bar> \<le> 30 \<and> generateTOTP hmac secret t DefaultTOTPConfig = Some code \<longrightarrow>
      ValidateTOTP hmac secret code DefaultTOTPConfig now = Some True) \<and>
    (ValidateTOTP hmac secret code DefaultTOTPConfig now = Some True \<longrightarrow>
      (\<exists>t'. 0 \<le> t' \<and> \<bar>t' div 30 - now div 30\<bar> \<le> 1 \<and> generateTOTP hmac secret t' DefaultTOTPConfig = Some code) \<and>
      (base32_DecodeString secret = None \<or> length code = 6))"
proof -
  let ?g = "\<lambda>t. generateTOTP hmac secret t DefaultTOTPConfig"
  have total: "?g t \<noteq> None" for t by (simp add: generateTOTP_def DefaultTOTPConfig_def totp_mod_6 Let_def split: option.split)
  have v: "ValidateTOTP hmac secret code DefaultTOTPConfig now = Some (Some code \<in> {?g (now - 30), ?g now, ?g (now + 30)})"
    using total by (auto simp: ValidateTOTP_def DefaultTOTPConfig_def)
  have a: "Some code \<in> {?g (now - 30), ?g now, ?g (now + 30)}" if d: "\<bar>now - t\<bar> \<le> 30" and c: "?g t = Some code"
  proof -
    have "(now - 30) div 30 \<le> t div 30" "t div 30 \<le> (now + 30) div 30" using d by (auto intro!: zdiv_mono1)
    moreover have "(now - 30) div 30 = now div 30 - 1" using div_add_self2 [of 30 "now - 30"] by simp
    moreover have "(now + 30) div 30 = now div 30 + 1" by simp
    ultimately consider "t div 30 = (now - 30) div 30" | "t div 30 = now div 30" | "t div 30 = (now + 30) div 30" by linarith
    then have "?g t = ?g (now - 30) \<or> ?g t = ?g now \<or> ?g t = ?g (now + 30)"
    proof cases
      case 1
      with assms show ?thesis
        by (intro disjI1 generateTOTP_period) (simp add: DefaultTOTPConfig_def go_div_nonneg del: div_diff)
    next
      case 2
      with assms show ?thesis
        by (intro disjI2 disjI1 generateTOTP_period) (simp add: DefaultTOTPConfig_def go_div_nonneg)
    next
      case 3
      with assms show ?thesis
        by (intro disjI2 generateTOTP_period) (simp add: DefaultTOTPConfig_def go_div_nonneg)
    qed
    with c show ?thesis by auto
  qed
  have b: "\<exists>t'. 0 \<le> t' \<and> \<bar>t' div 30 - now div 30\<bar> \<le> 1 \<and> ?g t' = Some code"
    if "Some code \<in> {?g (now - 30), ?g now, ?g (now + 30)}"
  proof -
    have "\<exists>t' \<in> {now - 30, now, now + 30}. ?g t' = Some code" using that by force
    then obtain t' where t': "t' \<in> {now - 30, now, now + 30}" "?g t' = Some code" by blast
    have "(now - 30) div 30 = now div 30 - 1" using div_add_self2 [of 30 "now - 30"] by simp
    then have "0 \<le> t'" "\<bar>t' div 30 - now div 30\<bar> \<le> 1" using t'(1) assms by auto
    with t'(2) show ?thesis by blast
  qed
  have "length code = 6" if "base32_DecodeString secret = Some key" "?g t' = Some code" for key t'
  proof -
    have "length (pad_zeros 6 (n mod 1000000)) = 6" for n
      using length_nat_digits [of "n mod 1000000" 6] by (simp add: pad_zeros_def Let_def)
    with that show ?thesis by (auto simp: generateTOTP_def DefaultTOTPConfig_def totp_mod_6 Let_def)
  qed
  then have l: "base32_DecodeString secret = None \<or> length code = 6" if "?g t' = Some code" for t'
    using that by (cases "base32_DecodeString secret") auto
  show ?thesis
  proof (intro conjI impI)
    show "ValidateTOTP hmac secret code DefaultTOTPConfig now = Some True" if "\<bar>now - t\<bar> \<le> 30 \<and> ?g t = Some code"
      using a that by (simp only: v)
    assume "ValidateTOTP hmac secret code DefaultTOTPConfig now = Some True"
    then have "\<exists>t'. 0 \<le> t' \<and> \<bar>t' div 30 - now div 30\<bar> \<le> 1 \<and> ?g t' = Some code" using b by (simp only: v option.inject)
    then show "\<exists>t'. 0 \<le> t' \<and> \<bar>t' div 30 - now div 30\<bar> \<le> 1 \<and> ?g t' = Some code"
      and "base32_DecodeString secret = None \<or> length code = 6" using l by blast+
  qed
qed

definition wit_hmac :: "string \<Rightarrow> string \<Rightarrow> string" where
  "wit_hmac key message = [CHR 0x01, CHR 0x01, CHR 0x01, CHR 0x00, CHR 0x00]"

theorem ValidateTOTP_skew_witness: "ValidateTOTP wit_hmac ''A'' ''843008'' DefaultTOTPConfig 90 = Some True"
proof -
  have d: "nat_digits 843008 = ''843008''" by (simp add: nat_digits.simps char_of_def bit_0)
  have "generateTOTP wit_hmac ''A'' 61 DefaultTOTPConfig = Some ''843008''"
    by (simp add: generateTOTP_def base32_DecodeString_def b32_value_def in_range_def DefaultTOTPConfig_def totp_mod_6 Let_def
        uint32_at_def pad_zeros_def wit_hmac_def d)
  with ValidateTOTP_skew [of 90 61 wit_hmac "''A''" "''843008''"] show ?thesis by simp
qed

section \<open>Names: properties\<close>

abbreviation hyphen :: char where "hyphen \<equiv> CHR ''-''"

text \<open>The result of the loop: lower-case letters, digits and single hyphens, not starting with a hyphen.\<close>

definition plain_id :: "string \<Rightarrow> bool" where
  "plain_id s \<longleftrightarrow> list_all (\<lambda>c. is_lower c \<or> is_digit c \<or> c = hyphen) s \<and> (s \<noteq> [] \<longrightarrow> hd s \<noteq> hyphen) \<and>
     successively (\<lambda>a b. \<not> (a = hyphen \<and> b = hyphen)) s"

definition sanitize_inv :: "string \<times> bool \<Rightarrow> bool" where
  "sanitize_inv p \<longleftrightarrow> plain_id (fst p) \<and> (snd p \<longleftrightarrow> fst p \<noteq> [] \<and> last (fst p) = hyphen)"

lemma sanitize_char_inv: "sanitize_inv p \<Longrightarrow> sanitize_inv (sanitize_char c p)"
  by (cases p) (auto simp: sanitize_inv_def sanitize_char_def plain_id_def successively_append_iff hd_append in_range_def)

lemma sanitize_fold_inv: "sanitize_inv p \<Longrightarrow> sanitize_inv (fold sanitize_char s p)"
  by (induction s arbitrary: p) (simp_all add: sanitize_char_inv)

lemma trim_hyphens_snoc [simp]: "trim_hyphens [] = []"
  "trim_hyphens (s @ [c]) = (if c = hyphen then trim_hyphens s else s @ [c])"
  by (simp_all add: trim_hyphens_def)

lemma trim_hyphens_id: "t = [] \<or> last t \<noteq> hyphen \<Longrightarrow> trim_hyphens t = t"
  by (cases t rule: rev_cases) auto

lemma plain_id_snoc: "plain_id (t @ [c]) \<Longrightarrow> plain_id t \<and> (c = hyphen \<longrightarrow> t \<noteq> [] \<and> last t \<noteq> hyphen)"
  by (auto simp: plain_id_def successively_append_iff hd_append split: if_splits)

lemma sanitize_fold_keeps: "set (fst p) \<subseteq> set (fst (fold sanitize_char s p))"
proof (induction s arbitrary: p)
  case (Cons c s)
  have "set (fst p) \<subseteq> set (fst (sanitize_char c p))" by (cases p) (auto simp: sanitize_char_def)
  with Cons [of "sanitize_char c p"] show ?case by simp
qed simp

lemma sanitize_fold_some:
  assumes "c \<in> set s" and "is_lower c \<or> is_digit c"
  shows "c \<in> set (fst (fold sanitize_char s p))"
proof -
  obtain a b where s: "s = a @ c # b" using assms(1) by (meson split_list)
  have "c \<in> set (fst (sanitize_char c (fold sanitize_char a p)))"
    using assms(2) by (simp add: sanitize_char_def split: prod.split)
  with sanitize_fold_keeps [of "sanitize_char c (fold sanitize_char a p)" b] show ?thesis by (auto simp: s)
qed

lemma trim_plain_id:
  assumes "plain_id s"
  shows "plain_id (trim_hyphens s)" and "trim_hyphens s = [] \<or> last (trim_hyphens s) \<noteq> hyphen"
    and "length s \<le> length (trim_hyphens s) + 1" and "length (trim_hyphens s) \<le> length s"
proof -
  have "plain_id (trim_hyphens s) \<and> (trim_hyphens s = [] \<or> last (trim_hyphens s) \<noteq> hyphen) \<and>
    length s \<le> length (trim_hyphens s) + 1 \<and> length (trim_hyphens s) \<le> length s"
  proof (cases s rule: rev_cases)
    case (snoc t c)
    note t = plain_id_snoc [OF assms [unfolded snoc]]
    have "trim_hyphens s = (if c = hyphen then t else s)" using t trim_hyphens_id [of t] by (simp add: snoc)
    with t assms snoc show ?thesis by auto
  qed (use assms in simp)
  then show "plain_id (trim_hyphens s)" and "trim_hyphens s = [] \<or> last (trim_hyphens s) \<noteq> hyphen"
    and "length s \<le> length (trim_hyphens s) + 1" and "length (trim_hyphens s) \<le> length s" by blast+
qed

lemma plain_id_take: "plain_id s \<Longrightarrow> plain_id (take n s)"
  by (auto simp: plain_id_def list_all_iff dest: in_set_takeD)
    (metis append_take_drop_id successively_append_iff)

lemma plain_id_regex: "plain_id s \<Longrightarrow> 3 \<le> length s \<Longrightarrow> length s \<le> 64 \<Longrightarrow> agentIDRegex s"
  by (cases s) (auto simp: plain_id_def agentIDRegex_def list_all_iff)

text \<open>What \<open>SanitizeAgentID\<close> returns. For every input it is a well-formed agent identifier, except that an
  input with no letter or digit gives \<open>-agent\<close>, which is not well-formed; and since reserved names are not
  considered, \<open>Master\<close> gives \<open>master\<close>, which \<open>ValidateAgentID\<close> refuses.\<close>

theorem SanitizeAgentID_result:
  "(agentIDRegex (SanitizeAgentID other i) \<or>
     SanitizeAgentID other i = ''-agent'' \<and> \<not> (\<exists>c \<in> set (ToLower other i). is_lower c \<or> is_digit c)) \<and>
   SanitizeAgentID other ''...'' = ''-agent'' \<and> ValidateAgentID other ''-agent'' = Some ErrInvalidAgentID \<and>
   ValidateAgentID other (SanitizeAgentID other ''Master'') = Some (ErrReservedAgentID ''master'')"
proof -
  let ?f = "fst (fold sanitize_char (ToLower other i) ([], False))"
  let ?t = "trim_hyphens ?f"
  have "plain_id ?f" using sanitize_fold_inv [of "([], False)"] by (simp add: sanitize_inv_def plain_id_def)
  note t = trim_plain_id [OF this]
  have "agentIDRegex (SanitizeAgentID other i) \<or> SanitizeAgentID other i = ''-agent'' \<and> \<not> (\<exists>c \<in> set (ToLower other i). is_lower c \<or> is_digit c)"
  proof (cases "?t = []")
    case True
    have "\<forall>c \<in> set ?f. c = hyphen" using True by (auto simp: trim_hyphens_def)
    with sanitize_fold_some [of _ "ToLower other i" "([], False)"]
    have "\<not> (\<exists>c \<in> set (ToLower other i). is_lower c \<or> is_digit c)" by (fastforce simp: in_range_def)
    moreover have "trim_hyphens ''-agent'' = ''-agent''" by (simp add: trim_hyphens_def)
    ultimately show ?thesis by (simp add: SanitizeAgentID_def Let_def True)
  next
    case False
    let ?r = "if length ?t < 3 then ?t @ ''-agent'' else ?t"
    have "plain_id (?t @ ''-agent'')"
      using t(1,2) False by (auto simp: plain_id_def successively_append_iff in_range_def)
    then have r: "plain_id ?r" "3 \<le> length ?r" using t(1) by auto
    then have r': "plain_id (take 64 ?r)" by (blast intro: plain_id_take)
    note q = trim_plain_id [OF r']
    have "SanitizeAgentID other i = trim_hyphens (take 64 ?r)" by (simp add: SanitizeAgentID_def Let_def)
    moreover have "3 \<le> length (trim_hyphens (take 64 ?r))"
    proof (cases "length ?r \<le> 64")
      case True
      have "?r \<noteq> [] \<and> last ?r \<noteq> hyphen" using t(2) False by auto
      then have "trim_hyphens ?r = ?r" by (cases ?r rule: rev_cases) auto
      with True r(2) show ?thesis by simp
    next
      case False
      then show ?thesis using q(3) by simp
    qed
    ultimately show ?thesis using plain_id_regex [OF q(1)] q(4) by simp
  qed
  moreover have "SanitizeAgentID other ''...'' = ''-agent''" "ValidateAgentID other ''-agent'' = Some ErrInvalidAgentID"
    "ValidateAgentID other (SanitizeAgentID other ''Master'') = Some (ErrReservedAgentID ''master'')"
    by (simp_all add: SanitizeAgentID_def ToLower_def in_range_def sanitize_char_def trim_hyphens_def ValidateAgentID_def
        agentIDRegex_def reservedAgentIDs_def char_of_def bit_0 Let_def)
  ultimately show ?thesis by blast
qed

end
