(* ===== verification/Account_Services.thy ===== *)
theory Account_Services
  imports Go_Json_Parse Auth_Rules Mem_Cleanup
begin

text \<open>
  The errors of the service layer (\<open>internal/services/errors.go\<close>) and the services for accounts: sessions, users
  and API keys (\<open>internal/services/sessions\<close>, \<open>users\<close>, \<open>apikeys\<close>), over the in-memory store. Random bytes,
  SHA-256 and bcrypt are arguments; one clock reading \<open>now\<close> stands for the readings of one call.
\<close>

section \<open>Errors\<close>

datatype sentinel = ErrNotFound | ErrDuplicate | ErrInvalidInput | ErrUnauthorized | ErrForbidden | ErrConflict
  | ErrInternal

text \<open>An error: a sentinel of the package, an error of the store or of the password rules, a text, the
  structures \<open>ServiceError\<close> and \<open>InputError\<close>, and the wrapping formats \<open>"text: %w"\<close> and \<open>"%w: %w"\<close>.\<close>

datatype service_error =
    Sentinel sentinel
  | StorageError store_error
  | PasswordError password_error
  | TextError string
  | ServiceError string service_error string string
  | InputError string string
  | Wrap string service_error
  | Join_errors service_error service_error

type_synonym 'a service_result = "service_error + 'a"

fun sentinel_text :: "sentinel \<Rightarrow> string" where
  "sentinel_text ErrNotFound = ''resource not found''"
| "sentinel_text ErrDuplicate = ''resource already exists''"
| "sentinel_text ErrInvalidInput = ''invalid input''"
| "sentinel_text ErrUnauthorized = ''unauthorized''"
| "sentinel_text ErrForbidden = ''forbidden''"
| "sentinel_text ErrConflict = ''conflict with current state''"
| "sentinel_text ErrInternal = ''internal error''"

fun storage_text :: "store_error \<Rightarrow> string" where
  "storage_text store_error.ErrNotFound = ''not found''"
| "storage_text store_error.ErrDuplicate = ''duplicate''"
| "storage_text ErrValidation = ''validation error''"
| "storage_text (ErrText t) = t"

fun password_text :: "password_error \<Rightarrow> string" where
  "password_text ErrPasswordTooShort = ''password must be at least 12 characters long''"
| "password_text ErrPasswordNoUppercase = ''password must contain at least one uppercase letter''"
| "password_text ErrPasswordNoLowercase = ''password must contain at least one lowercase letter''"
| "password_text ErrPasswordNoDigit = ''password must contain at least one digit''"
| "password_text ErrPasswordNoSpecialChar = ''password must contain at least one special character''"

fun Error :: "service_error \<Rightarrow> string" where
  "Error (Sentinel s) = sentinel_text s"
| "Error (StorageError e) = storage_text e"
| "Error (PasswordError e) = password_text e"
| "Error (TextError t) = t"
| "Error (ServiceError op err resource i) =
     (if i \<noteq> '''' then op @ '': '' @ resource @ '' '' @ i @ '': '' @ Error err
      else if resource \<noteq> '''' then op @ '': '' @ resource @ '': '' @ Error err
      else op @ '': '' @ Error err)"
| "Error (InputError message field) = (if field \<noteq> '''' then message @ '' (field: '' @ field @ '')'' else message)"
| "Error (Wrap t err) = t @ '': '' @ Error err"
| "Error (Join_errors e e') = Error e @ '': '' @ Error e'"

text \<open>\<open>errors.Is\<close>, whose second argument is always one of the sentinels of the two packages: the leaves that
  unwrapping reaches.\<close>

fun leaves :: "service_error \<Rightarrow> service_error list" where
  "leaves (ServiceError op err resource i) = leaves err"
| "leaves (InputError message field) = [Sentinel ErrInvalidInput]"
| "leaves (Wrap t err) = leaves err"
| "leaves (Join_errors e e') = leaves e @ leaves e'"
| "leaves e = [e]"

definition errors_Is :: "service_error \<Rightarrow> service_error \<Rightarrow> bool" where
  "errors_Is err target \<longleftrightarrow> target \<in> set (leaves err)"

definition NotFound :: "string \<Rightarrow> string \<Rightarrow> string \<Rightarrow> service_error" where
  "NotFound op resource i = ServiceError op (Sentinel ErrNotFound) resource i"

definition Duplicate :: "string \<Rightarrow> string \<Rightarrow> string \<Rightarrow> service_error" where
  "Duplicate op resource i = ServiceError op (Sentinel ErrDuplicate) resource i"

definition InvalidInput :: "string \<Rightarrow> string \<Rightarrow> service_error" where
  "InvalidInput op message = ServiceError op (Wrap message (Sentinel ErrInvalidInput)) '''' ''''"

definition Internal :: "string \<Rightarrow> service_error \<Rightarrow> service_error" where
  "Internal op err = ServiceError op (Join_errors err (Sentinel ErrInternal)) '''' ''''"

definition Unauthorized :: "string \<Rightarrow> string \<Rightarrow> service_error" where
  "Unauthorized op message = ServiceError op (Wrap message (Sentinel ErrUnauthorized)) '''' ''''"

definition Forbidden :: "string \<Rightarrow> string \<Rightarrow> service_error" where
  "Forbidden op message = ServiceError op (Wrap message (Sentinel ErrForbidden)) '''' ''''"

definition Conflict :: "string \<Rightarrow> string \<Rightarrow> string \<Rightarrow> service_error" where
  "Conflict op resource i = ServiceError op (Sentinel ErrConflict) resource i"

definition NewInputError :: "string \<Rightarrow> string \<Rightarrow> service_error" where
  "NewInputError message field = InputError message field"

definition IsNotFound :: "service_error \<Rightarrow> bool" where
  "IsNotFound err \<longleftrightarrow> errors_Is err (Sentinel ErrNotFound) \<or> errors_Is err (StorageError store_error.ErrNotFound)"

definition IsDuplicate :: "service_error \<Rightarrow> bool" where
  "IsDuplicate err \<longleftrightarrow> errors_Is err (Sentinel ErrDuplicate)"

definition IsInvalidInput :: "service_error \<Rightarrow> bool" where
  "IsInvalidInput err \<longleftrightarrow> errors_Is err (Sentinel ErrInvalidInput)"

definition IsUnauthorized :: "service_error \<Rightarrow> bool" where
  "IsUnauthorized err \<longleftrightarrow> errors_Is err (Sentinel ErrUnauthorized)"

definition IsForbidden :: "service_error \<Rightarrow> bool" where
  "IsForbidden err \<longleftrightarrow> errors_Is err (Sentinel ErrForbidden)"

definition IsConflict :: "service_error \<Rightarrow> bool" where
  "IsConflict err \<longleftrightarrow> errors_Is err (Sentinel ErrConflict)"

definition IsInternal :: "service_error \<Rightarrow> bool" where
  "IsInternal err \<longleftrightarrow> errors_Is err (Sentinel ErrInternal)"

text \<open>\<open>fmt.Errorf("text: %w", err)\<close> around an error of the store.\<close>

definition wrap :: "string \<Rightarrow> 'a result \<Rightarrow> 'a service_result" where
  "wrap t r = (case r of Inl e \<Rightarrow> Inl (Wrap t (StorageError e)) | Inr x \<Rightarrow> Inr x)"

definition unwrapped :: "'a result \<Rightarrow> 'a service_result" where
  "unwrapped r = (case r of Inl e \<Rightarrow> Inl (StorageError e) | Inr x \<Rightarrow> Inr x)"

lemma wrap_simps [simp]: "wrap t (Inl e) = Inl (Wrap t (StorageError e))" "wrap t (Inr x) = Inr x"
  by (simp_all add: wrap_def)

lemma unwrapped_simps [simp]: "unwrapped (Inl e) = Inl (StorageError e)" "unwrapped (Inr x) = Inr x"
  by (simp_all add: unwrapped_def)

section \<open>Sessions\<close>

definition hex_EncodeToString :: "string \<Rightarrow> string" where
  "hex_EncodeToString b = concat (map (\<lambda>c. [hex_digit (of_char c div 16), hex_digit (of_char c mod 16)]) b)"

definition generateToken :: "random_bytes \<Rightarrow> string service_result" where
  "generateToken rnd = (case rnd of Inl e \<Rightarrow> Inl (TextError e) | Inr b \<Rightarrow> Inr (hex_EncodeToString b))"

definition Session_Create ::
  "string \<Rightarrow> string \<Rightarrow> string \<Rightarrow> int \<Rightarrow> random_bytes \<Rightarrow> time \<Rightarrow> MemoryStore \<Rightarrow> Session service_result \<times> MemoryStore" where
  "Session_Create userID ipAddress userAgent duration rnd now s =
     (case generateToken rnd of
        Inl e \<Rightarrow> (Inl (Wrap ''generating token'' e), s)
      | Inr token \<Rightarrow>
          (case CreateSession
                  \<lparr>session_ID = token, session_UserID = userID, session_Token = token, session_IPAddress = ipAddress,
                   session_UserAgent = userAgent, session_CreatedAt = now, session_ExpiresAt = now + duration,
                   session_LastUsed = 0\<rparr> now s of
             (r, s') \<Rightarrow> (wrap ''creating session'' r, s')))"

definition GetByToken :: "string \<Rightarrow> time \<Rightarrow> MemoryStore \<Rightarrow> Session service_result" where
  "GetByToken token now s = unwrapped (GetSessionByToken token now s)"

definition Session_Delete :: "string \<Rightarrow> time \<Rightarrow> MemoryStore \<Rightarrow> unit service_result \<times> MemoryStore" where
  "Session_Delete token now s = apfst unwrapped (DeleteSession token now s)"

definition DeleteAllForUser :: "string \<Rightarrow> time \<Rightarrow> MemoryStore \<Rightarrow> unit service_result \<times> MemoryStore" where
  "DeleteAllForUser userID now s = apfst unwrapped (DeleteUserSessions userID now s)"

definition DeleteExpired :: "time \<Rightarrow> string list \<Rightarrow> MemoryStore \<Rightarrow> int service_result \<times> MemoryStore" where
  "DeleteExpired now ks s = apfst unwrapped (DeleteExpiredSessions now ks s)"

definition ListForUser :: "string \<Rightarrow> string list \<Rightarrow> MemoryStore \<Rightarrow> Session list" where
  "ListForUser userID ks s = ListUserSessions userID ks s"

section \<open>Users\<close>

text \<open>\<open>bcrypt.GenerateFromPassword\<close> and \<open>bcrypt.CompareHashAndPassword\<close> (\<open>matches hash password\<close> is that it returns
  nil) are arguments.\<close>

definition HashPassword :: "(string \<Rightarrow> string + string) \<Rightarrow> string \<Rightarrow> string service_result" where
  "HashPassword bcrypt password =
     (case bcrypt password of Inl e \<Rightarrow> Inl (Wrap ''hashing password'' (TextError e)) | Inr hash \<Rightarrow> Inr hash)"

definition VerifyPassword :: "(string \<Rightarrow> string \<Rightarrow> bool) \<Rightarrow> string \<Rightarrow> string \<Rightarrow> bool" where
  "VerifyPassword matches password hash = matches hash password"

record CreateUserOptions =
  opt_TOTPEnabled :: bool
  opt_TOTPSecret :: string

definition WithTOTP :: "string \<Rightarrow> CreateUserOptions \<Rightarrow> CreateUserOptions" where
  "WithTOTP secret opts = opts\<lparr>opt_TOTPEnabled := True, opt_TOTPSecret := secret\<rparr>"

definition User_Create ::
  "unicode \<Rightarrow> (string \<Rightarrow> string + string) \<Rightarrow> string \<Rightarrow> string \<Rightarrow> string \<Rightarrow> string
     \<Rightarrow> (CreateUserOptions \<Rightarrow> CreateUserOptions) list \<Rightarrow> time \<Rightarrow> string \<Rightarrow> MemoryStore \<Rightarrow> User service_result \<times> MemoryStore" where
  "User_Create u bcrypt username password email role opts now xid s =
     (let options = fold (\<lambda>opt. opt) opts \<lparr>opt_TOTPEnabled = False, opt_TOTPSecret = ''''\<rparr>
      in case ValidatePassword u password of
           Some e \<Rightarrow> (Inl (Wrap ''password validation failed'' (PasswordError e)), s)
         | None \<Rightarrow>
             (case HashPassword bcrypt password of
                Inl e \<Rightarrow> (Inl (Wrap ''hashing password'' e), s)
              | Inr hash \<Rightarrow>
                  (let role = (if role = '''' then ''user'' else role)
                   in case CreateUser
                             \<lparr>user_ID = '''', user_Username = username, user_PasswordHash = hash, user_Email = email,
                              user_Role = role, user_TOTPSecret = opt_TOTPSecret options,
                              user_TOTPEnabled = opt_TOTPEnabled options, user_MustChangePassword = False,
                              user_CreatedAt = now, user_UpdatedAt = now\<rparr> now xid s of
                        (r, s') \<Rightarrow> (wrap ''creating user'' r, s'))))"

definition not_found_or :: "string \<Rightarrow> string \<Rightarrow> User result \<Rightarrow> User service_result" where
  "not_found_or op i r =
     (case r of
        Inl e \<Rightarrow> Inl (if IsNotFound (StorageError e) then NotFound op ''user'' i
                      else Wrap ''getting user'' (StorageError e))
      | Inr user \<Rightarrow> Inr user)"

definition User_GetByID :: "string \<Rightarrow> MemoryStore \<Rightarrow> User service_result" where
  "User_GetByID i s = not_found_or ''users.GetByID'' i (GetUserByID i s)"

definition User_GetByUsername :: "string \<Rightarrow> MemoryStore \<Rightarrow> User service_result" where
  "User_GetByUsername username s = not_found_or ''users.GetByUsername'' username (GetUserByUsername username s)"

definition User_List :: "string list \<Rightarrow> MemoryStore \<Rightarrow> User list" where
  "User_List ks s = ListUsers ks s"

record 'a ListResult =
  lr_Items :: "'a list"
  lr_TotalCount :: int
  lr_Pagination :: Pagination

text \<open>\<open>None\<close> is the panic of a slice expression out of range.\<close>

definition User_ListPaginated :: "Pagination \<Rightarrow> string list \<Rightarrow> MemoryStore \<Rightarrow> User ListResult option" where
  "User_ListPaginated p ks s =
     map_option (\<lambda>items. \<lparr>lr_Items = items, lr_TotalCount = CountUsers s, lr_Pagination = p\<rparr>)
       (ListUsersPaginated (Limit p) (Offset p) ks s)"

definition User_Update :: "User \<Rightarrow> time \<Rightarrow> MemoryStore \<Rightarrow> User service_result \<times> MemoryStore" where
  "User_Update user now s = apfst (wrap ''updating user'') (UpdateUserByID user now s)"

definition User_Delete :: "string \<Rightarrow> time \<Rightarrow> MemoryStore \<Rightarrow> unit service_result \<times> MemoryStore" where
  "User_Delete i now s = apfst (wrap ''deleting user'') (DeleteUser i now s)"

definition User_VerifyPassword ::
  "(string \<Rightarrow> string \<Rightarrow> bool) \<Rightarrow> string \<Rightarrow> string \<Rightarrow> MemoryStore \<Rightarrow> User service_result" where
  "User_VerifyPassword matches username password s =
     (case not_found_or ''users.VerifyPassword'' username (GetUserByUsername username s) of
        Inl e \<Rightarrow> Inl e
      | Inr user \<Rightarrow>
          if \<not> VerifyPassword matches password (user_PasswordHash user) then Inl (TextError ''invalid password'')
          else Inr user)"

definition UpdatePassword ::
  "unicode \<Rightarrow> (string \<Rightarrow> string + string) \<Rightarrow> string \<Rightarrow> string \<Rightarrow> time \<Rightarrow> MemoryStore \<Rightarrow> unit service_result \<times> MemoryStore" where
  "UpdatePassword u bcrypt userID newPassword now s =
     (case ValidatePassword u newPassword of
        Some e \<Rightarrow> (Inl (Wrap ''password validation failed'' (PasswordError e)), s)
      | None \<Rightarrow>
          (case GetUserByID userID s of
             Inl e \<Rightarrow> (Inl (Wrap ''getting user'' (StorageError e)), s)
           | Inr user \<Rightarrow>
               (case HashPassword bcrypt newPassword of
                  Inl e \<Rightarrow> (Inl (Wrap ''hashing password'' e), s)
                | Inr hash \<Rightarrow>
                    (case UpdateUserByID (user\<lparr>user_PasswordHash := hash, user_MustChangePassword := False\<rparr>) now s of
                       (Inl e, s') \<Rightarrow> (Inl (Wrap ''updating user'' (StorageError e)), s')
                     | (Inr _, s') \<Rightarrow> (Inr (), s')))))"

definition SetTOTP :: "string \<Rightarrow> string \<Rightarrow> bool \<Rightarrow> time \<Rightarrow> MemoryStore \<Rightarrow> unit service_result \<times> MemoryStore" where
  "SetTOTP userID secret enabled now s =
     (case GetUserByID userID s of
        Inl e \<Rightarrow> (Inl (Wrap ''getting user'' (StorageError e)), s)
      | Inr user \<Rightarrow>
          (case UpdateUserByID (user\<lparr>user_TOTPSecret := secret, user_TOTPEnabled := enabled\<rparr>) now s of
             (Inl e, s') \<Rightarrow> (Inl (Wrap ''updating user TOTP'' (StorageError e)), s')
           | (Inr _, s') \<Rightarrow> (Inr (), s')))"

definition User_Count :: "MemoryStore \<Rightarrow> int" where
  "User_Count s = CountUsers s"

text \<open>The in-memory store refuses transactions, whatever they would do.\<close>

definition RunInTransaction :: "(unit \<Rightarrow> unit service_result) \<Rightarrow> MemoryStore \<Rightarrow> unit service_result \<times> MemoryStore" where
  "RunInTransaction fn s =
     (Inl (TextError ''RunInTransaction not supported on MemoryStore; use methods directly''), s)"

section \<open>API keys\<close>

definition generateAPIKey :: "random_bytes \<Rightarrow> string service_result" where
  "generateAPIKey rnd =
     (case rnd of Inl e \<Rightarrow> Inl (TextError e) | Inr b \<Rightarrow> Inr (''vcd_'' @ hex_EncodeToString b))"

definition hashAPIKey :: "(string \<Rightarrow> string) \<Rightarrow> string \<Rightarrow> string" where
  "hashAPIKey sha256 key = hex_EncodeToString (sha256 key)"

text \<open>\<open>rawKey[:8]\<close> is in range: a raw key has four characters and sixty-four digits.\<close>

definition APIKey_Create ::
  "(string \<Rightarrow> string) \<Rightarrow> string \<Rightarrow> string \<Rightarrow> string slice \<Rightarrow> time option \<Rightarrow> random_bytes \<Rightarrow> time \<Rightarrow> string \<Rightarrow> MemoryStore
     \<Rightarrow> (string \<times> APIKey) service_result \<times> MemoryStore" where
  "APIKey_Create sha256 userID name scopes expiresAt rnd now xid s =
     (case generateAPIKey rnd of
        Inl e \<Rightarrow> (Inl (Wrap ''generating API key'' e), s)
      | Inr rawKey \<Rightarrow>
          (case CreateAPIKey
                  \<lparr>apikey_ID = '''', apikey_UserID = userID, apikey_Name = name,
                   apikey_KeyHash = hashAPIKey sha256 rawKey, apikey_KeyPrefix = take 8 rawKey,
                   apikey_Scopes = Marshal (json_strings scopes), apikey_ExpiresAt = expiresAt,
                   apikey_LastUsedAt = None, apikey_CreatedAt = now\<rparr> now xid s of
             (Inl e, s') \<Rightarrow> (Inl (Wrap ''creating API key'' (StorageError e)), s')
           | (Inr key, s') \<Rightarrow> (Inr (rawKey, key), s')))"

definition APIKey_IsValid :: "time \<Rightarrow> APIKey \<Rightarrow> bool" where
  "APIKey_IsValid now key \<longleftrightarrow> \<not> (case apikey_ExpiresAt key of None \<Rightarrow> False | Some e \<Rightarrow> now > e)"

definition valid_key :: "time \<Rightarrow> APIKey result \<Rightarrow> APIKey service_result" where
  "valid_key now r =
     (case r of
        Inl e \<Rightarrow> Inl (StorageError e)
      | Inr key \<Rightarrow> if \<not> APIKey_IsValid now key then Inl (StorageError store_error.ErrNotFound) else Inr key)"

definition GetByRawKey :: "(string \<Rightarrow> string) \<Rightarrow> string \<Rightarrow> time \<Rightarrow> MemoryStore \<Rightarrow> APIKey service_result" where
  "GetByRawKey sha256 rawKey now s = valid_key now (GetAPIKeyByHash (hashAPIKey sha256 rawKey) now s)"

definition APIKey_GetByID :: "string \<Rightarrow> time \<Rightarrow> string list \<Rightarrow> MemoryStore \<Rightarrow> APIKey service_result" where
  "APIKey_GetByID keyID now ks s = valid_key now (GetAPIKeyByID keyID now ks s)"

definition APIKey_Delete :: "string \<Rightarrow> time \<Rightarrow> string list \<Rightarrow> MemoryStore \<Rightarrow> unit service_result \<times> MemoryStore" where
  "APIKey_Delete keyID now ks s = apfst unwrapped (DeleteAPIKey keyID now ks s)"

definition APIKey_List :: "string \<Rightarrow> MemoryStore \<Rightarrow> APIKey list" where
  "APIKey_List userID s = ListAPIKeys userID s"

definition UpdateUsage :: "string \<Rightarrow> time \<Rightarrow> string list \<Rightarrow> MemoryStore \<Rightarrow> unit service_result \<times> MemoryStore" where
  "UpdateUsage keyID now ks s = apfst unwrapped (UpdateAPIKeyUsage keyID now ks s)"

definition CleanupExpired :: "time \<Rightarrow> string list \<Rightarrow> MemoryStore \<Rightarrow> int service_result \<times> MemoryStore" where
  "CleanupExpired now ks s = apfst unwrapped (CleanupExpiredAPIKeys now ks s)"

text \<open>The text of the decoder's error is an argument.\<close>

definition GetScopes :: "(string \<Rightarrow> string) \<Rightarrow> APIKey \<Rightarrow> string list service_result" where
  "GetScopes json_error key =
     (if apikey_Scopes key = '''' then Inr []
      else case unmarshal_strings (apikey_Scopes key) of
             None \<Rightarrow> Inl (Wrap ''parsing scopes'' (TextError (json_error (apikey_Scopes key))))
           | Some scopes \<Rightarrow> Inr scopes)"

section \<open>Errors are recognised\<close>

lemma error_kinds:
  "IsNotFound (NotFound op res i)" "\<not> IsDuplicate (NotFound op res i)"
  "IsDuplicate (Duplicate op res i)" "\<not> IsNotFound (Duplicate op res i)"
  "IsInvalidInput (InvalidInput op msg)" "IsInvalidInput (NewInputError msg field)"
  "IsUnauthorized (Unauthorized op msg)" "\<not> IsForbidden (Unauthorized op msg)"
  "IsForbidden (Forbidden op msg)" "\<not> IsUnauthorized (Forbidden op msg)"
  "IsConflict (Conflict op res i)" "IsInternal (Internal op err)"
  "IsNotFound (Internal op err) = IsNotFound err"
  "IsNotFound (Wrap t err) = IsNotFound err"
  by (simp_all add: IsNotFound_def IsDuplicate_def IsInvalidInput_def IsUnauthorized_def IsForbidden_def IsConflict_def
      IsInternal_def errors_Is_def NotFound_def Duplicate_def InvalidInput_def NewInputError_def Unauthorized_def
      Forbidden_def Conflict_def Internal_def)

text \<open>The helper for duplicates does not know the store's own error, so a failed creation is not seen as one.\<close>

lemma IsDuplicate_misses_storage:
  "usersByName s username = Some old \<Longrightarrow> ValidatePassword u password = None \<Longrightarrow> bcrypt password = Inr hash \<Longrightarrow>
     \<exists>e. fst (User_Create u bcrypt username password email role opts now xid s) = Inl e \<and> \<not> IsDuplicate e"
  by (simp add: User_Create_def HashPassword_def CreateUser_def IsDuplicate_def errors_Is_def Let_def)

lemma IsNotFound_StorageError [simp]: "IsNotFound (StorageError e) \<longleftrightarrow> e = store_error.ErrNotFound"
  by (auto simp: IsNotFound_def errors_Is_def)

section \<open>Sessions\<close>

lemma hex_EncodeToString_eq_Nil [simp]: "hex_EncodeToString b = '''' \<longleftrightarrow> b = ''''"
  by (cases b) (simp_all add: hex_EncodeToString_def)

lemma Session_Create_ok:
  assumes "b \<noteq> ''''"
  shows "\<exists>ses s'. Session_Create userID ip ua d (Inr b) now s = (Inr ses, s') \<and> session_Token ses = hex_EncodeToString b
    \<and> session_ID ses = session_Token ses \<and> session_UserID ses = userID \<and> session_ExpiresAt ses = now + d
    \<and> session_IPAddress ses = ip
    \<and> sessions s' = (sessions s)(hex_EncodeToString b \<mapsto> ses) \<and> users s' = users s \<and> usersByName s' = usersByName s
    \<and> apiKeys s' = apiKeys s \<and> apiKeyObjs s' = apiKeyObjs s"
  using assms by (simp add: Session_Create_def generateToken_def CreateSession_def Let_def)

lemma GetByToken_cong: "sessions s' t = sessions s t \<Longrightarrow> GetByToken t now s' = GetByToken t now s"
  by (simp add: GetByToken_def GetSessionByToken_def)

section \<open>Users\<close>

lemma GetUserByUsername_cong: "usersByName s' n = usersByName s n \<Longrightarrow> GetUserByUsername n s' = GetUserByUsername n s"
  by (simp add: GetUserByUsername_def)

lemma User_VerifyPassword_cong:
  "usersByName s' n = usersByName s n \<Longrightarrow> User_VerifyPassword m n p s' = User_VerifyPassword m n p s"
  by (simp add: User_VerifyPassword_def GetUserByUsername_def)

lemma UpdatePassword_Inr:
  assumes wf: "users_wf s" and ok: "UpdatePassword u bcrypt uid pw now s = (Inr (), s')"
  obtains user hash where "users s uid = Some user" "bcrypt pw = Inr hash" "ValidatePassword u pw = None"
    "user_ID user = uid"
    "users s' = (users s)(uid \<mapsto> user\<lparr>user_PasswordHash := hash, user_MustChangePassword := False, user_UpdatedAt := now\<rparr>)"
    "usersByName s' = (usersByName s)(user_Username user \<mapsto>
       user\<lparr>user_PasswordHash := hash, user_MustChangePassword := False, user_UpdatedAt := now\<rparr>)"
    "sessions s' = sessions s" "apiKeys s' = apiKeys s"
proof -
  from ok obtain user hash where u: "users s uid = Some user" and h: "bcrypt pw = Inr hash" "ValidatePassword u pw = None"
    by (auto simp: UpdatePassword_def GetUserByID_def HashPassword_def split: option.splits sum.splits)
  from wf u have i: "user_ID user = uid" by (simp add: users_wf_def dual_indexed_def)
  have s': "s' = snd (UpdatePassword u bcrypt uid pw now s)" using ok by simp
  show thesis
    by (rule that [OF u h i])
      (simp_all add: s' UpdatePassword_def GetUserByID_def HashPassword_def UpdateUserByID_def Let_def u h i)
qed

text \<open>A successful change of a password (\<open>users.UpdatePassword\<close>) means that the password satisfies the rules, that
  the user may log in with it and no longer has to change it, that the user's other data is as before, and that
  no other name's password check changes.\<close>

theorem UpdatePassword_effect:
  assumes "users_wf s" and "bcrypt_lawful bcrypt matches"
    and ok: "UpdatePassword u bcrypt uid pw now s = (Inr (), s')"
  shows "\<exists>user hash. GetUserByID uid s = Inr user \<and> ValidatePassword u pw = None
    \<and> User_VerifyPassword matches (user_Username user) pw s'
        = Inr (user\<lparr>user_PasswordHash := hash, user_MustChangePassword := False, user_UpdatedAt := now\<rparr>)
    \<and> (\<forall>n p. n \<noteq> user_Username user \<longrightarrow> User_VerifyPassword matches n p s' = User_VerifyPassword matches n p s)
    \<and> (\<forall>i. i \<noteq> uid \<longrightarrow> GetUserByID i s' = GetUserByID i s)"
proof -
  from UpdatePassword_Inr [OF assms(1) ok] obtain user hash where a: "users s uid = Some user" "bcrypt pw = Inr hash"
      "ValidatePassword u pw = None"
      "users s' = (users s)(uid \<mapsto> user\<lparr>user_PasswordHash := hash, user_MustChangePassword := False, user_UpdatedAt := now\<rparr>)"
      "usersByName s' = (usersByName s)(user_Username user \<mapsto>
         user\<lparr>user_PasswordHash := hash, user_MustChangePassword := False, user_UpdatedAt := now\<rparr>)"
    by metis
  have "matches hash pw" using assms(2) a(2) by (simp add: bcrypt_lawful_def)
  then show ?thesis
    by (intro exI [of _ user] exI [of _ hash])
      (simp add: a GetUserByID_def User_VerifyPassword_def GetUserByUsername_def not_found_or_def VerifyPassword_def)
qed

definition ascii_unicode :: unicode where
  "ascii_unicode = \<lparr>IsUpper = \<lambda>r. 65 \<le> r \<and> r \<le> 90, IsLower = \<lambda>r. 97 \<le> r \<and> r \<le> 122, IsDigit = \<lambda>r. 48 \<le> r \<and> r \<le> 57\<rparr>"

definition wit_user :: User where
  "wit_user = \<lparr>user_ID = ''u1'', user_Username = ''ann'', user_PasswordHash = ''#old'', user_Email = '''',
     user_Role = ''admin'', user_TOTPSecret = '''', user_TOTPEnabled = False, user_MustChangePassword = True,
     user_CreatedAt = 1, user_UpdatedAt = 1\<rparr>"

definition wit_accounts :: MemoryStore where
  "wit_accounts = NewMemoryStore\<lparr>users := [''u1'' \<mapsto> wit_user], usersByName := [''ann'' \<mapsto> wit_user]\<rparr>"

lemma wit_accounts_wf: "users_wf wit_accounts"
  by (simp add: users_wf_def dual_indexed_def wit_accounts_def wit_user_def)

lemma wit_password: "ValidatePassword ascii_unicode ''Correct-Horse-9'' = None"
  by (simp add: ValidatePassword_def MinPasswordLength_def runes.simps rune_at_def note_char_def ascii_unicode_def
      isSpecialChar_def)

theorem UpdatePassword_effect_witness:
  "\<exists>s' user'. UpdatePassword ascii_unicode (\<lambda>p. Inr (CHR ''#'' # p)) ''u1'' ''Correct-Horse-9'' 5 wit_accounts = (Inr (), s')
     \<and> User_VerifyPassword (\<lambda>h p. h = CHR ''#'' # p) ''ann'' ''Correct-Horse-9'' s' = Inr user'
     \<and> \<not> user_MustChangePassword user'"
proof -
  have ok: "\<exists>s'. UpdatePassword ascii_unicode (\<lambda>p. Inr (CHR ''#'' # p)) ''u1'' ''Correct-Horse-9'' 5 wit_accounts = (Inr (), s')"
    by (simp add: UpdatePassword_def wit_password HashPassword_def GetUserByID_def wit_accounts_def wit_user_def
        UpdateUserByID_def Let_def)
  then obtain s' where s': "UpdatePassword ascii_unicode (\<lambda>p. Inr (CHR ''#'' # p)) ''u1'' ''Correct-Horse-9'' 5 wit_accounts
      = (Inr (), s')" by blast
  have g: "GetUserByID ''u1'' wit_accounts = Inr wit_user"
    by (simp add: GetUserByID_def wit_accounts_def)
  have l: "bcrypt_lawful (\<lambda>p. Inr (CHR ''#'' # p)) (\<lambda>h p. h = CHR ''#'' # p)" by (simp add: bcrypt_lawful_def)
  from UpdatePassword_effect [OF wit_accounts_wf l s'] g show ?thesis
    using s' by (fastforce simp: wit_user_def)
qed

text \<open>A created user may log in with the password it was created with, and with no other name.\<close>

lemma User_Create_login:
  assumes "bcrypt_lawful bcrypt matches"
    and ok: "User_Create u bcrypt username pw email role opts now xid s = (Inr user, s')"
  shows "User_VerifyPassword matches username pw s' = Inr user"
    and "user_Role user = (if role = '''' then ''user'' else role)" and "\<not> user_MustChangePassword user"
    and "ValidatePassword u pw = None" and "GetUserByUsername username s = Inl store_error.ErrNotFound"
    and "n \<noteq> username \<Longrightarrow> User_VerifyPassword matches n p s' = User_VerifyPassword matches n p s"
proof -
  from ok have v: "ValidatePassword u pw = None"
    by (auto simp: User_Create_def Let_def split: option.splits)
  from ok v obtain hash where h: "bcrypt pw = Inr hash"
    by (auto simp: User_Create_def HashPassword_def Let_def split: sum.splits)
  from ok v h have n: "usersByName s username = None"
    by (auto simp: User_Create_def HashPassword_def CreateUser_def Let_def split: if_splits)
  note d = User_Create_def HashPassword_def CreateUser_def Let_def v h n
  have s': "s' = snd (User_Create u bcrypt username pw email role opts now xid s)" using ok by simp
  have user: "Inr user = fst (User_Create u bcrypt username pw email role opts now xid s)" using ok by simp
  have m: "matches hash pw" using assms(1) h by (simp add: bcrypt_lawful_def)
  show "ValidatePassword u pw = None" by (fact v)
  show "GetUserByUsername username s = Inl store_error.ErrNotFound" by (simp add: GetUserByUsername_def n)
  show "User_VerifyPassword matches username pw s' = Inr user" unfolding s' user
    by (simp add: d m User_VerifyPassword_def GetUserByUsername_def not_found_or_def VerifyPassword_def)
  show "user_Role user = (if role = '''' then ''user'' else role)" using user by (simp add: d)
  show "\<not> user_MustChangePassword user" using user by (simp add: d)
  show "n \<noteq> username \<Longrightarrow> User_VerifyPassword matches n p s' = User_VerifyPassword matches n p s"
    by (rule User_VerifyPassword_cong) (simp add: s' d)
qed

section \<open>API keys\<close>

lemma APIKey_IsValid_expired: "APIKey_IsValid now key \<longleftrightarrow> \<not> api_key_expired now key"
  by (simp add: APIKey_IsValid_def api_key_expired_def split: option.splits)

lemma valid_key_simps [simp]:
  "valid_key now (Inl e) = Inl (StorageError e)"
  "valid_key now (Inr key) = (if api_key_expired now key then Inl (StorageError store_error.ErrNotFound) else Inr key)"
  by (simp_all add: valid_key_def APIKey_IsValid_expired)

definition stored_key :: "string \<Rightarrow> MemoryStore \<Rightarrow> APIKey option" where
  "stored_key h s = Option.bind (apiKeys s h) (load (apiKeyObjs s))"

lemma GetByRawKey_stored:
  "GetByRawKey sha256 raw now s =
     (case stored_key (hashAPIKey sha256 raw) s of
        None \<Rightarrow> Inl (StorageError store_error.ErrNotFound)
      | Some key \<Rightarrow> if api_key_expired now key then Inl (StorageError store_error.ErrNotFound) else Inr key)"
  by (simp add: GetByRawKey_def GetAPIKeyByHash_def stored_key_def split: option.split)

lemma APIKey_Create_Inr:
  assumes wf: "keys_wf s" and ok: "APIKey_Create sha256 userID name scopes expiresAt rnd now xid s = (Inr (raw, key), s')"
  shows "generateAPIKey rnd = Inr raw" and "apikey_KeyHash key = hashAPIKey sha256 raw" and "apikey_UserID key = userID"
    and "apikey_Name key = name" and "apikey_ExpiresAt key = expiresAt" and "apikey_ID key = xid"
    and "apikey_Scopes key = Marshal (json_strings scopes)" and "stored_key (hashAPIKey sha256 raw) s = None"
    and "stored_key h s' = (if h = hashAPIKey sha256 raw then Some key else stored_key h s)"
    and "users s' = users s" and "sessions s' = sessions s"
proof -
  from ok have g: "generateAPIKey rnd = Inr raw"
    by (auto simp: APIKey_Create_def split: sum.splits prod.splits)
  let ?h = "hashAPIKey sha256 raw"
  from ok g have n: "?h \<noteq> ''''" "apiKeys s ?h = None"
    by (auto simp: APIKey_Create_def CreateAPIKey_def Let_def split: if_splits prod.splits)
  have s': "s' = snd (APIKey_Create sha256 userID name scopes expiresAt rnd now xid s)" using ok by simp
  have key: "Inr (raw, key) = fst (APIKey_Create sha256 userID name scopes expiresAt rnd now xid s)" using ok by simp
  note d = APIKey_Create_def CreateAPIKey_def Let_def g n new_obj_def
  show "generateAPIKey rnd = Inr raw" by (fact g)
  show "apikey_KeyHash key = ?h" "apikey_UserID key = userID" "apikey_Name key = name" "apikey_ExpiresAt key = expiresAt"
    "apikey_ID key = xid" "apikey_Scopes key = Marshal (json_strings scopes)"
    using key by (simp_all add: d)
  show "users s' = users s" "sessions s' = sessions s" by (simp_all add: s' d)
  show "stored_key ?h s = None" by (simp add: stored_key_def n)
  have "apiKeys s h = Some r \<Longrightarrow> r < length (apiKeyObjs s)" for r
    using wf by (auto simp: keys_wf_def key_indexed_def load_def split: if_splits)
  then show "stored_key h s' = (if h = ?h then Some key else stored_key h s)"
    using key by (cases "apiKeys s h") (simp_all add: stored_key_def s' d load_def nth_append)
qed

text \<open>C13: An API key that was just created (\<open>apikeys.Create\<close>) is found under the raw key that was handed out
  until it expires, belongs to the user and has the scopes it was created with; every other raw key (one with
  another SHA-256 hash) is found or refused as before.\<close>

theorem APIKey_Create_GetByRawKey:
  assumes wf: "keys_wf s" and ok: "APIKey_Create sha256 userID name scopes expiresAt rnd now xid s = (Inr (raw, key), s')"
    and scopes: "list_all ascii (elems scopes)"
  shows "GetByRawKey sha256 raw now' s' =
           (if \<exists>e. expiresAt = Some e \<and> now' > e then Inl (StorageError store_error.ErrNotFound) else Inr key)
    \<and> apikey_UserID key = userID \<and> GetScopes json_error key = Inr (elems scopes)
    \<and> (\<forall>raw'. hashAPIKey sha256 raw' \<noteq> hashAPIKey sha256 raw \<longrightarrow>
          GetByRawKey sha256 raw' now' s' = GetByRawKey sha256 raw' now' s)"
proof -
  note k = APIKey_Create_Inr [OF wf ok]
  have exp: "api_key_expired now' key \<longleftrightarrow> (\<exists>e. expiresAt = Some e \<and> now' > e)"
    by (auto simp: api_key_expired_def k(5) split: option.splits)
  have "Marshal (json_strings scopes) \<noteq> []" by (simp add: json_strings_def split: option.split)
  then have "GetScopes json_error key = Inr (elems scopes)"
    by (simp add: GetScopes_def k(7) unmarshal_Marshal [OF scopes])
  then show ?thesis by (simp add: GetByRawKey_stored k(3) k(9) exp)
qed

lemma NewMemoryStore_keys: "keys_wf NewMemoryStore"
  by (simp add: keys_wf_def key_indexed_def key_listed_def key_ids_unique_def keys_of_user_def NewMemoryStore_def)

theorem APIKey_Create_GetByRawKey_witness:
  "\<exists>raw key s'. APIKey_Create id ''u1'' ''ci'' (Some [''read'', ''write'']) (Some 100) (Inr ''0123'') 5 ''k1'' NewMemoryStore
       = (Inr (raw, key), s')
     \<and> GetByRawKey id raw 100 s' = Inr key \<and> GetByRawKey id raw 101 s' = Inl (StorageError store_error.ErrNotFound)
     \<and> GetScopes (\<lambda>_. []) key = Inr [''read'', ''write'']"
proof -
  have "\<exists>raw key s'. APIKey_Create id ''u1'' ''ci'' (Some [''read'', ''write'']) (Some 100) (Inr ''0123'') 5 ''k1'' NewMemoryStore
       = (Inr (raw, key), s')"
    by (simp add: APIKey_Create_def generateAPIKey_def CreateAPIKey_def NewMemoryStore_def hashAPIKey_def Let_def new_obj_def)
  then obtain raw key s' where
    ok: "APIKey_Create id ''u1'' ''ci'' (Some [''read'', ''write'']) (Some 100) (Inr ''0123'') 5 ''k1'' NewMemoryStore
       = (Inr (raw, key), s')" by blast
  have sc: "list_all ascii (elems (Some [''read'', ''write'']))" by (simp add: ascii_def)
  note t = APIKey_Create_GetByRawKey [OF NewMemoryStore_keys ok sc]
  from t [of 100 "\<lambda>_. []"] t [of 101 "\<lambda>_. []"] show ?thesis using ok by auto
qed

end
