(* ===== verification/Base64.thy ===== *)
theory Base64
  imports Prelude
begin

text \<open>
  \<open>base64.StdEncoding\<close> of the Go library as the code uses it: \<open>EncodeToString\<close>, and \<open>DecodeString\<close> with its
  rules (carriage returns and newlines are skipped, padding is required and must end the input, the unused
  bits of the last character are not checked). Byte strings are lists of characters. Shown: decoding an
  encoded string gives it back, and encoded strings contain only the alphabet and the padding.
\<close>

definition b64_alphabet :: string where
  "b64_alphabet = ''ABCDEFGHIJKLMNOPQRSTUVWXYZabcdefghijklmnopqrstuvwxyz0123456789+/''"

definition b64_char :: "nat \<Rightarrow> char" where
  "b64_char n = b64_alphabet ! n"

fun position :: "'a \<Rightarrow> 'a list \<Rightarrow> nat option" where
  "position x [] = None"
| "position x (y # ys) = (if x = y then Some 0 else map_option Suc (position x ys))"

definition b64_val :: "char \<Rightarrow> nat option" where
  "b64_val c = position c b64_alphabet"

definition byte :: "nat \<Rightarrow> char" where
  "byte n = char_of (n mod 256)"

definition quad :: "nat \<Rightarrow> nat \<times> nat \<times> nat \<times> nat" where
  "quad n = (n div 262144, n div 4096 mod 64, n div 64 mod 64, n mod 64)"

fun EncodeToString :: "string \<Rightarrow> string" where
  "EncodeToString [] = []"
| "EncodeToString [a] =
     (case quad (of_char a * 65536) of (p, q, r, t) \<Rightarrow> [b64_char p, b64_char q, CHR ''='', CHR ''=''])"
| "EncodeToString [a, b] =
     (case quad (of_char a * 65536 + of_char b * 256) of (p, q, r, t) \<Rightarrow> [b64_char p, b64_char q, b64_char r, CHR ''=''])"
| "EncodeToString (a # b # c # rest) =
     (case quad (of_char a * 65536 + of_char b * 256 + of_char c) of (p, q, r, t) \<Rightarrow>
        b64_char p # b64_char q # b64_char r # b64_char t # EncodeToString rest)"

definition join4 :: "nat \<Rightarrow> nat \<Rightarrow> nat \<Rightarrow> nat \<Rightarrow> nat" where
  "join4 p q r t = p * 262144 + q * 4096 + r * 64 + t"

text \<open>The quanta of four characters; padding is accepted in the last one only.\<close>

fun decode_quanta :: "string \<Rightarrow> string option" where
  "decode_quanta [] = Some []"
| "decode_quanta (c1 # c2 # c3 # c4 # rest) =
     (case (b64_val c1, b64_val c2) of
        (Some p, Some q) \<Rightarrow>
          (if c3 = CHR ''='' then
             (if c4 = CHR ''='' \<and> rest = [] then Some [byte (join4 p q 0 0 div 65536)] else None)
           else
             (case b64_val c3 of
                None \<Rightarrow> None
              | Some r \<Rightarrow>
                  if c4 = CHR ''='' then
                    (if rest = [] then Some [byte (join4 p q r 0 div 65536), byte (join4 p q r 0 div 256)] else None)
                  else
                    (case b64_val c4 of
                       None \<Rightarrow> None
                     | Some t \<Rightarrow>
                         map_option (\<lambda>bs. byte (join4 p q r t div 65536) # byte (join4 p q r t div 256) # byte (join4 p q r t) # bs)
                           (decode_quanta rest))))
      | _ \<Rightarrow> None)"
| "decode_quanta _ = None"

definition DecodeString :: "string \<Rightarrow> string option" where
  "DecodeString s = decode_quanta (filter (\<lambda>c. c \<noteq> CHR 0x0D \<and> c \<noteq> CHR 0x0A) s)"

section \<open>The alphabet\<close>

lemma position_nth: "distinct xs \<Longrightarrow> i < length xs \<Longrightarrow> position (xs ! i) xs = Some i"
proof (induction xs arbitrary: i)
  case (Cons x xs)
  then show ?case by (cases i) auto
qed simp

lemma alphabet_facts: "distinct b64_alphabet" "length b64_alphabet = 64" "set b64_alphabet \<inter> {CHR ''='', CHR '':'', CHR 0x0D, CHR 0x0A} = {}"
  by (simp_all add: b64_alphabet_def)

lemma b64_val_char [simp]: "n < 64 \<Longrightarrow> b64_val (b64_char n) = Some n"
  using alphabet_facts(1,2) by (simp add: b64_val_def b64_char_def position_nth)

lemma b64_char_mem: "n < 64 \<Longrightarrow> b64_char n \<in> set b64_alphabet"
  using alphabet_facts(2) by (simp add: b64_char_def)

lemma b64_char_plain [simp]:
  assumes "n < 64"
  shows "b64_char n \<noteq> CHR ''=''" "b64_char n \<noteq> CHR '':''" "b64_char n \<noteq> CHR 0x0D" "b64_char n \<noteq> CHR 0x0A"
  using b64_char_mem [OF assms] alphabet_facts(3) by auto

section \<open>Round trip\<close>

lemma quad_bounds:
  assumes "n < 16777216" and "quad n = (p, q, r, t)"
  shows "p < 64" "q < 64" "r < 64" "t < 64"
  using assms by (auto simp: quad_def)

lemma join_quad:
  assumes "quad n = (p, q, r, t)"
  shows "join4 p q r t = n"
proof -
  have "n div 4096 = n div 64 div 64" "n div 262144 = n div 4096 div 64" by (simp_all flip: div_mult2_eq)
  then show ?thesis
    using assms div_mult_mod_eq [of n 64] div_mult_mod_eq [of "n div 64" 64] div_mult_mod_eq [of "n div 4096" 64]
    unfolding quad_def join4_def by (elim Pair_inject) linarith
qed

lemma byte_of_char [simp]: "byte (of_char c) = c"
  by (simp add: byte_def)

lemma three_bytes:
  fixes a b c :: nat
  assumes "a < 256" and "b < 256" and "c < 256"
  shows "(a * 65536 + b * 256 + c) div 65536 = a"
    and "(a * 65536 + b * 256 + c) div 256 = a * 256 + b"
    and "a * 65536 + b * 256 + c < 16777216"
  using assms by simp_all

lemma byte_mod: "byte (x * 256 + of_char c) = c" "byte (x * 65536 + y * 256 + of_char c) = c"
proof -
  show one: "byte (x * 256 + of_char c) = c" for x by (simp add: byte_def)
  show "byte (x * 65536 + y * 256 + of_char c) = c" using one [of "x * 256 + y"] by (simp add: algebra_simps)
qed

lemma byte_mod_left: "byte (256 * x + of_char c) = c"
  using byte_mod(1) [of x c] by (simp add: mult.commute)

lemma of_char_lt [simp]: "(of_char c :: nat) < 256"
  using nat_of_char_less_256 by simp

theorem decode_EncodeToString: "decode_quanta (EncodeToString s) = Some s"
proof (induction s rule: EncodeToString.induct)
  case (2 a)
  obtain p q r t where Q: "quad (of_char a * 65536) = (p, q, r, t)" by (metis prod_cases4)
  note b = quad_bounds [OF _ Q] and j = join_quad [OF Q]
  have "r = 0" "t = 0" using Q by (auto simp: quad_def)
  with Q b j three_bytes(1) [of "of_char a" 0 0] show ?case by simp
next
  case (3 a b)
  obtain p q r t where Q: "quad (of_char a * 65536 + of_char b * 256) = (p, q, r, t)" by (metis prod_cases4)
  note bd = quad_bounds [OF _ Q] and j = join_quad [OF Q]
  have "t = 0" using Q by (auto simp: quad_def)
  with Q bd j three_bytes [of "of_char a" "of_char b" 0] show ?case by (simp add: byte_mod byte_mod_left)
next
  case (4 a b c rest)
  obtain p q r t where Q: "quad (of_char a * 65536 + of_char b * 256 + of_char c) = (p, q, r, t)" by (metis prod_cases4)
  note bd = quad_bounds [OF _ Q] and j = join_quad [OF Q]
  from Q bd j three_bytes [of "of_char a" "of_char b" "of_char c"] 4 show ?case by (simp add: byte_mod byte_mod_left)
qed simp

lemma set_EncodeToString: "set (EncodeToString s) \<subseteq> insert (CHR ''='') (set b64_alphabet)"
proof (induction s rule: EncodeToString.induct)
  case (2 a)
  obtain p q r t where Q: "quad (of_char a * 65536) = (p, q, r, t)" by (metis prod_cases4)
  from Q quad_bounds [OF _ Q] three_bytes(3) [of "of_char a" 0 0] show ?case by (simp add: b64_char_mem)
next
  case (3 a b)
  obtain p q r t where Q: "quad (of_char a * 65536 + of_char b * 256) = (p, q, r, t)" by (metis prod_cases4)
  from Q quad_bounds [OF _ Q] three_bytes(3) [of "of_char a" "of_char b" 0] show ?case by (simp add: b64_char_mem)
next
  case (4 a b c rest)
  obtain p q r t where Q: "quad (of_char a * 65536 + of_char b * 256 + of_char c) = (p, q, r, t)" by (metis prod_cases4)
  from Q quad_bounds [OF _ Q] three_bytes(3) [of "of_char a" "of_char b" "of_char c"] 4 show ?case
    by (simp add: b64_char_mem)
qed simp

lemma EncodeToString_plain:
  "CHR '':'' \<notin> set (EncodeToString s)" "CHR 0x0D \<notin> set (EncodeToString s)" "CHR 0x0A \<notin> set (EncodeToString s)"
  using set_EncodeToString [of s] alphabet_facts(3) by auto

theorem DecodeString_EncodeToString [simp]: "DecodeString (EncodeToString s) = Some s"
proof -
  have "filter (\<lambda>c. c \<noteq> CHR 0x0D \<and> c \<noteq> CHR 0x0A) (EncodeToString s) = EncodeToString s"
    using EncodeToString_plain [of s] by (auto simp: filter_id_conv)
  then show ?thesis by (simp add: DecodeString_def decode_EncodeToString)
qed

end
