(* ===== verification/Crypto_Core.thy ===== *)
theory Crypto_Core
  imports Base64 Safe_Path Go_Json
begin

text \<open>
  \<open>internal/security/crypto.go\<close> and \<open>config_encryption.go\<close>: the master key and how it is loaded, encryption
  under the master key, under a passphrase and of configuration values.

  AES-GCM, Argon2, HKDF and SHA-256 are parameters. A cipher is a pair of functions on key, nonce and text;
  \<open>aead_lawful\<close> is the documented contract, that opening a sealed text gives it back. What \<open>crypto/rand\<close>
  yields is an argument, an error or the bytes. Errors are their texts, without the position in the text of
  a base64 error. The check of the nonce length in \<open>gcm.Open\<close> is a panic (\<open>None\<close>); where the nonce is cut off
  at the right length that branch is dead.
\<close>

section \<open>AES-GCM\<close>

record aead =
  Seal :: "string \<Rightarrow> string \<Rightarrow> string \<Rightarrow> string"
  Open :: "string \<Rightarrow> string \<Rightarrow> string \<Rightarrow> string option"

definition key_size_ok :: "string \<Rightarrow> bool" where
  "key_size_ok key \<longleftrightarrow> length key \<in> {16, 24, 32}"

definition aead_lawful :: "aead \<Rightarrow> bool" where
  "aead_lawful c \<longleftrightarrow>
     (\<forall>key nonce p. key_size_ok key \<longrightarrow> length nonce = 12 \<longrightarrow> Open c key nonce (Seal c key nonce p) = Some p)"

text \<open>\<open>aes.NewCipher\<close> refuses keys of other sizes; \<open>cipher.NewGCM\<close> accepts every AES block.\<close>

definition NewCipher :: "string \<Rightarrow> string + string" where
  "NewCipher key =
     (if key_size_ok key then Inr key else Inl (''crypto/aes: invalid key size '' @ Itoa (int (length key))))"

definition NonceSize :: nat where
  "NonceSize = 12"

definition gcm_Open :: "aead \<Rightarrow> string \<Rightarrow> string \<Rightarrow> string \<Rightarrow> (string + string) option" where
  "gcm_Open c key nonce ciphertext =
     (if length nonce \<noteq> NonceSize then None
      else Some (case Open c key nonce ciphertext of
                   None \<Rightarrow> Inl ''cipher: message authentication failed'' | Some p \<Rightarrow> Inr p))"

type_synonym random = "string + string"

section \<open>The contract of an encryption\<close>

text \<open>Encryption under a key with fresh randomness: it succeeds, and decryption under the same key gives
  the text back.\<close>

locale sealed_box =
  fixes ok :: "'k \<Rightarrow> bool"
    and fresh :: "'r \<Rightarrow> bool"
    and enc :: "'k \<Rightarrow> 'r \<Rightarrow> string \<Rightarrow> string + string"
    and dec :: "'k \<Rightarrow> string \<Rightarrow> string + string"
  assumes enc_total: "ok k \<Longrightarrow> fresh r \<Longrightarrow> \<exists>c. enc k r p = Inr c"
    and dec_enc: "ok k \<Longrightarrow> fresh r \<Longrightarrow> enc k r p = Inr c \<Longrightarrow> dec k c = Inr p"
begin

text \<open>A ciphertext determines the text.\<close>

lemma enc_determines:
  assumes "ok k" and "fresh r" and "fresh r'" and "enc k r p = Inr c" and "enc k r' p' = Inr c"
  shows "p = p'"
  using dec_enc [OF assms(1,2,4)] dec_enc [OF assms(1,3,5)] by simp

lemma seal_then_open:
  assumes "ok k" and "fresh r"
  obtains c where "enc k r p = Inr c" and "dec k c = Inr p"
  using enc_total [OF assms] dec_enc [OF assms] by blast

end

section \<open>The master key\<close>

record MasterKey =
  mk_key :: string
  mk_keyID :: string

definition hashKeyID :: "(string \<Rightarrow> string) \<Rightarrow> string \<Rightarrow> string" where
  "hashKeyID sha256 key = EncodeToString (take 8 (sha256 key))"

definition new_master :: "(string \<Rightarrow> string) \<Rightarrow> string \<Rightarrow> MasterKey" where
  "new_master sha256 key = \<lparr>mk_key = key, mk_keyID = hashKeyID sha256 key\<rparr>"

definition MasterKey_Encrypt :: "aead \<Rightarrow> MasterKey \<Rightarrow> random \<Rightarrow> string \<Rightarrow> string + string" where
  "MasterKey_Encrypt c k rnd plaintext =
     (case NewCipher (mk_key k) of
        Inl e \<Rightarrow> Inl (''creating cipher: '' @ e)
      | Inr key \<Rightarrow>
          (case rnd of
             Inl e \<Rightarrow> Inl (''generating nonce: '' @ e)
           | Inr nonce \<Rightarrow> Inr (nonce @ Seal c key nonce plaintext)))"

definition MasterKey_Decrypt :: "aead \<Rightarrow> MasterKey \<Rightarrow> string \<Rightarrow> string + string" where
  "MasterKey_Decrypt c k ciphertext =
     (case NewCipher (mk_key k) of
        Inl e \<Rightarrow> Inl (''creating cipher: '' @ e)
      | Inr key \<Rightarrow>
          if length ciphertext < NonceSize then Inl ''ciphertext too short''
          else
            (case gcm_Open c key (take NonceSize ciphertext) (drop NonceSize ciphertext) of
               None \<Rightarrow> Inl ''unreachable: the nonce has the right length''
             | Some (Inl e) \<Rightarrow> Inl (''decrypting: '' @ e)
             | Some (Inr p) \<Rightarrow> Inr p))"

definition nonce_bytes :: "random \<Rightarrow> bool" where
  "nonce_bytes r \<longleftrightarrow> (case r of Inl _ \<Rightarrow> False | Inr b \<Rightarrow> length b = NonceSize)"

lemma nonce_bytesE: "nonce_bytes r \<Longrightarrow> (\<And>b. r = Inr b \<Longrightarrow> length b = NonceSize \<Longrightarrow> P) \<Longrightarrow> P"
  by (auto simp: nonce_bytes_def split: sum.splits)

lemma gcm_Open_Seal:
  "aead_lawful c \<Longrightarrow> key_size_ok key \<Longrightarrow> length nonce = NonceSize \<Longrightarrow>
     gcm_Open c key nonce (Seal c key nonce p) = Some (Inr p)"
  by (simp add: gcm_Open_def aead_lawful_def NonceSize_def)

lemma gcm_Open_no_panic: "length nonce = NonceSize \<Longrightarrow> gcm_Open c key nonce ct \<noteq> None"
  by (simp add: gcm_Open_def)

interpretation master_box: sealed_box
  "\<lambda>(c, k). aead_lawful c \<and> key_size_ok (mk_key k)" nonce_bytes
  "\<lambda>(c, k). MasterKey_Encrypt c k" "\<lambda>(c, k). MasterKey_Decrypt c k"
  by unfold_locales
    (auto simp: MasterKey_Encrypt_def MasterKey_Decrypt_def NewCipher_def gcm_Open_Seal elim!: nonce_bytesE)

subsection \<open>Loading and generating the master key\<close>

text \<open>What the code sees outside itself: the variable \<open>VCDEPLOY_MASTER_KEY\<close> (empty when unset), the files,
  which of them cannot be read, and whether making the directory and writing fail.\<close>

record key_world =
  kw_env :: string
  kw_files :: "string \<rightharpoonup> string"
  kw_unreadable :: "string \<Rightarrow> string option"
  kw_mkdir :: "string option"
  kw_write :: "string option"

definition checked_key :: "(string \<Rightarrow> string) \<Rightarrow> string \<Rightarrow> string \<Rightarrow> string + MasterKey" where
  "checked_key sha256 what text =
     (case DecodeString text of
        None \<Rightarrow> Inl (what @ '': illegal base64 data'')
      | Some key \<Rightarrow>
          if length key \<noteq> 32 then Inl ''master key must be 32 bytes'' else Inr (new_master sha256 key))"

definition LoadMasterKey :: "(string \<Rightarrow> string) \<Rightarrow> string \<Rightarrow> key_world \<Rightarrow> string + MasterKey" where
  "LoadMasterKey sha256 keyPath w =
     (if kw_env w \<noteq> '''' then checked_key sha256 ''invalid VCDEPLOY_MASTER_KEY'' (kw_env w)
      else
        (case kw_unreadable w keyPath of
           Some e \<Rightarrow> Inl (''reading master key: '' @ e)
         | None \<Rightarrow>
             (case kw_files w keyPath of
                None \<Rightarrow> Inl (''master key not found at '' @ keyPath @ '' (run 'vcdeploy init' to generate)'')
              | Some data \<Rightarrow> checked_key sha256 ''invalid master key format'' data)))"

definition GenerateMasterKey :: "(string \<Rightarrow> string) \<Rightarrow> random \<Rightarrow> string + MasterKey" where
  "GenerateMasterKey sha256 rnd =
     (case rnd of Inl e \<Rightarrow> Inl (''generating random key: '' @ e) | Inr key \<Rightarrow> Inr (new_master sha256 key))"

definition SaveToFile :: "MasterKey \<Rightarrow> string \<Rightarrow> key_world \<Rightarrow> string option \<times> key_world" where
  "SaveToFile k path w =
     (case kw_write w of
        Some e \<Rightarrow> (Some (''writing master key: '' @ e), w)
      | None \<Rightarrow> (None, w\<lparr>kw_files := (kw_files w)(path \<mapsto> EncodeToString (mk_key k))\<rparr>))"

definition LoadOrGenerateMasterKey ::
  "(string \<Rightarrow> string) \<Rightarrow> string \<Rightarrow> random \<Rightarrow> key_world \<Rightarrow> (string + MasterKey) \<times> key_world" where
  "LoadOrGenerateMasterKey sha256 dataDir rnd w =
     (let keyPath = Join2 dataDir ''master.key''
      in case LoadMasterKey sha256 keyPath w of
        Inr mk \<Rightarrow> (Inr mk, w)
      | Inl _ \<Rightarrow>
          (case GenerateMasterKey sha256 rnd of
             Inl e \<Rightarrow> (Inl (''generate master key: '' @ e), w)
           | Inr mk \<Rightarrow>
               (case kw_mkdir w of
                  Some e \<Rightarrow> (Inl (''create data directory '' @ dataDir @ '': '' @ e), w)
                | None \<Rightarrow>
                    (case SaveToFile mk keyPath w of
                       (Some e, w') \<Rightarrow> (Inl (''save master key to '' @ keyPath @ '': '' @ e), w')
                     | (None, w') \<Rightarrow> (Inr mk, w')))))"

section \<open>Passphrases\<close>

definition EncryptWithPassphrase ::
  "aead \<Rightarrow> (string \<Rightarrow> string \<Rightarrow> string) \<Rightarrow> string \<Rightarrow> random \<Rightarrow> random \<Rightarrow> string \<Rightarrow> string + string" where
  "EncryptWithPassphrase c argon2 passphrase saltRnd nonceRnd plaintext =
     (case saltRnd of
        Inl e \<Rightarrow> Inl (''generating salt: '' @ e)
      | Inr salt \<Rightarrow>
          (case NewCipher (argon2 passphrase salt) of
             Inl e \<Rightarrow> Inl (''creating cipher: '' @ e)
           | Inr key \<Rightarrow>
               (case nonceRnd of
                  Inl e \<Rightarrow> Inl (''generating nonce: '' @ e)
                | Inr nonce \<Rightarrow> Inr (salt @ nonce @ Seal c key nonce plaintext))))"

definition DecryptWithPassphrase ::
  "aead \<Rightarrow> (string \<Rightarrow> string \<Rightarrow> string) \<Rightarrow> string \<Rightarrow> string \<Rightarrow> string + string" where
  "DecryptWithPassphrase c argon2 passphrase ciphertext =
     (if length ciphertext < 28 then Inl ''ciphertext too short''
      else
        (case NewCipher (argon2 passphrase (take 16 ciphertext)) of
           Inl e \<Rightarrow> Inl (''creating cipher: '' @ e)
         | Inr key \<Rightarrow>
             (case gcm_Open c key (take 12 (drop 16 ciphertext)) (drop 28 ciphertext) of
                None \<Rightarrow> Inl ''unreachable: the nonce has the right length''
              | Some (Inl e) \<Rightarrow> Inl (''decrypting (wrong passphrase?): '' @ e)
              | Some (Inr p) \<Rightarrow> Inr p)))"

interpretation passphrase_box: sealed_box
  "\<lambda>(c, argon2, pw). aead_lawful c \<and> (\<forall>salt. length (argon2 pw salt) = 32)"
  "\<lambda>(saltRnd, nonceRnd). (case saltRnd of Inl _ \<Rightarrow> False | Inr salt \<Rightarrow> length salt = 16) \<and> nonce_bytes nonceRnd"
  "\<lambda>(c, argon2, pw) (saltRnd, nonceRnd). EncryptWithPassphrase c argon2 pw saltRnd nonceRnd"
  "\<lambda>(c, argon2, pw). DecryptWithPassphrase c argon2 pw"
  by unfold_locales
    (auto simp: EncryptWithPassphrase_def DecryptWithPassphrase_def NewCipher_def key_size_ok_def gcm_Open_Seal NonceSize_def
      elim!: nonce_bytesE split: sum.splits)

section \<open>Configuration values\<close>

definition EncryptedValuePrefix :: string where
  "EncryptedValuePrefix = ''ENC:''"

definition MinPasswordLength :: nat where
  "MinPasswordLength = 12"

definition NewConfigEncryptor :: "(string \<Rightarrow> string + string) \<Rightarrow> string \<Rightarrow> string + string" where
  "NewConfigEncryptor hkdf masterPassword =
     (if length masterPassword < MinPasswordLength
      then Inl (''master password must be at least '' @ Itoa (int MinPasswordLength) @ '' characters'')
      else (case hkdf masterPassword of Inl e \<Rightarrow> Inl (''derive key: '' @ e) | Inr key \<Rightarrow> Inr key))"

definition Config_Encrypt :: "aead \<Rightarrow> string \<Rightarrow> random \<Rightarrow> string \<Rightarrow> string + string" where
  "Config_Encrypt c key rnd plaintext =
     (case NewCipher key of
        Inl e \<Rightarrow> Inl (''create cipher: '' @ e)
      | Inr key \<Rightarrow>
          (case rnd of
             Inl e \<Rightarrow> Inl (''generate nonce: '' @ e)
           | Inr nonce \<Rightarrow> Inr (EncryptedValuePrefix @ EncodeToString (nonce @ Seal c key nonce plaintext))))"

definition Config_Decrypt :: "aead \<Rightarrow> string \<Rightarrow> string \<Rightarrow> string + string" where
  "Config_Decrypt c key encrypted =
     (if \<not> HasPrefix encrypted EncryptedValuePrefix then Inr encrypted
      else
        (case DecodeString (drop (length EncryptedValuePrefix) encrypted) of
           None \<Rightarrow> Inl ''decode base64: illegal base64 data''
         | Some ciphertext \<Rightarrow>
             (case NewCipher key of
                Inl e \<Rightarrow> Inl (''create cipher: '' @ e)
              | Inr key \<Rightarrow>
                  if length ciphertext < NonceSize then Inl ''ciphertext too short''
                  else
                    (case gcm_Open c key (take NonceSize ciphertext) (drop NonceSize ciphertext) of
                       None \<Rightarrow> Inl ''unreachable: the nonce has the right length''
                     | Some (Inl e) \<Rightarrow> Inl (''decrypt: '' @ e)
                     | Some (Inr p) \<Rightarrow> Inr p))))"

definition IsEncrypted :: "string \<Rightarrow> bool" where
  "IsEncrypted v = HasPrefix v EncryptedValuePrefix"

interpretation config_box: sealed_box
  "\<lambda>(c, key). aead_lawful c \<and> key_size_ok key" nonce_bytes
  "\<lambda>(c, key). Config_Encrypt c key" "\<lambda>(c, key). Config_Decrypt c key"
  by unfold_locales
    (auto simp: Config_Encrypt_def Config_Decrypt_def NewCipher_def gcm_Open_Seal EncryptedValuePrefix_def HasPrefix_def
      elim!: nonce_bytesE)

section \<open>Properties\<close>

text \<open>How the server gets its master key. A key that can be loaded is used and nothing is written. When
  loading fails, for whatever reason, a new key is made and the key file is replaced by it, also when the file
  holds a good key and only the environment variable is malformed; the next start without the variable
  loads the new key, so everything encrypted under the old one is lost.\<close>

theorem LoadOrGenerateMasterKey_spec:
  assumes "length key = 32" and "kw_mkdir w = None" and "kw_write w = None"
    and "LoadOrGenerateMasterKey sha256 dataDir (Inr key) w = (res, w')" and "path = Join2 dataDir ''master.key''"
  shows "case LoadMasterKey sha256 path w of
      Inr mk \<Rightarrow> res = Inr mk \<and> w' = w
    | Inl e \<Rightarrow> res = Inr (new_master sha256 key) \<and> kw_files w' = (kw_files w)(path \<mapsto> EncodeToString key)
        \<and> (kw_unreadable w path = None \<longrightarrow> LoadMasterKey sha256 path (w'\<lparr>kw_env := ''''\<rparr>) = Inr (new_master sha256 key))"
  using assms
  by (auto simp: LoadOrGenerateMasterKey_def Let_def GenerateMasterKey_def SaveToFile_def LoadMasterKey_def checked_key_def
      new_master_def split: sum.splits)

definition zeros :: "nat \<Rightarrow> string" where
  "zeros n = replicate n (CHR 0x00)"

theorem LoadOrGenerateMasterKey_spec_witness:
  "let old = EncodeToString (zeros 32); new = replicate 32 CHR ''k'';
       w = \<lparr>kw_env = ''?'', kw_files = [Join2 ''/data'' ''master.key'' \<mapsto> old], kw_unreadable = (\<lambda>_. None),
            kw_mkdir = None, kw_write = None\<rparr>
   in kw_files (snd (LoadOrGenerateMasterKey (\<lambda>k. k) ''/data'' (Inr new) w)) (Join2 ''/data'' ''master.key'')
        = Some (EncodeToString new)"
proof -
  let ?p = "Join2 ''/data'' ''master.key''"
  let ?w = "\<lparr>kw_env = ''?'', kw_files = [?p \<mapsto> EncodeToString (zeros 32)], kw_unreadable = (\<lambda>_. None),
            kw_mkdir = None, kw_write = None\<rparr>"
  obtain r w' where r: "LoadOrGenerateMasterKey (\<lambda>k. k) ''/data'' (Inr (replicate 32 CHR ''k'')) ?w = (r, w')" by fastforce
  have "\<exists>e. LoadMasterKey (\<lambda>k. k) ?p ?w = Inl e" by (simp add: LoadMasterKey_def checked_key_def DecodeString_def)
  with LoadOrGenerateMasterKey_spec [OF _ _ _ r refl] r show ?thesis by (auto simp: Let_def)
qed

text \<open>The three encryptions of the package are inverses, with keys of the right size.\<close>

lemma MasterKey_roundtrip:
  assumes "aead_lawful c" and "length (mk_key k) = 32" and "length nonce = 12"
  shows "\<exists>ct. MasterKey_Encrypt c k (Inr nonce) p = Inr ct \<and> MasterKey_Decrypt c k ct = Inr p"
  using master_box.seal_then_open [of "(c, k)" "Inr nonce" p] assms
  by (force simp: key_size_ok_def nonce_bytes_def NonceSize_def)

end
