(* ===== verification/Kms.thy ===== *)
theory Kms
  imports Mem_Security Crypto_Core
begin

text \<open>
  \<open>internal/security/kms.go\<close>: the key management service. It keeps encryption keys in the store, wrapped
  under the master key, and a cache of unwrapped keys in memory. The cache and the current key are pointers
  that can share an object, so the unwrapped keys live in a heap. An operation takes the service and the
  store and returns both; \<open>Decrypt\<close> also has the outcome \<open>None\<close>, a panic. The cipher \<open>c\<close>, the random bytes and
  the new identifiers are arguments.
\<close>

section \<open>State\<close>

record KmsKey =
  kk_ID :: string
  kk_Version :: int
  kk_KeyMaterial :: string
  kk_Algorithm :: string
  kk_Status :: string
  kk_CreatedAt :: time
  kk_ActivatedAt :: "time option"
  kk_DeactivatedAt :: "time option"
  kk_ScheduledDeletionAt :: "time option"
  kk_DeletionCancelledAt :: "time option"

record KMS =
  kms_masterKey :: MasterKey
  kms_cache :: "string \<rightharpoonup> ref"
  kms_objs :: "KmsKey heap"
  kms_currentKey :: "ref option"

definition store_err :: "store_error \<Rightarrow> string" where
  "store_err e = (case e of ErrNotFound \<Rightarrow> ''not found'' | ErrDuplicate \<Rightarrow> ''duplicate''
     | ErrValidation \<Rightarrow> ''validation error'' | ErrText t \<Rightarrow> t)"

section \<open>Keys in the store\<close>

definition toStorageKey :: "aead \<Rightarrow> KMS \<Rightarrow> random \<Rightarrow> KmsKey \<Rightarrow> string + EncryptionKey" where
  "toStorageKey c k rnd key =
     (case MasterKey_Encrypt c (kms_masterKey k) rnd (kk_KeyMaterial key) of
        Inl e \<Rightarrow> Inl (''encrypt key material: '' @ e)
      | Inr encrypted \<Rightarrow>
          Inr \<lparr>ek_ID = kk_ID key, ek_Version = kk_Version key, ek_KeyMaterialEnc = encrypted,
               ek_Algorithm = kk_Algorithm key, ek_Status = kk_Status key, ek_CreatedAt = kk_CreatedAt key,
               ek_ActivatedAt = kk_ActivatedAt key, ek_DeactivatedAt = kk_DeactivatedAt key,
               ek_ScheduledDeletionAt = kk_ScheduledDeletionAt key, ek_DeletionCancelledAt = kk_DeletionCancelledAt key\<rparr>)"

definition fromStorageKey :: "aead \<Rightarrow> KMS \<Rightarrow> EncryptionKey \<Rightarrow> string + KmsKey" where
  "fromStorageKey c k sk =
     (case MasterKey_Decrypt c (kms_masterKey k) (ek_KeyMaterialEnc sk) of
        Inl e \<Rightarrow> Inl (''decrypt key material for key '' @ ek_ID sk @ '': '' @ e)
      | Inr decrypted \<Rightarrow>
          Inr \<lparr>kk_ID = ek_ID sk, kk_Version = ek_Version sk, kk_KeyMaterial = decrypted,
               kk_Algorithm = ek_Algorithm sk, kk_Status = ek_Status sk, kk_CreatedAt = ek_CreatedAt sk,
               kk_ActivatedAt = ek_ActivatedAt sk, kk_DeactivatedAt = ek_DeactivatedAt sk,
               kk_ScheduledDeletionAt = ek_ScheduledDeletionAt sk, kk_DeletionCancelledAt = ek_DeletionCancelledAt sk\<rparr>)"

definition alloc_key :: "KmsKey \<Rightarrow> KMS \<Rightarrow> ref \<times> KMS" where
  "alloc_key key k = (case new_obj key (kms_objs k) of (r, objs) \<Rightarrow> (r, k\<lparr>kms_objs := objs\<rparr>))"

definition set_key :: "ref \<Rightarrow> KmsKey \<Rightarrow> KMS \<Rightarrow> KMS" where
  "set_key r key k = k\<lparr>kms_objs := assign (kms_objs k) r key\<rparr>"

definition cacheKey :: "string \<Rightarrow> ref \<Rightarrow> KMS \<Rightarrow> KMS" where
  "cacheKey i r k = k\<lparr>kms_cache := (kms_cache k)(i \<mapsto> r)\<rparr>"

definition invalidateCache :: "KMS \<Rightarrow> KMS" where
  "invalidateCache k = k\<lparr>kms_cache := Map.empty\<rparr>"

text \<open>\<open>getKey\<close> returns the pointer and the key it points to; the memory store reports only \<open>ErrNotFound\<close>.\<close>

definition getKey :: "aead \<Rightarrow> string \<Rightarrow> SecurityStore \<Rightarrow> KMS \<Rightarrow> (string + ref \<times> KmsKey) \<times> KMS" where
  "getKey c keyID s k =
     (case Option.bind (kms_cache k keyID) (\<lambda>r. map_option (Pair r) (load (kms_objs k) r)) of
        Some (r, key) \<Rightarrow> (Inr (r, key), k)
      | None \<Rightarrow>
          (case GetEncryptionKey keyID s of
             Inl _ \<Rightarrow> (Inl (''key not found: '' @ keyID), k)
           | Inr storageKey \<Rightarrow>
               (case fromStorageKey c k storageKey of
                  Inl e \<Rightarrow> (Inl (''decrypt key material: '' @ e), k)
                | Inr key \<Rightarrow>
                    (case alloc_key key k of (r, k') \<Rightarrow> (Inr (r, key), cacheKey (kk_ID key) r k')))))"

definition next_version :: "EncryptionKey list \<Rightarrow> int" where
  "next_version keys =
     fold (\<lambda>key version. if ek_Version key \<ge> version then wrap64 (ek_Version key + 1) else version) keys 1"

definition generateKey :: "string \<Rightarrow> random \<Rightarrow> time \<Rightarrow> string list \<Rightarrow> SecurityStore \<Rightarrow> string + KmsKey" where
  "generateKey xid rnd now ks s =
     (case rnd of
        Inl e \<Rightarrow> Inl (''generate key material: '' @ e)
      | Inr keyMaterial \<Rightarrow>
          Inr \<lparr>kk_ID = xid, kk_Version = next_version (ListEncryptionKeys ks s), kk_KeyMaterial = keyMaterial,
               kk_Algorithm = ''AES-256-GCM'', kk_Status = KeyStatusPending, kk_CreatedAt = now,
               kk_ActivatedAt = None, kk_DeactivatedAt = None, kk_ScheduledDeletionAt = None,
               kk_DeletionCancelledAt = None\<rparr>)"

definition saveKey ::
  "aead \<Rightarrow> KMS \<Rightarrow> random \<Rightarrow> KmsKey \<Rightarrow> time \<Rightarrow> SecurityStore \<Rightarrow> string option \<times> SecurityStore" where
  "saveKey c k rnd key now s =
     (case toStorageKey c k rnd key of
        Inl e \<Rightarrow> (Some (''convert key for storage: '' @ e), s)
      | Inr storageKey \<Rightarrow>
          (case SaveEncryptionKey storageKey now s of
             (Inl e, s') \<Rightarrow> (Some (store_err e), s') | (Inr _, s') \<Rightarrow> (None, s')))"

section \<open>The service\<close>

definition loadCurrentKey :: "aead \<Rightarrow> string list \<Rightarrow> SecurityStore \<Rightarrow> KMS \<Rightarrow> string option \<times> KMS" where
  "loadCurrentKey c ks s k =
     (case GetCurrentEncryptionKey ks s of
        Inl _ \<Rightarrow> (None, k)
      | Inr storageKey \<Rightarrow>
          (case fromStorageKey c k storageKey of
             Inl e \<Rightarrow> (Some (''decrypt current key material: '' @ e), k)
           | Inr key \<Rightarrow>
               (case alloc_key key k of
                  (r, k') \<Rightarrow> (None, cacheKey (kk_ID key) r (k'\<lparr>kms_currentKey := Some r\<rparr>)))))"

definition NewKMS :: "aead \<Rightarrow> MasterKey option \<Rightarrow> string list \<Rightarrow> SecurityStore \<Rightarrow> string + KMS" where
  "NewKMS c masterKey ks s =
     (case masterKey of
        None \<Rightarrow> Inl ''master key is required for KMS initialization''
      | Some mk \<Rightarrow>
          (case loadCurrentKey c ks s
                  \<lparr>kms_masterKey = mk, kms_cache = Map.empty, kms_objs = [], kms_currentKey = None\<rparr> of
             (Some e, _) \<Rightarrow> Inl e | (None, k) \<Rightarrow> Inr k))"

definition Initialize ::
  "aead \<Rightarrow> string \<Rightarrow> random \<Rightarrow> random \<Rightarrow> time \<Rightarrow> string list \<Rightarrow> KMS \<times> SecurityStore \<Rightarrow> string option \<times> KMS \<times> SecurityStore" where
  "Initialize c xid keyRnd nonceRnd now ks = (\<lambda>(k, s).
     if kms_currentKey k \<noteq> None then (None, k, s)
     else
       (case generateKey xid keyRnd now ks s of
          Inl e \<Rightarrow> (Some (''generate initial key: '' @ e), k, s)
        | Inr key \<Rightarrow>
            (let key = key\<lparr>kk_Status := KeyStatusActive, kk_ActivatedAt := Some now\<rparr>
             in case saveKey c k nonceRnd key now s of
                  (Some e, s') \<Rightarrow> (Some (''save initial key: '' @ e), k, s')
                | (None, s') \<Rightarrow>
                    (case alloc_key key k of
                       (r, k') \<Rightarrow> (None, cacheKey (kk_ID key) r (k'\<lparr>kms_currentKey := Some r\<rparr>), s')))))"

definition current_key :: "KMS \<Rightarrow> (ref \<times> KmsKey) option" where
  "current_key k = Option.bind (kms_currentKey k) (\<lambda>r. map_option (Pair r) (load (kms_objs k) r))"

definition GetCurrentKey :: "KMS \<Rightarrow> KmsKey option" where
  "GetCurrentKey k = map_option snd (current_key k)"

definition versioned :: "string \<Rightarrow> string \<Rightarrow> string \<Rightarrow> string" where
  "versioned keyID nonce ciphertext =
     ''v1:'' @ keyID @ '':'' @ EncodeToString nonce @ '':'' @ EncodeToString ciphertext"

definition Encrypt :: "aead \<Rightarrow> random \<Rightarrow> string \<Rightarrow> KMS \<Rightarrow> string + string" where
  "Encrypt c rnd plaintext k =
     (case current_key k of
        None \<Rightarrow> Inl ''no active encryption key''
      | Some (r, key) \<Rightarrow>
          if kk_Status key \<noteq> KeyStatusActive then Inl ''current key is not active''
          else
            (case NewCipher (kk_KeyMaterial key) of
               Inl e \<Rightarrow> Inl (''create cipher: '' @ e)
             | Inr block \<Rightarrow>
                 (case rnd of
                    Inl e \<Rightarrow> Inl (''generate nonce: '' @ e)
                  | Inr nonce \<Rightarrow> Inr (versioned (kk_ID key) nonce (Seal c block nonce plaintext)))))"

text \<open>\<open>Decrypt\<close> once the key is known.\<close>

definition open_with :: "aead \<Rightarrow> KmsKey \<Rightarrow> string \<Rightarrow> string \<Rightarrow> string \<Rightarrow> (string + string) option" where
  "open_with c key keyID nonce ciphertext =
     (if kk_Status key = KeyStatusDeleted then Some (Inl (''key '' @ keyID @ '' has been deleted''))
      else
        (case NewCipher (kk_KeyMaterial key) of
           Inl e \<Rightarrow> Some (Inl (''create cipher: '' @ e))
         | Inr block \<Rightarrow>
             (case gcm_Open c block nonce ciphertext of
                None \<Rightarrow> None
              | Some (Inl e) \<Rightarrow> Some (Inl (''decrypt: '' @ e))
              | Some (Inr plaintext) \<Rightarrow> Some (Inr plaintext))))"

definition Decrypt :: "aead \<Rightarrow> string \<Rightarrow> KMS \<times> SecurityStore \<Rightarrow> (string + string) option \<times> KMS" where
  "Decrypt c text = (\<lambda>(k, s).
     case SplitN text (CHR '':'') 4 of
       [version, keyID, nonceB64, ciphertextB64] \<Rightarrow>
         (if version \<noteq> ''v1'' then (Some (Inl (''unsupported ciphertext version: '' @ version)), k)
          else
            (case DecodeString nonceB64 of
               None \<Rightarrow> (Some (Inl ''decode nonce: illegal base64 data''), k)
             | Some nonce \<Rightarrow>
                 (case DecodeString ciphertextB64 of
                    None \<Rightarrow> (Some (Inl ''decode ciphertext: illegal base64 data''), k)
                  | Some ciphertext \<Rightarrow>
                      (case getKey c keyID s k of
                         (Inl e, k') \<Rightarrow> (Some (Inl (''get key '' @ keyID @ '': '' @ e)), k')
                       | (Inr (r, key), k') \<Rightarrow> (open_with c key keyID nonce ciphertext, k')))))
     | _ \<Rightarrow> (Some (Inl ''invalid ciphertext format''), k))"

definition ReEncrypt ::
  "aead \<Rightarrow> random \<Rightarrow> string \<Rightarrow> KMS \<times> SecurityStore \<Rightarrow> (string + string) option \<times> KMS" where
  "ReEncrypt c rnd text = (\<lambda>(k, s).
     case Decrypt c text (k, s) of
       (None, k') \<Rightarrow> (None, k')
     | (Some (Inl e), k') \<Rightarrow> (Some (Inl (''decrypt: '' @ e)), k')
     | (Some (Inr plaintext), k') \<Rightarrow> (Some (Encrypt c rnd plaintext k'), k'))"

definition IsVersionedCiphertext :: "string \<Rightarrow> bool" where
  "IsVersionedCiphertext text = HasPrefix text ''v1:''"

section \<open>The life of a key\<close>

text \<open>"Deactivate current key" of \<open>RotateKey\<close>.\<close>

definition deactivate_current :: "time \<Rightarrow> KMS \<times> SecurityStore \<Rightarrow> string option \<times> KMS \<times> SecurityStore" where
  "deactivate_current now = (\<lambda>(k, s).
     case current_key k of
       None \<Rightarrow> (None, k, s)
     | Some (r, cur) \<Rightarrow>
         (case UpdateEncryptionKeyStatus (kk_ID cur) KeyStatusInactive None now s of
            (Inl e, s') \<Rightarrow> (Some (''deactivate current key: '' @ store_err e), k, s')
          | (Inr _, s') \<Rightarrow>
              (None, set_key r (cur\<lparr>kk_Status := KeyStatusInactive, kk_DeactivatedAt := Some now\<rparr>) k, s')))"

definition RotateKey ::
  "aead \<Rightarrow> string \<Rightarrow> random \<Rightarrow> random \<Rightarrow> time \<Rightarrow> string list \<Rightarrow> KMS \<times> SecurityStore \<Rightarrow> (string + KmsKey) \<times> KMS \<times> SecurityStore" where
  "RotateKey c xid keyRnd nonceRnd now ks = (\<lambda>(k, s).
     case generateKey xid keyRnd now ks s of
       Inl e \<Rightarrow> (Inl (''generate new key: '' @ e), k, s)
     | Inr newKey \<Rightarrow>
         (let newKey = newKey\<lparr>kk_Status := KeyStatusActive, kk_ActivatedAt := Some now\<rparr>;
              (err, k, s) = deactivate_current now (k, s)
          in case err of
               Some e \<Rightarrow> (Inl e, k, s)
             | None \<Rightarrow>
                 (case toStorageKey c k nonceRnd newKey of
                    Inl e \<Rightarrow> (Inl (''convert key for storage: '' @ e), k, s)
                  | Inr storageKey \<Rightarrow>
                      (case SaveEncryptionKey storageKey now s of
                         (Inl e, s') \<Rightarrow> (Inl (''save new key: '' @ store_err e), k, s')
                       | (Inr _, s') \<Rightarrow>
                           (case alloc_key newKey k of
                              (r, k') \<Rightarrow> (Inr newKey, cacheKey (kk_ID newKey) r (k'\<lparr>kms_currentKey := Some r\<rparr>), s'))))))"

definition ScheduleKeyDeletion ::
  "aead \<Rightarrow> string \<Rightarrow> int \<Rightarrow> time \<Rightarrow> KMS \<times> SecurityStore \<Rightarrow> string option \<times> KMS \<times> SecurityStore" where
  "ScheduleKeyDeletion c keyID gracePeriod now = (\<lambda>(k, s).
     case getKey c keyID s k of
       (Inl e, k) \<Rightarrow> (Some e, k, s)
     | (Inr (r, key), k) \<Rightarrow>
         if kk_Status key = KeyStatusActive then (Some ''cannot schedule deletion of active key'', k, s)
         else if kk_Status key = KeyStatusScheduled then (Some ''key is already scheduled for deletion'', k, s)
         else if kk_Status key = KeyStatusDeleted then (Some ''key is already deleted'', k, s)
         else
           (let scheduledTime = now + gracePeriod
            in case UpdateEncryptionKeyStatus keyID KeyStatusScheduled (Some scheduledTime) now s of
                 (Inl e, s') \<Rightarrow> (Some (''schedule deletion: '' @ store_err e), k, s')
               | (Inr _, s') \<Rightarrow>
                   (None, cacheKey (kk_ID key) r (set_key r (key\<lparr>kk_Status := KeyStatusScheduled,
                      kk_ScheduledDeletionAt := Some scheduledTime, kk_DeletionCancelledAt := None\<rparr>) k), s')))"

definition CancelKeyDeletion ::
  "aead \<Rightarrow> string \<Rightarrow> time \<Rightarrow> KMS \<times> SecurityStore \<Rightarrow> string option \<times> KMS \<times> SecurityStore" where
  "CancelKeyDeletion c keyID now = (\<lambda>(k, s).
     case getKey c keyID s k of
       (Inl e, k) \<Rightarrow> (Some e, k, s)
     | (Inr (r, key), k) \<Rightarrow>
         if kk_Status key \<noteq> KeyStatusScheduled then (Some ''key is not scheduled for deletion'', k, s)
         else
           (case UpdateEncryptionKeyStatus keyID KeyStatusInactive None now s of
              (Inl e, s') \<Rightarrow> (Some (''cancel deletion: '' @ store_err e), k, s')
            | (Inr _, s') \<Rightarrow>
                (None, cacheKey (kk_ID key) r (set_key r (key\<lparr>kk_Status := KeyStatusInactive,
                   kk_ScheduledDeletionAt := None, kk_DeletionCancelledAt := Some now\<rparr>) k), s')))"

definition DeleteKeyNow ::
  "aead \<Rightarrow> string \<Rightarrow> time \<Rightarrow> KMS \<times> SecurityStore \<Rightarrow> string option \<times> KMS \<times> SecurityStore" where
  "DeleteKeyNow c keyID now = (\<lambda>(k, s).
     case getKey c keyID s k of
       (Inl e, k) \<Rightarrow> (Some e, k, s)
     | (Inr (r, key), k) \<Rightarrow>
         if kk_Status key = KeyStatusActive then (Some ''cannot delete active key'', k, s)
         else if kk_Status key = KeyStatusDeleted then (None, k, s)
         else
           (case UpdateEncryptionKeyStatus keyID KeyStatusDeleted None now s of
              (Inl e, s') \<Rightarrow> (Some (''delete key: '' @ store_err e), k, s')
            | (Inr _, s') \<Rightarrow>
                (None, cacheKey (kk_ID key) r (set_key r (key\<lparr>kk_Status := KeyStatusDeleted\<rparr>) k), s')))"

definition deletion_due :: "time \<Rightarrow> EncryptionKey \<Rightarrow> bool" where
  "deletion_due now sk \<longleftrightarrow> ek_Status sk = KeyStatusScheduled \<and>
     (case ek_ScheduledDeletionAt sk of None \<Rightarrow> False | Some t \<Rightarrow> t < now)"

fun process_due :: "time \<Rightarrow> EncryptionKey list \<Rightarrow> int \<times> SecurityStore \<Rightarrow> int \<times> SecurityStore" where
  "process_due now [] p = p"
| "process_due now (sk # sks) (n, s) =
     (if deletion_due now sk
      then (case UpdateEncryptionKeyStatus (ek_ID sk) KeyStatusDeleted None now s of
              (Inl _, s') \<Rightarrow> process_due now sks (n, s')
            | (Inr _, s') \<Rightarrow> process_due now sks (n + 1, s'))
      else process_due now sks (n, s))"

definition ProcessScheduledDeletions ::
  "time \<Rightarrow> string list \<Rightarrow> KMS \<times> SecurityStore \<Rightarrow> int \<times> KMS \<times> SecurityStore" where
  "ProcessScheduledDeletions now ks = (\<lambda>(k, s).
     case process_due now (ListEncryptionKeys ks s) (0, s) of
       (n, s') \<Rightarrow> (n, if n > 0 then invalidateCache k else k, s'))"

definition ListKeys :: "aead \<Rightarrow> string list \<Rightarrow> KMS \<times> SecurityStore \<Rightarrow> KmsKey list" where
  "ListKeys c ks = (\<lambda>(k, s).
     List.map_filter (\<lambda>sk. case fromStorageKey c k sk of Inl _ \<Rightarrow> None | Inr key \<Rightarrow> Some key) (ListEncryptionKeys ks s))"

section \<open>The invariant\<close>

definition material :: "aead \<Rightarrow> KMS \<Rightarrow> EncryptionKey \<Rightarrow> string option" where
  "material c k sk =
     (case MasterKey_Decrypt c (kms_masterKey k) (ek_KeyMaterialEnc sk) of Inl _ \<Rightarrow> None | Inr m \<Rightarrow> Some m)"

text \<open>Stored keys: identifiers without colons, unwrapping to 32 bytes.\<close>

definition stored_ok :: "aead \<Rightarrow> KMS \<Rightarrow> (string \<rightharpoonup> EncryptionKey) \<Rightarrow> bool" where
  "stored_ok c k m \<longleftrightarrow> keyed_by ek_ID m \<and>
     (\<forall>i sk. m i = Some sk \<longrightarrow> CHR '':'' \<notin> set i \<and> (\<exists>b. material c k sk = Some b \<and> length b = 32))"

text \<open>A cached key agrees with the stored one in its bytes, in being deleted, and it is active if the stored
  one is.\<close>

definition agree :: "aead \<Rightarrow> KMS \<Rightarrow> EncryptionKey \<Rightarrow> KmsKey \<Rightarrow> bool" where
  "agree c k sk key \<longleftrightarrow> material c k sk = Some (kk_KeyMaterial key) \<and>
     (ek_Status sk = KeyStatusActive \<longrightarrow> kk_Status key = KeyStatusActive) \<and>
     (kk_Status key = KeyStatusDeleted \<longleftrightarrow> ek_Status sk = KeyStatusDeleted)"

definition cached_ok :: "aead \<Rightarrow> KMS \<Rightarrow> (string \<rightharpoonup> EncryptionKey) \<Rightarrow> bool" where
  "cached_ok c k m \<longleftrightarrow> (\<forall>i r. kms_cache k i = Some r \<longrightarrow> (\<exists>key sk. load (kms_objs k) r = Some key \<and> kk_ID key = i \<and>
     m i = Some sk \<and> agree c k sk key))"

text \<open>The current key is active here and in the store, and no other stored key is active.\<close>

definition current_ok :: "aead \<Rightarrow> KMS \<Rightarrow> (string \<rightharpoonup> EncryptionKey) \<Rightarrow> bool" where
  "current_ok c k m \<longleftrightarrow>
     (\<forall>r. kms_currentKey k = Some r \<longrightarrow> (\<exists>key sk. load (kms_objs k) r = Some key \<and> kk_Status key = KeyStatusActive \<and>
        m (kk_ID key) = Some sk \<and> ek_Status sk = KeyStatusActive \<and> material c k sk = Some (kk_KeyMaterial key))) \<and>
     (\<forall>i sk. m i = Some sk \<longrightarrow> ek_Status sk = KeyStatusActive \<longrightarrow>
        (\<exists>r key. kms_currentKey k = Some r \<and> load (kms_objs k) r = Some key \<and> kk_ID key = i))"

definition key_map :: "SecurityStore \<Rightarrow> string \<rightharpoonup> EncryptionKey" where
  "key_map s = tlook (encryptionKeys s)"

definition kms_ok :: "aead \<Rightarrow> KMS \<Rightarrow> (string \<rightharpoonup> EncryptionKey) \<Rightarrow> bool" where
  "kms_ok c k m \<longleftrightarrow> aead_lawful c \<and> length (mk_key (kms_masterKey k)) = 32 \<and>
     stored_ok c k m \<and> cached_ok c k m \<and> current_ok c k m"

definition kms_wf :: "aead \<Rightarrow> KMS \<times> SecurityStore \<Rightarrow> bool" where
  "kms_wf c = (\<lambda>(k, s). table_ok (encryptionKeys s) \<and> kms_ok c k (key_map s))"

lemma material_cong: "kms_masterKey k' = kms_masterKey k \<Longrightarrow> material c k' = material c k"
  by (simp add: material_def fun_eq_iff)

lemma agree_cong: "material c k' = material c k \<Longrightarrow> agree c k' = agree c k"
  by (simp add: agree_def fun_eq_iff)

lemma material_status [simp]: "material c k (with_key_status st at now sk) = material c k sk"
  by (simp add: material_def with_key_status_def Let_def)

lemma status_with_key_status [simp]: "ek_Status (with_key_status st at now sk) = st"
  by (simp add: with_key_status_def Let_def)

lemma kms_simps [simp]:
  "kms_masterKey (cacheKey i r k) = kms_masterKey k" "kms_objs (cacheKey i r k) = kms_objs k"
  "kms_currentKey (cacheKey i r k) = kms_currentKey k" "kms_cache (cacheKey i r k) = (kms_cache k)(i \<mapsto> r)"
  "kms_masterKey (set_key r key k) = kms_masterKey k" "kms_objs (set_key r key k) = assign (kms_objs k) r key"
  "kms_currentKey (set_key r key k) = kms_currentKey k" "kms_cache (set_key r key k) = kms_cache k"
  "kms_masterKey (invalidateCache k) = kms_masterKey k" "kms_objs (invalidateCache k) = kms_objs k"
  "kms_currentKey (invalidateCache k) = kms_currentKey k" "kms_cache (invalidateCache k) = Map.empty"
  by (simp_all add: cacheKey_def set_key_def invalidateCache_def)

lemma fromStorageKey_fields:
  "fromStorageKey c k sk = Inr key \<Longrightarrow>
     material c k sk = Some (kk_KeyMaterial key) \<and> kk_ID key = ek_ID sk \<and> kk_Status key = ek_Status sk"
  by (auto simp: fromStorageKey_def material_def split: sum.splits)

lemma fromStorageKey_total: "material c k sk = Some b \<Longrightarrow> \<exists>key. fromStorageKey c k sk = Inr key"
  by (auto simp: fromStorageKey_def material_def split: sum.splits)

text \<open>Unwrapping a key that was just wrapped.\<close>

lemma toStorageKey_Inr:
  assumes "aead_lawful c" and "length (mk_key (kms_masterKey k)) = 32" and "nonce_bytes rnd"
  obtains sk where "toStorageKey c k rnd key = Inr sk" and "material c k sk = Some (kk_KeyMaterial key)"
    and "ek_ID sk = kk_ID key" and "ek_Status sk = kk_Status key" and "ek_CreatedAt sk = kk_CreatedAt key"
    and "ek_Version sk = kk_Version key"
proof -
  have ok: "(\<lambda>(c, k). aead_lawful c \<and> key_size_ok (mk_key k)) (c, kms_masterKey k)"
    using assms by (simp add: key_size_ok_def)
  from master_box.seal_then_open [OF ok assms(3)] obtain e where
    "MasterKey_Encrypt c (kms_masterKey k) rnd (kk_KeyMaterial key) = Inr e"
    "MasterKey_Decrypt c (kms_masterKey k) e = Inr (kk_KeyMaterial key)" by auto
  with that show thesis by (simp add: toStorageKey_def material_def)
qed

section \<open>Reading a key\<close>

lemma kms_ok_alloc_cache:
  assumes ok: "kms_ok c k m" and sk: "m i = Some sk" and key: "kk_ID key = i" "kk_Status key = ek_Status sk"
      "material c k sk = Some (kk_KeyMaterial key)"
  shows "kms_ok c (cacheKey i (length (kms_objs k)) (k\<lparr>kms_objs := kms_objs k @ [key]\<rparr>)) m"
proof -
  let ?k = "cacheKey i (length (kms_objs k)) (k\<lparr>kms_objs := kms_objs k @ [key]\<rparr>)"
  have m: "material c ?k = material c k" by (rule material_cong) simp
  have l: "load (kms_objs ?k) r = (if r = length (kms_objs k) then Some key else load (kms_objs k) r)" for r
    by (simp add: load_append)
  have "agree c k sk key" using key by (simp add: agree_def)
  then have "cached_ok c ?k m"
    unfolding cached_ok_def agree_cong [OF m] l using ok sk key
    by (auto simp: kms_ok_def cached_ok_def) (metis load_length option.distinct(1))+
  moreover have "current_ok c ?k m"
    using ok unfolding kms_ok_def current_ok_def m l by (simp, metis load_length option.distinct(1))
  ultimately show ?thesis using ok by (simp add: kms_ok_def stored_ok_def m)
qed

lemma getKey_ok:
  assumes ok: "kms_ok c k (key_map s)" and g: "getKey c i s k = (res, k')"
  shows "kms_ok c k' (key_map s) \<and> kms_masterKey k' = kms_masterKey k \<and>
    (case res of
       Inl e \<Rightarrow> key_map s i = None \<and> e = ''key not found: '' @ i
     | Inr (r, key) \<Rightarrow> kms_cache k' i = Some r \<and> load (kms_objs k') r = Some key \<and> kk_ID key = i)"
proof (cases "kms_cache k i")
  case (Some r)
  then obtain key where "load (kms_objs k) r = Some key" "kk_ID key = i" using ok by (auto simp: kms_ok_def cached_ok_def)
  with Some g ok show ?thesis by (auto simp: getKey_def)
next
  case None
  show ?thesis
  proof (cases "key_map s i")
    case None
    with \<open>kms_cache k i = None\<close> g ok show ?thesis by (auto simp: getKey_def GetEncryptionKey_def key_map_def found_def)
  next
    case (Some sk)
    then obtain b where "material c k sk = Some b" using ok by (auto simp: kms_ok_def stored_ok_def)
    then obtain key where key: "fromStorageKey c k sk = Inr key" using fromStorageKey_total by blast
    note f = fromStorageKey_fields [OF key]
    have "ek_ID sk = i" using ok Some by (auto simp: kms_ok_def stored_ok_def keyed_by_def)
    with f have id: "kk_ID key = i" by simp
    have "getKey c i s k = (Inr (length (kms_objs k), key), cacheKey i (length (kms_objs k)) (k\<lparr>kms_objs := kms_objs k @ [key]\<rparr>))"
      using \<open>kms_cache k i = None\<close> Some key id
      by (simp add: getKey_def GetEncryptionKey_def key_map_def found_def alloc_key_def new_obj_def)
    with g kms_ok_alloc_cache [OF ok Some id] f id show ?thesis by (auto simp: load_append)
  qed
qed

section \<open>Changing keys\<close>

text \<open>The effect on the store of the two operations the service calls.\<close>

lemma UpdateEncryptionKeyStatus_map:
  assumes "table_ok (encryptionKeys s)" and "key_map s i = Some sk"
    and "UpdateEncryptionKeyStatus i st at now s = (res, s')"
  shows "res = Inr ()" and "table_ok (encryptionKeys s')"
    and "key_map s' = (key_map s)(i \<mapsto> with_key_status st at now sk)"
  using assms by (auto simp: UpdateEncryptionKeyStatus_def key_map_def table_ok_modify tlook_modify)

definition stamped :: "time \<Rightarrow> EncryptionKey \<Rightarrow> EncryptionKey" where
  "stamped now sk = (if IsZero (ek_CreatedAt sk) then sk\<lparr>ek_CreatedAt := now\<rparr> else sk)"

lemma stamped_simps [simp]:
  "ek_ID (stamped now sk) = ek_ID sk" "ek_Status (stamped now sk) = ek_Status sk"
  "material c k (stamped now sk) = material c k sk"
  by (simp_all add: stamped_def material_def)

lemma SaveEncryptionKey_map:
  assumes "table_ok (encryptionKeys s)" and "SaveEncryptionKey sk now s = (res, s')"
  shows "res = Inr ()" and "table_ok (encryptionKeys s')" and "key_map s' = (key_map s)(ek_ID sk \<mapsto> stamped now sk)"
  using assms by (auto simp: SaveEncryptionKey_def Let_def key_map_def stamped_def table_ok_new tlook_new)

lemma cached_id: "cached_ok c k m \<Longrightarrow> kms_cache k i = Some r \<Longrightarrow> load (kms_objs k) r = Some key \<Longrightarrow> kk_ID key = i"
  unfolding cached_ok_def by (metis option.inject)

lemma cached_stored:
  assumes "cached_ok c k m" and "kms_cache k i = Some r" and "load (kms_objs k) r = Some key"
  obtains sk where "m i = Some sk" and "agree c k sk key"
proof -
  obtain key' sk where "load (kms_objs k) r = Some key'" "m i = Some sk" "agree c k sk key'"
    using assms(1,2) unfolding cached_ok_def by blast
  with assms(3) that show thesis by simp
qed

text \<open>One object and one stored key change.\<close>

lemma cached_ok_update:
  assumes ok: "cached_ok c k m" and r: "load (kms_objs k) r = Some key" "kk_ID key = i" "kk_ID key' = i"
    and a: "agree c k sk' key'"
    and b: "\<And>q kq. kms_cache k i = Some q \<Longrightarrow> q \<noteq> r \<Longrightarrow> load (kms_objs k) q = Some kq \<Longrightarrow> agree c k sk' kq"
    and k': "kms_masterKey k' = kms_masterKey k" "kms_objs k' = assign (kms_objs k) r key'"
      "\<And>j. kms_cache k' j = kms_cache k j \<or> j = i \<and> kms_cache k' j = Some r"
  shows "cached_ok c k' (m(i \<mapsto> sk'))"
  unfolding cached_ok_def agree_cong [OF material_cong [OF k'(1)]]
proof (intro allI impI)
  fix j q
  assume q: "kms_cache k' j = Some q"
  have l: "load (kms_objs k') p = (if p = r then Some key' else load (kms_objs k) p)" for p
    using r(1) by (simp add: k'(2) load_assign)
  show "\<exists>key sk. load (kms_objs k') q = Some key \<and> kk_ID key = j \<and> (m(i \<mapsto> sk')) j = Some sk \<and> agree c k sk key"
  proof (cases "q = r")
    case True
    have "j = i" using k'(3) [of j] q True cached_id [OF ok _ r(1)] r(2) by auto
    with True a r(3) show ?thesis by (simp add: l)
  next
    case False
    then have cq: "kms_cache k j = Some q" using k'(3) [of j] q by auto
    then obtain kq sq where kq: "load (kms_objs k) q = Some kq" "kk_ID kq = j" "m j = Some sq" "agree c k sq kq"
      using ok unfolding cached_ok_def by blast
    show ?thesis
    proof (cases "j = i")
      case True
      then show ?thesis using b [OF _ False kq(1)] cq kq(1,2) False by (simp add: l)
    qed (use kq False in \<open>simp add: l\<close>)
  qed
qed

lemma current_stored:
  assumes "current_ok c k m" and "kms_currentKey k = Some r" and "load (kms_objs k) r = Some key"
  obtains sk where "m (kk_ID key) = Some sk" and "ek_Status sk = KeyStatusActive"
    and "material c k sk = Some (kk_KeyMaterial key)" and "kk_Status key = KeyStatusActive"
proof -
  obtain key' sk where k: "load (kms_objs k) r = Some key'" "kk_Status key' = KeyStatusActive"
      and sk: "m (kk_ID key') = Some sk" "ek_Status sk = KeyStatusActive" "material c k sk = Some (kk_KeyMaterial key')"
    using assms(1,2) unfolding current_ok_def by blast
  have "key' = key" using k(1) assms(3) by simp
  with k(2) sk that show thesis by blast
qed

lemma stored_ok_status:
  "stored_ok c k m \<Longrightarrow> m i = Some sk \<Longrightarrow> stored_ok c k (m(i \<mapsto> with_key_status st at now sk))"
  unfolding stored_ok_def by (auto simp: keyed_by_def)

lemma stored_ok_cong: "kms_masterKey k' = kms_masterKey k \<Longrightarrow> stored_ok c k' m = stored_ok c k m"
  using material_cong [of k' k c] by (simp add: stored_ok_def)

lemma current_only:
  assumes "current_ok c k m" and "m i = Some sk" and "ek_Status sk = KeyStatusActive"
  obtains r key where "kms_currentKey k = Some r" and "load (kms_objs k) r = Some key" and "kk_ID key = i"
  using assms unfolding current_ok_def by blast

lemma kms_okD:
  assumes "kms_ok c k m"
  shows "aead_lawful c" and "length (mk_key (kms_masterKey k)) = 32" and "stored_ok c k m" and "cached_ok c k m"
    and "current_ok c k m"
  using assms by (simp_all add: kms_ok_def)

text \<open>The status of a key that is not active changes, in the store and in the cached object.\<close>

lemma kms_ok_status:
  assumes ok: "kms_ok c k m" and r: "kms_cache k i = Some r" "load (kms_objs k) r = Some key"
    and na: "kk_Status key \<noteq> KeyStatusActive" and st: "st \<noteq> KeyStatusActive"
    and key': "kk_ID key' = i" "kk_Status key' = st" "kk_KeyMaterial key' = kk_KeyMaterial key"
  obtains sk where "m i = Some sk"
    and "kms_ok c (cacheKey i r (set_key r key' k)) (m(i \<mapsto> with_key_status st at now sk))"
proof -
  note ok' = kms_okD [OF ok]
  obtain sk where sk: "m i = Some sk" "agree c k sk key" using cached_stored [OF ok'(4) r] .
  have id: "kk_ID key = i" using cached_id [OF ok'(4) r] .
  let ?k = "cacheKey i r (set_key r key' k)" and ?m = "m(i \<mapsto> with_key_status st at now sk)"
  have mat: "material c ?k = material c k" by (rule material_cong) simp
  have cur: "kms_currentKey k \<noteq> Some r"
    using current_stored [OF ok'(5) _ r(2)] na by metis
  have nact: "ek_Status sk \<noteq> KeyStatusActive" using sk(2) na by (auto simp: agree_def)
  have not_cur: "kk_ID kc \<noteq> i" if "kms_currentKey k = Some q" "load (kms_objs k) q = Some kc" for q kc
    using current_stored [OF ok'(5) that] sk(1) nact by (metis option.inject)
  have "stored_ok c ?k ?m" using stored_ok_status [OF ok'(3) sk(1)] stored_ok_cong [of ?k k] by simp
  moreover have "cached_ok c ?k ?m"
    by (rule cached_ok_update [OF ok'(4) r(2) id key'(1)]) (use sk(2) key' st r(1) in \<open>auto simp: agree_def\<close>)
  moreover have "current_ok c ?k ?m"
  proof -
    have l: "load (kms_objs ?k) q = load (kms_objs k) q" if "kms_currentKey k = Some q" for q
      using that cur r(2) by (auto simp: load_assign)
    show ?thesis
      unfolding current_ok_def mat
    proof (intro conjI allI impI)
      fix q
      assume "kms_currentKey ?k = Some q"
      then have q: "kms_currentKey k = Some q" by simp
      then obtain kc where kc: "load (kms_objs k) q = Some kc" using ok'(5) unfolding current_ok_def by blast
      from current_stored [OF ok'(5) q kc] not_cur [OF q kc] l [OF q] kc
      show "\<exists>key sk. load (kms_objs ?k) q = Some key \<and> kk_Status key = KeyStatusActive \<and> ?m (kk_ID key) = Some sk \<and>
          ek_Status sk = KeyStatusActive \<and> material c k sk = Some (kk_KeyMaterial key)" by simp metis
    next
      fix j sj
      assume "?m j = Some sj" "ek_Status sj = KeyStatusActive"
      then have "m j = Some sj" using st by (auto split: if_splits)
      from current_only [OF ok'(5) this \<open>ek_Status sj = _\<close>]
      show "\<exists>q kc. kms_currentKey ?k = Some q \<and> load (kms_objs ?k) q = Some kc \<and> kk_ID kc = j"
        using l by (metis kms_simps(3,7))
    qed
  qed
  ultimately have "kms_ok c ?k ?m" using ok by (simp add: kms_ok_def)
  then show thesis by (rule that [OF sk(1)])
qed

text \<open>Between retiring the current key and activating a new one no stored key is active.\<close>

definition kms_idle :: "aead \<Rightarrow> KMS \<Rightarrow> (string \<rightharpoonup> EncryptionKey) \<Rightarrow> bool" where
  "kms_idle c k m \<longleftrightarrow> aead_lawful c \<and> length (mk_key (kms_masterKey k)) = 32 \<and> stored_ok c k m \<and> cached_ok c k m \<and>
     (\<forall>i sk. m i = Some sk \<longrightarrow> ek_Status sk \<noteq> KeyStatusActive)"

lemma kms_idle_no_current: "kms_ok c k m \<Longrightarrow> kms_currentKey k = None \<Longrightarrow> kms_idle c k m"
  by (auto simp: kms_ok_def kms_idle_def current_ok_def)

lemma kms_idle_retired:
  assumes ok: "kms_ok c k m" and cur: "current_key k = Some (r, key)"
    and key': "kk_ID key' = kk_ID key" "kk_Status key' = KeyStatusInactive" "kk_KeyMaterial key' = kk_KeyMaterial key"
  obtains sk where "m (kk_ID key) = Some sk"
    and "kms_idle c (set_key r key' k) (m(kk_ID key \<mapsto> with_key_status KeyStatusInactive at now sk))"
proof -
  have c: "kms_currentKey k = Some r" "load (kms_objs k) r = Some key"
    using cur by (auto simp: current_key_def bind_eq_Some_conv)
  let ?i = "kk_ID key"
  note ok' = kms_okD [OF ok]
  obtain sk where sk: "m ?i = Some sk" "ek_Status sk = KeyStatusActive" "material c k sk = Some (kk_KeyMaterial key)"
    using current_stored [OF ok'(5) c] by metis
  have only: "j = ?i" if "m j = Some sj" "ek_Status sj = KeyStatusActive" for j sj
    using current_only [OF ok'(5) that] c by (metis option.inject)
  let ?k = "set_key r key' k" and ?m = "m(?i \<mapsto> with_key_status KeyStatusInactive at now sk)"
  have "stored_ok c ?k ?m" using stored_ok_status [OF ok'(3) sk(1)] stored_ok_cong [of ?k k] by simp
  moreover have "cached_ok c ?k ?m"
  proof (rule cached_ok_update [OF ok'(4) c(2) refl key'(1)])
    show "agree c k (with_key_status KeyStatusInactive at now sk) key'" using sk(3) key' by (simp add: agree_def)
    show "agree c k (with_key_status KeyStatusInactive at now sk) kq"
      if "kms_cache k ?i = Some q" "load (kms_objs k) q = Some kq" for q kq
      using cached_stored [OF ok'(4) that] sk by (fastforce simp: agree_def)
  qed simp_all
  ultimately have "kms_idle c ?k ?m" using ok only by (auto simp: kms_idle_def kms_ok_def)
  then show thesis by (rule that [OF sk(1)])
qed

lemma kms_ok_activate:
  assumes idle: "kms_idle c k m" and fresh: "m i = None" "CHR '':'' \<notin> set i"
    and key: "kk_ID key = i" "kk_Status key = KeyStatusActive" "length (kk_KeyMaterial key) = 32"
    and sk: "ek_ID sk = i" "ek_Status sk = KeyStatusActive" "material c k sk = Some (kk_KeyMaterial key)"
  shows "kms_ok c (cacheKey i (length (kms_objs k)) (k\<lparr>kms_objs := kms_objs k @ [key], kms_currentKey := Some (length (kms_objs k))\<rparr>))
    (m(i \<mapsto> sk))" (is "kms_ok c ?k ?m")
proof -
  have mat: "material c ?k = material c k" by (rule material_cong) simp
  have l: "load (kms_objs ?k) q = (if q = length (kms_objs k) then Some key else load (kms_objs k) q)" for q
    by (simp add: load_append)
  have old: "q \<noteq> length (kms_objs k) \<and> j \<noteq> i" if "kms_cache k j = Some q" for j q
    using idle that fresh(1) by (fastforce simp: kms_idle_def cached_ok_def load_length)
  have "stored_ok c ?k ?m" using idle fresh key sk by (auto simp: kms_idle_def stored_ok_def mat keyed_by_def)
  moreover have "cached_ok c ?k ?m"
    unfolding cached_ok_def agree_cong [OF mat] l using idle key sk old
    by (auto simp: kms_idle_def cached_ok_def) (simp add: agree_def)
  moreover have "current_ok c ?k ?m"
    unfolding current_ok_def mat l using idle key sk by (auto simp: kms_idle_def)
  ultimately show ?thesis using idle by (simp add: kms_ok_def kms_idle_def)
qed

section \<open>The operations keep the invariant\<close>

text \<open>No operation changes the bytes of a stored key, or removes one.\<close>

definition keys_kept :: "aead \<Rightarrow> KMS \<times> SecurityStore \<Rightarrow> KMS \<times> SecurityStore \<Rightarrow> bool" where
  "keys_kept c = (\<lambda>(k, s) (k', s'). kms_masterKey k' = kms_masterKey k \<and>
     (\<forall>i sk. key_map s i = Some sk \<longrightarrow> (\<exists>sk'. key_map s' i = Some sk' \<and> material c k sk' = material c k sk)))"

definition kms_good :: "aead \<Rightarrow> KMS \<times> SecurityStore \<Rightarrow> KMS \<times> SecurityStore \<Rightarrow> bool" where
  "kms_good c p p' \<longleftrightarrow> kms_wf c p' \<and> keys_kept c p p'"

lemma keys_kept_trans: "keys_kept c p q \<Longrightarrow> keys_kept c q t \<Longrightarrow> keys_kept c p t"
  unfolding keys_kept_def by (auto simp: material_def) metis

lemma keys_kept_refl [simp]: "keys_kept c p p"
  by (auto simp: keys_kept_def)

lemma kms_good_refl: "kms_wf c p \<Longrightarrow> kms_good c p p"
  by (simp add: kms_good_def)

lemma getKey_good:
  assumes "kms_wf c (k, s)" and "getKey c i s k = (res, k')"
  shows "kms_good c (k, s) (k', s)"
  using assms getKey_ok [of c k s i res k'] by (auto simp: kms_good_def kms_wf_def keys_kept_def)

lemma key_map_SaveEncryptionKey_fresh:
  assumes "table_ok (encryptionKeys s)" and "key_map s (ek_ID sk) = None"
  shows "table_ok (encryptionKeys (snd (SaveEncryptionKey sk now s)))"
    and "key_map (snd (SaveEncryptionKey sk now s)) = (key_map s)(ek_ID sk \<mapsto> stamped now sk)"
    and "fst (SaveEncryptionKey sk now s) = Inr ()"
  using SaveEncryptionKey_map [OF assms(1), of sk now] by (metis prod.collapse)+

definition new_active :: "string \<Rightarrow> string \<Rightarrow> time \<Rightarrow> string list \<Rightarrow> SecurityStore \<Rightarrow> KmsKey" where
  "new_active xid key now ks s =
     \<lparr>kk_ID = xid, kk_Version = next_version (ListEncryptionKeys ks s), kk_KeyMaterial = key,
      kk_Algorithm = ''AES-256-GCM'', kk_Status = KeyStatusActive, kk_CreatedAt = now,
      kk_ActivatedAt = Some now, kk_DeactivatedAt = None, kk_ScheduledDeletionAt = None, kk_DeletionCancelledAt = None\<rparr>"

text \<open>Wrapping and saving a new active key over a store without one.\<close>

lemma save_new_active:
  assumes idle: "kms_idle c k (key_map s)" and t: "table_ok (encryptionKeys s)"
    and fresh: "key_map s xid = None" "CHR '':'' \<notin> set xid" and key: "length key = 32" and nonce: "nonce_bytes nr"
    and n: "n = new_active xid key now ks s0"
  obtains sk where "toStorageKey c k nr n = Inr sk" and "fst (SaveEncryptionKey sk now s) = Inr ()"
    and "kms_wf c (cacheKey xid (length (kms_objs k)) (k\<lparr>kms_objs := kms_objs k @ [n], kms_currentKey := Some (length (kms_objs k))\<rparr>),
       snd (SaveEncryptionKey sk now s))"
    and "key_map (snd (SaveEncryptionKey sk now s)) = (key_map s)(xid \<mapsto> stamped now sk)"
    and "ek_Status sk = KeyStatusActive"
proof -
  have l: "aead_lawful c" "length (mk_key (kms_masterKey k)) = 32" using idle by (simp_all add: kms_idle_def)
  obtain sk where sk: "toStorageKey c k nr n = Inr sk" "material c k sk = Some key" "ek_ID sk = xid"
      "ek_Status sk = KeyStatusActive"
    using toStorageKey_Inr [OF l nonce, of n] by (metis n new_active_def KmsKey.select_convs(1,3,5))
  have f: "key_map s (ek_ID sk) = None" using fresh(1) sk(3) by simp
  note sv = key_map_SaveEncryptionKey_fresh [OF t f, of now]
  have "kms_ok c (cacheKey xid (length (kms_objs k)) (k\<lparr>kms_objs := kms_objs k @ [n], kms_currentKey := Some (length (kms_objs k))\<rparr>))
      ((key_map s)(xid \<mapsto> stamped now sk))"
    by (rule kms_ok_activate [OF idle fresh]) (use sk key in \<open>simp_all add: n new_active_def\<close>)
  with sv sk that show thesis by (simp add: kms_wf_def)
qed

lemma Initialize_good:
  assumes wf: "kms_wf c (k, s)" and fresh: "key_map s xid = None" "CHR '':'' \<notin> set xid"
    and key: "length key = 32" and nonce: "nonce_bytes nr"
  shows "kms_good c (k, s) (snd (Initialize c xid (Inr key) nr now ks (k, s)))"
proof (cases "kms_currentKey k")
  case None
  have ok: "kms_ok c k (key_map s)" and t: "table_ok (encryptionKeys s)" using wf by (simp_all add: kms_wf_def)
  define n where "n = new_active xid key now ks s"
  obtain sk where sk: "toStorageKey c k nr n = Inr sk" "fst (SaveEncryptionKey sk now s) = Inr ()"
      "kms_wf c (cacheKey xid (length (kms_objs k)) (k\<lparr>kms_objs := kms_objs k @ [n], kms_currentKey := Some (length (kms_objs k))\<rparr>),
         snd (SaveEncryptionKey sk now s))"
      "key_map (snd (SaveEncryptionKey sk now s)) = (key_map s)(xid \<mapsto> stamped now sk)"
    using save_new_active [OF kms_idle_no_current [OF ok None] t fresh key nonce n_def] by metis
  obtain s' where s': "SaveEncryptionKey sk now s = (Inr (), s')" using sk(2) by (metis prod.collapse)
  have "snd (Initialize c xid (Inr key) nr now ks (k, s)) =
      (cacheKey xid (length (kms_objs k)) (k\<lparr>kms_objs := kms_objs k @ [n], kms_currentKey := Some (length (kms_objs k))\<rparr>), s')"
    using None sk(1) s'
    by (simp add: Initialize_def generateKey_def saveKey_def alloc_key_def new_obj_def Let_def n_def new_active_def)
  with sk(3,4) s' fresh(1) show ?thesis by (auto simp: kms_good_def keys_kept_def)
qed (use wf in \<open>simp add: Initialize_def kms_good_refl\<close>)

lemma current_key_None:
  assumes "kms_ok c k m" and "current_key k = None"
  shows "kms_currentKey k = None"
  using assms by (cases "kms_currentKey k") (auto simp: kms_ok_def current_ok_def current_key_def)

text \<open>The first half of a rotation.\<close>

lemma retire_current:
  assumes wf: "kms_wf c (k, s)"
  obtains k1 s1 where "deactivate_current now (k, s) = (None, k1, s1)"
    and "kms_idle c k1 (key_map s1)" and "table_ok (encryptionKeys s1)" and "keys_kept c (k, s) (k1, s1)"
    and "dom (key_map s1) = dom (key_map s)"
proof -
  have ok: "kms_ok c k (key_map s)" and t: "table_ok (encryptionKeys s)" using wf by (simp_all add: kms_wf_def)
  show thesis
  proof (cases "current_key k")
    case None
    with that [of k s] kms_idle_no_current [OF ok current_key_None [OF ok None]] t show thesis
      by (simp add: deactivate_current_def)
  next
    case (Some p)
    obtain r cur where p: "p = (r, cur)" by (cases p)
    obtain sk where sk: "key_map s (kk_ID cur) = Some sk"
      "kms_idle c (set_key r (cur\<lparr>kk_Status := KeyStatusInactive, kk_DeactivatedAt := Some now\<rparr>) k)
         ((key_map s)(kk_ID cur \<mapsto> with_key_status KeyStatusInactive None now sk))"
      by (rule kms_idle_retired [OF ok Some [unfolded p],
            where key' = "cur\<lparr>kk_Status := KeyStatusInactive, kk_DeactivatedAt := Some now\<rparr>" and at = None and now = now]) simp_all
    obtain res s' where u: "UpdateEncryptionKeyStatus (kk_ID cur) KeyStatusInactive None now s = (res, s')" by fastforce
    note um = UpdateEncryptionKeyStatus_map [OF t sk(1) u]
    show thesis
      by (rule that [of "set_key r (cur\<lparr>kk_Status := KeyStatusInactive, kk_DeactivatedAt := Some now\<rparr>) k" s'])
        (use Some p u um sk in \<open>auto simp: keys_kept_def deactivate_current_def\<close>)
  qed
qed

lemma RotateKey_effect:
  assumes wf: "kms_wf c (k, s)" and fresh: "key_map s xid = None" "CHR '':'' \<notin> set xid"
    and key: "length key = 32" and nonce: "nonce_bytes nr"
  shows "kms_good c (k, s) (snd (RotateKey c xid (Inr key) nr now ks (k, s)))"
    and "fst (RotateKey c xid (Inr key) nr now ks (k, s)) = Inr (new_active xid key now ks s)"
    and "GetCurrentKey (fst (snd (RotateKey c xid (Inr key) nr now ks (k, s)))) = Some (new_active xid key now ks s)"
proof -
  define n where "n = new_active xid key now ks s"
  obtain k1 s1 where r: "deactivate_current now (k, s) = (None, k1, s1)"
    and idle: "kms_idle c k1 (key_map s1)" and t1: "table_ok (encryptionKeys s1)" and kept: "keys_kept c (k, s) (k1, s1)"
    and d: "dom (key_map s1) = dom (key_map s)"
    using retire_current [OF wf] by metis
  have f1: "key_map s1 xid = None" using d fresh(1) by (metis domIff)
  obtain sk where sk: "toStorageKey c k1 nr n = Inr sk" "fst (SaveEncryptionKey sk now s1) = Inr ()"
      "kms_wf c (cacheKey xid (length (kms_objs k1)) (k1\<lparr>kms_objs := kms_objs k1 @ [n], kms_currentKey := Some (length (kms_objs k1))\<rparr>),
         snd (SaveEncryptionKey sk now s1))"
      "key_map (snd (SaveEncryptionKey sk now s1)) = (key_map s1)(xid \<mapsto> stamped now sk)"
    using save_new_active [OF idle t1 f1 fresh(2) key nonce n_def] by metis
  obtain s' where s': "SaveEncryptionKey sk now s1 = (Inr (), s')" using sk(2) by (metis prod.collapse)
  let ?k' = "cacheKey xid (length (kms_objs k1)) (k1\<lparr>kms_objs := kms_objs k1 @ [n], kms_currentKey := Some (length (kms_objs k1))\<rparr>)"
  have eq: "RotateKey c xid (Inr key) nr now ks (k, s) = (Inr n, ?k', s')"
    using sk(1) s' unfolding RotateKey_def
    by (simp add: generateKey_def r Let_def n_def new_active_def alloc_key_def new_obj_def)
  have "keys_kept c (k1, s1) (?k', s')" using sk(4) s' f1 by (auto simp: keys_kept_def)
  then have "keys_kept c (k, s) (?k', s')" using kept keys_kept_trans by blast
  then show "kms_good c (k, s) (snd (RotateKey c xid (Inr key) nr now ks (k, s)))"
    using sk(3) s' by (simp add: eq kms_good_def)
  show "fst (RotateKey c xid (Inr key) nr now ks (k, s)) = Inr (new_active xid key now ks s)" by (simp add: eq n_def)
  show "GetCurrentKey (fst (snd (RotateKey c xid (Inr key) nr now ks (k, s)))) = Some (new_active xid key now ks s)"
    by (simp add: eq GetCurrentKey_def current_key_def load_append n_def)
qed

lemma change_status_good:
  assumes wf: "kms_wf c (k, s)" and g: "getKey c i s k = (Inr (r, key), k1)"
    and na: "kk_Status key \<noteq> KeyStatusActive" and st: "st \<noteq> KeyStatusActive"
    and key': "kk_ID key' = kk_ID key" "kk_Status key' = st" "kk_KeyMaterial key' = kk_KeyMaterial key"
    and u: "UpdateEncryptionKeyStatus i st at now s = (res, s')"
  shows "res = Inr ()" and "kms_good c (k, s) (cacheKey (kk_ID key) r (set_key r key' k1), s')"
    and "\<exists>sk. key_map s i = Some sk \<and> key_map s' = (key_map s)(i \<mapsto> with_key_status st at now sk)"
proof -
  have ok: "kms_ok c k (key_map s)" and t: "table_ok (encryptionKeys s)" using wf by (simp_all add: kms_wf_def)
  have g1: "kms_ok c k1 (key_map s)" "kms_masterKey k1 = kms_masterKey k" "kms_cache k1 i = Some r"
      "load (kms_objs k1) r = Some key" "kk_ID key = i"
    using getKey_ok [OF ok g] by simp_all
  obtain sk where sk: "key_map s i = Some sk"
      "kms_ok c (cacheKey i r (set_key r key' k1)) ((key_map s)(i \<mapsto> with_key_status st at now sk))"
    by (rule kms_ok_status [OF g1(1,3,4) na st, where key' = key' and at = at and now = now]) (use key' g1(5) in simp_all)
  note um = UpdateEncryptionKeyStatus_map [OF t sk(1) u]
  show "res = Inr ()" by (rule um)
  show "kms_good c (k, s) (cacheKey (kk_ID key) r (set_key r key' k1), s')"
    using sk um g1(2,5) by (auto simp: kms_good_def kms_wf_def keys_kept_def)
  show "\<exists>sk. key_map s i = Some sk \<and> key_map s' = (key_map s)(i \<mapsto> with_key_status st at now sk)"
    using sk(1) um(3) by blast
qed

lemma ScheduleKeyDeletion_good:
  assumes wf: "kms_wf c (k, s)"
  shows "kms_good c (k, s) (snd (ScheduleKeyDeletion c i grace now (k, s)))"
proof -
  obtain res k1 where g: "getKey c i s k = (res, k1)" by fastforce
  note gg = getKey_good [OF wf g]
  show ?thesis
  proof (cases res)
    case (Inr p)
    obtain r key where p: "p = (r, key)" by (cases p)
    obtain u s' where u: "UpdateEncryptionKeyStatus i KeyStatusScheduled (Some (now + grace)) now s = (u, s')" by fastforce
    note cs = change_status_good [OF wf g [unfolded Inr p] _ _ _ _ _ u,
        where key' = "key\<lparr>kk_Status := KeyStatusScheduled, kk_ScheduledDeletionAt := Some (now + grace), kk_DeletionCancelledAt := None\<rparr>"]
    show ?thesis
      using g gg Inr p u cs(1,2) by (auto simp: ScheduleKeyDeletion_def Let_def split: sum.splits)
  qed (use g gg in \<open>simp add: ScheduleKeyDeletion_def\<close>)
qed

lemma CancelKeyDeletion_good:
  assumes wf: "kms_wf c (k, s)"
  shows "kms_good c (k, s) (snd (CancelKeyDeletion c i now (k, s)))"
proof -
  obtain res k1 where g: "getKey c i s k = (res, k1)" by fastforce
  note gg = getKey_good [OF wf g]
  show ?thesis
  proof (cases res)
    case (Inr p)
    obtain r key where p: "p = (r, key)" by (cases p)
    obtain u s' where u: "UpdateEncryptionKeyStatus i KeyStatusInactive None now s = (u, s')" by fastforce
    note cs = change_status_good [OF wf g [unfolded Inr p] _ _ _ _ _ u,
        where key' = "key\<lparr>kk_Status := KeyStatusInactive, kk_ScheduledDeletionAt := None, kk_DeletionCancelledAt := Some now\<rparr>"]
    show ?thesis
      using g gg Inr p u cs(1,2) by (auto simp: CancelKeyDeletion_def split: sum.splits)
  qed (use g gg in \<open>simp add: CancelKeyDeletion_def\<close>)
qed

lemma DeleteKeyNow_good:
  assumes wf: "kms_wf c (k, s)"
  shows "kms_good c (k, s) (snd (DeleteKeyNow c i now (k, s)))"
proof -
  obtain res k1 where g: "getKey c i s k = (res, k1)" by fastforce
  note gg = getKey_good [OF wf g]
  show ?thesis
  proof (cases res)
    case (Inr p)
    obtain r key where p: "p = (r, key)" by (cases p)
    obtain u s' where u: "UpdateEncryptionKeyStatus i KeyStatusDeleted None now s = (u, s')" by fastforce
    note cs = change_status_good [OF wf g [unfolded Inr p] _ _ _ _ _ u, where key' = "key\<lparr>kk_Status := KeyStatusDeleted\<rparr>"]
    show ?thesis
      using g gg Inr p u cs(1,2) by (auto simp: DeleteKeyNow_def split: sum.splits)
  qed (use g gg in \<open>simp add: DeleteKeyNow_def\<close>)
qed

text \<open>The loop over the due keys.\<close>

definition deleted_if :: "time \<Rightarrow> EncryptionKey set \<Rightarrow> EncryptionKey \<Rightarrow> EncryptionKey" where
  "deleted_if now due sk =
     (if sk \<in> due \<and> deletion_due now sk then with_key_status KeyStatusDeleted None now sk else sk)"

lemma process_due_map:
  assumes "table_ok (encryptionKeys s)" and "distinct (map ek_ID sks)"
    and "\<forall>sk \<in> set sks. key_map s (ek_ID sk) = Some sk" and "keyed_by ek_ID (key_map s)"
    and "process_due now sks (n, s) = (n', s')"
  shows "table_ok (encryptionKeys s') \<and> key_map s' = (\<lambda>i. map_option (deleted_if now (set sks)) (key_map s i)) \<and>
    n' = n + int (length (filter (deletion_due now) sks)) \<and> (filter (deletion_due now) sks = [] \<longrightarrow> s' = s)"
  using assms
proof (induction sks arbitrary: n s)
  case Nil
  then show ?case by (auto simp: deleted_if_def option.map_ident)
next
  case (Cons sk sks)
  show ?case
  proof (cases "deletion_due now sk")
    case False
    then have "process_due now sks (n, s) = (n', s')" using Cons.prems(5) by simp
    moreover have "deleted_if now (set (sk # sks)) = deleted_if now (set sks)"
      using False by (auto simp: deleted_if_def fun_eq_iff)
    ultimately show ?thesis using Cons.IH [of s n] Cons.prems False by simp
  next
    case True
    obtain u s1 where u: "UpdateEncryptionKeyStatus (ek_ID sk) KeyStatusDeleted None now s = (u, s1)" by fastforce
    have sk: "key_map s (ek_ID sk) = Some sk" using Cons.prems(3) by simp
    note um = UpdateEncryptionKeyStatus_map [OF Cons.prems(1) sk u]
    have p: "process_due now sks (n + 1, s1) = (n', s')" using Cons.prems(5) True u um(1) by simp
    have other: "key_map s1 (ek_ID x) = Some x" if "x \<in> set sks" for x
    proof -
      have "ek_ID x \<noteq> ek_ID sk" using that Cons.prems(2) by (metis distinct.simps(2) image_eqI list.set_map list.simps(9))
      then show ?thesis using that Cons.prems(3) by (simp add: um(3))
    qed
    have kb: "keyed_by ek_ID (key_map s1)" using Cons.prems(4) by (auto simp: um(3) keyed_by_def)
    have ih: "table_ok (encryptionKeys s') \<and> key_map s' = (\<lambda>i. map_option (deleted_if now (set sks)) (key_map s1 i)) \<and>
        n' = n + 1 + int (length (filter (deletion_due now) sks)) \<and> (filter (deletion_due now) sks = [] \<longrightarrow> s' = s1)"
      using Cons.IH [OF um(2) _ _ kb p] Cons.prems(2) other by simp
    have "map_option (deleted_if now (set sks)) (key_map s1 i) = map_option (deleted_if now (set (sk # sks))) (key_map s i)" for i
    proof (cases "i = ek_ID sk")
      case True
      then show ?thesis using sk \<open>deletion_due now sk\<close> by (simp add: um(3) deleted_if_def deletion_due_def)
    next
      case False
      then have "x \<noteq> sk" if "key_map s i = Some x" for x using Cons.prems(4) that by (auto simp: keyed_by_def)
      then show ?thesis using False by (cases "key_map s i") (auto simp: um(3) deleted_if_def)
    qed
    then show ?thesis using ih True by auto
  qed
qed

lemma ListEncryptionKeys_facts:
  assumes "table_ok (encryptionKeys s)" and "keyed_by ek_ID (key_map s)" and "enumerates ks (fst (encryptionKeys s))"
  shows "distinct (map ek_ID (ListEncryptionKeys ks s))" and "\<forall>sk \<in> set (ListEncryptionKeys ks s). key_map s (ek_ID sk) = Some sk"
    and "set (ListEncryptionKeys ks s) = ran (key_map s)"
proof -
  have l: "ListEncryptionKeys ks s = map (\<lambda>k. the (key_map s k)) ks"
    using table_objs_deref [OF assms(1,3)] by (simp add: ListEncryptionKeys_def key_map_def)
  have d: "set ks = dom (key_map s)" "distinct ks"
    using assms(1,3) by (simp_all add: enumerates_def key_map_def dom_tlook)
  have "map ek_ID (ListEncryptionKeys ks s) = ks"
    unfolding l map_map using d(1) assms(2) by (intro map_idI) (auto simp: keyed_by_def dom_def)
  then show "distinct (map ek_ID (ListEncryptionKeys ks s))" using d(2) by simp
  show "set (ListEncryptionKeys ks s) = ran (key_map s)"
    using set_table_objs [OF assms(1,3)] by (simp add: ListEncryptionKeys_def key_map_def)
  then show "\<forall>sk \<in> set (ListEncryptionKeys ks s). key_map s (ek_ID sk) = Some sk"
    using assms(2) by (auto simp: ran_def keyed_by_def)
qed

lemma ProcessScheduledDeletions_effect:
  assumes wf: "kms_wf c (k, s)" and ks: "enumerates ks (fst (encryptionKeys s))"
    and p: "ProcessScheduledDeletions now ks (k, s) = (n, k', s')"
  shows "kms_good c (k, s) (k', s')"
    and "key_map s' = (\<lambda>i. map_option (deleted_if now (ran (key_map s))) (key_map s i))"
proof -
  have ok: "kms_ok c k (key_map s)" and t: "table_ok (encryptionKeys s)" using wf by (simp_all add: kms_wf_def)
  note ok' = kms_okD [OF ok]
  have kb: "keyed_by ek_ID (key_map s)" using ok'(3) by (simp add: stored_ok_def)
  note lf = ListEncryptionKeys_facts [OF t kb ks]
  have pd: "process_due now (ListEncryptionKeys ks s) (0, s) = (n, s')" and k': "k' = (if n > 0 then invalidateCache k else k)"
    using p by (auto simp: ProcessScheduledDeletions_def split: prod.splits)
  note pm = process_due_map [OF t lf(1,2) kb pd]
  show km: "key_map s' = (\<lambda>i. map_option (deleted_if now (ran (key_map s))) (key_map s i))"
    using pm lf(3) by simp
  have mat: "material c k' = material c k" by (rule material_cong) (simp add: k')
  have same: "material c k (deleted_if now D sk) = material c k sk" "ek_ID (deleted_if now D sk) = ek_ID sk"
      "ek_Status (deleted_if now D sk) = KeyStatusActive \<longleftrightarrow> ek_Status sk = KeyStatusActive"
      "ek_Status sk = KeyStatusActive \<Longrightarrow> deleted_if now D sk = sk" for D sk
    by (simp_all add: deleted_if_def deletion_due_def)
  have "keys_kept c (k, s) (k', s')" by (auto simp: keys_kept_def km same k')
  moreover have "kms_ok c k' (key_map s')"
  proof (cases "n > 0")
    case True
    have "stored_ok c k' (key_map s')" using ok'(3) by (auto simp: stored_ok_def mat km same keyed_by_def)
    moreover have "cached_ok c k' (key_map s')" using True by (simp add: cached_ok_def k')
    moreover have "current_ok c k' (key_map s')"
      unfolding current_ok_def mat
    proof (intro conjI allI impI)
      fix r
      assume "kms_currentKey k' = Some r"
      then have r: "kms_currentKey k = Some r" by (simp add: k' split: if_splits)
      then obtain key where key: "load (kms_objs k) r = Some key" using ok'(5) unfolding current_ok_def by blast
      from current_stored [OF ok'(5) r key] obtain sk where "key_map s (kk_ID key) = Some sk" "ek_Status sk = KeyStatusActive"
        "material c k sk = Some (kk_KeyMaterial key)" "kk_Status key = KeyStatusActive" .
      with key show "\<exists>key sk. load (kms_objs k') r = Some key \<and> kk_Status key = KeyStatusActive \<and>
          key_map s' (kk_ID key) = Some sk \<and> ek_Status sk = KeyStatusActive \<and> material c k sk = Some (kk_KeyMaterial key)"
        by (intro exI [of _ key] exI [of _ sk]) (simp add: k' km same(4))
    next
      fix i sk'
      assume "key_map s' i = Some sk'" "ek_Status sk' = KeyStatusActive"
      then obtain sk where "key_map s i = Some sk" "ek_Status sk = KeyStatusActive" by (auto simp: km same(3))
      from current_only [OF ok'(5) this]
      show "\<exists>r key. kms_currentKey k' = Some r \<and> load (kms_objs k') r = Some key \<and> kk_ID key = i" by (simp add: k') blast
    qed
    ultimately show ?thesis using ok'(1,2) by (simp add: kms_ok_def k')
  next
    case False
    then have "filter (deletion_due now) (ListEncryptionKeys ks s) = []" using pm by simp
    then have "s' = s" using pm by blast
    then show ?thesis using False ok by (simp add: k')
  qed
  ultimately show "kms_good c (k, s) (k', s')" using pm by (simp add: kms_good_def kms_wf_def)
qed

lemma Decrypt_good: "kms_wf c (k, s) \<Longrightarrow> kms_good c (k, s) (snd (Decrypt c text (k, s)), s)"
  by (auto simp: Decrypt_def kms_good_refl getKey_good split: list.split option.split prod.split sum.split)

section \<open>Every run of the service\<close>

text \<open>One call on the service, or any other change of the store that leaves the key table alone. New
  identifiers (\<open>xid.New()\<close>) are unused and contain no colon; random sources yield the bytes asked for.\<close>

inductive kms_step :: "aead \<Rightarrow> KMS \<times> SecurityStore \<Rightarrow> KMS \<times> SecurityStore \<Rightarrow> bool" for c where
  init: "key_map s xid = None \<Longrightarrow> CHR '':'' \<notin> set xid \<Longrightarrow> length key = 32 \<Longrightarrow> nonce_bytes nr \<Longrightarrow>
    kms_step c (k, s) (snd (Initialize c xid (Inr key) nr now ks (k, s)))"
| rotate: "key_map s xid = None \<Longrightarrow> CHR '':'' \<notin> set xid \<Longrightarrow> length key = 32 \<Longrightarrow> nonce_bytes nr \<Longrightarrow>
    kms_step c (k, s) (snd (RotateKey c xid (Inr key) nr now ks (k, s)))"
| schedule: "kms_step c (k, s) (snd (ScheduleKeyDeletion c i grace now (k, s)))"
| cancel: "kms_step c (k, s) (snd (CancelKeyDeletion c i now (k, s)))"
| delete: "kms_step c (k, s) (snd (DeleteKeyNow c i now (k, s)))"
| process: "enumerates ks (fst (encryptionKeys s)) \<Longrightarrow>
    kms_step c (k, s) (snd (ProcessScheduledDeletions now ks (k, s)))"
| decrypt: "kms_step c (k, s) (snd (Decrypt c text (k, s)), s)"
| other: "encryptionKeys s' = encryptionKeys s \<Longrightarrow> kms_step c (k, s) (k, s')"

abbreviation kms_steps :: "aead \<Rightarrow> KMS \<times> SecurityStore \<Rightarrow> KMS \<times> SecurityStore \<Rightarrow> bool" where
  "kms_steps c \<equiv> (kms_step c)\<^sup>*\<^sup>*"

lemma kms_step_good: "kms_step c p p' \<Longrightarrow> kms_wf c p \<Longrightarrow> kms_good c p p'"
proof (induction rule: kms_step.induct)
  case (process ks s k now)
  then show ?case using ProcessScheduledDeletions_effect(1) by (metis prod.collapse)
next
  case (other s' s k)
  then have "key_map s' = key_map s" by (simp add: key_map_def)
  with other show ?case by (simp add: kms_good_def kms_wf_def keys_kept_def)
qed (simp_all add: Initialize_good RotateKey_effect(1) ScheduleKeyDeletion_good CancelKeyDeletion_good DeleteKeyNow_good Decrypt_good)

lemma kms_steps_good: "kms_steps c p p' \<Longrightarrow> kms_wf c p \<Longrightarrow> kms_good c p p'"
proof (induction rule: rtranclp_induct)
  case (step q t)
  then have "kms_good c p q" "kms_good c q t" using kms_step_good by (auto simp: kms_good_def)
  then show ?case unfolding kms_good_def by (metis keys_kept_trans prod.collapse)
qed (simp add: kms_good_refl)

text \<open>A store the service can start on: the wrapped keys open under the master key, and at most one is
  active.\<close>

definition key_store_ok :: "aead \<Rightarrow> MasterKey \<Rightarrow> SecurityStore \<Rightarrow> bool" where
  "key_store_ok c mk s \<longleftrightarrow> aead_lawful c \<and> length (mk_key mk) = 32 \<and> table_ok (encryptionKeys s) \<and>
     stored_ok c \<lparr>kms_masterKey = mk, kms_cache = Map.empty, kms_objs = [], kms_currentKey = None\<rparr> (key_map s) \<and>
     (\<forall>i j sk sk'. key_map s i = Some sk \<longrightarrow> key_map s j = Some sk' \<longrightarrow>
        ek_Status sk = KeyStatusActive \<longrightarrow> ek_Status sk' = KeyStatusActive \<longrightarrow> i = j)"

lemma NewKMS_wf:
  assumes ok: "key_store_ok c mk s" and ks: "enumerates ks (fst (encryptionKeys s))" and n: "NewKMS c (Some mk) ks s = Inr k"
  shows "kms_wf c (k, s)"
proof -
  let ?k0 = "\<lparr>kms_masterKey = mk, kms_cache = Map.empty, kms_objs = [], kms_currentKey = None\<rparr>"
  have t: "table_ok (encryptionKeys s)" and st: "stored_ok c ?k0 (key_map s)" using ok by (simp_all add: key_store_ok_def)
  let ?active = "\<lambda>sk. ek_Status sk = KeyStatusActive"
  have sr: "set (table_objs ks (encryptionKeys s)) = ran (key_map s)"
    using set_table_objs [OF t ks] by (simp add: key_map_def)
  show ?thesis
  proof (cases "find ?active (table_objs ks (encryptionKeys s))")
    case None
    then have "k = ?k0" using n by (simp add: NewKMS_def loadCurrentKey_def GetCurrentEncryptionKey_def found_def)
    moreover have "ek_Status sk \<noteq> KeyStatusActive" if "key_map s i = Some sk" for i sk
      using None sr that by (auto simp: find_None_iff ran_def)
    ultimately show ?thesis using ok by (auto simp: kms_wf_def kms_ok_def key_store_ok_def cached_ok_def current_ok_def)
  next
    case (Some sk)
    then have "sk \<in> ran (key_map s)" and act: "?active sk" using sr by (auto simp: find_Some_iff dest: nth_mem)
    then obtain i where i: "key_map s i = Some sk" by (auto simp: ran_def)
    have id: "ek_ID sk = i" using st i by (auto simp: stored_ok_def keyed_by_def)
    obtain b0 where "material c ?k0 sk = Some b0" using st i unfolding stored_ok_def by blast
    from fromStorageKey_total [OF this] obtain key where key: "fromStorageKey c ?k0 sk = Inr key" by blast
    note f = fromStorageKey_fields [OF key]
    have k: "k = \<lparr>kms_masterKey = mk, kms_cache = [i \<mapsto> 0], kms_objs = [key], kms_currentKey = Some 0\<rparr>"
      using n Some key f id
      by (simp add: NewKMS_def loadCurrentKey_def GetCurrentEncryptionKey_def found_def alloc_key_def new_obj_def cacheKey_def)
    have mat: "material c k = material c ?k0" by (rule material_cong) (simp add: k)
    have "stored_ok c k (key_map s)" using st stored_ok_cong [of k ?k0] by (simp add: k)
    moreover have "cached_ok c k (key_map s)" using i f id act mat by (auto simp: cached_ok_def agree_def k load_def)
    moreover have "current_ok c k (key_map s)"
      using ok i f id act mat unfolding current_ok_def key_store_ok_def by (auto simp: k load_def)
    ultimately show ?thesis using ok by (simp add: kms_wf_def kms_ok_def key_store_ok_def k)
  qed
qed

section \<open>Properties\<close>

lemma SplitN_versioned:
  assumes "CHR '':'' \<notin> set i"
  shows "SplitN (versioned i n ct) (CHR '':'') 4 = [''v1'', i, EncodeToString n, EncodeToString ct]"
proof -
  have "Split (versioned i n ct) (CHR '':'') = [''v1'', i, EncodeToString n, EncodeToString ct]"
    using assms EncodeToString_plain(1) Split_append [of "CHR '':''" "''v1''"]
    by (simp add: versioned_def Split_append Split_single)
  then show ?thesis by (simp add: SplitN_def)
qed

text \<open>Decryption of a ciphertext that names a stored key.\<close>

lemma Decrypt_versioned:
  assumes wf: "kms_wf c (k, s)" and sk: "key_map s i = Some sk" and m: "material c k sk = Some b"
    and n: "length nonce = 12"
  shows "fst (Decrypt c (versioned i nonce (Seal c b nonce p)) (k, s)) =
    Some (if ek_Status sk = KeyStatusDeleted then Inl (''key '' @ i @ '' has been deleted'') else Inr p)"
proof -
  have ok: "kms_ok c k (key_map s)" using wf by (simp add: kms_wf_def)
  note ok' = kms_okD [OF ok]
  have i: "CHR '':'' \<notin> set i" and "\<exists>b'. material c k sk = Some b' \<and> length b' = 32"
    using ok'(3) sk unfolding stored_ok_def by blast+
  then have b: "length b = 32" using m by auto
  obtain res k' where g: "getKey c i s k = (res, k')" by fastforce
  note gk = getKey_ok [OF ok g]
  then obtain r key where res: "res = Inr (r, key)" using sk by (cases res) auto
  have k': "kms_ok c k' (key_map s)" "kms_cache k' i = Some r" "load (kms_objs k') r = Some key" "kms_masterKey k' = kms_masterKey k"
    using gk res by simp_all
  obtain sk' where "key_map s i = Some sk'" "agree c k' sk' key" using cached_stored [OF kms_okD(4) [OF k'(1)] k'(2,3)] .
  then have a: "kk_KeyMaterial key = b" "kk_Status key = KeyStatusDeleted \<longleftrightarrow> ek_Status sk = KeyStatusDeleted"
    using sk m material_cong [OF k'(4), of c] by (auto simp: agree_def)
  have "gcm_Open c b nonce (Seal c b nonce p) = Some (Inr p)"
    using ok'(1) b n by (simp add: gcm_Open_Seal key_size_ok_def NonceSize_def)
  then show ?thesis using a b
    by (simp add: Decrypt_def SplitN_versioned [OF i] g res open_with_def NewCipher_def key_size_ok_def)
qed

text \<open>A concrete cipher and a service that has just been initialised.\<close>

definition wit_cipher :: aead where
  "wit_cipher = \<lparr>Seal = (\<lambda>_ _ p. p), Open = (\<lambda>_ _ ct. Some ct)\<rparr>"

definition wit_bytes :: "nat \<Rightarrow> string" where
  "wit_bytes n = replicate n CHR ''k''"

definition wit_kms :: KMS where
  "wit_kms = \<lparr>kms_masterKey = \<lparr>mk_key = wit_bytes 32, mk_keyID = ''m''\<rparr>, kms_cache = Map.empty, kms_objs = [], kms_currentKey = None\<rparr>"

definition wit_started :: "KMS \<times> SecurityStore" where
  "wit_started = snd (Initialize wit_cipher ''k1'' (Inr (wit_bytes 32)) (Inr (wit_bytes 12)) 5 [] (wit_kms, NewSecurityStore))"

definition wit_key :: KmsKey where
  "wit_key = \<lparr>kk_ID = ''k1'', kk_Version = 1, kk_KeyMaterial = wit_bytes 32, kk_Algorithm = ''AES-256-GCM'',
     kk_Status = KeyStatusActive, kk_CreatedAt = 5, kk_ActivatedAt = Some 5, kk_DeactivatedAt = None,
     kk_ScheduledDeletionAt = None, kk_DeletionCancelledAt = None\<rparr>"

lemma wit_simps [simp]:
  "aead_lawful wit_cipher" "length (wit_bytes n) = n" "Seal wit_cipher key nonce p = p"
  "Open wit_cipher key nonce p = Some p" "nonce_bytes (Inr (wit_bytes 12))" "key_size_ok (wit_bytes 32)"
  "key_map NewSecurityStore = Map.empty" "encryptionKeys NewSecurityStore = empty_table"
  by (simp_all add: aead_lawful_def wit_cipher_def wit_bytes_def nonce_bytes_def NonceSize_def key_size_ok_def
      key_map_def NewSecurityStore_def MemoryStore.defs empty_table_def tlook_def)

lemma wit_ready:
  "key_store_ok wit_cipher (kms_masterKey wit_kms) NewSecurityStore"
  "enumerates [] (fst (encryptionKeys NewSecurityStore))"
  "NewKMS wit_cipher (Some (kms_masterKey wit_kms)) [] NewSecurityStore = Inr wit_kms"
  by (simp_all add: key_store_ok_def stored_ok_def keyed_by_def enumerates_def empty_table_def table_ok_def NewKMS_def
      loadCurrentKey_def GetCurrentEncryptionKey_def table_objs_def range_objs_def ref_range_def found_def wit_kms_def)

lemma wit_started_steps: "kms_steps wit_cipher (wit_kms, NewSecurityStore) (fst wit_started, snd wit_started)"
  unfolding wit_started_def prod.collapse by (rule r_into_rtranclp) (rule kms_step.init, simp_all)

lemma wit_started_kms:
  "fst wit_started = wit_kms\<lparr>kms_cache := [''k1'' \<mapsto> 0], kms_objs := [wit_key], kms_currentKey := Some 0\<rparr>"
  by (simp add: wit_started_def Initialize_def generateKey_def saveKey_def toStorageKey_def MasterKey_Encrypt_def NewCipher_def
      SaveEncryptionKey_def alloc_key_def new_obj_def cacheKey_def wit_kms_def wit_key_def next_version_def ListEncryptionKeys_def
      table_objs_def range_objs_def ref_range_def Let_def)

lemma wit_started_store: "fst (encryptionKeys (snd wit_started)) = [''k1'' \<mapsto> 0]"
  by (simp add: wit_started_def Initialize_def generateKey_def saveKey_def toStorageKey_def MasterKey_Encrypt_def NewCipher_def
      SaveEncryptionKey_def alloc_key_def new_obj_def wit_kms_def table_eval)

lemma wit_no_colon: "CHR '':'' \<notin> set ''k2''"
  by simp

text \<open>C5: what is encrypted stays readable through the life of its key. Whatever the service did before
  and whatever calls follow (rotations, scheduled, cancelled and executed deletions, decryptions, other
  changes of the store), a text encrypted at one moment decrypts to itself at every later moment, unless
  its key has been deleted by then; in that case the result is exactly the error that says so.\<close>

theorem Encrypt_Decrypt_later:
  assumes "key_store_ok c mk s0" and "enumerates ks (fst (encryptionKeys s0))" and "NewKMS c (Some mk) ks s0 = Inr k0"
    and "kms_steps c (k0, s0) (k, s)" and "length nonce = 12" and "Encrypt c (Inr nonce) plaintext k = Inr text"
    and "kms_steps c (k, s) (k', s')"
  shows "\<exists>key sk. GetCurrentKey k = Some key \<and> GetEncryptionKey (kk_ID key) s' = Inr sk \<and>
    fst (Decrypt c text (k', s')) =
      Some (if ek_Status sk = KeyStatusDeleted then Inl (''key '' @ kk_ID key @ '' has been deleted'') else Inr plaintext)"
proof -
  have wf: "kms_wf c (k, s)"
    using kms_steps_good [OF assms(4) NewKMS_wf [OF assms(1-3)]] by (simp add: kms_good_def)
  then have ok: "kms_ok c k (key_map s)" by (simp add: kms_wf_def)
  note ok' = kms_okD [OF ok]
  obtain r key where cur: "current_key k = Some (r, key)"
    and tx: "text = versioned (kk_ID key) nonce (Seal c (kk_KeyMaterial key) nonce plaintext)"
    using assms(6) by (auto simp: Encrypt_def NewCipher_def split: option.splits if_splits prod.splits)
  have c: "kms_currentKey k = Some r" "load (kms_objs k) r = Some key"
    using cur by (auto simp: current_key_def bind_eq_Some_conv)
  obtain sk where sk: "key_map s (kk_ID key) = Some sk" "material c k sk = Some (kk_KeyMaterial key)"
    using current_stored [OF ok'(5) c] by metis
  have g: "kms_good c (k, s) (k', s')" by (rule kms_steps_good [OF assms(7) wf])
  then obtain sk' where sk': "key_map s' (kk_ID key) = Some sk'" "material c k sk' = material c k sk" "kms_masterKey k' = kms_masterKey k"
    using sk(1) by (auto simp: kms_good_def keys_kept_def)
  have wf': "kms_wf c (k', s')" using g by (simp add: kms_good_def)
  have "material c k' sk' = Some (kk_KeyMaterial key)" using sk'(2,3) sk(2) material_cong [of k' k c] by simp
  from Decrypt_versioned [OF wf' sk'(1) this assms(5), of plaintext] sk'(1) cur tx show ?thesis
    by (simp add: GetCurrentKey_def GetEncryptionKey_def key_map_def)
qed

theorem Encrypt_Decrypt_later_witness:
  "\<exists>sk. let after = snd (RotateKey wit_cipher ''k2'' (Inr (wit_bytes 32)) (Inr (wit_bytes 12)) 9 [''k1''] wit_started)
     in GetEncryptionKey ''k1'' (snd after) = Inr sk \<and>
        fst (Decrypt wit_cipher (versioned ''k1'' (wit_bytes 12) ''pw'') after) =
          Some (if ek_Status sk = KeyStatusDeleted then Inl (''key k1 has been deleted'') else Inr ''pw'')"
proof -
  let ?after = "snd (RotateKey wit_cipher ''k2'' (Inr (wit_bytes 32)) (Inr (wit_bytes 12)) 9 [''k1''] wit_started)"
  have cur: "GetCurrentKey (fst wit_started) = Some wit_key"
    by (simp add: wit_started_kms GetCurrentKey_def current_key_def load_def)
  have enc: "Encrypt wit_cipher (Inr (wit_bytes 12)) ''pw'' (fst wit_started) = Inr (versioned ''k1'' (wit_bytes 12) ''pw'')"
    by (simp add: wit_started_kms Encrypt_def current_key_def load_def NewCipher_def wit_key_def)
  have "key_map (snd wit_started) ''k2'' = None"
    by (simp add: key_map_def tlook_def deref_def wit_started_store)
  then have "kms_steps wit_cipher (fst wit_started, snd wit_started) (fst ?after, snd ?after)"
    unfolding prod.collapse
    by (metis kms_step.rotate prod.collapse r_into_rtranclp wit_simps(2,5) wit_no_colon)
  from Encrypt_Decrypt_later [OF wit_ready wit_started_steps wit_simps(2) enc this] cur obtain sk where
    "GetEncryptionKey (kk_ID wit_key) (snd ?after) = Inr sk"
    "fst (Decrypt wit_cipher (versioned ''k1'' (wit_bytes 12) ''pw'') (fst ?after, snd ?after)) =
       Some (if ek_Status sk = KeyStatusDeleted then Inl (''key '' @ kk_ID wit_key @ '' has been deleted'') else Inr ''pw'')"
    by (auto simp del: prod.collapse)
  then show ?thesis unfolding Let_def by (intro exI [of _ sk]) (simp add: wit_key_def)
qed

text \<open>C6: there is never more than one active key, and the service and the store agree on which. In every
  state the service reaches: two active stored keys are the same key; if the service has a current key,
  it is active and the store returns it as the current key whatever order its map is visited in; if it has
  none, the store has none.\<close>

theorem kms_one_active_key:
  assumes "key_store_ok c mk s0" and "enumerates ks0 (fst (encryptionKeys s0))" and "NewKMS c (Some mk) ks0 s0 = Inr k0"
    and "kms_steps c (k0, s0) (k, s)" and "enumerates ks (fst (encryptionKeys s))"
  shows "(case GetCurrentKey k of
      None \<Rightarrow> GetCurrentEncryptionKey ks s = Inl ErrNotFound
    | Some key \<Rightarrow> kk_Status key = KeyStatusActive \<and>
        (\<exists>sk. GetCurrentEncryptionKey ks s = Inr sk \<and> GetEncryptionKey (kk_ID key) s = Inr sk))
    \<and> (\<forall>i j sk sk'. GetEncryptionKey i s = Inr sk \<longrightarrow> GetEncryptionKey j s = Inr sk' \<longrightarrow>
         ek_Status sk = KeyStatusActive \<longrightarrow> ek_Status sk' = KeyStatusActive \<longrightarrow> i = j)"
proof -
  have wf: "kms_wf c (k, s)"
    using kms_steps_good [OF assms(4) NewKMS_wf [OF assms(1-3)]] by (simp add: kms_good_def)
  then have ok: "kms_ok c k (key_map s)" and t: "table_ok (encryptionKeys s)" by (simp_all add: kms_wf_def)
  note ok' = kms_okD [OF ok]
  let ?active = "\<lambda>sk. ek_Status sk = KeyStatusActive"
  have sr: "set (table_objs ks (encryptionKeys s)) = ran (key_map s)"
    using set_table_objs [OF t assms(5)] by (simp add: key_map_def)
  have only: "i = j" if "key_map s i = Some a" "key_map s j = Some b" "?active a" "?active b" for i j a b
    using current_only [OF ok'(5) that(1,3)] current_only [OF ok'(5) that(2,4)] by (metis option.inject)
  have "case GetCurrentKey k of
      None \<Rightarrow> GetCurrentEncryptionKey ks s = Inl ErrNotFound
    | Some key \<Rightarrow> kk_Status key = KeyStatusActive \<and>
        (\<exists>sk. GetCurrentEncryptionKey ks s = Inr sk \<and> GetEncryptionKey (kk_ID key) s = Inr sk)"
  proof (cases "current_key k")
    case None
    then have "\<not> ?active a" if "key_map s i = Some a" for i a
      using current_key_None [OF ok None] current_only [OF ok'(5) that] by auto
    then have "find ?active (table_objs ks (encryptionKeys s)) = None" using sr by (auto simp: find_None_iff ran_def)
    with None show ?thesis by (simp add: GetCurrentKey_def GetCurrentEncryptionKey_def)
  next
    case (Some p)
    obtain r key where p: "p = (r, key)" by (cases p)
    have c: "kms_currentKey k = Some r" "load (kms_objs k) r = Some key"
      using Some p by (auto simp: current_key_def bind_eq_Some_conv)
    obtain sk where sk: "key_map s (kk_ID key) = Some sk" "?active sk" "kk_Status key = KeyStatusActive"
      using current_stored [OF ok'(5) c] by metis
    have "sk \<in> set (table_objs ks (encryptionKeys s))" using sr sk(1) by (auto simp: ran_def)
    then obtain a where a: "find ?active (table_objs ks (encryptionKeys s)) = Some a"
      using sk(2) by (metis (mono_tags) find_None_iff option.exhaust)
    then have "a \<in> ran (key_map s)" "?active a" using sr by (auto simp: find_Some_iff dest: nth_mem)
    then have "a = sk" using only sk(1,2) by (auto simp: ran_def) (metis option.inject)
    with a sk Some p show ?thesis
      by (simp add: GetCurrentKey_def GetCurrentEncryptionKey_def GetEncryptionKey_def key_map_def)
  qed
  then show ?thesis using only by (simp add: GetEncryptionKey_def key_map_def)
qed

theorem kms_one_active_key_witness:
  "\<exists>sk. GetCurrentEncryptionKey [''k1''] (snd wit_started) = Inr sk \<and> GetEncryptionKey ''k1'' (snd wit_started) = Inr sk"
proof -
  have cur: "GetCurrentKey (fst wit_started) = Some wit_key"
    by (simp add: wit_started_kms GetCurrentKey_def current_key_def load_def)
  have "enumerates [''k1''] (fst (encryptionKeys (snd wit_started)))" by (simp add: wit_started_store enumerates_def)
  from kms_one_active_key [OF wit_ready wit_started_steps this] cur show ?thesis by (simp add: wit_key_def)
qed

section \<open>Where the service falls short\<close>

text \<open>The nonce of a ciphertext is not checked: one of another length than twelve bytes makes the standard
  library panic.\<close>

lemma Decrypt_panics:
  assumes wf: "kms_wf c (k, s)" and sk: "key_map s i = Some sk" "ek_Status sk \<noteq> KeyStatusDeleted" and n: "length nonce \<noteq> 12"
  shows "fst (Decrypt c (versioned i nonce ct) (k, s)) = None"
proof -
  have ok: "kms_ok c k (key_map s)" using wf by (simp add: kms_wf_def)
  note ok' = kms_okD [OF ok]
  have i: "CHR '':'' \<notin> set i" and "\<exists>b. material c k sk = Some b \<and> length b = 32"
    using ok'(3) sk unfolding stored_ok_def by blast+
  then obtain b where b: "material c k sk = Some b" "length b = 32" by blast
  obtain res k' where g: "getKey c i s k = (res, k')" by fastforce
  note gk = getKey_ok [OF ok g]
  then obtain r key where res: "res = Inr (r, key)" using sk by (cases res) auto
  have k': "kms_ok c k' (key_map s)" "kms_cache k' i = Some r" "load (kms_objs k') r = Some key" "kms_masterKey k' = kms_masterKey k"
    using gk res by simp_all
  obtain sk' where "key_map s i = Some sk'" "agree c k' sk' key" using cached_stored [OF kms_okD(4) [OF k'(1)] k'(2,3)] .
  then have "kk_KeyMaterial key = b" "kk_Status key \<noteq> KeyStatusDeleted"
    using sk b material_cong [OF k'(4), of c] by (auto simp: agree_def)
  then show ?thesis using b n
    by (simp add: Decrypt_def SplitN_versioned [OF i] g res open_with_def NewCipher_def key_size_ok_def gcm_Open_def NonceSize_def)
qed

text \<open>Once the cache has been emptied (which \<open>ProcessScheduledDeletions\<close> does), reading the current key puts a
  second copy of it into the cache.\<close>

lemma getKey_second_copy:
  assumes "kms_wf c (k, s)" and "current_key k = Some (r, cur)" and "getKey c (kk_ID cur) s (invalidateCache k) = (Inr (r', key), k')"
  shows "r' \<noteq> r \<and> kms_cache k' (kk_ID cur) = Some r' \<and> current_key k' = Some (r, cur) \<and>
    load (kms_objs k') r' = Some key \<and> kk_Status key = KeyStatusActive"
proof -
  have ok: "kms_ok c k (key_map s)" using assms(1) by (simp add: kms_wf_def)
  note ok' = kms_okD [OF ok]
  have c: "kms_currentKey k = Some r" "load (kms_objs k) r = Some cur"
    using assms(2) by (auto simp: current_key_def bind_eq_Some_conv)
  obtain sk where sk: "key_map s (kk_ID cur) = Some sk" "ek_Status sk = KeyStatusActive"
    using current_stored [OF ok'(5) c] by metis
  have id: "ek_ID sk = kk_ID cur" using ok'(3) sk(1) by (auto simp: stored_ok_def keyed_by_def)
  have f: "fromStorageKey c (invalidateCache k) sk = Inr key"
    and k': "r' = length (kms_objs k)" "k' = cacheKey (kk_ID key) r' (invalidateCache k\<lparr>kms_objs := kms_objs k @ [key]\<rparr>)"
    using assms(3) sk(1)
    by (auto simp: getKey_def GetEncryptionKey_def found_def key_map_def alloc_key_def new_obj_def split: sum.splits)
  have "r < length (kms_objs k)" using c(2) by (auto simp: load_def split: if_splits)
  with k' fromStorageKey_fields [OF f] sk id c show ?thesis
    by (simp add: current_key_def load_append)
qed

text \<open>A rotation then deactivates the old key in the store and in the object of the current key, but not in
  the cached copy, and the old key can be neither scheduled for deletion nor deleted.\<close>

lemma stale_copy_blocks_deletion:
  assumes "current_key k = Some (r, cur)" and "kms_cache k (kk_ID cur) = Some r'" and "r' \<noteq> r"
    and "load (kms_objs k) r' = Some key" and "kk_Status key = KeyStatusActive"
    and "xid \<noteq> kk_ID cur" and "RotateKey c xid keyRnd nonceRnd now ks (k, s) = (Inr newKey, k', s')"
  shows "fst (ScheduleKeyDeletion c (kk_ID cur) grace t (k', s')) = Some ''cannot schedule deletion of active key''"
    and "fst (DeleteKeyNow c (kk_ID cur) t (k', s')) = Some ''cannot delete active key''"
proof -
  have "kms_cache k' (kk_ID cur) = Some r' \<and> load (kms_objs k') r' = Some key"
    using assms
    by (auto simp: RotateKey_def generateKey_def deactivate_current_def alloc_key_def new_obj_def Let_def load_def assign_def
        nth_append cacheKey_def set_key_def split: sum.splits prod.splits option.splits if_splits)
  then have "getKey c (kk_ID cur) s' k' = (Inr (r', key), k')" by (simp add: getKey_def)
  with assms(5) show "fst (ScheduleKeyDeletion c (kk_ID cur) grace t (k', s')) = Some ''cannot schedule deletion of active key''"
    and "fst (DeleteKeyNow c (kk_ID cur) t (k', s')) = Some ''cannot delete active key''"
    by (simp_all add: ScheduleKeyDeletion_def DeleteKeyNow_def)
qed

text \<open>A rotation that fails after it has deactivated the current key leaves the service unable to encrypt.\<close>

lemma RotateKey_failure_locks_out:
  assumes wf: "kms_wf c (k, s)" and "current_key k = Some (r, cur)"
    and "RotateKey c xid (Inr key) (Inl e) now ks (k, s) = (res, k', s')"
  shows "(\<exists>e'. res = Inl e') \<and> Encrypt c rnd p k' = Inl ''current key is not active''"
proof -
  have ok: "kms_ok c k (key_map s)" using wf by (simp add: kms_wf_def)
  note ok' = kms_okD [OF ok]
  have c: "kms_currentKey k = Some r" "load (kms_objs k) r = Some cur"
    using assms(2) by (auto simp: current_key_def bind_eq_Some_conv)
  obtain sk where sk: "key_map s (kk_ID cur) = Some sk" using current_stored [OF ok'(5) c] by metis
  have r: "r < length (kms_objs k)" using c(2) by (auto simp: load_def split: if_splits)
  let ?cur = "cur\<lparr>kk_Status := KeyStatusInactive, kk_DeactivatedAt := Some now\<rparr>"
  have "fst (UpdateEncryptionKeyStatus (kk_ID cur) KeyStatusInactive None now s) = Inr ()"
    using sk by (simp add: UpdateEncryptionKeyStatus_def key_map_def)
  then have "(\<exists>e'. res = Inl e') \<and> k' = set_key r ?cur k"
    using assms(2,3)
    by (auto simp: RotateKey_def generateKey_def deactivate_current_def Let_def toStorageKey_def MasterKey_Encrypt_def
        split: sum.splits prod.splits)
  with r c show ?thesis
    by (auto simp: Encrypt_def current_key_def load_def assign_def)
qed

end
