(* ===== verification/Secret_Service.thy ===== *)
theory Secret_Service
  imports Kms Mem_Projects
begin

text \<open>
  \<open>internal/security/secrets.go\<close>: the secret service. It encrypts values with the key service and keeps
  them in the store. The service may have been built without a key service; then the operations that need
  one fail. A panic of \<open>Decrypt\<close> is the result \<open>None\<close>.
\<close>

section \<open>The store under the service\<close>

text \<open>An operation on the tables of the base store, run on the whole store.\<close>

definition on_base :: "(MemoryStore \<Rightarrow> 'r \<times> MemoryStore) \<Rightarrow> SecurityStore \<Rightarrow> 'r \<times> SecurityStore" where
  "on_base f s =
     (case f (MemoryStore.truncate s) of
        (r, m) \<Rightarrow> (r, MemoryStore.extend m
          \<lparr>certificateAuthorities = certificateAuthorities s, agentCertificates = agentCertificates s,
           serverCertificates = serverCertificates s, registrationTokens = registrationTokens s,
           sourceCredentials = sourceCredentials s, revokedCertificates = revokedCertificates s,
           encryptionKeys = encryptionKeys s, sshKeys = sshKeys s, certAuditEvents = certAuditEvents s,
           acmeCertificates = acmeCertificates s, acmeAccounts = acmeAccounts s,
           recoveryCodes = recoveryCodes s, recoveryObjs = recoveryObjs s\<rparr>))"

lemma truncate_extend [simp]: "MemoryStore.truncate (MemoryStore.extend m x) = m"
  by (cases m) (simp add: MemoryStore.defs)

lemma on_base_simps [simp]:
  "fst (on_base f s) = fst (f (MemoryStore.truncate s))"
  "MemoryStore.truncate (snd (on_base f s)) = snd (f (MemoryStore.truncate s))"
  "encryptionKeys (snd (on_base f s)) = encryptionKeys s"
  "key_map (snd (on_base f s)) = key_map s"
  by (simp_all add: on_base_def MemoryStore.extend_def key_map_def split: prod.split)
    (simp add: MemoryStore.extend_def [symmetric])

section \<open>Names\<close>

definition upper :: "char \<Rightarrow> bool" where
  "upper ch \<longleftrightarrow> of_char ch \<in> {65..90 :: nat}"

definition lower :: "char \<Rightarrow> bool" where
  "lower ch \<longleftrightarrow> of_char ch \<in> {97..122 :: nat}"

definition digit :: "char \<Rightarrow> bool" where
  "digit ch \<longleftrightarrow> of_char ch \<in> {48..57 :: nat}"

text \<open>The patterns \<open>^[A-Z][A-Z0-9_]{0,63}$\<close> and \<open>^[a-zA-Z][a-zA-Z0-9_-]{0,63}$\<close>.\<close>

fun secretKeyPattern :: "string \<Rightarrow> bool" where
  "secretKeyPattern [] = False"
| "secretKeyPattern (ch # rest) \<longleftrightarrow> upper ch \<and> length rest \<le> 63 \<and>
     list_all (\<lambda>x. upper x \<or> digit x \<or> x = CHR ''_'') rest"

fun projectNamePattern :: "string \<Rightarrow> bool" where
  "projectNamePattern [] = False"
| "projectNamePattern (ch # rest) \<longleftrightarrow> (lower ch \<or> upper ch) \<and> length rest \<le> 63 \<and>
     list_all (\<lambda>x. lower x \<or> upper x \<or> digit x \<or> x = CHR ''_'' \<or> x = CHR ''-'') rest"

definition ValidateSecretKey :: "string \<Rightarrow> string option" where
  "ValidateSecretKey key =
     (if key = '''' then Some ''key cannot be empty''
      else if length key > 64 then Some ''key cannot exceed 64 characters''
      else if \<not> secretKeyPattern key
        then Some ''key must start with uppercase letter, contain only A-Z, 0-9, underscore''
      else None)"

definition ValidateProjectName :: "string \<Rightarrow> string option" where
  "ValidateProjectName name =
     (if name = '''' then Some ''project name cannot be empty''
      else if length name > 64 then Some ''project name cannot exceed 64 characters''
      else if \<not> projectNamePattern name
        then Some ''project name must start with letter, contain only letters, numbers, hyphens, underscores''
      else None)"

lemma ValidateSecretKey_None: "ValidateSecretKey key = None \<longleftrightarrow> secretKeyPattern key"
  by (cases key) (auto simp: ValidateSecretKey_def)

lemma ValidateProjectName_None: "ValidateProjectName name = None \<longleftrightarrow> projectNamePattern name"
  by (cases name) (auto simp: ValidateProjectName_def)

section \<open>The service\<close>

record SecretEntry =
  se_ID :: string
  se_Project :: string
  se_Scope :: string
  se_Key :: string
  se_Value :: string
  se_CreatedAt :: time
  se_UpdatedAt :: time

record SecretMetadata =
  sm_ID :: string
  sm_Project :: string
  sm_Scope :: string
  sm_Key :: string
  sm_CreatedAt :: time
  sm_UpdatedAt :: time

type_synonym secret_service = "KMS option \<times> SecurityStore"

definition requireKMS :: "KMS option \<Rightarrow> string option" where
  "requireKMS kms = (if kms = None
     then Some ''KMS not configured: encryption/decryption operations are unavailable'' else None)"

definition Secret_Set ::
  "aead \<Rightarrow> random \<Rightarrow> time \<Rightarrow> string \<Rightarrow> string \<Rightarrow> string \<Rightarrow> string \<Rightarrow> string \<Rightarrow> secret_service \<Rightarrow> string option \<times> secret_service" where
  "Secret_Set c rnd now xid project scope key val = (\<lambda>(kms, s).
     case kms of
       None \<Rightarrow> (requireKMS kms, kms, s)
     | Some k \<Rightarrow>
         (case ValidateSecretKey key of
            Some e \<Rightarrow> (Some (''invalid secret key: '' @ e), kms, s)
          | None \<Rightarrow>
              if project = '''' then (Some ''project is required'', kms, s)
              else if scope = '''' then (Some ''scope is required'', kms, s)
              else
                (case Encrypt c rnd val k of
                   Inl e \<Rightarrow> (Some (''encrypting secret: '' @ e), kms, s)
                 | Inr encrypted \<Rightarrow>
                     (case on_base (SetSecretEncrypted project scope key encrypted now xid) s of
                        (Inl e, s') \<Rightarrow> (Some (''storing secret: '' @ store_err e), kms, s')
                      | (Inr _, s') \<Rightarrow> (None, kms, s')))))"

text \<open>\<open>Get\<close> returns a nil entry for a secret that does not exist.\<close>

definition Secret_Get ::
  "aead \<Rightarrow> string \<Rightarrow> string \<Rightarrow> string \<Rightarrow> secret_service \<Rightarrow> (string + SecretEntry option) option \<times> secret_service" where
  "Secret_Get c project scope key = (\<lambda>(kms, s).
     case kms of
       None \<Rightarrow> (Some (Inl (the (requireKMS kms))), kms, s)
     | Some k \<Rightarrow>
         (case GetSecret project scope key (MemoryStore.truncate s) of
            Inl ErrNotFound \<Rightarrow> (Some (Inr None), kms, s)
          | Inl e \<Rightarrow> (Some (Inl (''retrieving secret: '' @ store_err e)), kms, s)
          | Inr secret \<Rightarrow>
              (case Decrypt c (secret_ValueEncrypted secret) (k, s) of
                 (None, k') \<Rightarrow> (None, Some k', s)
               | (Some (Inl e), k') \<Rightarrow> (Some (Inl (''decrypting secret: '' @ e)), Some k', s)
               | (Some (Inr decrypted), k') \<Rightarrow>
                   (Some (Inr (Some \<lparr>se_ID = secret_ID secret, se_Project = secret_Project secret, se_Scope = secret_Scope secret,
                      se_Key = secret_Key secret, se_Value = decrypted, se_CreatedAt = secret_CreatedAt secret,
                      se_UpdatedAt = secret_UpdatedAt secret\<rparr>)), Some k', s))))"

definition Secret_Delete :: "time \<Rightarrow> string \<Rightarrow> string \<Rightarrow> string \<Rightarrow> secret_service \<Rightarrow> unit result \<times> secret_service" where
  "Secret_Delete now project scope key = (\<lambda>(kms, s).
     case on_base (DeleteSecretCtx project scope key now) s of (r, s') \<Rightarrow> (r, kms, s'))"

definition metadata :: "Secret \<Rightarrow> SecretMetadata" where
  "metadata sec = \<lparr>sm_ID = secret_ID sec, sm_Project = secret_Project sec, sm_Scope = secret_Scope sec,
     sm_Key = secret_Key sec, sm_CreatedAt = secret_CreatedAt sec, sm_UpdatedAt = secret_UpdatedAt sec\<rparr>"

definition Secret_List :: "string \<Rightarrow> string \<Rightarrow> string list \<Rightarrow> secret_service \<Rightarrow> SecretMetadata list" where
  "Secret_List project scope ks = (\<lambda>(kms, s). map metadata (ListSecretsWithScope project scope ks (MemoryStore.truncate s)))"

definition ListByProject :: "string \<Rightarrow> string list \<Rightarrow> secret_service \<Rightarrow> SecretMetadata list" where
  "ListByProject project ks = (\<lambda>(kms, s). map metadata (ListSecretsCtx project ks (MemoryStore.truncate s)))"

definition ListAll :: "string list \<Rightarrow> secret_service \<Rightarrow> SecretMetadata list" where
  "ListAll ks = (\<lambda>(kms, s). map metadata (ListAllSecretsCtx ks (MemoryStore.truncate s)))"

fun decrypt_each ::
  "aead \<Rightarrow> Secret list \<Rightarrow> (string \<rightharpoonup> string) \<Rightarrow> KMS \<times> SecurityStore \<Rightarrow> (string + (string \<rightharpoonup> string)) option \<times> KMS" where
  "decrypt_each c [] res (k, s) = (Some (Inr res), k)"
| "decrypt_each c (sec # secs) res (k, s) =
     (case Decrypt c (secret_ValueEncrypted sec) (k, s) of
        (None, k') \<Rightarrow> (None, k')
      | (Some (Inl e), k') \<Rightarrow> (Some (Inl (''decrypting secret '' @ secret_Key sec @ '': '' @ e)), k')
      | (Some (Inr decrypted), k') \<Rightarrow> decrypt_each c secs (res(secret_Key sec \<mapsto> decrypted)) (k', s))"

definition Export ::
  "aead \<Rightarrow> string \<Rightarrow> string \<Rightarrow> string list \<Rightarrow> secret_service \<Rightarrow> (string + (string \<rightharpoonup> string)) option \<times> secret_service" where
  "Export c project scope ks = (\<lambda>(kms, s).
     case kms of
       None \<Rightarrow> (Some (Inl (the (requireKMS kms))), kms, s)
     | Some k \<Rightarrow>
         (case decrypt_each c (ListSecretsWithScope project scope ks (MemoryStore.truncate s)) Map.empty (k, s) of
            (r, k') \<Rightarrow> (r, Some k', s)))"

definition env_escape :: "string \<Rightarrow> string" where
  "env_escape val =
     ReplaceAll (ReplaceAll (ReplaceAll val [CHR 0x5C] [CHR 0x5C, CHR 0x5C]) [CHR 0x22] [CHR 0x5C, CHR 0x22])
       [CHR 0x0A] [CHR 0x5C, CHR ''n'']"

definition env_line :: "string \<times> string \<Rightarrow> string" where
  "env_line = (\<lambda>(key, val). key @ ''='' @ [CHR 0x22] @ env_escape val @ [CHR 0x22])"

text \<open>\<open>order\<close> is the order in which the exported map is visited.\<close>

definition ExportEnvFile ::
  "aead \<Rightarrow> string \<Rightarrow> string \<Rightarrow> string list \<Rightarrow> string list \<Rightarrow> secret_service \<Rightarrow> (string + string) option \<times> secret_service" where
  "ExportEnvFile c project scope ks order svc =
     (case Export c project scope ks svc of
        (None, svc') \<Rightarrow> (None, svc')
      | (Some (Inl e), svc') \<Rightarrow> (Some (Inl e), svc')
      | (Some (Inr res), svc') \<Rightarrow> (Some (Inr (Join (map env_line (map_of_keys order res)) [CHR 0x0A])), svc'))"

fun Secret_Import ::
  "aead \<Rightarrow> (string \<Rightarrow> random) \<Rightarrow> time \<Rightarrow> (string \<Rightarrow> string) \<Rightarrow> string \<Rightarrow> string \<Rightarrow> (string \<times> string) list \<Rightarrow> secret_service \<Rightarrow> string option \<times> secret_service" where
  "Secret_Import c rnd now newID project scope [] svc = (None, svc)"
| "Secret_Import c rnd now newID project scope ((key, val) # rest) svc =
     (case Secret_Set c (rnd key) now (newID key) project scope key val svc of
        (Some e, svc') \<Rightarrow> (Some (''setting secret '' @ key @ '': '' @ e), svc')
      | (None, svc') \<Rightarrow> Secret_Import c rnd now newID project scope rest svc')"

text \<open>The loop of \<open>ReEncryptAll\<close> over the copies of the secrets it has listed.\<close>

fun reencrypt_each ::
  "aead \<Rightarrow> (Secret \<Rightarrow> random) \<Rightarrow> time \<Rightarrow> (Secret \<Rightarrow> string) \<Rightarrow> Secret list \<Rightarrow> KMS \<times> SecurityStore \<Rightarrow> string option option \<times> KMS \<times> SecurityStore" where
  "reencrypt_each c rnd now newID [] p = (Some None, p)"
| "reencrypt_each c rnd now newID (sec # secs) (k, s) =
     (case ReEncrypt c (rnd sec) (secret_ValueEncrypted sec) (k, s) of
        (None, k') \<Rightarrow> (None, k', s)
      | (Some (Inl e), k') \<Rightarrow>
          (Some (Some (''re-encrypting secret '' @ secret_Project sec @ ''/'' @ secret_Scope sec @ ''/'' @ secret_Key sec @ '': '' @ e)), k', s)
      | (Some (Inr reencrypted), k') \<Rightarrow>
          (case on_base (SetSecretEncrypted (secret_Project sec) (secret_Scope sec) (secret_Key sec) reencrypted now (newID sec)) s of
             (Inl e, s') \<Rightarrow> (Some (Some (''storing re-encrypted secret: '' @ store_err e)), k', s')
           | (Inr _, s') \<Rightarrow> reencrypt_each c rnd now newID secs (k', s')))"

text \<open>The outcome is \<open>None\<close> for a panic, \<open>Some err\<close> otherwise.\<close>

definition ReEncryptAll ::
  "aead \<Rightarrow> (Secret \<Rightarrow> random) \<Rightarrow> time \<Rightarrow> (Secret \<Rightarrow> string) \<Rightarrow> string list \<Rightarrow> secret_service \<Rightarrow> string option option \<times> secret_service" where
  "ReEncryptAll c rnd now newID ks = (\<lambda>(kms, s).
     case kms of
       None \<Rightarrow> (Some (requireKMS kms), kms, s)
     | Some k \<Rightarrow>
         (case reencrypt_each c rnd now newID (ListAllSecretsCtx ks (MemoryStore.truncate s)) (k, s) of
            (r, k', s') \<Rightarrow> (r, Some k', s')))"

section \<open>The cache does not show\<close>

lemma open_with_cong:
  "kk_KeyMaterial key = kk_KeyMaterial key' \<Longrightarrow> (kk_Status key = KeyStatusDeleted \<longleftrightarrow> kk_Status key' = KeyStatusDeleted) \<Longrightarrow>
     open_with c key i n ct = open_with c key' i n ct"
  by (simp add: open_with_def)

text \<open>What is read of a stored key: its bytes and whether it is deleted, from the cache or from the store.\<close>

lemma getKey_reads:
  assumes "kms_wf c (k, s)" and "getKey c i s k = (res, k')"
  shows "case res of
      Inl e \<Rightarrow> key_map s i = None \<and> e = ''key not found: '' @ i
    | Inr (r, key) \<Rightarrow> \<exists>sk. key_map s i = Some sk \<and> material c k sk = Some (kk_KeyMaterial key) \<and>
        (kk_Status key = KeyStatusDeleted \<longleftrightarrow> ek_Status sk = KeyStatusDeleted)"
proof (cases res)
  case (Inl e)
  with getKey_ok [OF _ assms(2)] assms(1) show ?thesis by (auto simp: kms_wf_def)
next
  case (Inr p)
  obtain r key where p: "p = (r, key)" by fastforce
  have ok: "kms_ok c k (key_map s)" using assms(1) by (simp add: kms_wf_def)
  note g = getKey_ok [OF ok assms(2)]
  have k': "kms_ok c k' (key_map s)" "kms_cache k' i = Some r" "load (kms_objs k') r = Some key" "kms_masterKey k' = kms_masterKey k"
    using g Inr p by simp_all
  obtain sk where "key_map s i = Some sk" "agree c k' sk key" using cached_stored [OF kms_okD(4) [OF k'(1)] k'(2,3)] .
  with Inr p material_cong [OF k'(4), of c] show ?thesis by (auto simp: agree_def)
qed

text \<open>The outcome of a decryption, given what \<open>getKey\<close> returned.\<close>

definition opened ::
  "aead \<Rightarrow> string \<Rightarrow> string \<Rightarrow> string \<Rightarrow> (string + ref \<times> KmsKey) \<times> KMS \<Rightarrow> (string + string) option" where
  "opened c i n ct = (\<lambda>(res, _). case res of Inl e \<Rightarrow> Some (Inl (''get key '' @ i @ '': '' @ e)) | Inr (r, key) \<Rightarrow> open_with c key i n ct)"

lemma opened_cong:
  assumes wf: "kms_wf c (k, s)" "kms_wf c (k', s')" and m: "key_map s' = key_map s" "kms_masterKey k' = kms_masterKey k"
  shows "opened c i n ct (getKey c i s' k') = opened c i n ct (getKey c i s k)"
proof -
  obtain r1 k1 r2 k2 where g: "getKey c i s k = (r1, k1)" "getKey c i s' k' = (r2, k2)" by fastforce
  show ?thesis
    using getKey_reads [OF wf(1) g(1)] getKey_reads [OF wf(2) g(2)] m material_cong [OF m(2), of c]
    by (auto simp: opened_def g split: sum.splits prod.splits intro!: open_with_cong)
qed

lemma fst_Decrypt:
  "fst (Decrypt c t (k, s)) =
     (case SplitN t (CHR '':'') 4 of
        [version, keyID, nonceB64, ciphertextB64] \<Rightarrow>
          (if version \<noteq> ''v1'' then Some (Inl (''unsupported ciphertext version: '' @ version))
           else (case DecodeString nonceB64 of
                   None \<Rightarrow> Some (Inl ''decode nonce: illegal base64 data'')
                 | Some nonce \<Rightarrow>
                     (case DecodeString ciphertextB64 of
                        None \<Rightarrow> Some (Inl ''decode ciphertext: illegal base64 data'')
                      | Some ct \<Rightarrow> opened c keyID nonce ct (getKey c keyID s k))))
      | _ \<Rightarrow> Some (Inl ''invalid ciphertext format''))"
  unfolding Decrypt_def opened_def by (simp split: list.split option.split prod.split sum.split)

lemma Decrypt_cong:
  assumes "kms_wf c (k, s)" "kms_wf c (k', s')" and "key_map s' = key_map s" "kms_masterKey k' = kms_masterKey k"
  shows "fst (Decrypt c t (k', s')) = fst (Decrypt c t (k, s))"
  unfolding fst_Decrypt opened_cong [OF assms] ..

lemma kms_wf_invalidate: "kms_wf c (k, s) \<Longrightarrow> kms_wf c (invalidateCache k, s)"
  by (auto simp: kms_wf_def kms_ok_def cached_ok_def current_ok_def stored_ok_def material_def)

lemma current_key_alloc: "kms_wf c (k, s) \<Longrightarrow> getKey c i s k = (res, k') \<Longrightarrow> current_key k' = current_key k"
proof -
  assume wf: "kms_wf c (k, s)" and g: "getKey c i s k = (res, k')"
  have cur: "r < length (kms_objs k)" if "kms_currentKey k = Some r" for r
    using wf that by (auto simp: kms_wf_def kms_ok_def current_ok_def load_def split: if_splits)
  show ?thesis using g cur
    by (auto simp: getKey_def current_key_def alloc_key_def new_obj_def load_def nth_append
        split: option.splits sum.splits prod.splits bind_splits)
qed

lemma current_key_Decrypt: "kms_wf c (k, s) \<Longrightarrow> current_key (snd (Decrypt c t (k, s))) = current_key k"
  by (auto simp: Decrypt_def current_key_alloc split: list.split option.split prod.split sum.split)

section \<open>Encrypted values\<close>

definition secret_map :: "SecurityStore \<Rightarrow> string \<rightharpoonup> Secret" where
  "secret_map s = deref (secrets (MemoryStore.truncate s)) (secretObjs (MemoryStore.truncate s))"

text \<open>A current key can always encrypt, and the result reads back.\<close>

lemma Encrypt_current:
  assumes wf: "kms_wf c (k, s)" and cur: "current_key k = Some (r, key)" and rnd: "nonce_bytes rnd"
  obtains n ct where "Encrypt c rnd p k = Inr (versioned (kk_ID key) n ct)"
    and "fst (Decrypt c (versioned (kk_ID key) n ct) (k, s)) = Some (Inr p)"
proof -
  have ok: "kms_ok c k (key_map s)" using wf by (simp add: kms_wf_def)
  note ok' = kms_okD [OF ok]
  obtain n where n: "rnd = Inr n" "length n = 12" using rnd by (auto simp: NonceSize_def elim: nonce_bytesE)
  have c: "kms_currentKey k = Some r" "load (kms_objs k) r = Some key"
    using cur by (auto simp: current_key_def bind_eq_Some_conv)
  obtain sk where sk: "key_map s (kk_ID key) = Some sk" "material c k sk = Some (kk_KeyMaterial key)"
      "ek_Status sk = KeyStatusActive" "kk_Status key = KeyStatusActive"
    using current_stored [OF ok'(5) c] by metis
  have "\<exists>b. material c k sk = Some b \<and> length b = 32" using ok'(3) sk(1) unfolding stored_ok_def by blast
  then have b: "length (kk_KeyMaterial key) = 32" using sk(2) by simp
  show thesis
  proof
    show "Encrypt c rnd p k = Inr (versioned (kk_ID key) n (Seal c (kk_KeyMaterial key) n p))"
      using cur sk(4) b n by (simp add: Encrypt_def NewCipher_def key_size_ok_def)
    show "fst (Decrypt c (versioned (kk_ID key) n (Seal c (kk_KeyMaterial key) n p)) (k, s)) = Some (Inr p)"
      using Decrypt_versioned [OF wf sk(1,2) n(2)] sk(3) by simp
  qed
qed

lemma Encrypt_Inr_current: "Encrypt c rnd p k = Inr t \<Longrightarrow> \<exists>r key. current_key k = Some (r, key)"
  by (auto simp: Encrypt_def split: option.splits)

text \<open>A change of the base tables does not concern the keys.\<close>

lemma kms_wf_on_base: "kms_wf c (k, s) \<Longrightarrow> kms_wf c (k, snd (on_base f s))"
  by (simp add: kms_wf_def)

lemma Decrypt_on_base: "kms_wf c (k, s) \<Longrightarrow> fst (Decrypt c t (k, snd (on_base f s))) = fst (Decrypt c t (k, s))"
  by (rule Decrypt_cong) (simp_all add: kms_wf_on_base)

lemma Decrypt_again:
  assumes "kms_wf c (k, s)" and "Decrypt c t (k, s) = (r, k')"
  shows "kms_wf c (k', s)" and "kms_masterKey k' = kms_masterKey k" and "current_key k' = current_key k"
    and "fst (Decrypt c t' (k', s)) = fst (Decrypt c t' (k, s))"
proof -
  have g: "kms_good c (k, s) (k', s)" using Decrypt_good [OF assms(1), of t] assms(2) by simp
  then show "kms_wf c (k', s)" and "kms_masterKey k' = kms_masterKey k" by (simp_all add: kms_good_def keys_kept_def)
  with assms(1) show "fst (Decrypt c t' (k', s)) = fst (Decrypt c t' (k, s))" by (intro Decrypt_cong) simp_all
  show "current_key k' = current_key k" using current_key_Decrypt [OF assms(1), of t] assms(2) by simp
qed

lemma secret_map_Set:
  assumes "secrets_wf (MemoryStore.truncate s)"
  shows "secret_map (snd (on_base (SetSecretEncrypted project scope key val now xid) s)) =
    (secret_map s)(secretKey project scope key \<mapsto>
      (case secret_map s (secretKey project scope key) of
         None \<Rightarrow> \<lparr>secret_ID = xid, secret_Project = project, secret_ProjectID = None, secret_Scope = scope,
             secret_Key = key, secret_ValueEncrypted = val, secret_CreatedAt = now, secret_UpdatedAt = now\<rparr>
       | Some x \<Rightarrow> x\<lparr>secret_ValueEncrypted := val, secret_UpdatedAt := now\<rparr>))"
    and "secrets_wf (MemoryStore.truncate (snd (on_base (SetSecretEncrypted project scope key val now xid) s)))"
    and "fst (on_base (SetSecretEncrypted project scope key val now xid) s) = Inr ()"
  using SetSecretEncrypted_deref(1) [OF assms refl, of project scope key val now xid]
    SetSecretEncrypted_secrets_wf [OF assms, of project scope key val now xid]
  by (simp_all add: secret_map_def SetSecretEncrypted_def Let_def split: option.split prod.split)

section \<open>Re-encryption\<close>

text \<open>The same secret, with a value that reads the same and perhaps a new time of update.\<close>

definition same_reading :: "aead \<Rightarrow> KMS \<times> SecurityStore \<Rightarrow> KMS \<times> SecurityStore \<Rightarrow> Secret option \<Rightarrow> Secret option \<Rightarrow> bool" where
  "same_reading c p p' x x' \<longleftrightarrow>
     (case (x, x') of
        (None, None) \<Rightarrow> True
      | (Some sec, Some sec') \<Rightarrow>
          (\<exists>v t. sec' = sec\<lparr>secret_ValueEncrypted := v, secret_UpdatedAt := t\<rparr>) \<and>
          fst (Decrypt c (secret_ValueEncrypted sec') p') = fst (Decrypt c (secret_ValueEncrypted sec) p)
      | _ \<Rightarrow> False)"

lemma Secret_self: "sec = sec\<lparr>secret_ValueEncrypted := secret_ValueEncrypted sec, secret_UpdatedAt := secret_UpdatedAt sec\<rparr>"
  by simp

lemma same_reading_refl: "(\<And>t. fst (Decrypt c t p') = fst (Decrypt c t p)) \<Longrightarrow> same_reading c p p' x x"
  unfolding same_reading_def by (cases x) (simp, use Secret_self in \<open>simp, blast\<close>)

lemma same_reading_trans: "same_reading c p q x y \<Longrightarrow> same_reading c q t y z \<Longrightarrow> same_reading c p t x z"
  by (auto simp: same_reading_def split: option.splits)

text \<open>The state after the loop, whatever its outcome: the keys are as before, and every secret reads as
  before.\<close>

definition reencrypted :: "aead \<Rightarrow> KMS \<times> SecurityStore \<Rightarrow> KMS \<times> SecurityStore \<Rightarrow> bool" where
  "reencrypted c = (\<lambda>(k, s) (k', s'). kms_wf c (k', s') \<and> secrets_wf (MemoryStore.truncate s') \<and> key_map s' = key_map s \<and>
     kms_masterKey k' = kms_masterKey k \<and> current_key k' = current_key k \<and>
     (\<forall>i. same_reading c (k, s) (k', s') (secret_map s i) (secret_map s' i)))"

lemma reencrypted_trans: "reencrypted c p q \<Longrightarrow> reencrypted c q t \<Longrightarrow> reencrypted c p t"
  unfolding reencrypted_def by (auto split: prod.splits intro: same_reading_trans)

lemma reencrypted_Decrypt:
  assumes "kms_wf c (k, s)" and "secrets_wf (MemoryStore.truncate s)" and "Decrypt c t (k, s) = (r, k')"
  shows "reencrypted c (k, s) (k', s)"
  using Decrypt_again [OF assms(1,3)] assms(2) by (auto simp: reencrypted_def intro: same_reading_refl)

text \<open>One iteration that succeeds.\<close>

definition sec_key :: "Secret \<Rightarrow> string" where
  "sec_key sec = secretKey (secret_Project sec) (secret_Scope sec) (secret_Key sec)"

lemma reencrypt_one:
  assumes wf: "kms_wf c (k, s)" "secrets_wf (MemoryStore.truncate s)" and sec: "secret_map s (sec_key sec) = Some sec"
    and rnd: "nonce_bytes rnd" and re: "ReEncrypt c rnd (secret_ValueEncrypted sec) (k, s) = (Some (Inr text), k')"
    and s': "s' = snd (on_base (SetSecretEncrypted (secret_Project sec) (secret_Scope sec) (secret_Key sec) text now xid) s)"
  shows "reencrypted c (k, s) (k', s')"
    and "secret_map s' = (secret_map s)(sec_key sec \<mapsto> sec\<lparr>secret_ValueEncrypted := text, secret_UpdatedAt := now\<rparr>)"
    and "\<exists>r key n ct. current_key k = Some (r, key) \<and> text = versioned (kk_ID key) n ct"
proof -
  obtain p where d: "Decrypt c (secret_ValueEncrypted sec) (k, s) = (Some (Inr p), k')" and e: "Encrypt c rnd p k' = Inr text"
    using re by (auto simp: ReEncrypt_def split: prod.splits option.splits sum.splits)
  note a = Decrypt_again [OF wf(1) d]
  obtain r key where cur: "current_key k' = Some (r, key)" using Encrypt_Inr_current [OF e] by blast
  obtain n ct where n: "text = versioned (kk_ID key) n ct" and t: "fst (Decrypt c text (k', s)) = Some (Inr p)"
    using Encrypt_current [OF a(1) cur rnd, of p] e by (metis Inr_inject)
  show "\<exists>r key n ct. current_key k = Some (r, key) \<and> text = versioned (kk_ID key) n ct" using cur n a(3) by auto
  show m: "secret_map s' = (secret_map s)(sec_key sec \<mapsto> sec\<lparr>secret_ValueEncrypted := text, secret_UpdatedAt := now\<rparr>)"
    using secret_map_Set(1) [OF wf(2)] sec by (simp add: s' sec_key_def)
  have b: "fst (Decrypt c t (k', s')) = fst (Decrypt c t (k, s))" for t
    unfolding s' using Decrypt_on_base [OF a(1)] a(4) by simp
  have "same_reading c (k, s) (k', s') (secret_map s i) (secret_map s' i)" for i
  proof (cases "i = sec_key sec")
    case True
    have "fst (Decrypt c text (k', s')) = Some (Inr p)" using t b a(4) by simp
    with True show ?thesis using d sec by (auto simp: m same_reading_def)
  next
    case False
    then show ?thesis using same_reading_refl [of c "(k', s')" "(k, s)", OF b] by (simp add: m)
  qed
  moreover have "kms_wf c (k', s')" "key_map s' = key_map s" unfolding s' using kms_wf_on_base [OF a(1)] by simp_all
  moreover have "secrets_wf (MemoryStore.truncate s')" unfolding s' by (rule secret_map_Set(2) [OF wf(2)])
  ultimately show "reencrypted c (k, s) (k', s')" using a(2,3) by (simp add: reencrypted_def)
qed

lemma ReEncrypt_Inr:
  assumes wf: "kms_wf c (k, s)" and "fst (Decrypt c t (k, s)) = Some (Inr p)" and "current_key k \<noteq> None" and "nonce_bytes rnd"
  shows "\<exists>text k'. ReEncrypt c rnd t (k, s) = (Some (Inr text), k')"
proof -
  obtain k' where d: "Decrypt c t (k, s) = (Some (Inr p), k')" using assms(2) by (metis eq_fst_iff)
  note a = Decrypt_again [OF wf d]
  obtain r key where "current_key k' = Some (r, key)" using assms(3) a(3) by auto
  from Encrypt_current [OF a(1) this assms(4), of p] d show ?thesis by (auto simp: ReEncrypt_def)
qed

lemma ReEncrypt_fails:
  assumes "kms_wf c (k, s)" and "secrets_wf (MemoryStore.truncate s)" and "ReEncrypt c rnd t (k, s) = (r, k')"
  shows "reencrypted c (k, s) (k', s)"
  using assms reencrypted_Decrypt [OF assms(1,2)]
  by (auto simp: ReEncrypt_def split: prod.splits option.splits sum.splits)

definition encrypted_under :: "KMS \<Rightarrow> SecurityStore \<Rightarrow> string \<Rightarrow> bool" where
  "encrypted_under k s i \<longleftrightarrow>
     (\<exists>sec r key n ct. secret_map s i = Some sec \<and> current_key k = Some (r, key) \<and> secret_ValueEncrypted sec = versioned (kk_ID key) n ct)"

lemma reencrypt_each_spec:
  assumes "kms_wf c (k, s)" and "secrets_wf (MemoryStore.truncate s)" and "\<forall>sec \<in> set secs. secret_map s (sec_key sec) = Some sec"
    and "distinct (map sec_key secs)" and "\<And>sec. nonce_bytes (rnd sec)" and "reencrypt_each c rnd now newID secs (k, s) = (r, k', s')"
  shows "reencrypted c (k, s) (k', s') \<and> (\<forall>i. i \<notin> sec_key ` set secs \<longrightarrow> secret_map s' i = secret_map s i) \<and>
    ((\<forall>sec \<in> set secs. \<exists>p. fst (Decrypt c (secret_ValueEncrypted sec) (k, s)) = Some (Inr p)) \<and> current_key k \<noteq> None \<longrightarrow> r = Some None) \<and>
    (r = Some None \<longrightarrow> (\<forall>sec \<in> set secs. encrypted_under k s' (sec_key sec)))"
  using assms
proof (induction secs arbitrary: k s)
  case Nil
  then show ?case by (auto simp: reencrypted_def intro: same_reading_refl)
next
  case (Cons sec secs)
  obtain res k1 where re: "ReEncrypt c (rnd sec) (secret_ValueEncrypted sec) (k, s) = (res, k1)" by fastforce
  show ?case
  proof (cases "\<exists>text. res = Some (Inr text)")
    case False
    then have "k' = k1" "s' = s" "r \<noteq> Some None" using Cons.prems(6) re by (auto split: option.splits sum.splits)
    moreover have "\<nexists>p. fst (Decrypt c (secret_ValueEncrypted sec) (k, s)) = Some (Inr p)" if "current_key k \<noteq> None"
      using ReEncrypt_Inr [OF Cons.prems(1) _ that Cons.prems(5)] False re by (metis prod.inject)
    ultimately show ?thesis using ReEncrypt_fails [OF Cons.prems(1,2) re] by auto
  next
    case True
    then obtain tx where tx: "res = Some (Inr tx)" by blast
    define s1 where "s1 = snd (on_base (SetSecretEncrypted (secret_Project sec) (secret_Scope sec) (secret_Key sec) tx now (newID sec)) s)"
    have sec: "secret_map s (sec_key sec) = Some sec" using Cons.prems(3) by simp
    note one = reencrypt_one [OF Cons.prems(1,2) sec Cons.prems(5) re [unfolded tx] s1_def]
    have wf1: "kms_wf c (k1, s1)" "secrets_wf (MemoryStore.truncate s1)" "current_key k1 = current_key k"
      using one(1) by (simp_all add: reencrypted_def)
    have ne: "sec_key x \<noteq> sec_key sec" if "x \<in> set secs" for x
      using Cons.prems(4) imageI [OF that, of sec_key] by auto
    have rest: "\<forall>sec \<in> set secs. secret_map s1 (sec_key sec) = Some sec" 
      using Cons.prems(3) ne by (simp add: one(2))
    have "on_base (SetSecretEncrypted (secret_Project sec) (secret_Scope sec) (secret_Key sec) tx now (newID sec)) s = (Inr (), s1)"
      unfolding s1_def by (metis secret_map_Set(3) Cons.prems(2) prod.collapse)
    then have run: "reencrypt_each c rnd now newID secs (k1, s1) = (r, k', s')"
      using Cons.prems(6) re tx by simp
    have "fst (Decrypt c t (k1, s1)) = fst (Decrypt c t (k, s))" for t
      by (rule Decrypt_cong [OF Cons.prems(1) wf1(1)]) (use one(1) in \<open>simp_all add: reencrypted_def\<close>)
    note ih = Cons.IH [OF wf1(1,2) rest _ Cons.prems(5) run, unfolded this wf1(3)]
    have "encrypted_under k s' (sec_key sec)"
      using ih one(2,3) Cons.prems(4) by (auto simp: encrypted_under_def)
    with ih Cons.prems(4) one(1,2) wf1(3) show ?thesis by (auto simp: encrypted_under_def intro: reencrypted_trans)
  qed
qed

section \<open>Properties\<close>

lemma ListAllSecretsCtx_keys:
  assumes wf: "secrets_wf (MemoryStore.truncate s)" and ks: "enumerates ks (secrets (MemoryStore.truncate s))"
  shows "map sec_key (ListAllSecretsCtx ks (MemoryStore.truncate s)) = ks"
    and "sec \<in> set (ListAllSecretsCtx ks (MemoryStore.truncate s)) \<longleftrightarrow> secret_map s (sec_key sec) = Some sec"
proof -
  have o: "own_refs (secrets (MemoryStore.truncate s)) (secretObjs (MemoryStore.truncate s))"
    using wf by (simp add: secrets_wf_def)
  have key: "sec_key x = i" if "secret_map s i = Some x" for i x
    using wf that unfolding secrets_wf_def secret_map_def sec_key_def by blast
  have dom: "secret_map s i = Some (the (secret_map s i))" if "i \<in> set ks" for i
    using o ks that by (fastforce simp: secret_map_def enumerates_def own_refs_def deref_def load_def)
  show "map sec_key (ListAllSecretsCtx ks (MemoryStore.truncate s)) = ks"
    unfolding ListAllSecretsCtx_def range_objs_deref [OF ks o] secret_map_def [symmetric]
    using key [OF dom] by (simp add: map_idI)
  show "sec \<in> set (ListAllSecretsCtx ks (MemoryStore.truncate s)) \<longleftrightarrow> secret_map s (sec_key sec) = Some sec"
    unfolding ListAllSecretsCtx_def range_objs_mem [OF ks] using key by (auto simp: secret_map_def)
qed

text \<open>What a reader of a secret sees: a panic, an error, no secret, or the value.\<close>

definition reading :: "aead \<Rightarrow> string \<Rightarrow> string \<Rightarrow> string \<Rightarrow> secret_service \<Rightarrow> (string + string option) option" where
  "reading c project scope key svc = map_option (map_sum id (map_option se_Value)) (fst (Secret_Get c project scope key svc))"

lemma reading_eq:
  "reading c project scope key (Some k, s) =
     (case secret_map s (secretKey project scope key) of
        None \<Rightarrow> Some (Inr None)
      | Some sec \<Rightarrow> map_option (map_sum (\<lambda>e. ''decrypting secret: '' @ e) Some) (fst (Decrypt c (secret_ValueEncrypted sec) (k, s))))"
  by (auto simp: reading_def Secret_Get_def GetSecret_def secret_map_def split: option.split prod.split sum.split)

text \<open>C7: re-encryption never changes what a secret reads as. Whether \<open>ReEncryptAll\<close> ends well or stops at an
  error or a panic half way, every secret, present or not, readable or not, reads exactly as before. If all
  secrets are readable and the service has a current key, it succeeds, and then every stored value is
  encrypted under the current key.\<close>

theorem ReEncryptAll_preserves:
  assumes "kms_wf c (k, s)" and "secrets_wf (MemoryStore.truncate s)" and "enumerates ks (secrets (MemoryStore.truncate s))"
    and "\<And>sec. nonce_bytes (rnd sec)" and "ReEncryptAll c rnd now newID ks (Some k, s) = (r, svc')"
  shows "reading c project scope key svc' = reading c project scope key (Some k, s) \<and>
    ((\<forall>sec \<in> ran (secret_map s). \<exists>p. fst (Decrypt c (secret_ValueEncrypted sec) (k, s)) = Some (Inr p)) \<and> GetCurrentKey k \<noteq> None \<longrightarrow>
      r = Some None \<and> (\<forall>i \<in> dom (secret_map s). encrypted_under k (snd svc') i))"
proof -
  obtain k' s' where svc': "svc' = (Some k', s')"
    and run: "reencrypt_each c rnd now newID (ListAllSecretsCtx ks (MemoryStore.truncate s)) (k, s) = (r, k', s')"
    using assms(5) by (auto simp: ReEncryptAll_def split: prod.splits)
  note l = ListAllSecretsCtx_keys [OF assms(2,3)]
  have d: "distinct (map sec_key (ListAllSecretsCtx ks (MemoryStore.truncate s)))"
    using assms(3) l(1) by (simp add: enumerates_def)
  have all: "\<forall>sec \<in> set (ListAllSecretsCtx ks (MemoryStore.truncate s)). secret_map s (sec_key sec) = Some sec" using l(2) by blast
  note spec = reencrypt_each_spec [OF assms(1,2) all d assms(4) run]
  have "same_reading c (k, s) (k', s') (secret_map s i) (secret_map s' i)" for i
    using spec by (simp add: reencrypted_def)
  from this [of "secretKey project scope key"] have a: "reading c project scope key svc' = reading c project scope key (Some k, s)"
    unfolding svc' reading_eq by (auto simp: same_reading_def split: option.splits)
  have key: "sec_key x = i" if "secret_map s i = Some x" for i x
    using assms(2) that unfolding secrets_wf_def secret_map_def sec_key_def by blast
  have b: "r = Some None \<and> (\<forall>i \<in> dom (secret_map s). encrypted_under k (snd svc') i)"
    if ok: "\<forall>sec \<in> ran (secret_map s). \<exists>p. fst (Decrypt c (secret_ValueEncrypted sec) (k, s)) = Some (Inr p)" "GetCurrentKey k \<noteq> None"
  proof -
    have "\<exists>p. fst (Decrypt c (secret_ValueEncrypted sec) (k, s)) = Some (Inr p)"
      if "sec \<in> set (ListAllSecretsCtx ks (MemoryStore.truncate s))" for sec
      using that l(2) ok(1) unfolding ran_def by blast
    with spec ok(2) have "r = Some None" by (simp add: GetCurrentKey_def)
    with spec have "encrypted_under k s' (sec_key sec)" if "secret_map s (sec_key sec) = Some sec" for sec
      using that l(2) by blast
    then have "encrypted_under k s' i" if "secret_map s i = Some sec" for i sec using key [OF that] that by metis
    with \<open>r = Some None\<close> show ?thesis by (auto simp: svc')
  qed
  from a b show ?thesis by blast
qed


lemma wit_started_wf: "kms_wf wit_cipher (fst wit_started, snd wit_started)"
  using kms_steps_good [OF wit_started_steps NewKMS_wf [OF wit_ready]] by (simp add: kms_good_def)

lemma wit_started_secrets:
  "secrets (MemoryStore.truncate (snd wit_started)) = Map.empty"
  "secretObjs (MemoryStore.truncate (snd wit_started)) = []"
  "secrets_wf (MemoryStore.truncate (snd wit_started))"
  by (simp_all add: wit_started_def Initialize_def generateKey_def saveKey_def toStorageKey_def MasterKey_Encrypt_def
      NewCipher_def SaveEncryptionKey_def alloc_key_def new_obj_def wit_kms_def Let_def queue_core_def
      NewSecurityStore_def MemoryStore.defs NewMemoryStore_def secrets_wf_def own_refs_def deref_def)

lemma wit_current: "GetCurrentKey (fst wit_started) = Some wit_key"
  by (simp add: wit_started_kms GetCurrentKey_def current_key_def load_def)

definition wit_set :: "string option \<times> secret_service" where
  "wit_set = Secret_Set wit_cipher (Inr (wit_bytes 12)) 7 ''s1'' ''blog'' ''prod'' ''TOKEN'' ''x'' (Some (fst wit_started), snd wit_started)"


definition wit_secret_store :: SecurityStore where
  "wit_secret_store = snd (on_base (SetSecretEncrypted ''blog'' ''prod'' ''TOKEN'' ''v1:k1'' 7 ''s1'') (snd wit_started))"

theorem ReEncryptAll_preserves_witness:
  "reading wit_cipher ''blog'' ''prod'' ''TOKEN''
      (snd (ReEncryptAll wit_cipher (\<lambda>_. Inr (wit_bytes 12)) 9 (\<lambda>_. ''s2'') [''blog:prod:TOKEN''] (Some (fst wit_started), wit_secret_store))) =
    reading wit_cipher ''blog'' ''prod'' ''TOKEN'' (Some (fst wit_started), wit_secret_store)"
proof -
  let ?run = "ReEncryptAll wit_cipher (\<lambda>_. Inr (wit_bytes 12)) 9 (\<lambda>_. ''s2'') [''blog:prod:TOKEN''] (Some (fst wit_started), wit_secret_store)"
  obtain r svc' where run: "?run = (r, svc')" by (cases ?run)
  have wf: "kms_wf wit_cipher (fst wit_started, wit_secret_store)" "secrets_wf (MemoryStore.truncate wit_secret_store)"
    unfolding wit_secret_store_def
    by (rule kms_wf_on_base [OF wit_started_wf]) (rule secret_map_Set(2) [OF wit_started_secrets(3)])
  have ks: "enumerates [''blog:prod:TOKEN''] (secrets (MemoryStore.truncate wit_secret_store))"
    by (simp add: wit_secret_store_def SetSecretEncrypted_def wit_started_secrets Let_def new_obj_def secretKey_def enumerates_def)
  from ReEncryptAll_preserves [OF wf ks wit_simps(5) run, of "''blog''" "''prod''" "''TOKEN''"] run show ?thesis by simp
qed

section \<open>Env files\<close>

fun env_unescape :: "string \<Rightarrow> string" where
  "env_unescape [] = []"
| "env_unescape [x] = [x]"
| "env_unescape (x # y # s) =
     (if x = CHR 0x5C then (if y = CHR ''n'' then CHR 0x0A else y) # env_unescape s else x # env_unescape (y # s))"

lemma env_escape_Cons:
  "env_escape [] = []"
  "env_escape (x # s) = (if x = CHR 0x5C then [CHR 0x5C, CHR 0x5C] else if x = CHR 0x22 then [CHR 0x5C, CHR 0x22]
     else if x = CHR 0x0A then [CHR 0x5C, CHR ''n''] else [x]) @ env_escape s"
  by (simp_all add: env_escape_def ReplaceAll_char)

lemma env_unescape_Cons: "x \<noteq> CHR 0x5C \<Longrightarrow> env_unescape (x # s) = x # env_unescape s"
  by (cases s) simp_all

text \<open>An exported value can be read back, and it fits on its line.\<close>

lemma env_escape_roundtrip: "env_unescape (env_escape val) = val" "CHR 0x0A \<notin> set (env_escape val)"
  by (induction val) (auto simp: env_escape_Cons env_unescape_Cons)

section \<open>The service package\<close>

text \<open>\<open>internal/services/secrets/service.go\<close> is a second copy of the service, with the same code but for the
  lookups: \<open>Get\<close> returns the value alone, empty for a missing secret, and \<open>GetEntry\<close> reports a missing one as
  an error. Its \<open>Delete\<close> is in \<open>Recipe_Services\<close>.\<close>

definition Secrets_Set ::
  "aead \<Rightarrow> random \<Rightarrow> time \<Rightarrow> string \<Rightarrow> string \<Rightarrow> string \<Rightarrow> string \<Rightarrow> string \<Rightarrow> secret_service \<Rightarrow> string option \<times> secret_service" where
  "Secrets_Set = Secret_Set"

definition Secrets_GetEntry ::
  "aead \<Rightarrow> string \<Rightarrow> string \<Rightarrow> string \<Rightarrow> secret_service \<Rightarrow> (string + SecretEntry) option \<times> secret_service" where
  "Secrets_GetEntry c project scope key svc =
     (case Secret_Get c project scope key svc of
        (None, svc') \<Rightarrow> (None, svc')
      | (Some (Inl e), svc') \<Rightarrow> (Some (Inl e), svc')
      | (Some (Inr None), svc') \<Rightarrow>
          (Some (Inl (''secrets.GetEntry: secret '' @ project @ ''/'' @ scope @ ''/'' @ key @ '': resource not found'')), svc')
      | (Some (Inr (Some entry)), svc') \<Rightarrow> (Some (Inr entry), svc'))"

definition Secrets_Get ::
  "aead \<Rightarrow> string \<Rightarrow> string \<Rightarrow> string \<Rightarrow> secret_service \<Rightarrow> (string + string) option \<times> secret_service" where
  "Secrets_Get c project scope key svc =
     (case Secret_Get c project scope key svc of
        (None, svc') \<Rightarrow> (None, svc')
      | (Some (Inl e), svc') \<Rightarrow> (Some (Inl e), svc')
      | (Some (Inr None), svc') \<Rightarrow> (Some (Inr ''''), svc')
      | (Some (Inr (Some entry)), svc') \<Rightarrow> (Some (Inr (se_Value entry)), svc'))"

text \<open>A reader of \<open>Get\<close> cannot tell a missing secret from an empty one.\<close>

lemma Secrets_Get_reading:
  "fst (Secrets_Get c project scope key svc) =
     map_option (map_sum id (\<lambda>x. case x of None \<Rightarrow> '''' | Some v \<Rightarrow> v)) (reading c project scope key svc)"
  by (auto simp: Secrets_Get_def reading_def split: option.split prod.split sum.split)

end
