(* ===== verification/Http_Auth.thy ===== *)
theory Http_Auth
  imports Account_Services Secret_Service
begin

text \<open>
  Who may do what over HTTP: the authentication wrappers of \<open>internal/server/master.go\<close> (\<open>withAuth\<close>,
  \<open>withUIAuth\<close>), the rules for roles and scopes of \<open>internal/server/enforcement.go\<close> and \<open>auth_helpers.go\<close>, the
  audit entries of \<open>handlers_audit.go\<close>, and the audit service they are written with
  (\<open>internal/services/audit\<close>).

  A wrapper around a handler is a function that gives the reply of the wrapper (\<open>Inl\<close>), or the context the
  handler is called with (\<open>Inr\<close>). The request holds what the handlers read of it; its headers and form
  values are functions, empty where absent. \<open>net.SplitHostPort\<close> is an argument.
\<close>

section \<open>The audit service\<close>

definition Service_Log :: "AuditEntry \<Rightarrow> time \<Rightarrow> string \<Rightarrow> MemoryStore \<Rightarrow> AuditEntry service_result \<times> MemoryStore" where
  "Service_Log entry now xid s =
     (let entry = (if IsZero (audit_Timestamp entry) then entry\<lparr>audit_Timestamp := now\<rparr> else entry)
      in apfst (wrap ''logging audit entry'') (LogAudit entry now xid s))"

definition LogWithSnapshot ::
  "('a \<Rightarrow> string option) \<Rightarrow> AuditEntry \<Rightarrow> 'a option \<Rightarrow> time \<Rightarrow> string \<Rightarrow> MemoryStore \<Rightarrow> AuditEntry service_result \<times> MemoryStore" where
  "LogWithSnapshot marshal entry resourceSnapshot now xid s =
     (let entry = (if IsZero (audit_Timestamp entry) then entry\<lparr>audit_Timestamp := now\<rparr> else entry)
      in apfst (wrap ''logging audit entry with snapshot'') (LogAuditWithSnapshot marshal entry resourceSnapshot now xid s))"

definition Audit_List :: "int \<Rightarrow> int \<Rightarrow> MemoryStore \<Rightarrow> AuditEntry list option" where
  "Audit_List limit offset s =
     (let limit = (if limit \<le> 0 then 100 else limit); offset = (if offset < 0 then 0 else offset)
      in ListAuditLogs limit offset s)"

definition Audit_Cleanup :: "time \<Rightarrow> time \<Rightarrow> MemoryStore \<Rightarrow> int service_result \<times> MemoryStore" where
  "Audit_Cleanup cutoff now s = apfst (wrap ''cleaning up audit logs'') (CleanupOldAuditLogs cutoff now s)"

definition new_entry :: "string \<Rightarrow> string \<Rightarrow> string \<Rightarrow> string \<Rightarrow> string \<Rightarrow> string \<Rightarrow> string \<Rightarrow> AuditEntry" where
  "new_entry source user action resource details ipAddress result =
     \<lparr>audit_ID = '''', audit_Timestamp = 0, audit_Source = source, audit_User = user, audit_Action = action,
      audit_Resource = resource, audit_ResourceID = '''', audit_ResourceData = '''', audit_Details = details,
      audit_IPAddress = ipAddress, audit_Result = result\<rparr>"

definition LogAction ::
  "string \<Rightarrow> string \<Rightarrow> string \<Rightarrow> string \<Rightarrow> string \<Rightarrow> string \<Rightarrow> string \<Rightarrow> time \<Rightarrow> string \<Rightarrow> MemoryStore
     \<Rightarrow> AuditEntry service_result \<times> MemoryStore" where
  "LogAction source user action resource details ipAddress result now xid s =
     Service_Log (new_entry source user action resource details ipAddress result) now xid s"

section \<open>Requests, contexts and the server\<close>

text \<open>The values a request's context can hold: under the typed keys \<open>userID\<close>, \<open>user\<close> and \<open>apiKey\<close>, and under the
  plain string \<open>"username"\<close>.\<close>

record Context =
  ctx_userID :: "string option"
  ctx_user :: "User option"
  ctx_apiKey :: "APIKey option"
  ctx_username :: "string option"

definition background :: Context where
  "background = \<lparr>ctx_userID = None, ctx_user = None, ctx_apiKey = None, ctx_username = None\<rparr>"

record Request =
  req_Method :: string
  req_Path :: string
  req_Header :: "string \<Rightarrow> string"
  req_Cookie :: "string \<Rightarrow> string option"
  req_FormValue :: "string \<Rightarrow> string"
  req_RemoteAddr :: string
  req_Context :: Context

definition UserAgent :: "Request \<Rightarrow> string" where
  "UserAgent r = req_Header r ''User-Agent''"

datatype reply =
    JsonError int string
  | JsonResponse json
  | Template string "(string \<times> json) list"
  | Redirect string
  | NotFoundPage

record AuditEventData =
  aev_ID :: string
  aev_Username :: string
  aev_Action :: string
  aev_Resource :: string
  aev_IP :: string
  aev_Timestamp :: int

text \<open>The server: its store, whether it waits for the set-up, the events handed to the broker (if it has
  one), the updates of API keys it has spawned, and the configuration.\<close>

record MasterServer =
  ms_store :: SecurityStore
  ms_requiresSetup :: bool
  ms_sseBroker :: "AuditEventData list option"
  ms_spawned :: "string list"
  ms_TLSEnabled :: bool
  ms_APIEnabled :: bool
  ms_Require2FAAdmin :: bool

abbreviation memory :: "MasterServer \<Rightarrow> MemoryStore" where
  "memory s \<equiv> MemoryStore.truncate (ms_store s)"

definition on_store :: "(SecurityStore \<Rightarrow> 'r \<times> SecurityStore) \<Rightarrow> MasterServer \<Rightarrow> 'r \<times> MasterServer" where
  "on_store f s = (case f (ms_store s) of (r, t) \<Rightarrow> (r, s\<lparr>ms_store := t\<rparr>))"

abbreviation on_memory :: "(MemoryStore \<Rightarrow> 'r \<times> MemoryStore) \<Rightarrow> MasterServer \<Rightarrow> 'r \<times> MasterServer" where
  "on_memory f \<equiv> on_store (on_base f)"

text \<open>What a request meets: the clock, random bytes, new identifiers, and the functions that are arguments.\<close>

record env =
  e_now :: time
  e_random :: "nat \<Rightarrow> random_bytes"
  e_xid :: "nat \<Rightarrow> string"
  e_sha256 :: "string \<Rightarrow> string"
  e_bcrypt :: "string \<Rightarrow> string + string"
  e_matches :: "string \<Rightarrow> string \<Rightarrow> bool"
  e_hmac :: "string \<Rightarrow> string \<Rightarrow> string"
  e_unicode :: unicode
  e_upper :: "string \<Rightarrow> string"
  e_splitHostPort :: "string \<Rightarrow> string option"
  e_codeOwners :: "string list"

text \<open>\<open>Time.Unix\<close>: seconds since 1970; the zero time is the first of January of the year 1.\<close>

definition Unix :: "time \<Rightarrow> int" where
  "Unix t = t div 10 ^ 9 - 62135596800"

definition extractClientIP :: "env \<Rightarrow> Request \<Rightarrow> string" where
  "extractClientIP e r =
     (if req_Header r ''X-Forwarded-For'' \<noteq> ''''
      then (case Index (req_Header r ''X-Forwarded-For'') '','' of
              Some idx \<Rightarrow> TrimSpace (take idx (req_Header r ''X-Forwarded-For''))
            | None \<Rightarrow> TrimSpace (req_Header r ''X-Forwarded-For''))
      else if req_Header r ''X-Real-IP'' \<noteq> '''' then TrimSpace (req_Header r ''X-Real-IP'')
      else case e_splitHostPort e (req_RemoteAddr r) of None \<Rightarrow> req_RemoteAddr r | Some ip \<Rightarrow> ip)"

definition publishAuditEvent ::
  "env \<Rightarrow> string \<Rightarrow> string \<Rightarrow> string \<Rightarrow> string \<Rightarrow> string \<Rightarrow> MasterServer \<Rightarrow> MasterServer" where
  "publishAuditEvent e i username action resource ip s =
     s\<lparr>ms_sseBroker := map_option (\<lambda>evs. evs @
         [\<lparr>aev_ID = i, aev_Username = username, aev_Action = action, aev_Resource = resource, aev_IP = ip,
           aev_Timestamp = Unix (e_now e)\<rparr>]) (ms_sseBroker s)\<rparr>"

definition logAudit ::
  "env \<Rightarrow> string \<Rightarrow> Request \<Rightarrow> string \<Rightarrow> string \<Rightarrow> string \<Rightarrow> string \<Rightarrow> MasterServer \<Rightarrow> MasterServer" where
  "logAudit e xid r action resource details result s =
     (let user = (case ctx_username (req_Context r) of Some username \<Rightarrow> username | None \<Rightarrow> ''anonymous'');
          ip = extractClientIP e r
      in case on_memory (Service_Log (new_entry ''http'' user action resource details ip result) (e_now e) xid) s of
           (Inl _, s') \<Rightarrow> s'
         | (Inr entry, s') \<Rightarrow> publishAuditEvent e (audit_ID entry) user action resource ip s')"

definition logAuditWithSnapshot ::
  "('a \<Rightarrow> string option) \<Rightarrow> env \<Rightarrow> string \<Rightarrow> Request \<Rightarrow> string \<Rightarrow> string \<Rightarrow> string \<Rightarrow> 'a option \<Rightarrow> string \<Rightarrow> string
     \<Rightarrow> MasterServer \<Rightarrow> MasterServer" where
  "logAuditWithSnapshot marshal e xid r action resource resourceID snapshot details result s =
     (let user = (case ctx_username (req_Context r) of Some username \<Rightarrow> username | None \<Rightarrow> ''anonymous'');
          ip = extractClientIP e r;
          entry = (new_entry ''http'' user action resource details ip result)\<lparr>audit_ResourceID := resourceID\<rparr>
      in case on_memory (LogWithSnapshot marshal entry snapshot (e_now e) xid) s of
           (Inl _, s') \<Rightarrow> s'
         | (Inr entry, s') \<Rightarrow> publishAuditEvent e (audit_ID entry) user action resource ip s')"

section \<open>Authentication\<close>

definition WithAPIKeyContext :: "Context \<Rightarrow> APIKey \<Rightarrow> Context" where
  "WithAPIKeyContext ctx key = ctx\<lparr>ctx_apiKey := Some key\<rparr>"

definition WithUserContext :: "Context \<Rightarrow> User \<Rightarrow> Context" where
  "WithUserContext ctx user = ctx\<lparr>ctx_user := Some user\<rparr>"

definition GetAPIKeyFromContext :: "Context \<Rightarrow> APIKey option" where "GetAPIKeyFromContext ctx = ctx_apiKey ctx"
definition GetUserFromContext :: "Context \<Rightarrow> User option" where "GetUserFromContext ctx = ctx_user ctx"
definition GetUserIDFromContext :: "Context \<Rightarrow> string option" where "GetUserIDFromContext ctx = ctx_userID ctx"

text \<open>The update of the key's last use runs in a goroutine of its own: the call leaves it among the spawned
  ones, and \<open>run_spawned\<close> is the goroutine.\<close>

definition validateAPIKey :: "env \<Rightarrow> string \<Rightarrow> MasterServer \<Rightarrow> (APIKey \<times> string) service_result \<times> MasterServer" where
  "validateAPIKey e key s =
     (if key = '''' then (Inl (TextError ''empty API key''), s)
      else case GetByRawKey (e_sha256 e) key (e_now e) (memory s) of
             Inl err \<Rightarrow>
               if IsNotFound err then (Inl (TextError ''API key not found''), s)
               else (Inl (Wrap ''database error'' err), s)
           | Inr apiKey \<Rightarrow>
               if \<not> APIKey_IsValid (e_now e) apiKey then (Inl (TextError ''API key expired or revoked''), s)
               else (Inr (apiKey, apikey_UserID apiKey), s\<lparr>ms_spawned := ms_spawned s @ [apikey_ID apiKey]\<rparr>))"

definition run_spawned :: "string \<Rightarrow> time \<Rightarrow> string list \<Rightarrow> MasterServer \<Rightarrow> MasterServer" where
  "run_spawned keyID now ks s =
     (if keyID \<in> set (ms_spawned s)
      then (snd (on_memory (UpdateUsage keyID now ks) s))\<lparr>ms_spawned := remove1 keyID (ms_spawned s)\<rparr> else s)"

definition validateSession :: "env \<Rightarrow> string \<Rightarrow> MasterServer \<Rightarrow> string service_result" where
  "validateSession e token s =
     (if token = '''' then Inl (TextError ''empty session token'')
      else case GetByToken token (e_now e) (memory s) of
             Inl err \<Rightarrow>
               if IsNotFound err then Inl (TextError ''session not found or expired'')
               else Inl (Wrap ''database error'' err)
           | Inr session \<Rightarrow> Inr (session_UserID session))"

definition withAuth :: "env \<Rightarrow> Request \<Rightarrow> MasterServer \<Rightarrow> (reply + Context) \<times> MasterServer" where
  "withAuth e r s =
     (let auth = req_Header r ''Authorization''; ctx = req_Context r
      in if auth \<noteq> '''' \<and> HasPrefix auth ''Bearer ''
         then (let token = drop (length ''Bearer '') auth
               in case validateAPIKey e token s of
                    (Inr (apiKey, userID), s') \<Rightarrow> (Inr (WithAPIKeyContext (ctx\<lparr>ctx_userID := Some userID\<rparr>) apiKey), s')
                  | (Inl _, s') \<Rightarrow>
                      (case validateSession e token s' of
                         Inr userID \<Rightarrow> (Inr (ctx\<lparr>ctx_userID := Some userID\<rparr>), s')
                       | Inl _ \<Rightarrow> (Inl (JsonError 401 ''invalid token''), s')))
         else (case req_Cookie r ''session'' of
                 Some cookie \<Rightarrow>
                   (case validateSession e cookie s of
                      Inr userID \<Rightarrow> (Inr (ctx\<lparr>ctx_userID := Some userID\<rparr>), s)
                    | Inl _ \<Rightarrow> (Inl (JsonError 401 ''unauthorized''), s))
               | None \<Rightarrow> (Inl (JsonError 401 ''unauthorized''), s)))"

definition withUIAuth :: "env \<Rightarrow> Request \<Rightarrow> MasterServer \<Rightarrow> reply + Context" where
  "withUIAuth e r s =
     (case req_Cookie r ''session'' of
        None \<Rightarrow> Inl (Redirect ''/login'')
      | Some cookie \<Rightarrow>
          (case validateSession e cookie s of
             Inl _ \<Rightarrow> Inl (Redirect ''/login'')
           | Inr userID \<Rightarrow>
               (case User_GetByID userID (memory s) of
                  Inl _ \<Rightarrow> Inl (Redirect ''/login'')
                | Inr user \<Rightarrow> Inr (WithUserContext ((req_Context r)\<lparr>ctx_userID := Some userID\<rparr>) user))))"

section \<open>Roles and scopes\<close>

definition RoleLevel :: "string \<Rightarrow> int" where
  "RoleLevel role = (if role = ''admin'' then 3 else if role = ''user'' then 2 else if role = ''viewer'' then 1 else 0)"

datatype APIScope = ScopeRead | ScopeWrite | ScopeAdmin

fun scope_name :: "APIScope \<Rightarrow> string" where
  "scope_name ScopeRead = ''read''"
| "scope_name ScopeWrite = ''write''"
| "scope_name ScopeAdmin = ''admin''"

text \<open>\<open>None\<close> is the decoder's error.\<close>

definition parseScopes :: "APIKey \<Rightarrow> string list option" where
  "parseScopes key = (if apikey_Scopes key = '''' then Some [] else unmarshal_strings (apikey_Scopes key))"

definition hasScope :: "APIKey \<Rightarrow> APIScope \<Rightarrow> bool" where
  "hasScope key required =
     (case parseScopes key of
        None \<Rightarrow> False
      | Some scopes \<Rightarrow>
          if scopes = [] then True
          else if ''*'' \<in> set scopes then True
          else if scope_name ScopeAdmin \<in> set scopes then True
          else if required = ScopeRead \<and> scope_name ScopeWrite \<in> set scopes then True
          else scope_name required \<in> set scopes)"

text \<open>A check in a handler gives \<open>None\<close> when access is granted, or the message and the status.\<close>

definition CheckMinRole :: "Context \<Rightarrow> string \<Rightarrow> MasterServer \<Rightarrow> (string \<times> int) option" where
  "CheckMinRole ctx minRole s =
     (case GetUserIDFromContext ctx of
        None \<Rightarrow> Some (''Unauthorized'', 401)
      | Some userID \<Rightarrow>
          (case User_GetByID userID (memory s) of
             Inl _ \<Rightarrow> Some (''Internal server error'', 500)
           | Inr user \<Rightarrow>
               if RoleLevel (user_Role user) < RoleLevel minRole
               then Some (''Forbidden: insufficient permissions'', 403) else None))"

definition CheckScope :: "Context \<Rightarrow> APIScope \<Rightarrow> (string \<times> int) option" where
  "CheckScope ctx scope =
     (case GetAPIKeyFromContext ctx of
        None \<Rightarrow> None
      | Some apiKey \<Rightarrow>
          if \<not> hasScope apiKey scope then Some (''Forbidden: API key lacks required scope'', 403) else None)"

definition CheckReadAccess :: "Context \<Rightarrow> MasterServer \<Rightarrow> (string \<times> int) option" where
  "CheckReadAccess ctx s =
     (case CheckScope ctx ScopeRead of Some d \<Rightarrow> Some d | None \<Rightarrow> CheckMinRole ctx ''viewer'' s)"

definition CheckWriteAccess :: "Context \<Rightarrow> MasterServer \<Rightarrow> (string \<times> int) option" where
  "CheckWriteAccess ctx s =
     (case CheckScope ctx ScopeWrite of Some d \<Rightarrow> Some d | None \<Rightarrow> CheckMinRole ctx ''user'' s)"

definition CheckAdminAccess :: "Context \<Rightarrow> MasterServer \<Rightarrow> (string \<times> int) option" where
  "CheckAdminAccess ctx s =
     (case CheckScope ctx ScopeAdmin of Some d \<Rightarrow> Some d | None \<Rightarrow> CheckMinRole ctx ''admin'' s)"

text \<open>The helpers that write the refusal.\<close>

definition refusal :: "(string \<times> int) option \<Rightarrow> reply option" where
  "refusal d = map_option (\<lambda>(msg, status). JsonError status msg) d"

definition requireReadAccess :: "Context \<Rightarrow> MasterServer \<Rightarrow> reply option" where
  "requireReadAccess ctx s = refusal (CheckReadAccess ctx s)"

definition requireWriteAccess :: "Context \<Rightarrow> MasterServer \<Rightarrow> reply option" where
  "requireWriteAccess ctx s = refusal (CheckWriteAccess ctx s)"

definition requireAdminAccess :: "Context \<Rightarrow> MasterServer \<Rightarrow> reply option" where
  "requireAdminAccess ctx s = refusal (CheckAdminAccess ctx s)"

text \<open>The middlewares.\<close>

definition RequireAPIEnabled :: "Context \<Rightarrow> MasterServer \<Rightarrow> reply + Context" where
  "RequireAPIEnabled ctx s = (if \<not> ms_APIEnabled s then Inl (JsonError 503 ''api is disabled'') else Inr ctx)"

definition Require2FAForAdmin :: "Context \<Rightarrow> MasterServer \<Rightarrow> reply + Context" where
  "Require2FAForAdmin ctx s =
     (if \<not> ms_Require2FAAdmin s then Inr ctx
      else case GetUserIDFromContext ctx of
             None \<Rightarrow> Inr ctx
           | Some userID \<Rightarrow>
               (case User_GetByID userID (memory s) of
                  Inl _ \<Rightarrow> Inl (JsonError 500 ''internal server error'')
                | Inr user \<Rightarrow>
                    if user_Role user = ''admin'' \<and> \<not> user_TOTPEnabled user
                    then Inl (JsonError 403 ''2FA is required for admin users'') else Inr ctx))"

definition RequireRole :: "string \<Rightarrow> Context \<Rightarrow> MasterServer \<Rightarrow> reply + Context" where
  "RequireRole role ctx s =
     (case GetUserIDFromContext ctx of
        None \<Rightarrow> Inl (JsonError 401 ''unauthorized'')
      | Some userID \<Rightarrow>
          (case User_GetByID userID (memory s) of
             Inl _ \<Rightarrow> Inl (JsonError 500 ''internal server error'')
           | Inr user \<Rightarrow>
               if user_Role user \<noteq> role then Inl (JsonError 403 ''forbidden: insufficient permissions'')
               else Inr (WithUserContext ctx user)))"

definition RequireMinRole :: "string \<Rightarrow> Context \<Rightarrow> MasterServer \<Rightarrow> reply + Context" where
  "RequireMinRole minRole ctx s =
     (case GetUserIDFromContext ctx of
        None \<Rightarrow> Inl (JsonError 401 ''unauthorized'')
      | Some userID \<Rightarrow>
          (case User_GetByID userID (memory s) of
             Inl _ \<Rightarrow> Inl (JsonError 500 ''internal server error'')
           | Inr user \<Rightarrow>
               if RoleLevel (user_Role user) < RoleLevel minRole
               then Inl (JsonError 403 ''forbidden: insufficient permissions'')
               else Inr (WithUserContext ctx user)))"

definition RequireScope :: "APIScope \<Rightarrow> Context \<Rightarrow> reply + Context" where
  "RequireScope scope ctx =
     (case GetAPIKeyFromContext ctx of
        None \<Rightarrow> Inr ctx
      | Some apiKey \<Rightarrow>
          if \<not> hasScope apiKey scope then Inl (JsonError 403 ''forbidden: API key lacks required scope'') else Inr ctx)"

text \<open>\<open>ChainMiddleware\<close>: the first middleware is the outermost.\<close>

definition ChainMiddleware :: "('h \<Rightarrow> 'h) list \<Rightarrow> 'h \<Rightarrow> 'h" where
  "ChainMiddleware middlewares final = fold (\<lambda>m h. m h) (rev middlewares) final"

section \<open>The size of a log\<close>

text \<open>\<open>int64(maxSizeMB) * 1024 * 1024\<close> wraps around.\<close>

definition NewLogSizeEnforcer :: "int \<Rightarrow> int" where
  "NewLogSizeEnforcer maxSizeMB =
     (let maxBytes = wrap64 (maxSizeMB * 1024 * 1024)
      in if maxBytes \<le> 0 then 100 * 1024 * 1024 else maxBytes)"

definition CheckSize :: "int \<Rightarrow> int \<Rightarrow> bool" where
  "CheckSize maxSizeBytes currentSize \<longleftrightarrow> currentSize < maxSizeBytes"

definition truncateMarker :: string where
  "truncateMarker = [CHR 0x0A, CHR 0x0A] @ ''... [LOG TRUNCATED - SIZE LIMIT EXCEEDED] ...'' @ [CHR 0x0A]"

definition last_newline :: "string \<Rightarrow> nat option" where
  "last_newline s = find (\<lambda>i. s ! i = CHR 0x0A) (rev [0..<length s])"

definition TruncateLog :: "int \<Rightarrow> string \<Rightarrow> string \<times> bool" where
  "TruncateLog maxSizeBytes content =
     (if int (length content) \<le> maxSizeBytes then (content, False)
      else
        (let maxContentLen = maxSizeBytes - int (length truncateMarker)
         in if maxContentLen \<le> 0 then (truncateMarker, True)
            else
              (let truncatedContent = take (nat maxContentLen) content;
                   truncatedContent = (case last_newline truncatedContent of
                     Some lastNewline \<Rightarrow> if lastNewline > 0 then take lastNewline truncatedContent else truncatedContent
                   | None \<Rightarrow> truncatedContent)
               in (truncatedContent @ truncateMarker, True))))"

section \<open>Credentials\<close>

text \<open>What the store knows: a live session, a live API key, and the user a request acts for. An API key in the
  header comes before a session in the header; the cookie counts only without a bearer token.\<close>

definition live_session :: "env \<Rightarrow> MasterServer \<Rightarrow> string \<Rightarrow> string \<Rightarrow> bool" where
  "live_session e s t uid \<longleftrightarrow> t \<noteq> '''' \<and>
     (\<exists>ses. sessions (memory s) t = Some ses \<and> e_now e \<le> session_ExpiresAt ses \<and> session_UserID ses = uid)"

definition live_key :: "env \<Rightarrow> MasterServer \<Rightarrow> string \<Rightarrow> APIKey \<Rightarrow> bool" where
  "live_key e s raw key \<longleftrightarrow> raw \<noteq> '''' \<and> stored_key (hashAPIKey (e_sha256 e) raw) (memory s) = Some key
     \<and> \<not> api_key_expired (e_now e) key"

definition acts_as :: "env \<Rightarrow> Request \<Rightarrow> MasterServer \<Rightarrow> string \<Rightarrow> APIKey option \<Rightarrow> bool" where
  "acts_as e r s uid key \<longleftrightarrow>
     (\<exists>token. req_Header r ''Authorization'' = ''Bearer '' @ token \<and>
        (case key of
           Some k \<Rightarrow> live_key e s token k \<and> apikey_UserID k = uid
         | None \<Rightarrow> (\<nexists>k. live_key e s token k) \<and> live_session e s token uid))
     \<or> (\<not> HasPrefix (req_Header r ''Authorization'') ''Bearer '' \<and> key = None \<and>
        (\<exists>t. req_Cookie r ''session'' = Some t \<and> live_session e s t uid))"

lemma validateSession_live: "validateSession e t s = Inr uid \<longleftrightarrow> live_session e s t uid"
  by (auto simp: validateSession_def live_session_def GetByToken_def GetSessionByToken_def split: option.splits)

lemma validateAPIKey_live:
  "validateAPIKey e raw s = (Inr (k, uid), s') \<longleftrightarrow>
     live_key e s raw k \<and> uid = apikey_UserID k \<and> s' = s\<lparr>ms_spawned := ms_spawned s @ [apikey_ID k]\<rparr>"
  by (auto simp: validateAPIKey_def live_key_def GetByRawKey_stored APIKey_IsValid_expired split: option.splits if_splits)

lemma validateAPIKey_dead: "(\<nexists>k. live_key e s raw k) \<Longrightarrow> \<exists>err. validateAPIKey e raw s = (Inl err, s)"
  by (auto simp: validateAPIKey_def live_key_def GetByRawKey_stored APIKey_IsValid_expired split: option.splits if_splits)

lemma validateAPIKey_memory: "ms_store (snd (validateAPIKey e raw s)) = ms_store s"
  by (auto simp: validateAPIKey_def split: sum.splits)

lemma live_session_unique: "live_session e s t uid \<Longrightarrow> live_session e s t uid' \<Longrightarrow> uid = uid'"
  by (auto simp: live_session_def)

lemma live_key_unique: "live_key e s t k \<Longrightarrow> live_key e s t k' \<Longrightarrow> k = k'"
  by (auto simp: live_key_def)

text \<open>The context a request gets is the one of the user it acts for.\<close>

definition auth_context :: "Request \<Rightarrow> string \<Rightarrow> APIKey option \<Rightarrow> Context" where
  "auth_context r uid key =
     (case key of
        None \<Rightarrow> (req_Context r)\<lparr>ctx_userID := Some uid\<rparr>
      | Some k \<Rightarrow> (req_Context r)\<lparr>ctx_userID := Some uid, ctx_apiKey := Some k\<rparr>)"

lemma withAuth_sound:
  assumes "acts_as e r s uid key"
  shows "fst (withAuth e r s) = Inr (auth_context r uid key)" and "ms_store (snd (withAuth e r s)) = ms_store s"
proof -
  have "fst (withAuth e r s) = Inr (auth_context r uid key) \<and> ms_store (snd (withAuth e r s)) = ms_store s"
  proof (cases "HasPrefix (req_Header r ''Authorization'') ''Bearer ''")
    case True
    with assms obtain token where h: "req_Header r ''Authorization'' = ''Bearer '' @ token"
      and c: "case key of Some k \<Rightarrow> live_key e s token k \<and> apikey_UserID k = uid
                | None \<Rightarrow> (\<nexists>k. live_key e s token k) \<and> live_session e s token uid"
      by (auto simp: acts_as_def)
    show ?thesis
    proof (cases key)
      case (Some k)
      with c have "validateAPIKey e token s = (Inr (k, uid), s\<lparr>ms_spawned := ms_spawned s @ [apikey_ID k]\<rparr>)"
        by (simp add: validateAPIKey_live)
      then show ?thesis
        by (simp add: withAuth_def h HasPrefix_def auth_context_def WithAPIKeyContext_def Some)
    next
      case None
      with c have l: "validateSession e token s = Inr uid" by (simp add: validateSession_live)
      from None c validateAPIKey_dead obtain err where "validateAPIKey e token s = (Inl err, s)" by fastforce
      then show ?thesis by (simp add: withAuth_def h HasPrefix_def auth_context_def None l)
    qed
  next
    case False
    with assms obtain t where "key = None" "req_Cookie r ''session'' = Some t" "validateSession e t s = Inr uid"
      by (auto simp: acts_as_def HasPrefix_def validateSession_live)
    with False show ?thesis by (simp add: withAuth_def auth_context_def)
  qed
  then show "fst (withAuth e r s) = Inr (auth_context r uid key)" "ms_store (snd (withAuth e r s)) = ms_store s"
    by simp_all
qed

lemma acts_asI:
  "req_Header r ''Authorization'' = ''Bearer '' @ token \<Longrightarrow> live_key e s token k \<Longrightarrow> acts_as e r s (apikey_UserID k) (Some k)"
  "req_Header r ''Authorization'' = ''Bearer '' @ token \<Longrightarrow> \<nexists>k. live_key e s token k \<Longrightarrow> live_session e s token uid
     \<Longrightarrow> acts_as e r s uid None"
  "\<not> HasPrefix (req_Header r ''Authorization'') ''Bearer '' \<Longrightarrow> req_Cookie r ''session'' = Some t \<Longrightarrow> live_session e s t uid
     \<Longrightarrow> acts_as e r s uid None"
  by (simp_all add: acts_as_def)

lemma withAuth_complete:
  assumes "\<nexists>uid key. acts_as e r s uid key"
  shows "\<exists>msg. withAuth e r s = (Inl (JsonError 401 msg), s)"
proof (cases "HasPrefix (req_Header r ''Authorization'') ''Bearer ''")
  case True
  then obtain token where h: "req_Header r ''Authorization'' = ''Bearer '' @ token"
    unfolding HasPrefix_iff prefix_def by blast
  have n: "\<nexists>k. live_key e s token k" using acts_asI(1) [of r token e s, OF h] assms by blast
  have "\<nexists>uid. live_session e s token uid" using acts_asI(2) [of r token e s, OF h n] assms by blast
  then obtain e1 where "validateSession e token s = Inl e1"
    by (cases "validateSession e token s") (auto simp: validateSession_live)
  moreover from validateAPIKey_dead [OF n] obtain e2 where "validateAPIKey e token s = (Inl e2, s)" by blast
  ultimately show ?thesis by (simp add: withAuth_def h HasPrefix_def)
next
  case False
  show ?thesis
  proof (cases "req_Cookie r ''session''")
    case None
    with False show ?thesis by (simp add: withAuth_def)
  next
    case (Some t)
    have "\<nexists>uid. live_session e s t uid" using acts_asI(3) [of r t e s, OF False Some] assms by blast
    then obtain e1 where "validateSession e t s = Inl e1"
      by (cases "validateSession e t s") (auto simp: validateSession_live)
    with False Some show ?thesis by (simp add: withAuth_def)
  qed
qed


section \<open>Access\<close>

text \<open>A handler behind \<open>withAuth\<close> that starts with one of the three checks.\<close>

fun require_access :: "APIScope \<Rightarrow> Context \<Rightarrow> MasterServer \<Rightarrow> reply option" where
  "require_access ScopeRead = requireReadAccess"
| "require_access ScopeWrite = requireWriteAccess"
| "require_access ScopeAdmin = requireAdminAccess"

fun min_level :: "APIScope \<Rightarrow> int" where
  "min_level ScopeRead = 1"
| "min_level ScopeWrite = 2"
| "min_level ScopeAdmin = 3"

definition access :: "APIScope \<Rightarrow> env \<Rightarrow> Request \<Rightarrow> MasterServer \<Rightarrow> reply option" where
  "access scope e r s =
     (case withAuth e r s of
        (Inl refused, _) \<Rightarrow> Some refused
      | (Inr ctx, s') \<Rightarrow> require_access scope ctx s')"

lemma require_access_eq:
  "require_access scope ctx s =
     (if \<exists>k. ctx_apiKey ctx = Some k \<and> \<not> hasScope k scope
      then Some (JsonError 403 ''Forbidden: API key lacks required scope'')
      else case ctx_userID ctx of
             None \<Rightarrow> Some (JsonError 401 ''Unauthorized'')
           | Some uid \<Rightarrow>
               (case users (memory s) uid of
                  None \<Rightarrow> Some (JsonError 500 ''Internal server error'')
                | Some user \<Rightarrow>
                    if RoleLevel (user_Role user) < min_level scope
                    then Some (JsonError 403 ''Forbidden: insufficient permissions'') else None))"
  by (cases scope; cases "ctx_apiKey ctx"; cases "ctx_userID ctx")
    (auto simp: requireReadAccess_def requireWriteAccess_def requireAdminAccess_def refusal_def CheckReadAccess_def
      CheckWriteAccess_def CheckAdminAccess_def CheckScope_def CheckMinRole_def GetAPIKeyFromContext_def
      GetUserIDFromContext_def User_GetByID_def GetUserByID_def not_found_or_def RoleLevel_def split: option.splits)

lemma access_acts_as:
  assumes "acts_as e r s uid key" and "req_Context r = background"
  shows "access scope e r s = None \<longleftrightarrow>
    (\<exists>user. users (memory s) uid = Some user \<and> min_level scope \<le> RoleLevel (user_Role user)
      \<and> (\<forall>k. key = Some k \<longrightarrow> hasScope k scope))"
proof -
  obtain s' where w: "withAuth e r s = (Inr (auth_context r uid key), s')" and m: "ms_store s' = ms_store s"
    using withAuth_sound [OF assms(1)] by (metis prod.collapse)
  show ?thesis
    by (cases key) (auto simp: access_def w require_access_eq auth_context_def assms(2) background_def m
        split: option.splits)
qed

lemma acts_as_unique: "acts_as e r s uid key \<Longrightarrow> acts_as e r s uid' key' \<Longrightarrow> uid = uid' \<and> key = key'"
  by (auto simp: acts_as_def HasPrefix_iff dest: live_session_unique live_key_unique split: option.splits)

text \<open>C9: Access over HTTP is exactly what the store says. A request passes \<open>withAuth\<close> and the check for a level (read,
  write or admin) if and only if it carries a live credential (an API key or a session token in the header, or the
  session cookie when there is no bearer token), the user the credential belongs to exists and has at least the role
  of the level, and the API key, if it is one, has the scope.\<close>

theorem access_exact:
  assumes "req_Context r = background"
  shows "access scope e r s = None \<longleftrightarrow>
    (\<exists>uid key user. acts_as e r s uid key \<and> users (memory s) uid = Some user
       \<and> min_level scope \<le> RoleLevel (user_Role user) \<and> (\<forall>k. key = Some k \<longrightarrow> hasScope k scope))"
proof (cases "\<exists>uid key. acts_as e r s uid key")
  case True
  then obtain uid key where a: "acts_as e r s uid key" by blast
  with access_acts_as [OF a assms, of scope] acts_as_unique [OF a] show ?thesis by metis
next
  case False
  with withAuth_complete [OF False] show ?thesis by (auto simp: access_def)
qed

definition wit_env :: env where
  "wit_env = \<lparr>e_now = 50, e_random = \<lambda>_. Inr ''0123'', e_xid = \<lambda>n. ''x'' @ nat_digits n, e_sha256 = id,
     e_bcrypt = \<lambda>p. Inr (CHR ''#'' # p), e_matches = \<lambda>h p. h = CHR ''#'' # p, e_hmac = wit_hmac, e_unicode = ascii_unicode,
     e_upper = id, e_splitHostPort = \<lambda>a. Some a, e_codeOwners = [''u1'']\<rparr>"

definition wit_session :: Session where
  "wit_session = \<lparr>session_ID = ''t1'', session_UserID = ''u1'', session_Token = ''t1'', session_IPAddress = '''',
     session_UserAgent = '''', session_CreatedAt = 1, session_ExpiresAt = 100, session_LastUsed = 1\<rparr>"

definition wit_server :: MasterServer where
  "wit_server = \<lparr>ms_store = NewSecurityStore\<lparr>users := [''u1'' \<mapsto> wit_user], usersByName := [''ann'' \<mapsto> wit_user],
       sessions := [''t1'' \<mapsto> wit_session]\<rparr>,
     ms_requiresSetup = False, ms_sseBroker = Some [], ms_spawned = [], ms_TLSEnabled = True, ms_APIEnabled = True,
     ms_Require2FAAdmin = False\<rparr>"

definition bearer_request :: "string \<Rightarrow> Request" where
  "bearer_request token = \<lparr>req_Method = ''GET'', req_Path = ''/'',
     req_Header = \<lambda>h. if h = ''Authorization'' then ''Bearer '' @ token else '''', req_Cookie = \<lambda>_. None,
     req_FormValue = \<lambda>_. '''', req_RemoteAddr = ''a'', req_Context = background\<rparr>"

theorem access_exact_witness:
  "access ScopeAdmin wit_env (bearer_request ''t1'') wit_server = None"
proof -
  have s: "sessions (memory wit_server) ''t1'' = Some wit_session" "users (memory wit_server) ''u1'' = Some wit_user"
    "stored_key h (memory wit_server) = None" for h
    by (simp_all add: wit_server_def MemoryStore.truncate_def NewSecurityStore_def MemoryStore.extend_def NewMemoryStore_def
        stored_key_def)
  have "acts_as wit_env (bearer_request ''t1'') wit_server ''u1'' None"
    by (rule acts_asI(2) [where token = "''t1''"])
      (simp_all add: bearer_request_def live_key_def live_session_def s wit_session_def wit_env_def)
  moreover have "min_level ScopeAdmin \<le> RoleLevel (user_Role wit_user)" by (simp add: wit_user_def RoleLevel_def)
  moreover have "req_Context (bearer_request ''t1'') = background" by (simp add: bearer_request_def)
  ultimately show ?thesis
    using access_exact [of "bearer_request ''t1''" ScopeAdmin wit_env wit_server] s(2) by blast
qed



section \<open>What the wrappers do not do\<close>

text \<open>Behind \<open>withAuth\<close> the context never holds the user object, so a handler that asks for it is refused; and no
  wrapper sets the name that \<open>logAudit\<close> looks for.\<close>

lemma withAuth_context:
  assumes "withAuth e r s = (Inr ctx, s')"
  shows "GetUserFromContext ctx = GetUserFromContext (req_Context r)" and "ctx_username ctx = ctx_username (req_Context r)"
    and "ms_store s' = ms_store s"
proof -
  have "\<exists>uid key. acts_as e r s uid key" using withAuth_complete [of e r s] assms by fastforce
  then obtain uid key where "acts_as e r s uid key" by blast
  from withAuth_sound [OF this] assms have "ctx = auth_context r uid key" "ms_store s' = ms_store s" by auto
  then show "GetUserFromContext ctx = GetUserFromContext (req_Context r)" "ctx_username ctx = ctx_username (req_Context r)"
    "ms_store s' = ms_store s"
    by (simp_all add: GetUserFromContext_def auth_context_def split: option.splits)
qed

lemma withUIAuth_context:
  assumes "withUIAuth e r s = Inr ctx"
  shows "\<exists>t uid user. req_Cookie r ''session'' = Some t \<and> live_session e s t uid \<and> users (memory s) uid = Some user
      \<and> ctx = (req_Context r)\<lparr>ctx_userID := Some uid, ctx_user := Some user\<rparr>"
  using assms
  by (auto simp: withUIAuth_def User_GetByID_def not_found_or_def GetUserByID_def WithUserContext_def validateSession_live
      split: option.splits sum.splits)

lemma logAudit_effect:
  "\<exists>entry. auditLogs (memory (logAudit e xid r action resource details result s)) = auditLogs (memory s) @ [entry]
     \<and> audit_User entry = (case ctx_username (req_Context r) of Some n \<Rightarrow> n | None \<Rightarrow> ''anonymous'')
     \<and> audit_Action entry = action \<and> audit_Result entry = result \<and> audit_Details entry = details"
  by (auto simp: logAudit_def on_store_def on_base_def Service_Log_def LogAudit_def new_entry_def publishAuditEvent_def
      IsZero_def Let_def MemoryStore.defs split: prod.splits sum.splits)

text \<open>Every audit entry a handler writes on behalf of a logged-in user names the user \<open>anonymous\<close>: the wrappers never set
  the context value that \<open>logAudit\<close> reads.\<close>

theorem audit_names_nobody:
  assumes "req_Context r = background" and "withAuth e r s = (Inr ctx, s')"
  shows "\<exists>entry. auditLogs (memory (logAudit e xid (r\<lparr>req_Context := ctx\<rparr>) action resource details result s'))
      = auditLogs (memory s) @ [entry] \<and> audit_Action entry = action \<and> audit_User entry = ''anonymous''"
proof -
  note w = withAuth_context [OF assms(2)]
  have "ctx_username ctx = None" using w(2) by (simp add: assms(1) background_def)
  with logAudit_effect [of e xid "r\<lparr>req_Context := ctx\<rparr>" action resource details result s'] w(3)
  show ?thesis by auto
qed

section \<open>Truncation\<close>

lemma last_newline_bound: "last_newline s = Some i \<Longrightarrow> i < length s"
proof -
  assume "last_newline s = Some i"
  then have "i \<in> set (rev [0..<length s])" unfolding last_newline_def by (metis find_Some_iff nth_mem)
  then show "i < length s" by simp
qed

text \<open>A log of at most the limit is kept as it is; a longer one is cut to a prefix and the marker, within the limit
  unless the limit is shorter than the marker itself.\<close>

lemma TruncateLog_bounds:
  assumes "TruncateLog m content = (out, truncated)"
  shows "truncated \<longleftrightarrow> m < int (length content)" and "\<not> truncated \<Longrightarrow> out = content"
    and "truncated \<Longrightarrow> \<exists>p. prefix p content \<and> out = p @ truncateMarker"
    and "int (length out) \<le> max m (int (length truncateMarker))"
proof -
  show "truncated \<longleftrightarrow> m < int (length content)" "\<not> truncated \<Longrightarrow> out = content"
    using assms by (auto simp: TruncateLog_def Let_def split: if_splits)
  show "truncated \<Longrightarrow> \<exists>p. prefix p content \<and> out = p @ truncateMarker"
    using assms by (auto simp: TruncateLog_def Let_def take_is_prefix split: if_splits option.splits
        intro: prefix_order.trans [OF take_is_prefix take_is_prefix])
  show "int (length out) \<le> max m (int (length truncateMarker))"
    using assms by (auto simp: TruncateLog_def Let_def max_def split: if_splits option.splits dest!: last_newline_bound)
qed

end
