(* ===== verification/Login_Handlers.thy ===== *)
theory Login_Handlers
  imports Http_Auth
begin

text \<open>
  \<open>internal/server/handlers_auth.go\<close> and \<open>api_handlers_totp.go\<close>: the first-run set-up, the logins over the API and
  the web, the logout, the change of a password and the management of the second factor.

  A handler takes what the request meets (\<^typ>\<open>env\<close>), the request and the server, and gives the reply, with the
  cookies set, and the server after it. A JSON body is an argument: what the decoder made of it, \<open>None\<close> for its
  error (a body over the size limit included). \<open>renderTemplate\<close> is the reply \<^const>\<open>Template\<close>.
\<close>

record Cookie =
  ck_Name :: string
  ck_Value :: string
  ck_Secure :: bool
  ck_MaxAge :: int

type_synonym response = "Cookie list \<times> reply"
type_synonym handler = "MasterServer \<Rightarrow> response \<times> MasterServer"

abbreviation json_error :: "int \<Rightarrow> string \<Rightarrow> MasterServer \<Rightarrow> response \<times> MasterServer" where
  "json_error status msg s \<equiv> (([], JsonError status msg), s)"

abbreviation render :: "string \<Rightarrow> (string \<times> json) list \<Rightarrow> MasterServer \<Rightarrow> response \<times> MasterServer" where
  "render name data s \<equiv> (([], Template name data), s)"

abbreviation redirect :: "string \<Rightarrow> MasterServer \<Rightarrow> response \<times> MasterServer" where
  "redirect path s \<equiv> (([], Redirect path), s)"

abbreviation json_response :: "json \<Rightarrow> MasterServer \<Rightarrow> response \<times> MasterServer" where
  "json_response j s \<equiv> (([], JsonResponse j), s)"

definition session_cookie :: "MasterServer \<Rightarrow> string \<Rightarrow> Cookie" where
  "session_cookie s v = \<lparr>ck_Name = ''session'', ck_Value = v, ck_Secure = ms_TLSEnabled s, ck_MaxAge = 86400 * 7\<rparr>"

definition session_duration :: int where
  "session_duration = 7 * 24 * 3600 * 10 ^ 9"

section \<open>Helpers\<close>

definition verifyPassword :: "env \<Rightarrow> string \<Rightarrow> string \<Rightarrow> bool" where
  "verifyPassword e hash password = (if hash = '''' \<or> password = '''' then False else e_matches e hash password)"

text \<open>With the default configuration \<open>ValidateTOTP\<close> does not panic.\<close>

definition verifyTOTP :: "env \<Rightarrow> string \<Rightarrow> string \<Rightarrow> bool" where
  "verifyTOTP e secret code =
     (if secret = '''' \<or> code = '''' then False
      else ValidateTOTP (e_hmac e) secret code DefaultTOTPConfig (Unix (e_now e)) = Some True)"

lemma verifyTOTP_no_panic: "\<exists>b. ValidateTOTP hmac secret code DefaultTOTPConfig t = Some b"
proof -
  have "\<exists>x. generateTOTP hmac secret k DefaultTOTPConfig = Some x" for k
    by (simp add: generateTOTP_def DefaultTOTPConfig_def totp_mod_6 Let_def split: option.split)
  then show ?thesis by (auto simp: ValidateTOTP_def Let_def)
qed

definition new_session ::
  "env \<Rightarrow> Request \<Rightarrow> string \<Rightarrow> MasterServer \<Rightarrow> Session service_result \<times> MasterServer" where
  "new_session e r userID s =
     on_memory (Session_Create userID (extractClientIP e r) (UserAgent r) session_duration (e_random e 0) (e_now e)) s"

section \<open>Set-up\<close>

definition setupRequiredMiddleware :: "Request \<Rightarrow> MasterServer \<Rightarrow> reply option" where
  "setupRequiredMiddleware r s =
     (if \<not> ms_requiresSetup s then None
      else let path = req_Path r
           in if path = ''/setup'' \<or> HasPrefix path ''/static/'' \<or> path = ''/favicon.ico'' \<or> path = ''/healthz''
                \<or> path = ''/livez'' \<or> path = ''/readyz'' \<or> path = ''/api/v1/health''
              then None else Some (Redirect ''/setup''))"

definition handleSetup :: "env \<Rightarrow> Request \<Rightarrow> handler" where
  "handleSetup e r s =
     (if \<not> ms_requiresSetup s then redirect ''/login'' s
      else if req_Method r = ''GET'' then render ''setup'' [] s
      else if req_Method r = ''POST'' then
        (let username = TrimSpace (req_FormValue r ''username'');
             email = TrimSpace (req_FormValue r ''email'');
             password = req_FormValue r ''password'';
             confirmPassword = req_FormValue r ''confirm_password''
         in if username = '''' then render ''setup'' [(''Error'', JString ''Username is required'')] s
            else if email = '''' then render ''setup'' [(''Error'', JString ''Email is required'')] s
            else if password = '''' then render ''setup'' [(''Error'', JString ''Password is required'')] s
            else if password \<noteq> confirmPassword then render ''setup'' [(''Error'', JString ''Passwords do not match'')] s
            else
              (case on_memory (User_Create (e_unicode e) (e_bcrypt e) username password email ''admin'' [] (e_now e) (e_xid e 0)) s of
                 (Inl err, s1) \<Rightarrow> render ''setup'' [(''Error'', JString (''Failed to create user: '' @ Error err))] s1
               | (Inr user, s1) \<Rightarrow>
                   (let s2 = logAudit e (e_xid e 1) r ''setup'' ''user''
                          (''Initial admin user '' @ [CHR 0x27] @ username @ [CHR 0x27] @ '' created via setup wizard'') ''success'' s1;
                        s3 = s2\<lparr>ms_requiresSetup := False\<rparr>
                    in case new_session e r (user_ID user) s3 of
                         (Inl _, s4) \<Rightarrow> redirect ''/login'' s4
                       | (Inr session, s4) \<Rightarrow> (([session_cookie s4 (session_ID session)], Redirect ''/stats''), s4))))
      else json_error 405 ''method not allowed'' s)"

definition handleIndex :: "Request \<Rightarrow> handler" where
  "handleIndex r s = (if req_Path r \<noteq> ''/'' then (([], NotFoundPage), s) else redirect ''/stats'' s)"

section \<open>Second factor\<close>

text \<open>The identifier of the recovery code a login uses, or the empty string: over the API the last unused code that
  matches, on the web the first.\<close>

definition code_fits :: "env \<Rightarrow> string \<Rightarrow> RecoveryCode \<Rightarrow> bool" where
  "code_fits e normalizedCode code \<longleftrightarrow> rcode_UsedAt code = None \<and> e_matches e (rcode_CodeHash code) normalizedCode"

definition api_code :: "env \<Rightarrow> string \<Rightarrow> RecoveryCode list \<Rightarrow> string" where
  "api_code e normalizedCode codes =
     fold (\<lambda>code codeID. if code_fits e normalizedCode code then rcode_ID code else codeID) codes ''''"

definition web_code :: "env \<Rightarrow> string \<Rightarrow> RecoveryCode list \<Rightarrow> string" where
  "web_code e normalizedCode codes =
     (case find (code_fits e normalizedCode) codes of Some code \<Rightarrow> rcode_ID code | None \<Rightarrow> '''')"

text \<open>Marking the code and writing the audit entry; an error of \<open>UseRecoveryCode\<close> is only logged.\<close>

definition spend_code :: "env \<Rightarrow> Request \<Rightarrow> string \<Rightarrow> string \<Rightarrow> string \<Rightarrow> MasterServer \<Rightarrow> MasterServer" where
  "spend_code e r username userID codeID s =
     (let s1 = snd (on_store (UseRecoveryCode codeID (e_now e) (e_codeOwners e)) s);
          remaining = CountUnusedRecoveryCodes userID (ms_store s1)
      in logAudit e (e_xid e 0) r ''recovery_code_used'' ''auth''
           (''user: '' @ username @ '', remaining: '' @ Itoa remaining) ''success'' s1)"

section \<open>Logins\<close>

definition user_info :: "User \<Rightarrow> json" where
  "user_info user = JObject [(''id'', JString (user_ID user)), (''username'', JString (user_Username user)),
     (''email'', JString (user_Email user)), (''role'', JString (user_Role user))]"

definition LoginResponse :: "string \<Rightarrow> User \<Rightarrow> json" where
  "LoginResponse token user = JObject [(''token'', JString token), (''user'', user_info user)]"

definition finish_api_login :: "env \<Rightarrow> Request \<Rightarrow> string \<Rightarrow> User \<Rightarrow> handler" where
  "finish_api_login e r username user s =
     (case new_session e r (user_ID user) s of
        (Inl _, s1) \<Rightarrow> json_error 500 ''failed to create session'' s1
      | (Inr session, s1) \<Rightarrow>
          json_response (LoginResponse (session_ID session) user)
            (logAudit e (e_xid e 1) r ''api_login'' ''session''
               (''user: '' @ username @ '', IP: '' @ session_IPAddress session) ''success'' s1))"

definition handleAPILogin :: "env \<Rightarrow> (string \<times> string \<times> string) option \<Rightarrow> Request \<Rightarrow> handler" where
  "handleAPILogin e body r s =
     (if req_Method r \<noteq> ''POST'' then json_error 405 ''method not allowed'' s
      else case body of
        None \<Rightarrow> json_error 400 ''invalid JSON'' s
      | Some (username, password, totp) \<Rightarrow>
          if username = '''' \<or> password = '''' then json_error 400 ''username and password required'' s
          else
            (case User_GetByUsername username (memory s) of
               Inl err \<Rightarrow>
                 if IsNotFound err
                 then json_error 401 ''invalid credentials''
                        (logAudit e (e_xid e 0) r ''api_login'' ''session'' (''user not found: '' @ username) ''failure'' s)
                 else json_error 500 ''internal error'' s
             | Inr user \<Rightarrow>
                 if \<not> verifyPassword e (user_PasswordHash user) password
                 then json_error 401 ''invalid credentials''
                        (logAudit e (e_xid e 0) r ''api_login'' ''session'' (''invalid password for: '' @ username) ''failure'' s)
                 else if user_MustChangePassword user
                 then json_error 403 ''password change required. Please login via web UI to change your password.''
                        (logAudit e (e_xid e 0) r ''api_login'' ''session'' (''password change required for: '' @ username) ''blocked'' s)
                 else if user_TOTPEnabled user \<and> totp = '''' then json_error 401 ''TOTP required'' s
                 else if user_TOTPEnabled user \<and> \<not> verifyTOTP e (user_TOTPSecret user) totp
                 then (let codes = ListRecoveryCodes (user_ID user) (ms_store s);
                           codeID = api_code e (NormalizeRecoveryCode (e_upper e) totp) codes
                       in if codeID = ''''
                          then json_error 401 ''invalid verification code''
                                 (logAudit e (e_xid e 0) r ''api_login'' ''session'' (''invalid TOTP for: '' @ username) ''failure'' s)
                          else finish_api_login e r username user (spend_code e r username (user_ID user) codeID s))
                 else finish_api_login e r username user s))"

definition handleAPICurrentUser :: "Request \<Rightarrow> handler" where
  "handleAPICurrentUser r s =
     (if req_Method r \<noteq> ''GET'' then json_error 405 ''method not allowed'' s
      else case GetUserIDFromContext (req_Context r) of
             None \<Rightarrow> json_error 401 ''not authenticated'' s
           | Some userID \<Rightarrow>
               if userID = '''' then json_error 401 ''not authenticated'' s
               else (case User_GetByID userID (memory s) of
                       Inl err \<Rightarrow> if IsNotFound err then json_error 404 ''user not found'' s
                                   else json_error 500 ''internal error'' s
                     | Inr user \<Rightarrow> json_response (user_info user) s))"

definition login_error :: "string \<Rightarrow> (string \<times> json) list" where
  "login_error msg = [(''Error'', JString msg)]"

definition finish_web_login :: "env \<Rightarrow> Request \<Rightarrow> string \<Rightarrow> User \<Rightarrow> handler" where
  "finish_web_login e r username user s =
     (case new_session e r (user_ID user) s of
        (Inl _, s1) \<Rightarrow> render ''login'' (login_error ''Internal error'') s1
      | (Inr session, s1) \<Rightarrow>
          (let cookie = session_cookie s1 (session_ID session)
           in if user_MustChangePassword user
              then (([cookie], Redirect ''/change-password''),
                    logAudit e (e_xid e 1) r ''login'' ''session'' (''user: '' @ username @ '', password change required'') ''success'' s1)
              else (([cookie], Redirect ''/stats''),
                    logAudit e (e_xid e 1) r ''login'' ''session''
                      (''user: '' @ username @ '', IP: '' @ session_IPAddress session) ''success'' s1)))"

definition handleLogin :: "env \<Rightarrow> Request \<Rightarrow> handler" where
  "handleLogin e r s =
     (if req_Method r = ''POST'' then
        (let username = req_FormValue r ''username''; password = req_FormValue r ''password'';
             totp = req_FormValue r ''totp''
         in case User_GetByUsername username (memory s) of
              Inl err \<Rightarrow>
                if IsNotFound err
                then render ''login'' (login_error ''Invalid credentials'')
                       (logAudit e (e_xid e 0) r ''login'' ''session'' (''user not found: '' @ username) ''failure'' s)
                else render ''login'' (login_error ''Internal error'') s
            | Inr user \<Rightarrow>
                if \<not> verifyPassword e (user_PasswordHash user) password
                then render ''login'' (login_error ''Invalid credentials'')
                       (logAudit e (e_xid e 0) r ''login'' ''session'' (''invalid password for: '' @ username) ''failure'' s)
                else if user_TOTPEnabled user \<and> totp = ''''
                then render ''login'' [(''Username'', JString username), (''NeedsTOTP'', JBool True)] s
                else if user_TOTPEnabled user \<and> \<not> verifyTOTP e (user_TOTPSecret user) totp
                then (let codes = ListRecoveryCodes (user_ID user) (ms_store s);
                          codeID = web_code e (NormalizeRecoveryCode (e_upper e) totp) codes
                      in if codeID = ''''
                         then render ''login'' [(''Error'', JString ''Invalid verification code''),
                                  (''Username'', JString username), (''NeedsTOTP'', JBool True)]
                                (logAudit e (e_xid e 0) r ''login'' ''session'' (''invalid TOTP for: '' @ username) ''failure'' s)
                         else finish_web_login e r username user (spend_code e r username (user_ID user) codeID s))
                else finish_web_login e r username user s)
      else render ''login'' [] s)"

section \<open>Logout and change of password\<close>

definition handleLogout :: "env \<Rightarrow> Request \<Rightarrow> handler" where
  "handleLogout e r s =
     (let s1 = (case req_Cookie r ''session'' of
                  None \<Rightarrow> s
                | Some cookie \<Rightarrow>
                    if cookie = '''' then s
                    else
                      (let s0 = (case GetByToken cookie (e_now e) (memory s) of
                                   Inl _ \<Rightarrow> s
                                 | Inr session \<Rightarrow>
                                     snd (on_memory (Service_Log
                                       ((new_entry ''web'' (''user:'' @ session_UserID session) ''logout'' ''session'' '''' '''' ''success'')
                                          \<lparr>audit_Timestamp := e_now e\<rparr>) (e_now e) (e_xid e 0)) s))
                       in snd (on_memory (Session_Delete cookie (e_now e)) s0)))
      in (([\<lparr>ck_Name = ''session'', ck_Value = '''', ck_Secure = False, ck_MaxAge = -1\<rparr>], Redirect ''/login''), s1))"

definition change_page :: "string \<Rightarrow> User \<Rightarrow> handler" where
  "change_page msg user s =
     render ''change-password'' [(''Error'', JString msg), (''MustChangePassword'', JBool (user_MustChangePassword user))] s"

definition handleChangePassword :: "env \<Rightarrow> Request \<Rightarrow> handler" where
  "handleChangePassword e r s =
     (case GetUserFromContext (req_Context r) of
        None \<Rightarrow> redirect ''/login'' s
      | Some user \<Rightarrow>
          if req_Method r = ''POST'' then
            (let currentPassword = req_FormValue r ''current_password''; newPassword = req_FormValue r ''new_password'';
                 confirmPassword = req_FormValue r ''confirm_password''
             in if \<not> verifyPassword e (user_PasswordHash user) currentPassword
                then change_page ''Current password is incorrect'' user s
                else if newPassword \<noteq> confirmPassword then change_page ''New passwords do not match'' user s
                else if currentPassword = newPassword
                then change_page ''New password must be different from current password'' user s
                else
                  (case on_memory (UpdatePassword (e_unicode e) (e_bcrypt e) (user_ID user) newPassword (e_now e)) s of
                     (Inl err, s1) \<Rightarrow> change_page (''Failed to update password: '' @ Error err) user s1
                   | (Inr _, s1) \<Rightarrow>
                       (let s2 = snd (on_memory (DeleteAllForUser (user_ID user) (e_now e)) s1);
                            s3 = logAudit e (e_xid e 0) r ''password_change'' ''user'' (''user: '' @ user_Username user) ''success'' s2
                        in redirect ''/stats'' s3)))
          else render ''change-password'' [(''MustChangePassword'', JBool (user_MustChangePassword user))] s)"

section \<open>Management of the second factor\<close>

definition b32_char :: "nat \<Rightarrow> char" where
  "b32_char v = ''ABCDEFGHIJKLMNOPQRSTUVWXYZ234567'' ! v"

text \<open>\<open>base32.StdEncoding\<close> without padding: five bytes to eight characters, a shorter last group to fewer.\<close>

function b32_encode :: "string \<Rightarrow> string" where
  "b32_encode s =
     (if s = [] then []
      else
        (let n = fold (\<lambda>ch n. n * 256 + of_char ch) (take 5 s @ replicate (5 - length s) (CHR 0x00)) 0
         in map (\<lambda>i. b32_char (n div 32 ^ (7 - i) mod 32)) [0..<(min 5 (length s) * 8 + 4) div 5] @ b32_encode (drop 5 s)))"
  by pat_completeness auto
termination by (relation "measure length") auto

declare b32_encode.simps [simp del]

definition GenerateTOTPSecret :: "random_bytes \<Rightarrow> string service_result" where
  "GenerateTOTPSecret rnd =
     (case rnd of Inl e \<Rightarrow> Inl (Wrap ''generating secret'' (TextError e)) | Inr secret \<Rightarrow> Inr (b32_encode secret))"

definition handleUserTOTPStatus :: "User \<Rightarrow> handler" where
  "handleUserTOTPStatus user s =
     (let remaining = (if user_TOTPEnabled user
            then int (length (filter (\<lambda>code. rcode_UsedAt code = None) (ListRecoveryCodes (user_ID user) (ms_store s)))) else 0)
      in json_response (JObject [(''enabled'', JBool (user_TOTPEnabled user)), (''recovery_codes_remaining'', JInt remaining)]) s)"

definition handleUserTOTPSetup :: "env \<Rightarrow> User \<Rightarrow> handler" where
  "handleUserTOTPSetup e user s =
     (if user_TOTPEnabled user then json_error 400 ''TOTP is already enabled'' s
      else case GenerateTOTPSecret (e_random e 0) of
             Inl _ \<Rightarrow> json_error 500 ''failed to generate TOTP secret'' s
           | Inr secret \<Rightarrow>
               (case on_memory (User_Update (user\<lparr>user_TOTPSecret := secret\<rparr>) (e_now e)) s of
                  (Inl _, s1) \<Rightarrow> json_error 500 ''failed to store TOTP secret'' s1
                | (Inr _, s1) \<Rightarrow>
                    json_response (JObject [(''secret'', JString secret),
                      (''uri'', JString (GenerateTOTPURI secret (user_Username user) DefaultTOTPConfig))]) s1))"

definition saved_codes :: "string \<Rightarrow> string list \<Rightarrow> RecoveryCode list" where
  "saved_codes userID hashes =
     map (\<lambda>hash. \<lparr>rcode_ID = '''', rcode_UserID = userID, rcode_CodeHash = hash, rcode_UsedAt = None, rcode_CreatedAt = 0\<rparr>) hashes"

definition totp_ok :: "env \<Rightarrow> string \<Rightarrow> string \<Rightarrow> bool" where
  "totp_ok e secret code \<longleftrightarrow> ValidateTOTP (e_hmac e) secret code DefaultTOTPConfig (Unix (e_now e)) = Some True"

definition handleUserTOTPEnable :: "env \<Rightarrow> string option \<Rightarrow> Request \<Rightarrow> User \<Rightarrow> handler" where
  "handleUserTOTPEnable e body r user s =
     (if user_TOTPEnabled user then json_error 400 ''TOTP is already enabled'' s
      else if user_TOTPSecret user = ''''
      then json_error 400 ''TOTP setup not initiated. Call POST /users/me/totp/setup first'' s
      else case body of
        None \<Rightarrow> json_error 400 ''invalid JSON'' s
      | Some code \<Rightarrow>
          if code = '''' then json_error 400 ''code is required'' s
          else if \<not> totp_ok e (user_TOTPSecret user) code then json_error 400 ''invalid TOTP code'' s
          else
            (case on_memory (User_Update (user\<lparr>user_TOTPEnabled := True\<rparr>) (e_now e)) s of
               (Inl _, s1) \<Rightarrow> json_error 500 ''failed to enable TOTP'' s1
             | (Inr _, s1) \<Rightarrow>
                 (case GenerateRecoveryCodes (e_bcrypt e) (e_random e) of
                    Inl _ \<Rightarrow> json_error 500 ''failed to generate recovery codes'' s1
                  | Inr (codes, hashes) \<Rightarrow>
                      (case on_store (SaveRecoveryCodes (user_ID user) (saved_codes (user_ID user) hashes) (e_now e) (\<lambda>n. e_xid e (n + 1))) s1 of
                         (Inl _, s2) \<Rightarrow> json_error 500 ''failed to save recovery codes'' s2
                       | (Inr _, s2) \<Rightarrow>
                           json_response (JObject [(''recovery_codes'', json_strings (Some (FormatRecoveryCodes codes))),
                               (''status'', JString ''enabled'')])
                             (logAudit e (e_xid e 0) r ''enable'' ''totp'' (''TOTP enabled for user: '' @ user_Username user) ''success'' s2)))))"

definition disable_totp :: "env \<Rightarrow> Request \<Rightarrow> string \<Rightarrow> string \<Rightarrow> User \<Rightarrow> handler" where
  "disable_totp e r action details user s =
     (case on_memory (User_Update (user\<lparr>user_TOTPEnabled := False, user_TOTPSecret := ''''\<rparr>) (e_now e)) s of
        (Inl _, s1) \<Rightarrow> json_error 500 ''failed to disable TOTP'' s1
      | (Inr _, s1) \<Rightarrow>
          (let s2 = snd (on_store (DeleteRecoveryCodes (user_ID user) (e_now e)) s1)
           in json_response (JObject [(''status'', JString ''disabled'')])
                (logAudit e (e_xid e 0) r action ''totp'' details ''success'' s2)))"

definition handleUserTOTPDisableForUser :: "env \<Rightarrow> string option \<Rightarrow> Request \<Rightarrow> User \<Rightarrow> handler" where
  "handleUserTOTPDisableForUser e body r user s =
     (if \<not> user_TOTPEnabled user then json_error 400 ''TOTP is not enabled'' s
      else case body of
        None \<Rightarrow> json_error 400 ''invalid JSON'' s
      | Some code \<Rightarrow>
          if code = '''' then json_error 400 ''code is required for verification'' s
          else if \<not> totp_ok e (user_TOTPSecret user) code
            \<and> VerifyRecoveryCode (e_upper e) (e_matches e) code
                (map rcode_CodeHash (filter (\<lambda>c. rcode_UsedAt c = None) (ListRecoveryCodes (user_ID user) (ms_store s)))) = None
          then json_error 400 ''invalid code'' s
          else disable_totp e r ''disable'' (''TOTP disabled for user: '' @ user_Username user) user s)"

definition handleUserTOTPRecovery :: "env \<Rightarrow> string option \<Rightarrow> Request \<Rightarrow> User \<Rightarrow> handler" where
  "handleUserTOTPRecovery e body r user s =
     (if \<not> user_TOTPEnabled user then json_error 400 ''TOTP is not enabled'' s
      else case body of
        None \<Rightarrow> json_error 400 ''invalid JSON'' s
      | Some code \<Rightarrow>
          if code = '''' then json_error 400 ''code is required for verification'' s
          else if \<not> totp_ok e (user_TOTPSecret user) code then json_error 400 ''invalid TOTP code'' s
          else
            (case GenerateRecoveryCodes (e_bcrypt e) (e_random e) of
               Inl _ \<Rightarrow> json_error 500 ''failed to generate recovery codes'' s
             | Inr (codes, hashes) \<Rightarrow>
                 (let s1 = snd (on_store (DeleteRecoveryCodes (user_ID user) (e_now e)) s)
                  in case on_store (SaveRecoveryCodes (user_ID user) (saved_codes (user_ID user) hashes) (e_now e) (\<lambda>n. e_xid e (n + 1))) s1 of
                       (Inl _, s2) \<Rightarrow> json_error 500 ''failed to save recovery codes'' s2
                     | (Inr _, s2) \<Rightarrow>
                         json_response (JObject [(''recovery_codes'', json_strings (Some (FormatRecoveryCodes codes)))])
                           (logAudit e (e_xid e 0) r ''regenerate'' ''totp_recovery''
                              (''Recovery codes regenerated for user: '' @ user_Username user) ''success'' s2))))"

definition handleUserTOTP :: "env \<Rightarrow> string option \<Rightarrow> Request \<Rightarrow> User \<Rightarrow> string \<Rightarrow> handler" where
  "handleUserTOTP e body r user path s =
     (if path = '''' \<or> path = ''/'' then
        (if req_Method r = ''GET'' then handleUserTOTPStatus user s
         else if req_Method r = ''PUT'' then handleUserTOTPEnable e body r user s
         else if req_Method r = ''DELETE'' then handleUserTOTPDisableForUser e body r user s
         else json_error 405 ''method not allowed'' s)
      else if path = ''/setup'' then
        (if req_Method r \<noteq> ''POST'' then json_error 405 ''method not allowed'' s else handleUserTOTPSetup e user s)
      else if path = ''/recovery'' then
        (if req_Method r \<noteq> ''POST'' then json_error 405 ''method not allowed'' s else handleUserTOTPRecovery e body r user s)
      else json_error 404 ''not found'' s)"

text \<open>The creation time in the reply is given by its text, an argument.\<close>

definition handleUserMe :: "env \<Rightarrow> (time \<Rightarrow> string) \<Rightarrow> string option \<Rightarrow> Request \<Rightarrow> handler" where
  "handleUserMe e time_text body r s =
     (case GetUserFromContext (req_Context r) of
        None \<Rightarrow> json_error 401 ''authentication required'' s
      | Some user \<Rightarrow>
          (let prefix = ''/api/v1/users/me'';
               path = (if HasPrefix (req_Path r) prefix then drop (length prefix) (req_Path r) else req_Path r)
           in if path = '''' \<or> path = ''/'' then
                (if req_Method r = ''GET'' then
                   json_response (JObject [(''id'', JString (user_ID user)), (''username'', JString (user_Username user)),
                     (''email'', JString (user_Email user)), (''role'', JString (user_Role user)),
                     (''createdAt'', JString (time_text (user_CreatedAt user)))]) s
                 else json_error 405 ''method not allowed'' s)
              else if HasPrefix path ''/totp'' then handleUserTOTP e body r user (drop (length ''/totp'') path) s
              else json_error 404 ''not found'' s))"

definition handleAdminUserTOTP :: "env \<Rightarrow> Request \<Rightarrow> string \<Rightarrow> handler" where
  "handleAdminUserTOTP e r userID s =
     (case GetUserFromContext (req_Context r) of
        None \<Rightarrow> json_error 403 ''admin access required'' s
      | Some admin \<Rightarrow>
          if user_Role admin \<noteq> ''admin'' then json_error 403 ''admin access required'' s
          else
            (case User_GetByID userID (memory s) of
               Inl _ \<Rightarrow> json_error 404 ''user not found'' s
             | Inr user \<Rightarrow>
                 if req_Method r = ''GET'' then
                   (let remaining = (if user_TOTPEnabled user
                          then int (length (filter (\<lambda>code. rcode_UsedAt code = None) (ListRecoveryCodes (user_ID user) (ms_store s)))) else 0)
                    in json_response (JObject [(''enabled'', JBool (user_TOTPEnabled user)),
                         (''recovery_codes_remaining'', JInt remaining), (''user_id'', JString (user_ID user)),
                         (''username'', JString (user_Username user))]) s)
                 else if req_Method r = ''DELETE'' then
                   (if \<not> user_TOTPEnabled user then json_error 400 ''TOTP is not enabled for this user'' s
                    else disable_totp e r ''admin_disable''
                           (''Admin '' @ user_Username admin @ '' disabled TOTP for user: '' @ user_Username user) user s)
                 else json_error 405 ''method not allowed'' s))"

section \<open>What the steps of a login change\<close>

lemma on_base_parts [simp]:
  "recoveryCodes (snd (on_base f s)) = recoveryCodes s" "recoveryObjs (snd (on_base f s)) = recoveryObjs s"
  by (simp_all add: on_base_def MemoryStore.extend_def split: prod.split)

lemma on_store_simps [simp]:
  "ms_store (snd (on_store f s)) = snd (f (ms_store s))" "fst (on_store f s) = fst (f (ms_store s))"
  "ms_requiresSetup (snd (on_store f s)) = ms_requiresSetup s"
  by (simp_all add: on_store_def split: prod.split)

lemma ListRecoveryCodes_cong:
  "recoveryCodes s' = recoveryCodes s \<Longrightarrow> recoveryObjs s' = recoveryObjs s \<Longrightarrow> ListRecoveryCodes u s' = ListRecoveryCodes u s"
  by (simp add: ListRecoveryCodes_def codes_of_def split: option.split)

lemma codes_on_base [simp]: "ListRecoveryCodes u (snd (on_base f s)) = ListRecoveryCodes u s"
  by (rule ListRecoveryCodes_cong) simp_all

lemma logAudit_store:
  "ms_store (logAudit e xid r a res d result s) =
     snd (on_base (Service_Log (new_entry ''http'' (case ctx_username (req_Context r) of Some n \<Rightarrow> n | None \<Rightarrow> ''anonymous'')
        a res d (extractClientIP e r) result) (e_now e) xid) (ms_store s))"
  by (simp add: logAudit_def on_store_def publishAuditEvent_def Let_def split: prod.splits sum.splits)

lemma Service_Log_frame [simp]:
  "users (snd (Service_Log en now xid m)) = users m" "usersByName (snd (Service_Log en now xid m)) = usersByName m"
  "sessions (snd (Service_Log en now xid m)) = sessions m" "apiKeys (snd (Service_Log en now xid m)) = apiKeys m"
  "apiKeyObjs (snd (Service_Log en now xid m)) = apiKeyObjs m"
  by (simp_all add: Service_Log_def LogAudit_def Let_def)

lemma logAudit_frame [simp]:
  "users (memory (logAudit e xid r a res d result s)) = users (memory s)"
  "usersByName (memory (logAudit e xid r a res d result s)) = usersByName (memory s)"
  "sessions (memory (logAudit e xid r a res d result s)) = sessions (memory s)"
  "apiKeys (memory (logAudit e xid r a res d result s)) = apiKeys (memory s)"
  "apiKeyObjs (memory (logAudit e xid r a res d result s)) = apiKeyObjs (memory s)"
  "ListRecoveryCodes u (ms_store (logAudit e xid r a res d result s)) = ListRecoveryCodes u (ms_store s)"
  by (simp_all add: logAudit_store)

text \<open>Marking a code touches nothing but the codes and the queue of writes.\<close>

lemma UseRecoveryCode_frame [simp]:
  "users (MemoryStore.truncate (snd (UseRecoveryCode c now ks s))) = users (MemoryStore.truncate s)"
  "usersByName (MemoryStore.truncate (snd (UseRecoveryCode c now ks s))) = usersByName (MemoryStore.truncate s)"
  "sessions (MemoryStore.truncate (snd (UseRecoveryCode c now ks s))) = sessions (MemoryStore.truncate s)"
  by (auto simp: UseRecoveryCode_def queue_core_def MemoryStore.truncate_def split: option.splits)

lemma spend_code_frame [simp]:
  "users (memory (spend_code e r n u c s)) = users (memory s)"
  "usersByName (memory (spend_code e r n u c s)) = usersByName (memory s)"
  "sessions (memory (spend_code e r n u c s)) = sessions (memory s)"
  by (simp_all add: spend_code_def Let_def)

lemma new_session_ok:
  assumes "e_random e 0 = Inr b" "b \<noteq> ''''"
  shows "\<exists>ses s'. new_session e r uid s = (Inr ses, s') \<and> session_ID ses = hex_EncodeToString b
    \<and> session_UserID ses = uid \<and> session_ExpiresAt ses = e_now e + session_duration
    \<and> sessions (memory s') = (sessions (memory s))(hex_EncodeToString b \<mapsto> ses)
    \<and> users (memory s') = users (memory s) \<and> usersByName (memory s') = usersByName (memory s)
    \<and> (\<forall>u. ListRecoveryCodes u (ms_store s') = ListRecoveryCodes u (ms_store s))"
proof -
  let ?f = "Session_Create uid (extractClientIP e r) (UserAgent r) session_duration (e_random e 0) (e_now e)"
  from Session_Create_ok [OF assms(2), of uid "extractClientIP e r" "UserAgent r" session_duration "e_now e" "memory s"]
  obtain ses m where f: "?f (memory s) = (Inr ses, m)" "session_Token ses = hex_EncodeToString b"
      "session_ID ses = session_Token ses" "session_UserID ses = uid" "session_ExpiresAt ses = e_now e + session_duration"
      "sessions m = (sessions (memory s))(hex_EncodeToString b \<mapsto> ses)" "users m = users (memory s)"
      "usersByName m = usersByName (memory s)"
    by (auto simp: assms(1))
  have "new_session e r uid s = (Inr ses, snd (on_memory ?f s))"
    unfolding new_session_def using f(1) by (simp add: prod_eq_iff)
  then show ?thesis using f by (intro exI [of _ ses] exI [of _ "snd (on_memory ?f s)"]) simp
qed

section \<open>The API login\<close>

definition second_factor_ok :: "env \<Rightarrow> string \<Rightarrow> User \<Rightarrow> MasterServer \<Rightarrow> bool" where
  "second_factor_ok e totp user s \<longleftrightarrow> (user_TOTPEnabled user \<longrightarrow> totp \<noteq> '''' \<and>
     (verifyTOTP e (user_TOTPSecret user) totp \<or>
      (\<exists>code \<in> set (ListRecoveryCodes (user_ID user) (ms_store s)). code_fits e (NormalizeRecoveryCode (e_upper e) totp) code)))"

definition login_accepted :: "env \<Rightarrow> (string \<times> string \<times> string) option \<Rightarrow> Request \<Rightarrow> MasterServer \<Rightarrow> User \<Rightarrow> bool" where
  "login_accepted e body r s user \<longleftrightarrow>
     req_Method r = ''POST'' \<and>
     (\<exists>username password totp. body = Some (username, password, totp) \<and> username \<noteq> ''''
        \<and> usersByName (memory s) username = Some user \<and> verifyPassword e (user_PasswordHash user) password
        \<and> \<not> user_MustChangePassword user \<and> second_factor_ok e totp user s)"

lemma api_code_eq_Nil:
  assumes "\<forall>code \<in> set codes. rcode_ID code \<noteq> ''''"
  shows "api_code e c codes = '''' \<longleftrightarrow> (\<forall>code \<in> set codes. \<not> code_fits e c code)"
proof -
  have "fold (\<lambda>code codeID. if code_fits e c code then rcode_ID code else codeID) codes acc = '''' \<longleftrightarrow>
      acc = '''' \<and> (\<forall>code \<in> set codes. \<not> code_fits e c code)" for acc
    using assms by (induction codes arbitrary: acc) auto
  then show ?thesis by (simp add: api_code_def)
qed

lemma web_code_eq_Nil:
  assumes "\<forall>code \<in> set codes. rcode_ID code \<noteq> ''''"
  shows "web_code e c codes = '''' \<longleftrightarrow> (\<forall>code \<in> set codes. \<not> code_fits e c code)"
  using assms
  by (auto simp: web_code_def find_None_iff find_Some_iff split: option.splits)

definition logged_in :: "env \<Rightarrow> string \<Rightarrow> User \<Rightarrow> MasterServer \<Rightarrow> MasterServer \<Rightarrow> bool" where
  "logged_in e token user s s' \<longleftrightarrow>
     (\<exists>ses. sessions (memory s') = (sessions (memory s))(token \<mapsto> ses) \<and> session_UserID ses = user_ID user
        \<and> session_ExpiresAt ses = e_now e + session_duration)
     \<and> users (memory s') = users (memory s) \<and> usersByName (memory s') = usersByName (memory s)"

lemma finish_api_login_ok:
  assumes "e_random e 0 = Inr b" "b \<noteq> ''''"
  shows "fst (finish_api_login e r n user s) = ([], JsonResponse (LoginResponse (hex_EncodeToString b) user))"
    and "logged_in e (hex_EncodeToString b) user s (snd (finish_api_login e r n user s))"
proof -
  from new_session_ok [OF assms, of r "user_ID user" s] obtain ses s1 where
    n: "new_session e r (user_ID user) s = (Inr ses, s1)" "session_ID ses = hex_EncodeToString b"
      "session_UserID ses = user_ID user" "session_ExpiresAt ses = e_now e + session_duration"
      "sessions (memory s1) = (sessions (memory s))(hex_EncodeToString b \<mapsto> ses)"
      "users (memory s1) = users (memory s)" "usersByName (memory s1) = usersByName (memory s)"
    by blast
  show "fst (finish_api_login e r n user s) = ([], JsonResponse (LoginResponse (hex_EncodeToString b) user))"
    by (simp add: finish_api_login_def n)
  show "logged_in e (hex_EncodeToString b) user s (snd (finish_api_login e r n user s))"
    using n by (auto simp: finish_api_login_def logged_in_def)
qed

lemma logged_in_cong:
  "users (memory t) = users (memory s) \<Longrightarrow> usersByName (memory t) = usersByName (memory s) \<Longrightarrow>
   sessions (memory t) = sessions (memory s) \<Longrightarrow> logged_in e tok user t s' = logged_in e tok user s s'"
  by (simp add: logged_in_def)

lemma logged_in_live:
  "logged_in e token user s s' \<Longrightarrow> token \<noteq> '''' \<Longrightarrow> e_now e' \<le> e_now e + session_duration \<Longrightarrow> live_session e' s' token (user_ID user)"
  by (auto simp: logged_in_def live_session_def)

lemma handleAPILogin_accepts:
  assumes rnd: "e_random e 0 = Inr b" "b \<noteq> ''''"
    and ids: "\<forall>code \<in> set (ListRecoveryCodes (user_ID user) (ms_store s)). rcode_ID code \<noteq> ''''"
    and ok: "login_accepted e body r s user"
  shows "fst (handleAPILogin e body r s) = ([], JsonResponse (LoginResponse (hex_EncodeToString b) user))
    \<and> logged_in e (hex_EncodeToString b) user s (snd (handleAPILogin e body r s))"
proof -
  from ok obtain username password totp where o: "req_Method r = ''POST''" "body = Some (username, password, totp)"
      "username \<noteq> ''''" "usersByName (memory s) username = Some user" "verifyPassword e (user_PasswordHash user) password"
      "\<not> user_MustChangePassword user" "second_factor_ok e totp user s"
    by (auto simp: login_accepted_def)
  have p: "password \<noteq> ''''" using o(5) by (auto simp: verifyPassword_def)
  let ?c = "api_code e (NormalizeRecoveryCode (e_upper e) totp) (ListRecoveryCodes (user_ID user) (ms_store s))"
  let ?s = "if user_TOTPEnabled user \<and> \<not> verifyTOTP e (user_TOTPSecret user) totp
            then spend_code e r username (user_ID user) ?c s else s"
  have "user_TOTPEnabled user \<Longrightarrow> \<not> verifyTOTP e (user_TOTPSecret user) totp \<Longrightarrow> ?c \<noteq> ''''"
    using o(7) by (auto simp: second_factor_ok_def api_code_eq_Nil [OF ids])
  then have h: "handleAPILogin e body r s = finish_api_login e r username user ?s"
    using o(7) by (auto simp: handleAPILogin_def o p User_GetByUsername_def GetUserByUsername_def not_found_or_def
        second_factor_ok_def Let_def)
  show ?thesis
    unfolding h using finish_api_login_ok [OF rnd, where r = r and n = username and user = user and s = ?s]
    by (auto simp: logged_in_cong [of ?s s] split: if_splits)
qed

lemma handleAPILogin_refuses:
  assumes ids: "\<forall>u. \<forall>code \<in> set (ListRecoveryCodes u (ms_store s)). rcode_ID code \<noteq> ''''"
    and no: "\<nexists>user. login_accepted e body r s user"
  shows "(\<exists>status msg. fst (handleAPILogin e body r s) = ([], JsonError status msg))
    \<and> sessions (memory (snd (handleAPILogin e body r s))) = sessions (memory s)"
proof (cases "req_Method r = ''POST'' \<and> (\<exists>username password totp. body = Some (username, password, totp)
      \<and> username \<noteq> '''' \<and> password \<noteq> '''')")
  case False
  then show ?thesis by (auto simp: handleAPILogin_def split: option.splits prod.splits)
next
  case True
  then obtain username password totp where o: "req_Method r = ''POST''" "body = Some (username, password, totp)"
      "username \<noteq> ''''" "password \<noteq> ''''" by blast
  show ?thesis
  proof (cases "usersByName (memory s) username")
    case None
    then show ?thesis
      by (simp add: handleAPILogin_def o User_GetByUsername_def GetUserByUsername_def not_found_or_def error_kinds)
  next
    case (Some user)
    have "\<not> verifyPassword e (user_PasswordHash user) password \<or> user_MustChangePassword user \<or> \<not> second_factor_ok e totp user s"
      using no Some o by (auto simp: login_accepted_def)
    then show ?thesis
      using api_code_eq_Nil [OF spec [OF ids, of "user_ID user"], of e "NormalizeRecoveryCode (e_upper e) totp"]
      by (auto simp: handleAPILogin_def o Some User_GetByUsername_def GetUserByUsername_def not_found_or_def
          second_factor_ok_def Let_def)
  qed
qed

text \<open>The API login hands out a token exactly when it should. A request is accepted if and only if it is a POST with a
  known user's name and password, the user need not change the password, and, where the second factor is on, the code
  is a current one-time password or an unused recovery code of the user. Then, and only then, the new token is stored
  as a session of that user for seven days; every other request gets an error and the sessions stay as they were.\<close>

theorem handleAPILogin_exact:
  assumes "e_random e 0 = Inr b" and "b \<noteq> ''''"
    and "\<forall>u. \<forall>code \<in> set (ListRecoveryCodes u (ms_store s)). rcode_ID code \<noteq> ''''"
  shows "if \<exists>user. login_accepted e body r s user
    then \<exists>user. login_accepted e body r s user
       \<and> fst (handleAPILogin e body r s) = ([], JsonResponse (LoginResponse (hex_EncodeToString b) user))
       \<and> logged_in e (hex_EncodeToString b) user s (snd (handleAPILogin e body r s))
    else (\<exists>status msg. fst (handleAPILogin e body r s) = ([], JsonError status msg))
       \<and> sessions (memory (snd (handleAPILogin e body r s))) = sessions (memory s)"
  using handleAPILogin_accepts [OF assms(1,2) spec [OF assms(3)]] handleAPILogin_refuses [OF assms(3)] by auto

definition wit_login_server :: MasterServer where
  "wit_login_server = wit_server\<lparr>ms_store := (ms_store wit_server)
     \<lparr>usersByName := [''ann'' \<mapsto> wit_user\<lparr>user_PasswordHash := ''#pw'', user_MustChangePassword := False\<rparr>]\<rparr>\<rparr>"

theorem handleAPILogin_exact_witness:
  "fst (handleAPILogin wit_env (Some (''ann'', ''pw'', '''')) ((bearer_request '''')\<lparr>req_Method := ''POST''\<rparr>) wit_login_server)
     = ([], JsonResponse (LoginResponse (hex_EncodeToString ''0123'')
              (wit_user\<lparr>user_PasswordHash := ''#pw'', user_MustChangePassword := False\<rparr>)))"
proof -
  let ?u = "wit_user\<lparr>user_PasswordHash := ''#pw'', user_MustChangePassword := False\<rparr>"
  let ?r = "(bearer_request '''')\<lparr>req_Method := ''POST''\<rparr>"
  let ?b = "Some (''ann'', ''pw'', '''')"
  have c: "\<forall>u. \<forall>code \<in> set (ListRecoveryCodes u (ms_store wit_login_server)). rcode_ID code \<noteq> ''''"
    by (simp add: ListRecoveryCodes_def wit_login_server_def wit_server_def NewSecurityStore_def MemoryStore.extend_def)
  have a: "login_accepted wit_env ?b ?r wit_login_server u \<longleftrightarrow> u = ?u" for u
    by (auto simp: login_accepted_def wit_login_server_def wit_server_def MemoryStore.truncate_def verifyPassword_def
        wit_env_def second_factor_ok_def wit_user_def)
  show ?thesis
    using handleAPILogin_exact [of wit_env "''0123''" wit_login_server ?b ?r] c
    by (simp add: a, simp add: wit_env_def)
qed

section \<open>Changing the password ends every session\<close>

lemma DeleteAllForUser_frame:
  "sessions (snd (DeleteAllForUser u now m)) = delete_where (\<lambda>_ ses. session_UserID ses = u) (sessions m)"
  "users (snd (DeleteAllForUser u now m)) = users m" "usersByName (snd (DeleteAllForUser u now m)) = usersByName m"
  by (simp_all add: DeleteAllForUser_def DeleteUserSessions_def)

text \<open>A successful change of the password over the web needed the current password, stores a new one that satisfies the
  rules and clears the duty to change it, and ends every session of the user, the one it came from included; the
  sessions of other users go on.\<close>

theorem handleChangePassword_ends_sessions:
  assumes wf: "users_wf (memory s)" and law: "bcrypt_lawful (e_bcrypt e) (e_matches e)"
    and u: "GetUserFromContext (req_Context r) = Some user"
    and ok: "handleChangePassword e r s = (([], Redirect ''/stats''), s')"
  shows "verifyPassword e (user_PasswordHash user) (req_FormValue r ''current_password'')
    \<and> ValidatePassword (e_unicode e) (req_FormValue r ''new_password'') = None
    \<and> (\<exists>stored. users (memory s') (user_ID user) = Some stored \<and> \<not> user_MustChangePassword stored
         \<and> e_matches e (user_PasswordHash stored) (req_FormValue r ''new_password''))
    \<and> (\<forall>e' t. \<not> live_session e' s' t (user_ID user))
    \<and> (\<forall>e' t uid. uid \<noteq> user_ID user \<longrightarrow> live_session e' s' t uid = live_session e' s t uid)"
proof -
  let ?new = "req_FormValue r ''new_password''"
  let ?f = "UpdatePassword (e_unicode e) (e_bcrypt e) (user_ID user) ?new (e_now e)"
  obtain x s1 where f: "on_memory ?f s = (Inr x, s1)"
      and v: "verifyPassword e (user_PasswordHash user) (req_FormValue r ''current_password'')"
      and s': "s' = logAudit e (e_xid e 0) r ''password_change'' ''user'' (''user: '' @ user_Username user) ''success''
         (snd (on_memory (DeleteAllForUser (user_ID user) (e_now e)) s1))"
    using ok by (auto simp: handleChangePassword_def u change_page_def Let_def split: if_splits sum.splits prod.splits)
  have "?f (memory s) = (Inr (), memory s1)"
    using f on_store_simps(1,2) [of "on_base ?f" s] by (simp add: prod_eq_iff)
  from UpdatePassword_Inr [OF wf this] obtain old hash where p: "e_bcrypt e ?new = Inr hash"
      "ValidatePassword (e_unicode e) ?new = None" "sessions (memory s1) = sessions (memory s)"
      "users (memory s1) = (users (memory s))(user_ID user \<mapsto>
         old\<lparr>user_PasswordHash := hash, user_MustChangePassword := False, user_UpdatedAt := e_now e\<rparr>)"
    by metis
  have ses: "sessions (memory s') = delete_where (\<lambda>_ ses. session_UserID ses = user_ID user) (sessions (memory s))"
    and us: "users (memory s') = users (memory s1)"
    by (simp_all add: s' DeleteAllForUser_frame p(3))
  have "e_matches e hash ?new" using law p(1) by (simp add: bcrypt_lawful_def)
  then show ?thesis
    using v p(2) by (auto simp: us p(4) live_session_def ses delete_where_def split: option.splits if_splits)
qed

definition wit_change :: Request where
  "wit_change = (bearer_request '''')\<lparr>req_Method := ''POST'',
     req_FormValue := (\<lambda>k. if k = ''current_password'' then ''old'' else ''Correct-Horse-9''),
     req_Context := background\<lparr>ctx_userID := Some ''u1'', ctx_user := Some wit_user\<rparr>\<rparr>"

theorem handleChangePassword_ends_sessions_witness:
  "\<exists>s'. handleChangePassword wit_env wit_change wit_server = (([], Redirect ''/stats''), s')
     \<and> live_session wit_env wit_server ''t1'' ''u1'' \<and> \<not> live_session wit_env s' ''t1'' ''u1''"
proof -
  have m: "users (memory wit_server) = [''u1'' \<mapsto> wit_user]" "usersByName (memory wit_server) = [''ann'' \<mapsto> wit_user]"
    "sessions (memory wit_server) = [''t1'' \<mapsto> wit_session]"
    by (simp_all add: wit_server_def MemoryStore.truncate_def)
  have c: "GetUserFromContext (req_Context wit_change) = Some wit_user"
    by (simp add: GetUserFromContext_def wit_change_def)
  have wf: "users_wf (memory wit_server)" by (simp add: users_wf_def dual_indexed_def m wit_user_def)
  have law: "bcrypt_lawful (e_bcrypt wit_env) (e_matches wit_env)" by (simp add: bcrypt_lawful_def wit_env_def)
  let ?f = "UpdatePassword ascii_unicode (e_bcrypt wit_env) ''u1'' ''Correct-Horse-9'' (e_now wit_env)"
  have "fst (on_memory ?f wit_server) = Inr ()"
    by (simp add: UpdatePassword_def wit_password GetUserByID_def m HashPassword_def wit_env_def UpdateUserByID_def
        wit_user_def Let_def)
  then obtain s1 where f: "on_memory ?f wit_server = (Inr (), s1)" by (metis prod.collapse)
  have p: "req_FormValue wit_change ''current_password'' = ''old''" "req_FormValue wit_change ''new_password'' = ''Correct-Horse-9''"
    "req_FormValue wit_change ''confirm_password'' = ''Correct-Horse-9''" "req_Method wit_change = ''POST''"
    by (simp_all add: wit_change_def)
  have v: "verifyPassword wit_env (user_PasswordHash wit_user) ''old''" "user_ID wit_user = ''u1''"
    "e_unicode wit_env = ascii_unicode"
    by (simp_all add: verifyPassword_def wit_env_def wit_user_def)
  have "\<exists>s'. handleChangePassword wit_env wit_change wit_server = (([], Redirect ''/stats''), s')"
    by (simp add: handleChangePassword_def c p v f Let_def)
  then obtain s' where ok: "handleChangePassword wit_env wit_change wit_server = (([], Redirect ''/stats''), s')" by blast
  have "live_session wit_env wit_server ''t1'' ''u1''" by (simp add: live_session_def m wit_session_def wit_env_def)
  with handleChangePassword_ends_sessions [OF wf law c ok] ok v(2) show ?thesis by auto
qed

section \<open>What the handlers cannot do\<close>

text \<open>The routes for one's own account and for the second factor are installed behind \<open>withAuth\<close>, which never puts the
  user into the context: every request is refused, whoever sends it.\<close>

lemma user_routes_refused:
  assumes "req_Context r = background" and "withAuth e r s = (Inr ctx, s')"
  shows "handleUserMe e time_text body (r\<lparr>req_Context := ctx\<rparr>) s' = json_error 401 ''authentication required'' s'"
    and "handleAdminUserTOTP e (r\<lparr>req_Context := ctx\<rparr>) uid s' = json_error 403 ''admin access required'' s'"
  using withAuth_context(1) [OF assms(2)]
  by (simp_all add: handleUserMe_def handleAdminUserTOTP_def assms(1) background_def GetUserFromContext_def)

text \<open>A user who must change the password is refused by the API login, but the web login gives a session that every other
  route accepts.\<close>

lemma finish_web_login_ok:
  assumes "e_random e 0 = Inr b" "b \<noteq> ''''"
  shows "\<exists>ck path. fst (finish_web_login e r n user s) = ([ck], Redirect path) \<and> ck_Value ck = hex_EncodeToString b"
    and "logged_in e (hex_EncodeToString b) user s (snd (finish_web_login e r n user s))"
proof -
  from new_session_ok [OF assms, of r "user_ID user" s] obtain ses s1 where
    n: "new_session e r (user_ID user) s = (Inr ses, s1)" "session_ID ses = hex_EncodeToString b"
      "session_UserID ses = user_ID user" "session_ExpiresAt ses = e_now e + session_duration"
      "sessions (memory s1) = (sessions (memory s))(hex_EncodeToString b \<mapsto> ses)"
      "users (memory s1) = users (memory s)" "usersByName (memory s1) = usersByName (memory s)"
    by blast
  show "\<exists>ck path. fst (finish_web_login e r n user s) = ([ck], Redirect path) \<and> ck_Value ck = hex_EncodeToString b"
    by (simp add: finish_web_login_def n session_cookie_def Let_def)
  show "logged_in e (hex_EncodeToString b) user s (snd (finish_web_login e r n user s))"
    using n by (auto simp: finish_web_login_def logged_in_def Let_def)
qed

lemma must_change_not_enforced:
  assumes "e_random e 0 = Inr b" "b \<noteq> ''''" and "req_Method r = ''POST''"
    and "usersByName (memory s) (req_FormValue r ''username'') = Some user" and "users (memory s) (user_ID user) = Some user"
    and "verifyPassword e (user_PasswordHash user) (req_FormValue r ''password'')" and "\<not> user_TOTPEnabled user"
    and "user_MustChangePassword user" and "user_Role user = ''admin''"
    and r': "req_Header r' = (\<lambda>_. '''')" "req_Cookie r' ''session'' = Some (hex_EncodeToString b)" "req_Context r' = background"
  shows "access ScopeAdmin e r' (snd (handleLogin e r s)) = None"
proof -
  have "handleLogin e r s = finish_web_login e r (req_FormValue r ''username'') user s"
    using assms by (simp add: handleLogin_def User_GetByUsername_def GetUserByUsername_def not_found_or_def)
  then have l: "logged_in e (hex_EncodeToString b) user s (snd (handleLogin e r s))"
    using finish_web_login_ok(2) [OF assms(1,2)] by simp
  have "acts_as e r' (snd (handleLogin e r s)) (user_ID user) None"
    by (rule acts_asI(3) [OF _ r'(2) logged_in_live [OF l]])
      (simp_all add: r'(1) HasPrefix_def assms(2) session_duration_def)
  from access_acts_as [OF this r'(3), of ScopeAdmin] l assms(5,9) show ?thesis
    by (simp add: logged_in_def RoleLevel_def)
qed

text \<open>After the set-up there is an administrator with the name and the password that were given, and the set-up is over.\<close>

lemma new_session_names [simp]: "usersByName (memory (snd (new_session e r u s))) = usersByName (memory s)"
  by (simp add: new_session_def Session_Create_def CreateSession_def Let_def split: sum.split)

lemma memory_setup [simp]: "memory (s\<lparr>ms_requiresSetup := b\<rparr>) = memory s"
  by simp

lemma handleSetup_done:
  assumes "bcrypt_lawful (e_bcrypt e) (e_matches e)" and "ms_requiresSetup s" and "\<not> ms_requiresSetup (snd (handleSetup e r s))"
  shows "\<exists>user. User_VerifyPassword (e_matches e) (TrimSpace (req_FormValue r ''username'')) (req_FormValue r ''password'')
      (memory (snd (handleSetup e r s))) = Inr user \<and> user_Role user = ''admin''"
proof -
  let ?n = "TrimSpace (req_FormValue r ''username'')" and ?p = "req_FormValue r ''password''"
  let ?f = "User_Create (e_unicode e) (e_bcrypt e) ?n ?p (TrimSpace (req_FormValue r ''email'')) ''admin'' [] (e_now e) (e_xid e 0)"
  obtain x s1 where f: "on_memory ?f s = (x, s1)" by (metis prod.collapse)
  have rs: "ms_requiresSetup s1" using on_store_simps(3) [of "on_base ?f" s] f assms(2) by simp
  from assms(2,3) f rs obtain user where x: "x = Inr user"
    by (cases x) (auto simp: handleSetup_def Let_def split: if_splits)
  obtain y s4 where n: "new_session e r (user_ID user)
      ((logAudit e (e_xid e 1) r ''setup'' ''user''
         (''Initial admin user '' @ [CHR 0x27] @ ?n @ [CHR 0x27] @ '' created via setup wizard'') ''success'' s1)
       \<lparr>ms_requiresSetup := False\<rparr>) = (y, s4)" by (metis prod.collapse)
  from assms(2,3) f x n have s4: "snd (handleSetup e r s) = s4"
    by (cases y) (auto simp: handleSetup_def Let_def split: if_splits)
  have u: "usersByName (memory (snd (handleSetup e r s))) = usersByName (memory s1)"
    unfolding s4 using arg_cong [OF n, of "\<lambda>p. usersByName (memory (snd p))"] by simp
  have "?f (memory s) = (Inr user, memory s1)" using f on_store_simps(1,2) [of "on_base ?f" s] x by (simp add: prod_eq_iff)
  from User_Create_login [OF assms(1) this] have
    "User_VerifyPassword (e_matches e) ?n ?p (memory s1) = Inr user" "user_Role user = ''admin''" by simp_all
  then show ?thesis using User_VerifyPassword_cong [of "memory (snd (handleSetup e r s))" ?n "memory s1"] u by simp
qed

end
