(* ===== verification/Mem_Provision.thy ===== *)
theory Mem_Provision
  imports Mem_Security Loop_Sort Mem_Deployments
begin

text \<open>
  \<open>internal/storage/memory_misc.go\<close>: the host keys, jump servers, provisioning jobs with their logs and the health
  checks of the in-memory store, with \<open>CleanupOldProvisionJobs\<close> of \<open>memory_cleanup.go\<close>. The tables extend the
  record of the store; a table whose objects are changed in place is a pointer table. \<open>ks\<close> is the order in which
  a loop over a map meets its keys.
\<close>

section \<open>Models\<close>

record SSHHostKey =
  hk_ID :: string
  hk_Hostname :: string
  hk_Port :: int
  hk_KeyType :: string
  hk_PublicKey :: string
  hk_Fingerprint :: string
  hk_Trusted :: bool
  hk_AddedBy :: string
  hk_VerifiedAt :: "time option"
  hk_CreatedAt :: time
  hk_UpdatedAt :: time

record SSHJumpServer =
  js_ID :: string
  js_Name :: string
  js_Host :: string
  js_Port :: int
  js_Username :: string
  js_SSHKeyID :: "string option"
  js_CreatedAt :: time

type_synonym ProvisionStatus = string

definition ProvisionStatus_IsTerminal :: "ProvisionStatus \<Rightarrow> bool" where
  "ProvisionStatus_IsTerminal s \<longleftrightarrow> s = ''completed'' \<or> s = ''failed'' \<or> s = ''cancelled''"

record ProvisionJob =
  pj_ID :: string
  pj_TargetHost :: string
  pj_TargetPort :: int
  pj_TargetUser :: string
  pj_SSHKeyID :: "string option"
  pj_AgentBinaryID :: "string option"
  pj_Status :: ProvisionStatus
  pj_Stage :: string
  pj_Progress :: int
  pj_ErrorMessage :: string
  pj_RollbackData :: string
  pj_StartedAt :: time
  pj_CompletedAt :: "time option"

record ProvisionLog =
  pl_ID :: string
  pl_JobID :: string
  pl_Timestamp :: time
  pl_Level :: string
  pl_Message :: string

record HealthCheckConfig =
  hc_ID :: string
  hc_ProjectID :: "string option"
  hc_Name :: string
  hc_URL :: string
  hc_Method :: string
  hc_ExpectedStatus :: int
  hc_TimeoutSeconds :: int
  hc_Retries :: int
  hc_RetryDelaySeconds :: int
  hc_Headers :: string
  hc_Body :: string
  hc_BodyContains :: string
  hc_Enabled :: bool
  hc_IsGlobal :: bool
  hc_CreatedAt :: time
  hc_UpdatedAt :: time

record ProvisionStore = MemoryStore +
  sshHostKeys :: "SSHHostKey ptr_table"
  jumpServers :: "SSHJumpServer ptr_table"
  provisionJobs :: "ProvisionJob ptr_table"
  provisionLogs :: "string \<rightharpoonup> ProvisionLog list"
  healthCheckConfigs :: "HealthCheckConfig ptr_table"
  provisionWrites :: "WriteOp list"

definition NewProvisionStore :: ProvisionStore where
  "NewProvisionStore = MemoryStore.extend NewMemoryStore
     \<lparr>sshHostKeys = empty_table, jumpServers = empty_table, provisionJobs = empty_table, provisionLogs = Map.empty,
      healthCheckConfigs = empty_table, provisionWrites = []\<rparr>"

definition queue_provision :: "WriteOp \<Rightarrow> ProvisionStore \<Rightarrow> ProvisionStore" where
  "queue_provision op s = s\<lparr>provisionWrites := queueWrite (provisionWrites s) op\<rparr>"

section \<open>Host keys\<close>

definition same_key :: "string \<Rightarrow> int \<Rightarrow> string \<Rightarrow> SSHHostKey \<Rightarrow> bool" where
  "same_key hostname port keyType k \<longleftrightarrow> hk_Hostname k = hostname \<and> hk_Port k = port \<and> hk_KeyType k = keyType"

definition CreateSSHHostKey ::
  "SSHHostKey \<Rightarrow> time \<Rightarrow> string \<Rightarrow> string list \<Rightarrow> ProvisionStore \<Rightarrow> SSHHostKey result \<times> ProvisionStore" where
  "CreateSSHHostKey key now xid ks s =
     (if list_ex (same_key (hk_Hostname key) (hk_Port key) (hk_KeyType key)) (table_objs ks (sshHostKeys s))
      then (Inl ErrDuplicate, s)
      else
        (let key = (if hk_ID key = '''' then key\<lparr>hk_ID := xid\<rparr> else key);
             key = key\<lparr>hk_CreatedAt := now, hk_UpdatedAt := now\<rparr>;
             s = s\<lparr>sshHostKeys := table_new (hk_ID key) key (sshHostKeys s)\<rparr>
         in (Inr key, queue_provision (obj_op WriteOpInsert ''ssh_host_keys'' ''SSHHostKey'' (sshHostKeys s) (hk_ID key) now) s)))"

definition GetSSHHostKey :: "string \<Rightarrow> int \<Rightarrow> string \<Rightarrow> string list \<Rightarrow> ProvisionStore \<Rightarrow> SSHHostKey result" where
  "GetSSHHostKey hostname port keyType ks s = found (find (same_key hostname port keyType) (table_objs ks (sshHostKeys s)))"

definition GetSSHHostKeysByHost :: "string \<Rightarrow> int \<Rightarrow> string list \<Rightarrow> ProvisionStore \<Rightarrow> SSHHostKey list" where
  "GetSSHHostKeysByHost hostname port ks s =
     filter (\<lambda>k. hk_Hostname k = hostname \<and> hk_Port k = port) (table_objs ks (sshHostKeys s))"

definition ListSSHHostKeys :: "string list \<Rightarrow> ProvisionStore \<Rightarrow> SSHHostKey list" where
  "ListSSHHostKeys ks s = table_objs ks (sshHostKeys s)"

definition UpdateSSHHostKeyTrust ::
  "string \<Rightarrow> bool \<Rightarrow> string \<Rightarrow> time \<Rightarrow> ProvisionStore \<Rightarrow> unit result \<times> ProvisionStore" where
  "UpdateSSHHostKeyTrust i trusted verifiedBy now s =
     (case tlook (sshHostKeys s) i of
        None \<Rightarrow> (Inl ErrNotFound, s)
      | Some key \<Rightarrow>
          (let key = key\<lparr>hk_Trusted := trusted, hk_VerifiedAt := Some now, hk_UpdatedAt := now, hk_AddedBy := verifiedBy\<rparr>
           in (Inr (), queue_provision (obj_op WriteOpUpdate ''ssh_host_keys'' ''SSHHostKey'' (sshHostKeys s) i now)
                 (s\<lparr>sshHostKeys := table_modify i key (sshHostKeys s)\<rparr>))))"

definition drop_host_key :: "time \<Rightarrow> string \<Rightarrow> ProvisionStore \<Rightarrow> ProvisionStore" where
  "drop_host_key now i s =
     queue_provision (NewWriteOp WriteOpDelete ''ssh_host_keys'' (StringData i) now)
       (s\<lparr>sshHostKeys := table_delete i (sshHostKeys s)\<rparr>)"

definition DeleteSSHHostKey :: "string \<Rightarrow> time \<Rightarrow> ProvisionStore \<Rightarrow> unit result \<times> ProvisionStore" where
  "DeleteSSHHostKey i now s =
     (if fst (sshHostKeys s) i = None then (Inl ErrNotFound, s) else (Inr (), drop_host_key now i s))"

definition keys_of_host :: "string \<Rightarrow> int \<Rightarrow> string list \<Rightarrow> ProvisionStore \<Rightarrow> string list" where
  "keys_of_host hostname port ks s =
     filter (\<lambda>i. case tlook (sshHostKeys s) i of None \<Rightarrow> False
                  | Some k \<Rightarrow> hk_Hostname k = hostname \<and> hk_Port k = port) ks"

definition DeleteSSHHostKeysByHost ::
  "string \<Rightarrow> int \<Rightarrow> time \<Rightarrow> string list \<Rightarrow> ProvisionStore \<Rightarrow> int result \<times> ProvisionStore" where
  "DeleteSSHHostKeysByHost hostname port now ks s =
     (let ids = keys_of_host hostname port ks s in (Inr (int (length ids)), fold (drop_host_key now) ids s))"

section \<open>Jump servers\<close>

definition CreateJumpServer ::
  "SSHJumpServer \<Rightarrow> time \<Rightarrow> string \<Rightarrow> string list \<Rightarrow> ProvisionStore \<Rightarrow> SSHJumpServer result \<times> ProvisionStore" where
  "CreateJumpServer js now xid ks s =
     (if list_ex (\<lambda>j. js_Name j = js_Name js) (table_objs ks (jumpServers s)) then (Inl ErrDuplicate, s)
      else
        (let js = (if js_ID js = '''' then js\<lparr>js_ID := xid\<rparr> else js);
             js = js\<lparr>js_CreatedAt := now\<rparr>;
             s = s\<lparr>jumpServers := table_new (js_ID js) js (jumpServers s)\<rparr>
         in (Inr js, queue_provision (obj_op WriteOpInsert ''ssh_jump_servers'' ''SSHJumpServer'' (jumpServers s) (js_ID js) now) s)))"

definition GetJumpServer :: "string \<Rightarrow> ProvisionStore \<Rightarrow> SSHJumpServer result" where
  "GetJumpServer i s = found (tlook (jumpServers s) i)"

definition GetJumpServerByName :: "string \<Rightarrow> string list \<Rightarrow> ProvisionStore \<Rightarrow> SSHJumpServer result" where
  "GetJumpServerByName name ks s = found (find (\<lambda>j. js_Name j = name) (table_objs ks (jumpServers s)))"

definition ListJumpServers :: "string list \<Rightarrow> ProvisionStore \<Rightarrow> SSHJumpServer list" where
  "ListJumpServers ks s = table_objs ks (jumpServers s)"

definition UpdateJumpServer :: "SSHJumpServer \<Rightarrow> time \<Rightarrow> ProvisionStore \<Rightarrow> unit result \<times> ProvisionStore" where
  "UpdateJumpServer js now s =
     (case tlook (jumpServers s) (js_ID js) of
        None \<Rightarrow> (Inl ErrNotFound, s)
      | Some existing \<Rightarrow>
          (Inr (), queue_provision (obj_op WriteOpUpdate ''ssh_jump_servers'' ''SSHJumpServer'' (jumpServers s) (js_ID js) now)
             (s\<lparr>jumpServers := table_modify (js_ID js)
                 (existing\<lparr>js_Name := js_Name js, js_Host := js_Host js, js_Port := js_Port js,
                    js_Username := js_Username js, js_SSHKeyID := js_SSHKeyID js\<rparr>) (jumpServers s)\<rparr>)))"

definition DeleteJumpServer :: "string \<Rightarrow> time \<Rightarrow> ProvisionStore \<Rightarrow> unit result \<times> ProvisionStore" where
  "DeleteJumpServer i now s =
     (if fst (jumpServers s) i = None then (Inl ErrNotFound, s)
      else (Inr (), queue_provision (NewWriteOp WriteOpDelete ''ssh_jump_servers'' (StringData i) now)
              (s\<lparr>jumpServers := table_delete i (jumpServers s)\<rparr>)))"

section \<open>Provisioning jobs and their logs\<close>

definition CreateProvisionJob :: "ProvisionJob \<Rightarrow> time \<Rightarrow> ProvisionStore \<Rightarrow> ProvisionJob result \<times> ProvisionStore" where
  "CreateProvisionJob job now s =
     (if fst (provisionJobs s) (pj_ID job) \<noteq> None then (Inl ErrDuplicate, s)
      else
        (let job = (if IsZero (pj_StartedAt job) then job\<lparr>pj_StartedAt := now\<rparr> else job);
             job = (if pj_Status job = '''' then job\<lparr>pj_Status := ''pending''\<rparr> else job);
             s = s\<lparr>provisionJobs := table_new (pj_ID job) job (provisionJobs s)\<rparr>
         in (Inr job, queue_provision (obj_op WriteOpInsert ''provision_jobs'' ''ProvisionJob'' (provisionJobs s) (pj_ID job) now) s)))"

definition GetProvisionJob :: "string \<Rightarrow> ProvisionStore \<Rightarrow> ProvisionJob result" where
  "GetProvisionJob i s = found (tlook (provisionJobs s) i)"

definition UpdateProvisionJobStatus ::
  "string \<Rightarrow> string \<Rightarrow> string \<Rightarrow> string \<Rightarrow> int \<Rightarrow> time \<Rightarrow> ProvisionStore \<Rightarrow> unit result \<times> ProvisionStore" where
  "UpdateProvisionJobStatus i status stage errorMessage progress now s =
     (case tlook (provisionJobs s) i of
        None \<Rightarrow> (Inl ErrNotFound, s)
      | Some job \<Rightarrow>
          (let job = job\<lparr>pj_Status := status, pj_Stage := stage, pj_ErrorMessage := errorMessage, pj_Progress := progress\<rparr>;
               job = (if ProvisionStatus_IsTerminal status then job\<lparr>pj_CompletedAt := Some now\<rparr> else job)
           in (Inr (), queue_provision (obj_op WriteOpUpdate ''provision_jobs'' ''ProvisionJob'' (provisionJobs s) i now)
                 (s\<lparr>provisionJobs := table_modify i job (provisionJobs s)\<rparr>))))"

definition ListPendingProvisionJobs :: "string list \<Rightarrow> ProvisionStore \<Rightarrow> ProvisionJob list" where
  "ListPendingProvisionJobs ks s =
     filter (\<lambda>job. pj_Status job = ''pending'' \<or> pj_Status job = ''in_progress'') (table_objs ks (provisionJobs s))"

definition newer_job :: "ProvisionJob \<Rightarrow> ProvisionJob \<Rightarrow> bool" where
  "newer_job x y \<longleftrightarrow> pj_StartedAt x > pj_StartedAt y"

definition ListProvisionJobsByHost ::
  "string \<Rightarrow> int \<Rightarrow> int \<Rightarrow> string list \<Rightarrow> ProvisionStore \<Rightarrow> (ProvisionJob list \<times> int) option" where
  "ListProvisionJobsByHost host limit offset ks s =
     (let all = exchange_sort newer_job (filter (\<lambda>job. pj_TargetHost job = host) (table_objs ks (provisionJobs s)))
      in map_option (\<lambda>page. (page, int (length all))) (page_end all limit offset))"

definition drop_old_job :: "time \<Rightarrow> string \<Rightarrow> ProvisionStore \<Rightarrow> ProvisionStore" where
  "drop_old_job now i s =
     queue_provision (obj_op WriteOpDelete ''provision_jobs'' ''ProvisionJob'' (provisionJobs s) i now)
       (s\<lparr>provisionJobs := table_delete i (provisionJobs s)\<rparr>)"

definition old_jobs :: "time \<Rightarrow> string list \<Rightarrow> ProvisionStore \<Rightarrow> string list" where
  "old_jobs before ks s =
     filter (\<lambda>i. case tlook (provisionJobs s) i of None \<Rightarrow> False | Some job \<Rightarrow> pj_StartedAt job < before) ks"

definition CleanupOldProvisionJobs ::
  "time \<Rightarrow> time \<Rightarrow> string list \<Rightarrow> ProvisionStore \<Rightarrow> int result \<times> ProvisionStore" where
  "CleanupOldProvisionJobs before now ks s =
     (let ids = old_jobs before ks s in (Inr (int (length ids)), fold (drop_old_job now) ids s))"

definition SaveProvisionLog ::
  "string \<Rightarrow> string \<Rightarrow> string \<Rightarrow> time \<Rightarrow> string \<Rightarrow> ProvisionStore \<Rightarrow> unit result \<times> ProvisionStore" where
  "SaveProvisionLog jobID level message now xid s =
     (let log = \<lparr>pl_ID = xid, pl_JobID = jobID, pl_Timestamp = now, pl_Level = level, pl_Message = message\<rparr>;
          logs = (case provisionLogs s jobID of None \<Rightarrow> [] | Some ls \<Rightarrow> ls)
      in (Inr (), s\<lparr>provisionLogs := (provisionLogs s)(jobID \<mapsto> logs @ [log])\<rparr>))"

definition ListProvisionLogs :: "string \<Rightarrow> ProvisionStore \<Rightarrow> ProvisionLog list" where
  "ListProvisionLogs jobID s = (case provisionLogs s jobID of None \<Rightarrow> [] | Some logs \<Rightarrow> logs)"

definition ListProvisionLogsAfter :: "string \<Rightarrow> string \<Rightarrow> ProvisionStore \<Rightarrow> ProvisionLog list" where
  "ListProvisionLogsAfter jobID afterID s =
     (case provisionLogs s jobID of None \<Rightarrow> [] | Some logs \<Rightarrow> filter (\<lambda>log. str_less afterID (pl_ID log)) logs)"

section \<open>Health checks\<close>

definition queue_health :: "WriteOp \<Rightarrow> ProvisionStore \<Rightarrow> ProvisionStore" where
  "queue_health op s = s\<lparr>coreWrites := queueWrite (coreWrites s) op\<rparr>"

definition CreateHealthCheckConfig ::
  "HealthCheckConfig \<Rightarrow> time \<Rightarrow> string \<Rightarrow> ProvisionStore \<Rightarrow> HealthCheckConfig result \<times> ProvisionStore" where
  "CreateHealthCheckConfig config now xid s =
     (let config = (if hc_ID config = '''' then config\<lparr>hc_ID := xid\<rparr> else config);
          config = config\<lparr>hc_CreatedAt := now, hc_UpdatedAt := now\<rparr>;
          s = s\<lparr>healthCheckConfigs := table_new (hc_ID config) config (healthCheckConfigs s)\<rparr>
      in (Inr config, queue_health
            (obj_op WriteOpInsert ''health_check_configs'' ''HealthCheckConfig'' (healthCheckConfigs s) (hc_ID config) now) s))"

definition GetHealthCheckConfig :: "string \<Rightarrow> ProvisionStore \<Rightarrow> HealthCheckConfig result" where
  "GetHealthCheckConfig i s = found (tlook (healthCheckConfigs s) i)"

definition GetGlobalHealthCheckConfig :: "string list \<Rightarrow> ProvisionStore \<Rightarrow> HealthCheckConfig result" where
  "GetGlobalHealthCheckConfig ks s = found (find hc_IsGlobal (table_objs ks (healthCheckConfigs s)))"

definition GetHealthCheckConfigForProject :: "string \<Rightarrow> string list \<Rightarrow> ProvisionStore \<Rightarrow> HealthCheckConfig result" where
  "GetHealthCheckConfigForProject projectID ks s =
     found (find (\<lambda>config. hc_ProjectID config = Some projectID) (table_objs ks (healthCheckConfigs s)))"

definition UpdateHealthCheckConfig :: "HealthCheckConfig \<Rightarrow> time \<Rightarrow> ProvisionStore \<Rightarrow> unit result \<times> ProvisionStore" where
  "UpdateHealthCheckConfig config now s =
     (case tlook (healthCheckConfigs s) (hc_ID config) of
        None \<Rightarrow> (Inl ErrNotFound, s)
      | Some existing \<Rightarrow>
          (Inr (), queue_health
             (obj_op WriteOpUpdate ''health_check_configs'' ''HealthCheckConfig'' (healthCheckConfigs s) (hc_ID config) now)
             (s\<lparr>healthCheckConfigs := table_modify (hc_ID config)
                 (config\<lparr>hc_ID := hc_ID existing, hc_ProjectID := hc_ProjectID existing, hc_IsGlobal := hc_IsGlobal existing,
                    hc_CreatedAt := hc_CreatedAt existing, hc_UpdatedAt := now\<rparr>) (healthCheckConfigs s)\<rparr>)))"

definition ListHealthCheckConfigs :: "string list \<Rightarrow> ProvisionStore \<Rightarrow> HealthCheckConfig list" where
  "ListHealthCheckConfigs ks s = table_objs ks (healthCheckConfigs s)"

definition DeleteHealthCheckConfig :: "string \<Rightarrow> time \<Rightarrow> ProvisionStore \<Rightarrow> unit result \<times> ProvisionStore" where
  "DeleteHealthCheckConfig i now s =
     (if fst (healthCheckConfigs s) i = None then (Inl ErrNotFound, s)
      else (Inr (), queue_health (NewWriteOp WriteOpDelete ''health_check_configs'' (StringData i) now)
              (s\<lparr>healthCheckConfigs := table_delete i (healthCheckConfigs s)\<rparr>)))"

section \<open>Settings\<close>

definition HasSettings :: "MemoryStore \<Rightarrow> bool" where
  "HasSettings s \<longleftrightarrow> dom (settings s) \<noteq> {}"

section \<open>Well-formed tables\<close>

text \<open>Every object is under its identifier and is the only one with its pointer, and no two host keys are for the same
  host, port and type.\<close>

definition key_triple :: "SSHHostKey \<Rightarrow> string \<times> int \<times> string" where
  "key_triple k = (hk_Hostname k, hk_Port k, hk_KeyType k)"

definition inj_table :: "('v \<Rightarrow> 'k) \<Rightarrow> 'v ptr_table \<Rightarrow> bool" where
  "inj_table f t \<longleftrightarrow> (\<forall>i j x y. tlook t i = Some x \<longrightarrow> tlook t j = Some y \<longrightarrow> f x = f y \<longrightarrow> i = j)"

definition provision_wf :: "ProvisionStore \<Rightarrow> bool" where
  "provision_wf s \<longleftrightarrow>
     table_ok (sshHostKeys s) \<and> keyed_by hk_ID (tlook (sshHostKeys s)) \<and> inj_table key_triple (sshHostKeys s) \<and>
     table_ok (jumpServers s) \<and> keyed_by js_ID (tlook (jumpServers s)) \<and>
     table_ok (provisionJobs s) \<and> keyed_by pj_ID (tlook (provisionJobs s)) \<and>
     table_ok (healthCheckConfigs s) \<and> keyed_by hc_ID (tlook (healthCheckConfigs s))"

lemma queue_simps [simp]:
  "sshHostKeys (queue_provision op s) = sshHostKeys s" "jumpServers (queue_provision op s) = jumpServers s"
  "provisionJobs (queue_provision op s) = provisionJobs s" "healthCheckConfigs (queue_provision op s) = healthCheckConfigs s"
  "provisionLogs (queue_provision op s) = provisionLogs s"
  "sshHostKeys (queue_health op s) = sshHostKeys s" "jumpServers (queue_health op s) = jumpServers s"
  "provisionJobs (queue_health op s) = provisionJobs s" "healthCheckConfigs (queue_health op s) = healthCheckConfigs s"
  by (simp_all add: queue_provision_def queue_health_def)

lemma same_key_triple: "same_key h p t k \<longleftrightarrow> key_triple k = (h, p, t)"
  by (auto simp: same_key_def key_triple_def)

lemma inj_table_empty [simp]: "inj_table f empty_table"
  by (simp add: inj_table_def)

lemma inj_table_new:
  "table_ok t \<Longrightarrow> inj_table f t \<Longrightarrow> (\<And>j y. tlook t j = Some y \<Longrightarrow> f y \<noteq> f x) \<Longrightarrow> inj_table f (table_new k x t)"
  unfolding inj_table_def by (simp add: tlook_new) metis

lemma inj_table_modify:
  "table_ok t \<Longrightarrow> inj_table f t \<Longrightarrow> tlook t k = Some x \<Longrightarrow> f y = f x \<Longrightarrow> inj_table f (table_modify k y t)"
  unfolding inj_table_def by (simp add: tlook_modify) metis

lemma inj_table_delete: "table_ok t \<Longrightarrow> inj_table f t \<Longrightarrow> inj_table f (table_delete k t)"
  by (auto simp: inj_table_def tlook_delete split: if_splits)

lemma find_table:
  assumes "table_ok t" and "enumerates ks (fst t)"
  shows "find P (table_objs ks t) = None \<longleftrightarrow> (\<forall>i x. tlook t i = Some x \<longrightarrow> \<not> P x)"
    and "find P (table_objs ks t) = Some x \<Longrightarrow> P x \<and> (\<exists>i. tlook t i = Some x)"
proof -
  have r: "x \<in> set (table_objs ks t) \<longleftrightarrow> (\<exists>i. tlook t i = Some x)" for x
    using set_table_objs [OF assms] by (simp add: ran_def)
  show "find P (table_objs ks t) = None \<longleftrightarrow> (\<forall>i x. tlook t i = Some x \<longrightarrow> \<not> P x)"
    unfolding find_None_iff using r by metis
  show "find P (table_objs ks t) = Some x \<Longrightarrow> P x \<and> (\<exists>i. tlook t i = Some x)"
    unfolding find_Some_iff using r nth_mem by metis
qed

lemma find_table_inj:
  assumes "table_ok t" and "enumerates ks (fst t)" and "inj_table f t"
  shows "find (\<lambda>x. f x = c) (table_objs ks t) = Some x \<longleftrightarrow> (\<exists>i. tlook t i = Some x) \<and> f x = c"
proof
  assume "find (\<lambda>x. f x = c) (table_objs ks t) = Some x"
  from find_table(2) [OF assms(1,2) this] show "(\<exists>i. tlook t i = Some x) \<and> f x = c" by blast
next
  assume r: "(\<exists>i. tlook t i = Some x) \<and> f x = c"
  then have "find (\<lambda>x. f x = c) (table_objs ks t) \<noteq> None" unfolding find_table(1) [OF assms(1,2)] by blast
  then obtain y where y: "find (\<lambda>x. f x = c) (table_objs ks t) = Some y" by blast
  with find_table(2) [OF assms(1,2) y] r assms(3) have "y = x" unfolding inj_table_def by (metis option.inject)
  with y show "find (\<lambda>x. f x = c) (table_objs ks t) = Some x" by simp
qed

text \<open>What a client gets: the key with the host, port and type, whatever the order of the map.\<close>

lemma GetSSHHostKey_iff:
  assumes "provision_wf s" and "enumerates ks (fst (sshHostKeys s))"
  shows "GetSSHHostKey h p t ks s = Inr k \<longleftrightarrow> (\<exists>i. tlook (sshHostKeys s) i = Some k) \<and> same_key h p t k"
    and "GetSSHHostKey h p t ks s = Inl e \<longleftrightarrow> e = ErrNotFound \<and> (\<forall>i k. tlook (sshHostKeys s) i = Some k \<longrightarrow> \<not> same_key h p t k)"
proof -
  have a: "table_ok (sshHostKeys s)" "inj_table key_triple (sshHostKeys s)" using assms(1) by (simp_all add: provision_wf_def)
  have eq: "same_key h p t = (\<lambda>k. key_triple k = (h, p, t))" by (simp add: same_key_triple fun_eq_iff)
  show "GetSSHHostKey h p t ks s = Inr k \<longleftrightarrow> (\<exists>i. tlook (sshHostKeys s) i = Some k) \<and> same_key h p t k"
    using find_table_inj [OF a(1) assms(2) a(2), of "(h, p, t)" k]
    by (auto simp: GetSSHHostKey_def found_def eq split: option.splits)
  show "GetSSHHostKey h p t ks s = Inl e \<longleftrightarrow> e = ErrNotFound \<and> (\<forall>i k. tlook (sshHostKeys s) i = Some k \<longrightarrow> \<not> same_key h p t k)"
    using find_table(1) [OF a(1) assms(2), of "same_key h p t"]
    by (auto simp: GetSSHHostKey_def found_def split: option.splits)
qed

section \<open>Every operation keeps the tables well-formed\<close>

inductive provision_step :: "ProvisionStore \<Rightarrow> ProvisionStore \<Rightarrow> bool" where
  CreateSSHHostKey: "enumerates ks (fst (sshHostKeys s)) \<Longrightarrow> provision_step s (snd (CreateSSHHostKey key now xid ks s))"
| UpdateSSHHostKeyTrust: "provision_step s (snd (UpdateSSHHostKeyTrust i b who now s))"
| DeleteSSHHostKey: "provision_step s (snd (DeleteSSHHostKey i now s))"
| DeleteSSHHostKeysByHost: "enumerates ks (fst (sshHostKeys s)) \<Longrightarrow> provision_step s (snd (DeleteSSHHostKeysByHost h p now ks s))"
| CreateJumpServer: "enumerates ks (fst (jumpServers s)) \<Longrightarrow> provision_step s (snd (CreateJumpServer js now xid ks s))"
| UpdateJumpServer: "provision_step s (snd (UpdateJumpServer js now s))"
| DeleteJumpServer: "provision_step s (snd (DeleteJumpServer i now s))"
| CreateProvisionJob: "provision_step s (snd (CreateProvisionJob job now s))"
| UpdateProvisionJobStatus: "provision_step s (snd (UpdateProvisionJobStatus i st sg em pr now s))"
| CleanupOldProvisionJobs: "enumerates ks (fst (provisionJobs s)) \<Longrightarrow> provision_step s (snd (CleanupOldProvisionJobs before now ks s))"
| SaveProvisionLog: "provision_step s (snd (SaveProvisionLog j l m now xid s))"
| CreateHealthCheckConfig: "provision_step s (snd (CreateHealthCheckConfig c now xid s))"
| UpdateHealthCheckConfig: "provision_step s (snd (UpdateHealthCheckConfig c now s))"
| DeleteHealthCheckConfig: "provision_step s (snd (DeleteHealthCheckConfig i now s))"

lemma drop_host_key_wf: "provision_wf s \<Longrightarrow> provision_wf (drop_host_key now i s)"
  by (simp add: provision_wf_def drop_host_key_def table_intros inj_table_delete)

lemma drop_old_job_wf: "provision_wf s \<Longrightarrow> provision_wf (drop_old_job now i s)"
  by (simp add: provision_wf_def drop_old_job_def table_intros)

lemma fold_wf: "(\<And>i s. provision_wf s \<Longrightarrow> provision_wf (f i s)) \<Longrightarrow> provision_wf s \<Longrightarrow> provision_wf (fold f is s)"
  by (induction "is" arbitrary: s) auto

lemma CreateSSHHostKey_wf:
  assumes wf: "provision_wf s" and e: "enumerates ks (fst (sshHostKeys s))"
  shows "provision_wf (snd (CreateSSHHostKey key now xid ks s))"
proof (cases "list_ex (same_key (hk_Hostname key) (hk_Port key) (hk_KeyType key)) (table_objs ks (sshHostKeys s))")
  case False
  have t: "table_ok (sshHostKeys s)" using wf by (simp add: provision_wf_def)
  have "key_triple y \<noteq> key_triple key" if "tlook (sshHostKeys s) j = Some y" for j y
  proof -
    have "y \<in> set (table_objs ks (sshHostKeys s))" using set_table_objs [OF t e] that by (auto intro: ranI)
    with False show ?thesis by (auto simp: list_ex_iff same_key_triple key_triple_def)
  qed
  then have "inj_table key_triple (table_new i (key\<lparr>hk_ID := i, hk_CreatedAt := now, hk_UpdatedAt := now\<rparr>) (sshHostKeys s))" for i
    using wf by (intro inj_table_new) (auto simp: provision_wf_def key_triple_def)
  from this [of "if hk_ID key = '''' then xid else hk_ID key"] show ?thesis
    using False wf by (auto simp: CreateSSHHostKey_def provision_wf_def table_intros Let_def)
qed (simp add: CreateSSHHostKey_def wf)

lemma provision_step_wf: "provision_step s s' \<Longrightarrow> provision_wf s \<Longrightarrow> provision_wf s'"
proof (induction rule: provision_step.induct)
  case (CreateSSHHostKey ks s key now xid)
  then show ?case by (simp add: CreateSSHHostKey_wf)
next
  case (UpdateSSHHostKeyTrust s i b who now)
  then show ?case
    by (auto simp: UpdateSSHHostKeyTrust_def provision_wf_def key_triple_def Let_def split: option.splits
        intro: table_ok_modify keyed_modify inj_table_modify)
next
  case (DeleteSSHHostKeysByHost ks s h p now)
  then show ?case by (simp add: DeleteSSHHostKeysByHost_def Let_def fold_wf drop_host_key_wf)
next
  case (CleanupOldProvisionJobs ks s before now)
  then show ?case by (simp add: CleanupOldProvisionJobs_def Let_def fold_wf drop_old_job_wf)
next
  case (DeleteSSHHostKey s i now)
  then show ?case by (simp add: DeleteSSHHostKey_def drop_host_key_wf)
next
  case (CreateJumpServer ks s js now xid)
  then show ?case by (simp add: CreateJumpServer_def provision_wf_def table_intros Let_def)
next
  case (UpdateJumpServer s js now)
  then show ?case
    by (auto simp: UpdateJumpServer_def provision_wf_def split: option.splits intro: table_ok_modify keyed_modify)
next
  case (DeleteJumpServer s i now)
  then show ?case by (simp add: DeleteJumpServer_def provision_wf_def table_intros)
next
  case (CreateProvisionJob s job now)
  then show ?case by (simp add: CreateProvisionJob_def provision_wf_def table_intros Let_def)
next
  case (UpdateProvisionJobStatus s i st sg em pr now)
  then show ?case
    by (auto simp: UpdateProvisionJobStatus_def provision_wf_def Let_def split: option.splits intro: table_ok_modify keyed_modify)
next
  case (SaveProvisionLog s j l m now xid)
  then show ?case by (simp add: SaveProvisionLog_def provision_wf_def Let_def)
next
  case (CreateHealthCheckConfig s c now xid)
  then show ?case by (simp add: CreateHealthCheckConfig_def provision_wf_def table_intros Let_def)
next
  case (UpdateHealthCheckConfig s c now)
  then show ?case
    by (auto simp: UpdateHealthCheckConfig_def provision_wf_def split: option.splits intro: table_ok_modify keyed_modify)
next
  case (DeleteHealthCheckConfig s i now)
  then show ?case by (simp add: DeleteHealthCheckConfig_def provision_wf_def table_intros)
qed

abbreviation provision_steps :: "ProvisionStore \<Rightarrow> ProvisionStore \<Rightarrow> bool" where
  "provision_steps \<equiv> provision_step\<^sup>*\<^sup>*"

lemma provision_reachable: "provision_steps NewProvisionStore s \<Longrightarrow> provision_wf s"
proof (induction rule: rtranclp_induct)
  case base
  show ?case by (simp add: provision_wf_def NewProvisionStore_def MemoryStore.defs)
qed (rule provision_step_wf)

end
