(* ===== verification/Provision_Services.thy ===== *)
theory Provision_Services
  imports Mem_Provision Account_Services Write_Ops
begin

text \<open>
  The services over the provisioning tables: host keys (\<open>internal/services/hostkeys\<close>) and provisioning jobs
  (\<open>internal/services/provision\<close>), and the worker that runs the jobs (\<open>internal/provision/worker.go\<close>). What
  \<open>SSHProvision\<close> does on the remote machine is an argument: its error, or none.
\<close>

section \<open>Host keys\<close>

definition HostKey_Create ::
  "SSHHostKey \<Rightarrow> time \<Rightarrow> string \<Rightarrow> string list \<Rightarrow> ProvisionStore \<Rightarrow> SSHHostKey service_result \<times> ProvisionStore" where
  "HostKey_Create key now xid ks s =
     (let key = (if IsZero (hk_CreatedAt key) then key\<lparr>hk_CreatedAt := now\<rparr> else key)
      in apfst (wrap ''creating SSH host key'') (CreateSSHHostKey key now xid ks s))"

definition HostKey_Get :: "string \<Rightarrow> int \<Rightarrow> string \<Rightarrow> string list \<Rightarrow> ProvisionStore \<Rightarrow> SSHHostKey service_result" where
  "HostKey_Get hostname port keyType ks s = unwrapped (GetSSHHostKey hostname port keyType ks s)"

definition HostKey_GetByHost :: "string \<Rightarrow> int \<Rightarrow> string list \<Rightarrow> ProvisionStore \<Rightarrow> SSHHostKey list" where
  "HostKey_GetByHost hostname port ks s = GetSSHHostKeysByHost hostname port ks s"

definition HostKey_List :: "string list \<Rightarrow> ProvisionStore \<Rightarrow> SSHHostKey list" where
  "HostKey_List ks s = ListSSHHostKeys ks s"

definition HostKey_UpdateTrust ::
  "string \<Rightarrow> bool \<Rightarrow> string \<Rightarrow> time \<Rightarrow> ProvisionStore \<Rightarrow> unit service_result \<times> ProvisionStore" where
  "HostKey_UpdateTrust i trusted verifiedBy now s =
     apfst (wrap ''updating host key trust'') (UpdateSSHHostKeyTrust i trusted verifiedBy now s)"

definition HostKey_Delete :: "string \<Rightarrow> time \<Rightarrow> ProvisionStore \<Rightarrow> unit service_result \<times> ProvisionStore" where
  "HostKey_Delete i now s = apfst (wrap ''deleting host key'') (DeleteSSHHostKey i now s)"

definition HostKey_DeleteByHost ::
  "string \<Rightarrow> int \<Rightarrow> time \<Rightarrow> string list \<Rightarrow> ProvisionStore \<Rightarrow> int service_result \<times> ProvisionStore" where
  "HostKey_DeleteByHost hostname port now ks s =
     apfst (wrap ''deleting host keys'') (DeleteSSHHostKeysByHost hostname port now ks s)"

definition IsTrusted :: "string \<Rightarrow> int \<Rightarrow> string \<Rightarrow> string \<Rightarrow> string list \<Rightarrow> ProvisionStore \<Rightarrow> bool service_result" where
  "IsTrusted hostname port keyType fingerprint ks s =
     (case GetSSHHostKey hostname port keyType ks s of
        Inl e \<Rightarrow> if IsNotFound (StorageError e) then Inr False else Inl (Wrap ''getting host key'' (StorageError e))
      | Inr key \<Rightarrow> Inr (hk_Trusted key \<and> hk_Fingerprint key = fingerprint))"

section \<open>Provisioning jobs\<close>

text \<open>\<open>generateID\<close>: nanoseconds since 1970.\<close>

definition generateID :: "time \<Rightarrow> string" where
  "generateID now = ''prov_'' @ Itoa (now - 62135596800 * 10 ^ 9)"

definition service_failure :: "string \<Rightarrow> store_error \<Rightarrow> service_error" where
  "service_failure op e = ServiceError op (StorageError e) '''' ''''"

definition job_failure :: "string \<Rightarrow> string \<Rightarrow> store_error \<Rightarrow> service_error" where
  "job_failure op i e =
     (if IsNotFound (StorageError e) then ServiceError op (Sentinel ErrNotFound) ''provision_job'' i else service_failure op e)"

definition CreateJob :: "ProvisionJob \<Rightarrow> time \<Rightarrow> ProvisionStore \<Rightarrow> ProvisionJob service_result \<times> ProvisionStore" where
  "CreateJob job now s =
     (if pj_TargetHost job = ''''
      then (Inl (ServiceError ''provision.CreateJob'' (Wrap ''target_host is required'' (Sentinel ErrInvalidInput)) '''' ''''), s)
      else
        (let job = (if pj_ID job = '''' then job\<lparr>pj_ID := generateID now\<rparr> else job);
             job = (if pj_Status job = '''' then job\<lparr>pj_Status := ''pending''\<rparr> else job);
             job = (if pj_TargetPort job = 0 then job\<lparr>pj_TargetPort := 22\<rparr> else job);
             job = job\<lparr>pj_StartedAt := now\<rparr>
         in case CreateProvisionJob job now s of
              (Inl e, s') \<Rightarrow> (Inl (service_failure ''provision.CreateJob'' e), s')
            | (Inr job, s') \<Rightarrow> (Inr job, s')))"

definition GetJob :: "string \<Rightarrow> ProvisionStore \<Rightarrow> ProvisionJob service_result" where
  "GetJob i s =
     (case GetProvisionJob i s of Inl e \<Rightarrow> Inl (job_failure ''provision.GetJob'' i e) | Inr job \<Rightarrow> Inr job)"

definition valid_statuses :: "string list" where
  "valid_statuses = [''pending'', ''running'', ''completed'', ''failed'', ''cancelled'']"

definition UpdateStatus ::
  "string \<Rightarrow> string \<Rightarrow> string \<Rightarrow> string \<Rightarrow> int \<Rightarrow> time \<Rightarrow> ProvisionStore \<Rightarrow> unit service_result \<times> ProvisionStore" where
  "UpdateStatus i status stage errorMessage progress now s =
     (if status \<notin> set valid_statuses
      then (Inl (ServiceError ''provision.UpdateStatus'' (Wrap (''invalid status: '' @ status) (Sentinel ErrInvalidInput)) '''' ''''), s)
      else case UpdateProvisionJobStatus i status stage errorMessage progress now s of
             (Inl e, s') \<Rightarrow> (Inl (job_failure ''provision.UpdateStatus'' i e), s')
           | (Inr _, s') \<Rightarrow> (Inr (), s'))"

definition ListPending :: "string list \<Rightarrow> ProvisionStore \<Rightarrow> ProvisionJob list" where
  "ListPending ks s = ListPendingProvisionJobs ks s"

definition ListByHost :: "string \<Rightarrow> Pagination \<Rightarrow> string list \<Rightarrow> ProvisionStore \<Rightarrow> ProvisionJob ListResult option" where
  "ListByHost host pagination ks s =
     (let p = NewPagination (Limit pagination) (Offset pagination)
      in map_option (\<lambda>(jobs, total). \<lparr>lr_Items = jobs, lr_TotalCount = total, lr_Pagination = p\<rparr>)
           (ListProvisionJobsByHost host (Limit p) (Offset p) ks s))"

definition Provision_Cancel :: "string \<Rightarrow> time \<Rightarrow> ProvisionStore \<Rightarrow> unit service_result \<times> ProvisionStore" where
  "Provision_Cancel i now s =
     (case GetJob i s of
        Inl e \<Rightarrow> (Inl (Wrap ''provision.Cancel: get job'' e), s)
      | Inr job \<Rightarrow>
          if pj_Status job \<noteq> ''pending'' \<and> pj_Status job \<noteq> ''running''
          then (Inl (ServiceError ''provision.Cancel''
                  (Wrap (''cannot cancel job with status '' @ pj_Status job) (Sentinel ErrInvalidInput)) '''' ''''), s)
          else UpdateStatus i ''cancelled'' '''' ''Cancelled by user'' (pj_Progress job) now s)"

definition Provision_Cleanup :: "time \<Rightarrow> time \<Rightarrow> string list \<Rightarrow> ProvisionStore \<Rightarrow> int service_result \<times> ProvisionStore" where
  "Provision_Cleanup before now ks s =
     (case CleanupOldProvisionJobs before now ks s of
        (Inl e, s') \<Rightarrow> (Inl (service_failure ''provision.Cleanup'' e), s')
      | (Inr n, s') \<Rightarrow> (Inr n, s'))"

section \<open>The worker\<close>

record SSHProvisionRequest =
  pr_AgentID :: string
  pr_TargetHost :: string
  pr_TargetPort :: int
  pr_SSHUser :: string
  pr_SSHKeyName :: string
  pr_Labels :: "(string \<times> string) list"
  pr_InstallPath :: string
  pr_ServiceUser :: string
  pr_ServiceGroup :: string
  pr_UseSudo :: bool

text \<open>The worker: its store, the channel of job identifiers, the identifiers the poll has queued, and whether it was
  shut down. The channel holds a hundred identifiers.\<close>

record Worker =
  pw_store :: ProvisionStore
  pw_queue :: "string list"
  pw_pollRunning :: "string set"
  pw_isShutdown :: bool
  pw_workers :: int

definition queue_capacity :: nat where "queue_capacity = 100"

definition NewWorker :: "int \<Rightarrow> ProvisionStore \<Rightarrow> Worker" where
  "NewWorker workers s =
     \<lparr>pw_store = s, pw_queue = [], pw_pollRunning = {}, pw_isShutdown = False,
      pw_workers = (if workers < 1 then 2 else workers)\<rparr>"

definition log_job :: "string \<Rightarrow> string \<Rightarrow> string \<Rightarrow> time \<Rightarrow> string \<Rightarrow> Worker \<Rightarrow> Worker" where
  "log_job jobID level msg now xid w = w\<lparr>pw_store := snd (SaveProvisionLog jobID level msg now xid (pw_store w))\<rparr>"

definition set_status :: "string \<Rightarrow> string \<Rightarrow> string \<Rightarrow> string \<Rightarrow> int \<Rightarrow> time \<Rightarrow> Worker \<Rightarrow> Worker" where
  "set_status jobID status stage errorMessage progress now w =
     w\<lparr>pw_store := snd (UpdateProvisionJobStatus jobID status stage errorMessage progress now (pw_store w))\<rparr>"

text \<open>\<open>Submit\<close>: \<open>done\<close> is the text of the context's error when the last \<open>select\<close> takes that branch; the result \<open>None\<close> is that
  the call waits for room in the channel.\<close>

definition Submit ::
  "SSHProvisionRequest \<Rightarrow> string option \<Rightarrow> time \<Rightarrow> string \<Rightarrow> string \<Rightarrow> Worker \<Rightarrow> string service_result option \<times> Worker" where
  "Submit req done now jobID logID w =
     (if pw_isShutdown w then (Some (Inl (TextError ''worker is shutdown'')), w)
      else
        (case CreateProvisionJob
                \<lparr>pj_ID = jobID, pj_TargetHost = pr_TargetHost req, pj_TargetPort = pr_TargetPort req,
                 pj_TargetUser = pr_SSHUser req, pj_SSHKeyID = None, pj_AgentBinaryID = None, pj_Status = ''pending'',
                 pj_Stage = ''queued'', pj_Progress = 0, pj_ErrorMessage = '''', pj_RollbackData = '''',
                 pj_StartedAt = now, pj_CompletedAt = None\<rparr> now (pw_store w) of
           (Inl e, s) \<Rightarrow> (Some (Inl (Wrap ''save job'' (StorageError e))), w\<lparr>pw_store := s\<rparr>)
         | (Inr _, s) \<Rightarrow>
             (let w = log_job jobID ''info''
                        (''Job queued for provisioning '' @ pr_SSHUser req @ ''@'' @ pr_TargetHost req) now logID (w\<lparr>pw_store := s\<rparr>)
              in case done of
                   Some err \<Rightarrow> (Some (Inl (TextError err)), w)
                 | None \<Rightarrow>
                     if length (pw_queue w) < queue_capacity
                     then (Some (Inr jobID), w\<lparr>pw_queue := pw_queue w @ [jobID]\<rparr>) else (None, w))))"

definition poll_job :: "ProvisionJob \<Rightarrow> Worker \<Rightarrow> Worker" where
  "poll_job job w =
     (if pj_ID job \<in> pw_pollRunning w then w
      else if length (pw_queue w) < queue_capacity
      then w\<lparr>pw_pollRunning := insert (pj_ID job) (pw_pollRunning w), pw_queue := pw_queue w @ [pj_ID job]\<rparr>
      else w\<lparr>pw_pollRunning := pw_pollRunning w - {pj_ID job}\<rparr>)"

definition pollOnce :: "string list \<Rightarrow> Worker \<Rightarrow> Worker" where
  "pollOnce ks w = fold poll_job (ListPendingProvisionJobs ks (pw_store w)) w"

text \<open>What a run meets: the clock, identifiers for the log entries, and the provisioner, if there is one.\<close>

record run_env =
  re_now :: time
  re_xid :: "nat \<Rightarrow> string"
  re_SSHProvision :: "(SSHProvisionRequest \<Rightarrow> string option) option"

definition report_progress :: "run_env \<Rightarrow> nat \<Rightarrow> string \<Rightarrow> string \<Rightarrow> int \<Rightarrow> string \<Rightarrow> Worker \<Rightarrow> Worker" where
  "report_progress e n jobID stage progress message w =
     set_status jobID ''running'' stage '''' progress (re_now e)
       (log_job jobID ''info'' (''['' @ stage @ ''] '' @ message) (re_now e) (re_xid e n) w)"

definition provisionWithLogging ::
  "run_env \<Rightarrow> string \<Rightarrow> SSHProvisionRequest \<Rightarrow> Worker \<Rightarrow> string option \<times> Worker" where
  "provisionWithLogging e jobID req w =
     (let w1 = report_progress e 1 jobID ''connecting'' 10
                 (''Connecting to '' @ pr_TargetHost req @ '':'' @ Itoa (pr_TargetPort req)) w
      in case re_SSHProvision e of
           None \<Rightarrow> (Some ''SSH provisioner not configured'', w1)
         | Some provision \<Rightarrow>
             (let w2 = report_progress e 2 jobID ''provisioning'' 30 ''Starting SSH provisioning'' w1
              in case provision req of
                   Some err \<Rightarrow> (Some err, w2)
                 | None \<Rightarrow>
                     (None, report_progress e 4 jobID ''complete'' 100 ''Provisioning complete''
                        (report_progress e 3 jobID ''verifying'' 80 ''Verifying agent installation'' w2))))"

text \<open>The parts of \<open>runJob\<close>: the start, the request built from the stored job, the end, and the deferred removal from the
  set of the poll. \<open>jobID[:8]\<close> panics on a shorter identifier: the result \<open>None\<close>.\<close>

definition start_job :: "run_env \<Rightarrow> string \<Rightarrow> ProvisionJob \<Rightarrow> Worker \<Rightarrow> Worker" where
  "start_job e jobID job w =
     log_job jobID ''info''
       (''Starting provisioning for '' @ pj_TargetUser job @ ''@'' @ pj_TargetHost job @ '':'' @ Itoa (pj_TargetPort job))
       (re_now e) (re_xid e 0) (set_status jobID ''running'' ''starting'' [] 5 (re_now e) w)"

definition job_request :: "string \<Rightarrow> ProvisionJob \<Rightarrow> SSHProvisionRequest" where
  "job_request p job =
     \<lparr>pr_AgentID = ''agent-'' @ p, pr_TargetHost = pj_TargetHost job, pr_TargetPort = pj_TargetPort job,
      pr_SSHUser = pj_TargetUser job, pr_SSHKeyName = [], pr_Labels = [], pr_InstallPath = [],
      pr_ServiceUser = [], pr_ServiceGroup = [], pr_UseSudo = False\<rparr>"

definition end_job :: "run_env \<Rightarrow> string \<Rightarrow> string option \<Rightarrow> Worker \<Rightarrow> Worker" where
  "end_job e jobID result w =
     (case result of
        Some err \<Rightarrow>
          set_status jobID ''failed'' ''error'' err 100 (re_now e)
            (log_job jobID ''error'' (''Provisioning failed: '' @ err) (re_now e) (re_xid e 5) w)
      | None \<Rightarrow>
          set_status jobID ''completed'' ''done'' [] 100 (re_now e)
            (log_job jobID ''info'' ''Provisioning completed successfully'' (re_now e) (re_xid e 5) w))"

definition not_running :: "string \<Rightarrow> Worker \<Rightarrow> Worker" where
  "not_running jobID w = w\<lparr>pw_pollRunning := pw_pollRunning w - {jobID}\<rparr>"

definition runJob :: "run_env \<Rightarrow> string \<Rightarrow> Worker \<Rightarrow> Worker option" where
  "runJob e jobID w =
     (case GetProvisionJob jobID (pw_store w) of
        Inl _ \<Rightarrow> Some (not_running jobID w)
      | Inr job \<Rightarrow>
          (case go_slice jobID 0 8 of
             None \<Rightarrow> None
           | Some p \<Rightarrow>
               (case provisionWithLogging e jobID (job_request p job) (start_job e jobID job w) of
                  (result, w') \<Rightarrow> Some (not_running jobID (end_job e jobID result w')))))"

definition Worker_Shutdown :: "Worker \<Rightarrow> Worker" where
  "Worker_Shutdown w = w\<lparr>pw_isShutdown := True\<rparr>"

section \<open>Trust\<close>

text \<open>C36: A host key is trusted exactly when the store has a key for that host, port and type that was marked as trusted and
  has that fingerprint; whatever operations built the store and whatever order its map is read in.\<close>

theorem IsTrusted_exact:
  assumes "provision_steps NewProvisionStore s" and "enumerates ks (fst (sshHostKeys s))"
  shows "\<exists>b. IsTrusted h p t f ks s = Inr b \<and>
    (b \<longleftrightarrow> (\<exists>i k. tlook (sshHostKeys s) i = Some k \<and> same_key h p t k \<and> hk_Trusted k \<and> hk_Fingerprint k = f))"
proof -
  have wf: "provision_wf s" by (rule provision_reachable [OF assms(1)])
  note g = GetSSHHostKey_iff [OF wf assms(2), of h p t]
  show ?thesis
  proof (cases "GetSSHHostKey h p t ks s")
    case (Inl e)
    with g(2) [of e] show ?thesis by (auto simp: IsTrusted_def)
  next
    case (Inr k)
    have unique: "k' = k" if "tlook (sshHostKeys s) i = Some k'" "same_key h p t k'" for i k'
      using g(1) [of k'] that Inr by auto
    from Inr g(1) [of k] obtain j where "tlook (sshHostKeys s) j = Some k" "same_key h p t k" by blast
    then have "(\<exists>i k. tlook (sshHostKeys s) i = Some k \<and> same_key h p t k \<and> hk_Trusted k \<and> hk_Fingerprint k = f)
        \<longleftrightarrow> hk_Trusted k \<and> hk_Fingerprint k = f"
      using unique by blast
    then show ?thesis by (simp add: IsTrusted_def Inr)
  qed
qed

definition wit_host_key :: SSHHostKey where
  "wit_host_key = \<lparr>hk_ID = ''k'', hk_Hostname = ''h'', hk_Port = 22, hk_KeyType = ''rsa'', hk_PublicKey = '''',
     hk_Fingerprint = ''fp'', hk_Trusted = False, hk_AddedBy = '''', hk_VerifiedAt = None, hk_CreatedAt = 0, hk_UpdatedAt = 0\<rparr>"

definition wit_keys :: ProvisionStore where
  "wit_keys = snd (UpdateSSHHostKeyTrust ''k'' True ''ann'' 2 (snd (CreateSSHHostKey wit_host_key 1 ''x'' [] NewProvisionStore)))"

theorem IsTrusted_exact_witness:
  "IsTrusted ''h'' 22 ''rsa'' ''fp'' [''k''] wit_keys = Inr True \<and> IsTrusted ''h'' 22 ''rsa'' ''other'' [''k''] wit_keys = Inr False"
proof -
  have n: "sshHostKeys NewProvisionStore = empty_table" by (simp add: NewProvisionStore_def MemoryStore.defs)
  have t: "sshHostKeys wit_keys = ([''k'' \<mapsto> 0], [wit_host_key\<lparr>hk_Trusted := True, hk_VerifiedAt := Some 2, hk_UpdatedAt := 2,
      hk_AddedBy := ''ann'', hk_CreatedAt := 1\<rparr>])"
    by (simp add: wit_keys_def CreateSSHHostKey_def UpdateSSHHostKeyTrust_def n empty_table_def table_objs_def range_objs_def
        ref_range_def table_new_def new_obj_def table_modify_def tlook_def deref_def load_def assign_def wit_host_key_def
        map_filter_simps Let_def)
  have c: "provision_step NewProvisionStore (snd (CreateSSHHostKey wit_host_key 1 ''x'' [] NewProvisionStore))"
    by (rule provision_step.CreateSSHHostKey) (simp add: n empty_table_def enumerates_def)
  have r: "provision_steps NewProvisionStore wit_keys"
    unfolding wit_keys_def using c provision_step.UpdateSSHHostKeyTrust by (meson r_into_rtranclp rtranclp.rtrancl_into_rtrancl)
  have e: "enumerates [''k''] (fst (sshHostKeys wit_keys))" by (simp add: t enumerates_def)
  have k: "tlook (sshHostKeys wit_keys) i = Some k \<longleftrightarrow> i = ''k'' \<and> k = wit_host_key\<lparr>hk_Trusted := True, hk_VerifiedAt := Some 2,
      hk_UpdatedAt := 2, hk_AddedBy := ''ann'', hk_CreatedAt := 1\<rparr>" for i k
    by (auto simp: t tlook_def deref_def load_def split: if_splits)
  show ?thesis
    using IsTrusted_exact [OF r e, of "''h''" 22 "''rsa''" "''fp''"] IsTrusted_exact [OF r e, of "''h''" 22 "''rsa''" "''other''"]
    by (auto simp: k same_key_def wit_host_key_def)
qed

section \<open>Running a job\<close>

lemma SaveProvisionLog_frame [simp]:
  "provisionJobs (snd (SaveProvisionLog j l m now xid s)) = provisionJobs s"
  by (simp add: SaveProvisionLog_def Let_def)

lemma log_job_simps [simp]:
  "provisionJobs (pw_store (log_job j l m now xid w)) = provisionJobs (pw_store w)"
  "pw_queue (log_job j l m now xid w) = pw_queue w" "pw_pollRunning (log_job j l m now xid w) = pw_pollRunning w"
  by (simp_all add: log_job_def)

lemma set_status_simps [simp]:
  "pw_queue (set_status j st sg em pr now w) = pw_queue w"
  "pw_pollRunning (set_status j st sg em pr now w) = pw_pollRunning w"
  by (simp_all add: set_status_def)

text \<open>What an update of the status does to the table of jobs.\<close>

definition job_after :: "string \<Rightarrow> string \<Rightarrow> string \<Rightarrow> int \<Rightarrow> time \<Rightarrow> ProvisionJob \<Rightarrow> ProvisionJob" where
  "job_after status stage errorMessage progress now job =
     (let job = job\<lparr>pj_Status := status, pj_Stage := stage, pj_ErrorMessage := errorMessage, pj_Progress := progress\<rparr>
      in if ProvisionStatus_IsTerminal status then job\<lparr>pj_CompletedAt := Some now\<rparr> else job)"

lemma set_status_jobs:
  assumes "table_ok (provisionJobs (pw_store w))" and "tlook (provisionJobs (pw_store w)) j = Some job"
  shows "tlook (provisionJobs (pw_store (set_status j st sg em pr now w)))
      = (tlook (provisionJobs (pw_store w)))(j \<mapsto> job_after st sg em pr now job)"
    and "table_ok (provisionJobs (pw_store (set_status j st sg em pr now w)))"
  using assms by (simp_all add: set_status_def UpdateProvisionJobStatus_def job_after_def tlook_modify table_ok_modify Let_def)

text \<open>A state of the worker in which the table of jobs is the given one up to the status of job \<open>j\<close>.\<close>

definition only_job :: "string \<Rightarrow> Worker \<Rightarrow> ProvisionJob \<Rightarrow> Worker \<Rightarrow> bool" where
  "only_job j w0 job w \<longleftrightarrow> table_ok (provisionJobs (pw_store w)) \<and>
     tlook (provisionJobs (pw_store w)) = (tlook (provisionJobs (pw_store w0)))(j \<mapsto> job) \<and>
     pw_queue w = pw_queue w0 \<and> pw_pollRunning w = pw_pollRunning w0"

lemma only_job_log: "only_job j w0 job w \<Longrightarrow> only_job j w0 job (log_job j' l m now xid w)"
  by (simp add: only_job_def)

lemma only_job_status: "only_job j w0 job w \<Longrightarrow> only_job j w0 (job_after st sg em pr now job) (set_status j st sg em pr now w)"
  using set_status_jobs [of w j job] by (simp add: only_job_def)

lemma only_job_report:
  "only_job j w0 job w \<Longrightarrow> only_job j w0 (job_after ''running'' stage '''' pr (re_now e) job) (report_progress e n j stage pr m w)"
  by (simp add: report_progress_def only_job_status only_job_log)

definition run_result :: "run_env \<Rightarrow> SSHProvisionRequest \<Rightarrow> string option" where
  "run_result e req = (case re_SSHProvision e of None \<Rightarrow> Some ''SSH provisioner not configured'' | Some f \<Rightarrow> f req)"

lemma provisionWithLogging_job:
  assumes "only_job j w0 job w"
  shows "fst (provisionWithLogging e j req w) = run_result e req
    \<and> (\<exists>job'. only_job j w0 job' (snd (provisionWithLogging e j req w)) \<and> pj_ID job' = pj_ID job
         \<and> pj_TargetHost job' = pj_TargetHost job)"
proof -
  let ?a = "\<lambda>st pr x. job_after ''running'' st '''' pr (re_now e) x"
  have ids: "pj_ID (?a st pr x) = pj_ID x" "pj_TargetHost (?a st pr x) = pj_TargetHost x" for st pr x
    by (simp_all add: job_after_def Let_def)
  note r = only_job_report
  have 1: "only_job j w0 (?a ''connecting'' 10 job) (report_progress e 1 j ''connecting'' 10 m w)" for m
    by (rule r [OF assms])
  have 2: "only_job j w0 (?a ''provisioning'' 30 (?a ''connecting'' 10 job))
      (report_progress e 2 j ''provisioning'' 30 m' (report_progress e 1 j ''connecting'' 10 m w))" for m m'
    by (rule r [OF 1])
  have 4: "only_job j w0 (?a ''complete'' 100 (?a ''verifying'' 80 (?a ''provisioning'' 30 (?a ''connecting'' 10 job))))
      (report_progress e 4 j ''complete'' 100 m3 (report_progress e 3 j ''verifying'' 80 m2
        (report_progress e 2 j ''provisioning'' 30 m' (report_progress e 1 j ''connecting'' 10 m w))))" for m m' m2 m3
    by (intro r 1)
  show ?thesis
  proof (cases "re_SSHProvision e")
    case None
    then show ?thesis
      using 1 ids unfolding provisionWithLogging_def run_result_def Let_def by (metis fst_conv option.simps(4) snd_conv)
  next
    case (Some f)
    show ?thesis
    proof (cases "f req")
      case None
      then show ?thesis
        using 4 ids Some unfolding provisionWithLogging_def run_result_def Let_def
        by (metis fst_conv option.simps(4,5) snd_conv)
    next
      case (Some err)
      then show ?thesis
        using 2 ids \<open>re_SSHProvision e = Some f\<close> unfolding provisionWithLogging_def run_result_def Let_def
        by (metis fst_conv option.simps(4,5) snd_conv)
    qed
  qed
qed

lemma runJob_job:
  assumes wf: "provision_wf (pw_store w)" and job: "GetProvisionJob jobID (pw_store w) = Inr job" and len: "8 \<le> length jobID"
  shows "\<exists>w' req job'. runJob e jobID w = Some w' \<and> pr_TargetHost req = pj_TargetHost job \<and> pr_SSHUser req = pj_TargetUser job
    \<and> tlook (provisionJobs (pw_store w')) = (tlook (provisionJobs (pw_store w)))(jobID \<mapsto> job')
    \<and> (case run_result e req of
         None \<Rightarrow> pj_Status job' = ''completed'' \<and> pj_ErrorMessage job' = ''''
       | Some err \<Rightarrow> pj_Status job' = ''failed'' \<and> pj_ErrorMessage job' = err)
    \<and> pj_CompletedAt job' = Some (re_now e) \<and> pj_Progress job' = 100
    \<and> pw_queue w' = pw_queue w \<and> pw_pollRunning w' = pw_pollRunning w - {jobID}"
proof -
  have t: "table_ok (provisionJobs (pw_store w))" using wf by (simp add: provision_wf_def)
  have j: "tlook (provisionJobs (pw_store w)) jobID = Some job"
    using job by (simp add: GetProvisionJob_def found_def split: option.splits)
  have o: "only_job jobID w job w" using t j by (simp add: only_job_def fun_upd_idem)
  obtain p where p: "go_slice jobID 0 8 = Some p" using len by (auto simp: go_slice_def)
  let ?req = "job_request p job" and ?w1 = "start_job e jobID job w"
  have "only_job jobID w (job_after ''running'' ''starting'' [] 5 (re_now e) job) ?w1"
    unfolding start_job_def by (intro only_job_log only_job_status o)
  from provisionWithLogging_job [OF this, of e ?req] obtain job2 w2 where
    w2: "provisionWithLogging e jobID ?req ?w1 = (run_result e ?req, w2)" and o2: "only_job jobID w job2 w2"
    by (metis prod.collapse)
  have run: "runJob e jobID w = Some (not_running jobID (end_job e jobID (run_result e ?req) w2))"
    by (simp add: runJob_def job p w2)
  have fin: "only_job jobID w (job_after st sg em 100 (re_now e) job2) (set_status jobID st sg em 100 (re_now e)
      (log_job jobID l m (re_now e) (re_xid e 5) w2))" for st sg em l m
    by (intro only_job_status only_job_log o2)
  have req: "pr_TargetHost ?req = pj_TargetHost job" "pr_SSHUser ?req = pj_TargetUser job" by (simp_all add: job_request_def)
  show ?thesis
  proof (cases "run_result e ?req")
    case None
    with fin [of "''completed''" "''done''" "[]" "''info''" "''Provisioning completed successfully''"] show ?thesis
      by (intro exI [of _ "not_running jobID (end_job e jobID (run_result e ?req) w2)"] exI [of _ ?req]
          exI [of _ "job_after ''completed'' ''done'' [] 100 (re_now e) job2"])
        (simp add: run req only_job_def job_after_def ProvisionStatus_IsTerminal_def not_running_def end_job_def)
  next
    case (Some err)
    with fin [of "''failed''" "''error''" err "''error''" "''Provisioning failed: '' @ err"] show ?thesis
      by (intro exI [of _ "not_running jobID (end_job e jobID (run_result e ?req) w2)"] exI [of _ ?req]
          exI [of _ "job_after ''failed'' ''error'' err 100 (re_now e) job2"])
        (simp add: run req only_job_def job_after_def ProvisionStatus_IsTerminal_def not_running_def end_job_def)
  qed
qed

text \<open>C24: A job that is run ends. When the job exists (and its identifier has at least eight characters), \<open>runJob\<close> returns with
  the job completed, or failed with the error of the provisioner, in both cases with its completion time; no other
  job changes, and the job may be polled again.\<close>

theorem runJob_ends:
  assumes wf: "provision_wf (pw_store w)" and job: "GetProvisionJob jobID (pw_store w) = Inr job" and len: "8 \<le> length jobID"
  shows "\<exists>w' req job'. runJob e jobID w = Some w' \<and> pr_TargetHost req = pj_TargetHost job \<and> pr_SSHUser req = pj_TargetUser job
    \<and> tlook (provisionJobs (pw_store w')) = (tlook (provisionJobs (pw_store w)))(jobID \<mapsto> job')
    \<and> (case run_result e req of
         None \<Rightarrow> pj_Status job' = ''completed'' \<and> pj_ErrorMessage job' = ''''
       | Some err \<Rightarrow> pj_Status job' = ''failed'' \<and> pj_ErrorMessage job' = err)
    \<and> pj_CompletedAt job' = Some (re_now e) \<and> pj_Progress job' = 100
    \<and> pw_queue w' = pw_queue w \<and> pw_pollRunning w' = pw_pollRunning w - {jobID}"
  by (rule runJob_job [OF assms])

definition wit_job :: ProvisionJob where
  "wit_job = \<lparr>pj_ID = ''job-00001'', pj_TargetHost = ''h'', pj_TargetPort = 22, pj_TargetUser = ''root'', pj_SSHKeyID = None,
     pj_AgentBinaryID = None, pj_Status = ''cancelled'', pj_Stage = [], pj_Progress = 0, pj_ErrorMessage = [], pj_RollbackData = [],
     pj_StartedAt = 1, pj_CompletedAt = Some 2\<rparr>"

definition wit_worker :: Worker where
  "wit_worker = NewWorker 2 (snd (CreateProvisionJob wit_job 1 NewProvisionStore))"

lemma wit_worker_state:
  "provision_wf (pw_store wit_worker)" "GetProvisionJob ''job-00001'' (pw_store wit_worker) = Inr wit_job"
proof -
  have "provision_steps NewProvisionStore (pw_store wit_worker)"
    by (simp add: wit_worker_def NewWorker_def r_into_rtranclp provision_step.CreateProvisionJob)
  then show "provision_wf (pw_store wit_worker)" by (rule provision_reachable)
  show "GetProvisionJob ''job-00001'' (pw_store wit_worker) = Inr wit_job"
    by (simp add: wit_worker_def NewWorker_def CreateProvisionJob_def NewProvisionStore_def MemoryStore.defs wit_job_def IsZero_def
        empty_table_def GetProvisionJob_def found_def tlook_def table_new_def new_obj_def deref_def load_def Let_def)
qed

theorem runJob_ends_witness:
  "\<exists>w' job'. runJob \<lparr>re_now = 9, re_xid = \<lambda>n. nat_digits n, re_SSHProvision = Some (\<lambda>_. None)\<rparr> ''job-00001'' wit_worker = Some w'
     \<and> tlook (provisionJobs (pw_store w')) ''job-00001'' = Some job' \<and> pj_Status job' = ''completed''"
proof -
  let ?e = "\<lparr>re_now = 9, re_xid = \<lambda>n. nat_digits n, re_SSHProvision = Some (\<lambda>_. None)\<rparr>"
  from runJob_ends [OF wit_worker_state, of ?e] obtain w' req job' where
    r: "runJob ?e ''job-00001'' wit_worker = Some w'"
      "tlook (provisionJobs (pw_store w')) = (tlook (provisionJobs (pw_store wit_worker)))(''job-00001'' \<mapsto> job')"
      "case run_result ?e req of None \<Rightarrow> pj_Status job' = ''completed'' \<and> pj_ErrorMessage job' = []
       | Some err \<Rightarrow> pj_Status job' = ''failed'' \<and> pj_ErrorMessage job' = err"
    by auto
  then show ?thesis by (auto simp: run_result_def)
qed

section \<open>The queue\<close>

lemma report_progress_simps [simp]:
  "pw_queue (report_progress e n j sg pr m w) = pw_queue w"
  "pw_pollRunning (report_progress e n j sg pr m w) = pw_pollRunning w"
  by (simp_all add: report_progress_def)

lemma provisionWithLogging_simps [simp]:
  "pw_queue (snd (provisionWithLogging e j req w)) = pw_queue w"
  "pw_pollRunning (snd (provisionWithLogging e j req w)) = pw_pollRunning w"
  by (simp_all add: provisionWithLogging_def Let_def split: option.split)

lemma runJob_queue:
  assumes "runJob e j w = Some w'"
  shows "pw_queue w' = pw_queue w \<and> pw_pollRunning w' = pw_pollRunning w - {j}"
proof (cases "GetProvisionJob j (pw_store w)")
  case (Inl err)
  with assms show ?thesis by (auto simp: runJob_def not_running_def)
next
  case (Inr job)
  with assms obtain p where p: "go_slice j 0 8 = Some p" by (cases "go_slice j 0 8") (simp_all add: runJob_def)
  let ?r = "provisionWithLogging e j (job_request p job) (start_job e j job w)"
  have w': "w' = not_running j (end_job e j (fst ?r) (snd ?r))"
    using assms by (simp add: runJob_def Inr p split: prod.splits)
  show ?thesis
    unfolding w' by (simp add: not_running_def end_job_def start_job_def split: option.split)
qed

text \<open>The worker left to its polling: it polls, and its goroutines take the first identifier and run the job.\<close>

inductive poll_step :: "Worker \<Rightarrow> Worker \<Rightarrow> bool" where
  Poll: "poll_step w (pollOnce ks w)"
| Run: "pw_queue w = j # q \<Longrightarrow> runJob e j (w\<lparr>pw_queue := q\<rparr>) = Some w' \<Longrightarrow> poll_step w w'"

definition queue_ok :: "Worker \<Rightarrow> bool" where
  "queue_ok w \<longleftrightarrow> distinct (pw_queue w) \<and> set (pw_queue w) \<subseteq> pw_pollRunning w \<and> length (pw_queue w) \<le> queue_capacity"

lemma poll_job_ok: "queue_ok w \<Longrightarrow> queue_ok (poll_job job w)"
  by (auto simp: queue_ok_def poll_job_def)

lemma poll_fold_ok: "queue_ok w \<Longrightarrow> queue_ok (fold poll_job jobs w)"
  by (induction jobs arbitrary: w) (simp_all add: poll_job_ok)

lemma poll_step_ok: "poll_step w w' \<Longrightarrow> queue_ok w \<Longrightarrow> queue_ok w'"
proof (induction rule: poll_step.induct)
  case (Poll w ks)
  then show ?case by (simp add: pollOnce_def poll_fold_ok)
next
  case (Run w j q e w')
  from runJob_queue [OF Run(2)] have "pw_queue w' = q" "pw_pollRunning w' = pw_pollRunning w - {j}" by simp_all
  with Run(1,3) show ?case by (auto simp: queue_ok_def)
qed

text \<open>A worker that only polls never has a job twice in its queue, and never more than the queue can hold, whatever it runs and
  whenever it polls.\<close>

theorem poll_queues_once:
  assumes "poll_step\<^sup>*\<^sup>* (NewWorker n s) w"
  shows "distinct (pw_queue w) \<and> length (pw_queue w) \<le> queue_capacity"
proof -
  have "queue_ok w" using assms
    by (induction rule: rtranclp_induct) (simp add: queue_ok_def NewWorker_def, rule poll_step_ok)
  then show ?thesis by (simp add: queue_ok_def)
qed

theorem poll_queues_once_witness:
  "distinct (pw_queue (pollOnce [''job-00001''] wit_worker)) \<and> length (pw_queue (pollOnce [''job-00001''] wit_worker)) \<le> queue_capacity"
proof -
  have "poll_step\<^sup>*\<^sup>* (NewWorker 2 (snd (CreateProvisionJob wit_job 1 NewProvisionStore))) (pollOnce [''job-00001''] wit_worker)"
    unfolding wit_worker_def by (rule r_into_rtranclp) (rule poll_step.Poll)
  then show ?thesis by (rule poll_queues_once)
qed

section \<open>What goes wrong\<close>

text \<open>A job that was handed over by \<open>Submit\<close> and not yet started is queued a second time by the next poll, so it is
  provisioned twice: \<open>Submit\<close> does not mark it as running and \<open>runJob\<close> does not look at its status.\<close>

lemma submitted_job_queued_twice:
  "pw_queue (pollOnce [''job-00001''] (snd (Submit req None 1 ''job-00001'' ''l'' (NewWorker 2 NewProvisionStore))))
     = [''job-00001'', ''job-00001'']"
  by (simp add: Submit_def NewWorker_def CreateProvisionJob_def NewProvisionStore_def MemoryStore.defs empty_table_def IsZero_def
      log_job_def SaveProvisionLog_def queue_provision_def pollOnce_def ListPendingProvisionJobs_def table_objs_def range_objs_def
      ref_range_def table_new_def new_obj_def load_def map_filter_simps poll_job_def queue_capacity_def Let_def)

text \<open>A job that was cancelled while it waited in the queue is provisioned all the same.\<close>

lemma cancelled_job_runs:
  assumes "provision_wf s" and "8 \<le> length i" and "Provision_Cancel i now s = (Inr (), s')" and "re_SSHProvision e = Some (\<lambda>_. None)"
  shows "\<exists>w' job'. runJob e i (NewWorker n s') = Some w' \<and> tlook (provisionJobs (pw_store w')) i = Some job'
    \<and> pj_Status job' = ''completed''"
proof -
  obtain job where j: "tlook (provisionJobs s) i = Some job"
    using assms(3) by (auto simp: Provision_Cancel_def GetJob_def GetProvisionJob_def found_def split: option.splits if_splits)
  have s': "s' = snd (UpdateProvisionJobStatus i ''cancelled'' [] ''Cancelled by user'' (pj_Progress job) now s)"
    using assms(3) j
    by (auto simp: Provision_Cancel_def GetJob_def GetProvisionJob_def found_def UpdateStatus_def valid_statuses_def
        split: if_splits sum.splits prod.splits)
  have wf: "provision_wf (pw_store (NewWorker n s'))"
    using provision_step_wf [OF provision_step.UpdateProvisionJobStatus assms(1)] by (simp add: s' NewWorker_def)
  have t: "table_ok (provisionJobs s)" using assms(1) by (simp add: provision_wf_def)
  have "\<exists>job'. GetProvisionJob i (pw_store (NewWorker n s')) = Inr job'"
    using t j by (simp add: s' NewWorker_def UpdateProvisionJobStatus_def GetProvisionJob_def found_def tlook_modify Let_def)
  then obtain job1 where g: "GetProvisionJob i (pw_store (NewWorker n s')) = Inr job1" by blast
  from runJob_job [OF wf g assms(2), of e] assms(4) show ?thesis by (auto simp: run_result_def)
qed

text \<open>The worker and the service call a job that is under way \<open>running\<close>, the store looks for \<open>in_progress\<close>: a running job is not
  listed as pending.\<close>

lemma running_job_not_listed:
  "job \<in> set (ListPendingProvisionJobs ks s) \<Longrightarrow> pj_Status job \<noteq> ''running''"
  by (auto simp: ListPendingProvisionJobs_def)

text \<open>The deletions of host keys, jump servers and health checks carry a string where the executor asks for an \<open>int64\<close>; the
  deletion of a job becomes no statement at all.\<close>

lemma provision_deletions_refused:
  "\<exists>e. executeSSHHostKeyOp (NewWriteOp WriteOpDelete ''ssh_host_keys'' (StringData i) now) = Inl e"
  "\<exists>e. executeJumpServerOp (NewWriteOp WriteOpDelete ''ssh_jump_servers'' (StringData i) now) = Inl e"
  "\<exists>e. executeHealthCheckConfigOp (NewWriteOp WriteOpDelete ''health_check_configs'' (StringData i) now) = Inl e"
  "executeProvisionJobOp (NewWriteOp WriteOpDelete ''provision_jobs'' d now) = Inr None"
  by (simp_all add: executeSSHHostKeyOp_def executeJumpServerOp_def executeHealthCheckConfigOp_def executeProvisionJobOp_def
      NewWriteOp_def as_int64_def)

end
