(* ===== verification/Webhooks.thy ===== *)
theory Webhooks
  imports Http_Auth
begin

text \<open>
  The receiver of webhooks: \<open>internal/webhooks/handler.go\<close> (the handlers for the three providers),
  \<open>internal/webhooks/processor.go\<close> (which events become deployments), the secret store behind them
  (\<open>webhookSecretStoreAdapter\<close> of \<open>internal/server/master.go\<close>), the routes of
  \<open>internal/server/handlers_webhooks.go\<close>, and the service that keeps the configuration
  (\<open>internal/services/webhooks\<close>).

  The handlers work over any state \<open>'st\<close>, through the interfaces \<open>SecretStore\<close> and \<open>EventProcessor\<close> that the
  \<open>Handler\<close> holds. HMAC-SHA256 and the decoding of the JSON payloads are arguments. The configuration of a
  project and \<open>TriggerDeploy\<close>, interfaces with no implementation in the repository, are fields of the
  processor; the calls of \<open>TriggerDeploy\<close> are recorded. A reply \<open>None\<close> is a panic.
\<close>

section \<open>Events and the handler\<close>

record PushEvent =
  push_Provider :: string
  push_ProjectID :: string
  push_Repository :: string
  push_Branch :: string
  push_Commit :: string
  push_CommitURL :: string
  push_Author :: string
  push_AuthorEmail :: string
  push_Message :: string
  push_Timestamp :: string
  push_ForcePush :: bool
  push_Deleted :: bool

record PullRequestEvent =
  pr_Provider :: string
  pr_ProjectID :: string
  pr_Repository :: string
  pr_Action :: string
  pr_Number :: int
  pr_Title :: string
  pr_SourceBranch :: string
  pr_TargetBranch :: string
  pr_Author :: string

record TagEvent =
  tag_Provider :: string
  tag_ProjectID :: string
  tag_Repository :: string
  tag_Tag :: string
  tag_Commit :: string
  tag_Author :: string
  tag_Deleted :: bool

record 'st Handler =
  h_GetWebhookSecret :: "string \<Rightarrow> 'st \<Rightarrow> (string + string) option \<times> 'st"
  h_IsSecretRequired :: "string \<Rightarrow> 'st \<Rightarrow> bool"
  h_ProcessPush :: "PushEvent \<Rightarrow> 'st \<Rightarrow> string option \<times> 'st"
  h_ProcessPullRequest :: "PullRequestEvent \<Rightarrow> 'st \<Rightarrow> string option \<times> 'st"
  h_ProcessTag :: "TagEvent \<Rightarrow> 'st \<Rightarrow> string option \<times> 'st"

text \<open>A request with its body; \<open>None\<close> when the body cannot be read.\<close>

record HookRequest = Request +
  req_Body :: "string option"

datatype hook_reply = HttpError string int | Written int string | ServerError int string

definition StatusOK :: hook_reply where
  "StatusOK = Written 200 ''''"

section \<open>The payloads\<close>

record HookCommit =
  hc_ID :: string
  hc_Message :: string
  hc_Timestamp :: string
  hc_URL :: string
  hc_AuthorName :: string
  hc_AuthorEmail :: string

record GitHubPush =
  ghp_Ref :: string
  ghp_After :: string
  ghp_Forced :: bool
  ghp_Deleted :: bool
  ghp_CloneURL :: string
  ghp_HeadCommit :: HookCommit

record GitHubPR =
  ghr_Action :: string
  ghr_Number :: int
  ghr_Title :: string
  ghr_UserLogin :: string
  ghr_HeadRef :: string
  ghr_BaseRef :: string
  ghr_FullName :: string

record GitHubTag =
  ght_RefType :: string
  ght_Ref :: string
  ght_SenderLogin :: string
  ght_FullName :: string

record GitLabPush =
  glp_Ref :: string
  glp_After :: string
  glp_GitHTTPURL :: string
  glp_Commits :: "HookCommit list"
  glp_UserName :: string

record GitLabMR =
  glr_Action :: string
  glr_IID :: int
  glr_Title :: string
  glr_SourceBranch :: string
  glr_TargetBranch :: string
  glr_Username :: string
  glr_PathWithNamespace :: string

record GitLabTag =
  glt_Ref :: string
  glt_After :: string
  glt_PathWithNamespace :: string
  glt_UserName :: string

record BitbucketChange =
  bc_NewName :: string
  bc_NewType :: string
  bc_NewHash :: string
  bc_NewMessage :: string
  bc_NewDate :: string
  bc_NewAuthor :: string
  bc_OldName :: string
  bc_OldType :: string
  bc_OldHash :: string
  bc_Forced :: bool

record BitbucketPush =
  bbp_Changes :: "BitbucketChange list"
  bbp_Href :: string

record BitbucketPR =
  bbr_ID :: int
  bbr_Title :: string
  bbr_Source :: string
  bbr_Destination :: string
  bbr_Author :: string
  bbr_FullName :: string

text \<open>\<open>json.Unmarshal\<close> into each of the payload structures; \<open>None\<close> is its error.\<close>

record payload_decoders =
  j_GitHubPush :: "string \<Rightarrow> GitHubPush option"
  j_GitHubPR :: "string \<Rightarrow> GitHubPR option"
  j_GitHubTag :: "string \<Rightarrow> GitHubTag option"
  j_GitLabPush :: "string \<Rightarrow> GitLabPush option"
  j_GitLabMR :: "string \<Rightarrow> GitLabMR option"
  j_GitLabTag :: "string \<Rightarrow> GitLabTag option"
  j_BitbucketPush :: "string \<Rightarrow> BitbucketPush option"
  j_BitbucketPR :: "string \<Rightarrow> BitbucketPR option"

section \<open>Strings\<close>

definition TrimPrefix :: "string \<Rightarrow> string \<Rightarrow> string" where
  "TrimPrefix s p = (if HasPrefix s p then drop (length p) s else s)"

definition TrimSuffix :: "string \<Rightarrow> string \<Rightarrow> string" where
  "TrimSuffix s p = (if HasSuffix s p then take (length s - length p) s else s)"

definition project_id_char :: "char \<Rightarrow> bool" where
  "project_id_char ch \<longleftrightarrow> lower ch \<or> upper ch \<or> digit ch \<or> ch = CHR ''-'' \<or> ch = CHR ''_''"

definition isValidProjectID :: "string \<Rightarrow> bool" where
  "isValidProjectID i \<longleftrightarrow> \<not> (i = '''' \<or> length i > 128) \<and> list_all project_id_char i"

definition extractProjectID :: "string \<Rightarrow> string \<Rightarrow> string" where
  "extractProjectID path pre =
     (if \<not> HasPrefix path pre then ''''
      else (let i = TrimPrefix path pre in case Index i ''/'' of Some n \<Rightarrow> take n i | None \<Rightarrow> i))"

definition zero_commit :: string where
  "zero_commit = replicate 40 (CHR ''0'')"

section \<open>GitHub\<close>

definition validateGitHubSignature ::
  "(string \<Rightarrow> string \<Rightarrow> string) \<Rightarrow> string \<Rightarrow> string \<Rightarrow> string \<Rightarrow> bool \<Rightarrow> bool" where
  "validateGitHubSignature hmac payload signature secret requireSecret =
     (if secret = '''' then \<not> requireSecret
      else if \<not> HasPrefix signature ''sha256='' then False
      else TrimPrefix signature ''sha256='' = hex_EncodeToString (hmac secret payload))"

text \<open>The reply after the processor has run.\<close>

definition processed :: "string option \<times> 'st \<Rightarrow> hook_reply \<times> 'st" where
  "processed = apfst (\<lambda>err. case err of Some _ \<Rightarrow> HttpError ''Processing failed'' 500 | None \<Rightarrow> StatusOK)"

definition handleGitHubPush ::
  "'st Handler \<Rightarrow> payload_decoders \<Rightarrow> string \<Rightarrow> string \<Rightarrow> 'st \<Rightarrow> hook_reply \<times> 'st" where
  "handleGitHubPush h d body projectID st =
     (case j_GitHubPush d body of
        None \<Rightarrow> (HttpError ''Invalid payload'' 400, st)
      | Some payload \<Rightarrow>
          (let branch = TrimPrefix (ghp_Ref payload) ''refs/heads/'' in
           if HasPrefix (ghp_Ref payload) ''refs/tags/'' then (StatusOK, st)
           else processed (h_ProcessPush h
             \<lparr>push_Provider = ''github'', push_ProjectID = projectID, push_Repository = ghp_CloneURL payload,
              push_Branch = branch, push_Commit = ghp_After payload, push_CommitURL = hc_URL (ghp_HeadCommit payload),
              push_Author = hc_AuthorName (ghp_HeadCommit payload),
              push_AuthorEmail = hc_AuthorEmail (ghp_HeadCommit payload),
              push_Message = hc_Message (ghp_HeadCommit payload),
              push_Timestamp = hc_Timestamp (ghp_HeadCommit payload), push_ForcePush = ghp_Forced payload,
              push_Deleted = ghp_Deleted payload\<rparr> st)))"

definition handleGitHubPR ::
  "'st Handler \<Rightarrow> payload_decoders \<Rightarrow> string \<Rightarrow> string \<Rightarrow> 'st \<Rightarrow> hook_reply \<times> 'st" where
  "handleGitHubPR h d body projectID st =
     (case j_GitHubPR d body of
        None \<Rightarrow> (HttpError ''Invalid payload'' 400, st)
      | Some payload \<Rightarrow>
          processed (h_ProcessPullRequest h
            \<lparr>pr_Provider = ''github'', pr_ProjectID = projectID, pr_Repository = ghr_FullName payload,
             pr_Action = ghr_Action payload, pr_Number = ghr_Number payload, pr_Title = ghr_Title payload,
             pr_SourceBranch = ghr_HeadRef payload, pr_TargetBranch = ghr_BaseRef payload,
             pr_Author = ghr_UserLogin payload\<rparr> st))"

definition handleGitHubTag ::
  "'st Handler \<Rightarrow> payload_decoders \<Rightarrow> string \<Rightarrow> string \<Rightarrow> bool \<Rightarrow> 'st \<Rightarrow> hook_reply \<times> 'st" where
  "handleGitHubTag h d body projectID deleted st =
     (case j_GitHubTag d body of
        None \<Rightarrow> (HttpError ''Invalid payload'' 400, st)
      | Some payload \<Rightarrow>
          if ght_RefType payload \<noteq> ''tag'' then (StatusOK, st)
          else processed (h_ProcessTag h
            \<lparr>tag_Provider = ''github'', tag_ProjectID = projectID, tag_Repository = ght_FullName payload,
             tag_Tag = ght_Ref payload, tag_Commit = '''', tag_Author = ght_SenderLogin payload,
             tag_Deleted = deleted\<rparr> st))"

definition read_body :: "HookRequest \<Rightarrow> string option" where
  "read_body r = (case req_Body r of None \<Rightarrow> None | Some b \<Rightarrow> if length b > 2 ^ 20 then None else Some b)"

definition dispatchGitHub ::
  "'st Handler \<Rightarrow> payload_decoders \<Rightarrow> string \<Rightarrow> string \<Rightarrow> string \<Rightarrow> 'st \<Rightarrow> hook_reply \<times> 'st" where
  "dispatchGitHub h d body projectID eventType st =
     (if eventType = ''push'' then handleGitHubPush h d body projectID st
      else if eventType = ''pull_request'' then handleGitHubPR h d body projectID st
      else if eventType = ''create'' \<or> eventType = ''delete''
        then handleGitHubTag h d body projectID (eventType = ''delete'') st
      else if eventType = ''ping'' then (Written 200 ''pong'', st)
      else (StatusOK, st))"

definition HandleGitHub ::
  "'st Handler \<Rightarrow> payload_decoders \<Rightarrow> (string \<Rightarrow> string \<Rightarrow> string) \<Rightarrow> HookRequest \<Rightarrow> 'st \<Rightarrow> hook_reply option \<times> 'st" where
  "HandleGitHub h d hmac r st =
     (let projectID = extractProjectID (req_Path r) ''/webhook/github/'' in
      if projectID = '''' then (Some (HttpError ''Missing project ID'' 400), st)
      else if \<not> isValidProjectID projectID then (Some (HttpError ''Invalid project ID'' 400), st)
      else
        (case read_body r of
           None \<Rightarrow> (Some (HttpError ''Failed to read body'' 400), st)
         | Some body \<Rightarrow>
             (case h_GetWebhookSecret h projectID st of
                (None, st) \<Rightarrow> (None, st)
              | (Some (Inl e), st) \<Rightarrow> (Some (HttpError ''Internal error'' 500), st)
              | (Some (Inr secret), st) \<Rightarrow>
                  (let signature = req_Header r ''X-Hub-Signature-256'';
                       requireSecret = h_IsSecretRequired h projectID st in
                   if \<not> validateGitHubSignature hmac body signature secret requireSecret
                   then (Some (HttpError ''Invalid signature'' 401), st)
                   else apfst Some (dispatchGitHub h d body projectID (req_Header r ''X-GitHub-Event'') st)))))"

section \<open>GitLab\<close>

definition handleGitLabPush ::
  "'st Handler \<Rightarrow> payload_decoders \<Rightarrow> string \<Rightarrow> string \<Rightarrow> 'st \<Rightarrow> hook_reply \<times> 'st" where
  "handleGitLabPush h d body projectID st =
     (case j_GitLabPush d body of
        None \<Rightarrow> (HttpError ''Invalid payload'' 400, st)
      | Some payload \<Rightarrow>
          (let branch = TrimPrefix (glp_Ref payload) ''refs/heads/'';
               deleted = (glp_After payload = zero_commit);
               lastCommit = (if glp_Commits payload \<noteq> [] then last (glp_Commits payload)
                 else \<lparr>hc_ID = glp_After payload, hc_Message = '''', hc_Timestamp = '''', hc_URL = '''',
                       hc_AuthorName = glp_UserName payload, hc_AuthorEmail = ''''\<rparr>)
           in processed (h_ProcessPush h
             \<lparr>push_Provider = ''gitlab'', push_ProjectID = projectID, push_Repository = glp_GitHTTPURL payload,
              push_Branch = branch, push_Commit = hc_ID lastCommit, push_CommitURL = hc_URL lastCommit,
              push_Author = hc_AuthorName lastCommit, push_AuthorEmail = hc_AuthorEmail lastCommit,
              push_Message = hc_Message lastCommit, push_Timestamp = hc_Timestamp lastCommit,
              push_ForcePush = False, push_Deleted = deleted\<rparr> st)))"

definition handleGitLabMR ::
  "'st Handler \<Rightarrow> payload_decoders \<Rightarrow> string \<Rightarrow> string \<Rightarrow> 'st \<Rightarrow> hook_reply \<times> 'st" where
  "handleGitLabMR h d body projectID st =
     (case j_GitLabMR d body of
        None \<Rightarrow> (HttpError ''Invalid payload'' 400, st)
      | Some payload \<Rightarrow>
          processed (h_ProcessPullRequest h
            \<lparr>pr_Provider = ''gitlab'', pr_ProjectID = projectID, pr_Repository = glr_PathWithNamespace payload,
             pr_Action = glr_Action payload, pr_Number = glr_IID payload, pr_Title = glr_Title payload,
             pr_SourceBranch = glr_SourceBranch payload, pr_TargetBranch = glr_TargetBranch payload,
             pr_Author = glr_Username payload\<rparr> st))"

definition handleGitLabTag ::
  "'st Handler \<Rightarrow> payload_decoders \<Rightarrow> string \<Rightarrow> string \<Rightarrow> 'st \<Rightarrow> hook_reply \<times> 'st" where
  "handleGitLabTag h d body projectID st =
     (case j_GitLabTag d body of
        None \<Rightarrow> (HttpError ''Invalid payload'' 400, st)
      | Some payload \<Rightarrow>
          processed (h_ProcessTag h
            \<lparr>tag_Provider = ''gitlab'', tag_ProjectID = projectID, tag_Repository = glt_PathWithNamespace payload,
             tag_Tag = TrimPrefix (glt_Ref payload) ''refs/tags/'', tag_Commit = glt_After payload,
             tag_Author = glt_UserName payload, tag_Deleted = (glt_After payload = zero_commit)\<rparr> st))"

definition dispatchGitLab ::
  "'st Handler \<Rightarrow> payload_decoders \<Rightarrow> string \<Rightarrow> string \<Rightarrow> string \<Rightarrow> 'st \<Rightarrow> hook_reply \<times> 'st" where
  "dispatchGitLab h d body projectID eventType st =
     (if eventType = ''Push Hook'' then handleGitLabPush h d body projectID st
      else if eventType = ''Merge Request Hook'' then handleGitLabMR h d body projectID st
      else if eventType = ''Tag Push Hook'' then handleGitLabTag h d body projectID st
      else (StatusOK, st))"

definition HandleGitLab ::
  "'st Handler \<Rightarrow> payload_decoders \<Rightarrow> HookRequest \<Rightarrow> 'st \<Rightarrow> hook_reply option \<times> 'st" where
  "HandleGitLab h d r st =
     (let projectID = extractProjectID (req_Path r) ''/webhook/gitlab/'' in
      if projectID = '''' then (Some (HttpError ''Missing project ID'' 400), st)
      else if \<not> isValidProjectID projectID then (Some (HttpError ''Invalid project ID'' 400), st)
      else
        (case read_body r of
           None \<Rightarrow> (Some (HttpError ''Failed to read body'' 400), st)
         | Some body \<Rightarrow>
             (case h_GetWebhookSecret h projectID st of
                (None, st) \<Rightarrow> (None, st)
              | (Some (Inl e), st) \<Rightarrow> (Some (HttpError ''Internal error'' 500), st)
              | (Some (Inr secret), st) \<Rightarrow>
                  (let token = req_Header r ''X-Gitlab-Token'';
                       requireSecret = h_IsSecretRequired h projectID st in
                   if secret = '''' \<and> requireSecret then (Some (HttpError ''Webhook secret required'' 401), st)
                   else if secret \<noteq> '''' \<and> token \<noteq> secret then (Some (HttpError ''Invalid token'' 401), st)
                   else apfst Some (dispatchGitLab h d body projectID (req_Header r ''X-Gitlab-Event'') st)))))"

section \<open>Bitbucket\<close>

fun bitbucket_changes ::
  "'st Handler \<Rightarrow> string \<Rightarrow> string \<Rightarrow> BitbucketChange list \<Rightarrow> 'st \<Rightarrow> hook_reply \<times> 'st" where
  "bitbucket_changes h projectID href [] st = (StatusOK, st)"
| "bitbucket_changes h projectID href (change # changes) st =
     (let (err, st') =
        (if bc_NewType change = '''' \<and> bc_OldType change = ''tag''
         then h_ProcessTag h
           \<lparr>tag_Provider = ''bitbucket'', tag_ProjectID = projectID, tag_Repository = href,
            tag_Tag = bc_OldName change, tag_Commit = bc_OldHash change, tag_Author = '''', tag_Deleted = True\<rparr> st
         else if bc_NewType change = ''branch''
         then h_ProcessPush h
           \<lparr>push_Provider = ''bitbucket'', push_ProjectID = projectID, push_Repository = href,
            push_Branch = bc_NewName change, push_Commit = bc_NewHash change, push_CommitURL = '''',
            push_Author = bc_NewAuthor change, push_AuthorEmail = '''', push_Message = bc_NewMessage change,
            push_Timestamp = bc_NewDate change, push_ForcePush = bc_Forced change, push_Deleted = False\<rparr> st
         else if bc_NewType change = ''tag''
         then h_ProcessTag h
           \<lparr>tag_Provider = ''bitbucket'', tag_ProjectID = projectID, tag_Repository = href,
            tag_Tag = bc_NewName change, tag_Commit = bc_NewHash change, tag_Author = bc_NewAuthor change,
            tag_Deleted = False\<rparr> st
         else (None, st))
      in if err \<noteq> None then (HttpError ''Processing failed'' 500, st')
         else bitbucket_changes h projectID href changes st')"

definition handleBitbucketPush ::
  "'st Handler \<Rightarrow> payload_decoders \<Rightarrow> string \<Rightarrow> string \<Rightarrow> 'st \<Rightarrow> hook_reply \<times> 'st" where
  "handleBitbucketPush h d body projectID st =
     (case j_BitbucketPush d body of
        None \<Rightarrow> (HttpError ''Invalid payload'' 400, st)
      | Some payload \<Rightarrow> bitbucket_changes h projectID (bbp_Href payload) (bbp_Changes payload) st)"

definition bitbucket_action :: "string \<Rightarrow> string" where
  "bitbucket_action eventType =
     (if eventType = ''pullrequest:created'' then ''opened''
      else if eventType = ''pullrequest:updated'' then ''synchronize''
      else if eventType = ''pullrequest:fulfilled'' then ''merged''
      else if eventType = ''pullrequest:rejected'' then ''closed''
      else ''unknown'')"

definition handleBitbucketPR ::
  "'st Handler \<Rightarrow> payload_decoders \<Rightarrow> string \<Rightarrow> string \<Rightarrow> string \<Rightarrow> 'st \<Rightarrow> hook_reply \<times> 'st" where
  "handleBitbucketPR h d body projectID eventType st =
     (case j_BitbucketPR d body of
        None \<Rightarrow> (HttpError ''Invalid payload'' 400, st)
      | Some payload \<Rightarrow>
          processed (h_ProcessPullRequest h
            \<lparr>pr_Provider = ''bitbucket'', pr_ProjectID = projectID, pr_Repository = bbr_FullName payload,
             pr_Action = bitbucket_action eventType, pr_Number = bbr_ID payload, pr_Title = bbr_Title payload,
             pr_SourceBranch = bbr_Source payload, pr_TargetBranch = bbr_Destination payload,
             pr_Author = bbr_Author payload\<rparr> st))"

definition HandleBitbucket ::
  "'st Handler \<Rightarrow> payload_decoders \<Rightarrow> HookRequest \<Rightarrow> 'st \<Rightarrow> hook_reply option \<times> 'st" where
  "HandleBitbucket h d r st =
     (let projectID = extractProjectID (req_Path r) ''/webhook/bitbucket/'' in
      if projectID = '''' then (Some (HttpError ''Missing project ID'' 400), st)
      else if \<not> isValidProjectID projectID then (Some (HttpError ''Invalid project ID'' 400), st)
      else
        (case read_body r of
           None \<Rightarrow> (Some (HttpError ''Failed to read body'' 400), st)
         | Some body \<Rightarrow>
             (let eventType = req_Header r ''X-Event-Key'' in
              if eventType = '''' then (Some (HttpError ''Missing event key'' 400), st)
              else if eventType = ''repo:push'' then apfst Some (handleBitbucketPush h d body projectID st)
              else if eventType \<in> {''pullrequest:created'', ''pullrequest:updated'', ''pullrequest:fulfilled'',
                  ''pullrequest:rejected''} then apfst Some (handleBitbucketPR h d body projectID eventType st)
              else (Some StatusOK, st))))"

section \<open>The event processor\<close>

record WebhookConfig =
  wc_Enabled :: bool
  wc_AutoDeploy :: bool
  wc_AutoDeployBranches :: "string list"
  wc_AutoDeployOnTag :: bool
  wc_AutoDeployOnPR :: bool
  wc_PRDeployEnvironment :: string

record DeployCall =
  dc_projectID :: string
  dc_branch :: string
  dc_commit :: string
  dc_triggeredBy :: string
  dc_triggerSource :: string

record DefaultEventProcessor =
  p_projects :: "string \<Rightarrow> string + WebhookConfig option"
  p_orchestrator :: "DeployCall \<Rightarrow> string + string"
  p_defaultBranch :: string

text \<open>What a request can change: the key service of the secret store, and the deployments asked for.\<close>

record hook_state =
  hs_kms :: "KMS option"
  hs_store :: SecurityStore
  hs_calls :: "DeployCall list"

definition NewEventProcessor ::
  "(string \<Rightarrow> string + WebhookConfig option) \<Rightarrow> (DeployCall \<Rightarrow> string + string) \<Rightarrow> string \<Rightarrow> DefaultEventProcessor" where
  "NewEventProcessor ps orch defaultBranch =
     \<lparr>p_projects = ps, p_orchestrator = orch,
      p_defaultBranch = (if defaultBranch = '''' then ''main'' else defaultBranch)\<rparr>"

definition shouldDeployBranch :: "DefaultEventProcessor \<Rightarrow> string \<Rightarrow> string list \<Rightarrow> bool" where
  "shouldDeployBranch p branch allowedBranches =
     (if allowedBranches = [] then branch = p_defaultBranch p \<or> branch = ''master''
      else list_ex (\<lambda>allowed.
        if HasSuffix allowed ''*'' then HasPrefix branch (TrimSuffix allowed ''*'') else allowed = branch) allowedBranches)"

text \<open>The call with a maximal length below 3 would panic; the only caller passes 50.\<close>

definition truncateMessage :: "string \<Rightarrow> nat \<Rightarrow> string" where
  "truncateMessage s maxLen =
     (let s = hd (Split s (CHR 0x0A)) in if length s > maxLen then take (maxLen - 3) s @ ''...'' else s)"

definition trigger :: "DefaultEventProcessor \<Rightarrow> DeployCall \<Rightarrow> hook_state \<Rightarrow> string option \<times> hook_state" where
  "trigger p call st =
     ((case p_orchestrator p call of Inl e \<Rightarrow> Some (''triggering deployment: '' @ e) | Inr i \<Rightarrow> None),
      st\<lparr>hs_calls := hs_calls st @ [call]\<rparr>)"

definition ProcessPush :: "DefaultEventProcessor \<Rightarrow> PushEvent \<Rightarrow> hook_state \<Rightarrow> string option \<times> hook_state" where
  "ProcessPush p event st =
     (if push_Deleted event then (None, st)
      else
        (case p_projects p (push_ProjectID event) of
           Inl e \<Rightarrow> (Some (''getting webhook config: '' @ e), st)
         | Inr None \<Rightarrow> (None, st)
         | Inr (Some cfg) \<Rightarrow>
             if \<not> wc_Enabled cfg \<or> \<not> wc_AutoDeploy cfg then (None, st)
             else if \<not> shouldDeployBranch p (push_Branch event) (wc_AutoDeployBranches cfg) then (None, st)
             else trigger p
               \<lparr>dc_projectID = push_ProjectID event, dc_branch = push_Branch event, dc_commit = push_Commit event,
                dc_triggeredBy = ''webhook:'' @ push_Provider event,
                dc_triggerSource = ''push by '' @ push_Author event @ '': '' @ truncateMessage (push_Message event) 50\<rparr> st))"

definition ProcessPullRequest ::
  "DefaultEventProcessor \<Rightarrow> PullRequestEvent \<Rightarrow> hook_state \<Rightarrow> string option \<times> hook_state" where
  "ProcessPullRequest p event st =
     (case p_projects p (pr_ProjectID event) of
        Inl e \<Rightarrow> (Some (''getting webhook config: '' @ e), st)
      | Inr None \<Rightarrow> (None, st)
      | Inr (Some cfg) \<Rightarrow>
          if \<not> wc_Enabled cfg \<or> \<not> wc_AutoDeployOnPR cfg then (None, st)
          else if pr_Action event \<in> {''opened'', ''synchronize'', ''reopened''}
          then trigger p
            \<lparr>dc_projectID = pr_ProjectID event, dc_branch = pr_SourceBranch event, dc_commit = '''',
             dc_triggeredBy = ''webhook:'' @ pr_Provider event,
             dc_triggerSource = ''PR #'' @ Itoa (pr_Number event) @ '': '' @ pr_Title event @ '' by '' @ pr_Author event\<rparr> st
          else (None, st))"

definition ProcessTag :: "DefaultEventProcessor \<Rightarrow> TagEvent \<Rightarrow> hook_state \<Rightarrow> string option \<times> hook_state" where
  "ProcessTag p event st =
     (if tag_Deleted event then (None, st)
      else
        (case p_projects p (tag_ProjectID event) of
           Inl e \<Rightarrow> (Some (''getting webhook config: '' @ e), st)
         | Inr None \<Rightarrow> (None, st)
         | Inr (Some cfg) \<Rightarrow>
             if \<not> wc_Enabled cfg \<or> \<not> wc_AutoDeployOnTag cfg then (None, st)
             else trigger p
               \<lparr>dc_projectID = tag_ProjectID event, dc_branch = ''refs/tags/'' @ tag_Tag event,
                dc_commit = tag_Commit event, dc_triggeredBy = ''webhook:'' @ tag_Provider event,
                dc_triggerSource = ''tag '' @ tag_Tag event @ '' by '' @ tag_Author event\<rparr> st))"

section \<open>The secret store of the server\<close>

definition hook_providers :: "string list" where
  "hook_providers = [''github'', ''gitlab'', ''bitbucket'']"

text \<open>\<open>ks\<close> is the order in which each lookup visits the table of webhooks.\<close>

fun first_secret ::
  "aead \<Rightarrow> (string \<Rightarrow> string list) \<Rightarrow> string \<Rightarrow> string list \<Rightarrow> KMS option \<times> SecurityStore
     \<Rightarrow> string option \<times> KMS option" where
  "first_secret c ks pid [] (kms, s) = (Some '''', kms)"
| "first_secret c ks pid (provider # providers) (kms, s) =
     (case GetProjectWebhook pid provider (ks provider) (MemoryStore.truncate s) of
        Inl e \<Rightarrow> first_secret c ks pid providers (kms, s)
      | Inr webhook \<Rightarrow>
          if webhook_Enabled webhook \<and> webhook_SecretEncrypted webhook \<noteq> '''' then
            (case kms of
               None \<Rightarrow> first_secret c ks pid providers (kms, s)
             | Some k \<Rightarrow>
                 (case Decrypt c (webhook_SecretEncrypted webhook) (k, s) of
                    (None, k') \<Rightarrow> (None, Some k')
                  | (Some (Inl e), k') \<Rightarrow> first_secret c ks pid providers (Some k', s)
                  | (Some (Inr secret), k') \<Rightarrow> (Some secret, Some k')))
          else first_secret c ks pid providers (kms, s))"

definition GetWebhookSecret ::
  "aead \<Rightarrow> (string \<Rightarrow> string list) \<Rightarrow> string \<Rightarrow> hook_state \<Rightarrow> (string + string) option \<times> hook_state" where
  "GetWebhookSecret c ks projectID st =
     (case GetProjectByName projectID (MemoryStore.truncate (hs_store st)) of
        Inl store_error.ErrNotFound \<Rightarrow> (Some (Inl (''project not found: '' @ projectID)), st)
      | Inl e \<Rightarrow> (Some (Inl (''looking up project: '' @ store_err e)), st)
      | Inr project \<Rightarrow>
          (case first_secret c ks (project_ID project) hook_providers (hs_kms st, hs_store st) of
             (secret, kms') \<Rightarrow> (map_option Inr secret, st\<lparr>hs_kms := kms'\<rparr>)))"

definition IsSecretRequired :: "(string \<Rightarrow> string list) \<Rightarrow> string \<Rightarrow> hook_state \<Rightarrow> bool" where
  "IsSecretRequired ks projectID st =
     (case GetProjectByName projectID (MemoryStore.truncate (hs_store st)) of
        Inl e \<Rightarrow> False
      | Inr project \<Rightarrow>
          list_ex (\<lambda>provider.
            case GetProjectWebhook (project_ID project) provider (ks provider) (MemoryStore.truncate (hs_store st)) of
              Inl e \<Rightarrow> False
            | Inr webhook \<Rightarrow> webhook_Enabled webhook \<and> webhook_RequireSecret webhook) hook_providers)"

definition webhook_handler ::
  "aead \<Rightarrow> (string \<Rightarrow> string list) \<Rightarrow> DefaultEventProcessor \<Rightarrow> hook_state Handler" where
  "webhook_handler c ks p =
     \<lparr>h_GetWebhookSecret = GetWebhookSecret c ks, h_IsSecretRequired = IsSecretRequired ks,
      h_ProcessPush = ProcessPush p, h_ProcessPullRequest = ProcessPullRequest p, h_ProcessTag = ProcessTag p\<rparr>"

section \<open>The routes\<close>

text \<open>The handler is missing until \<open>SetWebhookHandler\<close> has been called.\<close>

definition handleGitHubWebhook ::
  "'st Handler option \<Rightarrow> payload_decoders \<Rightarrow> (string \<Rightarrow> string \<Rightarrow> string) \<Rightarrow> HookRequest \<Rightarrow> 'st \<Rightarrow> hook_reply option \<times> 'st" where
  "handleGitHubWebhook handler d hmac r st =
     (if req_Method r \<noteq> ''POST'' then (Some (ServerError 405 ''method not allowed''), st)
      else
        (case handler of
           Some h \<Rightarrow> HandleGitHub h d hmac r st
         | None \<Rightarrow>
             if req_Header r ''X-Hub-Signature-256'' = '''' then (Some (ServerError 401 ''missing signature''), st)
             else (Some StatusOK, st)))"

definition handleGitLabWebhook ::
  "'st Handler option \<Rightarrow> payload_decoders \<Rightarrow> HookRequest \<Rightarrow> 'st \<Rightarrow> hook_reply option \<times> 'st" where
  "handleGitLabWebhook handler d r st =
     (if req_Method r \<noteq> ''POST'' then (Some (ServerError 405 ''method not allowed''), st)
      else
        (case handler of
           Some h \<Rightarrow> HandleGitLab h d r st
         | None \<Rightarrow>
             if req_Header r ''X-Gitlab-Token'' = '''' then (Some (ServerError 401 ''missing token''), st)
             else (Some StatusOK, st)))"

definition handleBitbucketWebhook ::
  "'st Handler option \<Rightarrow> payload_decoders \<Rightarrow> HookRequest \<Rightarrow> 'st \<Rightarrow> hook_reply option \<times> 'st" where
  "handleBitbucketWebhook handler d r st =
     (if req_Method r \<noteq> ''POST'' then (Some (ServerError 405 ''method not allowed''), st)
      else (case handler of Some h \<Rightarrow> HandleBitbucket h d r st | None \<Rightarrow> (Some StatusOK, st)))"

section \<open>The configuration service\<close>

definition Webhook_Get :: "string \<Rightarrow> string \<Rightarrow> string list \<Rightarrow> secret_service \<Rightarrow> ProjectWebhook service_result" where
  "Webhook_Get projectID provider ks = (\<lambda>(kms, s). unwrapped (GetProjectWebhook projectID provider ks (MemoryStore.truncate s)))"

definition Webhook_Set ::
  "aead \<Rightarrow> random \<Rightarrow> time \<Rightarrow> string \<Rightarrow> string list \<Rightarrow> string \<Rightarrow> string \<Rightarrow> string \<Rightarrow> bool \<Rightarrow> bool
     \<Rightarrow> secret_service \<Rightarrow> unit service_result \<times> secret_service" where
  "Webhook_Set c rnd now xid ks projectID provider secret enabled requireSecret = (\<lambda>(kms, s).
     case (if secret \<noteq> '''' then (case kms of Some k \<Rightarrow> Encrypt c rnd secret k | None \<Rightarrow> Inr secret) else Inr secret) of
       Inl e \<Rightarrow> (Inl (Wrap ''encrypting webhook secret'' (TextError e)), kms, s)
     | Inr encryptedSecret \<Rightarrow>
         (case on_base (SetProjectWebhook projectID provider encryptedSecret enabled requireSecret now xid ks) s of
            (r, s') \<Rightarrow> (wrap ''setting webhook config'' r, kms, s')))"

definition Webhook_List :: "string \<Rightarrow> string list \<Rightarrow> secret_service \<Rightarrow> ProjectWebhook list" where
  "Webhook_List projectID ks = (\<lambda>(kms, s). ListProjectWebhooks projectID ks (MemoryStore.truncate s))"

definition Webhook_Delete ::
  "string \<Rightarrow> string \<Rightarrow> time \<Rightarrow> string list \<Rightarrow> secret_service \<Rightarrow> unit service_result \<times> secret_service" where
  "Webhook_Delete projectID provider now ks = (\<lambda>(kms, s).
     case on_base (DeleteProjectWebhook projectID provider now ks) s of
       (r, s') \<Rightarrow> (wrap ''deleting webhook'' r, kms, s'))"

definition GetDecryptedSecret ::
  "aead \<Rightarrow> string \<Rightarrow> string \<Rightarrow> string list \<Rightarrow> secret_service \<Rightarrow> string service_result option \<times> secret_service" where
  "GetDecryptedSecret c projectID provider ks = (\<lambda>(kms, s).
     case GetProjectWebhook projectID provider ks (MemoryStore.truncate s) of
       Inl e \<Rightarrow> (Some (Inl (StorageError e)), kms, s)
     | Inr webhook \<Rightarrow>
         if webhook_SecretEncrypted webhook = '''' then (Some (Inr ''''), kms, s)
         else
           (case kms of
              None \<Rightarrow> (Some (Inr (webhook_SecretEncrypted webhook)), kms, s)
            | Some k \<Rightarrow>
                (case Decrypt c (webhook_SecretEncrypted webhook) (k, s) of
                   (None, k') \<Rightarrow> (None, Some k', s)
                 | (Some (Inl e), k') \<Rightarrow> (Some (Inl (Wrap ''decrypting webhook secret'' (TextError e))), Some k', s)
                 | (Some (Inr decrypted), k') \<Rightarrow> (Some (Inr decrypted), Some k', s))))"

definition Webhook_CleanupOrphaned ::
  "time \<Rightarrow> string list \<Rightarrow> secret_service \<Rightarrow> int service_result \<times> secret_service" where
  "Webhook_CleanupOrphaned now ks = (\<lambda>(kms, s).
     case on_base (CleanupOrphanedWebhooks now ks) s of
       (r, s') \<Rightarrow> (wrap ''cleaning up orphaned webhooks'' r, kms, s'))"

section \<open>Which requests reach the processor\<close>

text \<open>A GitHub request is signed when its header is the HMAC of the body under the project's secret; without
  a secret the request passes unless one is required.\<close>

definition signed :: "(string \<Rightarrow> string \<Rightarrow> string) \<Rightarrow> string \<Rightarrow> string \<Rightarrow> string \<Rightarrow> bool \<Rightarrow> bool" where
  "signed hmac body signature secret requireSecret \<longleftrightarrow>
     (if secret = '''' then \<not> requireSecret else signature = ''sha256='' @ hex_EncodeToString (hmac secret body))"

text \<open>A GitLab request carries the secret itself.\<close>

definition token_ok :: "string \<Rightarrow> string \<Rightarrow> bool \<Rightarrow> bool" where
  "token_ok token secret requireSecret \<longleftrightarrow> (if secret = [] then \<not> requireSecret else token = secret)"

definition branch_allowed :: "string \<Rightarrow> string list \<Rightarrow> string \<Rightarrow> bool" where
  "branch_allowed defaultBranch allowed branch \<longleftrightarrow>
     (if allowed = [] then branch \<in> {defaultBranch, ''master''}
      else \<exists>a \<in> set allowed. a = branch \<or> (\<exists>q. a = q @ ''*'' \<and> prefix q branch))"

definition auto_deploys :: "DefaultEventProcessor \<Rightarrow> string \<Rightarrow> string \<Rightarrow> bool" where
  "auto_deploys p projectID branch \<longleftrightarrow>
     (\<exists>cfg. p_projects p projectID = Inr (Some cfg) \<and> wc_Enabled cfg \<and> wc_AutoDeploy cfg \<and>
        branch_allowed (p_defaultBranch p) (wc_AutoDeployBranches cfg) branch)"

lemma TrimPrefix_eq: "HasPrefix s q \<Longrightarrow> TrimPrefix s q = t \<longleftrightarrow> s = q @ t"
  by (metis HasPrefix_def TrimPrefix_def append_eq_conv_conj)

lemma validateGitHubSignature_signed:
  "validateGitHubSignature hmac body signature secret requireSecret = signed hmac body signature secret requireSecret"
proof (cases "HasPrefix signature ''sha256=''")
  case True
  then show ?thesis by (simp add: validateGitHubSignature_def signed_def TrimPrefix_eq del: append_Cons)
next
  case False
  then have "signature \<noteq> ''sha256='' @ t" for t by (auto simp: HasPrefix_def)
  with False show ?thesis by (simp add: validateGitHubSignature_def signed_def del: append_Cons)
qed

lemma star_pattern:
  "(if HasSuffix a ''*'' then HasPrefix branch (TrimSuffix a ''*'') else a = branch) \<longleftrightarrow>
     a = branch \<or> (\<exists>q. a = q @ ''*'' \<and> prefix q branch)"
proof (cases "HasSuffix a ''*''")
  case True
  then obtain q where "a = q @ ''*''" by (auto simp: HasSuffix_iff suffix_def)
  with True show ?thesis by (auto simp: TrimSuffix_def HasPrefix_iff)
next
  case False
  then show ?thesis by (auto simp: HasSuffix_iff suffix_def)
qed

lemma shouldDeployBranch_allowed: "shouldDeployBranch p branch allowed = branch_allowed (p_defaultBranch p) allowed branch"
  by (simp add: shouldDeployBranch_def branch_allowed_def star_pattern list_ex_iff)

lemma truncateMessage_bounds:
  assumes "3 \<le> n"
  shows "length (truncateMessage s n) \<le> n" and "CHR 0x0A \<notin> set (truncateMessage s n)"
proof -
  have "CHR 0x0A \<notin> set (hd (Split s (CHR 0x0A)))"
    using Split_no_sep Split_nonempty by (metis hd_in_set)
  with assms show "length (truncateMessage s n) \<le> n" "CHR 0x0A \<notin> set (truncateMessage s n)"
    by (auto simp: truncateMessage_def Let_def dest: in_set_takeD)
qed

text \<open>The contract of a secret store: a lookup asks for no deployment and does not change what is required.\<close>

locale hook_secrets =
  fixes h :: "'st Handler" and calls :: "'st \<Rightarrow> 'c list"
  assumes lookup_calls: "calls (snd (h_GetWebhookSecret h projectID st)) = calls st"
    and lookup_required: "h_IsSecretRequired h projectID' (snd (h_GetWebhookSecret h projectID st)) =
      h_IsSecretRequired h projectID' st"
begin

lemma HandleGitHub_cases:
  assumes "projectID = extractProjectID (req_Path r) ''/webhook/github/''" and "read_body r = Some body"
  shows "if isValidProjectID projectID \<and>
       (\<exists>secret. fst (h_GetWebhookSecret h projectID st) = Some (Inr secret) \<and>
          signed hmac body (req_Header r ''X-Hub-Signature-256'') secret (h_IsSecretRequired h projectID st))
     then HandleGitHub h d hmac r st =
       apfst Some (dispatchGitHub h d body projectID (req_Header r ''X-GitHub-Event'') (snd (h_GetWebhookSecret h projectID st)))
     else fst (HandleGitHub h d hmac r st) \<noteq> Some StatusOK \<and> calls (snd (HandleGitHub h d hmac r st)) = calls st"
proof -
  obtain res st' where res: "h_GetWebhookSecret h projectID st = (res, st')" by fastforce
  then have "calls st' = calls st" "h_IsSecretRequired h projectID st' = h_IsSecretRequired h projectID st"
    using lookup_calls [of projectID st] lookup_required [of projectID projectID st] by simp_all
  with assms res show ?thesis
    by (simp add: HandleGitHub_def Let_def isValidProjectID_def validateGitHubSignature_signed StatusOK_def
        split: option.split sum.split)
qed

lemma HandleGitLab_cases:
  assumes "projectID = extractProjectID (req_Path r) ''/webhook/gitlab/''" and "read_body r = Some body"
  shows "if isValidProjectID projectID \<and>
       (\<exists>secret. fst (h_GetWebhookSecret h projectID st) = Some (Inr secret) \<and>
          token_ok (req_Header r ''X-Gitlab-Token'') secret (h_IsSecretRequired h projectID st))
     then HandleGitLab h d r st =
       apfst Some (dispatchGitLab h d body projectID (req_Header r ''X-Gitlab-Event'') (snd (h_GetWebhookSecret h projectID st)))
     else fst (HandleGitLab h d r st) \<noteq> Some StatusOK \<and> calls (snd (HandleGitLab h d r st)) = calls st"
proof -
  obtain res st' where res: "h_GetWebhookSecret h projectID st = (res, st')" by fastforce
  then have "calls st' = calls st" "h_IsSecretRequired h projectID st' = h_IsSecretRequired h projectID st"
    using lookup_calls [of projectID st] lookup_required [of projectID projectID st] by simp_all
  with assms res show ?thesis
    by (cases "\<exists>secret. res = Some (Inr secret)")
      (auto simp: HandleGitLab_def Let_def isValidProjectID_def StatusOK_def token_ok_def split: option.split sum.split)
qed

end

lemma GetWebhookSecret_frame [simp]:
  "hs_calls (snd (GetWebhookSecret c ks i st)) = hs_calls st"
  "hs_store (snd (GetWebhookSecret c ks i st)) = hs_store st"
  by (auto simp: GetWebhookSecret_def split: sum.split prod.split store_error.split)

lemma IsSecretRequired_lookup [simp]:
  "IsSecretRequired ks i (snd (GetWebhookSecret c ks' j st)) = IsSecretRequired ks i st"
  by (simp only: IsSecretRequired_def GetWebhookSecret_frame)

interpretation hooks: hook_secrets "webhook_handler c ks p" hs_calls for c ks p
  by unfold_locales (simp_all add: webhook_handler_def)

lemma handler_simps [simp]:
  "h_GetWebhookSecret (webhook_handler c ks p) = GetWebhookSecret c ks"
  "h_IsSecretRequired (webhook_handler c ks p) = IsSecretRequired ks"
  "h_ProcessPush (webhook_handler c ks p) = ProcessPush p"
  "h_ProcessPullRequest (webhook_handler c ks p) = ProcessPullRequest p"
  "h_ProcessTag (webhook_handler c ks p) = ProcessTag p"
  by (simp_all add: webhook_handler_def)

lemma snd_processed [simp]: "snd (processed x) = snd x"
  by (simp add: processed_def)

lemma ProcessPush_calls:
  "hs_calls (snd (ProcessPush p event st)) = hs_calls st @
     (if \<not> push_Deleted event \<and> auto_deploys p (push_ProjectID event) (push_Branch event)
      then [\<lparr>dc_projectID = push_ProjectID event, dc_branch = push_Branch event, dc_commit = push_Commit event,
             dc_triggeredBy = ''webhook:'' @ push_Provider event,
             dc_triggerSource = ''push by '' @ push_Author event @ '': '' @ truncateMessage (push_Message event) 50\<rparr>]
      else [])"
  by (auto simp: ProcessPush_def trigger_def auto_deploys_def shouldDeployBranch_allowed split: sum.split option.split)

text \<open>C15: a push reported by GitHub asks for exactly one deployment, of the pushed commit on the pushed
  branch, when the project is valid and known, the request is signed with the project's secret (or there is
  none and none is required), the reference is a branch that still exists, and the project deploys that
  branch automatically; otherwise it asks for none.\<close>

theorem HandleGitHub_push_deploys:
  assumes projectID: "projectID = extractProjectID (req_Path r) ''/webhook/github/''"
    and event: "req_Header r ''X-GitHub-Event'' = ''push''" and body: "read_body r = Some body"
    and payload: "j_GitHubPush d body = Some payload"
  shows "hs_calls (snd (HandleGitHub (webhook_handler c ks p) d hmac r st)) = hs_calls st @
    (if isValidProjectID projectID \<and>
       (\<exists>secret. fst (GetWebhookSecret c ks projectID st) = Some (Inr secret) \<and>
          signed hmac body (req_Header r ''X-Hub-Signature-256'') secret (IsSecretRequired ks projectID st)) \<and>
       \<not> HasPrefix (ghp_Ref payload) ''refs/tags/'' \<and> \<not> ghp_Deleted payload \<and>
       auto_deploys p projectID (TrimPrefix (ghp_Ref payload) ''refs/heads/'')
     then [\<lparr>dc_projectID = projectID, dc_branch = TrimPrefix (ghp_Ref payload) ''refs/heads/'',
            dc_commit = ghp_After payload, dc_triggeredBy = ''webhook:github'',
            dc_triggerSource = ''push by '' @ hc_AuthorName (ghp_HeadCommit payload) @ '': '' @
              truncateMessage (hc_Message (ghp_HeadCommit payload)) 50\<rparr>]
     else [])"
  using hooks.HandleGitHub_cases [OF projectID body, of c ks p st hmac d] event payload
  by (auto simp: dispatchGitHub_def handleGitHubPush_def Let_def ProcessPush_calls split: if_splits)

section \<open>A configured secret\<close>

lemma GetProjectByName_SetProjectWebhook [simp]:
  "GetProjectByName name (snd (SetProjectWebhook pid prov sec en req now xid ks s)) = GetProjectByName name s"
  by (simp add: GetProjectByName_def SetProjectWebhook_def Let_def new_obj_def split: option.split prod.split)

lemma SetProjectWebhook_Inr [simp]: "fst (SetProjectWebhook pid prov sec en req now xid ks s) = Inr ()"
  by (simp add: SetProjectWebhook_def Let_def new_obj_def split: option.split prod.split)

text \<open>A webhook that was set is found, whatever the order of the search.\<close>

lemma GetProjectWebhook_set:
  assumes wf: "webhooks_wf s" "enumerates ks (webhooks s)" "webhooks s xid = None"
    and s': "s' = snd (SetProjectWebhook pid prov sec en req now xid ks s)" and ks': "enumerates ks' (webhooks s')"
  obtains w where "GetProjectWebhook pid prov ks' s' = Inr w" and "webhook_SecretEncrypted w = sec"
    and "webhook_Enabled w = en" and "webhook_RequireSecret w = req"
proof -
  obtain i w where "deref (webhooks s') (webhookObjs s') = (deref (webhooks s) (webhookObjs s))(i \<mapsto> w)"
    and w: "webhook_ProjectID w = pid" "webhook_Provider w = prov" "webhook_SecretEncrypted w = sec"
      "webhook_Enabled w = en" "webhook_RequireSecret w = req"
    using SetProjectWebhook_keeps_pair [OF wf s'] by blast
  then have "deref (webhooks s') (webhookObjs s') i = Some w" by simp
  then obtain r where "webhooks s' i = Some r" "load (webhookObjs s') r = Some w" by (auto simp: deref_Some_iff)
  moreover have "webhooks_wf s'" unfolding s' using wf by (rule SetProjectWebhook_webhooks_wf)
  ultimately have "find_webhook pid prov ks' s' = Some (i, r, w)" using find_webhook_unique ks' w(1,2) by metis
  with w(3-5) that show ?thesis by (simp add: GetProjectWebhook_def)
qed


definition wit_hook_project :: Project where
  "wit_hook_project = \<lparr>project_ID = ''p1'', project_Name = ''blog'', project_Repository = ''git'', project_Branch = ''main'',
     project_DeployPath = ''/srv'', project_TypeID = None, project_CreatedAt = 5, project_UpdatedAt = 5,
     project_LastDeployAt = None, project_LastDeployStatus = '''', project_HealthCheckID = None,
     project_AutoRollbackEnabled = False, project_RollbackOnHealthFail = False\<rparr>"

definition wit_hook_store :: SecurityStore where
  "wit_hook_store = snd (on_base (CreateProject wit_hook_project 5 ''p1'') (snd wit_started))"

definition wit_hook_state :: hook_state where
  "wit_hook_state = \<lparr>hs_kms = None, hs_store = wit_hook_store, hs_calls = []\<rparr>"

definition wit_processor :: DefaultEventProcessor where
  "wit_processor = NewEventProcessor
     (\<lambda>_. Inr (Some \<lparr>wc_Enabled = True, wc_AutoDeploy = True, wc_AutoDeployBranches = [''release/*''],
        wc_AutoDeployOnTag = False, wc_AutoDeployOnPR = True, wc_PRDeployEnvironment = ''''\<rparr>)) (\<lambda>_. Inr ''d1'') ''''"

definition wit_github_push :: GitHubPush where
  "wit_github_push = \<lparr>ghp_Ref = ''refs/heads/release/2'', ghp_After = ''c2'', ghp_Forced = False, ghp_Deleted = False,
     ghp_CloneURL = ''git'', ghp_HeadCommit = \<lparr>hc_ID = ''c2'', hc_Message = ''fix'', hc_Timestamp = '''', hc_URL = '''',
       hc_AuthorName = ''ann'', hc_AuthorEmail = ''''\<rparr>\<rparr>"

definition wit_decoders :: payload_decoders where
  "wit_decoders = \<lparr>j_GitHubPush = (\<lambda>_. Some wit_github_push), j_GitHubPR = (\<lambda>_. None), j_GitHubTag = (\<lambda>_. None),
     j_GitLabPush = (\<lambda>_. None), j_GitLabMR = (\<lambda>_. None), j_GitLabTag = (\<lambda>_. None), j_BitbucketPush = (\<lambda>_. None),
     j_BitbucketPR = (\<lambda>_. None)\<rparr>"

definition wit_hook_request :: HookRequest where
  "wit_hook_request = \<lparr>req_Method = ''POST'', req_Path = ''/webhook/github/blog'',
     req_Header = (\<lambda>x. if x = ''X-GitHub-Event'' then ''push'' else ''''), req_Cookie = (\<lambda>_. None),
     req_FormValue = (\<lambda>_. ''''), req_RemoteAddr = '''', req_Context = background, req_Body = Some ''{}''\<rparr>"

lemma wit_started_tables:
  "projectsByName (MemoryStore.truncate (snd wit_started)) = Map.empty"
  "projectObjs (MemoryStore.truncate (snd wit_started)) = []"
  "webhooks (MemoryStore.truncate (snd wit_started)) = Map.empty"
  "webhookObjs (MemoryStore.truncate (snd wit_started)) = []"
  by (simp_all add: wit_started_def Initialize_def generateKey_def saveKey_def toStorageKey_def MasterKey_Encrypt_def
      NewCipher_def SaveEncryptionKey_def alloc_key_def new_obj_def wit_kms_def Let_def queue_core_def
      NewSecurityStore_def MemoryStore.defs NewMemoryStore_def)

lemma wit_hook_tables:
  "webhooks (MemoryStore.truncate wit_hook_store) = Map.empty"
  "webhookObjs (MemoryStore.truncate wit_hook_store) = []"
  "GetProjectByName ''blog'' (MemoryStore.truncate wit_hook_store) = Inr wit_hook_project"
  by (simp_all add: wit_hook_store_def CreateProject_def wit_started_tables Let_def new_obj_def wit_hook_project_def
      GetProjectByName_def deref_def load_def)

lemma wit_hook_id:
  "extractProjectID (req_Path wit_hook_request) ''/webhook/github/'' = ''blog''" "isValidProjectID ''blog''"
  by (simp_all add: extractProjectID_def wit_hook_request_def TrimPrefix_def HasPrefix_def Index.simps isValidProjectID_def
      project_id_char_def lower_def)

lemma wit_no_secret:
  "fst (GetWebhookSecret wit_cipher (\<lambda>_. []) ''blog'' wit_hook_state) = Some (Inr [])"
  "\<not> IsSecretRequired (\<lambda>_. []) ''blog'' wit_hook_state"
  by (simp_all add: GetWebhookSecret_def IsSecretRequired_def wit_hook_state_def wit_hook_tables hook_providers_def
      GetProjectWebhook_def find_webhook_def find_obj_def ref_range_def)

theorem HandleGitHub_push_deploys_witness:
  "map dc_branch (hs_calls (snd (HandleGitHub (webhook_handler wit_cipher (\<lambda>_. []) wit_processor) wit_decoders
     (\<lambda>k b. ''m'') wit_hook_request wit_hook_state))) = [''release/2'']"
proof -
  have h: "''blog'' = extractProjectID (req_Path wit_hook_request) ''/webhook/github/''"
    "req_Header wit_hook_request ''X-GitHub-Event'' = ''push''" "read_body wit_hook_request = Some ''{}''"
    "j_GitHubPush wit_decoders ''{}'' = Some wit_github_push"
    using wit_hook_id(1) by (simp_all add: read_body_def wit_hook_request_def wit_decoders_def)
  have "auto_deploys wit_processor ''blog'' ''release/2''"
    by (simp add: auto_deploys_def wit_processor_def NewEventProcessor_def branch_allowed_def)
  moreover have "TrimPrefix (ghp_Ref wit_github_push) ''refs/heads/'' = ''release/2''"
    "\<not> HasPrefix (ghp_Ref wit_github_push) ''refs/tags/''" "\<not> ghp_Deleted wit_github_push"
    by (simp_all add: wit_github_push_def TrimPrefix_def HasPrefix_def)
  ultimately show ?thesis
    using HandleGitHub_push_deploys [OF h, of wit_cipher "\<lambda>_. []" wit_processor "\<lambda>k b. ''m''" wit_hook_state]
      wit_no_secret wit_hook_id(2)
    by (simp add: signed_def) (simp add: wit_hook_state_def)
qed

definition wit_hook_set :: "unit service_result \<times> secret_service" where
  "wit_hook_set = Webhook_Set wit_cipher (Inr (wit_bytes 12)) 7 ''w1'' [] ''p1'' ''github'' ''s3cret'' True False
     (Some (fst wit_started), wit_hook_store)"


section \<open>What is not checked\<close>

text \<open>The lookup does not know which provider asks: the first secret that decrypts, in the order of the
  providers, is compared with the requests of all of them. A GitLab request that carries another secret,
  such as the one configured for GitLab, is refused.\<close>

lemma first_secret_rules_gitlab:
  assumes "projectID = extractProjectID (req_Path r) ''/webhook/gitlab/''" and "read_body r = Some body"
    and "fst (GetWebhookSecret c ks projectID st) = Some (Inr secret)" and "secret \<noteq> []"
    and "req_Header r ''X-Gitlab-Token'' \<noteq> secret"
  shows "hs_calls (snd (HandleGitLab (webhook_handler c ks p) d r st)) = hs_calls st"
  using hooks.HandleGitLab_cases [OF assms(1,2), of c ks p st d] assms(3-5) by (simp add: token_ok_def split: if_splits)

text \<open>A secret stored without encryption, as the service does when it has no key service, does not decrypt
  in the server. The failure is logged and the lookup reports that no secret is configured, so that
  unsigned requests pass unless a secret is required.\<close>

lemma SplitN_no_sep: "x \<notin> set t \<Longrightarrow> SplitN t x (Suc (Suc n)) = [t]"
  by (simp add: SplitN_def Split_single)

lemma plain_secret_ignored:
  assumes "CHR '':'' \<notin> set secret"
    and "GetProjectWebhook pid ''github'' (ks ''github'') (MemoryStore.truncate s) = Inr w" and "webhook_SecretEncrypted w = secret"
    and "\<And>prov. prov \<noteq> ''github'' \<Longrightarrow> GetProjectWebhook pid prov (ks prov) (MemoryStore.truncate s) = Inl e"
  shows "first_secret c ks pid hook_providers (Some k, s) = (Some [], Some k)"
proof -
  have "Decrypt c secret (k, s) = (Some (Inl ''invalid ciphertext format''), k)"
    using SplitN_no_sep [OF assms(1), of 2] by (simp add: Decrypt_def numeral_eq_Suc)
  with assms(2-4) show ?thesis by (simp add: hook_providers_def)
qed

text \<open>A Bitbucket push is not authenticated at all: whatever secret the project has, and even when one is
  required, a request with a suitable payload asks for a deployment.\<close>

lemma bitbucket_not_authenticated:
  assumes "projectID = extractProjectID (req_Path r) ''/webhook/bitbucket/''" and "isValidProjectID projectID"
    and "req_Header r ''X-Event-Key'' = ''repo:push''" and "read_body r = Some body"
    and "j_BitbucketPush d body = Some \<lparr>bbp_Changes = [change], bbp_Href = href\<rparr>" and "bc_NewType change = ''branch''"
    and "auto_deploys p projectID (bc_NewName change)"
  shows "map dc_commit (hs_calls (snd (HandleBitbucket (webhook_handler c ks p) d r st))) =
     map dc_commit (hs_calls st) @ [bc_NewHash change]"
proof -
  let ?ev = "\<lparr>push_Provider = ''bitbucket'', push_ProjectID = projectID, push_Repository = href,
    push_Branch = bc_NewName change, push_Commit = bc_NewHash change, push_CommitURL = [],
    push_Author = bc_NewAuthor change, push_AuthorEmail = [], push_Message = bc_NewMessage change,
    push_Timestamp = bc_NewDate change, push_ForcePush = bc_Forced change, push_Deleted = False\<rparr>"
  have "snd (bitbucket_changes (webhook_handler c ks p) projectID href [change] st) = snd (ProcessPush p ?ev st)"
    using assms(6) by (simp split: prod.split)
  moreover have "projectID \<noteq> []" using assms(2) by (auto simp: isValidProjectID_def)
  ultimately have "snd (HandleBitbucket (webhook_handler c ks p) d r st) = snd (ProcessPush p ?ev st)"
    using assms(1-5) by (simp add: HandleBitbucket_def handleBitbucketPush_def Let_def del: bitbucket_changes.simps)
  with assms(7) show ?thesis by (simp add: ProcessPush_calls)
qed

text \<open>The processor deploys pull requests on the actions of GitHub. GitLab names its actions \<open>open\<close>, \<open>update\<close>
  and \<open>reopen\<close>, and \<open>handleGitLabMR\<close> passes them on as they are: no merge request is deployed.\<close>

lemma gitlab_merge_requests_ignored:
  assumes "j_GitLabMR d body = Some payload"
    and "glr_Action payload \<in> {''open'', ''close'', ''reopen'', ''update'', ''approved'', ''unapproved'', ''approval'', ''unapproval'', ''merge''}"
  shows "hs_calls (snd (handleGitLabMR (webhook_handler c ks p) d body projectID st)) = hs_calls st"
  using assms by (auto simp: handleGitLabMR_def ProcessPullRequest_def split: sum.split option.split)

text \<open>Without a call of \<open>SetWebhookHandler\<close> every webhook that has a signature, token or nothing at all is
  acknowledged and forgotten.\<close>

lemma no_handler_acknowledges:
  "req_Method r = ''POST'' \<Longrightarrow> req_Header r ''X-Hub-Signature-256'' \<noteq> [] \<Longrightarrow> handleGitHubWebhook None d hmac r st = (Some StatusOK, st)"
  "req_Method r = ''POST'' \<Longrightarrow> req_Header r ''X-Gitlab-Token'' \<noteq> [] \<Longrightarrow> handleGitLabWebhook None d r st = (Some StatusOK, st)"
  "req_Method r = ''POST'' \<Longrightarrow> handleBitbucketWebhook None d r st = (Some StatusOK, st)"
  by (simp_all add: handleGitHubWebhook_def handleGitLabWebhook_def handleBitbucketWebhook_def)

end
