(* ===== verification/Spec2Isabelle.thy ===== *)
theory Spec2Isabelle
  imports Write_Behind Recipe_Persist Security_Persist Orchestrator Rate_Limiter Safe_Path Cmd_Validator Scheduler Login_Handlers Provision_Services Webhooks
begin

text \<open>
  A verification development for vcdeploy, a deployment server written in Go.

  \<^bold>\<open>The program.\<close> vcdeploy is a master server with agents on the target machines. The master keeps its
  data in an in-memory store (\<open>internal/storage/memory*.go\<close>) that answers all reads and writes behind
  itself to SQLite: every change is queued on one of seven channels, and a worker per connected database
  flushes batches of them in transactions. The HTTP and gRPC servers (\<open>internal/server\<close>) limit the rate
  of requests, call the services (\<open>internal/services\<close>) and through them the store. The orchestrator
  (\<open>internal/deploy\<close>) tracks running deployments and sends commands to agents. A scheduler
  (\<open>internal/scheduler\<close>) runs background jobs. The package \<open>internal/security\<close> holds the encryption
  keys and checks passwords, second factors, paths and commands. Webhooks of Git providers
  (\<open>internal/webhooks\<close>) ask for deployments, and a worker (\<open>internal/provision\<close>) installs agents over SSH.

  \<^bold>\<open>The theories.\<close> Each opens with what it models.
  \<^item> \<open>Prelude\<close>, \<open>Ref_Table\<close>, \<open>Dual_Index\<close>, \<open>Loop_Sort\<close>, \<open>Go_Strings\<close>: the vocabulary. Go values (times as
    nanoseconds, 64-bit integers with wrap-around, byte strings), heaps of objects behind pointers (locale
    \<open>object_heap\<close>), tables of pointers (\<open>keyed_table\<close>), two indexes over one set of objects
    (\<open>named_directory\<close>), the exchange sort the store uses for its listings, and the functions of \<open>strings\<close> and
    \<open>strconv\<close> the code calls.
  \<^item> \<open>Store_Model\<close>: the records of \<open>models.go\<close>, the write operations of \<open>writeop.go\<close> and the state of the
    in-memory store, \<open>MemoryStore\<close> of \<open>memory.go\<close>. The record has the tables of the modelled components.
  \<^item> \<open>Mem_Users\<close>, \<open>Mem_Projects\<close>, \<open>Mem_Deployments\<close>, \<open>Mem_Deployment_Agents\<close>, \<open>Mem_Audit\<close>, \<open>Mem_Agents\<close>,
    \<open>Mem_Cleanup\<close>: one theory per file \<open>memory_*.go\<close> (\<open>Mem_Audit\<close> also has \<open>memory_ratelimit.go\<close>), one
    definition per method, including the write operations it queues. Shown: the indexes stay consistent
    in every reachable store, each method does what its callers expect on every branch, listings are
    sorted and complete pages, cascades leave nothing behind, clean-ups are not observable.
  \<^item> \<open>Pagination\<close>: \<open>services/types.go\<close>, \<open>server/pagination.go\<close> and the slicing idioms of the store.
  \<^item> \<open>Write_Ops\<close>, \<open>Write_Behind\<close>: \<open>memory_writeops.go\<close>, \<open>FlushBatchFunc\<close>, the write workers of \<open>memory.go\<close>,
    \<open>NewCachedStore\<close> of \<open>factory.go\<close>. Shown: operations are handled once and in order, a batch is flushed
    entirely or not at all, which operations the executor refuses, and what is never persisted.
  \<^item> \<open>Orchestrator\<close>: \<open>deploy/orchestrator.go\<close>, each method as it runs alone and as a thread of atomic
    sections. Shown: invariants of every interleaving, the outcome of each method run alone, and that a
    listener mirrors the state.
  \<^item> \<open>Rate_Limiter\<close>: \<open>server/ratelimit.go\<close>. Shown: the token bucket bounds the requests allowed in any
    window of time, and blocks hold.
  \<^item> \<open>Safe_Path\<close>, \<open>Cmd_Validator\<close>: \<open>security/safepath.go\<close> and \<open>security/cmdvalidator.go\<close>. Shown: the path
    checks agree with following a path in the directory tree, and the command check with the program the
    shell would start.
  \<^item> \<open>Cron\<close>, \<open>Scheduler\<close>: \<open>scheduler/scheduler.go\<close>. Shown: parsed cron fields are in range, \<open>Next\<close> returns
    the earliest match, a tick runs each due job once and moves it into the future.

  \<^item> \<open>Mem_Provision\<close>, \<open>Provision_Services\<close>: \<open>memory_misc.go\<close>, \<open>services/hostkeys\<close>, \<open>services/provision\<close> and
    \<open>provision/worker.go\<close>. Shown: host keys are unique and trusted exactly when marked so, and a job that
    is run ends.
  \<^item> \<open>Recipe_Model\<close>, \<open>Mem_Recipes\<close>, \<open>Semver\<close>, \<open>Go_Json\<close>, \<open>Go_Json_Parse\<close>, \<open>Group_Index\<close>, \<open>Recipe_Services\<close>,
    \<open>Recipe_Deploy\<close>, \<open>Recipe_Persist\<close>: components, playbooks, activations and variable bindings in the
    store (\<open>memory_recipes.go\<close>), their services (\<open>services/recipes\<close>), the seed loader, the JSON they are
    written as, and what of it the executor accepts. Shown: the tables and indexes agree, activation on
    every branch, raw steps are deployed only with an approval, a secret in use cannot be deleted.
  \<^item> \<open>Security_Model\<close>, \<open>Mem_Security\<close>, \<open>Security_Persist\<close>: authorities, certificates, tokens, keys and recovery
    codes in the store (\<open>memory_security.go\<close>). Shown: history is kept, a recovery code is used once, and
    none of these tables is ever written to the database.
  \<^item> \<open>Base64\<close>, \<open>Crypto_Core\<close>, \<open>Kms\<close>, \<open>Secret_Service\<close>: the key service (\<open>kms.go\<close>, \<open>crypto.go\<close>,
    \<open>config_encryption.go\<close>) and the secrets encrypted with it (\<open>secrets.go\<close>). Shown: at most one active
    key, and what is encrypted or re-encrypted stays readable through rotations.
  \<^item> \<open>Auth_Rules\<close>, \<open>Account_Services\<close>, \<open>Http_Auth\<close>, \<open>Login_Handlers\<close>: passwords, one-time passwords, recovery
    codes and names (\<open>password.go\<close>, \<open>totp.go\<close>, \<open>recovery.go\<close>, \<open>validation.go\<close>), the services for users,
    sessions and API keys, the authentication wrappers and the rules of roles and scopes, and the handlers
    for login, set-up, passwords and second factors. Shown: who gets which access, when a login succeeds,
    and that a changed password ends the sessions.
  \<^item> \<open>Webhooks\<close>: \<open>internal/webhooks\<close>, its secret store in \<open>server/master.go\<close>, its routes and
    \<open>services/webhooks\<close>. The locale \<open>hook_secrets\<close> is the contract of the secret store, interpreted on the
    one of the server. Shown: which GitHub pushes ask for a deployment, that a configured secret guards
    the project, and which requests are not checked.

  \<^bold>\<open>Conventions.\<close> An operation is a function that takes the state and returns the result and the new
  state. Errors are values of a sum or option type; a run-time panic is \<open>None\<close>. \<open>time.Now()\<close> and
  \<open>xid.New()\<close> are arguments; an operation that reads the clock several times within one critical
  section takes one reading. A method of the store holds its lock throughout, so it is one step. Where Go
  ranges over a map and the order shows in the result, the order is an argument \<open>ks\<close>, and the theorems
  hold for every order. Contexts and log calls have no effect on the modelled state and are left out.

  \<^bold>\<open>Parameters.\<close> Code outside the repository is an argument of the definitions: the database driver and
  \<open>json.Marshal\<close> of labels (\<open>Write_Behind\<close>), the callbacks of the orchestrator, jobs and the time-zone data
  (\<open>Scheduler\<close>), CIDR matching (\<open>Rate_Limiter\<close>), regular expressions (\<open>Cmd_Validator\<close>), the working
  directory (\<open>Safe_Path\<close>), AES-GCM, Argon2, HKDF, SHA-256, HMAC and bcrypt, random bytes, the Unicode
  tables beyond ASCII (\<open>Crypto_Core\<close>, \<open>Kms\<close>, \<open>Auth_Rules\<close>, \<open>Account_Services\<close>, \<open>Webhooks\<close>), the semantic
  version library (\<open>Semver\<close>), the provisioner over SSH (\<open>Provision_Services\<close>), \<open>TriggerDeploy\<close> and the project
  configuration of the receiver (\<open>Webhooks\<close>), which the repository declares and does not implement, and
  \<open>net.SplitHostPort\<close>. The JSON bodies of requests are decoded before the handlers. No property assumes more of them than its statement says.

  \<^bold>\<open>Bounds and fuel.\<close> Two loops count their iterations: \<open>CronSchedule.Next\<close>, whose bound is the
  code's own, and the step loop of \<open>parseField\<close>, where 64 iterations are proved to be enough. All other
  loops are recursive functions with a termination proof. Token counts are real numbers where the
  code uses \<open>float64\<close>.

  \<^bold>\<open>Not modelled.\<close> The SQL store (\<open>db*.go\<close>, \<open>migrations.go\<close>) and the loader that fills the memory store
  from it: their meaning is that of SQLite. The issue of certificates and the ACME client: X.509 and
  network. The HTTP handlers beyond authentication and webhooks, the gRPC service, the web pages and the
  command line: they decode requests, call the modelled services and print. Export, import and migration
  of recipes: translations of documents over the modelled services. The agent, SSH, git, notifications,
  metrics, tracing and backup: input and output.
\<close>

end
